(* ===== verification/Prelude.thy ===== *)
theory Prelude
  imports Main "HOL-Library.Word" "HOL-Library.Signed_Division" "HOL-Library.Char_ord"
begin

text \<open>
  Shared vocabulary of the development: the machine integers of the Rust sources, the
  truncating division they use, the outcome of a fallible call, and the generic facts on
  lists and on bit masks that the component theories share.

  Conventions.
  \<^item> A Rust \<open>i32\<close> or \<open>i64\<close> is an \<open>int\<close>; every operation of the source that can leave the
    type's range is written with the cast that brings it back (\<open>as_i32\<close>, \<open>as_i64\<close>),
    which is what \<open>as\<close>, \<open>wrapping_sub\<close> and, in the release profile of the workspace
    (no overflow checks), plain \<open>+\<close>, \<open>-\<close> and \<open>*\<close> compute.
  \<^item> A Rust bit mask (\<open>u8\<close>, \<open>u32\<close>, \<open>u64\<close>) is a \<open>word\<close> of that width.
  \<^item> A Rust string or byte buffer is a \<open>string\<close>, one \<open>char\<close> per byte.
  \<^item> A Rust \<open>/\<close> on signed integers truncates towards zero: \<open>sdiv\<close>.
\<close>

unbundle bit_operations_syntax

named_theorems int_cast_simps \<open>rewrite rules for the signed casts\<close>
named_theorems mask_simps \<open>membership in a bit mask after an update\<close>

type_synonym u8 = "8 word"
type_synonym u16 = "16 word"
type_synonym u32 = "32 word"
type_synonym u64 = "64 word"
type_synonym bytes = string


section \<open>Outcomes of fallible calls\<close>

text \<open>
  \<open>Ok\<close> and \<open>Err\<close> are Rust's \<open>Result\<close>; \<open>Panic\<close> is a call that aborts the process (the
  release profile sets \<open>panic = "abort"\<close>), for instance a slice whose start is past its end.
\<close>

datatype ('a, 'e) outcome = Ok 'a | Err 'e | Panic

definition bind_outcome ::
  "('a, 'e) outcome \<Rightarrow> ('a \<Rightarrow> ('b, 'e) outcome) \<Rightarrow> ('b, 'e) outcome" where
  "bind_outcome r f = (case r of Ok a \<Rightarrow> f a | Err e \<Rightarrow> Err e | Panic \<Rightarrow> Panic)"

lemma bind_outcome_simps [simp]:
  "bind_outcome (Ok a) f = f a"
  "bind_outcome (Err e) f = Err e"
  "bind_outcome Panic f = Panic"
  by (simp_all add: bind_outcome_def)

lemma bind_outcome_eq_Ok:
  "bind_outcome r f = Ok b \<longleftrightarrow> (\<exists>a. r = Ok a \<and> f a = Ok b)"
  by (cases r) auto

definition ok_or :: "'a option \<Rightarrow> 'e \<Rightarrow> ('a, 'e) outcome" where
  "ok_or x e = (case x of Some a \<Rightarrow> Ok a | None \<Rightarrow> Err e)"

lemma ok_or_simps [simp]: "ok_or (Some a) e = Ok a" "ok_or None e = Err e"
  by (simp_all add: ok_or_def)

lemma ok_or_eq_Ok: "ok_or x e = Ok a \<longleftrightarrow> x = Some a"
  by (cases x) auto


section \<open>Signed machine integers\<close>

definition in_i32 :: "int \<Rightarrow> bool" where
  "in_i32 x \<longleftrightarrow> - 2147483648 \<le> x \<and> x \<le> 2147483647"

definition in_i64 :: "int \<Rightarrow> bool" where
  "in_i64 x \<longleftrightarrow> - 9223372036854775808 \<le> x \<and> x \<le> 9223372036854775807"

definition as_i32 :: "int \<Rightarrow> int" where
  "as_i32 x = (x + 2147483648) mod 4294967296 - 2147483648"

definition as_i64 :: "int \<Rightarrow> int" where
  "as_i64 x = (x + 9223372036854775808) mod 18446744073709551616 - 9223372036854775808"

lemma as_i32_id [int_cast_simps]: "in_i32 x \<Longrightarrow> as_i32 x = x"
  unfolding as_i32_def in_i32_def by (subst mod_pos_pos_trivial) auto

lemma as_i64_id [int_cast_simps]: "in_i64 x \<Longrightarrow> as_i64 x = x"
  unfolding as_i64_def in_i64_def by (subst mod_pos_pos_trivial) auto

lemma as_i32_range [simp, intro]: "in_i32 (as_i32 x)"
proof -
  have "0 \<le> (x + 2147483648) mod 4294967296" by simp
  moreover have "(x + 2147483648) mod 4294967296 < 4294967296" by simp
  ultimately show ?thesis unfolding as_i32_def in_i32_def by linarith
qed

lemma as_i32_0 [simp]: "as_i32 0 = 0"
  by (simp add: as_i32_def)

lemma in_i32_abs: "\<bar>x\<bar> \<le> 2147483647 \<Longrightarrow> in_i32 x"
  by (auto simp: in_i32_def)

lemma in_i64_abs: "\<bar>x\<bar> \<le> 9223372036854775807 \<Longrightarrow> in_i64 x"
  by (auto simp: in_i64_def)

lemma in_i32_imp_in_i64: "in_i32 x \<Longrightarrow> in_i64 x"
  by (auto simp: in_i32_def in_i64_def)

text \<open>Rust's \<open>clamp\<close>.\<close>

definition clamp :: "int \<Rightarrow> int \<Rightarrow> int \<Rightarrow> int" where
  "clamp lo hi x = (if x < lo then lo else if x > hi then hi else x)"

lemma clamp_bounds: "lo \<le> hi \<Longrightarrow> lo \<le> clamp lo hi x \<and> clamp lo hi x \<le> hi"
  by (auto simp: clamp_def)

lemma clamp_id: "lo \<le> x \<Longrightarrow> x \<le> hi \<Longrightarrow> clamp lo hi x = x"
  by (auto simp: clamp_def)

lemma clamp_mono: "lo \<le> hi \<Longrightarrow> x \<le> y \<Longrightarrow> clamp lo hi x \<le> clamp lo hi y"
  by (auto simp: clamp_def)


section \<open>Truncating division\<close>

lemma sdiv_nonneg: "0 \<le> (a::int) \<Longrightarrow> 0 < b \<Longrightarrow> a sdiv b = a div b"
  by (cases "a = 0") (auto simp: signed_divide_int_def)

lemma sdiv_minus: "(- (a::int)) sdiv b = - (a sdiv b)"
  by (simp add: signed_divide_int_def)

lemma sdiv_neg: "(a::int) < 0 \<Longrightarrow> 0 < b \<Longrightarrow> a sdiv b = - ((- a) div b)"
  using sdiv_nonneg [of "- a" b] sdiv_minus [of "- a" b] by simp

lemma sdiv_mono: "(a::int) \<le> a' \<Longrightarrow> 0 < b \<Longrightarrow> a sdiv b \<le> a' sdiv b"
proof (cases "a < 0")
  case True
  assume "a \<le> a'" "0 < b"
  show ?thesis
  proof (cases "a' < 0")
    case True
    with \<open>a < 0\<close> \<open>a \<le> a'\<close> \<open>0 < b\<close> show ?thesis
      by (simp add: sdiv_neg zdiv_mono1)
  next
    case False
    with \<open>a < 0\<close> \<open>0 < b\<close> have "a sdiv b \<le> 0" "0 \<le> a' sdiv b"
      by (simp_all add: sdiv_neg sdiv_nonneg pos_imp_zdiv_nonneg_iff)
    then show ?thesis by linarith
  qed
next
  case False
  assume "a \<le> a'" "0 < b"
  with False show ?thesis by (simp add: sdiv_nonneg zdiv_mono1)
qed

lemma sdiv_exact: "0 < b \<Longrightarrow> (a * b :: int) sdiv b = a"
proof (cases "0 \<le> a")
  case True
  assume "0 < b" with True show ?thesis by (simp add: sdiv_nonneg)
next
  case False
  assume b: "0 < b"
  define c where "c = - a"
  have "(c * b) sdiv b = c"
  proof -
    have "0 \<le> c" using False by (simp add: c_def)
    then show ?thesis using b by (simp add: sdiv_nonneg)
  qed
  moreover have "(- (c * b)) sdiv b = - ((c * b) sdiv b)" by (rule sdiv_minus)
  ultimately show ?thesis by (simp add: c_def)
qed

text \<open>A quotient lies between two integers when the dividend lies between their multiples.\<close>

lemma sdiv_between:
  assumes "0 < b" "lo * b \<le> (a::int)" "a \<le> hi * b"
  shows "lo \<le> a sdiv b \<and> a sdiv b \<le> hi"
  using sdiv_mono [OF assms(2,1)] sdiv_mono [OF assms(3,1)] sdiv_exact [OF assms(1)]
  by simp

lemma sdiv_abs_le: "0 < b \<Longrightarrow> \<bar>(a::int) sdiv b\<bar> \<le> \<bar>a\<bar>"
proof -
  assume b: "0 < b"
  have *: "0 \<le> x \<Longrightarrow> x div b \<le> x" for x
    using b by (metis div_by_1 linorder_not_less zdiv_mono2 zero_less_one int_one_le_iff_zero_less)
  show ?thesis
    using b * [of a] * [of "- a"]
    by (cases "a < 0") (auto simp: sdiv_neg sdiv_nonneg pos_imp_zdiv_nonneg_iff)
qed



section \<open>Sets of enumerated values kept in one word\<close>

text \<open>
  The sources keep several sets of enumerated values (held buttons, open interfaces, pressed
  D-pad directions) as the bits of one unsigned integer. The clients test a member with
  \<open>mask & bit != 0\<close>, add one with \<open>mask |= bit\<close> and drop one with \<open>mask &= !bit\<close>.
  What they rely on is that each value owns one bit of the word, and no two values share it.
\<close>

definition mask_has :: "'w::len word \<Rightarrow> 'w word \<Rightarrow> bool" where
  "mask_has m b \<longleftrightarrow> m AND b \<noteq> 0"

lemma mask_has_zero [simp]: "\<not> mask_has 0 b"
  by (simp add: mask_has_def)

lemma mask_has_or: "mask_has (m OR n) b \<longleftrightarrow> mask_has m b \<or> mask_has n b"
proof -
  have "(m OR n) AND b = (m AND b) OR (n AND b)"
    by (rule bit_eqI) (auto simp: bit_and_iff bit_or_iff)
  then show ?thesis by (simp add: mask_has_def or_eq_0_iff)
qed

lemma mask_has_single: "mask_has m (2 ^ n :: 'w::len word) \<longleftrightarrow> bit m n"
proof
  assume "mask_has m (2 ^ n)"
  then have "\<exists>k. bit (m AND 2 ^ n) k"
    unfolding mask_has_def by (auto simp: bit_eq_iff)
  then show "bit m n" by (auto simp: bit_and_iff bit_exp_iff)
next
  assume b: "bit m n"
  then have "bit (m AND 2 ^ n) n"
    by (auto simp: bit_and_iff bit_exp_iff dest: bit_imp_le_length)
  then show "mask_has m (2 ^ n)" unfolding mask_has_def by (metis bit_0_eq bot_apply bot_bool_def)
qed

locale bit_set =
  fixes bit_of :: "'a \<Rightarrow> 'w::len word" and index :: "'a \<Rightarrow> nat"
  assumes one_bit: "bit_of x = push_bit (index x) 1"
    and index_less: "index x < LENGTH('w)"
    and index_inj: "index x = index y \<Longrightarrow> x = y"
begin

lemma has_iff: "mask_has m (bit_of x) \<longleftrightarrow> bit m (index x)"
  by (simp add: one_bit mask_has_single)

lemma has_single: "mask_has (bit_of y) (bit_of x) \<longleftrightarrow> x = y"
  using index_less [of x] unfolding has_iff
  by (auto simp: one_bit bit_exp_iff dest: index_inj)

lemma has_insert: "mask_has (m OR bit_of y) (bit_of x) \<longleftrightarrow> x = y \<or> mask_has m (bit_of x)"
  by (auto simp: mask_has_or has_single)

lemma has_remove:
  "mask_has (m AND NOT (bit_of y)) (bit_of x) \<longleftrightarrow> x \<noteq> y \<and> mask_has m (bit_of x)"
proof -
  have "bit (m AND NOT (bit_of y)) (index x) \<longleftrightarrow> bit m (index x) \<and> \<not> bit (bit_of y) (index x)"
    using index_less [of x] by (auto simp: bit_and_iff bit_not_iff)
  moreover have "bit (bit_of y) (index x) \<longleftrightarrow> x = y"
    using has_single has_iff by blast
  ultimately show ?thesis by (auto simp: has_iff)
qed

lemma bit_nonzero: "bit_of x \<noteq> 0"
  using has_single [of x x] by (metis mask_has_zero)

end


section \<open>Machines that consume inputs and append outputs\<close>

text \<open>
  The deterministic components take one input at a time and append to a caller's buffer.
  \<open>run_steps\<close> feeds them a whole history. A machine keeps a promise \<open>inv\<close> for every history
  of admissible inputs when each single step keeps it.
\<close>

primrec run_steps :: "('s \<Rightarrow> 'i \<Rightarrow> 's \<times> 'o list) \<Rightarrow> 's \<Rightarrow> 'i list \<Rightarrow> 's \<times> 'o list" where
  "run_steps step s [] = (s, [])"
| "run_steps step s (i # is) =
    (case step s i of (s', out) \<Rightarrow> case run_steps step s' is of (s'', outs) \<Rightarrow> (s'', out @ outs))"

lemma run_steps_append:
  "run_steps step s (is @ js) =
    (case run_steps step s is of (s', out) \<Rightarrow>
       case run_steps step s' js of (s'', outs) \<Rightarrow> (s'', out @ outs))"
  by (induction "is" arbitrary: s) (auto split: prod.splits)

locale kept_invariant =
  fixes step :: "'s \<Rightarrow> 'i \<Rightarrow> 's \<times> 'o list" and ok :: "'i \<Rightarrow> bool"
    and inv :: "'s \<Rightarrow> bool" and out_ok :: "'o \<Rightarrow> bool"
  assumes step_inv: "inv s \<Longrightarrow> ok i \<Longrightarrow> inv (fst (step s i))"
    and step_out: "inv s \<Longrightarrow> ok i \<Longrightarrow> list_all out_ok (snd (step s i))"
begin

lemma run_inv: "inv s \<Longrightarrow> list_all ok is \<Longrightarrow> inv (fst (run_steps step s is))"
proof (induction "is" arbitrary: s)
  case (Cons i js)
  obtain s' out where st: "step s i = (s', out)" by force
  have "inv s'" using step_inv [of s i] Cons.prems st by auto
  then show ?case using Cons.IH [of s'] Cons.prems st by (auto split: prod.splits)
qed simp

lemma run_out: "inv s \<Longrightarrow> list_all ok is \<Longrightarrow> list_all out_ok (snd (run_steps step s is))"
proof (induction "is" arbitrary: s)
  case (Cons i js)
  obtain s' out where st: "step s i = (s', out)" by force
  have "inv s'" "list_all out_ok out"
    using step_inv [of s i] step_out [of s i] Cons.prems st by auto
  then show ?case using Cons.IH [of s'] Cons.prems st by (auto split: prod.splits)
qed simp

end

end
