(* ===== verification/Input.thy ===== *)
theory Input
  imports Prelude
begin

text \<open>
  The logical inputs of \<open>crates/wiiland-core/src/input.rs\<close>: the controller buttons with
  their stable numbers, the states of a button, and the interfaces that own a button.
  The section on masks is the bit every button owns in a \<open>u32\<close> (\<open>button_bit\<close> of
  \<open>engine.rs\<close>), with the interpretation of the bit-set contract.
\<close>

section \<open>Buttons\<close>

datatype button =
    BtnLeft | BtnRight | BtnUp | BtnDown | BtnPlus | BtnMinus | BtnOne | BtnTwo
  | BtnA | BtnB | BtnHome | BtnC | BtnZ | BtnX | BtnY
  | BtnShoulderLeft | BtnShoulderRight | BtnTriggerLeft | BtnTriggerRight
  | BtnThumbLeft | BtnThumbRight | BtnStrumBarUp | BtnStrumBarDown
  | BtnFretFarUp | BtnFretUp | BtnFretMid | BtnFretLow | BtnFretFarLow

definition Button_ALL :: "button list" where
  "Button_ALL =
    [BtnLeft, BtnRight, BtnUp, BtnDown, BtnA, BtnB, BtnPlus, BtnMinus, BtnHome, BtnOne, BtnTwo,
     BtnX, BtnY, BtnShoulderLeft, BtnShoulderRight, BtnTriggerLeft, BtnTriggerRight,
     BtnThumbLeft, BtnThumbRight, BtnC, BtnZ, BtnStrumBarUp, BtnStrumBarDown,
     BtnFretFarUp, BtnFretUp, BtnFretMid, BtnFretLow, BtnFretFarLow]"

definition Button_from_code :: "nat \<Rightarrow> button option" where
  "Button_from_code code = (if code < length Button_ALL then Some (Button_ALL ! code) else None)"

fun Button_code :: "button \<Rightarrow> nat" where
  "Button_code BtnLeft = 0"
| "Button_code BtnRight = 1"
| "Button_code BtnUp = 2"
| "Button_code BtnDown = 3"
| "Button_code BtnPlus = 6"
| "Button_code BtnMinus = 7"
| "Button_code BtnOne = 9"
| "Button_code BtnTwo = 10"
| "Button_code BtnA = 4"
| "Button_code BtnB = 5"
| "Button_code BtnHome = 8"
| "Button_code BtnC = 19"
| "Button_code BtnZ = 20"
| "Button_code BtnX = 11"
| "Button_code BtnY = 12"
| "Button_code BtnShoulderLeft = 13"
| "Button_code BtnShoulderRight = 14"
| "Button_code BtnTriggerLeft = 15"
| "Button_code BtnTriggerRight = 16"
| "Button_code BtnThumbLeft = 17"
| "Button_code BtnThumbRight = 18"
| "Button_code BtnStrumBarUp = 21"
| "Button_code BtnStrumBarDown = 22"
| "Button_code BtnFretFarUp = 23"
| "Button_code BtnFretUp = 24"
| "Button_code BtnFretMid = 25"
| "Button_code BtnFretLow = 26"
| "Button_code BtnFretFarLow = 27"

datatype button_state = Released | Pressed | Repeated

fun ButtonState_value :: "button_state \<Rightarrow> nat" where
  "ButtonState_value Released = 0"
| "ButtonState_value Pressed = 1"
| "ButtonState_value Repeated = 2"

record button_event =
  be_button :: button
  be_state :: button_state

datatype input_source =
  SrcCore | SrcNunchuk | SrcClassicController | SrcProController | SrcDrums | SrcGuitar

definition InputSource_ALL :: "input_source list" where
  "InputSource_ALL =
    [SrcCore, SrcNunchuk, SrcClassicController, SrcProController, SrcDrums, SrcGuitar]"

fun InputSource_index :: "input_source \<Rightarrow> nat" where
  "InputSource_index SrcCore = 0"
| "InputSource_index SrcNunchuk = 1"
| "InputSource_index SrcClassicController = 2"
| "InputSource_index SrcProController = 3"
| "InputSource_index SrcDrums = 4"
| "InputSource_index SrcGuitar = 5"

definition button_bit :: "button \<Rightarrow> u32" where
  "button_bit b = push_bit (Button_code b) 1"


section \<open>Lemmas\<close>

lemma Button_ALL_UNIV: "set Button_ALL = UNIV"
proof -
  have "b \<in> set Button_ALL" for b by (cases b) (simp_all add: Button_ALL_def)
  then show ?thesis by blast
qed

lemma Button_ALL_length [simp]: "length Button_ALL = 28"
  by (simp add: Button_ALL_def)

lemma Button_ALL_distinct: "distinct Button_ALL"
  by (simp add: Button_ALL_def)

lemma Button_code_less: "Button_code b < 28"
  by (cases b) simp_all

lemma Button_code_nth: "Button_ALL ! Button_code b = b"
  by (cases b) (simp_all add: Button_ALL_def)

lemma Button_code_inj: "Button_code b = Button_code c \<Longrightarrow> b = c"
  by (metis Button_code_nth)

lemma InputSource_index_less [simp]: "InputSource_index s < 6"
  by (cases s) simp_all

lemma InputSource_index_inj: "InputSource_index s = InputSource_index t \<Longrightarrow> s = t"
  by (cases s; cases t) simp_all

lemma InputSource_ALL_UNIV: "set InputSource_ALL = UNIV"
proof -
  have "s \<in> set InputSource_ALL" for s by (cases s) (simp_all add: InputSource_ALL_def)
  then show ?thesis by blast
qed

text \<open>Every list index below six is the index of a source.\<close>

lemma InputSource_index_surj: "n < 6 \<Longrightarrow> \<exists>s. InputSource_index s = n"
proof -
  assume "n < 6"
  then consider "n = 0" | "n = 1" | "n = 2" | "n = 3" | "n = 4" | "n = 5" by linarith
  then show ?thesis
    by cases (metis InputSource_index.simps)+
qed

text \<open>Buttons are ordered by their stable number.\<close>

instantiation button :: linorder
begin

definition less_eq_button :: "button \<Rightarrow> button \<Rightarrow> bool" where
  "less_eq_button b c \<longleftrightarrow> Button_code b \<le> Button_code c"

definition less_button :: "button \<Rightarrow> button \<Rightarrow> bool" where
  "less_button b c \<longleftrightarrow> Button_code b < Button_code c"

instance
  by standard (auto simp: less_eq_button_def less_button_def dest: Button_code_inj)

end

lemma Button_ALL_sorted: "sorted_wrt (<) Button_ALL"
  by (simp add: Button_ALL_def less_button_def)

lemma Button_from_code_iff: "Button_from_code n = Some b \<longleftrightarrow> Button_code b = n"
  using Button_code_less [of b] Button_code_nth
  by (auto simp: Button_from_code_def)
    (metis Button_ALL_distinct Button_ALL_length Button_code_less nth_eq_iff_index_eq)

text \<open>
  The two tables of \<open>input.rs\<close> that give the buttons their stable numbers agree:
  looking a number up in \<open>ALL\<close> succeeds with a button exactly when the button's \<open>code\<close> is
  that number; the numbers that succeed are \<open>0\<close> to \<open>27\<close> and every other number is refused.
\<close>

theorem button_numbers_bijective:
  "(Button_from_code n = Some b \<longleftrightarrow> Button_code b = n) \<and> (Button_from_code n = None \<longleftrightarrow> 28 \<le> n)"
  by (simp add: Button_from_code_iff) (simp add: Button_from_code_def not_less)


section \<open>The bit of a button\<close>

interpretation buttons: bit_set button_bit Button_code
proof
  fix x y :: button
  show "button_bit x = push_bit (Button_code x) 1" by (rule button_bit_def)
  show "Button_code x < LENGTH(32)" using Button_code_less [of x] by simp
  show "Button_code x = Button_code y \<Longrightarrow> x = y" by (rule Button_code_inj)
qed

end
