(* ===== verification/Config_Types.thy ===== *)
theory Config_Types
  imports Prelude
begin

text \<open>
  The data model of \<open>crates/wiiland-core/src/config.rs\<close>: the option types with their text
  forms, the \<open>Profile\<close> bit set, the records of the configuration with their defaults, and
  \<open>validate\<close>. Every \<open>as_str\<close>/\<open>parse\<close> pair is an interpretation of the contract
  \<open>exact_text\<close>, which the round trip of \<open>dump\<close> rests on.
\<close>

section \<open>Text forms\<close>

text \<open>A character that no separator, comment or blank of the line syntax uses.\<close>

definition plain_char :: "char \<Rightarrow> bool" where
  "plain_char c \<longleftrightarrow> 32 < (of_char c :: nat) \<and> (of_char c :: nat) < 127 \<and> c \<noteq> CHR ''#'' \<and> c \<noteq> CHR ''=''"

definition plain :: "string \<Rightarrow> bool" where
  "plain s \<longleftrightarrow> s \<noteq> [] \<and> list_all plain_char s"

text \<open>
  A printer (partial, as \<open>Profile::as_str\<close> is) and a parser that reads back what it prints.
  The printed text is never empty and needs no quoting in a configuration line.
\<close>

locale text_value =
  fixes print :: "'a \<Rightarrow> string option" and parse :: "string \<Rightarrow> 'a option"
  assumes parse_print: "print a = Some s \<Longrightarrow> parse s = Some a"
    and print_plain: "print a = Some s \<Longrightarrow> plain s"
begin

lemma print_inj: "print a = Some s \<Longrightarrow> print b = Some s \<Longrightarrow> a = b"
  using parse_print [of a s] parse_print [of b s] by simp

lemma printed_nonempty: "print a \<noteq> Some []"
  using print_plain [of a "[]"] by (auto simp: plain_def)

end

text \<open>A type whose text form is unique: the parser accepts nothing but printed values.\<close>

locale exact_text = text_value +
  assumes print_parse: "parse s = Some a \<Longrightarrow> print a = Some s"
begin

lemma parse_iff: "parse s = Some a \<longleftrightarrow> print a = Some s"
  using parse_print print_parse by blast

lemma parse_None_iff: "parse s = None \<longleftrightarrow> (\<forall>a. print a \<noteq> Some s)"
  by (metis option.exhaust option.distinct(1) parse_iff)

end


section \<open>Option types\<close>

datatype backend = Uinput

definition Backend_as_str :: "backend \<Rightarrow> string" where
  "Backend_as_str b = ''uinput''"

type_synonym profile = u8

definition GAMEPAD :: profile where "GAMEPAD = 1"
definition DESKTOP :: profile where "DESKTOP = 2"
definition BOTH :: profile where "BOTH = 3"

definition Profile_contains :: "profile \<Rightarrow> profile \<Rightarrow> bool" where
  "Profile_contains p q \<longleftrightarrow> p AND q = q"

definition Profile_is_valid :: "profile \<Rightarrow> bool" where
  "Profile_is_valid p \<longleftrightarrow> p \<noteq> 0 \<and> p \<le> BOTH"

definition Profile_as_str :: "profile \<Rightarrow> string option" where
  "Profile_as_str p =
    (if p = GAMEPAD then Some ''gamepad''
     else if p = DESKTOP then Some ''desktop''
     else if p = BOTH then Some ''both''
     else None)"

definition Profile_parse :: "string \<Rightarrow> profile option" where
  "Profile_parse v =
    (if v = ''gamepad'' then Some GAMEPAD
     else if v = ''desktop'' then Some DESKTOP
     else if v = ''both'' then Some BOTH
     else None)"

definition Profile_bitor :: "profile \<Rightarrow> profile \<Rightarrow> profile" where
  "Profile_bitor p q = p OR q"

datatype ir_tracking = TrackFirst | TrackCentroid | TrackDual

fun IrTracking_as_str :: "ir_tracking \<Rightarrow> string" where
  "IrTracking_as_str TrackFirst = ''first''"
| "IrTracking_as_str TrackCentroid = ''centroid''"
| "IrTracking_as_str TrackDual = ''dual''"

definition IrTracking_parse :: "string \<Rightarrow> ir_tracking option" where
  "IrTracking_parse v =
    (if v = ''first'' then Some TrackFirst
     else if v = ''centroid'' then Some TrackCentroid
     else if v = ''dual'' then Some TrackDual
     else None)"

datatype ir_aim_mapping = MapRelative | MapAbsolute

fun IrAimMapping_as_str :: "ir_aim_mapping \<Rightarrow> string" where
  "IrAimMapping_as_str MapRelative = ''relative''"
| "IrAimMapping_as_str MapAbsolute = ''absolute''"

definition IrAimMapping_parse :: "string \<Rightarrow> ir_aim_mapping option" where
  "IrAimMapping_parse v =
    (if v = ''relative'' then Some MapRelative
     else if v = ''absolute'' then Some MapAbsolute
     else None)"

datatype aim_mode = AimOff | AimMouse | AimRightStick

fun AimMode_as_str :: "aim_mode \<Rightarrow> string" where
  "AimMode_as_str AimOff = ''off''"
| "AimMode_as_str AimMouse = ''mouse''"
| "AimMode_as_str AimRightStick = ''right-stick''"

definition AimMode_parse :: "string \<Rightarrow> aim_mode option" where
  "AimMode_parse v =
    (if v = ''off'' then Some AimOff
     else if v = ''mouse'' then Some AimMouse
     else if v = ''right-stick'' then Some AimRightStick
     else None)"

datatype aim_source = SourceAuto | SourceIr | SourceMotionPlus | SourceAccelerometer

fun AimSource_as_str :: "aim_source \<Rightarrow> string" where
  "AimSource_as_str SourceAuto = ''auto''"
| "AimSource_as_str SourceIr = ''ir''"
| "AimSource_as_str SourceMotionPlus = ''motion-plus''"
| "AimSource_as_str SourceAccelerometer = ''accelerometer''"

definition AimSource_parse :: "string \<Rightarrow> aim_source option" where
  "AimSource_parse v =
    (if v = ''auto'' then Some SourceAuto
     else if v = ''ir'' then Some SourceIr
     else if v = ''motion-plus'' then Some SourceMotionPlus
     else if v = ''accelerometer'' then Some SourceAccelerometer
     else None)"

datatype aim_activation = ActAlways | ActB | ActZ | ActC

fun AimActivation_as_str :: "aim_activation \<Rightarrow> string" where
  "AimActivation_as_str ActAlways = ''always''"
| "AimActivation_as_str ActB = ''b''"
| "AimActivation_as_str ActZ = ''z''"
| "AimActivation_as_str ActC = ''c''"

definition AimActivation_parse :: "string \<Rightarrow> aim_activation option" where
  "AimActivation_parse v =
    (if v = ''always'' then Some ActAlways
     else if v = ''b'' then Some ActB
     else if v = ''z'' then Some ActZ
     else if v = ''c'' then Some ActC
     else None)"

datatype desktop_action = ActionDisabled | ActionLeftClick | ActionRightClick | ActionEnter | ActionEscape | ActionOverview | ActionPageUp | ActionPageDown

fun DesktopAction_as_str :: "desktop_action \<Rightarrow> string" where
  "DesktopAction_as_str ActionDisabled = ''disabled''"
| "DesktopAction_as_str ActionLeftClick = ''left-click''"
| "DesktopAction_as_str ActionRightClick = ''right-click''"
| "DesktopAction_as_str ActionEnter = ''enter''"
| "DesktopAction_as_str ActionEscape = ''escape''"
| "DesktopAction_as_str ActionOverview = ''overview''"
| "DesktopAction_as_str ActionPageUp = ''page-up''"
| "DesktopAction_as_str ActionPageDown = ''page-down''"

definition DesktopAction_parse :: "string \<Rightarrow> desktop_action option" where
  "DesktopAction_parse v =
    (if v = ''disabled'' then Some ActionDisabled
     else if v = ''left-click'' then Some ActionLeftClick
     else if v = ''right-click'' then Some ActionRightClick
     else if v = ''enter'' then Some ActionEnter
     else if v = ''escape'' then Some ActionEscape
     else if v = ''overview'' then Some ActionOverview
     else if v = ''page-up'' then Some ActionPageUp
     else if v = ''page-down'' then Some ActionPageDown
     else None)"


section \<open>Records\<close>

record ir_rectangle =
  rect_left :: int
  rect_right :: int
  rect_top :: int
  rect_bottom :: int

record sensor_calibration =
  cal_x :: int
  cal_y :: int
  cal_z :: int
  cal_axes :: u8

definition CAL_X :: u8 where "CAL_X = 1"
definition CAL_Y :: u8 where "CAL_Y = 2"
definition CAL_Z :: u8 where "CAL_Z = 4"
definition CAL_ALL :: u8 where "CAL_ALL = 7"

definition SensorCalibration_complete :: "sensor_calibration \<Rightarrow> bool" where
  "SensorCalibration_complete c \<longleftrightarrow> cal_axes c = CAL_ALL"

record desktop_bindings =
  bind_a :: desktop_action
  bind_b :: desktop_action
  bind_plus :: desktop_action
  bind_minus :: desktop_action
  bind_home :: desktop_action
  bind_one :: desktop_action
  bind_two :: desktop_action

definition DesktopBindings_default :: desktop_bindings where
  "DesktopBindings_default =
    \<lparr>bind_a = ActionLeftClick, bind_b = ActionRightClick, bind_plus = ActionEnter,
     bind_minus = ActionEscape, bind_home = ActionOverview, bind_one = ActionPageDown,
     bind_two = ActionPageUp\<rparr>"

text \<open>\<open>set\<close> returns the updated bindings, or \<open>None\<close> where the source returns \<open>false\<close>.\<close>

definition DesktopBindings_set ::
  "desktop_bindings \<Rightarrow> string \<Rightarrow> desktop_action \<Rightarrow> desktop_bindings option" where
  "DesktopBindings_set b name v =
    (if name = ''a'' then Some (b\<lparr>bind_a := v\<rparr>)
     else if name = ''b'' then Some (b\<lparr>bind_b := v\<rparr>)
     else if name = ''plus'' then Some (b\<lparr>bind_plus := v\<rparr>)
     else if name = ''minus'' then Some (b\<lparr>bind_minus := v\<rparr>)
     else if name = ''home'' then Some (b\<lparr>bind_home := v\<rparr>)
     else if name = ''one'' then Some (b\<lparr>bind_one := v\<rparr>)
     else if name = ''two'' then Some (b\<lparr>bind_two := v\<rparr>)
     else None)"

definition DesktopBindings_iter :: "desktop_bindings \<Rightarrow> (string \<times> desktop_action) list" where
  "DesktopBindings_iter b =
    [(''a'', bind_a b), (''b'', bind_b b), (''plus'', bind_plus b), (''minus'', bind_minus b),
     (''home'', bind_home b), (''one'', bind_one b), (''two'', bind_two b)]"

datatype device_rule_kind = Syspath | Devtype

fun DeviceRuleKind_prefix :: "device_rule_kind \<Rightarrow> string" where
  "DeviceRuleKind_prefix Syspath = ''device''"
| "DeviceRuleKind_prefix Devtype = ''device-type''"

record device_rule =
  rule_kind :: device_rule_kind
  rule_match_text :: string
  rule_profile :: profile

record config =
  cfg_backend :: backend
  cfg_profile :: profile
  cfg_pointer_speed :: int
  cfg_ir_speed :: int
  cfg_ir_deadzone :: int
  cfg_ir_smoothing :: int
  cfg_ir_tracking :: ir_tracking
  cfg_ir_aim_mapping :: ir_aim_mapping
  cfg_ir_screen :: "ir_rectangle option"
  cfg_aim_mode :: aim_mode
  cfg_aim_source :: aim_source
  cfg_aim_activation :: aim_activation
  cfg_aim_sensitivity :: int
  cfg_aim_deadzone :: int
  cfg_aim_smoothing :: int
  cfg_aim_invert_x :: bool
  cfg_aim_invert_y :: bool
  cfg_aim_accel_zero :: "sensor_calibration option"
  cfg_aim_motion_plus_bias :: "sensor_calibration option"
  cfg_aim_calibration_duration :: int
  cfg_desktop_bindings :: desktop_bindings
  cfg_device_rules :: "device_rule list"

definition Config_default :: config where
  "Config_default =
    \<lparr>cfg_backend = Uinput, cfg_profile = GAMEPAD, cfg_pointer_speed = 16, cfg_ir_speed = 8,
     cfg_ir_deadzone = 0, cfg_ir_smoothing = 0, cfg_ir_tracking = TrackDual,
     cfg_ir_aim_mapping = MapRelative, cfg_ir_screen = None, cfg_aim_mode = AimOff,
     cfg_aim_source = SourceAuto, cfg_aim_activation = ActB, cfg_aim_sensitivity = 16,
     cfg_aim_deadzone = 4, cfg_aim_smoothing = 25, cfg_aim_invert_x = False,
     cfg_aim_invert_y = False, cfg_aim_accel_zero = None, cfg_aim_motion_plus_bias = None,
     cfg_aim_calibration_duration = 8, cfg_desktop_bindings = DesktopBindings_default,
     cfg_device_rules = []\<rparr>"

definition MAX_DEVICE_RULES :: nat where "MAX_DEVICE_RULES = 32"
definition MAX_LINE_BYTES :: nat where "MAX_LINE_BYTES = 512"

text \<open>
  An I/O error of the standard library: whether its kind is \<open>NotFound\<close>, and its text. A
  configuration error carries the (lossy) text of the path, the line and the message.
\<close>

record io_error =
  io_not_found :: bool
  io_text :: string

record config_error =
  ce_path :: string
  ce_line :: "nat option"
  ce_message :: string
  ce_source :: "io_error option"

definition ConfigError_line :: "string \<Rightarrow> nat \<Rightarrow> string \<Rightarrow> config_error" where
  "ConfigError_line path line message =
    \<lparr>ce_path = path, ce_line = Some line, ce_message = message, ce_source = None\<rparr>"

definition ConfigError_io :: "string \<Rightarrow> io_error \<Rightarrow> config_error" where
  "ConfigError_io path e =
    \<lparr>ce_path = path, ce_line = None, ce_message = io_text e, ce_source = Some e\<rparr>"


section \<open>Validation\<close>

definition config_bad :: "string \<Rightarrow> config_error" where
  "config_bad msg = \<lparr>ce_path = ''config'', ce_line = None, ce_message = msg, ce_source = None\<rparr>"

definition between :: "int \<Rightarrow> int \<Rightarrow> int \<Rightarrow> bool" where
  "between lo hi x \<longleftrightarrow> lo \<le> x \<and> x \<le> hi"

text \<open>The checks of one calibration in the loop of \<open>validate\<close>: \<open>None\<close> means no error.\<close>

definition validate_calibration ::
  "string \<Rightarrow> sensor_calibration option \<Rightarrow> config_error option" where
  "validate_calibration name c =
    (case c of None \<Rightarrow> None
     | Some c \<Rightarrow>
         if cal_axes c AND NOT CAL_ALL \<noteq> 0 then Some (config_bad ''invalid sensor calibration axes'')
         else if cal_axes c \<noteq> 0 \<and> \<not> SensorCalibration_complete c
         then Some (config_bad (name @ '' calibration requires complete x, y, and z values''))
         else None)"

definition Config_validate :: "config \<Rightarrow> config_error option" where
  "Config_validate c =
    (if \<not> Profile_is_valid (cfg_profile c) then Some (config_bad ''invalid profile'')
     else if \<not> between 1 127 (cfg_pointer_speed c)
        \<or> \<not> between 1 127 (cfg_ir_speed c)
        \<or> \<not> between 0 127 (cfg_ir_deadzone c)
        \<or> \<not> between 0 95 (cfg_ir_smoothing c)
        \<or> \<not> between 1 127 (cfg_aim_sensitivity c)
        \<or> \<not> between 0 32767 (cfg_aim_deadzone c)
        \<or> \<not> between 0 95 (cfg_aim_smoothing c)
        \<or> \<not> between 1 30 (cfg_aim_calibration_duration c)
     then Some (config_bad ''configuration value out of range'')
     else if (case cfg_ir_screen c of None \<Rightarrow> False
              | Some r \<Rightarrow> rect_right r \<le> rect_left r \<or> rect_bottom r \<le> rect_top r)
     then Some (config_bad ''IR screen calibration requires right > left and bottom > top'')
     else case validate_calibration ''accelerometer'' (cfg_aim_accel_zero c) of
       Some e \<Rightarrow> Some e
     | None \<Rightarrow>
       (case validate_calibration ''MotionPlus'' (cfg_aim_motion_plus_bias c) of
          Some e \<Rightarrow> Some e
        | None \<Rightarrow>
            if MAX_DEVICE_RULES < length (cfg_device_rules c)
              \<or> list_ex (\<lambda>r. rule_match_text r = [] \<or> \<not> Profile_is_valid (rule_profile r))
                  (cfg_device_rules c)
            then Some (config_bad ''invalid device rule'')
            else None))"

text \<open>
  The same contract as one predicate: what a \<open>ValidatedConfig\<close> (a newtype that only
  \<open>validate\<close> creates) promises to the engine.
\<close>

definition calibration_ok :: "sensor_calibration option \<Rightarrow> bool" where
  "calibration_ok c \<longleftrightarrow> (\<forall>k. c = Some k \<longrightarrow> cal_axes k = 0 \<or> cal_axes k = CAL_ALL)"

definition config_ok :: "config \<Rightarrow> bool" where
  "config_ok c \<longleftrightarrow>
     Profile_is_valid (cfg_profile c) \<and>
     between 1 127 (cfg_pointer_speed c) \<and> between 1 127 (cfg_ir_speed c) \<and>
     between 0 127 (cfg_ir_deadzone c) \<and> between 0 95 (cfg_ir_smoothing c) \<and>
     between 1 127 (cfg_aim_sensitivity c) \<and> between 0 32767 (cfg_aim_deadzone c) \<and>
     between 0 95 (cfg_aim_smoothing c) \<and> between 1 30 (cfg_aim_calibration_duration c) \<and>
     (\<forall>r. cfg_ir_screen c = Some r \<longrightarrow> rect_left r < rect_right r \<and> rect_top r < rect_bottom r) \<and>
     calibration_ok (cfg_aim_accel_zero c) \<and> calibration_ok (cfg_aim_motion_plus_bias c) \<and>
     length (cfg_device_rules c) \<le> MAX_DEVICE_RULES \<and>
     (\<forall>r \<in> set (cfg_device_rules c). rule_match_text r \<noteq> [] \<and> Profile_is_valid (rule_profile r))"

lemma validate_calibration_None: "validate_calibration name c = None \<longleftrightarrow> calibration_ok c"
proof (cases c)
  case (Some k)
  have "cal_axes k AND NOT CAL_ALL = 0 \<Longrightarrow> cal_axes k = 0 \<Longrightarrow> True" by simp
  moreover have "CAL_ALL AND NOT CAL_ALL = 0" by simp
  ultimately show ?thesis
    using Some
    by (auto simp: validate_calibration_def calibration_ok_def SensorCalibration_complete_def)
qed (simp add: validate_calibration_def calibration_ok_def)

lemma first_error_None:
  "(case x of Some e \<Rightarrow> Some e | None \<Rightarrow> y) = None \<longleftrightarrow> x = None \<and> y = None"
  "(if P then Some e else y) = None \<longleftrightarrow> \<not> P \<and> y = None"
  by (auto split: option.splits)

lemma Config_validate_None: "Config_validate c = None \<longleftrightarrow> config_ok c"
proof -
  have screen: "(case s of None \<Rightarrow> False | Some r \<Rightarrow> rect_right r \<le> rect_left r \<or> rect_bottom r \<le> rect_top r)
      \<longleftrightarrow> \<not> (\<forall>r. s = Some r \<longrightarrow> rect_left r < rect_right r \<and> rect_top r < rect_bottom r)"
    for s :: "ir_rectangle option"
    by (cases s) auto
  show ?thesis
    unfolding Config_validate_def config_ok_def screen first_error_None validate_calibration_None
      list_ex_iff
    by (auto simp: not_less)
qed


section \<open>Interpretations of the text contract\<close>

lemmas plain_simps = plain_def plain_char_def


interpretation profile_text: exact_text Profile_as_str Profile_parse
  by standard
    (auto simp: Profile_as_str_def Profile_parse_def GAMEPAD_def DESKTOP_def BOTH_def plain_simps
      split: if_splits)

interpretation tracking_text: exact_text "\<lambda>a. Some (IrTracking_as_str a)" IrTracking_parse
proof
  fix a s
  show "Some (IrTracking_as_str a) = Some s \<Longrightarrow> IrTracking_parse s = Some a"
    by (cases a) (auto simp: IrTracking_parse_def)
  show "Some (IrTracking_as_str a) = Some s \<Longrightarrow> plain s"
    by (cases a) (auto simp: plain_simps)
  show "IrTracking_parse s = Some a \<Longrightarrow> Some (IrTracking_as_str a) = Some s"
    by (auto simp: IrTracking_parse_def split: if_splits)
qed

interpretation aim_mapping_text: exact_text "\<lambda>a. Some (IrAimMapping_as_str a)" IrAimMapping_parse
proof
  fix a s
  show "Some (IrAimMapping_as_str a) = Some s \<Longrightarrow> IrAimMapping_parse s = Some a"
    by (cases a) (auto simp: IrAimMapping_parse_def)
  show "Some (IrAimMapping_as_str a) = Some s \<Longrightarrow> plain s"
    by (cases a) (auto simp: plain_simps)
  show "IrAimMapping_parse s = Some a \<Longrightarrow> Some (IrAimMapping_as_str a) = Some s"
    by (auto simp: IrAimMapping_parse_def split: if_splits)
qed

interpretation mode_text: exact_text "\<lambda>a. Some (AimMode_as_str a)" AimMode_parse
proof
  fix a s
  show "Some (AimMode_as_str a) = Some s \<Longrightarrow> AimMode_parse s = Some a"
    by (cases a) (auto simp: AimMode_parse_def)
  show "Some (AimMode_as_str a) = Some s \<Longrightarrow> plain s"
    by (cases a) (auto simp: plain_simps)
  show "AimMode_parse s = Some a \<Longrightarrow> Some (AimMode_as_str a) = Some s"
    by (auto simp: AimMode_parse_def split: if_splits)
qed

interpretation source_text: exact_text "\<lambda>a. Some (AimSource_as_str a)" AimSource_parse
proof
  fix a s
  show "Some (AimSource_as_str a) = Some s \<Longrightarrow> AimSource_parse s = Some a"
    by (cases a) (auto simp: AimSource_parse_def)
  show "Some (AimSource_as_str a) = Some s \<Longrightarrow> plain s"
    by (cases a) (auto simp: plain_simps)
  show "AimSource_parse s = Some a \<Longrightarrow> Some (AimSource_as_str a) = Some s"
    by (auto simp: AimSource_parse_def split: if_splits)
qed

interpretation activation_text: exact_text "\<lambda>a. Some (AimActivation_as_str a)" AimActivation_parse
proof
  fix a s
  show "Some (AimActivation_as_str a) = Some s \<Longrightarrow> AimActivation_parse s = Some a"
    by (cases a) (auto simp: AimActivation_parse_def)
  show "Some (AimActivation_as_str a) = Some s \<Longrightarrow> plain s"
    by (cases a) (auto simp: plain_simps)
  show "AimActivation_parse s = Some a \<Longrightarrow> Some (AimActivation_as_str a) = Some s"
    by (auto simp: AimActivation_parse_def split: if_splits)
qed

interpretation action_text: exact_text "\<lambda>a. Some (DesktopAction_as_str a)" DesktopAction_parse
proof
  fix a s
  show "Some (DesktopAction_as_str a) = Some s \<Longrightarrow> DesktopAction_parse s = Some a"
    by (cases a) (auto simp: DesktopAction_parse_def)
  show "Some (DesktopAction_as_str a) = Some s \<Longrightarrow> plain s"
    by (cases a) (auto simp: plain_simps)
  show "DesktopAction_parse s = Some a \<Longrightarrow> Some (DesktopAction_as_str a) = Some s"
    by (auto simp: DesktopAction_parse_def split: if_splits)
qed

lemma Profile_as_str_valid: "Profile_is_valid p \<longleftrightarrow> (\<exists>s. Profile_as_str p = Some s)"
  unfolding Profile_is_valid_def Profile_as_str_def GAMEPAD_def DESKTOP_def BOTH_def
  by (auto simp: word_le_nat_alt unat_eq_0 [symmetric] word_unat_eq_iff simp del: unat_eq_0)

lemma Profile_parse_valid: "Profile_parse s = Some p \<Longrightarrow> Profile_is_valid p"
  using Profile_as_str_valid profile_text.print_parse by blast

end
