(* ===== verification/Std_Text.thy ===== *)
theory Std_Text
  imports Prelude
begin

text \<open>
  The parts of Rust's standard library on text that the sources use: \<open>core::str::from_utf8\<close>,
  \<open>str::parse::<i64>\<close> and the decimal \<open>Display\<close> of integers with their round trip,
  \<open>trim_matches\<close> on blanks, slicing, \<open>starts_with\<close>, \<open>ends_with\<close> and \<open>Iterator::position\<close>.
\<close>

section \<open>UTF-8 and numbers\<close>

text \<open>\<open>core::str::from_utf8\<close>: the well-formed byte sequences of the Unicode standard.\<close>

definition utf8_cont :: "nat \<Rightarrow> bool" where
  "utf8_cont b \<longleftrightarrow> 128 \<le> b \<and> b \<le> 191"

text \<open>The first continuation byte of a three or four byte sequence is restricted further.\<close>

definition utf8_second3 :: "nat \<Rightarrow> nat \<Rightarrow> bool" where
  "utf8_second3 a b \<longleftrightarrow>
    (if a = 224 then 160 \<le> b \<and> b \<le> 191 else if a = 237 then 128 \<le> b \<and> b \<le> 159 else utf8_cont b)"

definition utf8_second4 :: "nat \<Rightarrow> nat \<Rightarrow> bool" where
  "utf8_second4 a b \<longleftrightarrow>
    (if a = 240 then 144 \<le> b \<and> b \<le> 191 else if a = 244 then 128 \<le> b \<and> b \<le> 143 else utf8_cont b)"

text \<open>The length of the sequence a byte starts, \<open>0\<close> for a byte that starts none.\<close>

definition utf8_width :: "nat \<Rightarrow> nat" where
  "utf8_width a =
    (if a < 128 then 1 else if 194 \<le> a \<and> a \<le> 223 then 2
     else if 224 \<le> a \<and> a \<le> 239 then 3 else if 240 \<le> a \<and> a \<le> 244 then 4 else 0)"

fun utf8_rest :: "nat \<Rightarrow> nat list \<Rightarrow> bool" where
  "utf8_rest a [] \<longleftrightarrow> utf8_width a = 1"
| "utf8_rest a [b] \<longleftrightarrow> utf8_width a = 2 \<and> utf8_cont b"
| "utf8_rest a [b, c] \<longleftrightarrow> utf8_width a = 3 \<and> utf8_second3 a b \<and> utf8_cont c"
| "utf8_rest a [b, c, d] \<longleftrightarrow> utf8_width a = 4 \<and> utf8_second4 a b \<and> utf8_cont c \<and> utf8_cont d"
| "utf8_rest a _ \<longleftrightarrow> False"

fun utf8_bytes :: "nat list \<Rightarrow> bool" where
  "utf8_bytes [] = True"
| "utf8_bytes (a # r) =
    (0 < utf8_width a \<and> utf8_rest a (take (utf8_width a - 1) r) \<and> utf8_bytes (drop (utf8_width a - 1) r))"

definition valid_utf8 :: "bytes \<Rightarrow> bool" where
  "valid_utf8 s \<longleftrightarrow> utf8_bytes (map of_char s)"

text \<open>\<open>str::parse::<i64>\<close>: an optional sign, then at least one digit, within the type.\<close>

definition digit_value :: "char \<Rightarrow> int option" where
  "digit_value c =
    (if 48 \<le> (of_char c :: int) \<and> (of_char c :: int) \<le> 57 then Some (of_char c - 48) else None)"

fun digits_value :: "int \<Rightarrow> string \<Rightarrow> int option" where
  "digits_value acc [] = Some acc"
| "digits_value acc (c # s) =
    (case digit_value c of None \<Rightarrow> None | Some d \<Rightarrow> digits_value (acc * 10 + d) s)"

definition parse_digits :: "string \<Rightarrow> int option" where
  "parse_digits s = (if s = [] then None else digits_value 0 s)"

definition parse_i64 :: "string \<Rightarrow> int option" where
  "parse_i64 s =
    (let n = (case s of
                [] \<Rightarrow> None
              | c # r \<Rightarrow> if c = CHR ''-'' then map_option uminus (parse_digits r)
                        else if c = CHR ''+'' then parse_digits r
                        else parse_digits s)
     in case n of None \<Rightarrow> None | Some v \<Rightarrow> if in_i64 v then Some v else None)"

definition newline :: char where "newline = CHR 0x0A"

definition blank :: "char \<Rightarrow> bool" where
  "blank c \<longleftrightarrow> c = CHR '' '' \<or> c = CHR 0x09 \<or> c = CHR 0x0D \<or> c = newline"

definition trim_blank :: "string \<Rightarrow> string" where
  "trim_blank s = rev (dropWhile blank (rev (dropWhile blank s)))"

definition starts_with :: "string \<Rightarrow> string \<Rightarrow> bool" where
  "starts_with s p \<longleftrightarrow> take (length p) s = p"

definition ends_with :: "string \<Rightarrow> string \<Rightarrow> bool" where
  "ends_with s p \<longleftrightarrow> length p \<le> length s \<and> drop (length s - length p) s = p"

text \<open>\<open>&s[a..b]\<close>: \<open>None\<close> where Rust panics.\<close>

definition slice_str :: "string \<Rightarrow> nat \<Rightarrow> nat \<Rightarrow> string option" where
  "slice_str s a b = (if a \<le> b \<and> b \<le> length s then Some (take (b - a) (drop a s)) else None)"

fun position :: "('a \<Rightarrow> bool) \<Rightarrow> 'a list \<Rightarrow> nat option" where
  "position P [] = None"
| "position P (x # xs) = (if P x then Some 0 else map_option Suc (position P xs))"

section \<open>Decimal text\<close>

definition digit_char :: "nat \<Rightarrow> char" where
  "digit_char d = char_of (48 + d)"

text \<open>\<open>Display\<close> of an integer.\<close>

fun dec_nat :: "nat \<Rightarrow> string" where
  "dec_nat n = (if n < 10 then [digit_char n] else dec_nat (n div 10) @ [digit_char (n mod 10)])"

declare dec_nat.simps [simp del]

definition dec_int :: "int \<Rightarrow> string" where
  "dec_int n = (if n < 0 then CHR ''-'' # dec_nat (nat (- n)) else dec_nat (nat n))"

section \<open>Decimal round trip\<close>

lemma of_char_digit: "d < 10 \<Longrightarrow> of_char (digit_char d) = (48 + of_nat d :: int)"
proof -
  assume "d < 10"
  then have "(of_char (digit_char d) :: nat) = 48 + d"
    by (simp add: digit_char_def take_bit_eq_mod)
  then show ?thesis by (metis of_nat_add of_nat_numeral of_nat_of_char)
qed

lemma digit_value_char: "d < 10 \<Longrightarrow> digit_value (digit_char d) = Some (int d)"
  by (simp add: digit_value_def of_char_digit)

lemma digits_value_append:
  "digits_value acc (s @ t) = (case digits_value acc s of None \<Rightarrow> None | Some a \<Rightarrow> digits_value a t)"
  by (induction s arbitrary: acc) (auto split: option.splits)

lemma digits_value_dec: "digits_value 0 (dec_nat n) = Some (int n)"
proof (induction n rule: dec_nat.induct)
  case (1 n)
  show ?case
  proof (cases "n < 10")
    case True
    then show ?thesis by (simp add: dec_nat.simps [of n] digit_value_char)
  next
    case False
    have "int (n div 10) * 10 + int (n mod 10) = int n"
      by (metis div_mult_mod_eq of_nat_add of_nat_mult of_nat_numeral)
    then show ?thesis
      using 1 False
      by (simp add: dec_nat.simps [of n] digits_value_append digit_value_char)
  qed
qed

lemma dec_nat_digits: "c \<in> set (dec_nat n) \<Longrightarrow> \<exists>d < 10. c = digit_char d"
proof (induction n rule: dec_nat.induct)
  case (1 n)
  then show ?case
    by (subst (asm) dec_nat.simps, cases "n < 10") (auto intro: exI [of _ "n mod 10"])
qed

lemma dec_nat_nonempty [simp]: "dec_nat n \<noteq> []"
  by (subst dec_nat.simps) simp

lemma digit_char_nat: "d < 10 \<Longrightarrow> (of_char (digit_char d) :: nat) = 48 + d"
  by (simp add: digit_char_def take_bit_eq_mod)

lemma digit_char_sign: "d < 10 \<Longrightarrow> digit_char d \<noteq> CHR ''-'' \<and> digit_char d \<noteq> CHR ''+''"
  using digit_char_nat [of d] by fastforce

lemma parse_i64_dec: "in_i64 n \<Longrightarrow> parse_i64 (dec_int n) = Some n"
proof (cases "n < 0")
  case True
  then show "in_i64 n \<Longrightarrow> ?thesis"
    by (simp add: dec_int_def parse_i64_def parse_digits_def digits_value_dec)
next
  case False
  obtain c r where s: "dec_nat (nat n) = c # r" by (cases "dec_nat (nat n)") auto
  then have "c \<noteq> CHR ''-'' \<and> c \<noteq> CHR ''+''"
    using dec_nat_digits [of c "nat n"] digit_char_sign by auto
  moreover have "digits_value 0 (c # r) = Some n"
    using digits_value_dec [of "nat n"] s False by simp
  ultimately show "in_i64 n \<Longrightarrow> ?thesis"
    using False s by (simp add: dec_int_def parse_i64_def parse_digits_def del: digits_value.simps)
qed

text \<open>\<open>str::trim\<close>: the characters of Unicode's \<open>White_Space\<close> property, in UTF-8.\<close>

definition WHITE_SPACE :: "bytes list" where
  "WHITE_SPACE = map (map char_of)
    ([[9], [10], [11], [12], [13], [32], [194, 133], [194, 160], [225, 154, 128]]
     @ map (\<lambda>n. [226, 128, n]) [128, 129, 130, 131, 132, 133, 134, 135, 136, 137, 138, 168, 169, 175]
     @ [[226, 129, 159], [227, 128, 128 :: nat]])"

function trim_front :: "bytes list \<Rightarrow> bytes \<Rightarrow> bytes" where
  "trim_front spaces s =
    (case List.find (\<lambda>w. w \<noteq> [] \<and> starts_with s w) spaces of
       None \<Rightarrow> s
     | Some w \<Rightarrow> trim_front spaces (drop (length w) s))"
  by pat_completeness auto
termination
  by (relation "measure (\<lambda>(spaces, s). length s)")
    (auto simp: find_Some_iff starts_with_def split: if_splits, (metis diff_less length_0_conv length_greater_0_conv take_eq_Nil2)+)

declare trim_front.simps [simp del]

definition str_trim :: "bytes \<Rightarrow> bytes" where
  "str_trim s = rev (trim_front (map rev WHITE_SPACE) (rev (trim_front WHITE_SPACE s)))"

end
