(* ===== verification/Config_Parse.thy ===== *)
theory Config_Parse
  imports Config_Types Std_Text
begin

text \<open>
  The configuration parser of \<open>crates/wiiland-core/src/config.rs\<close>: \<open>parse_bytes\<close>,
  \<open>apply_bytes\<close>, \<open>apply_line\<close>, \<open>set_key\<close> and its helpers, on byte strings. A method on
  \<open>&mut self\<close> returns the updated configuration; after an error the callers drop the value
  it would leave behind. Paths are their (lossy) text.
\<close>

section \<open>Setters\<close>

definition parse_int :: "string \<Rightarrow> int \<Rightarrow> int \<Rightarrow> int option" where
  "parse_int v lo hi =
    (case parse_i64 v of
       None \<Rightarrow> None
     | Some n \<Rightarrow> if n < lo \<or> hi < n then None else Some (as_i32 n))"

definition config_invalid :: "string \<Rightarrow> nat \<Rightarrow> string \<Rightarrow> config_error" where
  "config_invalid path line key =
    ConfigError_line path line (''invalid value for '' @ CHR 0x27 # key @ [CHR 0x27])"

definition set_screen ::
  "config \<Rightarrow> string \<Rightarrow> nat \<Rightarrow> string \<Rightarrow> string \<Rightarrow> nat \<Rightarrow> (config, config_error) outcome" where
  "set_screen self path line key value axis =
    bind_outcome (ok_or (parse_int value 0 32767) (config_invalid path line key)) (\<lambda>v.
      let r = (case cfg_ir_screen self of
                 Some r \<Rightarrow> r
               | None \<Rightarrow> \<lparr>rect_left = 0, rect_right = 1023, rect_top = 0, rect_bottom = 767\<rparr>);
          r' = (if axis = 0 then r\<lparr>rect_left := v\<rparr>
                else if axis = 1 then r\<lparr>rect_right := v\<rparr>
                else if axis = 2 then r\<lparr>rect_top := v\<rparr>
                else r\<lparr>rect_bottom := v\<rparr>)
      in Ok (self\<lparr>cfg_ir_screen := Some r'\<rparr>))"

definition set_bool ::
  "config \<Rightarrow> string \<Rightarrow> nat \<Rightarrow> string \<Rightarrow> string \<Rightarrow> bool \<Rightarrow> (config, config_error) outcome" where
  "set_bool self path line key value x =
    bind_outcome
      (if value = ''yes'' \<or> value = ''true'' \<or> value = ''1'' then Ok True
       else if value = ''no'' \<or> value = ''false'' \<or> value = ''0'' then Ok False
       else Err (config_invalid path line key))
      (\<lambda>v. if x then Ok (self\<lparr>cfg_aim_invert_x := v\<rparr>) else Ok (self\<lparr>cfg_aim_invert_y := v\<rparr>))"

definition set_cal ::
  "config \<Rightarrow> string \<Rightarrow> nat \<Rightarrow> string \<Rightarrow> string \<Rightarrow> bool \<Rightarrow> nat \<Rightarrow> (config, config_error) outcome" where
  "set_cal self path line key value accel axis =
    bind_outcome (ok_or (parse_int value (-32768) 32767) (config_invalid path line key)) (\<lambda>v.
      let slot = (if accel then cfg_aim_accel_zero self else cfg_aim_motion_plus_bias self);
          cal = (case slot of
                   Some c \<Rightarrow> c
                 | None \<Rightarrow> \<lparr>cal_x = 0, cal_y = 0, cal_z = 0, cal_axes = 0\<rparr>);
          cal' = (if axis = 0 then cal\<lparr>cal_x := v, cal_axes := cal_axes cal OR CAL_X\<rparr>
                  else if axis = 1 then cal\<lparr>cal_y := v, cal_axes := cal_axes cal OR CAL_Y\<rparr>
                  else cal\<lparr>cal_z := v, cal_axes := cal_axes cal OR CAL_Z\<rparr>)
      in Ok (if accel then self\<lparr>cfg_aim_accel_zero := Some cal'\<rparr>
             else self\<lparr>cfg_aim_motion_plus_bias := Some cal'\<rparr>))"

definition set_rule ::
  "config \<Rightarrow> string \<Rightarrow> nat \<Rightarrow> string \<Rightarrow> string \<Rightarrow> device_rule_kind \<Rightarrow> (config, config_error) outcome" where
  "set_rule self path line key value kind =
    bind_outcome (ok_or (Profile_parse value) (config_invalid path line key)) (\<lambda>p.
      case slice_str key (length (DeviceRuleKind_prefix kind) + 1) (length key - 8) of
        None \<Rightarrow> Panic
      | Some middle \<Rightarrow>
          if middle = [] then Err (config_invalid path line key)
          else case position (\<lambda>r. rule_kind r = kind \<and> rule_match_text r = middle)
                      (cfg_device_rules self) of
            Some i \<Rightarrow>
              (let rules = cfg_device_rules self; rule = rules ! i
               in Ok (self\<lparr>cfg_device_rules :=
                    take i rules @ drop (Suc i) rules @ [rule\<lparr>rule_profile := p\<rparr>]\<rparr>))
          | None \<Rightarrow>
              if MAX_DEVICE_RULES \<le> length (cfg_device_rules self)
              then Err (config_invalid path line key)
              else Ok (self\<lparr>cfg_device_rules := cfg_device_rules self @
                    [\<lparr>rule_kind = kind, rule_match_text = middle, rule_profile = p\<rparr>]\<rparr>))"

definition set_desktop ::
  "config \<Rightarrow> string \<Rightarrow> nat \<Rightarrow> string \<Rightarrow> string \<Rightarrow> (config, config_error) outcome" where
  "set_desktop self path line key value =
    bind_outcome (ok_or (DesktopAction_parse value) (config_invalid path line key)) (\<lambda>action.
      case DesktopBindings_set (cfg_desktop_bindings self) (drop 8 key) action of
        Some b \<Rightarrow> Ok (self\<lparr>cfg_desktop_bindings := b\<rparr>)
      | None \<Rightarrow> Err (config_invalid path line key))"

text \<open>The macros \<open>int!\<close> and \<open>choice!\<close>: parse the value, then store it in the field.\<close>

definition set_parsed ::
  "string \<Rightarrow> nat \<Rightarrow> string \<Rightarrow> 'v option \<Rightarrow> ('v \<Rightarrow> config) \<Rightarrow> (config, config_error) outcome" where
  "set_parsed path line key v store =
    bind_outcome (ok_or v (config_invalid path line key)) (\<lambda>v. Ok (store v))"

definition set_key ::
  "config \<Rightarrow> string \<Rightarrow> nat \<Rightarrow> string \<Rightarrow> string \<Rightarrow> (config, config_error) outcome" where
  "set_key self path line key value =
    (if key = ''backend'' then
       (if value = ''uinput'' then Ok (self\<lparr>cfg_backend := Uinput\<rparr>)
       else Err (config_invalid path line key))
     else if key = ''profile'' then
       set_parsed path line key (Profile_parse value) (\<lambda>v. self\<lparr>cfg_profile := v\<rparr>)
     else if key = ''pointer-speed'' then
       set_parsed path line key (parse_int value 1 127) (\<lambda>v. self\<lparr>cfg_pointer_speed := v\<rparr>)
     else if key = ''ir-speed'' then
       set_parsed path line key (parse_int value 1 127) (\<lambda>v. self\<lparr>cfg_ir_speed := v\<rparr>)
     else if key = ''ir-deadzone'' then
       set_parsed path line key (parse_int value 0 127) (\<lambda>v. self\<lparr>cfg_ir_deadzone := v\<rparr>)
     else if key = ''ir-smoothing'' then
       set_parsed path line key (parse_int value 0 95) (\<lambda>v. self\<lparr>cfg_ir_smoothing := v\<rparr>)
     else if key = ''ir-tracking'' then
       set_parsed path line key (IrTracking_parse value) (\<lambda>v. self\<lparr>cfg_ir_tracking := v\<rparr>)
     else if key = ''ir-aim-mapping'' then
       set_parsed path line key (IrAimMapping_parse value) (\<lambda>v. self\<lparr>cfg_ir_aim_mapping := v\<rparr>)
     else if key = ''ir-screen-left'' then
       set_screen self path line key value 0
     else if key = ''ir-screen-right'' then
       set_screen self path line key value 1
     else if key = ''ir-screen-top'' then
       set_screen self path line key value 2
     else if key = ''ir-screen-bottom'' then
       set_screen self path line key value 3
     else if key = ''aim-mode'' then
       set_parsed path line key (AimMode_parse value) (\<lambda>v. self\<lparr>cfg_aim_mode := v\<rparr>)
     else if key = ''aim-source'' then
       set_parsed path line key (AimSource_parse value) (\<lambda>v. self\<lparr>cfg_aim_source := v\<rparr>)
     else if key = ''aim-activation'' then
       set_parsed path line key (AimActivation_parse value) (\<lambda>v. self\<lparr>cfg_aim_activation := v\<rparr>)
     else if key = ''aim-sensitivity'' then
       set_parsed path line key (parse_int value 1 127) (\<lambda>v. self\<lparr>cfg_aim_sensitivity := v\<rparr>)
     else if key = ''aim-deadzone'' then
       set_parsed path line key (parse_int value 0 32767) (\<lambda>v. self\<lparr>cfg_aim_deadzone := v\<rparr>)
     else if key = ''aim-smoothing'' then
       set_parsed path line key (parse_int value 0 95) (\<lambda>v. self\<lparr>cfg_aim_smoothing := v\<rparr>)
     else if key = ''aim-invert-x'' then
       set_bool self path line key value True
     else if key = ''aim-invert-y'' then
       set_bool self path line key value False
     else if key = ''aim-accel-zero-x'' then
       set_cal self path line key value True 0
     else if key = ''aim-accel-zero-y'' then
       set_cal self path line key value True 1
     else if key = ''aim-accel-zero-z'' then
       set_cal self path line key value True 2
     else if key = ''aim-motion-plus-bias-x'' then
       set_cal self path line key value False 0
     else if key = ''aim-motion-plus-bias-y'' then
       set_cal self path line key value False 1
     else if key = ''aim-motion-plus-bias-z'' then
       set_cal self path line key value False 2
     else if key = ''aim-calibration-duration'' then
       set_parsed path line key (parse_int value 1 30) (\<lambda>v. self\<lparr>cfg_aim_calibration_duration := v\<rparr>)
     else if starts_with key ''desktop.'' then
       set_desktop self path line key value
     else if starts_with key ''device.'' \<and> ends_with key ''.profile'' then
       set_rule self path line key value Syspath
     else if starts_with key ''device-type.'' \<and> ends_with key ''.profile'' then
       set_rule self path line key value Devtype
     else Err (ConfigError_line path line (''unknown key '' @ CHR 0x27 # key @ [CHR 0x27])))"


section \<open>Lines\<close>

definition apply_line :: "config \<Rightarrow> string \<Rightarrow> nat \<Rightarrow> string \<Rightarrow> (config, config_error) outcome" where
  "apply_line self path line_no line =
    (if length line > MAX_LINE_BYTES - 1 then Err (ConfigError_line path line_no ''line too long'')
     else let content = trim_blank (takeWhile (\<lambda>c. c \<noteq> CHR ''#'') line) in
       if content = [] then Ok self
       else case position (\<lambda>c. c = CHR ''='') content of
         None \<Rightarrow> Err (ConfigError_line path line_no ''expected key=value'')
       | Some eq \<Rightarrow>
           set_key self path line_no (trim_blank (take eq content)) (trim_blank (drop (eq + 1) content)))"

text \<open>One raw line of \<open>apply_bytes\<close>: the length check, the UTF-8 check, then \<open>apply_line\<close>.\<close>

definition apply_raw :: "config \<Rightarrow> string \<Rightarrow> nat \<Rightarrow> bytes \<Rightarrow> (config, config_error) outcome" where
  "apply_raw self path no raw =
    (if length raw > MAX_LINE_BYTES - 1 then Err (ConfigError_line path no ''line too long'')
     else if \<not> valid_utf8 raw then Err (ConfigError_line path no ''invalid UTF-8'')
     else apply_line self path no raw)"

text \<open>
  The loop of \<open>apply_bytes\<close> from a line start: the bytes up to and including the next newline
  are line \<open>no\<close>; a last line without a newline is applied when it is not empty.
\<close>

function apply_lines :: "config \<Rightarrow> string \<Rightarrow> nat \<Rightarrow> bytes \<Rightarrow> (config, config_error) outcome" where
  "apply_lines self path no bytes =
    (case dropWhile (\<lambda>b. b \<noteq> newline) bytes of
       [] \<Rightarrow> if bytes = [] then Ok self else apply_raw self path no bytes
     | nl # rest \<Rightarrow>
         bind_outcome (apply_raw self path no (takeWhile (\<lambda>b. b \<noteq> newline) bytes @ [nl]))
           (\<lambda>self'. apply_lines self' path (no + 1) rest))"
  by pat_completeness auto

lemma dropWhile_Cons_length: "dropWhile P xs = y # ys \<Longrightarrow> length ys < length xs"
  using length_dropWhile_le [of P xs] by simp

termination apply_lines
  by (relation "measure (\<lambda>(_, _, _, bytes). length bytes)") (auto dest: dropWhile_Cons_length)

declare apply_lines.simps [simp del]

text \<open>The two cases of the loop: a last line without a newline, and a line before others.\<close>

lemma apply_lines_last:
  "newline \<notin> set bs \<Longrightarrow>
   apply_lines c p no bs = (if bs = [] then Ok c else apply_raw c p no bs)"
proof -
  assume "newline \<notin> set bs"
  then have "dropWhile (\<lambda>b. b \<noteq> newline) bs = []" by auto
  then show ?thesis by (subst apply_lines.simps) (simp only: list.case)
qed

lemma apply_lines_line:
  "newline \<notin> set s \<Longrightarrow>
   apply_lines c p no (s @ newline # rest) =
     bind_outcome (apply_raw c p no (s @ [newline])) (\<lambda>c'. apply_lines c' p (no + 1) rest)"
proof -
  assume s: "newline \<notin> set s"
  have "takeWhile (\<lambda>b. b \<noteq> newline) (s @ newline # rest) =
      s @ takeWhile (\<lambda>b. b \<noteq> newline) (newline # rest)"
    using s by (intro takeWhile_append2) auto
  moreover have "dropWhile (\<lambda>b. b \<noteq> newline) (s @ newline # rest) =
      dropWhile (\<lambda>b. b \<noteq> newline) (newline # rest)"
    using s by (intro dropWhile_append2) auto
  ultimately show ?thesis by (subst apply_lines.simps) simp
qed

text \<open>Induction over the lines of a text.\<close>

lemma lines_induct [case_names last line]:
  assumes "\<And>bs. newline \<notin> set bs \<Longrightarrow> P bs"
    and "\<And>s rest. newline \<notin> set s \<Longrightarrow> P rest \<Longrightarrow> P (s @ newline # rest)"
  shows "P bs"
proof (induction bs rule: length_induct)
  case (1 bs)
  show ?case
  proof (cases "newline \<in> set bs")
    case True
    then obtain s rest where "bs = s @ newline # rest" "newline \<notin> set s"
      using split_list_first by metis
    then show ?thesis using assms(2) 1 by simp
  qed (rule assms(1))
qed

definition apply_bytes :: "config \<Rightarrow> string \<Rightarrow> bytes \<Rightarrow> (config, config_error) outcome" where
  "apply_bytes self path bytes = apply_lines self path 1 bytes"

definition parse_bytes :: "string \<Rightarrow> bytes \<Rightarrow> (config, config_error) outcome" where
  "parse_bytes path bytes =
    bind_outcome (apply_bytes Config_default path bytes) (\<lambda>c.
      case Config_validate c of Some e \<Rightarrow> Err e | None \<Rightarrow> Ok c)"


section \<open>Device rules\<close>

text \<open>\<open>path.contains(&rule.match_text)\<close>\<close>

fun str_contains :: "string \<Rightarrow> string \<Rightarrow> bool" where
  "str_contains [] p \<longleftrightarrow> p = []"
| "str_contains (c # s) p \<longleftrightarrow> starts_with (c # s) p \<or> str_contains s p"

definition rule_matches :: "device_rule \<Rightarrow> string option \<Rightarrow> string option \<Rightarrow> bool" where
  "rule_matches r syspath devtype \<longleftrightarrow>
    (case rule_kind r of
       Syspath \<Rightarrow> (case syspath of None \<Rightarrow> False | Some s \<Rightarrow> str_contains s (rule_match_text r))
     | Devtype \<Rightarrow> (case devtype of None \<Rightarrow> False | Some s \<Rightarrow> str_contains s (rule_match_text r)))"

definition profile_for_device :: "config \<Rightarrow> string option \<Rightarrow> string option \<Rightarrow> profile" where
  "profile_for_device c syspath devtype =
    foldl (\<lambda>selected r. if rule_matches r syspath devtype then rule_profile r else selected)
      (cfg_profile c) (cfg_device_rules c)"

definition profile_for_syspath :: "config \<Rightarrow> string \<Rightarrow> profile" where
  "profile_for_syspath c syspath = profile_for_device c (Some syspath) None"

end
