(* ===== verification/Config_Valid.thy ===== *)
theory Config_Valid
  imports Config_Parse
begin

text \<open>
  What the parser promises of the configuration it builds: the invariant \<open>draft_ok\<close> that
  every line keeps, hence what a parsed file satisfies, and which lines abort the process.
\<close>

section \<open>UTF-8 across ASCII separators\<close>

lemma utf8_rest_length: "utf8_rest a r \<Longrightarrow> 0 < utf8_width a \<Longrightarrow> length r = utf8_width a - 1"
  by (induction a r rule: utf8_rest.induct) auto

lemma utf8_rest_high: "utf8_rest a r \<Longrightarrow> b \<in> set r \<Longrightarrow> 128 \<le> b"
  by (induction a r rule: utf8_rest.induct)
    (auto simp: utf8_cont_def utf8_second3_def utf8_second4_def split: if_splits)

lemma utf8_ascii_Cons: "a < 128 \<Longrightarrow> utf8_bytes (a # r) = utf8_bytes r"
  by (simp add: utf8_width_def)

lemma utf8_split: "c < 128 \<Longrightarrow> utf8_bytes (a @ c # b) \<longleftrightarrow> utf8_bytes a \<and> utf8_bytes b"
proof (induction a rule: utf8_bytes.induct)
  case 1
  then show ?case by (simp add: utf8_ascii_Cons del: utf8_bytes.simps(2))
next
  case (2 x r)
  let ?w = "utf8_width x - 1"
  show ?case
  proof (cases "?w \<le> length r")
    case True
    then show ?thesis using 2 by simp
  next
    case False
    then obtain k where "?w - length r = Suc k"
      by (metis Suc_diff_Suc not_le)
    then have mem: "c \<in> set (take ?w (r @ c # b))" by simp
    have "\<not> utf8_rest x (take ?w (r @ c # b))"
      using utf8_rest_high [OF _ mem] \<open>c < 128\<close> by auto
    moreover have "\<not> (0 < utf8_width x \<and> utf8_rest x (take ?w r))"
      using False utf8_rest_length [of x "take ?w r"] by auto
    ultimately show ?thesis by auto
  qed
qed

definition ascii_char :: "char \<Rightarrow> bool" where
  "ascii_char c \<longleftrightarrow> (of_char c :: nat) < 128"

lemma valid_utf8_split:
  "ascii_char c \<Longrightarrow> valid_utf8 (a @ c # b) \<longleftrightarrow> valid_utf8 a \<and> valid_utf8 b"
  by (simp add: valid_utf8_def ascii_char_def utf8_split del: utf8_bytes.simps(2))

lemma valid_utf8_Nil [simp]: "valid_utf8 []"
  by (simp add: valid_utf8_def)

lemma valid_utf8_Cons: "ascii_char c \<Longrightarrow> valid_utf8 (c # s) \<longleftrightarrow> valid_utf8 s"
  using valid_utf8_split [of c "[]" s] by simp

lemma valid_utf8_prefix: "list_all ascii_char a \<Longrightarrow> valid_utf8 (a @ b) \<longleftrightarrow> valid_utf8 b"
  by (induction a) (simp_all add: valid_utf8_Cons)

lemma valid_utf8_suffix: "list_all ascii_char b \<Longrightarrow> valid_utf8 (a @ b) \<longleftrightarrow> valid_utf8 a"
proof (induction b arbitrary: a)
  case (Cons c b)
  then show ?case
    using valid_utf8_split [of c a b] valid_utf8_prefix [of b "[]"] by simp
qed simp

lemma valid_utf8_ascii: "list_all ascii_char s \<Longrightarrow> valid_utf8 s"
  using valid_utf8_prefix [of s "[]"] by simp


section \<open>Text of keys\<close>

text \<open>Text a key can carry: valid UTF-8 without a separator of the line syntax.\<close>

definition text_ok :: "string \<Rightarrow> bool" where
  "text_ok s \<longleftrightarrow> valid_utf8 s \<and> CHR ''#'' \<notin> set s \<and> CHR ''='' \<notin> set s \<and> newline \<notin> set s"

lemma ascii_consts [simp]:
  "ascii_char newline" "ascii_char (CHR ''#'')" "ascii_char (CHR ''='')" "ascii_char (CHR ''.'')"
  by (simp_all add: ascii_char_def newline_def)

lemma blank_ascii: "blank c \<Longrightarrow> ascii_char c"
  by (auto simp: blank_def ascii_char_def newline_def)

lemma trim_blank_split:
  "\<exists>a b. s = a @ trim_blank s @ b \<and> list_all blank a \<and> list_all blank b"
proof -
  let ?t = "dropWhile blank s"
  have "s = takeWhile blank s @ ?t" by simp
  moreover have "?t = trim_blank s @ rev (takeWhile blank (rev ?t))"
    unfolding trim_blank_def by (metis rev_append rev_rev_ident takeWhile_dropWhile_id)
  ultimately have "s = takeWhile blank s @ trim_blank s @ rev (takeWhile blank (rev ?t))" by simp
  moreover have "list_all blank (takeWhile blank s)" "list_all blank (rev (takeWhile blank (rev ?t)))"
    by (auto simp: list_all_iff dest: set_takeWhileD)
  ultimately show ?thesis by blast
qed

lemma trim_blank_utf8: "valid_utf8 s \<Longrightarrow> valid_utf8 (trim_blank s)"
proof -
  assume v: "valid_utf8 s"
  obtain a b where s: "s = a @ trim_blank s @ b" and "list_all blank a" "list_all blank b"
    using trim_blank_split by blast
  then have "list_all ascii_char a" "list_all ascii_char b"
    by (auto simp: list_all_iff blank_ascii)
  then show ?thesis
    using v s by (metis valid_utf8_prefix valid_utf8_suffix)
qed

lemma trim_blank_set: "set (trim_blank s) \<subseteq> set s"
  using trim_blank_split [of s] by (metis Un_iff set_append subsetI)

lemma trim_blank_length: "length (trim_blank s) \<le> length s"
  using trim_blank_split [of s] by (metis le_add1 le_add2 le_trans length_append)

text \<open>A string without a blank at either end is its own trimming.\<close>

lemma trim_blank_id:
  "s \<noteq> [] \<Longrightarrow> \<not> blank (hd s) \<Longrightarrow> \<not> blank (last s) \<Longrightarrow> trim_blank s = s"
proof -
  assume s: "s \<noteq> []" "\<not> blank (hd s)" "\<not> blank (last s)"
  have "dropWhile blank s = s" using s by (cases s) simp_all
  moreover have "dropWhile blank (rev s) = rev s" using s by (cases s rule: rev_cases) simp_all
  ultimately show ?thesis by (simp add: trim_blank_def)
qed

lemma trim_blank_end: "list_all blank b \<Longrightarrow> trim_blank (s @ b) = trim_blank s"
proof (induction b rule: rev_induct)
  case (snoc c b)
  have "trim_blank ((s @ b) @ [c]) = trim_blank (s @ b)"
  proof (cases "list_all blank (s @ b)")
    case True
    then have "list_all blank ((s @ b) @ [c])" using snoc.prems by simp
    with True have "dropWhile blank (s @ b) = []" "dropWhile blank ((s @ b) @ [c]) = []"
      by (metis dropWhile_eq_Nil_conv list_all_iff)+
    then show ?thesis unfolding trim_blank_def by (simp only:)
  next
    case False
    then have "dropWhile blank ((s @ b) @ [c]) = dropWhile blank (s @ b) @ [c]"
      by (auto simp: list_all_iff dropWhile_append)
    then show ?thesis using snoc.prems by (simp add: trim_blank_def)
  qed
  then show ?case using snoc by simp
qed simp

lemma position_Some:
  "position P xs = Some i \<Longrightarrow> i < length xs \<and> P (xs ! i) \<and> (\<forall>j < i. \<not> P (xs ! j))"
proof (induction xs arbitrary: i)
  case (Cons x xs)
  then show ?case by (auto split: if_splits simp: nth_Cons split: nat.splits)
qed simp

lemma position_None: "position P xs = None \<longleftrightarrow> (\<forall>x \<in> set xs. \<not> P x)"
  by (induction xs) auto

lemma position_append: "\<forall>x \<in> set xs. \<not> P x \<Longrightarrow> P y \<Longrightarrow> position P (xs @ y # ys) = Some (length xs)"
  by (induction xs) auto


section \<open>The invariant of a draft\<close>

definition rule_text :: "device_rule \<Rightarrow> string" where
  "rule_text r =
    DeviceRuleKind_prefix (rule_kind r) @ ''.'' @ rule_match_text r @ ''.profile='' @
    (case Profile_as_str (rule_profile r) of Some s \<Rightarrow> s | None \<Rightarrow> ''unknown'')"

definition rule_ok :: "nat \<Rightarrow> device_rule \<Rightarrow> bool" where
  "rule_ok n r \<longleftrightarrow>
    rule_match_text r \<noteq> [] \<and> text_ok (rule_match_text r) \<and> Profile_is_valid (rule_profile r) \<and>
    length (rule_text r) \<le> n"

definition rule_key :: "device_rule \<Rightarrow> device_rule_kind \<times> string" where
  "rule_key r = (rule_kind r, rule_match_text r)"

definition rules_ok :: "nat \<Rightarrow> device_rule list \<Rightarrow> bool" where
  "rules_ok n rs \<longleftrightarrow>
    length rs \<le> MAX_DEVICE_RULES \<and> distinct (map rule_key rs) \<and> (\<forall>r \<in> set rs. rule_ok n r)"

definition screen_range :: "ir_rectangle option \<Rightarrow> bool" where
  "screen_range s \<longleftrightarrow> (\<forall>r. s = Some r \<longrightarrow>
     between 0 32767 (rect_left r) \<and> between 0 32767 (rect_right r) \<and>
     between 0 32767 (rect_top r) \<and> between 0 32767 (rect_bottom r))"

definition cal_range :: "sensor_calibration option \<Rightarrow> bool" where
  "cal_range s \<longleftrightarrow> (\<forall>c. s = Some c \<longrightarrow>
     between (-32768) 32767 (cal_x c) \<and> between (-32768) 32767 (cal_y c) \<and>
     between (-32768) 32767 (cal_z c) \<and> cal_axes c \<noteq> 0 \<and> cal_axes c AND NOT CAL_ALL = 0)"

text \<open>\<open>n\<close> bounds the length of the line that would store a rule.\<close>

definition draft_ok :: "nat \<Rightarrow> config \<Rightarrow> bool" where
  "draft_ok n c \<longleftrightarrow>
     Profile_is_valid (cfg_profile c) \<and>
     between 1 127 (cfg_pointer_speed c) \<and> between 1 127 (cfg_ir_speed c) \<and>
     between 0 127 (cfg_ir_deadzone c) \<and> between 0 95 (cfg_ir_smoothing c) \<and>
     between 1 127 (cfg_aim_sensitivity c) \<and> between 0 32767 (cfg_aim_deadzone c) \<and>
     between 0 95 (cfg_aim_smoothing c) \<and> between 1 30 (cfg_aim_calibration_duration c) \<and>
     screen_range (cfg_ir_screen c) \<and> cal_range (cfg_aim_accel_zero c) \<and>
     cal_range (cfg_aim_motion_plus_bias c) \<and> rules_ok n (cfg_device_rules c)"

lemma draft_ok_default: "draft_ok n Config_default"
  by (simp add: draft_ok_def Config_default_def Profile_is_valid_def GAMEPAD_def BOTH_def between_def
      screen_range_def cal_range_def rules_ok_def)

lemma parse_int_between: "parse_int v lo hi = Some n \<Longrightarrow> in_i32 lo \<Longrightarrow> in_i32 hi \<Longrightarrow> between lo hi n"
  by (auto simp: parse_int_def between_def in_i32_def as_i32_id split: option.splits if_splits)

lemma set_parsed_Ok: "set_parsed p l k v store = Ok c' \<longleftrightarrow> (\<exists>x. v = Some x \<and> c' = store x)"
  by (cases v) (auto simp: set_parsed_def)

lemma set_screen_draft: "draft_ok n c \<Longrightarrow> set_screen c p l k v axis = Ok c' \<Longrightarrow> draft_ok n c'"
proof -
  assume d: "draft_ok n c" and s: "set_screen c p l k v axis = Ok c'"
  define r where "r = (case cfg_ir_screen c of Some r \<Rightarrow> r
      | None \<Rightarrow> \<lparr>rect_left = 0, rect_right = 1023, rect_top = 0, rect_bottom = 767\<rparr>)"
  define upd where "upd x = (if axis = 0 then r\<lparr>rect_left := x\<rparr>
                else if axis = 1 then r\<lparr>rect_right := x\<rparr>
                else if axis = 2 then r\<lparr>rect_top := x\<rparr>
                else r\<lparr>rect_bottom := x\<rparr>)" for x
  obtain x where "parse_int v 0 32767 = Some x" and c': "c' = c\<lparr>cfg_ir_screen := Some (upd x)\<rparr>"
    using s unfolding set_screen_def bind_outcome_eq_Ok ok_or_eq_Ok Let_def upd_def r_def by blast
  then have x: "between 0 32767 x"
    using parse_int_between by (simp add: in_i32_def)
  have "screen_range (Some r)" using d
    by (cases "cfg_ir_screen c") (simp_all add: draft_ok_def r_def screen_range_def between_def)
  then have "screen_range (Some (upd x))"
    using x by (simp add: upd_def screen_range_def)
  then show ?thesis using d by (simp add: c' draft_ok_def)
qed

lemma set_bool_draft: "draft_ok n c \<Longrightarrow> set_bool c p l k v x = Ok c' \<Longrightarrow> draft_ok n c'"
proof -
  assume d: "draft_ok n c" and s: "set_bool c p l k v x = Ok c'"
  obtain b where "c' = (if x then c\<lparr>cfg_aim_invert_x := b\<rparr> else c\<lparr>cfg_aim_invert_y := b\<rparr>)"
    using s unfolding set_bool_def bind_outcome_eq_Ok by (metis outcome.inject(1))
  then show ?thesis using d by (simp add: draft_ok_def)
qed

lemma axes_or:
  "a AND NOT CAL_ALL = 0 \<Longrightarrow> b \<in> {CAL_X, CAL_Y, CAL_Z} \<Longrightarrow> (a OR b) AND NOT CAL_ALL = 0 \<and> a OR b \<noteq> 0"
proof -
  assume a: "a AND NOT CAL_ALL = 0" and b: "b \<in> {CAL_X, CAL_Y, CAL_Z}"
  have "(a OR b) AND NOT CAL_ALL = (a AND NOT CAL_ALL) OR (b AND NOT CAL_ALL)"
    by (rule bit_eqI) (auto simp: bit_simps)
  moreover have "b AND NOT CAL_ALL = 0" "b \<noteq> 0"
    using b by (auto simp: CAL_X_def CAL_Y_def CAL_Z_def CAL_ALL_def)
  ultimately show ?thesis using a by (simp add: or_eq_0_iff)
qed

lemma cal_range_default: "cal_range (Some \<lparr>cal_x = 0, cal_y = 0, cal_z = 0, cal_axes = a\<rparr>) \<longleftrightarrow>
    a \<noteq> 0 \<and> a AND NOT CAL_ALL = 0"
  by (simp add: cal_range_def between_def)

lemma set_cal_draft: "draft_ok n c \<Longrightarrow> set_cal c p l k v accel axis = Ok c' \<Longrightarrow> draft_ok n c'"
proof -
  assume d: "draft_ok n c" and s: "set_cal c p l k v accel axis = Ok c'"
  define slot where "slot = (if accel then cfg_aim_accel_zero c else cfg_aim_motion_plus_bias c)"
  define cal where "cal = (case slot of Some c \<Rightarrow> c
                   | None \<Rightarrow> \<lparr>cal_x = 0, cal_y = 0, cal_z = 0, cal_axes = 0\<rparr>)"
  define upd where "upd x = (if axis = 0 then cal\<lparr>cal_x := x, cal_axes := cal_axes cal OR CAL_X\<rparr>
                  else if axis = 1 then cal\<lparr>cal_y := x, cal_axes := cal_axes cal OR CAL_Y\<rparr>
                  else cal\<lparr>cal_z := x, cal_axes := cal_axes cal OR CAL_Z\<rparr>)" for x
  obtain x where x: "between (-32768) 32767 x"
    and c': "c' = (if accel then c\<lparr>cfg_aim_accel_zero := Some (upd x)\<rparr>
                   else c\<lparr>cfg_aim_motion_plus_bias := Some (upd x)\<rparr>)"
  proof -
    obtain x where "parse_int v (-32768) 32767 = Some x"
      "Ok c' = (Ok (if accel then c\<lparr>cfg_aim_accel_zero := Some (upd x)\<rparr>
                   else c\<lparr>cfg_aim_motion_plus_bias := Some (upd x)\<rparr>) :: (config, config_error) outcome)"
      using s unfolding set_cal_def bind_outcome_eq_Ok ok_or_eq_Ok Let_def upd_def cal_def slot_def
      by metis
    then show ?thesis using that parse_int_between [of v "- 32768" 32767 x] by (simp add: in_i32_def)
  qed
  have "cal_range slot" using d by (auto simp: draft_ok_def slot_def)
  then have "between (-32768) 32767 (cal_x cal)" "between (-32768) 32767 (cal_y cal)"
      "between (-32768) 32767 (cal_z cal)" "cal_axes cal AND NOT CAL_ALL = 0"
    by (auto simp: cal_def cal_range_def between_def split: option.splits)
  then have "cal_range (Some (upd x))"
    using x axes_or [of "cal_axes cal"] by (auto simp: upd_def cal_range_def)
  then show ?thesis using d by (auto simp: c' draft_ok_def)
qed


lemma starts_with_append [simp]: "starts_with (p @ s) p"
  by (simp add: starts_with_def)

lemma rules_ok_replace:
  assumes "rules_ok n rs" "i < length rs" "rule_ok n r" "rule_key r = rule_key (rs ! i)"
  shows "rules_ok n (take i rs @ drop (Suc i) rs @ [r])"
proof -
  have rs: "rs = take i rs @ rs ! i # drop (Suc i) rs"
    using assms(2) by (rule id_take_nth_drop)
  then have "distinct (map rule_key (take i rs @ rs ! i # drop (Suc i) rs))"
    using assms(1) by (simp add: rules_ok_def)
  then have "distinct (map rule_key (take i rs @ drop (Suc i) rs @ [r]))"
    using assms(4) by (auto simp: distinct_append)
  moreover have "set (take i rs @ drop (Suc i) rs @ [r]) \<subseteq> insert r (set rs)"
    by (auto dest: in_set_takeD in_set_dropD)
  moreover have "length (take i rs @ drop (Suc i) rs @ [r]) = length rs"
    using assms(2) by simp
  ultimately show ?thesis using assms(1,3) unfolding rules_ok_def by (metis insertE subsetD)
qed

lemma rules_ok_add:
  "rules_ok n rs \<Longrightarrow> rule_ok n r \<Longrightarrow> rule_key r \<notin> rule_key ` set rs \<Longrightarrow>
   length rs < MAX_DEVICE_RULES \<Longrightarrow> rules_ok n (rs @ [r])"
  by (auto simp: rules_ok_def)

text \<open>The match text of a rule is the middle of its key.\<close>

lemma slice_middle:
  assumes "starts_with key (p @ ''.'')" "ends_with key ''.profile''"
    and "slice_str key (length p + 1) (length key - 8) = Some middle"
  shows "key = p @ ''.'' @ middle @ ''.profile''"
proof -
  let ?a = "length p + 1" and ?b = "length key - 8"
  have le: "?a \<le> ?b" and m: "middle = take (?b - ?a) (drop ?a key)"
    using assms(3) by (auto simp: slice_str_def split: if_splits)
  have "key = take ?a key @ middle @ drop ?b key"
    unfolding m by (metis append.assoc append_take_drop_id le le_add_diff_inverse take_add)
  moreover have "take ?a key = p @ ''.''" using assms(1) by (simp add: starts_with_def)
  moreover have "drop ?b key = ''.profile''"
  proof -
    have "length ''.profile'' = 8" by simp
    then show ?thesis using assms(2) unfolding ends_with_def by (simp only:)
  qed
  ultimately show ?thesis by simp
qed

lemma set_rule_Ok:
  assumes s: "set_rule c p l key v kind = Ok c'"
  obtains middle pr where "Profile_parse v = Some pr" "middle \<noteq> []"
    and "slice_str key (length (DeviceRuleKind_prefix kind) + 1) (length key - 8) = Some middle"
    and "(\<exists>i < length (cfg_device_rules c). rule_key (cfg_device_rules c ! i) = (kind, middle) \<and>
           c' = c\<lparr>cfg_device_rules := take i (cfg_device_rules c) @ drop (Suc i) (cfg_device_rules c) @
                  [(cfg_device_rules c ! i)\<lparr>rule_profile := pr\<rparr>]\<rparr>)
       \<or> (kind, middle) \<notin> rule_key ` set (cfg_device_rules c) \<and>
         length (cfg_device_rules c) < MAX_DEVICE_RULES \<and>
         c' = c\<lparr>cfg_device_rules := cfg_device_rules c @
                  [\<lparr>rule_kind = kind, rule_match_text = middle, rule_profile = pr\<rparr>]\<rparr>"
proof -
  let ?pos = "\<lambda>m. position (\<lambda>r. rule_kind r = kind \<and> rule_match_text r = m) (cfg_device_rules c)"
  obtain pr where pr: "Profile_parse v = Some pr"
    using s by (auto simp: set_rule_def bind_outcome_eq_Ok ok_or_eq_Ok)
  obtain m where m: "slice_str key (length (DeviceRuleKind_prefix kind) + 1) (length key - 8) = Some m"
    using s pr by (auto simp: set_rule_def split: option.splits)
  have ne: "m \<noteq> []" using s pr m by (auto simp: set_rule_def)
  show ?thesis
  proof (cases "?pos m")
    case None
    then have "(kind, m) \<notin> rule_key ` set (cfg_device_rules c)"
      by (auto simp: position_None rule_key_def)
    then show ?thesis
      using that [OF pr ne m] s pr m ne None by (auto simp: set_rule_def split: if_splits)
  next
    case (Some i)
    from position_Some [OF this] have "i < length (cfg_device_rules c)"
      "rule_key (cfg_device_rules c ! i) = (kind, m)"
      by (simp_all add: rule_key_def)
    then show ?thesis
      using that [OF pr ne m] s pr m ne Some by (auto simp: set_rule_def Let_def)
  qed
qed

lemma set_rule_draft:
  assumes d: "draft_ok n c" and s: "set_rule c p l key v kind = Ok c'"
    and t: "text_ok key" and n: "length key + 1 + length v \<le> n"
    and k: "starts_with key (DeviceRuleKind_prefix kind @ ''.'')" "ends_with key ''.profile''"
  shows "draft_ok n c'"
proof -
  obtain middle pr where pr: "Profile_parse v = Some pr" and ne: "middle \<noteq> []"
    and sl: "slice_str key (length (DeviceRuleKind_prefix kind) + 1) (length key - 8) = Some middle"
    and c': "(\<exists>i < length (cfg_device_rules c). rule_key (cfg_device_rules c ! i) = (kind, middle) \<and>
           c' = c\<lparr>cfg_device_rules := take i (cfg_device_rules c) @ drop (Suc i) (cfg_device_rules c) @
                  [(cfg_device_rules c ! i)\<lparr>rule_profile := pr\<rparr>]\<rparr>)
       \<or> (kind, middle) \<notin> rule_key ` set (cfg_device_rules c) \<and>
         length (cfg_device_rules c) < MAX_DEVICE_RULES \<and>
         c' = c\<lparr>cfg_device_rules := cfg_device_rules c @
                  [\<lparr>rule_kind = kind, rule_match_text = middle, rule_profile = pr\<rparr>]\<rparr>"
    using set_rule_Ok [OF s] by metis
  have key: "key = DeviceRuleKind_prefix kind @ ''.'' @ middle @ ''.profile''"
    by (rule slice_middle [OF k sl])
  have "list_all ascii_char (DeviceRuleKind_prefix kind @ ''.'')" "list_all ascii_char ''.profile''"
    by (cases kind; simp add: ascii_char_def)+
  then have "valid_utf8 middle"
    using t key valid_utf8_prefix [of "DeviceRuleKind_prefix kind @ ''.''" "middle @ ''.profile''"]
      valid_utf8_suffix [of "''.profile''" middle]
    by (simp add: text_ok_def)
  then have tm: "text_ok middle" using t key by (auto simp: text_ok_def)
  have ps: "Profile_as_str pr = Some v" using pr by (rule profile_text.print_parse)
  have new: "rule_ok n r" if "rule_key r = (kind, middle)" "rule_profile r = pr" for r
    using that ne tm n key ps Profile_parse_valid [OF pr]
    by (simp add: rule_ok_def rule_text_def rule_key_def)
  have "rules_ok n (cfg_device_rules c)" using d by (simp add: draft_ok_def)
  then have "rules_ok n (cfg_device_rules c')"
    using c' rules_ok_replace rules_ok_add new by (auto simp: rule_key_def)
  then show ?thesis using d c' by (auto simp: draft_ok_def)
qed


section \<open>Every key keeps the invariant\<close>

lemma if_keep:
  "(if b then x else y) = r \<Longrightarrow> (b \<Longrightarrow> x = r \<Longrightarrow> Q) \<Longrightarrow> (y = r \<Longrightarrow> Q) \<Longrightarrow> Q"
  by (cases b) simp_all

lemma set_int_draft:
  "draft_ok n c \<Longrightarrow> set_parsed p l k (parse_int v lo hi) store = Ok c' \<Longrightarrow> in_i32 lo \<Longrightarrow> in_i32 hi \<Longrightarrow>
   (\<And>x. between lo hi x \<Longrightarrow> draft_ok n (store x)) \<Longrightarrow> draft_ok n c'"
  by (auto simp: set_parsed_Ok dest: parse_int_between)

lemma set_choice_draft:
  "draft_ok n c \<Longrightarrow> set_parsed p l k (parse v) store = Ok c' \<Longrightarrow>
   (\<And>x. parse v = Some x \<Longrightarrow> draft_ok n (store x)) \<Longrightarrow> draft_ok n c'"
  by (auto simp: set_parsed_Ok)

lemma set_desktop_draft: "draft_ok n c \<Longrightarrow> set_desktop c p l key v = Ok c' \<Longrightarrow> draft_ok n c'"
  by (auto simp: set_desktop_def bind_outcome_eq_Ok ok_or_eq_Ok draft_ok_def split: option.splits)

lemma set_key_draft:
  assumes d: "draft_ok n c" and s: "set_key c p l key v = Ok c'"
    and t: "text_ok key" and n: "length key + 1 + length v \<le> n"
  shows "draft_ok n c'"
  using s unfolding set_key_def
  apply (elim if_keep)
  apply (use d in \<open>auto simp: draft_ok_def; fail\<close>)
  apply (simp; fail)
  apply (erule set_choice_draft [OF d], use d in \<open>simp add: draft_ok_def Profile_parse_valid; fail\<close>)
  apply (erule set_int_draft [OF d]; use d in \<open>simp add: draft_ok_def in_i32_def; fail\<close>
      | erule set_choice_draft [OF d]; use d in \<open>simp add: draft_ok_def; fail\<close>
      | erule set_screen_draft [OF d] | erule set_bool_draft [OF d] | erule set_cal_draft [OF d]
      | erule set_desktop_draft [OF d])+
  apply (erule set_rule_draft [OF d _ t n]; simp; fail)
  apply (erule set_rule_draft [OF d _ t n]; simp; fail)
  apply simp
  done


lemma profile_suffix_overlap:
  assumes p: "starts_with key (p @ ''.'')" and s: "ends_with key ''.profile''"
    and l: "length key - 8 < length p + 1"
  shows "key = p @ ''.profile''"
proof -
  let ?n = "length p" and ?k = "length key - 8"
  have tk: "take (?n + 1) key = p @ ''.''" using p by (simp add: starts_with_def)
  have dk: "8 \<le> length key" "drop ?k key = ''.profile''"
  proof -
    have "length ''.profile'' = 8" by simp
    then show "8 \<le> length key" "drop ?k key = ''.profile''"
      using s unfolding ends_with_def by (simp_all only:)
  qed
  have len: "?n + 1 \<le> length key"
    using arg_cong [OF tk, of length] by simp
  have dot: "key ! ?n = CHR ''.''"
    using arg_cong [OF tk, of "\<lambda>xs. xs ! ?n"] by (simp add: nth_append)
  have "key ! ?n = drop ?k key ! (?n - ?k)"
    using l len by (subst nth_drop) auto
  then have "''.profile'' ! (?n - ?k) = CHR ''.''" using dot dk by simp
  moreover have "?n - ?k < 8" using len by linarith
  ultimately have "?n - ?k = 0"
    by (auto simp: less_Suc_eq numeral_eq_Suc)
  then have k: "?k = ?n" using l by simp
  have "take ?n key = p" using arg_cong [OF tk, of "take ?n"] by (simp add: min_def)
  then show ?thesis using dk(2) k by (metis append_take_drop_id)
qed

lemma set_rule_Panic:
  "set_rule c path line key value kind = Panic \<longleftrightarrow>
    Profile_parse value \<noteq> None \<and>
    (length key - 8 < length (DeviceRuleKind_prefix kind) + 1)"
  by (auto simp: set_rule_def ok_or_def slice_str_def Let_def split: option.splits)

lemma no_Panic:
  "set_parsed p l k v store \<noteq> Panic" "set_screen c p l k w axis \<noteq> Panic"
  "set_bool c p l k w x \<noteq> Panic" "set_cal c p l k w accel axis \<noteq> Panic"
  "set_desktop c p l k w \<noteq> Panic"
  by (simp_all add: set_parsed_def set_screen_def set_bool_def set_cal_def set_desktop_def ok_or_def
      Let_def split: option.split)

lemma Profile_parse_Some: "Profile_parse v \<noteq> None \<longleftrightarrow> v \<in> {''gamepad'', ''desktop'', ''both''}"
  by (simp add: Profile_parse_def)

text \<open>
  C39. Which lines abort the process. \<open>set_key\<close> never panics except for the two keys whose
  prefix and suffix share their only dot, and then only after a valid profile value has been
  read: the slice that should hold the match text starts behind its end.
\<close>

theorem set_key_panics_exactly:
  "set_key c path line key value = Panic \<longleftrightarrow>
     (key = ''device.profile'' \<or> key = ''device-type.profile'') \<and>
     (value = ''gamepad'' \<or> value = ''desktop'' \<or> value = ''both'')"
  (is "?panic \<longleftrightarrow> ?key \<and> ?value")
proof
  assume ?panic
  then have "(starts_with key ''device.'' \<and> ends_with key ''.profile'' \<and>
        set_rule c path line key value Syspath = Panic) \<or>
      (starts_with key ''device-type.'' \<and> ends_with key ''.profile'' \<and>
        set_rule c path line key value Devtype = Panic)"
    unfolding set_key_def by (elim if_keep) (simp_all add: no_Panic)
  then show "?key \<and> ?value"
    using profile_suffix_overlap [of key "''device''"] profile_suffix_overlap [of key "''device-type''"]
      Profile_parse_Some
    by (auto simp: set_rule_Panic)
next
  assume kv: "?key \<and> ?value"
  then have "Profile_parse value \<noteq> None" using Profile_parse_Some by blast
  moreover have "set_key c path line ''device.profile'' value =
      set_rule c path line ''device.profile'' value Syspath"
    "set_key c path line ''device-type.profile'' value =
      set_rule c path line ''device-type.profile'' value Devtype"
    by (simp_all add: set_key_def starts_with_def ends_with_def)
  ultimately show ?panic
    using kv by (elim conjE disjE) (simp_all add: set_rule_Panic)
qed



section \<open>Lines keep the invariant\<close>

lemma content_newline:
  "trim_blank (takeWhile (\<lambda>c. c \<noteq> CHR ''#'') (s @ [newline])) =
   trim_blank (takeWhile (\<lambda>c. c \<noteq> CHR ''#'') s)"
proof (cases "CHR ''#'' \<in> set s")
  case True
  then show ?thesis by (simp add: takeWhile_append1)
next
  case False
  then have "takeWhile (\<lambda>c. c \<noteq> CHR ''#'') s = s"
    "takeWhile (\<lambda>c. c \<noteq> CHR ''#'') (s @ [newline]) = s @ [newline]"
    by (auto simp: takeWhile_eq_all_conv newline_def)
  moreover have "trim_blank (s @ [newline]) = trim_blank s"
    by (rule trim_blank_end) (simp add: blank_def)
  ultimately show ?thesis by (simp only:)
qed

lemma valid_utf8_before: "valid_utf8 s \<Longrightarrow> ascii_char d \<Longrightarrow> valid_utf8 (takeWhile (\<lambda>c. c \<noteq> d) s)"
proof (cases "d \<in> set s")
  case True
  assume v: "valid_utf8 s" and d: "ascii_char d"
  obtain a b where "s = a @ d # b" "d \<notin> set a" using split_list_first [OF True] by blast
  moreover from this have "takeWhile (\<lambda>c. c \<noteq> d) (a @ d # b) = a"
    by (subst takeWhile_append2) auto
  ultimately show ?thesis using v d by (simp add: valid_utf8_split)
next
  case False
  then have "takeWhile (\<lambda>c. c \<noteq> d) s = s" by (auto simp: takeWhile_eq_all_conv)
  then show "valid_utf8 s \<Longrightarrow> ?thesis" by (simp only:)
qed

lemma apply_line_draft:
  assumes d: "draft_ok n c" and a: "apply_line c p no (s @ b) = Ok c'"
    and b: "b = [] \<or> b = [newline]" and s: "newline \<notin> set s" "length s \<le> n"
    and v: "valid_utf8 (s @ b)"
  shows "draft_ok n c'"
proof -
  define t where "t = trim_blank (takeWhile (\<lambda>c. c \<noteq> CHR ''#'') s)"
  have t: "trim_blank (takeWhile (\<lambda>c. c \<noteq> CHR ''#'') (s @ b)) = t"
    using b content_newline [of s] by (auto simp: t_def)
  have "valid_utf8 s" using v b valid_utf8_suffix [of "[newline]" s] by auto
  then have t_utf8: "valid_utf8 t"
    by (simp add: t_def trim_blank_utf8 valid_utf8_before)
  have t_set: "set t \<subseteq> set (takeWhile (\<lambda>c. c \<noteq> CHR ''#'') s)"
    unfolding t_def by (rule trim_blank_set)
  have t_len: "length t \<le> n"
    using s(2) trim_blank_length [of "takeWhile (\<lambda>c. c \<noteq> CHR ''#'') s"]
      length_takeWhile_le [of "\<lambda>c. c \<noteq> CHR ''#''" s] by (simp add: t_def)
  show ?thesis
  proof (cases "t = []")
    case True
    then show ?thesis using a d t by (auto simp: apply_line_def Let_def split: if_splits)
  next
    case False
    then obtain eq where eq: "position (\<lambda>c. c = CHR ''='') t = Some eq"
      and k: "set_key c p no (trim_blank (take eq t)) (trim_blank (drop (eq + 1) t)) = Ok c'"
      using a t by (auto simp: apply_line_def Let_def split: if_splits option.splits)
    note eq' = position_Some [OF eq]
    have split: "t = take eq t @ CHR ''='' # drop (eq + 1) t"
      using eq' id_take_nth_drop [of eq t] by simp
    have "valid_utf8 (take eq t)"
      using t_utf8 split valid_utf8_split [of "CHR ''=''" "take eq t" "drop (eq + 1) t"] by simp
    moreover have "CHR ''='' \<notin> set (take eq t)"
      using eq' by (auto simp: in_set_conv_nth)
    moreover have "CHR ''#'' \<notin> set (take eq t)" "newline \<notin> set (take eq t)"
      using t_set s(1) by (auto dest!: in_set_takeD set_takeWhileD)
    ultimately have "text_ok (trim_blank (take eq t))"
      using trim_blank_set [of "take eq t"] by (auto simp: text_ok_def trim_blank_utf8)
    moreover have "length (trim_blank (take eq t)) + 1 + length (trim_blank (drop (eq + 1) t)) \<le> n"
      using t_len eq' trim_blank_length [of "take eq t"] trim_blank_length [of "drop (eq + 1) t"]
      by (simp, linarith)
    ultimately show ?thesis using set_key_draft [OF d k] by simp
  qed
qed

text \<open>
  The bound of a whole file: \<open>511\<close>, or \<open>510\<close> when its last line ends with a newline, since
  the newline counts for the length check of a line.
\<close>

lemma apply_raw_draft:
  assumes d: "draft_ok n c" and a: "apply_raw c p no (s @ b) = Ok c'"
    and b: "b = [] \<or> b = [newline]" and s: "newline \<notin> set s" and n: "511 - length b \<le> n"
  shows "draft_ok n c'"
proof -
  have "length (s @ b) \<le> 511" "valid_utf8 (s @ b)" "apply_line c p no (s @ b) = Ok c'"
    using a by (auto simp: apply_raw_def MAX_LINE_BYTES_def split: if_splits)
  then show ?thesis using apply_line_draft [OF d _ b s _ ] n by simp
qed

lemma apply_lines_draft:
  "draft_ok n c \<Longrightarrow> apply_lines c p no bs = Ok c' \<Longrightarrow>
   511 \<le> n \<or> 510 \<le> n \<and> (bs = [] \<or> last bs = newline) \<Longrightarrow> draft_ok n c'"
proof (induction bs arbitrary: c no rule: lines_induct)
  case (last bs)
  show ?case
  proof (cases "bs = []")
    case False
    then have "511 \<le> n" using last(1,4) by (metis last_in_set)
    then show ?thesis
      using last False apply_raw_draft [of n c p no bs "[]" c'] by (simp add: apply_lines_last)
  qed (use last in \<open>simp add: apply_lines_last\<close>)
next
  case (line s rest)
  obtain c1 where r: "apply_raw c p no (s @ [newline]) = Ok c1"
    and l: "apply_lines c1 p (no + 1) rest = Ok c'"
    using line(1,4) by (auto simp: apply_lines_line bind_outcome_eq_Ok)
  have "draft_ok n c1"
    using apply_raw_draft [OF line(3) r] line(1,5) by auto
  then show ?case using line(2) [OF _ l] line(5) by (auto split: if_splits)
qed

text \<open>
  C15. Whatever file the daemon accepts, the configuration it starts with is the one its
  components were written for: every number is in its documented range, the screen rectangle
  is not empty, a calibration is complete, and the at most 32 device rules have distinct
  keys, non-empty valid match text that fits a configuration line, and valid profiles.
\<close>

theorem parsed_config_valid:
  assumes "parse_bytes path bytes = Ok c"
  shows "config_ok c \<and> draft_ok 511 c"
  using assms draft_ok_default apply_lines_draft [of 511 Config_default path 1 bytes]
  by (auto simp: parse_bytes_def apply_bytes_def bind_outcome_eq_Ok Config_validate_None
      split: option.splits)

end
