(* ===== verification/Config_Dump.thy ===== *)
theory Config_Dump
  imports Config_Valid
begin

text \<open>
  \<open>Config::dump\<close> of \<open>crates/wiiland-core/src/config.rs\<close> and the round trip through
  \<open>parse_bytes\<close>: the text the configuration editor stores reads back as the configuration
  it was made from.
\<close>

section \<open>The dump\<close>

text \<open>The lines of \<open>dump\<close> as pairs of key and value, in the order they are written.\<close>

definition dump_head :: "config \<Rightarrow> (string \<times> string) list" where
  "dump_head c =
    [(''backend'', Backend_as_str (cfg_backend c)),
     (''profile'', case Profile_as_str (cfg_profile c) of Some s \<Rightarrow> s | None \<Rightarrow> ''unknown''),
     (''pointer-speed'', dec_int (cfg_pointer_speed c)),
     (''ir-speed'', dec_int (cfg_ir_speed c)),
     (''ir-deadzone'', dec_int (cfg_ir_deadzone c)),
     (''ir-smoothing'', dec_int (cfg_ir_smoothing c)),
     (''ir-tracking'', IrTracking_as_str (cfg_ir_tracking c)),
     (''ir-aim-mapping'', IrAimMapping_as_str (cfg_ir_aim_mapping c))]"

definition dump_screen :: "ir_rectangle option \<Rightarrow> (string \<times> string) list" where
  "dump_screen s =
    (case s of None \<Rightarrow> []
     | Some r \<Rightarrow>
       [(''ir-screen-left'', dec_int (rect_left r)), (''ir-screen-right'', dec_int (rect_right r)),
        (''ir-screen-top'', dec_int (rect_top r)), (''ir-screen-bottom'', dec_int (rect_bottom r))])"

definition yes_no :: "bool \<Rightarrow> string" where
  "yes_no b = (if b then ''yes'' else ''no'')"

definition dump_aim :: "config \<Rightarrow> (string \<times> string) list" where
  "dump_aim c =
    [(''aim-mode'', AimMode_as_str (cfg_aim_mode c)),
     (''aim-source'', AimSource_as_str (cfg_aim_source c)),
     (''aim-activation'', AimActivation_as_str (cfg_aim_activation c)),
     (''aim-sensitivity'', dec_int (cfg_aim_sensitivity c)),
     (''aim-deadzone'', dec_int (cfg_aim_deadzone c)),
     (''aim-smoothing'', dec_int (cfg_aim_smoothing c)),
     (''aim-invert-x'', yes_no (cfg_aim_invert_x c)),
     (''aim-invert-y'', yes_no (cfg_aim_invert_y c))]"

definition dump_cal ::
  "string \<Rightarrow> string \<Rightarrow> string \<Rightarrow> sensor_calibration option \<Rightarrow> (string \<times> string) list" where
  "dump_cal kx ky kz s =
    (case s of None \<Rightarrow> []
     | Some c \<Rightarrow>
       if SensorCalibration_complete c
       then [(kx, dec_int (cal_x c)), (ky, dec_int (cal_y c)), (kz, dec_int (cal_z c))]
       else [])"

definition dump_bindings :: "desktop_bindings \<Rightarrow> (string \<times> string) list" where
  "dump_bindings b =
    map (\<lambda>(name, a). (''desktop.'' @ name, DesktopAction_as_str a)) (DesktopBindings_iter b)"

definition dump_rule :: "device_rule \<Rightarrow> string \<times> string" where
  "dump_rule r =
    (DeviceRuleKind_prefix (rule_kind r) @ ''.'' @ rule_match_text r @ ''.profile'',
     case Profile_as_str (rule_profile r) of Some s \<Rightarrow> s | None \<Rightarrow> ''unknown'')"

definition dump_items :: "config \<Rightarrow> (string \<times> string) list" where
  "dump_items c =
    dump_head c @ dump_screen (cfg_ir_screen c) @ dump_aim c @
    dump_cal ''aim-accel-zero-x'' ''aim-accel-zero-y'' ''aim-accel-zero-z'' (cfg_aim_accel_zero c) @
    dump_cal ''aim-motion-plus-bias-x'' ''aim-motion-plus-bias-y'' ''aim-motion-plus-bias-z''
      (cfg_aim_motion_plus_bias c) @
    [(''aim-calibration-duration'', dec_int (cfg_aim_calibration_duration c))] @
    dump_bindings (cfg_desktop_bindings c) @
    map dump_rule (cfg_device_rules c)"

definition item_line :: "string \<times> string \<Rightarrow> string" where
  "item_line i = fst i @ ''='' @ snd i @ [newline]"

definition Config_dump :: "config \<Rightarrow> string" where
  "Config_dump c = concat (map item_line (dump_items c))"


section \<open>Bounded integers\<close>

lemma plain_digit: "d < 10 \<Longrightarrow> plain_char (digit_char d)"
  using digit_char_nat [of d] by (fastforce simp: plain_char_def)

lemma dec_int_plain: "plain (dec_int n)"
proof -
  have "list_all plain_char (dec_nat m)" for m
    using dec_nat_digits plain_digit by (metis list_all_iff)
  then show ?thesis by (simp add: plain_def dec_int_def plain_char_def)
qed

text \<open>Every bounded integer option is a text value.\<close>

definition print_in :: "int \<Rightarrow> int \<Rightarrow> int \<Rightarrow> string option" where
  "print_in lo hi n = (if between lo hi n then Some (dec_int n) else None)"

lemma bounded_text: "in_i32 lo \<Longrightarrow> in_i32 hi \<Longrightarrow> text_value (print_in lo hi) (\<lambda>s. parse_int s lo hi)"
proof
  fix a s assume b: "in_i32 lo" "in_i32 hi" and p: "print_in lo hi a = Some s"
  have a: "in_i32 a" "in_i64 a"
    using b p by (auto simp: print_in_def between_def in_i32_def in_i64_def split: if_splits)
  then show "parse_int s lo hi = Some a"
    using p by (auto simp: print_in_def parse_int_def parse_i64_dec as_i32_id between_def split: if_splits)
  show "plain s" using p dec_int_plain by (auto simp: print_in_def split: if_splits)
qed

interpretation speed_text: text_value "print_in 1 127" "\<lambda>s. parse_int s 1 127"
  by (rule bounded_text) (simp_all add: in_i32_def)

interpretation byte_text: text_value "print_in 0 127" "\<lambda>s. parse_int s 0 127"
  by (rule bounded_text) (simp_all add: in_i32_def)

interpretation percent_text: text_value "print_in 0 95" "\<lambda>s. parse_int s 0 95"
  by (rule bounded_text) (simp_all add: in_i32_def)

interpretation coordinate_text: text_value "print_in 0 32767" "\<lambda>s. parse_int s 0 32767"
  by (rule bounded_text) (simp_all add: in_i32_def)

interpretation duration_text: text_value "print_in 1 30" "\<lambda>s. parse_int s 1 30"
  by (rule bounded_text) (simp_all add: in_i32_def)

interpretation sample_text: text_value "print_in (-32768) 32767" "\<lambda>s. parse_int s (-32768) 32767"
  by (rule bounded_text) (simp_all add: in_i32_def)

section \<open>Lines of a dump\<close>

text \<open>An item whose line \<open>apply_raw\<close> reads back as the same key and value.\<close>

definition item_ok :: "string \<times> string \<Rightarrow> bool" where
  "item_ok i \<longleftrightarrow>
    text_ok (fst i) \<and> fst i \<noteq> [] \<and> \<not> blank (hd (fst i)) \<and> \<not> blank (last (fst i)) \<and>
    plain (snd i) \<and> length (fst i) + 1 + length (snd i) \<le> 510"

lemma plain_not_blank: "plain_char c \<Longrightarrow> \<not> blank c"
  by (auto simp: plain_char_def blank_def newline_def)

lemma plain_ascii: "plain_char c \<Longrightarrow> ascii_char c"
  by (auto simp: plain_char_def ascii_char_def)

lemma plain_ends: "plain s \<Longrightarrow> s \<noteq> [] \<and> \<not> blank (hd s) \<and> \<not> blank (last s)"
  by (auto simp: plain_def list_all_iff plain_not_blank)

lemma plain_text_ok: "plain s \<Longrightarrow> text_ok s"
proof -
  assume s: "plain s"
  have no: "\<not> plain_char (CHR ''#'')" "\<not> plain_char (CHR ''='')" "\<not> plain_char newline"
    by (simp_all add: plain_char_def newline_def)
  have "list_all ascii_char s" using s by (auto simp: plain_def list_all_iff plain_ascii)
  then have "valid_utf8 s" by (rule valid_utf8_ascii)
  then show ?thesis using s no unfolding text_ok_def plain_def list_all_iff by blast
qed

lemma apply_raw_item:
  assumes i: "item_ok i"
  shows "apply_raw c p no (item_line i) = set_key c p no (fst i) (snd i)"
proof -
  obtain k v where kv: "i = (k, v)" by force
  have k: "text_ok k" "k \<noteq> []" "\<not> blank (hd k)" "\<not> blank (last k)"
    and v: "plain v" "text_ok v" "v \<noteq> []" "\<not> blank (hd v)" "\<not> blank (last v)"
    and len: "length k + 1 + length v \<le> 510"
    using i kv plain_ends [of v] plain_text_ok [of v] by (auto simp: item_ok_def)
  let ?s = "k @ CHR ''='' # v"
  have line: "item_line i = ?s @ [newline]" by (simp add: item_line_def kv)
  have nohash: "takeWhile (\<lambda>c. c \<noteq> CHR ''#'') ?s = ?s"
    using k v by (auto simp: takeWhile_eq_all_conv text_ok_def)
  have trim: "trim_blank ?s = ?s"
    using k v by (intro trim_blank_id) (auto simp: hd_append)
  have content: "trim_blank (takeWhile (\<lambda>c. c \<noteq> CHR ''#'') (?s @ [newline])) = ?s"
    unfolding content_newline nohash by (rule trim)
  have pos: "position (\<lambda>c. c = CHR ''='') ?s = Some (length k)"
    by (rule position_append) (use k in \<open>auto simp: text_ok_def\<close>)
  have "valid_utf8 (item_line i)"
    using k v valid_utf8_split [of "CHR ''=''" k "v @ [newline]"] valid_utf8_suffix [of "[newline]" v]
    by (simp add: line text_ok_def)
  moreover have "length (item_line i) \<le> 511" using len by (simp add: line)
  ultimately have "apply_raw c p no (item_line i) = apply_line c p no (?s @ [newline])"
    by (simp add: apply_raw_def MAX_LINE_BYTES_def line)
  also have "\<dots> = set_key c p no (trim_blank (take (length k) ?s)) (trim_blank (drop (length k + 1) ?s))"
    using len unfolding apply_line_def Let_def content pos by (simp add: MAX_LINE_BYTES_def)
  also have "\<dots> = set_key c p no k v" using k v by (simp add: trim_blank_id)
  finally show ?thesis by (simp add: kv)
qed

primrec set_items :: "config \<Rightarrow> string \<Rightarrow> nat \<Rightarrow> (string \<times> string) list \<Rightarrow> (config, config_error) outcome" where
  "set_items c p no [] = Ok c"
| "set_items c p no (i # is) =
    bind_outcome (set_key c p no (fst i) (snd i)) (\<lambda>c'. set_items c' p (no + 1) is)"

lemma set_items_append:
  "set_items c p no (is @ js) = bind_outcome (set_items c p no is) (\<lambda>c'. set_items c' p (no + length is) js)"
proof (induction "is" arbitrary: c no)
  case (Cons i js')
  then show ?case by (cases "set_key c p no (fst i) (snd i)") simp_all
qed simp

lemma apply_lines_items:
  "list_all item_ok is \<Longrightarrow> apply_lines c p no (concat (map item_line is)) = set_items c p no is"
proof (induction "is" arbitrary: c no)
  case Nil
  then show ?case by (simp add: apply_lines.simps)
next
  case (Cons i "is")
  obtain k v where kv: "i = (k, v)" by force
  let ?s = "k @ CHR ''='' # v" and ?rest = "concat (map item_line is)"
  have nn: "newline \<notin> set ?s"
    using Cons.prems kv plain_text_ok [of v] by (auto simp: item_ok_def text_ok_def newline_def)
  have bs: "concat (map item_line (i # is)) = ?s @ newline # ?rest"
    by (simp add: kv item_line_def)
  have "apply_lines c p no (concat (map item_line (i # is))) =
      bind_outcome (apply_raw c p no (?s @ [newline])) (\<lambda>c'. apply_lines c' p (no + 1) ?rest)"
    unfolding bs by (rule apply_lines_line [OF nn])
  also have "?s @ [newline] = item_line i" by (simp add: kv item_line_def)
  finally show ?case
    using Cons apply_raw_item [of i] by simp
qed


section \<open>Keys of a dump\<close>

lemma ends_with_append [simp]: "ends_with (s @ t) t"
  by (simp add: ends_with_def)

lemma set_key_fixed:
  "set_key self path line ''backend'' value =
     (if value = ''uinput'' then Ok (self\<lparr>cfg_backend := Uinput\<rparr>)
       else Err (config_invalid path line ''backend''))"
  "set_key self path line ''profile'' value =
     set_parsed path line ''profile'' (Profile_parse value) (\<lambda>v. self\<lparr>cfg_profile := v\<rparr>)"
  "set_key self path line ''pointer-speed'' value =
     set_parsed path line ''pointer-speed'' (parse_int value 1 127) (\<lambda>v. self\<lparr>cfg_pointer_speed := v\<rparr>)"
  "set_key self path line ''ir-speed'' value =
     set_parsed path line ''ir-speed'' (parse_int value 1 127) (\<lambda>v. self\<lparr>cfg_ir_speed := v\<rparr>)"
  "set_key self path line ''ir-deadzone'' value =
     set_parsed path line ''ir-deadzone'' (parse_int value 0 127) (\<lambda>v. self\<lparr>cfg_ir_deadzone := v\<rparr>)"
  "set_key self path line ''ir-smoothing'' value =
     set_parsed path line ''ir-smoothing'' (parse_int value 0 95) (\<lambda>v. self\<lparr>cfg_ir_smoothing := v\<rparr>)"
  "set_key self path line ''ir-tracking'' value =
     set_parsed path line ''ir-tracking'' (IrTracking_parse value) (\<lambda>v. self\<lparr>cfg_ir_tracking := v\<rparr>)"
  "set_key self path line ''ir-aim-mapping'' value =
     set_parsed path line ''ir-aim-mapping'' (IrAimMapping_parse value) (\<lambda>v. self\<lparr>cfg_ir_aim_mapping := v\<rparr>)"
  "set_key self path line ''ir-screen-left'' value =
     set_screen self path line ''ir-screen-left'' value 0"
  "set_key self path line ''ir-screen-right'' value =
     set_screen self path line ''ir-screen-right'' value 1"
  "set_key self path line ''ir-screen-top'' value =
     set_screen self path line ''ir-screen-top'' value 2"
  "set_key self path line ''ir-screen-bottom'' value =
     set_screen self path line ''ir-screen-bottom'' value 3"
  "set_key self path line ''aim-mode'' value =
     set_parsed path line ''aim-mode'' (AimMode_parse value) (\<lambda>v. self\<lparr>cfg_aim_mode := v\<rparr>)"
  "set_key self path line ''aim-source'' value =
     set_parsed path line ''aim-source'' (AimSource_parse value) (\<lambda>v. self\<lparr>cfg_aim_source := v\<rparr>)"
  "set_key self path line ''aim-activation'' value =
     set_parsed path line ''aim-activation'' (AimActivation_parse value) (\<lambda>v. self\<lparr>cfg_aim_activation := v\<rparr>)"
  "set_key self path line ''aim-sensitivity'' value =
     set_parsed path line ''aim-sensitivity'' (parse_int value 1 127) (\<lambda>v. self\<lparr>cfg_aim_sensitivity := v\<rparr>)"
  "set_key self path line ''aim-deadzone'' value =
     set_parsed path line ''aim-deadzone'' (parse_int value 0 32767) (\<lambda>v. self\<lparr>cfg_aim_deadzone := v\<rparr>)"
  "set_key self path line ''aim-smoothing'' value =
     set_parsed path line ''aim-smoothing'' (parse_int value 0 95) (\<lambda>v. self\<lparr>cfg_aim_smoothing := v\<rparr>)"
  "set_key self path line ''aim-invert-x'' value =
     set_bool self path line ''aim-invert-x'' value True"
  "set_key self path line ''aim-invert-y'' value =
     set_bool self path line ''aim-invert-y'' value False"
  "set_key self path line ''aim-accel-zero-x'' value =
     set_cal self path line ''aim-accel-zero-x'' value True 0"
  "set_key self path line ''aim-accel-zero-y'' value =
     set_cal self path line ''aim-accel-zero-y'' value True 1"
  "set_key self path line ''aim-accel-zero-z'' value =
     set_cal self path line ''aim-accel-zero-z'' value True 2"
  "set_key self path line ''aim-motion-plus-bias-x'' value =
     set_cal self path line ''aim-motion-plus-bias-x'' value False 0"
  "set_key self path line ''aim-motion-plus-bias-y'' value =
     set_cal self path line ''aim-motion-plus-bias-y'' value False 1"
  "set_key self path line ''aim-motion-plus-bias-z'' value =
     set_cal self path line ''aim-motion-plus-bias-z'' value False 2"
  "set_key self path line ''aim-calibration-duration'' value =
     set_parsed path line ''aim-calibration-duration'' (parse_int value 1 30) (\<lambda>v. self\<lparr>cfg_aim_calibration_duration := v\<rparr>)"
  by (simp_all add: set_key_def)

lemma set_key_desktop:
  "set_key self path line (''desktop.'' @ name) value = set_desktop self path line (''desktop.'' @ name) value"
  by (simp add: set_key_def starts_with_def)

lemma set_key_rule:
  "set_key self path line (DeviceRuleKind_prefix kind @ ''.'' @ m @ ''.profile'') value =
    set_rule self path line (DeviceRuleKind_prefix kind @ ''.'' @ m @ ''.profile'') value kind"
proof -
  have e: "ends_with (''device.'' @ m @ ''.profile'') ''.profile''"
    "ends_with (''device-type.'' @ m @ ''.profile'') ''.profile''"
    by (metis append.assoc ends_with_append)+
  show ?thesis
    using e by (cases kind) (simp_all add: set_key_def starts_with_def)
qed

lemma set_parsed_Some: "v = Some x \<Longrightarrow> set_parsed p l k v store = Ok (store x)"
  by (simp add: set_parsed_def)

section \<open>Reading a dump back\<close>

text \<open>The parsers at printed values, through the text contracts.\<close>

lemma read_bounded:
  "between 1 127 n \<Longrightarrow> parse_int (dec_int n) 1 127 = Some n"
  "between 0 127 n \<Longrightarrow> parse_int (dec_int n) 0 127 = Some n"
  "between 0 95 n \<Longrightarrow> parse_int (dec_int n) 0 95 = Some n"
  "between 0 32767 n \<Longrightarrow> parse_int (dec_int n) 0 32767 = Some n"
  "between 1 30 n \<Longrightarrow> parse_int (dec_int n) 1 30 = Some n"
  "between (-32768) 32767 n \<Longrightarrow> parse_int (dec_int n) (-32768) 32767 = Some n"
  by (simp_all add: print_in_def speed_text.parse_print byte_text.parse_print percent_text.parse_print
      coordinate_text.parse_print duration_text.parse_print sample_text.parse_print)

lemma read_choice [simp]:
  "IrTracking_parse (IrTracking_as_str a) = Some a"
  "IrAimMapping_parse (IrAimMapping_as_str b) = Some b"
  "AimMode_parse (AimMode_as_str m) = Some m"
  "AimSource_parse (AimSource_as_str s) = Some s"
  "AimActivation_parse (AimActivation_as_str v) = Some v"
  "DesktopAction_parse (DesktopAction_as_str d) = Some d"
  by (simp_all add: tracking_text.parse_print aim_mapping_text.parse_print mode_text.parse_print
      source_text.parse_print activation_text.parse_print action_text.parse_print)

lemma Profile_text:
  "Profile_is_valid q \<Longrightarrow>
   Profile_parse (case Profile_as_str q of Some s \<Rightarrow> s | None \<Rightarrow> ''unknown'') = Some q \<and>
   plain (case Profile_as_str q of Some s \<Rightarrow> s | None \<Rightarrow> ''unknown'')"
  using Profile_as_str_valid profile_text.parse_print profile_text.print_plain by fastforce

lemma set_head:
  assumes "draft_ok n d"
  shows "set_items c p no (dump_head d) =
    Ok (c\<lparr>cfg_backend := cfg_backend d, cfg_profile := cfg_profile d,
          cfg_pointer_speed := cfg_pointer_speed d, cfg_ir_speed := cfg_ir_speed d,
          cfg_ir_deadzone := cfg_ir_deadzone d, cfg_ir_smoothing := cfg_ir_smoothing d,
          cfg_ir_tracking := cfg_ir_tracking d, cfg_ir_aim_mapping := cfg_ir_aim_mapping d\<rparr>)"
  using assms Profile_text [of "cfg_profile d"] unfolding draft_ok_def
  by (cases "cfg_backend d")
    (simp add: dump_head_def set_key_fixed Backend_as_str_def set_parsed_Some read_bounded)

lemma set_screen_items:
  assumes "draft_ok n d" "cfg_ir_screen c = None"
  shows "set_items c p no (dump_screen (cfg_ir_screen d)) = Ok (c\<lparr>cfg_ir_screen := cfg_ir_screen d\<rparr>)"
proof (cases "cfg_ir_screen d")
  case None
  then show ?thesis using assms(2) by (simp add: dump_screen_def)
next
  case (Some r)
  then have "screen_range (Some r)" using assms(1) by (simp add: draft_ok_def)
  then show ?thesis
    using Some assms(2)
    by (simp add: dump_screen_def set_key_fixed set_screen_def screen_range_def read_bounded)
qed

lemma set_aim:
  assumes "draft_ok n d"
  shows "set_items c p no (dump_aim d) =
    Ok (c\<lparr>cfg_aim_mode := cfg_aim_mode d, cfg_aim_source := cfg_aim_source d,
          cfg_aim_activation := cfg_aim_activation d, cfg_aim_sensitivity := cfg_aim_sensitivity d,
          cfg_aim_deadzone := cfg_aim_deadzone d, cfg_aim_smoothing := cfg_aim_smoothing d,
          cfg_aim_invert_x := cfg_aim_invert_x d, cfg_aim_invert_y := cfg_aim_invert_y d\<rparr>)"
proof -
  have b: "set_bool c p l k (yes_no b) True = Ok (c\<lparr>cfg_aim_invert_x := b\<rparr>)"
    "set_bool c p l k (yes_no b) False = Ok (c\<lparr>cfg_aim_invert_y := b\<rparr>)" for c p l k b
    by (simp_all add: set_bool_def yes_no_def)
  show ?thesis
    using assms unfolding draft_ok_def
    by (simp add: dump_aim_def set_key_fixed set_parsed_Some read_bounded b)
qed

lemma cal_axes_complete:
  "cal_axes k = CAL_ALL \<Longrightarrow> (\<lparr>cal_x = cal_x k, cal_y = cal_y k, cal_z = cal_z k, cal_axes = (0 OR CAL_X OR CAL_Y) OR CAL_Z\<rparr>) = k"
  by (cases k) (simp add: CAL_X_def CAL_Y_def CAL_Z_def CAL_ALL_def)

lemma set_cal_items:
  assumes "cal_range s" "calibration_ok s"
  shows "cfg_aim_accel_zero c = None \<Longrightarrow>
      set_items c p no (dump_cal ''aim-accel-zero-x'' ''aim-accel-zero-y'' ''aim-accel-zero-z'' s) =
        Ok (c\<lparr>cfg_aim_accel_zero := s\<rparr>)"
    and "cfg_aim_motion_plus_bias c = None \<Longrightarrow>
      set_items c p no (dump_cal ''aim-motion-plus-bias-x'' ''aim-motion-plus-bias-y''
          ''aim-motion-plus-bias-z'' s) =
        Ok (c\<lparr>cfg_aim_motion_plus_bias := s\<rparr>)"
proof -
  have "set_items c p no (dump_cal ''aim-accel-zero-x'' ''aim-accel-zero-y'' ''aim-accel-zero-z'' s) =
        Ok (c\<lparr>cfg_aim_accel_zero := s\<rparr>)" if "cfg_aim_accel_zero c = None"
  proof (cases s)
    case None then show ?thesis using that by (simp add: dump_cal_def)
  next
    case (Some k)
    with assms have "cal_axes k = CAL_ALL" by (simp add: cal_range_def calibration_ok_def)
    with Some show ?thesis
      using assms(1) that cal_axes_complete [of k]
      by (simp add: dump_cal_def SensorCalibration_complete_def set_key_fixed set_cal_def cal_range_def
          read_bounded)
  qed
  then show "cfg_aim_accel_zero c = None \<Longrightarrow> set_items c p no
      (dump_cal ''aim-accel-zero-x'' ''aim-accel-zero-y'' ''aim-accel-zero-z'' s) =
        Ok (c\<lparr>cfg_aim_accel_zero := s\<rparr>)" .
  have "set_items c p no (dump_cal ''aim-motion-plus-bias-x'' ''aim-motion-plus-bias-y''
          ''aim-motion-plus-bias-z'' s) = Ok (c\<lparr>cfg_aim_motion_plus_bias := s\<rparr>)"
    if "cfg_aim_motion_plus_bias c = None"
  proof (cases s)
    case None then show ?thesis using that by (simp add: dump_cal_def)
  next
    case (Some k)
    with assms have "cal_axes k = CAL_ALL" by (simp add: cal_range_def calibration_ok_def)
    with Some show ?thesis
      using assms(1) that cal_axes_complete [of k]
      by (simp add: dump_cal_def SensorCalibration_complete_def set_key_fixed set_cal_def cal_range_def
          read_bounded)
  qed
  then show "cfg_aim_motion_plus_bias c = None \<Longrightarrow> set_items c p no
      (dump_cal ''aim-motion-plus-bias-x'' ''aim-motion-plus-bias-y'' ''aim-motion-plus-bias-z'' s) =
        Ok (c\<lparr>cfg_aim_motion_plus_bias := s\<rparr>)" .
qed

lemma set_bindings:
  "set_items c p no (dump_bindings b) = Ok (c\<lparr>cfg_desktop_bindings := b\<rparr>)"
proof -
  have key: "set_key c p l (CHR ''d'' # CHR ''e'' # CHR ''s'' # CHR ''k'' # CHR ''t'' # CHR ''o'' # CHR ''p'' #
      CHR ''.'' # name) v = set_desktop c p l (''desktop.'' @ name) v" for c p l name v
    using set_key_desktop [of c p l name v] by simp
  show ?thesis
    by (cases b) (simp add: dump_bindings_def DesktopBindings_iter_def key set_desktop_def
        DesktopBindings_set_def)
qed

lemma slice_of_middle: "slice_str (p @ ''.'' @ m @ ''.profile'') (length p + 1) (length (p @ ''.'' @ m @ ''.profile'') - 8) = Some m"
  by (simp add: slice_str_def)

lemma set_rules:
  "rules_ok n (cfg_device_rules c @ rs) \<Longrightarrow>
   set_items c p no (map dump_rule rs) = Ok (c\<lparr>cfg_device_rules := cfg_device_rules c @ rs\<rparr>)"
proof (induction rs arbitrary: c no)
  case (Cons r rs)
  let ?key = "DeviceRuleKind_prefix (rule_kind r) @ ''.'' @ rule_match_text r @ ''.profile''"
  let ?v = "case Profile_as_str (rule_profile r) of Some s \<Rightarrow> s | None \<Rightarrow> ''unknown''"
  let ?c = "c\<lparr>cfg_device_rules := cfg_device_rules c @ [r]\<rparr>"
  have r: "rule_match_text r \<noteq> []" "Profile_parse ?v = Some (rule_profile r)"
    using Cons.prems Profile_text [of "rule_profile r"] by (auto simp: rules_ok_def rule_ok_def)
  have "rule_key r \<notin> rule_key ` set (cfg_device_rules c)"
    using Cons.prems by (auto simp: rules_ok_def)
  then have new: "position (\<lambda>q. rule_kind q = rule_kind r \<and> rule_match_text q = rule_match_text r)
      (cfg_device_rules c) = None"
    unfolding position_None rule_key_def by (auto simp: image_iff)
  have room: "\<not> MAX_DEVICE_RULES \<le> length (cfg_device_rules c)"
    using Cons.prems by (simp add: rules_ok_def)
  have eq: "\<lparr>rule_kind = rule_kind r, rule_match_text = rule_match_text r, rule_profile = rule_profile r\<rparr> = r"
    by (cases r) simp
  have "set_key c p no ?key ?v = Ok ?c"
    unfolding set_key_rule set_rule_def r(2) ok_or_simps bind_outcome_simps slice_of_middle
    using r(1) new room eq by simp
  moreover have "set_items ?c p (no + 1) (map dump_rule rs) =
      Ok (?c\<lparr>cfg_device_rules := cfg_device_rules ?c @ rs\<rparr>)"
    by (rule Cons.IH) (use Cons.prems in simp)
  moreover have "dump_rule r = (?key, ?v)" by (simp add: dump_rule_def)
  ultimately show ?case by simp
qed simp

lemma config_eq:
  "c\<lparr>cfg_backend := cfg_backend d, cfg_profile := cfg_profile d,
     cfg_pointer_speed := cfg_pointer_speed d, cfg_ir_speed := cfg_ir_speed d,
     cfg_ir_deadzone := cfg_ir_deadzone d, cfg_ir_smoothing := cfg_ir_smoothing d,
     cfg_ir_tracking := cfg_ir_tracking d, cfg_ir_aim_mapping := cfg_ir_aim_mapping d,
     cfg_ir_screen := cfg_ir_screen d, cfg_aim_mode := cfg_aim_mode d,
     cfg_aim_source := cfg_aim_source d, cfg_aim_activation := cfg_aim_activation d,
     cfg_aim_sensitivity := cfg_aim_sensitivity d, cfg_aim_deadzone := cfg_aim_deadzone d,
     cfg_aim_smoothing := cfg_aim_smoothing d, cfg_aim_invert_x := cfg_aim_invert_x d,
     cfg_aim_invert_y := cfg_aim_invert_y d, cfg_aim_accel_zero := cfg_aim_accel_zero d,
     cfg_aim_motion_plus_bias := cfg_aim_motion_plus_bias d,
     cfg_aim_calibration_duration := cfg_aim_calibration_duration d,
     cfg_desktop_bindings := cfg_desktop_bindings d, cfg_device_rules := cfg_device_rules d\<rparr> =
   (d :: config)"
  by (cases c, cases d) simp

lemma set_items_dump:
  assumes d: "draft_ok n d" and ok: "config_ok d"
  shows "set_items Config_default p no (dump_items d) = Ok d"
proof -
  have cal: "cal_range (cfg_aim_accel_zero d)" "cal_range (cfg_aim_motion_plus_bias d)"
    "calibration_ok (cfg_aim_accel_zero d)" "calibration_ok (cfg_aim_motion_plus_bias d)"
    "rules_ok n (cfg_device_rules d)" "between 1 30 (cfg_aim_calibration_duration d)"
    using d ok by (simp_all add: draft_ok_def config_ok_def)
  have def: "cfg_ir_screen Config_default = None" "cfg_aim_accel_zero Config_default = None"
    "cfg_aim_motion_plus_bias Config_default = None" "cfg_device_rules Config_default = []"
    by (simp_all add: Config_default_def)
  have rules: "set_items c p no (map dump_rule (cfg_device_rules d)) =
      Ok (c\<lparr>cfg_device_rules := cfg_device_rules d\<rparr>)" if "cfg_device_rules c = []" for c no
    using set_rules [of n c "cfg_device_rules d" p no] cal that by simp
  show ?thesis
    unfolding dump_items_def
    using cal def
    by (simp add: set_items_append set_head [OF d] set_screen_items [OF d] set_aim [OF d]
        set_cal_items set_key_fixed set_parsed_Some read_bounded set_bindings rules config_eq del: append.simps)
qed


section \<open>Every line of a dump is readable\<close>

lemma text_ok_append: "list_all plain_char a \<Longrightarrow> list_all plain_char b \<Longrightarrow> text_ok m \<Longrightarrow> text_ok (a @ m @ b)"
proof -
  assume a: "list_all plain_char a" and b: "list_all plain_char b" and m: "text_ok m"
  have no: "\<not> plain_char (CHR ''#'')" "\<not> plain_char (CHR ''='')" "\<not> plain_char newline"
    by (simp_all add: plain_char_def newline_def)
  have "list_all ascii_char a" "list_all ascii_char b"
    using a b by (auto simp: list_all_iff plain_ascii)
  then have "valid_utf8 (a @ m @ b)"
    using m valid_utf8_prefix [of a "m @ b"] valid_utf8_suffix [of b m] by (simp add: text_ok_def)
  then show ?thesis using a b m no by (auto simp: text_ok_def list_all_iff)
qed

lemma dump_rule_item: "rule_ok 510 r \<Longrightarrow> item_ok (dump_rule r)"
proof -
  assume r: "rule_ok 510 r"
  let ?pre = "DeviceRuleKind_prefix (rule_kind r) @ ''.''"
  have "text_ok (?pre @ rule_match_text r @ ''.profile'')"
    by (rule text_ok_append) (use r in \<open>cases "rule_kind r"; simp add: plain_char_def rule_ok_def\<close>)+
  moreover have "\<not> blank (hd (?pre @ rule_match_text r @ ''.profile''))"
    by (cases "rule_kind r") (simp_all add: blank_def newline_def)
  moreover have "\<not> blank (last (?pre @ rule_match_text r @ ''.profile''))"
    by (simp add: blank_def newline_def)
  moreover have "length (?pre @ rule_match_text r @ ''.profile'') + 1 +
      length (case Profile_as_str (rule_profile r) of Some s \<Rightarrow> s | None \<Rightarrow> ''unknown'') \<le> 510"
    using r by (simp add: rule_ok_def rule_text_def)
  ultimately show ?thesis
    using r Profile_text [of "rule_profile r"] by (simp add: item_ok_def dump_rule_def rule_ok_def)
qed

lemma plain_item: "plain k \<Longrightarrow> plain v \<Longrightarrow> length k \<le> 100 \<Longrightarrow> length v \<le> 100 \<Longrightarrow> item_ok (k, v)"
  using plain_ends [of k] plain_text_ok [of k] by (simp add: item_ok_def)

lemma dec_nat_length: "n < 10 ^ d \<Longrightarrow> 0 < d \<Longrightarrow> length (dec_nat n) \<le> d"
proof (induction d arbitrary: n)
  case (Suc d)
  show ?case
  proof (cases "n < 10")
    case True then show ?thesis by (simp add: dec_nat.simps [of n])
  next
    case False
    then have "0 < d" using Suc.prems by (cases d) simp_all
    moreover have "n div 10 < 10 ^ d" using Suc.prems by (simp add: less_mult_imp_div_less mult.commute)
    ultimately show ?thesis using Suc.IH [of "n div 10"] False by (simp add: dec_nat.simps [of n])
  qed
qed simp

lemma dec_int_length: "between (-32768) 32767 n \<Longrightarrow> length (dec_int n) \<le> 6"
proof (cases "n < 0")
  case True
  assume "between (-32768) 32767 n"
  then have "nat (- n) < 10 ^ 5" using True by (simp add: between_def nat_less_iff)
  with True show ?thesis using dec_nat_length [of "nat (- n)" 5] by (simp add: dec_int_def)
next
  case False
  assume "between (-32768) 32767 n"
  then have "nat n < 10 ^ 5" using False by (simp add: between_def nat_less_iff)
  with False show ?thesis using dec_nat_length [of "nat n" 5] by (simp add: dec_int_def)
qed

lemma choice_length:
  "length (IrTracking_as_str a) \<le> 100" "length (IrAimMapping_as_str b) \<le> 100"
  "length (AimMode_as_str m) \<le> 100" "length (AimSource_as_str s) \<le> 100"
  "length (AimActivation_as_str v) \<le> 100" "length (DesktopAction_as_str d) \<le> 100"
  "length (yes_no yn) \<le> 100" "length (Backend_as_str bk) \<le> 100"
  by (cases a, simp_all) (cases b, simp_all, cases m, simp_all, cases s, simp_all, cases v, simp_all,
    cases d, simp_all add: yes_no_def Backend_as_str_def)

lemma choice_plain:
  "plain (IrTracking_as_str a)" "plain (IrAimMapping_as_str b)" "plain (AimMode_as_str m)"
  "plain (AimSource_as_str s)" "plain (AimActivation_as_str v)" "plain (DesktopAction_as_str d)"
  "plain (yes_no yn)" "plain (Backend_as_str bk)"
  by (simp_all add: tracking_text.print_plain aim_mapping_text.print_plain mode_text.print_plain
      source_text.print_plain activation_text.print_plain action_text.print_plain)
    (simp_all add: yes_no_def Backend_as_str_def plain_simps)

lemma dump_items_ok:
  assumes d: "draft_ok 510 d"
  shows "list_all item_ok (dump_items d)"
proof -
  have num: "item_ok (k, dec_int n)"
    if "plain k" "length k \<le> 100" "between (-32768) 32767 n" for k n
    using that plain_item [of k "dec_int n"] dec_int_plain dec_int_length [of n] by simp
  have p: "item_ok (''profile'', case Profile_as_str (cfg_profile d) of Some s \<Rightarrow> s | None \<Rightarrow> ''unknown'')"
    using d Profile_text [of "cfg_profile d"]
    by (intro plain_item) (auto simp: draft_ok_def plain_simps Profile_as_str_def)
  have choice: "item_ok (k, IrTracking_as_str a)" "item_ok (k, IrAimMapping_as_str b)"
    "item_ok (k, AimMode_as_str m)" "item_ok (k, AimSource_as_str s)"
    "item_ok (k, AimActivation_as_str v)" "item_ok (k, DesktopAction_as_str ac)"
    "item_ok (k, yes_no yn)" "item_ok (k, Backend_as_str bk)"
    if "plain k" "length k \<le> 100" for k a b m s v ac yn bk
    using that by (simp_all add: plain_item choice_length choice_plain)
  have wide: "between lo hi n \<Longrightarrow> -32768 \<le> lo \<Longrightarrow> hi \<le> 32767 \<Longrightarrow> between (-32768) 32767 n"
    for lo hi n by (simp add: between_def)
  have head: "list_all item_ok (dump_head d)" "list_all item_ok (dump_aim d)"
    using d unfolding draft_ok_def dump_head_def dump_aim_def
    by (auto simp: plain_simps p intro!: num choice elim: wide)
  have screen: "list_all item_ok (dump_screen (cfg_ir_screen d))"
  proof (cases "cfg_ir_screen d")
    case (Some r)
    then have "screen_range (Some r)" using d by (simp add: draft_ok_def)
    then show ?thesis unfolding Some dump_screen_def screen_range_def
      by (auto simp: plain_simps intro!: num elim: wide)
  qed (simp add: dump_screen_def)
  have cal: "list_all item_ok (dump_cal kx ky kz s)"
    if "cal_range s" "plain kx" "plain ky" "plain kz" "length kx \<le> 100" "length ky \<le> 100"
      "length kz \<le> 100" for s kx ky kz
    using that unfolding dump_cal_def cal_range_def by (auto split: option.split intro!: num)
  have bind: "list_all item_ok (dump_bindings (cfg_desktop_bindings d))"
    unfolding dump_bindings_def DesktopBindings_iter_def
    by (auto simp: plain_simps intro!: choice)
  have rules: "list_all item_ok (map dump_rule (cfg_device_rules d))"
    using d dump_rule_item by (auto simp: draft_ok_def rules_ok_def list_all_iff)
  have dur: "item_ok (''aim-calibration-duration'', dec_int (cfg_aim_calibration_duration d))"
    using d by (intro num) (auto simp: draft_ok_def plain_simps elim: wide)
  show ?thesis
    unfolding dump_items_def
    using head screen bind rules dur d
    by (simp add: draft_ok_def cal plain_simps)
qed

lemma dump_reads_back:
  assumes "config_ok c" and "draft_ok 510 c"
  shows "parse_bytes path (Config_dump c) = Ok c"
  using assms apply_lines_items [OF dump_items_ok, of c] set_items_dump [of 510 c path 1]
  by (simp add: parse_bytes_def apply_bytes_def Config_dump_def Config_validate_None [THEN iffD2])

lemma parsed_draft:
  assumes "parse_bytes path bytes = Ok c" and "bytes = [] \<or> last bytes = newline"
  shows "config_ok c \<and> draft_ok 510 c"
proof
  show "config_ok c"
    using assms(1)
    by (auto simp: parse_bytes_def bind_outcome_eq_Ok Config_validate_None split: option.splits)
  show "draft_ok 510 c"
    using assms draft_ok_default apply_lines_draft [of 510 Config_default path 1 bytes c]
    by (auto simp: parse_bytes_def apply_bytes_def bind_outcome_eq_Ok split: option.splits)
qed

lemma dump_ends: "Config_dump c = [] \<or> last (Config_dump c) = newline"
  by (cases "dump_items c" rule: rev_cases) (simp_all add: Config_dump_def item_line_def)

text \<open>
  C1. The text \<open>dump\<close> writes parses back to exactly the configuration it was written for (no option,
  calibration, binding or rule lost, reordered or rounded) if, and only if, the configuration is one
  that a file can say: it validates; the edges of the screen are between 0 and 32767; the values of a
  calibration are between -32768 and 32767 and it has one axis at least, of the known ones; no two rules
  have the same kind and the same match text; and the match text of a rule is UTF-8 without \<open>#\<close>, \<open>=\<close>
  or a newline, and its line is at most 510 bytes long.
\<close>

theorem dump_parse_roundtrip:
  "parse_bytes path (Config_dump c) = Ok c \<longleftrightarrow> config_ok c \<and> draft_ok 510 c"
  using dump_reads_back [of c path] parsed_draft [of path "Config_dump c" c] dump_ends [of c] by blast

text \<open>
  Saving what was loaded changes nothing: when a file whose last line ends with a newline
  parses, the dump of the result parses to the same configuration, under any path.
\<close>

theorem reparse_dump:
  assumes "parse_bytes path bytes = Ok c" and "bytes = [] \<or> last bytes = newline"
  shows "parse_bytes path' (Config_dump c) = Ok c"
  using parsed_draft [OF assms] dump_reads_back by blast

section \<open>Concrete files\<close>

definition sample_text :: bytes where
  "sample_text =
    ''pointer-speed=20 # fast'' @ [newline, newline] @ ''ir-screen-left = 7'' @ [newline] @
    ''device.usb.profile=both'' @ [newline]"

definition sample_config :: config where
  "sample_config = Config_default\<lparr>cfg_pointer_speed := 20,
     cfg_ir_screen := Some \<lparr>rect_left = 7, rect_right = 1023, rect_top = 0, rect_bottom = 767\<rparr>,
     cfg_device_rules := [\<lparr>rule_kind = Syspath, rule_match_text = ''usb'', rule_profile = BOTH\<rparr>]\<rparr>"

lemma parse_sample: "parse_bytes ''p'' sample_text = Ok sample_config"
  by code_simp

theorem parsed_config_valid_witness: "config_ok sample_config \<and> draft_ok 511 sample_config"
  using parsed_config_valid [OF parse_sample] .

text \<open>Two rules of one kind and text validate, but a file cannot say both.\<close>

definition doubled_config :: config where
  "doubled_config = Config_default\<lparr>cfg_device_rules :=
     [\<lparr>rule_kind = Syspath, rule_match_text = ''usb'', rule_profile = BOTH\<rparr>,
      \<lparr>rule_kind = Syspath, rule_match_text = ''usb'', rule_profile = GAMEPAD\<rparr>]\<rparr>"

theorem dump_parse_roundtrip_witness:
  "parse_bytes ''q'' (Config_dump Config_default) = Ok Config_default
    \<and> parse_bytes ''q'' (Config_dump doubled_config) \<noteq> Ok doubled_config"
proof
  have "config_ok Config_default" unfolding Config_validate_None [symmetric] by code_simp
  then show "parse_bytes ''q'' (Config_dump Config_default) = Ok Config_default"
    using draft_ok_default by (simp add: dump_parse_roundtrip)
  have "\<not> draft_ok 510 doubled_config" by (simp add: doubled_config_def draft_ok_def rules_ok_def rule_key_def)
  then show "parse_bytes ''q'' (Config_dump doubled_config) \<noteq> Ok doubled_config"
    by (simp add: dump_parse_roundtrip)
qed

theorem reparse_dump_witness: "parse_bytes ''q'' (Config_dump sample_config) = Ok sample_config"
  by (rule reparse_dump [OF parse_sample]) (simp add: sample_text_def)

lemma parse_panics: "parse_bytes path ''device.profile=gamepad'' = Panic"
  by code_simp

end
