(* ===== verification/Config_Load.thy ===== *)
theory Config_Load
  imports Config_Dump
begin

text \<open>
  The layers of \<open>crates/wiiland-core/src/config_io.rs\<close>. The file system and the environment
  are parameters: \<open>read\<close> is \<open>std::fs::read\<close> (the bytes of a file, or an I/O error) and \<open>env\<close>
  is \<open>std::env::var_os\<close>.
\<close>

type_synonym file_system = "string \<Rightarrow> io_error + bytes"

definition SYSTEM_CONFIG_PATH :: string where
  "SYSTEM_CONFIG_PATH = ''/etc/wiiland/wiilandd.conf''"

definition read_layer ::
  "file_system \<Rightarrow> config \<Rightarrow> string \<Rightarrow> bool \<Rightarrow> (config, config_error) outcome" where
  "read_layer read c path required =
    (case read path of
       Inr bytes \<Rightarrow> apply_bytes c path bytes
     | Inl e \<Rightarrow> if \<not> required \<and> io_not_found e then Ok c else Err (ConfigError_io path e))"

definition validated :: "config \<Rightarrow> (config, config_error) outcome" where
  "validated c = (case Config_validate c of Some e \<Rightarrow> Err e | None \<Rightarrow> Ok c)"

definition load_file :: "file_system \<Rightarrow> string \<Rightarrow> (config, config_error) outcome" where
  "load_file read path = bind_outcome (read_layer read Config_default path True) validated"

text \<open>An optional layer that is named but missing leaves the configuration unchanged.\<close>

definition optional_layer ::
  "file_system \<Rightarrow> config \<Rightarrow> string option \<Rightarrow> (config, config_error) outcome" where
  "optional_layer read c path =
    (case path of None \<Rightarrow> Ok c | Some p \<Rightarrow> read_layer read c p False)"

definition load_layers ::
  "file_system \<Rightarrow> string option \<Rightarrow> string option \<Rightarrow> string option \<Rightarrow>
    (config, config_error) outcome" where
  "load_layers read system user explicit =
    bind_outcome
      (case explicit of
         Some p \<Rightarrow> read_layer read Config_default p True
       | None \<Rightarrow> bind_outcome (optional_layer read Config_default system)
                  (\<lambda>c. optional_layer read c user))
      validated"

text \<open>\<open>Path::is_absolute\<close> and \<open>PathBuf::push\<close> of a relative component, on Unix.\<close>

definition is_absolute :: "string \<Rightarrow> bool" where
  "is_absolute p \<longleftrightarrow> starts_with p ''/''"

definition path_push :: "string \<Rightarrow> string \<Rightarrow> string" where
  "path_push p s = (if p = [] \<or> last p = CHR ''/'' then p @ s else p @ ''/'' @ s)"

definition absolute_var :: "(string \<Rightarrow> string option) \<Rightarrow> string \<Rightarrow> string option" where
  "absolute_var env name =
    (case env name of None \<Rightarrow> None | Some v \<Rightarrow> if is_absolute v then Some v else None)"

definition user_config_path :: "(string \<Rightarrow> string option) \<Rightarrow> string option" where
  "user_config_path env =
    (let base = (case absolute_var env ''XDG_CONFIG_HOME'' of
                   Some v \<Rightarrow> Some v
                 | None \<Rightarrow> map_option (\<lambda>v. path_push v ''.config'') (absolute_var env ''HOME''))
     in map_option (\<lambda>b. path_push (path_push b ''wiiland'') ''wiilandd.conf'') base)"

definition load_default_layers ::
  "file_system \<Rightarrow> (string \<Rightarrow> string option) \<Rightarrow> (config, config_error) outcome" where
  "load_default_layers read env =
    load_layers read (Some SYSTEM_CONFIG_PATH) (user_config_path env) None"


section \<open>A successful parse does not depend on the reported position\<close>

lemma setter_Ok_position:
  "set_parsed p l k v store = Ok c' \<longleftrightarrow> set_parsed p' l' k v store = Ok c'"
  "set_screen c p l k w axis = Ok c' \<longleftrightarrow> set_screen c p' l' k w axis = Ok c'"
  "set_bool c p l k w x = Ok c' \<longleftrightarrow> set_bool c p' l' k w x = Ok c'"
  "set_cal c p l k w accel axis = Ok c' \<longleftrightarrow> set_cal c p' l' k w accel axis = Ok c'"
  "set_desktop c p l k w = Ok c' \<longleftrightarrow> set_desktop c p' l' k w = Ok c'"
  "set_rule c p l k w kind = Ok c' \<longleftrightarrow> set_rule c p' l' k w kind = Ok c'"
  by (auto simp: set_parsed_Ok set_screen_def set_bool_def set_cal_def set_desktop_def set_rule_def
      bind_outcome_eq_Ok ok_or_eq_Ok Let_def split: option.splits if_splits)

lemma set_key_Ok_position: "set_key c p l k w = Ok c' \<longleftrightarrow> set_key c p' l' k w = Ok c'"
  unfolding set_key_def if_distrib [of "\<lambda>r. r = Ok c'"]
  by (simp only: outcome.simps
      setter_Ok_position [where p = p and l = l and p' = p' and l' = l'])

lemma apply_raw_Ok_position: "apply_raw c p no raw = Ok c' \<longleftrightarrow> apply_raw c p' no' raw = Ok c'"
proof -
  have "apply_line c p no raw = Ok c' \<longleftrightarrow> apply_line c p' no' raw = Ok c'"
    using set_key_Ok_position [of c p no _ _ c' p' no']
    by (auto simp: apply_line_def Let_def split: option.splits)
  then show ?thesis by (simp add: apply_raw_def)
qed

lemma apply_lines_Ok_position:
  "apply_lines c p no bs = Ok c' \<longleftrightarrow> apply_lines c p' no' bs = Ok c'"
proof (induction bs arbitrary: c no no' rule: lines_induct)
  case (last bs)
  then show ?case
    using apply_raw_Ok_position [of c p no bs c' p' no'] by (simp add: apply_lines_last)
next
  case (line s rest)
  have "apply_raw c p no raw = Ok c1 \<longleftrightarrow> apply_raw c p' no' raw = Ok c1" for raw c1
    by (rule apply_raw_Ok_position)
  then show ?case
    using line(2) [of _ "no + 1" "no' + 1"]
    by (simp add: apply_lines_line [OF line(1)] bind_outcome_eq_Ok)
qed

text \<open>Applying one text after another is applying their concatenation.\<close>

lemma apply_lines_concat:
  "a = [] \<or> last a = newline \<Longrightarrow>
   (\<exists>c1. apply_lines c p no a = Ok c1 \<and> apply_lines c1 p no b = Ok c') \<longleftrightarrow>
     apply_lines c p no (a @ b) = Ok c'"
proof (induction a arbitrary: c no rule: lines_induct)
  case (last a)
  then have "a = []" using last_in_set by metis
  then show ?case by (simp add: apply_lines_last)
next
  case (line s rest)
  have rest: "rest = [] \<or> last rest = newline" using line(3) by (cases "rest = []") auto
  have ab: "apply_lines c p no ((s @ newline # rest) @ b) =
      bind_outcome (apply_raw c p no (s @ [newline])) (\<lambda>c1. apply_lines c1 p (no + 1) (rest @ b))"
    using apply_lines_line [OF line(1), of c p no "rest @ b"] by simp
  have pos: "apply_lines c2 p no b = Ok c' \<longleftrightarrow> apply_lines c2 p (no + 1) b = Ok c'" for c2
    by (rule apply_lines_Ok_position)
  show ?case
    unfolding ab apply_lines_line [OF line(1)] bind_outcome_eq_Ok line(2) [OF rest, symmetric] pos
    by blast
qed

text \<open>
  C26. How the layers combine. When both default files exist and the system file ends with a
  newline, \<open>load_layers\<close> succeeds with a configuration exactly when parsing the two files as
  one text does: the user's lines are applied on top of the system's, and only the combined
  result is validated.
\<close>

theorem layers_are_concatenation:
  assumes "read sys = Inr a" and "read usr = Inr b" and "a = [] \<or> last a = newline"
  shows "load_layers read (Some sys) (Some usr) None = Ok c \<longleftrightarrow> parse_bytes path (a @ b) = Ok c"
proof -
  have "(\<exists>c1. apply_lines Config_default sys 1 a = Ok c1 \<and> apply_lines c1 usr 1 b = Ok c2) \<longleftrightarrow>
      (\<exists>c1. apply_lines Config_default path 1 a = Ok c1 \<and> apply_lines c1 path 1 b = Ok c2)" for c2
    using apply_lines_Ok_position by blast
  then have "(\<exists>c1. apply_lines Config_default sys 1 a = Ok c1 \<and> apply_lines c1 usr 1 b = Ok c2) \<longleftrightarrow>
      apply_lines Config_default path 1 (a @ b) = Ok c2" for c2
    using apply_lines_concat [OF assms(3)] by simp
  then show ?thesis
    using assms(1,2)
    by (simp add: load_layers_def optional_layer_def read_layer_def apply_bytes_def parse_bytes_def
        bind_outcome_eq_Ok validated_def)
qed

theorem layers_are_concatenation_witness:
  "load_layers (\<lambda>p. if p = ''s'' then Inr sample_text else Inr ''ir-speed=9'') (Some ''s'') (Some ''u'') None =
     Ok (sample_config\<lparr>cfg_ir_speed := 9\<rparr>)"
proof -
  let ?read = "\<lambda>p. if p = ''s'' then Inr sample_text else Inr ''ir-speed=9'' :: io_error + bytes"
  have "parse_bytes ''p'' (sample_text @ ''ir-speed=9'') = Ok (sample_config\<lparr>cfg_ir_speed := 9\<rparr>)"
    by code_simp
  then show ?thesis
    by (subst layers_are_concatenation [of ?read "''s''" sample_text "''u''" "''ir-speed=9''" _ "''p''"])
      (simp_all add: sample_text_def)
qed

text \<open>
  Which files decide. An explicit path is the only file consulted, and it must be
  readable; without one, a default file that does not exist counts as empty, while any other
  I/O error of it stops the load.
\<close>

theorem load_layers_sources:
  "load_layers read system user (Some p) = load_file read p \<and>
   (read p = Inl e \<longrightarrow> load_file read p = Err (ConfigError_io p e)) \<and>
   (read sys = Inl e \<and> \<not> io_not_found e \<longrightarrow>
     load_layers read (Some sys) user None = Err (ConfigError_io sys e)) \<and>
   (read sys = Inl e \<and> io_not_found e \<longrightarrow>
     load_layers read (Some sys) user None = load_layers read None user None)"
  by (simp add: load_layers_def load_file_def read_layer_def optional_layer_def)

theorem load_layers_sources_witness:
  "load_layers (\<lambda>p. Inl \<lparr>io_not_found = False, io_text = ''denied''\<rparr>) (Some ''s'') (Some ''u'') None =
     Err (ConfigError_io ''s'' \<lparr>io_not_found = False, io_text = ''denied''\<rparr>)"
  using load_layers_sources [of "\<lambda>p. Inl \<lparr>io_not_found = False, io_text = ''denied''\<rparr>" None "Some ''u''" "''e''"
      "\<lparr>io_not_found = False, io_text = ''denied''\<rparr>" "''s''"]
  by simp

section \<open>Device rules\<close>

lemma profile_fold:
  "foldl (\<lambda>selected r. if m r then rule_profile r else selected) p rs =
    (case filter m (rev rs) of [] \<Rightarrow> p | r # _ \<Rightarrow> rule_profile r)"
  by (induction rs rule: rev_induct) simp_all

text \<open>The last matching rule decides, and without one the global profile.\<close>

lemma profile_for_device_last:
  "profile_for_device c syspath devtype =
    (case filter (\<lambda>r. rule_matches r syspath devtype) (rev (cfg_device_rules c)) of
       [] \<Rightarrow> cfg_profile c | r # _ \<Rightarrow> rule_profile r)"
  by (simp add: profile_for_device_def profile_fold)

text \<open>
  The newest rule line decides. After a rule line has been accepted, every device its
  match text applies to gets the profile of that line, whatever rules came before it and
  whether or not the line overwrote an earlier one; the global profile is untouched.
\<close>

theorem newest_rule_decides:
  assumes "set_key c path line (DeviceRuleKind_prefix kind @ ''.'' @ m @ ''.profile'') v = Ok c'"
    and "rule_matches \<lparr>rule_kind = kind, rule_match_text = m, rule_profile = q\<rparr> syspath devtype"
  shows "Profile_parse v = Some (profile_for_device c' syspath devtype) \<and> cfg_profile c' = cfg_profile c"
proof -
  let ?key = "DeviceRuleKind_prefix kind @ ''.'' @ m @ ''.profile''"
  have s: "set_rule c path line ?key v kind = Ok c'"
    using assms(1) by (simp only: set_key_rule)
  obtain middle p where p: "Profile_parse v = Some p"
    and sl: "slice_str ?key (length (DeviceRuleKind_prefix kind) + 1) (length ?key - 8) = Some middle"
    and upd: "(\<exists>i < length (cfg_device_rules c). rule_key (cfg_device_rules c ! i) = (kind, middle) \<and>
           c' = c\<lparr>cfg_device_rules := take i (cfg_device_rules c) @ drop (Suc i) (cfg_device_rules c) @
                  [(cfg_device_rules c ! i)\<lparr>rule_profile := p\<rparr>]\<rparr>)
       \<or> (kind, middle) \<notin> rule_key ` set (cfg_device_rules c) \<and>
         length (cfg_device_rules c) < MAX_DEVICE_RULES \<and>
         c' = c\<lparr>cfg_device_rules := cfg_device_rules c @
                  [\<lparr>rule_kind = kind, rule_match_text = middle, rule_profile = p\<rparr>]\<rparr>"
    using set_rule_Ok [OF s] by metis
  have "middle = m" using sl unfolding slice_of_middle by simp
  have "\<exists>rs r. cfg_device_rules c' = rs @ [r] \<and> rule_key r = (kind, m) \<and> rule_profile r = p \<and>
      cfg_profile c' = cfg_profile c"
    using upd
  proof (elim disjE exE conjE)
    fix i assume "rule_key (cfg_device_rules c ! i) = (kind, middle)"
      "c' = c\<lparr>cfg_device_rules := take i (cfg_device_rules c) @ drop (Suc i) (cfg_device_rules c) @
                  [(cfg_device_rules c ! i)\<lparr>rule_profile := p\<rparr>]\<rparr>"
    then show ?thesis using \<open>middle = m\<close>
      by (intro exI [of _ "take i (cfg_device_rules c) @ drop (Suc i) (cfg_device_rules c)"]
          exI [of _ "(cfg_device_rules c ! i)\<lparr>rule_profile := p\<rparr>"]) (simp add: rule_key_def)
  qed (use \<open>middle = m\<close> in \<open>simp add: rule_key_def\<close>)
  then obtain rs r where r: "cfg_device_rules c' = rs @ [r]" "rule_key r = (kind, m)"
      "rule_profile r = p" and keep: "cfg_profile c' = cfg_profile c"
    by blast
  have "rule_matches r syspath devtype"
    using assms(2) r(2) by (cases kind) (auto simp: rule_matches_def rule_key_def split: option.splits)
  then show ?thesis using r p keep by (simp add: profile_for_device_last)
qed

theorem newest_rule_decides_witness:
  "Profile_parse ''desktop'' = Some (profile_for_device
     (sample_config\<lparr>cfg_device_rules := [\<lparr>rule_kind = Syspath, rule_match_text = ''usb'', rule_profile = DESKTOP\<rparr>]\<rparr>)
     (Some ''/sys/usb1'') None) \<and> cfg_profile sample_config = GAMEPAD"
proof -
  let ?c = "sample_config\<lparr>cfg_device_rules := [\<lparr>rule_kind = Syspath, rule_match_text = ''usb'', rule_profile = DESKTOP\<rparr>]\<rparr>"
  have "set_key sample_config ''p'' 1 (DeviceRuleKind_prefix Syspath @ ''.'' @ ''usb'' @ ''.profile'') ''desktop'' = Ok ?c"
    by code_simp
  moreover have "rule_matches \<lparr>rule_kind = Syspath, rule_match_text = ''usb'', rule_profile = 0\<rparr> (Some ''/sys/usb1'') None"
    by code_simp
  ultimately have "Profile_parse ''desktop'' = Some (profile_for_device ?c (Some ''/sys/usb1'') None) \<and>
      cfg_profile ?c = cfg_profile sample_config"
    by (rule newest_rule_decides)
  then show ?thesis by (simp add: sample_config_def Config_default_def)
qed

end
