(* ===== verification/Pointer.thy ===== *)
theory Pointer
  imports Config_Types
begin

text \<open>
  The integer pointer of \<open>crates/wiiland-core/src/pointer.rs\<close>: the D-pad velocity, the
  selection of one infrared point from a frame, and the relative infrared tracker with its
  smoothing, scaling and dead zone. A frame is the list of its four points.
\<close>

section \<open>State\<close>

definition POINTER_LEFT :: u8 where "POINTER_LEFT = 1"
definition POINTER_RIGHT :: u8 where "POINTER_RIGHT = 2"
definition POINTER_UP :: u8 where "POINTER_UP = 4"
definition POINTER_DOWN :: u8 where "POINTER_DOWN = 8"

record ir_point =
  pt_valid :: bool
  pt_x :: int
  pt_y :: int

type_synonym ir_frame = "ir_point list"

record pointer_delta =
  delta_dx :: int
  delta_dy :: int

definition PointerDelta_default :: pointer_delta where
  "PointerDelta_default = \<lparr>delta_dx = 0, delta_dy = 0\<rparr>"

record pointer_state =
  ptr_keys :: u8
  ptr_speed :: int
  ptr_dx :: int
  ptr_dy :: int
  ptr_ir_active :: bool
  ptr_ir_x :: int
  ptr_ir_y :: int
  ptr_ir_speed :: int
  ptr_ir_deadzone :: int
  ptr_ir_smoothing :: int
  ptr_tracking :: ir_tracking

definition PointerState_new :: "int \<Rightarrow> int \<Rightarrow> int \<Rightarrow> int \<Rightarrow> ir_tracking \<Rightarrow> pointer_state" where
  "PointerState_new speed ir_speed ir_deadzone ir_smoothing tracking =
    \<lparr>ptr_keys = 0, ptr_speed = speed, ptr_dx = 0, ptr_dy = 0, ptr_ir_active = False,
     ptr_ir_x = 0, ptr_ir_y = 0, ptr_ir_speed = ir_speed, ptr_ir_deadzone = ir_deadzone,
     ptr_ir_smoothing = ir_smoothing, ptr_tracking = tracking\<rparr>"


section \<open>D-pad velocity\<close>

definition refresh_velocity :: "pointer_state \<Rightarrow> pointer_state" where
  "refresh_velocity s =
    (let s = s\<lparr>ptr_dx := 0, ptr_dy := 0\<rparr>;
         s = (if mask_has (ptr_keys s) POINTER_LEFT
              then s\<lparr>ptr_dx := as_i32 (ptr_dx s - ptr_speed s)\<rparr> else s);
         s = (if mask_has (ptr_keys s) POINTER_RIGHT
              then s\<lparr>ptr_dx := as_i32 (ptr_dx s + ptr_speed s)\<rparr> else s);
         s = (if mask_has (ptr_keys s) POINTER_UP
              then s\<lparr>ptr_dy := as_i32 (ptr_dy s - ptr_speed s)\<rparr> else s)
     in if mask_has (ptr_keys s) POINTER_DOWN
        then s\<lparr>ptr_dy := as_i32 (ptr_dy s + ptr_speed s)\<rparr> else s)"

definition velocity :: "pointer_state \<Rightarrow> pointer_delta" where
  "velocity s = \<lparr>delta_dx = ptr_dx s, delta_dy = ptr_dy s\<rparr>"

definition set_speed :: "pointer_state \<Rightarrow> int \<Rightarrow> pointer_state" where
  "set_speed s speed = refresh_velocity (s\<lparr>ptr_speed := speed\<rparr>)"

definition set_ir_options ::
  "pointer_state \<Rightarrow> int \<Rightarrow> int \<Rightarrow> int \<Rightarrow> ir_tracking \<Rightarrow> pointer_state" where
  "set_ir_options s speed deadzone smoothing tracking =
    s\<lparr>ptr_ir_speed := speed, ptr_ir_deadzone := deadzone, ptr_ir_smoothing := smoothing,
      ptr_tracking := tracking\<rparr>"

definition update_key :: "pointer_state \<Rightarrow> u8 \<Rightarrow> bool \<Rightarrow> pointer_state \<times> pointer_delta" where
  "update_key s b pressed =
    (let s' = refresh_velocity
           (if pressed then s\<lparr>ptr_keys := ptr_keys s OR b\<rparr>
            else s\<lparr>ptr_keys := ptr_keys s AND NOT b\<rparr>)
     in (s', velocity s'))"

definition pointer_tick :: "pointer_state \<Rightarrow> pointer_delta" where
  "pointer_tick s = velocity s"

definition reset_ir :: "pointer_state \<Rightarrow> pointer_state" where
  "reset_ir s = s\<lparr>ptr_ir_active := False, ptr_ir_x := 0, ptr_ir_y := 0\<rparr>"

definition pointer_reset :: "pointer_state \<Rightarrow> pointer_state" where
  "pointer_reset s = reset_ir (s\<lparr>ptr_keys := 0, ptr_dx := 0, ptr_dy := 0\<rparr>)"


section \<open>Infrared tracking\<close>

definition scaled_delta :: "int \<Rightarrow> int \<Rightarrow> int \<Rightarrow> int" where
  "scaled_delta from to speed = as_i32 (as_i64 (as_i32 (to - from) * speed) sdiv 64)"

definition apply_deadzone :: "int \<Rightarrow> int \<Rightarrow> int" where
  "apply_deadzone delta deadzone =
    (if deadzone \<noteq> 0 \<and> as_i32 \<bar>delta\<bar> < deadzone then 0 else delta)"

definition smooth_axis :: "int \<Rightarrow> int \<Rightarrow> int \<Rightarrow> int" where
  "smooth_axis previous current smoothing =
    (if smoothing = 0 then current
     else as_i32 (as_i64 (as_i64 (previous * smoothing) + as_i64 (current * as_i32 (100 - smoothing))))
          sdiv 100)"

text \<open>The pairs \<open>(i, j)\<close>, \<open>i < j < count\<close>, in the order of the two loops.\<close>

definition point_pairs :: "nat \<Rightarrow> (nat \<times> nat) list" where
  "point_pairs count = concat (map (\<lambda>i. map (\<lambda>j. (i, j)) [i + 1..<count]) [0..<count])"

definition point_distance :: "ir_point \<Rightarrow> ir_point \<Rightarrow> int" where
  "point_distance p q =
    (let dx = pt_x p - pt_x q; dy = pt_y p - pt_y q
     in as_i64 (as_i64 (dx * dx) + as_i64 (dy * dy)))"

definition widest_step :: "ir_point list \<Rightarrow> nat \<times> nat \<times> int \<Rightarrow> nat \<times> nat \<Rightarrow> nat \<times> nat \<times> int" where
  "widest_step points acc ij =
    (case acc of (a, b, best) \<Rightarrow> case ij of (i, j) \<Rightarrow>
       let distance = point_distance (points ! i) (points ! j)
       in if distance > best then (i, j, distance) else (a, b, best))"

definition select_ir_point :: "ir_frame \<Rightarrow> ir_tracking \<Rightarrow> ir_point option" where
  "select_ir_point frame tracking =
    (let points = filter pt_valid frame; count = length points
     in if count = 0 then None
        else case tracking of
          TrackFirst \<Rightarrow> Some (points ! 0)
        | TrackCentroid \<Rightarrow>
            let x = foldl (\<lambda>s p. as_i64 (s + pt_x p)) 0 points;
                y = foldl (\<lambda>s p. as_i64 (s + pt_y p)) 0 points
            in Some \<lparr>pt_valid = True, pt_x = as_i32 (x sdiv int count),
                     pt_y = as_i32 (y sdiv int count)\<rparr>
        | TrackDual \<Rightarrow>
            if count = 1 then Some (points ! 0)
            else case foldl (widest_step points) (0, 1, -1) (point_pairs count) of
              (a, b, _) \<Rightarrow>
                Some \<lparr>pt_valid = True,
                      pt_x = as_i32 (pt_x (points ! a) + pt_x (points ! b)) sdiv 2,
                      pt_y = as_i32 (pt_y (points ! a) + pt_y (points ! b)) sdiv 2\<rparr>)"

definition select_ir :: "pointer_state \<Rightarrow> ir_frame \<Rightarrow> ir_point option" where
  "select_ir s frame = select_ir_point frame (ptr_tracking s)"

definition update_ir :: "pointer_state \<Rightarrow> ir_point option \<Rightarrow> pointer_state \<times> pointer_delta" where
  "update_ir s point =
    (case (case point of None \<Rightarrow> None | Some p \<Rightarrow> if pt_valid p then Some p else None) of
       None \<Rightarrow> (reset_ir s, PointerDelta_default)
     | Some p \<Rightarrow>
         if ptr_ir_active s then
           let x = smooth_axis (ptr_ir_x s) (pt_x p) (ptr_ir_smoothing s);
               y = smooth_axis (ptr_ir_y s) (pt_y p) (ptr_ir_smoothing s);
               out = \<lparr>delta_dx = apply_deadzone (scaled_delta (ptr_ir_x s) x (ptr_ir_speed s)) (ptr_ir_deadzone s),
                      delta_dy = apply_deadzone (scaled_delta (ptr_ir_y s) y (ptr_ir_speed s)) (ptr_ir_deadzone s)\<rparr>
           in (s\<lparr>ptr_ir_x := x, ptr_ir_y := y, ptr_ir_active := True\<rparr>, out)
         else (s\<lparr>ptr_ir_x := pt_x p, ptr_ir_y := pt_y p, ptr_ir_active := True\<rparr>, PointerDelta_default))"

definition update_ir_frame :: "pointer_state \<Rightarrow> ir_frame \<Rightarrow> pointer_state \<times> pointer_delta" where
  "update_ir_frame s frame = update_ir s (select_ir s frame)"


section \<open>Velocity lemmas\<close>

text \<open>The four directions as a bit set.\<close>

datatype direction = DirLeft | DirRight | DirUp | DirDown

fun direction_bit :: "direction \<Rightarrow> u8" where
  "direction_bit DirLeft = POINTER_LEFT"
| "direction_bit DirRight = POINTER_RIGHT"
| "direction_bit DirUp = POINTER_UP"
| "direction_bit DirDown = POINTER_DOWN"

fun direction_index :: "direction \<Rightarrow> nat" where
  "direction_index DirLeft = 0"
| "direction_index DirRight = 1"
| "direction_index DirUp = 2"
| "direction_index DirDown = 3"

lemma direction_index_surj: "n < 4 \<Longrightarrow> \<exists>d. direction_index d = n"
proof -
  assume "n < 4"
  then consider "n = 0" | "n = 1" | "n = 2" | "n = 3" by linarith
  then show ?thesis by cases (metis direction_index.simps)+
qed

interpretation directions: bit_set direction_bit direction_index
proof
  fix x y :: direction
  show "direction_bit x = push_bit (direction_index x) 1"
    by (cases x) (simp_all add: POINTER_LEFT_def POINTER_RIGHT_def POINTER_UP_def POINTER_DOWN_def)
  show "direction_index x < LENGTH(8)" by (cases x) simp_all
  show "direction_index x = direction_index y \<Longrightarrow> x = y" by (cases x; cases y) simp_all
qed

text \<open>The speeds the configuration allows; nothing wraps for them.\<close>

definition axis_speed :: "int \<Rightarrow> bool \<Rightarrow> bool \<Rightarrow> int" where
  "axis_speed speed neg pos = (if pos then speed else 0) - (if neg then speed else 0)"

definition pressed :: "pointer_state \<Rightarrow> direction \<Rightarrow> bool" where
  "pressed s d \<longleftrightarrow> mask_has (ptr_keys s) (direction_bit d)"

text \<open>The invariant of the pointer: its velocity is the one its pressed keys call for.\<close>

definition velocity_inv :: "pointer_state \<Rightarrow> bool" where
  "velocity_inv s \<longleftrightarrow>
    ptr_dx s = axis_speed (ptr_speed s) (pressed s DirLeft) (pressed s DirRight) \<and>
    ptr_dy s = axis_speed (ptr_speed s) (pressed s DirUp) (pressed s DirDown)"

lemma refresh_velocity_fields [simp]:
  "ptr_keys (refresh_velocity s) = ptr_keys s"
  "ptr_speed (refresh_velocity s) = ptr_speed s"
  "ptr_ir_active (refresh_velocity s) = ptr_ir_active s"
  "ptr_ir_x (refresh_velocity s) = ptr_ir_x s"
  "ptr_ir_y (refresh_velocity s) = ptr_ir_y s"
  "ptr_ir_speed (refresh_velocity s) = ptr_ir_speed s"
  "ptr_ir_deadzone (refresh_velocity s) = ptr_ir_deadzone s"
  "ptr_ir_smoothing (refresh_velocity s) = ptr_ir_smoothing s"
  "ptr_tracking (refresh_velocity s) = ptr_tracking s"
  by (simp_all add: refresh_velocity_def Let_def)

lemma refresh_velocity_inv:
  assumes "between 0 127 (ptr_speed s)"
  shows "velocity_inv (refresh_velocity s)"
proof -
  have r: "as_i32 (- ptr_speed s) = - ptr_speed s" "as_i32 (ptr_speed s) = ptr_speed s"
    using assms by (auto simp: between_def in_i32_def intro!: as_i32_id)
  then show ?thesis
    unfolding velocity_inv_def pressed_def refresh_velocity_fields
    by (simp add: refresh_velocity_def Let_def axis_speed_def)
qed

lemma pressed_update_key:
  "pressed (fst (update_key s (direction_bit d) p)) e \<longleftrightarrow> (if e = d then p else pressed s e)"
  by (auto simp: update_key_def Let_def pressed_def directions.has_insert directions.has_remove)

lemma update_key_fields:
  "ptr_keys (fst (update_key s b p)) = (if p then ptr_keys s OR b else ptr_keys s AND NOT b)"
  "ptr_speed (fst (update_key s b p)) = ptr_speed s"
  "ptr_ir_active (fst (update_key s b p)) = ptr_ir_active s"
  "ptr_ir_x (fst (update_key s b p)) = ptr_ir_x s"
  "ptr_ir_y (fst (update_key s b p)) = ptr_ir_y s"
  "ptr_ir_speed (fst (update_key s b p)) = ptr_ir_speed s"
  "ptr_ir_deadzone (fst (update_key s b p)) = ptr_ir_deadzone s"
  "ptr_ir_smoothing (fst (update_key s b p)) = ptr_ir_smoothing s"
  "ptr_tracking (fst (update_key s b p)) = ptr_tracking s"
  by (simp_all add: update_key_def Let_def)

lemma update_key_inv: "between 1 127 (ptr_speed s) \<Longrightarrow> velocity_inv (fst (update_key s b p))"
  unfolding update_key_def Let_def fst_conv
  by (rule refresh_velocity_inv) (simp add: between_def)

text \<open>
  D-pad movement. A direction key changes exactly its own direction, and the velocity
  reported and kept is the one the pressed directions call for: opposite directions cancel,
  a direction alone moves by the configured speed, and with no key there is no movement.
\<close>

theorem update_key_velocity:
  assumes "between 1 127 (ptr_speed s)"
  shows "update_key s (direction_bit d) p = (s', v) \<Longrightarrow>
    velocity_inv s' \<and> v = velocity s' \<and>
    (\<forall>e. pressed s' e \<longleftrightarrow> (if e = d then p else pressed s e)) \<and>
    delta_dx v = axis_speed (ptr_speed s) (pressed s' DirLeft) (pressed s' DirRight) \<and>
    delta_dy v = axis_speed (ptr_speed s) (pressed s' DirUp) (pressed s' DirDown)"
proof -
  assume u: "update_key s (direction_bit d) p = (s', v)"
  have s': "s' = refresh_velocity (if p then s\<lparr>ptr_keys := ptr_keys s OR direction_bit d\<rparr>
      else s\<lparr>ptr_keys := ptr_keys s AND NOT (direction_bit d)\<rparr>)" and v: "v = velocity s'"
    using u by (auto simp: update_key_def Let_def)
  have sp: "ptr_speed s' = ptr_speed s" by (simp add: s')
  have inv: "velocity_inv s'"
    unfolding s' by (rule refresh_velocity_inv) (use assms in \<open>simp add: between_def\<close>)
  moreover have "pressed s' e \<longleftrightarrow> (if e = d then p else pressed s e)" for e
    using pressed_update_key [of s d p e] u by simp
  ultimately show ?thesis using sp v by (simp add: velocity_inv_def velocity_def)
qed

theorem update_key_velocity_witness:
  "let (s, v) = update_key (PointerState_new 16 8 0 0 TrackDual) POINTER_LEFT True
   in velocity_inv s \<and> delta_dx v = - 16"
proof -
  let ?s = "PointerState_new 16 8 0 0 TrackDual"
  obtain s v where u: "update_key ?s (direction_bit DirLeft) True = (s, v)" by force
  have k: "\<not> pressed ?s DirRight" "ptr_speed ?s = 16"
    by (simp_all add: PointerState_new_def pressed_def)
  show ?thesis
    using update_key_velocity [OF _ u] u k by (auto simp: axis_speed_def between_def)
qed

section \<open>Infrared lemmas\<close>

text \<open>
  Coordinates far beyond what the camera reports (\<open>0\<close> to \<open>1023\<close>), for which no intermediate
  value of the tracker leaves its type.
\<close>

definition ir_coord :: "int \<Rightarrow> bool" where
  "ir_coord x \<longleftrightarrow> \<bar>x\<bar> \<le> 1000000"

lemma smooth_axis_between:
  assumes "ir_coord p" "ir_coord c" "between 0 95 s"
  shows "min p c \<le> smooth_axis p c s \<and> smooth_axis p c s \<le> max p c"
proof (cases "s = 0")
  case True
  then show ?thesis by (simp add: smooth_axis_def)
next
  case False
  define t where "t = 100 - s"
  have s: "0 \<le> s" "0 \<le> t" "s + t = 100" "t \<le> 100" "s \<le> 95" using assms(3) by (auto simp: t_def between_def)
  have bound: "\<bar>x * w\<bar> \<le> 100000000" if "ir_coord x" "0 \<le> w" "w \<le> 100" for x w
  proof -
    have "\<bar>x * w\<bar> = \<bar>x\<bar> * w" using that by (simp add: abs_mult)
    also have "\<dots> \<le> 1000000 * 100" using that by (intro mult_mono) (auto simp: ir_coord_def)
    finally show ?thesis by simp
  qed
  have b: "\<bar>p * s\<bar> \<le> 100000000" "\<bar>c * t\<bar> \<le> 100000000"
    using bound [of p s] bound [of c t] assms s by auto
  have "as_i32 (100 - s) = t" using s by (simp add: t_def as_i32_id in_i32_def)
  moreover have "as_i64 (p * s) = p * s" "as_i64 (c * t) = c * t"
    "as_i64 (p * s + c * t) = p * s + c * t" "as_i32 (p * s + c * t) = p * s + c * t"
    using b by (auto intro!: as_i64_id as_i32_id in_i64_abs in_i32_abs)
  ultimately have eq: "smooth_axis p c s = (p * s + c * t) sdiv 100"
    using False by (simp add: smooth_axis_def)
  have "min p c * s \<le> p * s" "min p c * t \<le> c * t" "p * s \<le> max p c * s" "c * t \<le> max p c * t"
    using s by (simp_all add: mult_right_mono)
  moreover have "min p c * s + min p c * t = min p c * 100" "max p c * s + max p c * t = max p c * 100"
    using s(3) by (metis distrib_left)+
  ultimately show ?thesis
    unfolding eq by (intro sdiv_between) linarith+
qed

lemma smooth_axis_coord:
  "ir_coord p \<Longrightarrow> ir_coord c \<Longrightarrow> between 0 95 s \<Longrightarrow> ir_coord (smooth_axis p c s)"
  using smooth_axis_between [of p c s] by (auto simp: ir_coord_def min_def max_def split: if_splits)

lemma scaled_delta_eq:
  assumes "ir_coord a" "ir_coord b" "between 1 127 speed"
  shows "scaled_delta a b speed = ((b - a) * speed) sdiv 64"
proof -
  have d: "\<bar>b - a\<bar> \<le> 2000000" using assms by (auto simp: ir_coord_def)
  have m: "\<bar>(b - a) * speed\<bar> \<le> 2000000 * 127"
    unfolding abs_mult using d assms(3) by (intro mult_mono) (auto simp: between_def)
  have "\<bar>((b - a) * speed) sdiv 64\<bar> \<le> \<bar>(b - a) * speed\<bar>" by (rule sdiv_abs_le) simp
  then show ?thesis
    using d m unfolding scaled_delta_def
    by (simp add: as_i32_id as_i64_id in_i32_abs in_i64_abs)
qed

text \<open>A scaled delta points the way the tracker moved and is at most twice as far.\<close>

lemma scaled_delta_sign:
  assumes "ir_coord a" "ir_coord b" "between 1 127 speed"
  shows "(a \<le> b \<longrightarrow> 0 \<le> scaled_delta a b speed \<and> scaled_delta a b speed \<le> 2 * (b - a)) \<and>
    (b \<le> a \<longrightarrow> scaled_delta a b speed \<le> 0 \<and> 2 * (b - a) \<le> scaled_delta a b speed)"
proof -
  have pos: "0 \<le> (d * speed) sdiv 64 \<and> (d * speed) sdiv 64 \<le> 2 * d" if "0 \<le> d" for d
  proof (rule sdiv_between)
    show "0 * 64 \<le> d * speed" using that assms(3) by (simp add: between_def)
    have "d * speed \<le> d * 128" using that assms(3) by (intro mult_left_mono) (auto simp: between_def)
    then show "d * speed \<le> 2 * d * 64" by simp
  qed simp
  have neg: "((- d) * speed) sdiv 64 = - ((d * speed) sdiv 64)" for d
    using sdiv_minus [of "d * speed" 64] by simp
  show ?thesis
    unfolding scaled_delta_eq [OF assms]
    using pos [of "b - a"] pos [of "a - b"] neg [of "a - b"] by auto
qed

lemma apply_deadzone_cases:
  "in_i32 d \<Longrightarrow> d \<noteq> - 2147483648 \<Longrightarrow> 0 \<le> dz \<Longrightarrow>
   apply_deadzone d dz = (if \<bar>d\<bar> < dz then 0 else d)"
proof -
  assume "in_i32 d" "d \<noteq> - 2147483648" "0 \<le> dz"
  moreover from this have "as_i32 \<bar>d\<bar> = \<bar>d\<bar>" by (intro as_i32_id) (auto simp: in_i32_def)
  ultimately show ?thesis by (auto simp: apply_deadzone_def)
qed

text \<open>The options of a validated configuration, and a tracker within the coordinate bound.\<close>

definition ir_inv :: "pointer_state \<Rightarrow> bool" where
  "ir_inv s \<longleftrightarrow>
    between 1 127 (ptr_ir_speed s) \<and> between 0 127 (ptr_ir_deadzone s) \<and>
    between 0 95 (ptr_ir_smoothing s) \<and> ir_coord (ptr_ir_x s) \<and> ir_coord (ptr_ir_y s)"

text \<open>What one axis of an active tracker may do: move towards the point, and report that move.\<close>

definition axis_follows :: "int \<Rightarrow> int \<Rightarrow> int \<Rightarrow> int \<Rightarrow> int \<Rightarrow> bool" where
  "axis_follows dz from point to d \<longleftrightarrow>
    min from point \<le> to \<and> to \<le> max from point \<and>
    (d = 0 \<or> dz \<le> \<bar>d\<bar>) \<and>
    (from \<le> to \<longrightarrow> 0 \<le> d \<and> d \<le> 2 * (to - from)) \<and> (to \<le> from \<longrightarrow> d \<le> 0 \<and> 2 * (to - from) \<le> d)"

lemma axis_step:
  assumes "ir_coord from" "ir_coord p" "between 1 127 sp" "between 0 127 dz" "between 0 95 sm"
  defines "to \<equiv> smooth_axis from p sm"
  shows "axis_follows dz from p to (apply_deadzone (scaled_delta from to sp) dz)"
proof -
  have c: "ir_coord to" unfolding to_def by (rule smooth_axis_coord) (use assms in auto)
  note sg = scaled_delta_sign [OF assms(1) c assms(3)]
  have small: "\<bar>scaled_delta from to sp\<bar> \<le> 4000000"
    using sg assms(1) c unfolding ir_coord_def abs_le_iff by (cases "from \<le> to") auto
  then have "in_i32 (scaled_delta from to sp)" "scaled_delta from to sp \<noteq> - 2147483648"
    by (auto simp: in_i32_def)
  then have dz: "apply_deadzone (scaled_delta from to sp) dz =
      (if \<bar>scaled_delta from to sp\<bar> < dz then 0 else scaled_delta from to sp)"
    by (rule apply_deadzone_cases) (use assms(4) in \<open>simp add: between_def\<close>)
  have "min from p \<le> to \<and> to \<le> max from p"
    unfolding to_def by (rule smooth_axis_between) (use assms in auto)
  then show ?thesis unfolding axis_follows_def dz using sg by auto
qed

lemma update_ir_fields:
  "ptr_keys (fst (update_ir s p)) = ptr_keys s" "ptr_speed (fst (update_ir s p)) = ptr_speed s"
  "ptr_dx (fst (update_ir s p)) = ptr_dx s" "ptr_dy (fst (update_ir s p)) = ptr_dy s"
  "ptr_tracking (fst (update_ir s p)) = ptr_tracking s"
  by (simp_all add: update_ir_def reset_ir_def Let_def split: option.split)

lemma update_ir_inv:
  assumes "ir_inv s" "\<forall>q. point = Some q \<longrightarrow> ir_coord (pt_x q) \<and> ir_coord (pt_y q)"
  shows "ir_inv (fst (update_ir s point))"
proof -
  have zero: "ir_coord 0" by (simp add: ir_coord_def)
  show ?thesis
    using assms smooth_axis_coord zero
    by (auto simp: update_ir_def Let_def reset_ir_def ir_inv_def split: option.split)
qed

text \<open>
  Infrared movement. A frame without a usable point clears the tracker and moves
  nothing; the first point after that only sets the baseline, so the cursor never jumps on
  (re)acquisition; and while points keep coming each axis follows the point without
  overshooting it, reports movement in that direction only, at most twice as far as the
  tracker moved, and never a movement inside the dead zone.
\<close>

theorem update_ir_follows:
  assumes "ir_inv s" and "\<forall>q. point = Some q \<longrightarrow> ir_coord (pt_x q) \<and> ir_coord (pt_y q)"
    and "update_ir s point = (s', d)"
  shows "ir_inv s' \<and>
    (point = None \<or> (\<exists>q. point = Some q \<and> \<not> pt_valid q) \<longrightarrow>
      \<not> ptr_ir_active s' \<and> d = PointerDelta_default) \<and>
    (point = Some p \<and> pt_valid p \<longrightarrow> ptr_ir_active s') \<and>
    (point = Some p \<and> pt_valid p \<and> \<not> ptr_ir_active s \<longrightarrow>
      ptr_ir_x s' = pt_x p \<and> ptr_ir_y s' = pt_y p \<and> d = PointerDelta_default) \<and>
    (point = Some p \<and> pt_valid p \<and> ptr_ir_active s \<longrightarrow>
      axis_follows (ptr_ir_deadzone s) (ptr_ir_x s) (pt_x p) (ptr_ir_x s') (delta_dx d) \<and>
      axis_follows (ptr_ir_deadzone s) (ptr_ir_y s) (pt_y p) (ptr_ir_y s') (delta_dy d))"
proof -
  consider (lost) "point = None \<or> (\<exists>q. point = Some q \<and> \<not> pt_valid q)"
    | (acquired) q where "point = Some q" "pt_valid q" "\<not> ptr_ir_active s"
    | (tracked) q where "point = Some q" "pt_valid q" "ptr_ir_active s"
    by (cases point) auto
  then show ?thesis
  proof cases
    case lost
    then have "s' = reset_ir s" "d = PointerDelta_default"
      using assms(3) by (auto simp: update_ir_def)
    then show ?thesis using lost assms(1) by (auto simp: reset_ir_def ir_inv_def ir_coord_def)
  next
    case acquired
    then have "s' = s\<lparr>ptr_ir_x := pt_x q, ptr_ir_y := pt_y q, ptr_ir_active := True\<rparr>"
      "d = PointerDelta_default"
      using assms(3) by (auto simp: update_ir_def)
    then show ?thesis using acquired assms(1,2) by (simp add: ir_inv_def)
  next
    case tracked
    have i: "ir_coord (ptr_ir_x s)" "ir_coord (ptr_ir_y s)" "ir_coord (pt_x q)" "ir_coord (pt_y q)"
      "between 1 127 (ptr_ir_speed s)" "between 0 127 (ptr_ir_deadzone s)"
      "between 0 95 (ptr_ir_smoothing s)"
      using assms(1,2) tracked by (auto simp: ir_inv_def)
    let ?x = "smooth_axis (ptr_ir_x s) (pt_x q) (ptr_ir_smoothing s)"
    let ?y = "smooth_axis (ptr_ir_y s) (pt_y q) (ptr_ir_smoothing s)"
    have s': "s' = s\<lparr>ptr_ir_x := ?x, ptr_ir_y := ?y, ptr_ir_active := True\<rparr>"
      and d: "delta_dx d = apply_deadzone (scaled_delta (ptr_ir_x s) ?x (ptr_ir_speed s)) (ptr_ir_deadzone s)"
        "delta_dy d = apply_deadzone (scaled_delta (ptr_ir_y s) ?y (ptr_ir_speed s)) (ptr_ir_deadzone s)"
      using assms(3) tracked by (auto simp: update_ir_def Let_def)
    have "ir_inv s'"
      using assms(1) i smooth_axis_coord by (simp add: s' ir_inv_def)
    moreover have "axis_follows (ptr_ir_deadzone s) (ptr_ir_x s) (pt_x q) ?x (delta_dx d)"
      "axis_follows (ptr_ir_deadzone s) (ptr_ir_y s) (pt_y q) ?y (delta_dy d)"
      unfolding d by (rule axis_step; use i in simp)+
    ultimately show ?thesis using tracked s' by auto
  qed
qed

theorem update_ir_follows_witness:
  "let s = PointerState_new 16 8 2 50 TrackDual;
       p = \<lparr>pt_valid = True, pt_x = 100, pt_y = 200\<rparr>;
       (s1, d1) = update_ir s (Some p);
       (s2, d2) = update_ir s1 (Some (p\<lparr>pt_x := 180\<rparr>))
   in d1 = PointerDelta_default \<and> ir_inv s2 \<and> ptr_ir_x s2 = 140 \<and> delta_dx d2 = 5"
proof -
  let ?s = "PointerState_new 16 8 2 50 TrackDual"
  let ?p = "\<lparr>pt_valid = True, pt_x = 100, pt_y = 200\<rparr>"
  have inv: "ir_inv ?s" by (simp add: PointerState_new_def ir_inv_def between_def ir_coord_def)
  obtain s1 d1 where u1: "update_ir ?s (Some ?p) = (s1, d1)" by force
  obtain s2 d2 where u2: "update_ir s1 (Some (?p\<lparr>pt_x := 180\<rparr>)) = (s2, d2)" by force
  have na: "\<not> ptr_ir_active ?s" by (simp add: PointerState_new_def)
  have 1: "ir_inv s1" "d1 = PointerDelta_default" "ptr_ir_active s1" "ptr_ir_x s1 = 100"
    using update_ir_follows [OF inv _ u1, of ?p] na by (auto simp: ir_coord_def)
  have 2: "ir_inv s2"
    using update_ir_follows [OF 1(1) _ u2, of ?p] by (auto simp: ir_coord_def)
  have "s1 = ?s\<lparr>ptr_ir_x := 100, ptr_ir_y := 200, ptr_ir_active := True\<rparr>"
    using u1 na by (simp add: update_ir_def)
  note s1 = this
  have "update_ir s1 (Some (?p\<lparr>pt_x := 180\<rparr>)) =
      (s1\<lparr>ptr_ir_x := 140\<rparr>, \<lparr>delta_dx = 5, delta_dy = 0\<rparr>)"
    unfolding s1 by code_simp
  then have "ptr_ir_x s2 = 140 \<and> delta_dx d2 = 5" using u2 by auto
  then show ?thesis using u1 u2 1 2 by simp
qed

section \<open>Selecting a point\<close>

definition point_coord :: "ir_point \<Rightarrow> bool" where
  "point_coord p \<longleftrightarrow> ir_coord (pt_x p) \<and> ir_coord (pt_y p)"

lemma square_bound: "\<bar>d\<bar> \<le> 2000000 \<Longrightarrow> 0 \<le> d * d \<and> d * d \<le> (4000000000000 :: int)"
proof -
  assume "\<bar>d\<bar> \<le> 2000000"
  then have "\<bar>d\<bar> * \<bar>d\<bar> \<le> 2000000 * 2000000" by (intro mult_mono) auto
  then show ?thesis by (simp add: abs_mult_self_eq)
qed

lemma point_distance_eq:
  assumes "point_coord p" "point_coord q"
  shows "point_distance p q = (pt_x p - pt_x q)\<^sup>2 + (pt_y p - pt_y q)\<^sup>2"
proof -
  have "\<bar>pt_x p - pt_x q\<bar> \<le> 2000000" "\<bar>pt_y p - pt_y q\<bar> \<le> 2000000"
    using assms by (auto simp: point_coord_def ir_coord_def)
  then show ?thesis
    using square_bound [of "pt_x p - pt_x q"] square_bound [of "pt_y p - pt_y q"]
    unfolding point_distance_def Let_def power2_eq_square
    by (simp add: as_i64_id in_i64_abs)
qed

lemma widest_fold:
  assumes "foldl (widest_step points) (a, b, best) ps = (a', b', best')"
  shows "best \<le> best' \<and>
    (\<forall>(i, j) \<in> set ps. point_distance (points ! i) (points ! j) \<le> best') \<and>
    ((a', b', best') = (a, b, best) \<or>
     (a', b') \<in> set ps \<and> best' = point_distance (points ! a') (points ! b'))"
  using assms
proof (induction ps arbitrary: a b best)
  case (Cons ij ps)
  obtain i j where ij: "ij = (i, j)" by force
  obtain a1 b1 best1 where st: "widest_step points (a, b, best) ij = (a1, b1, best1)"
    by (metis prod_cases3)
  have f: "foldl (widest_step points) (a1, b1, best1) ps = (a', b', best')"
    using Cons.prems st by simp
  have "best \<le> best1 \<and> point_distance (points ! i) (points ! j) \<le> best1 \<and>
      ((a1, b1, best1) = (a, b, best) \<or>
       (a1, b1) = ij \<and> best1 = point_distance (points ! i) (points ! j))"
    using st by (auto simp: widest_step_def ij Let_def split: if_splits)
  then show ?case using Cons.IH [OF f] ij by auto
qed simp

lemma point_pairs_set: "set (point_pairs n) = {(i, j). i < j \<and> j < n}"
  by (auto simp: point_pairs_def image_iff intro!: bexI)

lemma half_between:
  "\<bar>x\<bar> \<le> 1000000 \<Longrightarrow> \<bar>y\<bar> \<le> 1000000 \<Longrightarrow>
   min x y \<le> as_i32 (x + y) sdiv 2 \<and> as_i32 (x + y) sdiv 2 \<le> max x y"
proof -
  assume "\<bar>x\<bar> \<le> 1000000" "\<bar>y\<bar> \<le> 1000000"
  then have "as_i32 (x + y) = x + y" by (intro as_i32_id in_i32_abs) auto
  moreover have "min x y * 2 \<le> x + y" "x + y \<le> max x y * 2" by auto
  ultimately show ?thesis using sdiv_between [of 2 "min x y" "x + y" "max x y"] by simp
qed

lemma sum_fold_bound:
  assumes "\<forall>p \<in> set ps. \<bar>f p\<bar> \<le> 1000000" "\<bar>s\<bar> \<le> 1000000 * int k" "k + length ps \<le> 1000"
  shows "foldl (\<lambda>s p. as_i64 (s + f p)) s ps = s + sum_list (map f ps)"
  using assms
proof (induction ps arbitrary: s k)
  case (Cons p ps)
  have b: "\<bar>s + f p\<bar> \<le> 1000000 * int (Suc k)"
    using Cons.prems(1,2) by auto
  moreover have "1000000 * int (Suc k) \<le> 1000000 * 1000" using Cons.prems(3) by simp
  ultimately have "as_i64 (s + f p) = s + f p" by (intro as_i64_id in_i64_abs) simp
  then show ?case using Cons.IH [of "s + f p" "Suc k"] Cons.prems(1,3) b by simp
qed simp

lemma sum_list_between:
  "\<forall>p \<in> set ps. lo \<le> f p \<and> f p \<le> hi \<Longrightarrow>
   lo * int (length ps) \<le> sum_list (map f ps) \<and> sum_list (map f ps) \<le> hi * int (length ps)"
  by (induction ps) (auto simp: algebra_simps)

lemma centroid_between:
  assumes "ps \<noteq> []" "length ps \<le> 1000" "\<forall>p \<in> set ps. lo \<le> f p \<and> f p \<le> hi"
    and "\<bar>lo\<bar> \<le> 1000000" "\<bar>hi\<bar> \<le> 1000000"
  defines "c \<equiv> as_i32 (foldl (\<lambda>s p. as_i64 (s + f p)) 0 ps sdiv int (length ps))"
  shows "lo \<le> c \<and> c \<le> hi"
proof -
  have "\<forall>p \<in> set ps. \<bar>f p\<bar> \<le> 1000000" using assms(3-5) by fastforce
  then have s: "foldl (\<lambda>s p. as_i64 (s + f p)) 0 ps = sum_list (map f ps)"
    using sum_fold_bound [of ps f 0 0] assms(2) by simp
  let ?q = "sum_list (map f ps) sdiv int (length ps)"
  have "lo \<le> ?q \<and> ?q \<le> hi"
    using sum_list_between [OF assms(3)] assms(1) by (intro sdiv_between) auto
  moreover from this assms(4,5) have "as_i32 ?q = ?q" by (intro as_i32_id) (auto simp: in_i32_def)
  ultimately show ?thesis by (simp add: c_def s)
qed

text \<open>A point inside the box of the valid points of a frame.\<close>

definition in_box :: "ir_point list \<Rightarrow> ir_point \<Rightarrow> bool" where
  "in_box ps p \<longleftrightarrow>
    (\<forall>lo hi. (\<forall>q \<in> set ps. lo \<le> pt_x q \<and> pt_x q \<le> hi) \<longrightarrow> lo \<le> pt_x p \<and> pt_x p \<le> hi) \<and>
    (\<forall>lo hi. (\<forall>q \<in> set ps. lo \<le> pt_y q \<and> pt_y q \<le> hi) \<longrightarrow> lo \<le> pt_y p \<and> pt_y p \<le> hi)"

lemma in_box_member: "p \<in> set ps \<Longrightarrow> in_box ps p"
  by (auto simp: in_box_def)

text \<open>The result of \<open>TrackDual\<close> on at least two valid points: the midpoint of a widest pair.\<close>

lemma dual_widest:
  assumes "\<forall>p \<in> set points. point_coord p" "2 \<le> length points"
    and "foldl (widest_step points) (0, 1, -1) (point_pairs (length points)) = (a, b, best)"
  shows "a < b \<and> b < length points \<and>
    (\<forall>i j. i < j \<and> j < length points \<longrightarrow>
       point_distance (points ! i) (points ! j) \<le> point_distance (points ! a) (points ! b))"
proof -
  note w = widest_fold [OF assms(3)]
  have "(0, 1) \<in> set (point_pairs (length points))" using assms(2) by (simp add: point_pairs_set)
  then have "point_distance (points ! 0) (points ! 1) \<le> best" using w by auto
  moreover have "point_coord (points ! 0)" "point_coord (points ! 1)" 
    by (rule bspec [OF assms(1) nth_mem], use assms(2) in linarith)+
  then have "0 \<le> point_distance (points ! 0) (points ! 1)" by (simp add: point_distance_eq)
  ultimately have "best \<noteq> -1" by simp
  then have ab: "(a, b) \<in> set (point_pairs (length points))" "best = point_distance (points ! a) (points ! b)"
    using w by auto
  moreover have "\<forall>(i, j) \<in> set (point_pairs (length points)). point_distance (points ! i) (points ! j) \<le> best"
    using w by blast
  ultimately show ?thesis by (auto simp: point_pairs_set)
qed

lemma in_box_coord: "ps \<noteq> [] \<Longrightarrow> \<forall>q \<in> set ps. point_coord q \<Longrightarrow> in_box ps p \<Longrightarrow> point_coord p"
proof -
  assume "\<forall>q \<in> set ps. point_coord q" "in_box ps p"
  then have "(\<forall>q \<in> set ps. -1000000 \<le> pt_x q \<and> pt_x q \<le> 1000000)"
    "(\<forall>q \<in> set ps. -1000000 \<le> pt_y q \<and> pt_y q \<le> 1000000)"
    by (auto simp: point_coord_def ir_coord_def abs_le_iff)
  with \<open>in_box ps p\<close> have "-1000000 \<le> pt_x p \<and> pt_x p \<le> 1000000" "-1000000 \<le> pt_y p \<and> pt_y p \<le> 1000000"
    unfolding in_box_def by blast+
  then show ?thesis by (auto simp: point_coord_def ir_coord_def abs_le_iff)
qed

lemma in_box_clip:
  assumes "ps \<noteq> []" "\<forall>q \<in> set ps. point_coord q"
    and "\<And>lo hi. (\<forall>q \<in> set ps. lo \<le> pt_x q \<and> pt_x q \<le> hi) \<Longrightarrow> \<bar>lo\<bar> \<le> 1000000 \<Longrightarrow> \<bar>hi\<bar> \<le> 1000000 \<Longrightarrow>
      lo \<le> pt_x p \<and> pt_x p \<le> hi"
    and "\<And>lo hi. (\<forall>q \<in> set ps. lo \<le> pt_y q \<and> pt_y q \<le> hi) \<Longrightarrow> \<bar>lo\<bar> \<le> 1000000 \<Longrightarrow> \<bar>hi\<bar> \<le> 1000000 \<Longrightarrow>
      lo \<le> pt_y p \<and> pt_y p \<le> hi"
  shows "in_box ps p"
proof -
  obtain q where q: "q \<in> set ps" using assms(1) by (meson last_in_set)
  have clip: "lo \<le> f p \<and> f p \<le> hi"
    if "\<forall>q \<in> set ps. lo \<le> f q \<and> f q \<le> hi" "\<forall>q \<in> set ps. \<bar>f q\<bar> \<le> 1000000"
      "\<And>lo hi. (\<forall>q \<in> set ps. lo \<le> f q \<and> f q \<le> hi) \<Longrightarrow> \<bar>lo\<bar> \<le> 1000000 \<Longrightarrow> \<bar>hi\<bar> \<le> 1000000 \<Longrightarrow>
        lo \<le> f p \<and> f p \<le> hi"
    for lo hi :: int and f
  proof -
    have "max lo (-1000000) \<le> f p \<and> f p \<le> min hi 1000000"
    proof (rule that(3))
      show "\<forall>q \<in> set ps. max lo (-1000000) \<le> f q \<and> f q \<le> min hi 1000000"
        using that(1,2) by (auto simp: abs_le_iff)
      have "lo \<le> 1000000" "-1000000 \<le> hi" using that(1,2) q by (force simp: abs_le_iff)+
      then show "\<bar>max lo (-1000000)\<bar> \<le> 1000000" "\<bar>min hi 1000000\<bar> \<le> 1000000"
        by (simp_all add: abs_le_iff)
    qed
    then show ?thesis by simp
  qed
  have "lo \<le> pt_x p \<and> pt_x p \<le> hi" if "\<forall>q \<in> set ps. lo \<le> pt_x q \<and> pt_x q \<le> hi" for lo hi
    by (rule clip [OF that _ assms(3)]) (use assms(2) in \<open>auto simp: point_coord_def ir_coord_def\<close>)
  moreover have "lo \<le> pt_y p \<and> pt_y p \<le> hi" if "\<forall>q \<in> set ps. lo \<le> pt_y q \<and> pt_y q \<le> hi" for lo hi
    by (rule clip [OF that _ assms(4)]) (use assms(2) in \<open>auto simp: point_coord_def ir_coord_def\<close>)
  ultimately show ?thesis unfolding in_box_def by blast
qed

definition centroid :: "ir_point list \<Rightarrow> ir_point" where
  "centroid ps =
    \<lparr>pt_valid = True,
     pt_x = as_i32 (foldl (\<lambda>s p. as_i64 (s + pt_x p)) 0 ps sdiv int (length ps)),
     pt_y = as_i32 (foldl (\<lambda>s p. as_i64 (s + pt_y p)) 0 ps sdiv int (length ps))\<rparr>"

definition midpoint :: "ir_point \<Rightarrow> ir_point \<Rightarrow> ir_point" where
  "midpoint q r =
    \<lparr>pt_valid = True, pt_x = as_i32 (pt_x q + pt_x r) sdiv 2, pt_y = as_i32 (pt_y q + pt_y r) sdiv 2\<rparr>"

lemma centroid_in_box:
  assumes "ps \<noteq> []" "\<forall>q \<in> set ps. point_coord q" "length ps \<le> 1000"
  shows "in_box ps (centroid ps)"
proof (rule in_box_clip [OF assms(1,2)])
  fix lo hi :: int assume lh: "\<bar>lo\<bar> \<le> 1000000" "\<bar>hi\<bar> \<le> 1000000"
  show "\<forall>q \<in> set ps. lo \<le> pt_x q \<and> pt_x q \<le> hi \<Longrightarrow> lo \<le> pt_x (centroid ps) \<and> pt_x (centroid ps) \<le> hi"
    using centroid_between [OF assms(1,3) _ lh, of pt_x] by (simp add: centroid_def)
  show "\<forall>q \<in> set ps. lo \<le> pt_y q \<and> pt_y q \<le> hi \<Longrightarrow> lo \<le> pt_y (centroid ps) \<and> pt_y (centroid ps) \<le> hi"
    using centroid_between [OF assms(1,3) _ lh, of pt_y] by (simp add: centroid_def)
qed

lemma in_box_between:
  assumes "q \<in> set ps" "r \<in> set ps"
    and "min (pt_x q) (pt_x r) \<le> pt_x p \<and> pt_x p \<le> max (pt_x q) (pt_x r)"
    and "min (pt_y q) (pt_y r) \<le> pt_y p \<and> pt_y p \<le> max (pt_y q) (pt_y r)"
  shows "in_box ps p"
proof -
  have "lo \<le> f p \<and> f p \<le> hi" if "\<forall>q \<in> set ps. lo \<le> f q \<and> f q \<le> hi"
    and "min (f q) (f r) \<le> f p \<and> f p \<le> max (f q) (f r)" for lo hi :: int and f
  proof -
    have "lo \<le> f q" "f q \<le> hi" "lo \<le> f r" "f r \<le> hi" using that(1) assms(1,2) by auto
    then show ?thesis using that(2) by linarith
  qed
  then show ?thesis unfolding in_box_def using assms(3,4) by blast
qed

lemma midpoint_in_box:
  "q \<in> set ps \<Longrightarrow> r \<in> set ps \<Longrightarrow> point_coord q \<Longrightarrow> point_coord r \<Longrightarrow> in_box ps (midpoint q r)"
  using half_between [of "pt_x q" "pt_x r"] half_between [of "pt_y q" "pt_y r"]
  by (intro in_box_between [of q ps r]) (simp_all add: midpoint_def point_coord_def ir_coord_def)

text \<open>A midpoint is half the sum, up to the truncation of an odd sum.\<close>

definition halfway :: "ir_point \<Rightarrow> ir_point \<Rightarrow> ir_point \<Rightarrow> bool" where
  "halfway q r p \<longleftrightarrow>
    \<bar>2 * pt_x p - (pt_x q + pt_x r)\<bar> \<le> 1 \<and> \<bar>2 * pt_y p - (pt_y q + pt_y r)\<bar> \<le> 1"

lemma midpoint_halfway: "point_coord q \<Longrightarrow> point_coord r \<Longrightarrow> halfway q r (midpoint q r)"
proof -
  have half: "\<bar>2 * (as_i32 (x + y) sdiv 2) - (x + y)\<bar> \<le> 1" if "ir_coord x" "ir_coord y" for x y
  proof -
    have "as_i32 (x + y) = x + y" using that by (intro as_i32_id in_i32_abs) (auto simp: ir_coord_def)
    then show ?thesis by (cases "x + y < 0") (auto simp: sdiv_neg sdiv_nonneg)
  qed
  assume "point_coord q" "point_coord r"
  then show ?thesis by (simp add: halfway_def midpoint_def half point_coord_def)
qed

lemma select_cases:
  fixes frame
  defines "ps \<equiv> filter pt_valid frame"
  shows "ps = [] \<Longrightarrow> select_ir_point frame tracking = None"
    and "ps \<noteq> [] \<Longrightarrow> select_ir_point frame TrackFirst = Some (ps ! 0)"
    and "ps \<noteq> [] \<Longrightarrow> select_ir_point frame TrackCentroid = Some (centroid ps)"
    and "length ps = 1 \<Longrightarrow> select_ir_point frame TrackDual = Some (ps ! 0)"
    and "2 \<le> length ps \<Longrightarrow> \<forall>q \<in> set ps. point_coord q \<Longrightarrow>
      \<exists>a b. a < b \<and> b < length ps \<and> select_ir_point frame TrackDual = Some (midpoint (ps ! a) (ps ! b)) \<and>
        (\<forall>i j. i < j \<and> j < length ps \<longrightarrow>
           point_distance (ps ! i) (ps ! j) \<le> point_distance (ps ! a) (ps ! b))"
proof -
  show "ps = [] \<Longrightarrow> select_ir_point frame tracking = None"
    "ps \<noteq> [] \<Longrightarrow> select_ir_point frame TrackFirst = Some (ps ! 0)"
    "ps \<noteq> [] \<Longrightarrow> select_ir_point frame TrackCentroid = Some (centroid ps)"
    "length ps = 1 \<Longrightarrow> select_ir_point frame TrackDual = Some (ps ! 0)"
    by (auto simp add: select_ir_point_def Let_def ps_def centroid_def)
  assume two: "2 \<le> length ps" and co: "\<forall>q \<in> set ps. point_coord q"
  obtain a b best where ab: "foldl (widest_step ps) (0, 1, -1) (point_pairs (length ps)) = (a, b, best)"
    by (metis prod_cases3)
  have "length ps \<noteq> 0" "length ps \<noteq> 1" using two by auto
  then have "select_ir_point frame TrackDual = Some (midpoint (ps ! a) (ps ! b))"
    using ab unfolding select_ir_point_def Let_def ps_def [symmetric] by (simp add: midpoint_def)
  with dual_widest [OF co two ab] show "\<exists>a b. a < b \<and> b < length ps \<and>
      select_ir_point frame TrackDual = Some (midpoint (ps ! a) (ps ! b)) \<and>
        (\<forall>i j. i < j \<and> j < length ps \<longrightarrow>
           point_distance (ps ! i) (ps ! j) \<le> point_distance (ps ! a) (ps ! b))"
    by blast
qed

text \<open>For every tracking mode: a valid point of the frame's box, whenever there is a valid point.\<close>

lemma select_in_box:
  assumes "\<forall>q \<in> set frame. point_coord q" "length frame = 4" and "filter pt_valid frame \<noteq> []"
  shows "\<exists>p. select_ir_point frame tracking = Some p \<and> pt_valid p \<and> in_box (filter pt_valid frame) p"
proof -
  define ps where "ps = filter pt_valid frame"
  have co: "\<forall>q \<in> set ps. point_coord q" and va: "\<forall>q \<in> set ps. pt_valid q" and ne: "ps \<noteq> []"
    using assms by (auto simp: ps_def)
  have len: "length ps \<le> 1000"
    using assms(2) length_filter_le [of pt_valid frame] by (simp add: ps_def)
  note sel = select_cases [of frame, folded ps_def]
  have head: "pt_valid (ps ! 0) \<and> in_box ps (ps ! 0)"
    using ne va in_box_member by (metis length_greater_0_conv nth_mem)
  have "\<exists>p. select_ir_point frame tracking = Some p \<and> pt_valid p \<and> in_box ps p"
  proof (cases tracking)
    case TrackFirst
    then show ?thesis using sel(2) head ne by simp
  next
    case TrackCentroid
    then show ?thesis using sel(3) centroid_in_box [OF ne co len] ne by (simp add: centroid_def)
  next
    case TrackDual
    show ?thesis
    proof (cases "length ps = 1")
      case True
      then show ?thesis using sel(4) head TrackDual by simp
    next
      case False
      with ne have "2 \<le> length ps" by (cases ps) (auto simp: Suc_le_eq)
      from sel(5) [OF this co] obtain a b where "a < b" "b < length ps"
        "select_ir_point frame TrackDual = Some (midpoint (ps ! a) (ps ! b))" by blast
      then show ?thesis using co midpoint_in_box [of "ps ! a" ps "ps ! b"] TrackDual
        by (simp add: midpoint_def)
    qed
  qed
  then show ?thesis by (simp add: ps_def)
qed

lemma select_Some:
  assumes "\<forall>q \<in> set frame. point_coord q" "length frame = 4" "select_ir_point frame tracking = Some p"
  shows "pt_valid p \<and> point_coord p \<and> in_box (filter pt_valid frame) p"
proof -
  have ne: "filter pt_valid frame \<noteq> []" using assms(3) select_cases(1) [of frame tracking] by auto
  then have "pt_valid p \<and> in_box (filter pt_valid frame) p" 
    using select_in_box [OF assms(1,2) ne, of tracking] assms(3) by auto
  then show ?thesis using in_box_coord [OF ne] assms(1) by auto
qed

text \<open>
  Selecting a point. \<open>select_ir_point\<close> returns a point exactly when the frame has a valid
  one; the point it returns is valid and lies in the bounding box of the valid points, for
  all three tracking modes; and with two or more valid points dual tracking returns the
  midpoint of two of them that are furthest apart.
\<close>

theorem select_ir_point_sound:
  assumes "\<forall>q \<in> set frame. point_coord q" and "length frame = 4"
  shows "(select_ir_point frame tracking = None \<longleftrightarrow> filter pt_valid frame = []) \<and>
    (\<forall>p. select_ir_point frame tracking = Some p \<longrightarrow>
       pt_valid p \<and> point_coord p \<and> in_box (filter pt_valid frame) p) \<and>
    (tracking = TrackDual \<and> 2 \<le> length (filter pt_valid frame) \<longrightarrow>
       (\<exists>i j p. i < j \<and> j < length (filter pt_valid frame) \<and>
          select_ir_point frame tracking = Some p \<and>
          halfway (filter pt_valid frame ! i) (filter pt_valid frame ! j) p \<and>
          (\<forall>k l. k < l \<and> l < length (filter pt_valid frame) \<longrightarrow>
             point_distance (filter pt_valid frame ! k) (filter pt_valid frame ! l)
             \<le> point_distance (filter pt_valid frame ! i) (filter pt_valid frame ! j))))"
proof -
  define ps where "ps = filter pt_valid frame"
  have co: "\<forall>q \<in> set ps. point_coord q" using assms(1) by (auto simp: ps_def)
  have none: "select_ir_point frame tracking = None \<longleftrightarrow> ps = []"
    using select_in_box [OF assms, of tracking] select_cases(1) [of frame tracking]
    by (cases "filter pt_valid frame = []") (auto simp: ps_def)
  have dual: "\<exists>i j p. i < j \<and> j < length ps \<and> select_ir_point frame tracking = Some p \<and>
        halfway (ps ! i) (ps ! j) p \<and>
        (\<forall>k l. k < l \<and> l < length ps \<longrightarrow>
           point_distance (ps ! k) (ps ! l) \<le> point_distance (ps ! i) (ps ! j))"
    if "tracking = TrackDual \<and> 2 \<le> length ps"
  proof -
    from that select_cases(5) [of frame, folded ps_def, OF _ co] obtain a b where ab: "a < b" "b < length ps"
      "select_ir_point frame tracking = Some (midpoint (ps ! a) (ps ! b))"
      "\<forall>i j. i < j \<and> j < length ps \<longrightarrow>
         point_distance (ps ! i) (ps ! j) \<le> point_distance (ps ! a) (ps ! b)" by blast
    then show ?thesis using co midpoint_halfway [of "ps ! a" "ps ! b"]
      by (intro exI [of _ a] exI [of _ b]) simp
  qed
  show ?thesis
    using none dual select_Some [OF assms] unfolding ps_def by blast
qed

definition sample_frame :: ir_frame where
  "sample_frame =
    [\<lparr>pt_valid = True, pt_x = 10, pt_y = 10\<rparr>, \<lparr>pt_valid = False, pt_x = 1023, pt_y = 1023\<rparr>,
     \<lparr>pt_valid = True, pt_x = 500, pt_y = 20\<rparr>, \<lparr>pt_valid = True, pt_x = 100, pt_y = 20\<rparr>]"

theorem select_ir_point_sound_witness:
  "select_ir_point sample_frame TrackDual \<noteq> None \<and>
   in_box (filter pt_valid sample_frame) (the (select_ir_point sample_frame TrackDual))"
proof -
  have "\<forall>q \<in> set sample_frame. point_coord q" "length sample_frame = 4"
    by (simp_all add: sample_frame_def point_coord_def ir_coord_def)
  note sound = select_ir_point_sound [OF this, of TrackDual]
  have "filter pt_valid sample_frame \<noteq> []" by (simp add: sample_frame_def)
  with sound show ?thesis by force
qed

end
