(* ===== verification/Mapping_Axes.thy ===== *)
theory Mapping_Axes
  imports Input
begin

text \<open>
  The translation tables of \<open>crates/wiiland-core/src/mapping.rs\<close>: integer scaling of a raw
  axis to the virtual controller, the evdev code of every button, the axis metadata, and
  \<open>map_motion\<close>, which turns one absolute event into the axes to emit. Axis and key codes
  (\<open>u16\<close>) are \<open>nat\<close>; they are constants and never computed with.
\<close>

section \<open>Constants\<close>

definition VIRTUAL_AXIS_MIN :: int where "VIRTUAL_AXIS_MIN = - 32768"
definition VIRTUAL_AXIS_MAX :: int where "VIRTUAL_AXIS_MAX = 32767"
definition VIRTUAL_TRIGGER_MAX :: int where "VIRTUAL_TRIGGER_MAX = 1023"
definition WIIMOTE_ACCEL_AXIS_EXTENT :: int where "WIIMOTE_ACCEL_AXIS_EXTENT = 500"
definition NUNCHUK_STICK_AXIS_EXTENT :: int where "NUNCHUK_STICK_AXIS_EXTENT = 120"
definition CLASSIC_STICK_AXIS_EXTENT :: int where "CLASSIC_STICK_AXIS_EXTENT = 30"
definition CLASSIC_TRIGGER_MAX :: int where "CLASSIC_TRIGGER_MAX = 62"
definition PRO_STICK_AXIS_EXTENT :: int where "PRO_STICK_AXIS_EXTENT = 1024"
definition RHYTHM_STICK_NEGATIVE_EXTENT :: int where "RHYTHM_STICK_NEGATIVE_EXTENT = 32"
definition RHYTHM_STICK_POSITIVE_EXTENT :: int where "RHYTHM_STICK_POSITIVE_EXTENT = 31"
definition DRUM_PRESSURE_MAX :: int where "DRUM_PRESSURE_MAX = 7"
definition GUITAR_WHAMMY_NEGATIVE_EXTENT :: int where "GUITAR_WHAMMY_NEGATIVE_EXTENT = 16"
definition GUITAR_WHAMMY_POSITIVE_EXTENT :: int where "GUITAR_WHAMMY_POSITIVE_EXTENT = 15"
definition GUITAR_FRET_MAX :: int where "GUITAR_FRET_MAX = 31"
definition MOTION_PLUS_AXIS_EXTENT :: int where "MOTION_PLUS_AXIS_EXTENT = 16000"
definition BTN_SOUTH :: nat where "BTN_SOUTH = 304"
definition BTN_EAST :: nat where "BTN_EAST = 305"
definition BTN_NORTH :: nat where "BTN_NORTH = 307"
definition BTN_WEST :: nat where "BTN_WEST = 308"
definition BTN_TL :: nat where "BTN_TL = 310"
definition BTN_TR :: nat where "BTN_TR = 311"
definition BTN_TL2 :: nat where "BTN_TL2 = 312"
definition BTN_TR2 :: nat where "BTN_TR2 = 313"
definition BTN_SELECT :: nat where "BTN_SELECT = 314"
definition BTN_START :: nat where "BTN_START = 315"
definition BTN_MODE :: nat where "BTN_MODE = 316"
definition BTN_THUMBL :: nat where "BTN_THUMBL = 317"
definition BTN_THUMBR :: nat where "BTN_THUMBR = 318"
definition BTN_DPAD_LEFT :: nat where "BTN_DPAD_LEFT = 546"
definition BTN_DPAD_RIGHT :: nat where "BTN_DPAD_RIGHT = 547"
definition BTN_DPAD_UP :: nat where "BTN_DPAD_UP = 544"
definition BTN_DPAD_DOWN :: nat where "BTN_DPAD_DOWN = 545"
definition BTN_1 :: nat where "BTN_1 = 257"
definition BTN_2 :: nat where "BTN_2 = 258"
definition BTN_C :: nat where "BTN_C = 306"
definition BTN_Z :: nat where "BTN_Z = 309"
definition BTN_STRUM_BAR_UP :: nat where "BTN_STRUM_BAR_UP = 553"
definition BTN_STRUM_BAR_DOWN :: nat where "BTN_STRUM_BAR_DOWN = 554"
definition BTN_FRET_FAR_UP :: nat where "BTN_FRET_FAR_UP = 548"
definition BTN_FRET_UP :: nat where "BTN_FRET_UP = 549"
definition BTN_FRET_MID :: nat where "BTN_FRET_MID = 550"
definition BTN_FRET_LOW :: nat where "BTN_FRET_LOW = 551"
definition BTN_FRET_FAR_LOW :: nat where "BTN_FRET_FAR_LOW = 552"
definition ABS_X :: nat where "ABS_X = 0"
definition ABS_Y :: nat where "ABS_Y = 1"
definition ABS_Z :: nat where "ABS_Z = 2"
definition ABS_RX :: nat where "ABS_RX = 3"
definition ABS_RY :: nat where "ABS_RY = 4"
definition ABS_RZ :: nat where "ABS_RZ = 5"
definition ABS_THROTTLE :: nat where "ABS_THROTTLE = 6"
definition ABS_RUDDER :: nat where "ABS_RUDDER = 7"
definition ABS_WHEEL :: nat where "ABS_WHEEL = 8"
definition ABS_GAS :: nat where "ABS_GAS = 9"
definition ABS_BRAKE :: nat where "ABS_BRAKE = 10"
definition ABS_HAT0X :: nat where "ABS_HAT0X = 16"
definition ABS_HAT1X :: nat where "ABS_HAT1X = 18"
definition ABS_HAT1Y :: nat where "ABS_HAT1Y = 19"
definition ABS_HAT2X :: nat where "ABS_HAT2X = 20"
definition ABS_HAT3X :: nat where "ABS_HAT3X = 22"
definition ABS_HAT3Y :: nat where "ABS_HAT3Y = 23"
definition ABS_MISC :: nat where "ABS_MISC = 40"
definition ABS_PRESSURE :: nat where "ABS_PRESSURE = 24"
definition ABS_DISTANCE :: nat where "ABS_DISTANCE = 25"
definition ABS_TILT_X :: nat where "ABS_TILT_X = 26"
definition ABS_TILT_Y :: nat where "ABS_TILT_Y = 27"

lemmas axis_consts =
  VIRTUAL_AXIS_MIN_def VIRTUAL_AXIS_MAX_def VIRTUAL_TRIGGER_MAX_def
  WIIMOTE_ACCEL_AXIS_EXTENT_def NUNCHUK_STICK_AXIS_EXTENT_def CLASSIC_STICK_AXIS_EXTENT_def
  CLASSIC_TRIGGER_MAX_def PRO_STICK_AXIS_EXTENT_def RHYTHM_STICK_NEGATIVE_EXTENT_def
  RHYTHM_STICK_POSITIVE_EXTENT_def DRUM_PRESSURE_MAX_def GUITAR_WHAMMY_NEGATIVE_EXTENT_def
  GUITAR_WHAMMY_POSITIVE_EXTENT_def GUITAR_FRET_MAX_def MOTION_PLUS_AXIS_EXTENT_def

lemmas code_consts =
  BTN_SOUTH_def BTN_EAST_def BTN_NORTH_def BTN_WEST_def
  BTN_TL_def BTN_TR_def BTN_TL2_def BTN_TR2_def
  BTN_SELECT_def BTN_START_def BTN_MODE_def BTN_THUMBL_def
  BTN_THUMBR_def BTN_DPAD_LEFT_def BTN_DPAD_RIGHT_def BTN_DPAD_UP_def
  BTN_DPAD_DOWN_def BTN_1_def BTN_2_def BTN_C_def
  BTN_Z_def BTN_STRUM_BAR_UP_def BTN_STRUM_BAR_DOWN_def BTN_FRET_FAR_UP_def
  BTN_FRET_UP_def BTN_FRET_MID_def BTN_FRET_LOW_def BTN_FRET_FAR_LOW_def
  ABS_X_def ABS_Y_def ABS_Z_def ABS_RX_def
  ABS_RY_def ABS_RZ_def ABS_THROTTLE_def ABS_RUDDER_def
  ABS_WHEEL_def ABS_GAS_def ABS_BRAKE_def ABS_HAT0X_def
  ABS_HAT1X_def ABS_HAT1Y_def ABS_HAT2X_def ABS_HAT3X_def
  ABS_HAT3Y_def ABS_MISC_def ABS_PRESSURE_def ABS_DISTANCE_def
  ABS_TILT_X_def ABS_TILT_Y_def

definition CORE_KEYS :: "nat list" where
  "CORE_KEYS =
    [BTN_DPAD_LEFT, BTN_DPAD_RIGHT, BTN_DPAD_UP, BTN_DPAD_DOWN, BTN_SOUTH, BTN_EAST,
     BTN_NORTH, BTN_WEST, BTN_START, BTN_SELECT, BTN_MODE, BTN_1, BTN_2, BTN_TL, BTN_TR,
     BTN_TL2, BTN_TR2, BTN_THUMBL, BTN_THUMBR, BTN_C, BTN_Z, BTN_STRUM_BAR_UP,
     BTN_STRUM_BAR_DOWN, BTN_FRET_FAR_UP, BTN_FRET_UP, BTN_FRET_MID, BTN_FRET_LOW,
     BTN_FRET_FAR_LOW]"

definition CORE_AXES :: "nat list" where
  "CORE_AXES =
    [ABS_X, ABS_Y, ABS_RX, ABS_RY, ABS_Z, ABS_RZ, ABS_HAT3X, ABS_HAT3Y, ABS_MISC,
     ABS_PRESSURE, ABS_DISTANCE, ABS_TILT_X, ABS_TILT_Y, ABS_THROTTLE, ABS_RUDDER,
     ABS_WHEEL, ABS_GAS, ABS_BRAKE, ABS_HAT0X, ABS_HAT1X, ABS_HAT1Y, ABS_HAT2X]"

definition DESKTOP_KEYS :: "nat list" where
  "DESKTOP_KEYS =
    [272, 273, 28, 1, 125, 104, 109]"

definition DESKTOP_RELS :: "nat list" where
  "DESKTOP_RELS =
    [0, 1]"

record axis_info_rec =
  ax_minimum :: int
  ax_maximum :: int
  ax_flat :: int
  ax_fuzz :: int

record virtual_capabilities =
  cap_keys :: "nat list"
  cap_axes :: "nat list"
  cap_rels :: "nat list"

definition CONTROLLER_CAPABILITIES :: virtual_capabilities where
  "CONTROLLER_CAPABILITIES = \<lparr>cap_keys = CORE_KEYS, cap_axes = CORE_AXES, cap_rels = []\<rparr>"

definition DESKTOP_CAPABILITIES :: virtual_capabilities where
  "DESKTOP_CAPABILITIES = \<lparr>cap_keys = DESKTOP_KEYS, cap_axes = [], cap_rels = DESKTOP_RELS\<rparr>"


section \<open>Scaling\<close>

definition clamp_axis_value :: "int \<Rightarrow> int" where
  "clamp_axis_value v = clamp VIRTUAL_AXIS_MIN VIRTUAL_AXIS_MAX v"

definition scale_signed_axis :: "int \<Rightarrow> int \<Rightarrow> int \<Rightarrow> int" where
  "scale_signed_axis v negative_extent positive_extent =
    (if negative_extent \<le> 0 \<or> positive_extent \<le> 0 then 0
     else if v \<le> as_i32 (- negative_extent) then VIRTUAL_AXIS_MIN
     else if v \<ge> positive_extent then VIRTUAL_AXIS_MAX
     else if v < 0 then as_i32 (as_i64 (v * as_i32 (- VIRTUAL_AXIS_MIN)) sdiv negative_extent)
     else as_i32 (as_i64 (v * VIRTUAL_AXIS_MAX) sdiv positive_extent))"

definition scale_unsigned_axis :: "int \<Rightarrow> int \<Rightarrow> int \<Rightarrow> int" where
  "scale_unsigned_axis v source_max target_max =
    (if source_max \<le> 0 \<or> target_max < 0 \<or> v \<le> 0 then 0
     else if v \<ge> source_max then target_max
     else as_i32 (as_i64 (v * target_max) sdiv source_max))"


section \<open>Codes\<close>

fun map_button :: "button \<Rightarrow> nat" where
  "map_button BtnLeft = BTN_DPAD_LEFT"
| "map_button BtnRight = BTN_DPAD_RIGHT"
| "map_button BtnUp = BTN_DPAD_UP"
| "map_button BtnDown = BTN_DPAD_DOWN"
| "map_button BtnA = BTN_SOUTH"
| "map_button BtnB = BTN_EAST"
| "map_button BtnPlus = BTN_START"
| "map_button BtnMinus = BTN_SELECT"
| "map_button BtnHome = BTN_MODE"
| "map_button BtnOne = BTN_1"
| "map_button BtnTwo = BTN_2"
| "map_button BtnX = BTN_NORTH"
| "map_button BtnY = BTN_WEST"
| "map_button BtnShoulderLeft = BTN_TL"
| "map_button BtnShoulderRight = BTN_TR"
| "map_button BtnTriggerLeft = BTN_TL2"
| "map_button BtnTriggerRight = BTN_TR2"
| "map_button BtnThumbLeft = BTN_THUMBL"
| "map_button BtnThumbRight = BTN_THUMBR"
| "map_button BtnC = BTN_C"
| "map_button BtnZ = BTN_Z"
| "map_button BtnStrumBarUp = BTN_STRUM_BAR_UP"
| "map_button BtnStrumBarDown = BTN_STRUM_BAR_DOWN"
| "map_button BtnFretFarUp = BTN_FRET_FAR_UP"
| "map_button BtnFretUp = BTN_FRET_UP"
| "map_button BtnFretMid = BTN_FRET_MID"
| "map_button BtnFretLow = BTN_FRET_LOW"
| "map_button BtnFretFarLow = BTN_FRET_FAR_LOW"

definition map_key :: "nat \<Rightarrow> nat option" where
  "map_key code = map_option map_button (Button_from_code code)"

text \<open>\<open>[..].get(index).copied()\<close>\<close>

definition table_get :: "nat list \<Rightarrow> nat \<Rightarrow> nat option" where
  "table_get t i = (if i < length t then Some (t ! i) else None)"

definition accel_abs_code :: "nat \<Rightarrow> nat option" where
  "accel_abs_code i = table_get [ABS_THROTTLE, ABS_RUDDER, ABS_WHEEL] i"

definition nunchuk_accel_abs_code :: "nat \<Rightarrow> nat option" where
  "nunchuk_accel_abs_code i = table_get [ABS_HAT1X, ABS_HAT1Y, ABS_HAT2X] i"

definition motion_plus_abs_code :: "nat \<Rightarrow> nat option" where
  "motion_plus_abs_code i = table_get [ABS_GAS, ABS_BRAKE, ABS_HAT0X] i"

definition balance_abs_code :: "nat \<Rightarrow> nat option" where
  "balance_abs_code i = table_get [ABS_PRESSURE, ABS_DISTANCE, ABS_TILT_X, ABS_TILT_Y] i"

definition drums_abs_code :: "nat \<Rightarrow> nat option" where
  "drums_abs_code i =
    table_get [ABS_X, ABS_RX, ABS_RY, ABS_Z, ABS_RZ, ABS_HAT3X, ABS_HAT3Y, ABS_MISC] i"

definition scale_drums_pressure :: "nat \<Rightarrow> int \<Rightarrow> int" where
  "scale_drums_pressure i v =
    scale_unsigned_axis v DRUM_PRESSURE_MAX
      (if i = 1 \<or> i = 2 \<or> i = 5 then VIRTUAL_AXIS_MAX else VIRTUAL_TRIGGER_MAX)"

record abs3 =
  abs_x :: int
  abs_y :: int
  abs_z :: int

record mapped_axis =
  ma_code :: nat
  ma_value :: int

definition map_xyz :: "abs3 \<Rightarrow> nat \<times> nat \<times> nat \<Rightarrow> int \<Rightarrow> mapped_axis list" where
  "map_xyz v codes extent =
    (case codes of (c0, c1, c2) \<Rightarrow>
      [\<lparr>ma_code = c0, ma_value = scale_signed_axis (abs_x v) extent extent\<rparr>,
       \<lparr>ma_code = c1, ma_value = scale_signed_axis (abs_y v) extent extent\<rparr>,
       \<lparr>ma_code = c2, ma_value = scale_signed_axis (abs_z v) extent extent\<rparr>])"

definition axis_info :: "nat \<Rightarrow> axis_info_rec option" where
  "axis_info code =
    (if code \<notin> set CORE_AXES then None
     else if code = ABS_Z \<or> code = ABS_RZ \<or> code = ABS_HAT3Y \<or> code = ABS_MISC
     then Some \<lparr>ax_minimum = 0, ax_maximum = VIRTUAL_TRIGGER_MAX, ax_flat = 0, ax_fuzz = 4\<rparr>
     else if code = ABS_PRESSURE \<or> code = ABS_DISTANCE \<or> code = ABS_TILT_X \<or> code = ABS_TILT_Y
     then Some \<lparr>ax_minimum = 0, ax_maximum = 65535, ax_flat = 0, ax_fuzz = 4\<rparr>
     else Some \<lparr>ax_minimum = VIRTUAL_AXIS_MIN, ax_maximum = VIRTUAL_AXIS_MAX, ax_flat = 256, ax_fuzz = 16\<rparr>)"


section \<open>Motion\<close>

datatype motion_kind =
  MotAccel | MotNunchuk | MotClassic | MotPro | MotGuitar | MotBalance | MotMotionPlus | MotDrums

text \<open>
  \<open>MappedMotion\<close> is an array of nine slots with a count; the model is the list of the slots
  in use, and \<open>push\<close> drops what does not fit, as the source does.
\<close>

type_synonym mapped_motion = "mapped_axis list"

definition motion_push :: "mapped_motion \<Rightarrow> nat \<Rightarrow> int \<Rightarrow> mapped_motion" where
  "motion_push out code v = (if length out < 9 then out @ [\<lparr>ma_code = code, ma_value = v\<rparr>] else out)"

definition motion_push_all :: "mapped_motion \<Rightarrow> mapped_axis list \<Rightarrow> mapped_motion" where
  "motion_push_all out axes = foldl (\<lambda>out a. motion_push out (ma_code a) (ma_value a)) out axes"

definition map_motion :: "motion_kind \<Rightarrow> abs3 list \<Rightarrow> mapped_motion" where
  "map_motion kind values =
    (case kind of
       MotAccel \<Rightarrow>
         motion_push_all [] (map_xyz (values ! 0) (ABS_THROTTLE, ABS_RUDDER, ABS_WHEEL) WIIMOTE_ACCEL_AXIS_EXTENT)
     | MotNunchuk \<Rightarrow>
         (let out = motion_push [] ABS_X
                (scale_signed_axis (abs_x (values ! 0)) NUNCHUK_STICK_AXIS_EXTENT NUNCHUK_STICK_AXIS_EXTENT);
              out = motion_push out ABS_Y
                (scale_signed_axis (abs_y (values ! 0)) NUNCHUK_STICK_AXIS_EXTENT NUNCHUK_STICK_AXIS_EXTENT)
          in motion_push_all out
               (map_xyz (values ! 1) (ABS_HAT1X, ABS_HAT1Y, ABS_HAT2X) WIIMOTE_ACCEL_AXIS_EXTENT))
     | MotGuitar \<Rightarrow>
         (let out = motion_push [] ABS_X
                (scale_signed_axis (abs_x (values ! 0)) RHYTHM_STICK_NEGATIVE_EXTENT RHYTHM_STICK_POSITIVE_EXTENT);
              out = motion_push out ABS_Y
                (scale_signed_axis (abs_y (values ! 0)) RHYTHM_STICK_NEGATIVE_EXTENT RHYTHM_STICK_POSITIVE_EXTENT);
              out = motion_push out ABS_HAT3X
                (scale_signed_axis (abs_x (values ! 1)) GUITAR_WHAMMY_NEGATIVE_EXTENT GUITAR_WHAMMY_POSITIVE_EXTENT)
          in motion_push out ABS_HAT3Y
               (scale_unsigned_axis (abs_x (values ! 2)) GUITAR_FRET_MAX VIRTUAL_TRIGGER_MAX))
     | MotBalance \<Rightarrow>
         foldl (\<lambda>out (i, code). motion_push out code (abs_x (values ! i))) []
           (List.enumerate 0 [ABS_PRESSURE, ABS_DISTANCE, ABS_TILT_X, ABS_TILT_Y])
     | MotMotionPlus \<Rightarrow>
         motion_push_all [] (map_xyz (values ! 0) (ABS_GAS, ABS_BRAKE, ABS_HAT0X) MOTION_PLUS_AXIS_EXTENT)
     | MotDrums \<Rightarrow>
         (let out = motion_push [] ABS_X
                (scale_signed_axis (abs_x (values ! 0)) RHYTHM_STICK_NEGATIVE_EXTENT RHYTHM_STICK_POSITIVE_EXTENT);
              out = motion_push out ABS_Y
                (scale_signed_axis (abs_y (values ! 0)) RHYTHM_STICK_NEGATIVE_EXTENT RHYTHM_STICK_POSITIVE_EXTENT)
          in foldl (\<lambda>out (i, v). motion_push out
                (case drums_abs_code i of Some c \<Rightarrow> c | None \<Rightarrow> 0) (scale_drums_pressure i (abs_x v)))
              out (drop 1 (List.enumerate 0 values)))
     | _ \<Rightarrow>
         (let extent = (if kind = MotClassic then CLASSIC_STICK_AXIS_EXTENT else PRO_STICK_AXIS_EXTENT);
              out = motion_push [] ABS_X (scale_signed_axis (abs_x (values ! 0)) extent extent);
              out = motion_push out ABS_Y (scale_signed_axis (abs_y (values ! 0)) extent extent);
              out = motion_push out ABS_RX (scale_signed_axis (abs_x (values ! 1)) extent extent);
              out = motion_push out ABS_RY (scale_signed_axis (abs_y (values ! 1)) extent extent)
          in if kind = MotClassic then
               let out = motion_push out ABS_Z
                     (scale_unsigned_axis (abs_x (values ! 2)) CLASSIC_TRIGGER_MAX VIRTUAL_TRIGGER_MAX)
               in motion_push out ABS_RZ
                     (scale_unsigned_axis (abs_y (values ! 2)) CLASSIC_TRIGGER_MAX VIRTUAL_TRIGGER_MAX)
             else out))"

section \<open>Scaling lemmas\<close>

text \<open>Extents of the size the tables use; no intermediate value wraps for them.\<close>

definition extent_ok :: "int \<Rightarrow> bool" where
  "extent_ok e \<longleftrightarrow> 0 < e \<and> e \<le> 100000"

text \<open>The three regions of a scaled axis, without the casts.\<close>

lemma scale_signed_axis_eq:
  assumes "extent_ok n" "extent_ok p"
  shows "scale_signed_axis v n p =
    (if v \<le> - n then - 32768 else if v \<ge> p then 32767
     else if v < 0 then (v * 32768) sdiv n else (v * 32767) sdiv p)"
proof -
  have n: "as_i32 (- n) = - n" using assms(1) by (intro as_i32_id) (auto simp: extent_ok_def in_i32_def)
  have fit: "as_i32 (as_i64 (v * k) sdiv e) = (v * k) sdiv e"
    if "\<bar>v\<bar> \<le> 100000" "0 \<le> k" "k \<le> 32768" "\<bar>(v * k) sdiv e\<bar> \<le> 32768" for k e
  proof -
    have "\<bar>v * k\<bar> \<le> 100000 * 32768" unfolding abs_mult using that by (intro mult_mono) auto
    then show ?thesis using that(4) by (simp add: as_i64_id in_i64_abs as_i32_id in_i32_abs)
  qed
  have neg: "- 32768 \<le> (v * 32768) sdiv n \<and> (v * 32768) sdiv n \<le> 0" if "- n < v" "v < 0"
    using that assms(1) by (intro sdiv_between) (auto simp: extent_ok_def)
  have pos: "0 \<le> (v * 32767) sdiv p \<and> (v * 32767) sdiv p \<le> 32767" if "0 \<le> v" "v < p"
    using that assms(2) by (intro sdiv_between) (auto simp: extent_ok_def)
  have m: "as_i32 32768 = 32768" by (simp add: as_i32_id in_i32_def)
  show ?thesis
    using assms fit [of 32768 n] fit [of 32767 p] neg pos
    by (auto simp: scale_signed_axis_def axis_consts extent_ok_def n m)
qed

lemma scale_signed_axis_range:
  assumes "extent_ok n" "extent_ok p"
  shows "- 32768 \<le> scale_signed_axis v n p \<and> scale_signed_axis v n p \<le> 32767"
    and "v \<le> 0 \<Longrightarrow> scale_signed_axis v n p \<le> 0" and "0 \<le> v \<Longrightarrow> 0 \<le> scale_signed_axis v n p"
proof -
  have neg: "- 32768 \<le> (v * 32768) sdiv n \<and> (v * 32768) sdiv n \<le> 0" if "- n < v" "v \<le> 0"
    using that assms(1) by (intro sdiv_between) (auto simp: extent_ok_def)
  have pos: "0 \<le> (v * 32767) sdiv p \<and> (v * 32767) sdiv p \<le> 32767" if "0 \<le> v" "v < p"
    using that assms(2) by (intro sdiv_between) (auto simp: extent_ok_def)
  show "- 32768 \<le> scale_signed_axis v n p \<and> scale_signed_axis v n p \<le> 32767"
    "v \<le> 0 \<Longrightarrow> scale_signed_axis v n p \<le> 0" "0 \<le> v \<Longrightarrow> 0 \<le> scale_signed_axis v n p"
    using neg pos assms unfolding scale_signed_axis_eq [OF assms] extent_ok_def
    by (auto simp: sdiv_nonneg)
qed

lemma scale_unsigned_axis_eq:
  assumes "extent_ok m" "0 \<le> t" "t \<le> 100000"
  shows "scale_unsigned_axis v m t = (if v \<le> 0 then 0 else if v \<ge> m then t else (v * t) sdiv m)"
    and "0 \<le> scale_unsigned_axis v m t \<and> scale_unsigned_axis v m t \<le> t"
proof -
  have mid: "0 \<le> (v * t) sdiv m \<and> (v * t) sdiv m \<le> t" if "0 < v" "v < m"
  proof (rule sdiv_between)
    show "0 < m" "0 * m \<le> v * t" using that assms by (auto simp: extent_ok_def)
    have "v * t \<le> m * t" using that assms by (intro mult_right_mono) auto
    then show "v * t \<le> t * m" by (simp add: mult.commute)
  qed
  have fit: "as_i32 (as_i64 (v * t) sdiv m) = (v * t) sdiv m" if "0 < v" "v < m"
  proof -
    have "\<bar>v * t\<bar> \<le> 100000 * 100000"
      unfolding abs_mult using that assms by (intro mult_mono) (auto simp: extent_ok_def)
    then show ?thesis using mid [OF that] assms by (simp add: as_i64_id in_i64_abs as_i32_id in_i32_def)
  qed
  show "scale_unsigned_axis v m t = (if v \<le> 0 then 0 else if v \<ge> m then t else (v * t) sdiv m)"
    using assms fit by (auto simp: scale_unsigned_axis_def extent_ok_def)
  then show "0 \<le> scale_unsigned_axis v m t \<and> scale_unsigned_axis v m t \<le> t"
    using mid assms by auto
qed

text \<open>
  Scaling of a stick or an accelerometer axis. For the extents of the tables the result
  stays in the virtual axis, preserves the order and the sign of the raw values, keeps the
  centre at zero, and reaches both (asymmetric) ends exactly at the raw extents.
\<close>

theorem scale_signed_axis_faithful:
  assumes "extent_ok n" and "extent_ok p" and "v \<le> w"
  shows "scale_signed_axis v n p \<le> scale_signed_axis w n p \<and>
    VIRTUAL_AXIS_MIN \<le> scale_signed_axis v n p \<and> scale_signed_axis w n p \<le> VIRTUAL_AXIS_MAX \<and>
    scale_signed_axis 0 n p = 0 \<and>
    scale_signed_axis (- n) n p = VIRTUAL_AXIS_MIN \<and> scale_signed_axis p n p = VIRTUAL_AXIS_MAX"
proof -
  note range = scale_signed_axis_range [OF assms(1,2)]
  have "scale_signed_axis v n p \<le> scale_signed_axis w n p"
  proof (cases "v < 0 \<and> 0 \<le> w")
    case True
    then show ?thesis using range(2) [of v] range(3) [of w] by linarith
  next
    case False
    have "v * 32768 \<le> w * 32768" "v * 32767 \<le> w * 32767" using assms(3) by simp_all
    then have "(v * 32768) sdiv n \<le> (w * 32768) sdiv n" "(v * 32767) sdiv p \<le> (w * 32767) sdiv p"
      using assms(1,2) by (simp_all add: sdiv_mono extent_ok_def)
    then show ?thesis
      using False assms(3) range(1) [of v] range(1) [of w]
      unfolding scale_signed_axis_eq [OF assms(1,2)] by (auto split: if_splits)
  qed
  moreover have "scale_signed_axis 0 n p = 0" "scale_signed_axis (- n) n p = - 32768"
    "scale_signed_axis p n p = 32767"
    using assms(1,2) unfolding scale_signed_axis_eq [OF assms(1,2)] by (auto simp: extent_ok_def)
  ultimately show ?thesis using range by (simp add: axis_consts)
qed

theorem scale_signed_axis_faithful_witness:
  "scale_signed_axis (- 5) 32 31 \<le> scale_signed_axis 7 32 31 \<and> scale_signed_axis 0 32 31 = 0"
  using scale_signed_axis_faithful [of 32 31 "- 5" 7] by (simp add: extent_ok_def)


section \<open>Tables\<close>

lemma map_button_inj: "map_button b = map_button c \<Longrightarrow> b = c"
proof -
  have "distinct (map map_button Button_ALL)" by code_simp
  then show "map_button b = map_button c \<Longrightarrow> b = c"
    by (simp add: distinct_map Button_ALL_UNIV inj_on_def)
qed

text \<open>
  The button table of the virtual controller: the advertised keys are the codes of the
  28 buttons, each advertised once and owned by one button; and \<open>map_key\<close> gives a logical
  number the code of the button that has this number, and gives other numbers none.
\<close>

theorem map_key_table:
  "distinct (cap_keys CONTROLLER_CAPABILITIES) \<and>
   set (cap_keys CONTROLLER_CAPABILITIES) = range map_button \<and>
   (map_button b = map_button c \<longleftrightarrow> b = c) \<and>
   (map_key n = Some k \<longleftrightarrow> (\<exists>b. Button_code b = n \<and> map_button b = k))"
proof -
  have "distinct CORE_KEYS" by code_simp
  moreover have "set CORE_KEYS = set (map map_button Button_ALL)" by code_simp
  then have "set CORE_KEYS = range map_button" by (simp add: Button_ALL_UNIV)
  moreover have "map_key n = Some k \<longleftrightarrow> (\<exists>b. Button_code b = n \<and> map_button b = k)"
    by (auto simp: map_key_def Button_from_code_iff)
  ultimately show ?thesis using map_button_inj by (auto simp: CONTROLLER_CAPABILITIES_def)
qed

section \<open>Motion lemmas\<close>

text \<open>The value of an axis is one the virtual device was created to accept.\<close>

definition axis_fits :: "mapped_axis \<Rightarrow> bool" where
  "axis_fits a \<longleftrightarrow>
    (\<exists>i. axis_info (ma_code a) = Some i \<and> ax_minimum i \<le> ma_value a \<and> ma_value a \<le> ax_maximum i)"

lemma motion_push_all_map:
  "length out + length axes \<le> 9 \<Longrightarrow> motion_push_all out axes = out @ axes"
  by (induction axes arbitrary: out) (simp_all add: motion_push_all_def motion_push_def)

lemma extents_ok:
  "extent_ok WIIMOTE_ACCEL_AXIS_EXTENT" "extent_ok NUNCHUK_STICK_AXIS_EXTENT"
  "extent_ok CLASSIC_STICK_AXIS_EXTENT" "extent_ok CLASSIC_TRIGGER_MAX" "extent_ok PRO_STICK_AXIS_EXTENT"
  "extent_ok RHYTHM_STICK_NEGATIVE_EXTENT" "extent_ok RHYTHM_STICK_POSITIVE_EXTENT"
  "extent_ok DRUM_PRESSURE_MAX" "extent_ok GUITAR_WHAMMY_NEGATIVE_EXTENT"
  "extent_ok GUITAR_WHAMMY_POSITIVE_EXTENT" "extent_ok GUITAR_FRET_MAX" "extent_ok MOTION_PLUS_AXIS_EXTENT"
  by (simp_all add: extent_ok_def axis_consts)

definition full_axes :: "nat list" where
  "full_axes = [ABS_X, ABS_Y, ABS_RX, ABS_RY, ABS_HAT3X, ABS_THROTTLE, ABS_RUDDER, ABS_WHEEL,
     ABS_GAS, ABS_BRAKE, ABS_HAT0X, ABS_HAT1X, ABS_HAT1Y, ABS_HAT2X]"

definition trigger_axes :: "nat list" where
  "trigger_axes = [ABS_Z, ABS_RZ, ABS_HAT3Y, ABS_MISC]"

definition weight_axes :: "nat list" where
  "weight_axes = [ABS_PRESSURE, ABS_DISTANCE, ABS_TILT_X, ABS_TILT_Y]"

lemma axis_info_groups:
  "c \<in> set full_axes \<Longrightarrow> axis_info c =
     Some \<lparr>ax_minimum = -32768, ax_maximum = 32767, ax_flat = 256, ax_fuzz = 16\<rparr>"
  "c \<in> set trigger_axes \<Longrightarrow> axis_info c =
     Some \<lparr>ax_minimum = 0, ax_maximum = 1023, ax_flat = 0, ax_fuzz = 4\<rparr>"
  "c \<in> set weight_axes \<Longrightarrow> axis_info c =
     Some \<lparr>ax_minimum = 0, ax_maximum = 65535, ax_flat = 0, ax_fuzz = 4\<rparr>"
  by (auto simp: full_axes_def trigger_axes_def weight_axes_def axis_info_def CORE_AXES_def code_consts axis_consts)

lemma fits_full: "c \<in> set full_axes \<Longrightarrow> extent_ok n \<Longrightarrow> extent_ok p \<Longrightarrow>
    axis_fits \<lparr>ma_code = c, ma_value = scale_signed_axis v n p\<rparr>"
  using scale_signed_axis_range(1) [of n p v] by (simp add: axis_fits_def axis_info_groups)

lemma fits_trigger: "c \<in> set trigger_axes \<Longrightarrow> extent_ok m \<Longrightarrow>
    axis_fits \<lparr>ma_code = c, ma_value = scale_unsigned_axis v m VIRTUAL_TRIGGER_MAX\<rparr>"
  using scale_unsigned_axis_eq(2) [of m 1023 v] by (simp add: axis_fits_def axis_info_groups axis_consts)

lemma fits_pressure: "c \<in> set full_axes \<Longrightarrow> extent_ok m \<Longrightarrow>
    axis_fits \<lparr>ma_code = c, ma_value = scale_unsigned_axis v m VIRTUAL_AXIS_MAX\<rparr>"
  using scale_unsigned_axis_eq(2) [of m 32767 v] by (simp add: axis_fits_def axis_info_groups axis_consts)

lemma axis_groups [simp]:
  "ABS_X \<in> set full_axes" "ABS_Y \<in> set full_axes" "ABS_RX \<in> set full_axes" "ABS_RY \<in> set full_axes"
  "ABS_HAT3X \<in> set full_axes" "ABS_THROTTLE \<in> set full_axes" "ABS_RUDDER \<in> set full_axes"
  "ABS_WHEEL \<in> set full_axes" "ABS_GAS \<in> set full_axes" "ABS_BRAKE \<in> set full_axes"
  "ABS_HAT0X \<in> set full_axes" "ABS_HAT1X \<in> set full_axes" "ABS_HAT1Y \<in> set full_axes"
  "ABS_HAT2X \<in> set full_axes" "ABS_Z \<in> set trigger_axes" "ABS_RZ \<in> set trigger_axes"
  "ABS_HAT3Y \<in> set trigger_axes" "ABS_MISC \<in> set trigger_axes"
  by (simp_all add: full_axes_def trigger_axes_def)

definition motion_codes :: "motion_kind \<Rightarrow> nat list" where
  "motion_codes kind =
    (case kind of
       MotAccel \<Rightarrow> [ABS_THROTTLE, ABS_RUDDER, ABS_WHEEL]
     | MotNunchuk \<Rightarrow> [ABS_X, ABS_Y, ABS_HAT1X, ABS_HAT1Y, ABS_HAT2X]
     | MotClassic \<Rightarrow> [ABS_X, ABS_Y, ABS_RX, ABS_RY, ABS_Z, ABS_RZ]
     | MotPro \<Rightarrow> [ABS_X, ABS_Y, ABS_RX, ABS_RY]
     | MotGuitar \<Rightarrow> [ABS_X, ABS_Y, ABS_HAT3X, ABS_HAT3Y]
     | MotBalance \<Rightarrow> [ABS_PRESSURE, ABS_DISTANCE, ABS_TILT_X, ABS_TILT_Y]
     | MotMotionPlus \<Rightarrow> [ABS_GAS, ABS_BRAKE, ABS_HAT0X]
     | MotDrums \<Rightarrow> [ABS_X, ABS_Y, ABS_RX, ABS_RY, ABS_Z, ABS_RZ, ABS_HAT3X, ABS_HAT3Y, ABS_MISC])"

lemma eight_values: "length values = 8 \<Longrightarrow> \<exists>a b c d e f g h. values = [a, b, c, d, e, f, g, h]"
  by (auto simp: numeral_eq_Suc length_Suc_conv)

lemma map_motion_drums:
  "map_motion MotDrums [a, b, c, d, e, f, g, h] =
    [\<lparr>ma_code = ABS_X, ma_value = scale_signed_axis (abs_x a) RHYTHM_STICK_NEGATIVE_EXTENT RHYTHM_STICK_POSITIVE_EXTENT\<rparr>,
     \<lparr>ma_code = ABS_Y, ma_value = scale_signed_axis (abs_y a) RHYTHM_STICK_NEGATIVE_EXTENT RHYTHM_STICK_POSITIVE_EXTENT\<rparr>,
     \<lparr>ma_code = ABS_RX, ma_value = scale_unsigned_axis (abs_x b) DRUM_PRESSURE_MAX VIRTUAL_AXIS_MAX\<rparr>,
     \<lparr>ma_code = ABS_RY, ma_value = scale_unsigned_axis (abs_x c) DRUM_PRESSURE_MAX VIRTUAL_AXIS_MAX\<rparr>,
     \<lparr>ma_code = ABS_Z, ma_value = scale_unsigned_axis (abs_x d) DRUM_PRESSURE_MAX VIRTUAL_TRIGGER_MAX\<rparr>,
     \<lparr>ma_code = ABS_RZ, ma_value = scale_unsigned_axis (abs_x e) DRUM_PRESSURE_MAX VIRTUAL_TRIGGER_MAX\<rparr>,
     \<lparr>ma_code = ABS_HAT3X, ma_value = scale_unsigned_axis (abs_x f) DRUM_PRESSURE_MAX VIRTUAL_AXIS_MAX\<rparr>,
     \<lparr>ma_code = ABS_HAT3Y, ma_value = scale_unsigned_axis (abs_x g) DRUM_PRESSURE_MAX VIRTUAL_TRIGGER_MAX\<rparr>,
     \<lparr>ma_code = ABS_MISC, ma_value = scale_unsigned_axis (abs_x h) DRUM_PRESSURE_MAX VIRTUAL_TRIGGER_MAX\<rparr>]"
  by (simp add: map_motion_def motion_push_def drums_abs_code_def table_get_def scale_drums_pressure_def)

lemma map_motion_codes: "length values = 8 \<Longrightarrow> map ma_code (map_motion kind values) = motion_codes kind"
proof -
  assume "length values = 8"
  then obtain a b c d e f g h where v: "values = [a, b, c, d, e, f, g, h]" using eight_values by blast
  show ?thesis
  proof (cases kind)
    case MotDrums
    then show ?thesis by (simp add: v map_motion_drums motion_codes_def)
  qed (simp_all add: v map_motion_def motion_push_all_map map_xyz_def motion_push_def motion_codes_def)
qed

lemma fits_weight: "c \<in> set weight_axes \<Longrightarrow> 0 \<le> v \<Longrightarrow> v \<le> 65535 \<Longrightarrow>
    axis_fits \<lparr>ma_code = c, ma_value = v\<rparr>"
  by (simp add: axis_fits_def axis_info_groups)

lemma below_four: "\<forall>i < 4. P i \<Longrightarrow> P 0 \<and> P 1 \<and> P 2 \<and> P (3::nat)"
  by simp

lemma map_motion_fits:
  assumes "length values = 8"
    and "kind = MotBalance \<longrightarrow> (\<forall>i < 4. 0 \<le> abs_x (values ! i) \<and> abs_x (values ! i) \<le> 65535)"
  shows "list_all axis_fits (map_motion kind values)"
proof -
  obtain a b c d e f g h where v: "values = [a, b, c, d, e, f, g, h]"
    using assms(1) eight_values by blast
  show ?thesis
  proof (cases kind)
    case MotDrums
    then show ?thesis by (simp add: v map_motion_drums fits_full fits_trigger fits_pressure extents_ok)
  next
    case MotBalance
    then have "\<forall>i < 4. 0 \<le> abs_x (values ! i) \<and> abs_x (values ! i) \<le> 65535" using assms(2) by simp
    from below_four [OF this] have "0 \<le> abs_x a \<and> abs_x a \<le> 65535" "0 \<le> abs_x b \<and> abs_x b \<le> 65535"
      "0 \<le> abs_x c \<and> abs_x c \<le> 65535" "0 \<le> abs_x d \<and> abs_x d \<le> 65535"
      unfolding v by simp_all
    then show ?thesis
      using MotBalance
      by (simp add: v map_motion_def motion_push_def fits_weight weight_axes_def)
  qed (simp_all add: v map_motion_def motion_push_all_map map_xyz_def motion_push_def fits_full
      fits_trigger extents_ok)
qed

text \<open>
  \<open>map_motion\<close> emits, for every kind of event, a fixed list of distinct axes the virtual
  controller advertises, and every value lies within the range the axis was created with.
  For the balance board, whose sensors are passed on unscaled, this needs its readings to
  fit sixteen bits, as the hardware's do.
\<close>

theorem map_motion_in_range:
  assumes "length values = 8"
    and "kind = MotBalance \<longrightarrow> (\<forall>i < 4. 0 \<le> abs_x (values ! i) \<and> abs_x (values ! i) \<le> 65535)"
  shows "map ma_code (map_motion kind values) = motion_codes kind \<and>
    distinct (map ma_code (map_motion kind values)) \<and>
    set (map ma_code (map_motion kind values)) \<subseteq> set (cap_axes CONTROLLER_CAPABILITIES) \<and>
    list_all axis_fits (map_motion kind values)"
proof -
  have "distinct (motion_codes kind)" "set (motion_codes kind) \<subseteq> set (cap_axes CONTROLLER_CAPABILITIES)"
    by (cases kind; simp add: motion_codes_def CONTROLLER_CAPABILITIES_def CORE_AXES_def code_consts)+
  then show ?thesis using map_motion_codes [OF assms(1)] map_motion_fits [OF assms] by simp
qed

theorem map_motion_in_range_witness:
  "list_all axis_fits (map_motion MotDrums (replicate 8 \<lparr>abs_x = - 40, abs_y = 3, abs_z = 0\<rparr>)) \<and>
   list_all axis_fits (map_motion MotBalance (replicate 8 \<lparr>abs_x = 1000, abs_y = 0, abs_z = 0\<rparr>))"
  using map_motion_in_range [of "replicate 8 \<lparr>abs_x = - 40, abs_y = 3, abs_z = 0\<rparr>" MotDrums]
    map_motion_in_range [of "replicate 8 \<lparr>abs_x = 1000, abs_y = 0, abs_z = 0\<rparr>" MotBalance]
  by simp

end
