(* ===== verification/Aim.thy ===== *)
theory Aim
  imports Pointer Input
begin

text \<open>
  Motion aiming: \<open>crates/wiiland-core/src/aim.rs\<close>. One \<open>AimState\<close> chooses between infrared,
  MotionPlus and accelerometer samples, applies dead zone, sensitivity, inversion and
  smoothing, and forgets its baselines whenever aiming is released or its source is lost.
  Every method is a function from the state to the new state and its \<open>AimResult\<close>.
\<close>

section \<open>State\<close>

record aim_vector =
  av_x :: int
  av_y :: int

record aim_result =
  ar_output :: "aim_vector option"
  ar_reset :: bool

definition AimResult_NONE :: aim_result where
  "AimResult_NONE = \<lparr>ar_output = None, ar_reset = False\<rparr>"

definition AimResult_reset :: aim_result where
  "AimResult_reset = \<lparr>ar_output = Some \<lparr>av_x = 0, av_y = 0\<rparr>, ar_reset = True\<rparr>"

record aim_config =
  ac_output :: aim_mode
  ac_source :: aim_source
  ac_activation :: aim_activation
  ac_sensitivity :: int
  ac_deadzone :: int
  ac_smoothing :: int
  ac_invert_x :: bool
  ac_invert_y :: bool
  ac_ir_mapping :: ir_aim_mapping
  ac_ir_screen :: "ir_rectangle option"
  ac_accel_calibration :: "sensor_calibration option"
  ac_motion_plus_calibration :: "sensor_calibration option"

definition AimConfig_from_config :: "config \<Rightarrow> aim_config" where
  "AimConfig_from_config c =
    \<lparr>ac_output = cfg_aim_mode c, ac_source = cfg_aim_source c, ac_activation = cfg_aim_activation c,
     ac_sensitivity = cfg_aim_sensitivity c, ac_deadzone = cfg_aim_deadzone c,
     ac_smoothing = cfg_aim_smoothing c, ac_invert_x = cfg_aim_invert_x c,
     ac_invert_y = cfg_aim_invert_y c, ac_ir_mapping = cfg_ir_aim_mapping c,
     ac_ir_screen = cfg_ir_screen c, ac_accel_calibration = cfg_aim_accel_zero c,
     ac_motion_plus_calibration = cfg_aim_motion_plus_bias c\<rparr>"

definition AimConfig_default :: aim_config where
  "AimConfig_default =
    \<lparr>ac_output = AimOff, ac_source = SourceAuto, ac_activation = ActB, ac_sensitivity = 16,
     ac_deadzone = 4, ac_smoothing = 25, ac_invert_x = False, ac_invert_y = False,
     ac_ir_mapping = MapRelative, ac_ir_screen = None, ac_accel_calibration = None,
     ac_motion_plus_calibration = None\<rparr>"

record aim_state =
  aim_config :: aim_config
  aim_held :: bool
  aim_active_source :: "aim_source option"
  aim_ir_active :: bool
  aim_ir_x :: int
  aim_ir_y :: int
  aim_accel_zeroed :: bool
  aim_accel_zero_x :: int
  aim_accel_zero_y :: int
  aim_accel_zero_z :: int
  aim_last_x :: int
  aim_last_y :: int

definition AimState_new :: "aim_config \<Rightarrow> aim_state" where
  "AimState_new config =
    \<lparr>aim_config = config, aim_held = False, aim_active_source = None, aim_ir_active = False,
     aim_ir_x = 0, aim_ir_y = 0, aim_accel_zeroed = False, aim_accel_zero_x = 0,
     aim_accel_zero_y = 0, aim_accel_zero_z = 0, aim_last_x = 0, aim_last_y = 0\<rparr>"

definition aim_enabled :: "aim_state \<Rightarrow> bool" where
  "aim_enabled s \<longleftrightarrow> ac_output (aim_config s) \<noteq> AimOff"

definition aim_is_active :: "aim_state \<Rightarrow> bool" where
  "aim_is_active s \<longleftrightarrow> aim_enabled s \<and> (ac_activation (aim_config s) = ActAlways \<or> aim_held s)"


section \<open>Operations\<close>

definition aim_reset :: "aim_state \<Rightarrow> aim_state \<times> aim_result" where
  "aim_reset s =
    (s\<lparr>aim_active_source := None, aim_ir_active := False, aim_accel_zeroed := False,
       aim_last_x := 0, aim_last_y := 0\<rparr>, AimResult_reset)"

definition aim_reset_session :: "aim_state \<Rightarrow> aim_state \<times> aim_result" where
  "aim_reset_session s = aim_reset (s\<lparr>aim_held := False\<rparr>)"

definition U32_MAX :: nat where "U32_MAX = 4294967295"

definition activation_key :: "aim_state \<Rightarrow> nat \<Rightarrow> bool \<Rightarrow> aim_state \<times> aim_result" where
  "activation_key s key is_pressed =
    (if \<not> aim_enabled s then (s, AimResult_NONE)
     else if ac_activation (aim_config s) = ActAlways then (s\<lparr>aim_held := True\<rparr>, AimResult_NONE)
     else
       let expected = (case ac_activation (aim_config s) of
             ActB \<Rightarrow> Button_code BtnB | ActZ \<Rightarrow> Button_code BtnZ | ActC \<Rightarrow> Button_code BtnC
           | ActAlways \<Rightarrow> U32_MAX)
       in if key \<noteq> expected then (s, AimResult_NONE)
          else if aim_held s \<and> \<not> is_pressed then aim_reset (s\<lparr>aim_held := is_pressed\<rparr>)
          else (s\<lparr>aim_held := is_pressed\<rparr>, AimResult_NONE))"

definition aim_accepts :: "aim_state \<Rightarrow> aim_source \<Rightarrow> bool" where
  "aim_accepts s source =
    (if ac_source (aim_config s) \<noteq> SourceAuto then ac_source (aim_config s) = source
     else if source = SourceIr then True
     else if aim_active_source s = Some SourceIr then False
     else if source = SourceMotionPlus then True
     else aim_active_source s \<noteq> Some SourceMotionPlus \<or> source \<noteq> SourceAccelerometer)"

definition aim_scale :: "aim_config \<Rightarrow> int \<Rightarrow> int" where
  "aim_scale c v =
    (let magnitude = as_i64 \<bar>v\<bar>
     in if magnitude \<le> ac_deadzone c then 0
        else
          let scaled = as_i64 (as_i64 (magnitude - ac_deadzone c) * ac_sensitivity c) sdiv 16;
              scaled = as_i32 (min scaled 32767)
          in if v < 0 then as_i32 (- scaled) else scaled)"

definition aim_smooth :: "aim_state \<Rightarrow> aim_vector \<Rightarrow> aim_state \<times> aim_vector" where
  "aim_smooth s v =
    (let smoothing = ac_smoothing (aim_config s)
     in if smoothing = 0 then (s\<lparr>aim_last_x := av_x v, aim_last_y := av_y v\<rparr>, v)
        else
          let x = smooth_axis (aim_last_x s) (av_x v) smoothing;
              y = smooth_axis (aim_last_y s) (av_y v) smoothing
          in (s\<lparr>aim_last_x := x, aim_last_y := y\<rparr>, \<lparr>av_x = x, av_y = y\<rparr>))"

definition aim_emit :: "aim_state \<Rightarrow> aim_vector \<Rightarrow> aim_state \<times> aim_result" where
  "aim_emit s v =
    (if \<not> aim_is_active s then aim_reset s
     else
       let v = (if ac_invert_x (aim_config s) then v\<lparr>av_x := as_i32 (- av_x v)\<rparr> else v);
           v = (if ac_invert_y (aim_config s) then v\<lparr>av_y := as_i32 (- av_y v)\<rparr> else v)
       in case aim_smooth s v of (s', out) \<Rightarrow> (s', \<lparr>ar_output = Some out, ar_reset = False\<rparr>))"

definition scale_ir_absolute_axis :: "int \<Rightarrow> int \<Rightarrow> int \<Rightarrow> int" where
  "scale_ir_absolute_axis v lo hi =
    (let center = as_i64 (lo + hi) sdiv 2; half_range = as_i64 (hi - lo) sdiv 2
     in if half_range \<le> 0 then 0
        else as_i32 (clamp (- 32767) 32767
               (as_i64 (as_i64 (v - center) * 32767) sdiv half_range)))"

definition absolute_screen :: "aim_config \<Rightarrow> ir_rectangle option" where
  "absolute_screen c =
    (case ac_ir_screen c of
       None \<Rightarrow> None
     | Some r \<Rightarrow>
         if rect_right r > rect_left r \<and> rect_bottom r > rect_top r \<and> ac_ir_mapping c = MapAbsolute
         then Some r else None)"

definition process_ir :: "aim_state \<Rightarrow> ir_point option \<Rightarrow> aim_state \<times> aim_result" where
  "process_ir s point =
    (case (case point of None \<Rightarrow> None | Some p \<Rightarrow> if pt_valid p then Some p else None) of
       None \<Rightarrow>
         if aim_active_source s = Some SourceIr then aim_reset s
         else (s\<lparr>aim_ir_active := False\<rparr>, AimResult_NONE)
     | Some p \<Rightarrow>
         if \<not> aim_accepts s SourceIr then (s, AimResult_NONE)
         else
           let c = aim_config s;
               v = (case absolute_screen c of
                      Some r \<Rightarrow>
                        \<lparr>av_x = aim_scale c (scale_ir_absolute_axis (pt_x p) (rect_left r) (rect_right r)),
                         av_y = aim_scale c (scale_ir_absolute_axis (pt_y p) (rect_top r) (rect_bottom r))\<rparr>
                    | None \<Rightarrow>
                        if aim_ir_active s
                        then \<lparr>av_x = aim_scale c (as_i32 (pt_x p - aim_ir_x s)),
                              av_y = aim_scale c (as_i32 (pt_y p - aim_ir_y s))\<rparr>
                        else \<lparr>av_x = 0, av_y = 0\<rparr>)
           in aim_emit (s\<lparr>aim_ir_active := True, aim_ir_x := pt_x p, aim_ir_y := pt_y p,
                          aim_active_source := Some SourceIr\<rparr>) v)"

definition ready_calibration :: "sensor_calibration option \<Rightarrow> sensor_calibration option" where
  "ready_calibration c =
    (case c of None \<Rightarrow> None | Some k \<Rightarrow> if cal_axes k = CAL_ALL then Some k else None)"

text \<open>A sample is the triple of its axes.\<close>

type_synonym sample3 = "int \<times> int \<times> int"

definition process_motion_plus :: "aim_state \<Rightarrow> sample3 \<Rightarrow> aim_state \<times> aim_result" where
  "process_motion_plus s sample =
    (case sample of (x, y, z) \<Rightarrow>
      if \<not> aim_accepts s SourceMotionPlus then (s, AimResult_NONE)
      else
        let (x, y) = (case ready_calibration (ac_motion_plus_calibration (aim_config s)) of
                        Some c \<Rightarrow> (as_i32 (x - cal_x c), as_i32 (y - cal_y c))
                      | None \<Rightarrow> (x, y));
            s' = s\<lparr>aim_active_source := Some SourceMotionPlus\<rparr>
        in aim_emit s' \<lparr>av_x = aim_scale (aim_config s') x, av_y = aim_scale (aim_config s') y\<rparr>)"

definition process_accelerometer :: "aim_state \<Rightarrow> sample3 \<Rightarrow> aim_state \<times> aim_result" where
  "process_accelerometer s sample =
    (case sample of (x, y, z) \<Rightarrow>
      let track = (\<lambda>s. let s' = s\<lparr>aim_active_source := Some SourceAccelerometer\<rparr>
             in aim_emit s' \<lparr>av_x = aim_scale (aim_config s') (as_i32 (x - aim_accel_zero_x s')),
                             av_y = aim_scale (aim_config s') (as_i32 (y - aim_accel_zero_y s'))\<rparr>)
      in if \<not> aim_accepts s SourceAccelerometer then (s, AimResult_NONE)
         else case ready_calibration (ac_accel_calibration (aim_config s)) of
           Some c \<Rightarrow> track (s\<lparr>aim_accel_zero_x := cal_x c, aim_accel_zero_y := cal_y c,
                              aim_accel_zero_z := cal_z c, aim_accel_zeroed := True\<rparr>)
         | None \<Rightarrow>
             if \<not> aim_accel_zeroed s
             then (s\<lparr>aim_accel_zero_x := x, aim_accel_zero_y := y, aim_accel_zero_z := z,
                     aim_accel_zeroed := True, aim_active_source := Some SourceAccelerometer\<rparr>,
                   AimResult_NONE)
             else track s)"


section \<open>Histories\<close>

text \<open>The calls the engine makes on one \<open>AimState\<close>, as the inputs of a machine.\<close>

datatype aim_event =
    AimIr "ir_point option"
  | AimMotionPlus sample3
  | AimAccelerometer sample3
  | AimKey nat bool
  | AimNewSession

fun aim_step :: "aim_state \<Rightarrow> aim_event \<Rightarrow> aim_state \<times> aim_result list" where
  "aim_step s (AimIr p) = (case process_ir s p of (s', r) \<Rightarrow> (s', [r]))"
| "aim_step s (AimMotionPlus v) = (case process_motion_plus s v of (s', r) \<Rightarrow> (s', [r]))"
| "aim_step s (AimAccelerometer v) = (case process_accelerometer s v of (s', r) \<Rightarrow> (s', [r]))"
| "aim_step s (AimKey k p) = (case activation_key s k p of (s', r) \<Rightarrow> (s', [r]))"
| "aim_step s AimNewSession = (case aim_reset_session s of (s', r) \<Rightarrow> (s', [r]))"

section \<open>Scaling\<close>

text \<open>The options of a validated configuration.\<close>

definition aim_cfg_ok :: "aim_config \<Rightarrow> bool" where
  "aim_cfg_ok c \<longleftrightarrow>
    between 1 127 (ac_sensitivity c) \<and> between 0 32767 (ac_deadzone c) \<and> between 0 95 (ac_smoothing c)"

lemma config_ok_aim: "config_ok c \<Longrightarrow> aim_cfg_ok (AimConfig_from_config c)"
  by (simp add: config_ok_def aim_cfg_ok_def AimConfig_from_config_def)

text \<open>The magnitude of a scaled value, without the casts.\<close>

definition aim_magnitude :: "aim_config \<Rightarrow> int \<Rightarrow> int" where
  "aim_magnitude c m =
    (if m \<le> ac_deadzone c then 0 else min (((m - ac_deadzone c) * ac_sensitivity c) div 16) 32767)"

lemma aim_magnitude_bounds:
  assumes "aim_cfg_ok c" shows "0 \<le> aim_magnitude c m \<and> aim_magnitude c m \<le> 32767"
  using assms by (auto simp: aim_magnitude_def aim_cfg_ok_def between_def pos_imp_zdiv_nonneg_iff)

lemma aim_magnitude_mono:
  assumes "aim_cfg_ok c" "m \<le> m'" shows "aim_magnitude c m \<le> aim_magnitude c m'"
proof (cases "m \<le> ac_deadzone c")
  case True
  then show ?thesis using aim_magnitude_bounds [OF assms(1), of m'] by (simp add: aim_magnitude_def)
next
  case False
  have "(m - ac_deadzone c) * ac_sensitivity c \<le> (m' - ac_deadzone c) * ac_sensitivity c"
    using assms by (intro mult_right_mono) (auto simp: aim_cfg_ok_def between_def)
  then have "((m - ac_deadzone c) * ac_sensitivity c) div 16 \<le> ((m' - ac_deadzone c) * ac_sensitivity c) div 16"
    by (rule zdiv_mono1) simp
  then show ?thesis using False assms(2) by (simp add: aim_magnitude_def min.coboundedI1)
qed

lemma aim_scale_eq:
  assumes "aim_cfg_ok c" "in_i32 v"
  shows "aim_scale c v = (if v < 0 then - aim_magnitude c \<bar>v\<bar> else aim_magnitude c \<bar>v\<bar>)"
proof -
  define d where "d = \<bar>v\<bar> - ac_deadzone c"
  have v: "\<bar>v\<bar> \<le> 2147483648" using assms(2) by (auto simp: in_i32_def)
  have m: "as_i64 \<bar>v\<bar> = \<bar>v\<bar>" using v by (intro as_i64_id in_i64_abs) simp
  have dz: "0 \<le> ac_deadzone c" "ac_deadzone c \<le> 32767" "1 \<le> ac_sensitivity c" "ac_sensitivity c \<le> 127"
    using assms(1) by (auto simp: aim_cfg_ok_def between_def)
  show ?thesis
  proof (cases "\<bar>v\<bar> \<le> ac_deadzone c")
    case True
    then show ?thesis by (simp add: aim_scale_def m aim_magnitude_def)
  next
    case False
    then have d: "0 < d" "d \<le> 2147483648" using v dz by (auto simp: d_def)
    have p: "0 \<le> d * ac_sensitivity c" "d * ac_sensitivity c \<le> 2147483648 * 127"
      using d dz by (simp, intro mult_mono, auto)
    have "as_i64 (as_i64 d * ac_sensitivity c) = d * ac_sensitivity c"
      using d p by (simp add: as_i64_id in_i64_def)
    moreover have "d * ac_sensitivity c sdiv 16 = d * ac_sensitivity c div 16"
      using p by (simp add: sdiv_nonneg)
    moreover have "as_i32 (min (d * ac_sensitivity c div 16) 32767) = min (d * ac_sensitivity c div 16) 32767"
    proof -
      have "0 \<le> d * ac_sensitivity c div 16" using p by (simp add: pos_imp_zdiv_nonneg_iff)
      then show ?thesis by (intro as_i32_id) (auto simp: in_i32_def)
    qed
    moreover have "as_i32 (- (min (d * ac_sensitivity c div 16) 32767)) = - (min (d * ac_sensitivity c div 16) 32767)"
    proof -
      have "0 \<le> d * ac_sensitivity c div 16" using p by (simp add: pos_imp_zdiv_nonneg_iff)
      then show ?thesis by (intro as_i32_id) (auto simp: in_i32_def)
    qed
    ultimately show ?thesis
      using False unfolding aim_scale_def aim_magnitude_def m Let_def d_def [symmetric]
      by (auto simp: abs_le_iff)
  qed
qed

lemma aim_scale_bound:
  assumes "aim_cfg_ok c" "in_i32 v" shows "\<bar>aim_scale c v\<bar> \<le> 32767"
  using aim_magnitude_bounds [OF assms(1), of "\<bar>v\<bar>"] unfolding aim_scale_eq [OF assms]
  by (cases "v < 0") simp_all

text \<open>
  The response curve of aiming: no output inside the dead zone, symmetric around zero,
  never reversing the order of two inputs, and saturating at the range of a stick.
\<close>

theorem aim_scale_curve:
  assumes "aim_cfg_ok c" and "in_i32 v" and "in_i32 w" and "in_i32 (- v)"
  shows "(\<bar>v\<bar> \<le> ac_deadzone c \<longrightarrow> aim_scale c v = 0) \<and>
    aim_scale c (- v) = - aim_scale c v \<and>
    (v \<le> w \<longrightarrow> aim_scale c v \<le> aim_scale c w) \<and>
    \<bar>aim_scale c v\<bar> \<le> 32767"
proof -
  note mono = aim_magnitude_mono [OF assms(1)] and bnd = aim_magnitude_bounds [OF assms(1)]
  have zero: "aim_magnitude c 0 = 0"
    using assms(1) by (simp add: aim_magnitude_def aim_cfg_ok_def between_def)
  have "aim_scale c (- v) = - aim_scale c v"
    unfolding aim_scale_eq [OF assms(1,2)] aim_scale_eq [OF assms(1,4)]
    using zero by (cases v "0 :: int" rule: linorder_cases) simp_all
  moreover have "v \<le> w \<longrightarrow> aim_scale c v \<le> aim_scale c w"
    using mono [of "\<bar>v\<bar>" "\<bar>w\<bar>"] mono [of "\<bar>w\<bar>" "\<bar>v\<bar>"] bnd [of "\<bar>v\<bar>"] bnd [of "\<bar>w\<bar>"]
    by (auto simp: aim_scale_eq [OF assms(1,2)] aim_scale_eq [OF assms(1,3)])
  ultimately show ?thesis
    using aim_scale_bound [OF assms(1,2)] aim_scale_eq [OF assms(1,2)]
    by (simp add: aim_magnitude_def)
qed

theorem aim_scale_curve_witness:
  "aim_scale AimConfig_default (- 100) = - aim_scale AimConfig_default 100"
  using aim_scale_curve [of AimConfig_default 100 0]
  by (simp add: aim_cfg_ok_def AimConfig_default_def between_def in_i32_def)


section \<open>The invariant\<close>

definition aim_inv :: "aim_state \<Rightarrow> bool" where
  "aim_inv s \<longleftrightarrow> aim_cfg_ok (aim_config s) \<and> \<bar>aim_last_x s\<bar> \<le> 32767 \<and> \<bar>aim_last_y s\<bar> \<le> 32767"

definition aim_result_ok :: "aim_result \<Rightarrow> bool" where
  "aim_result_ok r \<longleftrightarrow>
    (\<forall>v. ar_output r = Some v \<longrightarrow> \<bar>av_x v\<bar> \<le> 32767 \<and> \<bar>av_y v\<bar> \<le> 32767) \<and>
    (ar_reset r \<longrightarrow> ar_output r = Some \<lparr>av_x = 0, av_y = 0\<rparr>)"

fun sample_ok :: "sample3 \<Rightarrow> bool" where
  "sample_ok (x, y, z) \<longleftrightarrow> in_i32 x \<and> in_i32 y \<and> in_i32 z"

fun aim_event_ok :: "aim_event \<Rightarrow> bool" where
  "aim_event_ok (AimIr p) \<longleftrightarrow> (\<forall>q. p = Some q \<longrightarrow> in_i32 (pt_x q) \<and> in_i32 (pt_y q))"
| "aim_event_ok (AimMotionPlus v) \<longleftrightarrow> sample_ok v"
| "aim_event_ok (AimAccelerometer v) \<longleftrightarrow> sample_ok v"
| "aim_event_ok (AimKey k p) \<longleftrightarrow> True"
| "aim_event_ok AimNewSession \<longleftrightarrow> True"

text \<open>A method keeps the invariant and answers within range.\<close>

definition aim_good :: "aim_state \<times> aim_result \<Rightarrow> bool" where
  "aim_good sr \<longleftrightarrow> aim_inv (fst sr) \<and> aim_result_ok (snd sr)"

lemma aim_result_ok_consts [simp]: "aim_result_ok AimResult_NONE" "aim_result_ok AimResult_reset"
  by (simp_all add: aim_result_ok_def AimResult_NONE_def AimResult_reset_def)

lemma aim_reset_good: "aim_inv s \<Longrightarrow> aim_good (aim_reset s)"
  by (simp add: aim_good_def aim_reset_def aim_inv_def)

lemma smooth_axis_stick:
  "\<bar>p\<bar> \<le> 32767 \<Longrightarrow> \<bar>c\<bar> \<le> 32767 \<Longrightarrow> between 0 95 s \<Longrightarrow> \<bar>smooth_axis p c s\<bar> \<le> 32767"
  using smooth_axis_between [of p c s] by (auto simp: ir_coord_def abs_le_iff)

lemma aim_smooth_bound:
  "aim_inv s \<Longrightarrow> \<bar>av_x v\<bar> \<le> 32767 \<Longrightarrow> \<bar>av_y v\<bar> \<le> 32767 \<Longrightarrow> aim_smooth s v = (s', w) \<Longrightarrow>
   aim_inv s' \<and> \<bar>av_x w\<bar> \<le> 32767 \<and> \<bar>av_y w\<bar> \<le> 32767"
  using smooth_axis_stick
  by (auto simp: aim_smooth_def Let_def aim_inv_def aim_cfg_ok_def split: if_splits)

lemma aim_emit_good:
  assumes "aim_inv s" "\<bar>av_x v\<bar> \<le> 32767" "\<bar>av_y v\<bar> \<le> 32767"
  shows "aim_good (aim_emit s v)"
proof -
  have neg: "as_i32 (- x) = - x" if "\<bar>x\<bar> \<le> 32767" for x
    using that by (intro as_i32_id in_i32_abs) simp
  have "aim_good (case aim_smooth s w of (s', out) \<Rightarrow> (s', \<lparr>ar_output = Some out, ar_reset = False\<rparr>))"
    if "\<bar>av_x w\<bar> \<le> 32767" "\<bar>av_y w\<bar> \<le> 32767" for w
    using aim_smooth_bound [OF assms(1) that]
    by (cases "aim_smooth s w") (simp add: aim_good_def aim_result_ok_def)
  then show ?thesis
    using assms aim_reset_good [OF assms(1)] by (simp add: aim_emit_def Let_def neg)
qed

lemma scaled_vector_good:
  assumes "aim_inv s" "in_i32 x" "in_i32 y"
  shows "aim_good (aim_emit s \<lparr>av_x = aim_scale (aim_config s) x, av_y = aim_scale (aim_config s) y\<rparr>)"
  using assms by (intro aim_emit_good) (simp_all add: aim_scale_bound aim_inv_def)

lemma aim_inv_fields [simp]:
  "aim_inv (s\<lparr>aim_active_source := v0\<rparr>) = aim_inv s"
  "aim_inv (s\<lparr>aim_held := v1\<rparr>) = aim_inv s"
  "aim_inv (s\<lparr>aim_ir_active := v2\<rparr>) = aim_inv s"
  "aim_inv (s\<lparr>aim_ir_x := v3\<rparr>) = aim_inv s"
  "aim_inv (s\<lparr>aim_ir_y := v4\<rparr>) = aim_inv s"
  "aim_inv (s\<lparr>aim_accel_zero_x := v5\<rparr>) = aim_inv s"
  "aim_inv (s\<lparr>aim_accel_zero_y := v6\<rparr>) = aim_inv s"
  "aim_inv (s\<lparr>aim_accel_zero_z := v7\<rparr>) = aim_inv s"
  "aim_inv (s\<lparr>aim_accel_zeroed := v8\<rparr>) = aim_inv s"
  by (simp_all add: aim_inv_def)

lemma screen_axis_in_i32: "in_i32 (scale_ir_absolute_axis v lo hi)"
proof -
  have "in_i32 0" by (simp add: in_i32_def)
  then show ?thesis by (simp add: scale_ir_absolute_axis_def Let_def)
qed

lemma process_ir_good:
  assumes "aim_inv s" "aim_event_ok (AimIr p)"
  shows "aim_good (process_ir s p)"
proof -
  have "aim_good (aim_emit (s\<lparr>aim_ir_active := True, aim_ir_x := ix, aim_ir_y := iy,
          aim_active_source := a\<rparr>) \<lparr>av_x = aim_scale (aim_config s) x, av_y = aim_scale (aim_config s) y\<rparr>)"
    if "in_i32 x" "in_i32 y" for x y ix iy a
    using scaled_vector_good [of "s\<lparr>aim_ir_active := True, aim_ir_x := ix, aim_ir_y := iy, aim_active_source := a\<rparr>" x y]
      assms(1) that by simp
  moreover have "aim_good (aim_emit (s\<lparr>aim_ir_active := True, aim_ir_x := ix, aim_ir_y := iy,
          aim_active_source := a\<rparr>) \<lparr>av_x = 0, av_y = 0\<rparr>)" for ix iy a
    using assms(1) by (intro aim_emit_good) simp_all
  moreover have "aim_good (s, AimResult_NONE)" "aim_good (s\<lparr>aim_ir_active := False\<rparr>, AimResult_NONE)"
    using assms(1) by (simp_all add: aim_good_def)
  ultimately show ?thesis
    using aim_reset_good [OF assms(1)]
    by (simp add: process_ir_def Let_def screen_axis_in_i32 split: option.split)
qed

lemma process_motion_plus_good:
  assumes "aim_inv s" "sample_ok v"
  shows "aim_good (process_motion_plus s v)"
proof -
  obtain x y z where v: "v = (x, y, z)" by (cases v)
  have "aim_good (aim_emit (s\<lparr>aim_active_source := a\<rparr>)
      \<lparr>av_x = aim_scale (aim_config s) x', av_y = aim_scale (aim_config s) y'\<rparr>)"
    if "in_i32 x'" "in_i32 y'" for x' y' a
    using scaled_vector_good [of "s\<lparr>aim_active_source := a\<rparr>" x' y'] assms(1) that by simp
  then show ?thesis
    using assms by (simp add: process_motion_plus_def v Let_def aim_good_def split: option.split)
qed

lemma process_accelerometer_good:
  assumes "aim_inv s"
  shows "aim_good (process_accelerometer s v)"
proof -
  obtain x y z where v: "v = (x, y, z)" by (cases v)
  have track: "aim_good (aim_emit (t\<lparr>aim_active_source := a\<rparr>)
      \<lparr>av_x = aim_scale (aim_config t) (as_i32 x'), av_y = aim_scale (aim_config t) (as_i32 y')\<rparr>)"
    if "aim_inv t" for x' y' a t
    using scaled_vector_good [of "t\<lparr>aim_active_source := a\<rparr>" "as_i32 x'" "as_i32 y'"] that by simp
  have zeroed: "aim_good (s\<lparr>aim_accel_zero_x := x, aim_accel_zero_y := y, aim_accel_zero_z := z,
      aim_accel_zeroed := True, aim_active_source := a\<rparr>, AimResult_NONE)" for a
    using assms by (simp add: aim_good_def aim_inv_def)
  show ?thesis
    using assms track [of s] zeroed
      track [of "s\<lparr>aim_accel_zero_x := zx, aim_accel_zero_y := zy, aim_accel_zero_z := zz, aim_accel_zeroed := True\<rparr>"
             for zx zy zz]
    by (simp add: process_accelerometer_def v Let_def aim_good_def split: option.split)
qed

lemma activation_key_good: "aim_inv s \<Longrightarrow> aim_good (activation_key s k p)"
  using aim_reset_good [of "s\<lparr>aim_held := False\<rparr>"]
  by (simp add: activation_key_def Let_def aim_good_def split: aim_activation.split)

lemma aim_reset_session_good: "aim_inv s \<Longrightarrow> aim_good (aim_reset_session s)"
  by (simp add: aim_reset_session_def aim_reset_good)

lemmas aim_methods_good = process_ir_good process_motion_plus_good process_accelerometer_good
  activation_key_good aim_reset_session_good

lemma aim_emit_config [simp]: "aim_config (fst (aim_emit s v)) = aim_config s"
  by (simp add: aim_emit_def aim_reset_def aim_smooth_def Let_def)

lemma aim_reset_config [simp]: "aim_config (fst (aim_reset s)) = aim_config s"
  by (simp add: aim_reset_def)

lemma aim_methods_config [simp]:
  "aim_config (fst (process_ir s p)) = aim_config s"
  "aim_config (fst (process_motion_plus s v)) = aim_config s"
  "aim_config (fst (process_accelerometer s v)) = aim_config s"
  "aim_config (fst (activation_key s k b)) = aim_config s"
  "aim_config (fst (aim_reset_session s)) = aim_config s"
  by (cases v; simp add: process_ir_def process_motion_plus_def process_accelerometer_def
      activation_key_def aim_reset_session_def Let_def split: option.split)+

lemma aim_answer_good:
  "aim_good r \<Longrightarrow> aim_inv (fst (case r of (s', a) \<Rightarrow> (s', [a]))) \<and>
    list_all aim_result_ok (snd (case r of (s', a) \<Rightarrow> (s', [a])))"
  by (cases r) (simp add: aim_good_def)

text \<open>Aiming as a machine that keeps its invariant for every admissible history.\<close>

interpretation aiming: kept_invariant aim_step aim_event_ok aim_inv aim_result_ok
proof
  fix s i assume "aim_inv s" "aim_event_ok i"
  then have "aim_inv (fst (aim_step s i)) \<and> list_all aim_result_ok (snd (aim_step s i))"
    by (cases i) (simp_all add: aim_answer_good aim_methods_good del: aim_event_ok.simps(1))
  then show "aim_inv (fst (aim_step s i))" "list_all aim_result_ok (snd (aim_step s i))" by auto
qed

text \<open>
  C35. Aiming never leaves the range of a stick. Whatever sequence of infrared points,
  samples, key changes and session resets arrives, every answer computed from a validated
  configuration is either nothing or a vector with both components within \<open>\<plusminus>32767\<close>, and
  a reset always answers with the centre.
\<close>

theorem aim_outputs_bounded:
  assumes "config_ok c" and "list_all aim_event_ok events"
  shows "list_all aim_result_ok (snd (run_steps aim_step (AimState_new (AimConfig_from_config c)) events))"
  by (rule aiming.run_out) (use assms config_ok_aim in \<open>simp_all add: aim_inv_def AimState_new_def\<close>)

theorem aim_outputs_bounded_witness:
  "list_all aim_result_ok (snd (run_steps aim_step
     (AimState_new (AimConfig_from_config (Config_default\<lparr>cfg_aim_mode := AimMouse\<rparr>)))
     [AimKey 5 True, AimMotionPlus (9000, -9000, 0), AimKey 5 False]))"
  by (rule aim_outputs_bounded)
    (simp_all add: config_ok_def Config_default_def Profile_is_valid_def GAMEPAD_def BOTH_def between_def
      calibration_ok_def MAX_DEVICE_RULES_def in_i32_def)

section \<open>Activation and sources\<close>

lemma aim_is_active_fields [simp]:
  "aim_is_active (s\<lparr>aim_active_source := a\<rparr>) = aim_is_active s"
  "aim_is_active (s\<lparr>aim_ir_active := b\<rparr>) = aim_is_active s"
  "aim_is_active (s\<lparr>aim_ir_x := v\<rparr>) = aim_is_active s"
  "aim_is_active (s\<lparr>aim_ir_y := v\<rparr>) = aim_is_active s"
  "aim_is_active (s\<lparr>aim_accel_zero_x := v\<rparr>) = aim_is_active s"
  "aim_is_active (s\<lparr>aim_accel_zero_y := v\<rparr>) = aim_is_active s"
  "aim_is_active (s\<lparr>aim_accel_zero_z := v\<rparr>) = aim_is_active s"
  "aim_is_active (s\<lparr>aim_accel_zeroed := b\<rparr>) = aim_is_active s"
  by (simp_all add: aim_is_active_def aim_enabled_def)

text \<open>While aiming is inactive an emission is a reset.\<close>

lemma aim_emit_inactive: "\<not> aim_is_active s \<Longrightarrow> aim_emit s v = aim_reset s"
  by (simp add: aim_emit_def)

lemma aim_emit_active:
  "aim_is_active s \<Longrightarrow> \<exists>w. aim_emit s v = (fst (aim_emit s v), \<lparr>ar_output = Some w, ar_reset = False\<rparr>) \<and>
     aim_active_source (fst (aim_emit s v)) = aim_active_source s"
  by (auto simp: aim_emit_def aim_smooth_def Let_def)

definition silent :: "aim_result \<Rightarrow> bool" where
  "silent r \<longleftrightarrow> ar_output r = None \<or> ar_output r = Some \<lparr>av_x = 0, av_y = 0\<rparr>"

lemma silent_consts [simp]: "silent AimResult_NONE" "silent AimResult_reset"
  by (simp_all add: silent_def AimResult_NONE_def AimResult_reset_def)

text \<open>
  The activation key gates all motion. While aiming is not active (switched off, or its
  key not held) no sample of any source moves anything, and the state keeps no source, no
  smoothing memory of movement and no wish to be active.
\<close>

theorem inactive_aim_is_silent:
  assumes "\<not> aim_is_active s"
  shows "silent (snd (process_ir s p)) \<and> silent (snd (process_motion_plus s v)) \<and>
    silent (snd (process_accelerometer s v)) \<and>
    \<not> aim_is_active (fst (process_ir s p)) \<and> \<not> aim_is_active (fst (process_motion_plus s v)) \<and>
    \<not> aim_is_active (fst (process_accelerometer s v))"
proof -
  obtain x y z where v: "v = (x, y, z)" by (cases v)
  have r: "silent (snd (aim_reset t))" "aim_is_active (fst (aim_reset t)) = aim_is_active t" for t
    by (simp_all add: aim_reset_def aim_is_active_def aim_enabled_def)
  have e: "silent (snd (aim_emit t w))" "\<not> aim_is_active (fst (aim_emit t w))" if "\<not> aim_is_active t" for t w
    using that r by (simp_all add: aim_emit_inactive)
  show ?thesis
    using assms e r
    by (simp add: process_ir_def process_motion_plus_def process_accelerometer_def v Let_def
        split: option.split)
qed

theorem inactive_aim_is_silent_witness:
  "silent (snd (process_motion_plus (AimState_new AimConfig_default) (9000, 1, 2)))"
proof -
  have "\<not> aim_is_active (AimState_new AimConfig_default)"
    by (simp add: aim_is_active_def aim_enabled_def AimState_new_def AimConfig_default_def)
  from inactive_aim_is_silent [OF this, of None "(9000, 1, 2)"] show ?thesis by simp
qed

text \<open>
  Source priority. With automatic source selection a tracked infrared point silences the
  MotionPlus and the accelerometer completely, a MotionPlus silences the accelerometer, an
  infrared point always takes over, and losing it releases the source with one reset.
\<close>

theorem auto_source_priority:
  assumes "ac_source (aim_config s) = SourceAuto"
  shows "(aim_active_source s = Some SourceIr \<longrightarrow>
      process_motion_plus s v = (s, AimResult_NONE) \<and> process_accelerometer s v = (s, AimResult_NONE) \<and>
      aim_active_source (fst (process_ir s None)) = None \<and> snd (process_ir s None) = AimResult_reset) \<and>
    (aim_active_source s = Some SourceMotionPlus \<longrightarrow>
      process_accelerometer s v = (s, AimResult_NONE)) \<and>
    (aim_is_active s \<and> pt_valid p \<longrightarrow>
      aim_active_source (fst (process_ir s (Some p))) = Some SourceIr)"
proof -
  obtain x y z where v: "v = (x, y, z)" by (cases v)
  have "aim_active_source (fst (process_ir s (Some p))) = Some SourceIr"
    if act: "aim_is_active s" and vp: "pt_valid p"
  proof -
    let ?t = "s\<lparr>aim_ir_active := True, aim_ir_x := pt_x p, aim_ir_y := pt_y p,
        aim_active_source := Some SourceIr\<rparr>"
    obtain w where "process_ir s (Some p) = aim_emit ?t w"
      using vp assms by (simp add: process_ir_def aim_accepts_def Let_def)
    then show ?thesis using aim_emit_active [of ?t w] act by auto
  qed
  then show ?thesis
    using assms
    by (simp add: process_motion_plus_def process_accelerometer_def process_ir_def aim_accepts_def v
        aim_reset_def)
qed

theorem auto_source_priority_witness:
  "let s = (AimState_new AimConfig_default)\<lparr>aim_active_source := Some SourceIr\<rparr>
   in process_motion_plus s (1, 2, 3) = (s, AimResult_NONE)"
  using auto_source_priority [of "(AimState_new AimConfig_default)\<lparr>aim_active_source := Some SourceIr\<rparr>" "(1, 2, 3)"]
  by (simp add: Let_def AimState_new_def AimConfig_default_def)

text \<open>
  Releasing the activation key starts over. The release answers with one reset, and
  whatever was tracked before, the first infrared point after the next press of the key is
  only a baseline: the answer to it is the zero vector, so nothing jumps.
\<close>

theorem release_forgets_tracking:
  assumes "aim_enabled s" and "ac_activation (aim_config s) = ActB" and "aim_held s"
    and "activation_key s (Button_code BtnB) False = (s1, r1)"
    and "activation_key s1 (Button_code BtnB) True = (s2, r2)"
    and "absolute_screen (aim_config s) = None" and "aim_accepts s2 SourceIr" and "pt_valid p"
    and "between 0 95 (ac_smoothing (aim_config s))"
  shows "r1 = AimResult_reset \<and> \<not> aim_is_active s1 \<and> r2 = AimResult_NONE \<and> aim_is_active s2 \<and>
    ar_output (snd (process_ir s2 (Some p))) = Some \<lparr>av_x = 0, av_y = 0\<rparr>"
proof -
  have s1: "s1 = fst (aim_reset (s\<lparr>aim_held := False\<rparr>))" "r1 = AimResult_reset"
    using assms(1-4) by (auto simp: activation_key_def aim_reset_def)
  then have s2: "s2 = s1\<lparr>aim_held := True\<rparr>" "r2 = AimResult_NONE"
    using assms(1-3,5) by (auto simp: activation_key_def aim_reset_def aim_enabled_def)
  have act: "aim_is_active s2" "\<not> aim_is_active s1"
    using s1 s2 assms(1,2) by (simp_all add: aim_is_active_def aim_enabled_def aim_reset_def)
  have zero: "smooth_axis 0 0 k = 0" "as_i32 (- 0) = 0" if "between 0 95 k" for k
    using smooth_axis_between [of 0 0 k] that by (simp_all add: ir_coord_def)
  have fresh: "aim_last_x s2 = 0" "aim_last_y s2 = 0" "\<not> aim_ir_active s2" "aim_config s2 = aim_config s"
    using s1 s2 by (simp_all add: aim_reset_def)
  let ?t = "s2\<lparr>aim_ir_active := True, aim_ir_x := pt_x p, aim_ir_y := pt_y p,
      aim_active_source := Some SourceIr\<rparr>"
  have "process_ir s2 (Some p) = aim_emit ?t \<lparr>av_x = 0, av_y = 0\<rparr>"
    using assms(6-8) fresh by (simp add: process_ir_def Let_def)
  moreover have "ar_output (snd (aim_emit ?t \<lparr>av_x = 0, av_y = 0\<rparr>)) = Some \<lparr>av_x = 0, av_y = 0\<rparr>"
    using act fresh zero [of "ac_smoothing (aim_config s)"] assms(9)
    by (simp add: aim_emit_def aim_smooth_def Let_def)
  ultimately show ?thesis using s1 s2 act by simp
qed

theorem release_forgets_tracking_witness:
  "let s = (AimState_new (AimConfig_default\<lparr>ac_output := AimMouse\<rparr>))\<lparr>aim_held := True, aim_ir_active := True\<rparr>;
       s1 = fst (activation_key s 5 False); s2 = fst (activation_key s1 5 True)
   in ar_output (snd (process_ir s2 (Some \<lparr>pt_valid = True, pt_x = 7, pt_y = 9\<rparr>))) = Some \<lparr>av_x = 0, av_y = 0\<rparr>"
proof -
  let ?s = "(AimState_new (AimConfig_default\<lparr>ac_output := AimMouse\<rparr>))\<lparr>aim_held := True, aim_ir_active := True\<rparr>"
  obtain s1 r1 where 1: "activation_key ?s (Button_code BtnB) False = (s1, r1)" by force
  obtain s2 r2 where 2: "activation_key s1 (Button_code BtnB) True = (s2, r2)" by force
  have "aim_accepts s2 SourceIr"
    using 1 2 by (auto simp: activation_key_def aim_reset_def aim_accepts_def aim_enabled_def AimState_new_def
        AimConfig_default_def)
  from release_forgets_tracking [OF _ _ _ 1 2 _ this, of "\<lparr>pt_valid = True, pt_x = 7, pt_y = 9\<rparr>"]
  have "ar_output (snd (process_ir s2 (Some \<lparr>pt_valid = True, pt_x = 7, pt_y = 9\<rparr>))) = Some \<lparr>av_x = 0, av_y = 0\<rparr>"
    by (simp add: aim_enabled_def AimState_new_def AimConfig_default_def absolute_screen_def between_def)
  then show ?thesis using 1 2 by (simp add: Let_def)
qed

end
