(* ===== verification/Engine.thy ===== *)
theory Engine
  imports Aim Mapping_Axes
begin

text \<open>
  The per-device engine: \<open>crates/wiiland-core/src/engine.rs\<close>. It combines the pointer, the
  aim state and the mapping tables, keeps the buttons each input source holds, and appends
  the ordered actions for the two virtual devices. \<open>process\<close> is a function from an engine
  and an input to the new engine and the actions it appends.
\<close>

section \<open>State and interface\<close>

datatype output_device = DevGamepad | DevDesktop

datatype output_action =
    OutKey output_device nat nat
  | OutAbs output_device nat int
  | OutRel output_device nat int
  | OutSync output_device

datatype engine_input =
    InKey input_source button button_state
  | InMotion motion_kind "abs3 list"
  | InIr ir_frame
  | InPointerTick
  | InSourceRemoved input_source
  | InReset

record device_engine =
  eng_config :: config
  eng_profile :: profile
  eng_pointer :: pointer_state
  eng_aim :: aim_state
  eng_held :: "u32 list"

definition DeviceEngine_new :: "config \<Rightarrow> profile \<Rightarrow> device_engine" where
  "DeviceEngine_new c p =
    \<lparr>eng_config = c, eng_profile = p,
     eng_pointer = PointerState_new (cfg_pointer_speed c) (cfg_ir_speed c) (cfg_ir_deadzone c)
       (cfg_ir_smoothing c) (cfg_ir_tracking c),
     eng_aim = AimState_new (AimConfig_from_config c),
     eng_held = replicate (length InputSource_ALL) 0\<rparr>"

definition needs_gamepad :: "profile \<Rightarrow> config \<Rightarrow> bool" where
  "needs_gamepad p c \<longleftrightarrow> Profile_contains p GAMEPAD \<or> cfg_aim_mode c = AimRightStick"

definition needs_desktop :: "profile \<Rightarrow> config \<Rightarrow> bool" where
  "needs_desktop p c \<longleftrightarrow> Profile_contains p DESKTOP \<or> cfg_aim_mode c = AimMouse"

definition pointer_active :: "device_engine \<Rightarrow> bool" where
  "pointer_active e \<longleftrightarrow> ptr_keys (eng_pointer e) \<noteq> 0"


section \<open>Emission\<close>

definition emit_pointer :: "int \<Rightarrow> int \<Rightarrow> output_action list" where
  "emit_pointer dx dy =
    [OutRel DevDesktop 0 dx, OutRel DevDesktop 1 dy] @
    (if dx \<noteq> 0 \<or> dy \<noteq> 0 then [OutSync DevDesktop] else [])"

definition emit_delta :: "pointer_delta \<Rightarrow> output_action list" where
  "emit_delta d = emit_pointer (delta_dx d) (delta_dy d)"

definition emit_aim :: "device_engine \<Rightarrow> aim_result \<Rightarrow> output_action list" where
  "emit_aim e r =
    (case ar_output r of
       None \<Rightarrow> []
     | Some v \<Rightarrow>
         (case ac_output (aim_config (eng_aim e)) of
            AimMouse \<Rightarrow> emit_pointer (av_x v) (av_y v)
          | AimRightStick \<Rightarrow>
              [OutAbs DevGamepad ABS_RX (clamp (- 32768) 32767 (av_x v)),
               OutAbs DevGamepad ABS_RY (clamp (- 32768) 32767 (av_y v)),
               OutSync DevGamepad]
          | AimOff \<Rightarrow> []))"

definition emit_key_transition ::
  "output_device \<Rightarrow> nat \<Rightarrow> bool \<Rightarrow> bool \<Rightarrow> button_state \<Rightarrow> output_action list" where
  "emit_key_transition target code before after st =
    (if \<not> before \<and> after then [OutKey target code (ButtonState_value Pressed)]
     else if before \<and> \<not> after then [OutKey target code (ButtonState_value Released)]
     else if before \<and> after \<and> st = Repeated then [OutKey target code (ButtonState_value Repeated)]
     else [])"


section \<open>Buttons\<close>

definition held_buttons :: "device_engine \<Rightarrow> u32" where
  "held_buttons e = foldl (\<lambda>h source. h OR source) 0 (eng_held e)"

definition desktop_action_of :: "desktop_bindings \<Rightarrow> button \<Rightarrow> desktop_action" where
  "desktop_action_of bindings b =
    (case b of
       BtnA \<Rightarrow> bind_a bindings | BtnB \<Rightarrow> bind_b bindings | BtnPlus \<Rightarrow> bind_plus bindings
     | BtnMinus \<Rightarrow> bind_minus bindings | BtnHome \<Rightarrow> bind_home bindings
     | BtnOne \<Rightarrow> bind_one bindings | BtnTwo \<Rightarrow> bind_two bindings
     | _ \<Rightarrow> ActionDisabled)"

fun action_key :: "desktop_action \<Rightarrow> nat option" where
  "action_key ActionLeftClick = Some 272"
| "action_key ActionRightClick = Some 273"
| "action_key ActionEnter = Some 28"
| "action_key ActionEscape = Some 1"
| "action_key ActionOverview = Some 125"
| "action_key ActionPageUp = Some 104"
| "action_key ActionPageDown = Some 109"
| "action_key ActionDisabled = None"

definition desktop_key :: "config \<Rightarrow> button \<Rightarrow> nat option" where
  "desktop_key c b = action_key (desktop_action_of (cfg_desktop_bindings c) b)"

definition desktop_key_held :: "config \<Rightarrow> u32 \<Rightarrow> nat \<Rightarrow> bool" where
  "desktop_key_held c held key \<longleftrightarrow>
    list_ex (\<lambda>b. mask_has held (button_bit b) \<and> desktop_key c b = Some key) Button_ALL"

fun pointer_bit :: "button \<Rightarrow> u8" where
  "pointer_bit BtnLeft = POINTER_LEFT"
| "pointer_bit BtnRight = POINTER_RIGHT"
| "pointer_bit BtnUp = POINTER_UP"
| "pointer_bit BtnDown = POINTER_DOWN"
| "pointer_bit _ = 0"

text \<open>The update of the held buttons of one source at the start of \<open>key\<close>.\<close>

definition update_held :: "u32 list \<Rightarrow> input_source \<Rightarrow> button \<Rightarrow> button_state \<Rightarrow> u32 list" where
  "update_held held source b st =
    (let i = InputSource_index source
     in if st = Released then held[i := held ! i AND NOT (button_bit b)]
        else held[i := held ! i OR button_bit b])"

text \<open>
  \<open>key\<close>, in the order of the source: gamepad transition, desktop transition, D-pad pointer,
  then the activation key of aiming.
\<close>

definition engine_key ::
  "device_engine \<Rightarrow> input_source \<Rightarrow> button \<Rightarrow> button_state \<Rightarrow> device_engine \<times> output_action list" where
  "engine_key e source b st =
    (let before = held_buttons e;
         e1 = e\<lparr>eng_held := update_held (eng_held e) source b st\<rparr>;
         after = held_buttons e1;
         was_held = mask_has before (button_bit b);
         is_held = mask_has after (button_bit b);
         c = eng_config e1;
         desktop = Profile_contains (eng_profile e1) DESKTOP;
         out1 = (if needs_gamepad (eng_profile e1) c
                 then emit_key_transition DevGamepad (map_button b) was_held is_held st else []);
         out2 = (if desktop then
                   (case desktop_key c b of
                      None \<Rightarrow> []
                    | Some k \<Rightarrow> emit_key_transition DevDesktop k (desktop_key_held c before k)
                                  (desktop_key_held c after k) st)
                 else []);
         (e2, out3) =
           (if desktop \<and> pointer_bit b \<noteq> 0 \<and> was_held \<noteq> is_held then
              (case update_key (eng_pointer e1) (pointer_bit b) is_held of
                 (p, d) \<Rightarrow> (e1\<lparr>eng_pointer := p\<rparr>, emit_delta d))
            else (e1, []));
         (e3, out4) =
           (if was_held \<noteq> is_held then
              (case activation_key (eng_aim e2) (Button_code b) is_held of
                 (a, r) \<Rightarrow> (e2\<lparr>eng_aim := a\<rparr>, emit_aim (e2\<lparr>eng_aim := a\<rparr>) r))
            else (e2, []))
     in (e3, out1 @ out2 @ out3 @ out4))"

text \<open>The loop of \<open>SourceRemoved\<close>: the buttons held at its start are released in order.\<close>

fun release_buttons ::
  "device_engine \<Rightarrow> input_source \<Rightarrow> u32 \<Rightarrow> button list \<Rightarrow> device_engine \<times> output_action list" where
  "release_buttons e source held [] = (e, [])"
| "release_buttons e source held (b # bs) =
    (if mask_has held (button_bit b) then
       (case engine_key e source b Released of (e1, out1) \<Rightarrow>
          case release_buttons e1 source held bs of (e2, out2) \<Rightarrow> (e2, out1 @ out2))
     else release_buttons e source held bs)"


section \<open>Process\<close>

definition engine_motion ::
  "device_engine \<Rightarrow> motion_kind \<Rightarrow> abs3 list \<Rightarrow> device_engine \<times> output_action list" where
  "engine_motion e kind axes =
    (let out1 = (if needs_gamepad (eng_profile e) (eng_config e)
           then map (\<lambda>a. OutAbs DevGamepad (ma_code a) (ma_value a)) (map_motion kind axes) @
                [OutSync DevGamepad]
           else []);
         v = axes ! 0;
         sample = (abs_x v, abs_y v, abs_z v);
         finish = (\<lambda>(a, r). (e\<lparr>eng_aim := a\<rparr>, out1 @ emit_aim (e\<lparr>eng_aim := a\<rparr>) r))
     in case kind of
          MotAccel \<Rightarrow> finish (process_accelerometer (eng_aim e) sample)
        | MotMotionPlus \<Rightarrow> finish (process_motion_plus (eng_aim e) sample)
        | _ \<Rightarrow> (e, out1))"

definition engine_ir :: "device_engine \<Rightarrow> ir_frame \<Rightarrow> device_engine \<times> output_action list" where
  "engine_ir e frame =
    (let point = select_ir (eng_pointer e) frame;
         (e1, out1) =
           (if Profile_contains (eng_profile e) DESKTOP then
              (case update_ir_frame (eng_pointer e) frame of
                 (p, d) \<Rightarrow> (e\<lparr>eng_pointer := p\<rparr>, emit_delta d))
            else (e, []))
     in case process_ir (eng_aim e1) point of
          (a, r) \<Rightarrow> (e1\<lparr>eng_aim := a\<rparr>, out1 @ emit_aim (e1\<lparr>eng_aim := a\<rparr>) r))"

fun engine_process :: "device_engine \<Rightarrow> engine_input \<Rightarrow> device_engine \<times> output_action list" where
  "engine_process e InReset =
    (e\<lparr>eng_pointer := pointer_reset (eng_pointer e), eng_aim := fst (aim_reset_session (eng_aim e)),
       eng_held := map (\<lambda>_. 0) (eng_held e)\<rparr>, [])"
| "engine_process e InPointerTick =
    (e, if pointer_active e then emit_delta (pointer_tick (eng_pointer e)) else [])"
| "engine_process e (InKey source b st) = engine_key e source b st"
| "engine_process e (InSourceRemoved source) =
    release_buttons e source (eng_held e ! InputSource_index source) Button_ALL"
| "engine_process e (InMotion kind axes) = engine_motion e kind axes"
| "engine_process e (InIr frame) = engine_ir e frame"

section \<open>Held buttons\<close>

definition holds :: "device_engine \<Rightarrow> input_source \<Rightarrow> button \<Rightarrow> bool" where
  "holds e s b \<longleftrightarrow> mask_has (eng_held e ! InputSource_index s) (button_bit b)"

definition held_any :: "device_engine \<Rightarrow> button \<Rightarrow> bool" where
  "held_any e b \<longleftrightarrow> (\<exists>s. holds e s b)"

definition six :: "device_engine \<Rightarrow> bool" where
  "six e \<longleftrightarrow> length (eng_held e) = 6"

lemma mask_has_foldl_or:
  "mask_has (foldl (\<lambda>h source. h OR source) m xs) k \<longleftrightarrow> mask_has m k \<or> (\<exists>x \<in> set xs. mask_has x k)"
  by (induction xs arbitrary: m) (auto simp: mask_has_or)

lemma held_buttons_iff: "six e \<Longrightarrow> mask_has (held_buttons e) (button_bit b) \<longleftrightarrow> held_any e b"
proof -
  assume six: "six e"
  have "(\<exists>x \<in> set (eng_held e). mask_has x k) \<longleftrightarrow> (\<exists>s. mask_has (eng_held e ! InputSource_index s) k)" for k
  proof
    assume "\<exists>x \<in> set (eng_held e). mask_has x k"
    then obtain i where "i < 6" "mask_has (eng_held e ! i) k"
      using six by (auto simp: six_def in_set_conv_nth)
    then show "\<exists>s. mask_has (eng_held e ! InputSource_index s) k"
      using InputSource_index_surj by metis
  next
    assume "\<exists>s. mask_has (eng_held e ! InputSource_index s) k"
    then show "\<exists>x \<in> set (eng_held e). mask_has x k"
      using six by (metis InputSource_index_less nth_mem six_def)
  qed
  then show ?thesis
    unfolding held_buttons_def mask_has_foldl_or held_any_def holds_def by simp
qed

lemma update_held_length [simp]: "length (update_held h s b st) = length h"
  by (simp add: update_held_def Let_def)

lemma holds_update_held:
  "six e \<Longrightarrow> holds (e\<lparr>eng_held := update_held (eng_held e) s b st\<rparr>) s' b' \<longleftrightarrow>
    (if s' = s \<and> b' = b then st \<noteq> Released else holds e s' b')"
  by (auto simp: holds_def update_held_def Let_def six_def nth_list_update buttons.has_insert
      buttons.has_remove dest: InputSource_index_inj)

text \<open>What \<open>key\<close> leaves alone, and what it does to the held buttons.\<close>

lemma engine_key_fields [simp]:
  "eng_config (fst (engine_key e s b st)) = eng_config e"
  "eng_profile (fst (engine_key e s b st)) = eng_profile e"
  "eng_held (fst (engine_key e s b st)) = update_held (eng_held e) s b st"
  by (simp_all add: engine_key_def Let_def split_beta)

lemma holds_cong: "eng_held e = eng_held e' \<Longrightarrow> holds e = holds e'"
  by (simp add: holds_def fun_eq_iff)

lemma holds_engine_key:
  "six e \<Longrightarrow> holds (fst (engine_key e s b st)) s' b' \<longleftrightarrow>
    (if s' = s \<and> b' = b then st \<noteq> Released else holds e s' b')"
  using holds_update_held [of e s b st s' b']
  by (simp add: holds_def)

lemma six_engine_key [simp]: "six (fst (engine_key e s b st)) = six e"
  by (simp add: six_def)

lemma release_buttons_Cons:
  "release_buttons e s h (b # bs) =
    (if mask_has h (button_bit b) then
       (fst (release_buttons (fst (engine_key e s b Released)) s h bs),
        snd (engine_key e s b Released) @ snd (release_buttons (fst (engine_key e s b Released)) s h bs))
     else release_buttons e s h bs)"
  by (simp split: prod.split)

declare release_buttons.simps(2) [simp del] release_buttons_Cons [simp]

lemma release_buttons_fields [simp]:
  "eng_config (fst (release_buttons e s h bs)) = eng_config e \<and>
   eng_profile (fst (release_buttons e s h bs)) = eng_profile e \<and>
   six (fst (release_buttons e s h bs)) = six e"
  by (induction bs arbitrary: e) simp_all

lemma holds_release_buttons:
  "six e \<Longrightarrow> holds (fst (release_buttons e s h bs)) s' b' \<longleftrightarrow>
    holds e s' b' \<and> \<not> (s' = s \<and> b' \<in> set bs \<and> mask_has h (button_bit b'))"
proof (induction bs arbitrary: e)
  case (Cons b bs)
  then show ?case
    using Cons.IH [of "fst (engine_key e s b Released)"] by (auto simp: holds_engine_key)
qed simp

text \<open>The abstract view of the held buttons under each input.\<close>

fun held_after :: "engine_input \<Rightarrow> (input_source \<Rightarrow> button \<Rightarrow> bool) \<Rightarrow> input_source \<Rightarrow> button \<Rightarrow> bool" where
  "held_after InReset h s b \<longleftrightarrow> False"
| "held_after (InKey s' b' st) h s b \<longleftrightarrow> (if s = s' \<and> b = b' then st \<noteq> Released else h s b)"
| "held_after (InSourceRemoved s') h s b \<longleftrightarrow> s \<noteq> s' \<and> h s b"
| "held_after _ h s b \<longleftrightarrow> h s b"

lemma engine_motion_fields [simp]:
  "eng_config (fst (engine_motion e k ax)) = eng_config e"
  "eng_profile (fst (engine_motion e k ax)) = eng_profile e"
  "eng_held (fst (engine_motion e k ax)) = eng_held e"
  "eng_pointer (fst (engine_motion e k ax)) = eng_pointer e"
  by (simp_all add: engine_motion_def Let_def split_beta split: motion_kind.split)

lemma engine_ir_fields [simp]:
  "eng_config (fst (engine_ir e f)) = eng_config e"
  "eng_profile (fst (engine_ir e f)) = eng_profile e"
  "eng_held (fst (engine_ir e f)) = eng_held e"
  by (simp_all add: engine_ir_def Let_def split_beta)

lemma engine_process_fields [simp]:
  "eng_config (fst (engine_process e i)) = eng_config e"
  "eng_profile (fst (engine_process e i)) = eng_profile e"
  "six (fst (engine_process e i)) = six e"
  using release_buttons_fields
  by (cases i; simp add: six_def)+

lemma holds_engine_process:
  "six e \<Longrightarrow> holds (fst (engine_process e i)) s b \<longleftrightarrow> held_after i (holds e) s b"
proof (cases i)
  case (InSourceRemoved s')
  assume "six e"
  with InSourceRemoved show ?thesis
    using holds_release_buttons [of e s' "eng_held e ! InputSource_index s'" Button_ALL s b]
    by (auto simp: Button_ALL_UNIV holds_def)
next
  case InReset
  assume "six e"
  with InReset show ?thesis by (simp add: holds_def six_def)
qed (simp_all add: holds_engine_key, simp_all add: holds_def)

section \<open>The virtual keyboards\<close>

text \<open>
  What the kernel sees of a virtual device: its set of pressed keys. A press of a pressed
  key, a release or a repeat of a released one has no meaning for it (\<open>None\<close>).
\<close>

fun key_effect :: "output_device \<Rightarrow> nat set \<Rightarrow> output_action \<Rightarrow> nat set option" where
  "key_effect dev keys (OutKey d k v) =
    (if d \<noteq> dev then Some keys
     else if v = 1 then (if k \<in> keys then None else Some (insert k keys))
     else if k \<notin> keys then None
     else if v = 0 then Some (keys - {k})
     else if v = 2 then Some keys
     else None)"
| "key_effect dev keys _ = Some keys"

primrec replay_keys :: "output_device \<Rightarrow> nat set \<Rightarrow> output_action list \<Rightarrow> nat set option" where
  "replay_keys dev keys [] = Some keys"
| "replay_keys dev keys (a # as) =
    (case key_effect dev keys a of None \<Rightarrow> None | Some keys' \<Rightarrow> replay_keys dev keys' as)"

lemma replay_keys_append:
  "replay_keys dev keys (as @ bs) =
    (case replay_keys dev keys as of None \<Rightarrow> None | Some keys' \<Rightarrow> replay_keys dev keys' bs)"
  by (induction as arbitrary: keys) (simp_all split: option.split)

definition no_keys :: "output_action list \<Rightarrow> bool" where
  "no_keys as \<longleftrightarrow> (\<forall>a \<in> set as. \<forall>d k v. a \<noteq> OutKey d k v)"

lemma replay_no_keys: "no_keys as \<Longrightarrow> replay_keys dev keys as = Some keys"
proof (induction as)
  case (Cons a as)
  then have "replay_keys dev keys as = Some keys" by (simp add: no_keys_def)
  moreover have "key_effect dev keys a = Some keys"
    using Cons.prems by (cases a) (simp_all add: no_keys_def)
  ultimately show ?case by simp
qed simp

lemma no_keys_emit_aim [simp]: "no_keys (emit_aim e r)"
  by (cases "ac_output (aim_config (eng_aim e))")
    (auto simp: no_keys_def emit_aim_def emit_pointer_def split: option.splits)

lemma no_keys_simps [simp]:
  "no_keys []" "no_keys (emit_pointer dx dy)" "no_keys (emit_delta d)"
  "no_keys (map (\<lambda>a. OutAbs dev (ma_code a) (ma_value a)) axes)"
  "no_keys (OutSync dev # as) \<longleftrightarrow> no_keys as"
  "no_keys (as @ bs) \<longleftrightarrow> no_keys as \<and> no_keys bs"
  by (auto simp: no_keys_def emit_delta_def emit_pointer_def)

text \<open>One transition moves one key from its state before to its state after.\<close>

lemma replay_transition:
  "(before \<longleftrightarrow> k \<in> keys) \<Longrightarrow>
   replay_keys dev keys (emit_key_transition dev k before after st) =
     Some (if after then insert k keys else keys - {k})"
  by (auto simp: emit_key_transition_def insert_absorb)

lemma replay_transition_other:
  "d \<noteq> dev \<Longrightarrow> replay_keys dev keys (emit_key_transition d k before after st) = Some keys"
  by (simp add: emit_key_transition_def)

text \<open>The keys each device should have pressed, from the buttons held by any source.\<close>

fun wanted_keys :: "output_device \<Rightarrow> device_engine \<Rightarrow> nat set" where
  "wanted_keys DevGamepad e =
    (if needs_gamepad (eng_profile e) (eng_config e) then {map_button b |b. held_any e b} else {})"
| "wanted_keys DevDesktop e =
    (if Profile_contains (eng_profile e) DESKTOP
     then {k. \<exists>b. held_any e b \<and> desktop_key (eng_config e) b = Some k} else {})"

lemma wanted_keys_cong:
  "holds e' = holds e \<Longrightarrow> eng_config e' = eng_config e \<Longrightarrow> eng_profile e' = eng_profile e \<Longrightarrow>
   wanted_keys dev e' = wanted_keys dev e"
  by (cases dev) (simp_all add: held_any_def)

lemma desktop_key_held_iff:
  "six e \<Longrightarrow> desktop_key_held c (held_buttons e) k \<longleftrightarrow> (\<exists>b. held_any e b \<and> desktop_key c b = Some k)"
  by (simp add: desktop_key_held_def list_ex_iff Button_ALL_UNIV held_buttons_iff)

text \<open>The parts of \<open>engine_key\<close>: the transitions of the two devices, then actions without keys.\<close>

lemma engine_key_outputs:
  fixes e s b st
  assumes "six e"
  defines "e' \<equiv> fst (engine_key e s b st)"
  shows "\<exists>rest. no_keys rest \<and> snd (engine_key e s b st) =
    (if needs_gamepad (eng_profile e) (eng_config e)
     then emit_key_transition DevGamepad (map_button b) (held_any e b) (held_any e' b) st else []) @
    (if Profile_contains (eng_profile e) DESKTOP then
       (case desktop_key (eng_config e) b of
          None \<Rightarrow> []
        | Some k \<Rightarrow> emit_key_transition DevDesktop k
            (\<exists>b. held_any e b \<and> desktop_key (eng_config e) b = Some k)
            (\<exists>b. held_any e' b \<and> desktop_key (eng_config e) b = Some k) st)
     else []) @ rest"
proof -
  let ?e1 = "e\<lparr>eng_held := update_held (eng_held e) s b st\<rparr>"
  have six1: "six ?e1" using assms(1) by (simp add: six_def)
  have "holds ?e1 = holds e'" unfolding e'_def by (intro holds_cong) simp
  then have any: "held_any ?e1 = held_any e'" by (simp add: held_any_def fun_eq_iff)
  show ?thesis
    unfolding engine_key_def Let_def split_beta snd_conv
      held_buttons_iff [OF assms(1)] held_buttons_iff [OF six1]
      desktop_key_held_iff [OF assms(1)] desktop_key_held_iff [OF six1] any
    apply (rule exI, rule conjI [rotated])
     apply (rule arg_cong2 [where f = append], simp)
     apply (rule arg_cong2 [where f = append], simp cong: option.case_cong)
     apply (rule refl)
    apply simp
    done
qed

lemma image_update:
  assumes "\<And>x. x \<noteq> b \<Longrightarrow> P' x \<longleftrightarrow> P x" and "\<And>x y. f x = f y \<Longrightarrow> x = y"
  shows "{f x |x. P' x} = (if P' b then insert (f b) {f x |x. P x} else {f x |x. P x} - {f b})"
proof (rule set_eqI)
  fix k
  have "k \<in> {f x |x. P' x} \<longleftrightarrow> (k = f b \<and> P' b) \<or> (k \<noteq> f b \<and> (\<exists>x. k = f x \<and> P x))"
    unfolding mem_Collect_eq by (metis assms)
  also have "\<dots> \<longleftrightarrow> k \<in> (if P' b then insert (f b) {f x |x. P x} else {f x |x. P x} - {f b})"
    by auto
  finally show "k \<in> {f x |x. P' x} \<longleftrightarrow>
      k \<in> (if P' b then insert (f b) {f x |x. P x} else {f x |x. P x} - {f b})" .
qed

lemma option_image_update:
  assumes "\<And>x. x \<noteq> b \<Longrightarrow> P' x \<longleftrightarrow> P x" and "g b = Some k"
  shows "{j. \<exists>x. P' x \<and> g x = Some j} =
    (if \<exists>x. P' x \<and> g x = Some k then insert k {j. \<exists>x. P x \<and> g x = Some j}
     else {j. \<exists>x. P x \<and> g x = Some j} - {k})"
proof (rule set_eqI)
  fix j
  have "j \<noteq> k \<Longrightarrow> (\<exists>x. P' x \<and> g x = Some j) \<longleftrightarrow> (\<exists>x. P x \<and> g x = Some j)"
    by (metis assms option.inject)
  then show "j \<in> {j. \<exists>x. P' x \<and> g x = Some j} \<longleftrightarrow>
      j \<in> (if \<exists>x. P' x \<and> g x = Some k then insert k {j. \<exists>x. P x \<and> g x = Some j}
     else {j. \<exists>x. P x \<and> g x = Some j} - {k})"
    by (cases "j = k") auto
qed

lemma held_any_engine_key:
  "six e \<Longrightarrow> b' \<noteq> b \<Longrightarrow> held_any (fst (engine_key e s b st)) b' \<longleftrightarrow> held_any e b'"
  by (simp add: held_any_def holds_engine_key)

lemma replay_engine_key:
  assumes six: "six e"
  shows "replay_keys dev (wanted_keys dev e) (snd (engine_key e s b st)) =
    Some (wanted_keys dev (fst (engine_key e s b st)))"
proof -
  let ?e' = "fst (engine_key e s b st)"
  obtain rest where rest: "no_keys rest" and out: "snd (engine_key e s b st) =
    (if needs_gamepad (eng_profile e) (eng_config e)
     then emit_key_transition DevGamepad (map_button b) (held_any e b) (held_any ?e' b) st else []) @
    (if Profile_contains (eng_profile e) DESKTOP then
       (case desktop_key (eng_config e) b of
          None \<Rightarrow> []
        | Some k \<Rightarrow> emit_key_transition DevDesktop k
            (\<exists>b. held_any e b \<and> desktop_key (eng_config e) b = Some k)
            (\<exists>b. held_any ?e' b \<and> desktop_key (eng_config e) b = Some k) st)
     else []) @ rest"
    using engine_key_outputs [OF six, of s b st] by blast
  note other = held_any_engine_key [OF six, of _ b s st]
  have pad: "{map_button b' |b'. held_any ?e' b'} =
      (if held_any ?e' b then insert (map_button b) {map_button b' |b'. held_any e b'}
       else {map_button b' |b'. held_any e b'} - {map_button b})"
    by (rule image_update) (use other map_button_inj in auto)
  have pad_mem: "held_any e b \<longleftrightarrow> map_button b \<in> {map_button b' |b'. held_any e b'}"
    using map_button_inj by auto
  have desk: "{k'. \<exists>b'. held_any ?e' b' \<and> desktop_key (eng_config e) b' = Some k'} =
      (if \<exists>b'. held_any ?e' b' \<and> desktop_key (eng_config e) b' = Some k
       then insert k {k'. \<exists>b'. held_any e b' \<and> desktop_key (eng_config e) b' = Some k'}
       else {k'. \<exists>b'. held_any e b' \<and> desktop_key (eng_config e) b' = Some k'} - {k})"
    if "desktop_key (eng_config e) b = Some k" for k
    by (rule option_image_update) (use other that in auto)
  have desk_none: "{k'. \<exists>b'. held_any ?e' b' \<and> desktop_key (eng_config e) b' = Some k'} =
      {k'. \<exists>b'. held_any e b' \<and> desktop_key (eng_config e) b' = Some k'}"
    if "desktop_key (eng_config e) b = None"
    by (rule Collect_cong) (metis other that option.distinct(1))
  show ?thesis
  proof (cases dev)
    case DevGamepad
    then show ?thesis
      using pad pad_mem rest
      by (simp add: out replay_keys_append replay_transition replay_transition_other replay_no_keys
          split: option.split)
  next
    case DevDesktop
    show ?thesis
    proof (cases "desktop_key (eng_config e) b")
      case None
      then show ?thesis
        using DevDesktop rest desk_none
        by (simp add: out replay_keys_append replay_transition_other replay_no_keys)
    next
      case (Some k)
      then show ?thesis
        using DevDesktop rest desk [OF Some]
        by (auto simp add: out replay_keys_append replay_transition replay_transition_other replay_no_keys)
    qed
  qed
qed

lemma replay_release_buttons:
  "six e \<Longrightarrow> replay_keys dev (wanted_keys dev e) (snd (release_buttons e s h bs)) =
    Some (wanted_keys dev (fst (release_buttons e s h bs)))"
  by (induction bs arbitrary: e) (simp_all add: replay_keys_append replay_engine_key)

lemma no_keys_motion_ir:
  "no_keys (snd (engine_motion e k ax))" "no_keys (snd (engine_ir e f))"
  by (simp_all add: engine_motion_def engine_ir_def Let_def split_beta split: motion_kind.split)

lemma replay_engine_process:
  assumes "six e" "i \<noteq> InReset"
  shows "replay_keys dev (wanted_keys dev e) (snd (engine_process e i)) =
    Some (wanted_keys dev (fst (engine_process e i)))"
proof -
  have keep: "wanted_keys dev (fst (engine_process e i)) = wanted_keys dev e"
    if "holds (fst (engine_process e i)) = holds e"
    using that by (intro wanted_keys_cong) simp_all
  show ?thesis
  proof (cases i)
    case (InMotion k ax)
    then show ?thesis
      using keep holds_cong [of "fst (engine_motion e k ax)" e] no_keys_motion_ir(1) [of e k ax]
      by (simp add: replay_no_keys del: wanted_keys.simps)
  next
    case (InIr f)
    then show ?thesis
      using keep holds_cong [of "fst (engine_ir e f)" e] no_keys_motion_ir(2) [of e f]
      by (simp add: replay_no_keys del: wanted_keys.simps)
  qed (use assms in \<open>simp_all add: replay_engine_key replay_release_buttons replay_no_keys del: wanted_keys.simps\<close>)
qed

lemma replay_run:
  "six e \<Longrightarrow> InReset \<notin> set is \<Longrightarrow>
   replay_keys dev (wanted_keys dev e) (snd (run_steps engine_process e is)) =
     Some (wanted_keys dev (fst (run_steps engine_process e is)))"
proof (induction "is" arbitrary: e)
  case (Cons i js)
  obtain e1 out where st: "engine_process e i = (e1, out)" by force
  then have "six e1" "replay_keys dev (wanted_keys dev e) out = Some (wanted_keys dev e1)"
    using engine_process_fields(3) [of e i] replay_engine_process [of e i dev] Cons.prems by auto
  then show ?case
    using Cons.IH [of e1] Cons.prems st by (simp add: replay_keys_append split_beta del: wanted_keys.simps)
qed simp

lemma new_engine_empty: "six (DeviceEngine_new c p)" "\<not> holds (DeviceEngine_new c p) s b"
  by (simp add: six_def DeviceEngine_new_def InputSource_ALL_def)
    (cases s; simp add: holds_def DeviceEngine_new_def InputSource_ALL_def)

text \<open>
  C3. The virtual keyboards follow the controller. For every history of inputs without a
  reset (which destroys the virtual devices) the key actions of a fresh engine are
  meaningful one after another (a key is pressed only while released, released or repeated
  only while pressed), and after them the pressed keys of the gamepad are exactly the codes
  of the buttons some source holds, and those of the desktop device exactly the keys bound
  to such a button: nothing sticks, nothing is released early, also when several sources
  or several buttons share a key.
\<close>

theorem virtual_keys_follow_held_buttons:
  assumes "InReset \<notin> set inputs"
    and "run_steps engine_process (DeviceEngine_new c p) inputs = (e, actions)"
  shows "replay_keys DevGamepad {} actions =
      Some (if needs_gamepad p c then {map_button b |b. \<exists>s. holds e s b} else {}) \<and>
    replay_keys DevDesktop {} actions =
      Some (if Profile_contains p DESKTOP then {k. \<exists>b s. holds e s b \<and> desktop_key c b = Some k} else {})"
proof -
  let ?e0 = "DeviceEngine_new c p"
  have empty: "wanted_keys dev ?e0 = {}" for dev
    by (cases dev) (simp_all add: held_any_def new_engine_empty)
  have keep: "eng_config (fst (run_steps engine_process e0 inputs)) = eng_config e0 \<and>
      eng_profile (fst (run_steps engine_process e0 inputs)) = eng_profile e0" for e0
    by (induction inputs arbitrary: e0) (simp_all add: split_beta)
  have "replay_keys dev {} actions = Some (wanted_keys dev e)" for dev
    using replay_run [OF new_engine_empty(1) [of c p] assms(1), of dev] assms(2) empty by simp
  moreover have "eng_config e = c" "eng_profile e = p"
    using keep [of ?e0] assms(2) by (simp_all add: DeviceEngine_new_def)
  ultimately show ?thesis by (auto simp: held_any_def)
qed

theorem virtual_keys_follow_held_buttons_witness:
  "\<exists>e actions. run_steps engine_process (DeviceEngine_new Config_default BOTH)
      [InKey SrcCore BtnA Pressed, InKey SrcGuitar BtnA Pressed, InSourceRemoved SrcCore] = (e, actions) \<and>
    replay_keys DevGamepad {} actions = Some {map_button b |b. \<exists>s. holds e s b}"
proof -
  let ?is = "[InKey SrcCore BtnA Pressed, InKey SrcGuitar BtnA Pressed, InSourceRemoved SrcCore]"
  obtain e actions where run: "run_steps engine_process (DeviceEngine_new Config_default BOTH) ?is = (e, actions)"
    by force
  have pad: "needs_gamepad BOTH Config_default"
    by (simp add: needs_gamepad_def Profile_contains_def BOTH_def GAMEPAD_def)
  have "InReset \<notin> set ?is" by simp
  from virtual_keys_follow_held_buttons [OF this run] pad
  have "replay_keys DevGamepad {} actions = Some {map_button b |b. \<exists>s. holds e s b}" by simp
  then show ?thesis using run by blast
qed

text \<open>
  What an input does to the held buttons. A press or a repeat adds the button for its
  source, a release drops it for that source only, removing a source drops exactly the
  buttons of that source, a reset drops everything, and motion, infrared frames and pointer
  ticks change nothing; the configuration and the profile never change.
\<close>

theorem held_buttons_refinement:
  assumes "length (eng_held e) = length InputSource_ALL" and "engine_process e i = (e', out)"
  shows "holds e' s b = held_after i (holds e) s b \<and>
    length (eng_held e') = length InputSource_ALL \<and>
    eng_config e' = eng_config e \<and> eng_profile e' = eng_profile e"
proof -
  have six: "six e" using assms(1) by (simp add: six_def InputSource_ALL_def)
  then show ?thesis
    using holds_engine_process [OF six, of i s b] engine_process_fields [of e i] assms(2)
    by (simp add: six_def InputSource_ALL_def)
qed

theorem held_buttons_refinement_witness:
  "holds (fst (engine_process (DeviceEngine_new Config_default GAMEPAD) (InKey SrcDrums BtnX Pressed))) SrcDrums BtnX"
proof -
  let ?e = "DeviceEngine_new Config_default GAMEPAD"
  obtain e' out where p: "engine_process ?e (InKey SrcDrums BtnX Pressed) = (e', out)" by force
  have len: "length (eng_held ?e) = length InputSource_ALL" by (simp add: DeviceEngine_new_def)
  show ?thesis using held_buttons_refinement [OF len p, of SrcDrums BtnX] p by simp
qed

section \<open>The engine invariant\<close>

fun direction_button :: "direction \<Rightarrow> button" where
  "direction_button DirLeft = BtnLeft"
| "direction_button DirRight = BtnRight"
| "direction_button DirUp = BtnUp"
| "direction_button DirDown = BtnDown"

lemma pointer_bit_direction: "pointer_bit (direction_button d) = direction_bit d"
  by (cases d) simp_all

lemma pointer_bit_cases: "pointer_bit b = 0 \<or> (\<exists>d. b = direction_button d)"
  by (cases b) (simp_all, (metis direction_button.simps)+)

lemma direction_button_inj: "direction_button d = direction_button d' \<longleftrightarrow> d = d'"
  by (cases d; cases d') simp_all

text \<open>The pointer moves with the held direction buttons of a desktop profile, and only then.\<close>

definition pointer_follows :: "device_engine \<Rightarrow> bool" where
  "pointer_follows e \<longleftrightarrow>
    (\<forall>n. bit (ptr_keys (eng_pointer e)) n \<longrightarrow> n < 4) \<and>
    (\<forall>d. pressed (eng_pointer e) d \<longleftrightarrow>
       Profile_contains (eng_profile e) DESKTOP \<and> held_any e (direction_button d))"

definition eng_inv :: "config \<Rightarrow> profile \<Rightarrow> device_engine \<Rightarrow> bool" where
  "eng_inv c p e \<longleftrightarrow>
    config_ok c \<and> eng_config e = c \<and> eng_profile e = p \<and> six e \<and>
    aim_config (eng_aim e) = AimConfig_from_config c \<and> aim_inv (eng_aim e) \<and>
    ptr_speed (eng_pointer e) = cfg_pointer_speed c \<and> velocity_inv (eng_pointer e) \<and>
    ir_inv (eng_pointer e) \<and> pointer_follows e"

text \<open>The inputs the adapter produces: whole payloads within the hardware's ranges.\<close>

fun input_ok :: "engine_input \<Rightarrow> bool" where
  "input_ok (InMotion kind axes) \<longleftrightarrow>
    length axes = 8 \<and> in_i32 (abs_x (axes ! 0)) \<and> in_i32 (abs_y (axes ! 0)) \<and> in_i32 (abs_z (axes ! 0)) \<and>
    (kind = MotBalance \<longrightarrow> (\<forall>i < 4. 0 \<le> abs_x (axes ! i) \<and> abs_x (axes ! i) \<le> 65535))"
| "input_ok (InIr frame) \<longleftrightarrow> length frame = 4 \<and> (\<forall>q \<in> set frame. point_coord q)"
| "input_ok _ \<longleftrightarrow> True"

text \<open>An action the virtual device it names exists for and was created to accept.\<close>

fun action_ok :: "config \<Rightarrow> profile \<Rightarrow> output_action \<Rightarrow> bool" where
  "action_ok c p (OutKey DevGamepad k v) \<longleftrightarrow>
    needs_gamepad p c \<and> k \<in> set (cap_keys CONTROLLER_CAPABILITIES) \<and> v \<le> 2"
| "action_ok c p (OutKey DevDesktop k v) \<longleftrightarrow>
    needs_desktop p c \<and> k \<in> set (cap_keys DESKTOP_CAPABILITIES) \<and> v \<le> 2"
| "action_ok c p (OutAbs DevGamepad a v) \<longleftrightarrow> needs_gamepad p c \<and> axis_fits \<lparr>ma_code = a, ma_value = v\<rparr>"
| "action_ok c p (OutAbs DevDesktop a v) \<longleftrightarrow> False"
| "action_ok c p (OutRel DevGamepad a v) \<longleftrightarrow> False"
| "action_ok c p (OutRel DevDesktop a v) \<longleftrightarrow> needs_desktop p c \<and> a \<in> set (cap_rels DESKTOP_CAPABILITIES)"
| "action_ok c p (OutSync DevGamepad) \<longleftrightarrow> needs_gamepad p c"
| "action_ok c p (OutSync DevDesktop) \<longleftrightarrow> needs_desktop p c"

lemma emit_pointer_ok: "needs_desktop p c \<Longrightarrow> list_all (action_ok c p) (emit_pointer dx dy)"
  by (simp add: emit_pointer_def DESKTOP_CAPABILITIES_def DESKTOP_RELS_def)

lemma emit_delta_ok: "Profile_contains p DESKTOP \<Longrightarrow> list_all (action_ok c p) (emit_delta d)"
  by (simp add: emit_delta_def emit_pointer_ok needs_desktop_def)

lemma emit_aim_ok:
  assumes "aim_config (eng_aim e) = AimConfig_from_config c"
  shows "list_all (action_ok c p) (emit_aim e r)"
proof -
  have fits: "axis_fits \<lparr>ma_code = k, ma_value = clamp (- 32768) 32767 v\<rparr>" if "k \<in> set full_axes" for k v
    using clamp_bounds [of "- 32768" 32767 v] that by (simp add: axis_fits_def axis_info_groups)
  have out: "ac_output (aim_config (eng_aim e)) = cfg_aim_mode c"
    using assms by (simp add: AimConfig_from_config_def)
  show ?thesis
    by (cases "ar_output r"; cases "cfg_aim_mode c")
      (simp_all add: emit_aim_def out emit_pointer_ok needs_desktop_def needs_gamepad_def fits)
qed

lemma desktop_key_capability: "desktop_key c b = Some k \<Longrightarrow> k \<in> set (cap_keys DESKTOP_CAPABILITIES)"
  by (cases "desktop_action_of (cfg_desktop_bindings c) b")
    (auto simp: desktop_key_def DESKTOP_CAPABILITIES_def DESKTOP_KEYS_def)

lemma map_button_capability: "map_button b \<in> set (cap_keys CONTROLLER_CAPABILITIES)"
  by (cases b) (simp_all add: CONTROLLER_CAPABILITIES_def CORE_KEYS_def)

lemma emit_key_transition_ok:
  "needs_gamepad p c \<Longrightarrow> list_all (action_ok c p) (emit_key_transition DevGamepad (map_button b) x y st)"
  "Profile_contains p DESKTOP \<Longrightarrow> desktop_key c b = Some k \<Longrightarrow>
     list_all (action_ok c p) (emit_key_transition DevDesktop k x y st)"
  by (simp_all add: emit_key_transition_def map_button_capability desktop_key_capability needs_desktop_def)

text \<open>The pointer and the aim state after a key.\<close>

lemma engine_key_parts:
  fixes e s b st
  assumes "six e"
  defines "e' \<equiv> fst (engine_key e s b st)"
  shows "eng_pointer e' =
      (if Profile_contains (eng_profile e) DESKTOP \<and> pointer_bit b \<noteq> 0 \<and> held_any e b \<noteq> held_any e' b
       then fst (update_key (eng_pointer e) (pointer_bit b) (held_any e' b)) else eng_pointer e)"
    and "eng_aim e' =
      (if held_any e b \<noteq> held_any e' b
       then fst (activation_key (eng_aim e) (Button_code b) (held_any e' b)) else eng_aim e)"
proof -
  let ?e1 = "e\<lparr>eng_held := update_held (eng_held e) s b st\<rparr>"
  have six1: "six ?e1" using assms(1) by (simp add: six_def)
  have "holds ?e1 = holds e'" unfolding e'_def by (intro holds_cong) simp
  then have any: "held_any ?e1 = held_any e'" by (simp add: held_any_def fun_eq_iff)
  let ?is = "mask_has (held_buttons ?e1) (button_bit b)"
  have now: "?is = held_any e' b" using held_buttons_iff [OF six1] any by simp
  have "eng_pointer (fst (engine_key e s b st)) =
      (if Profile_contains (eng_profile e) DESKTOP \<and> pointer_bit b \<noteq> 0 \<and> held_any e b \<noteq> ?is
       then fst (update_key (eng_pointer e) (pointer_bit b) ?is) else eng_pointer e)"
    "eng_aim (fst (engine_key e s b st)) =
      (if held_any e b \<noteq> ?is
       then fst (activation_key (eng_aim e) (Button_code b) ?is) else eng_aim e)"
    by (simp_all add: engine_key_def Let_def split_beta held_buttons_iff [OF assms(1)])
  then show "eng_pointer e' =
      (if Profile_contains (eng_profile e) DESKTOP \<and> pointer_bit b \<noteq> 0 \<and> held_any e b \<noteq> held_any e' b
       then fst (update_key (eng_pointer e) (pointer_bit b) (held_any e' b)) else eng_pointer e)"
    "eng_aim e' =
      (if held_any e b \<noteq> held_any e' b
       then fst (activation_key (eng_aim e) (Button_code b) (held_any e' b)) else eng_aim e)"
    unfolding now by (simp_all only: e'_def)
qed

lemma engine_key_actions:
  assumes "aim_config (eng_aim e) = AimConfig_from_config (eng_config e)"
  shows "list_all (action_ok (eng_config e) (eng_profile e)) (snd (engine_key e s b st))"
  unfolding engine_key_def Let_def split_beta
  using assms
  by (auto simp: emit_key_transition_ok emit_delta_ok emit_aim_ok split: option.split)

lemma direction_index_less: "direction_index d < 4"
  by (cases d) simp_all

lemma bit_direction: "bit (direction_bit d) n \<longleftrightarrow> n = direction_index d"
  using direction_index_less [of d] by (auto simp: directions.one_bit bit_exp_iff)

lemma engine_key_follows:
  assumes six: "six e" and f: "pointer_follows e"
  shows "pointer_follows (fst (engine_key e s b st))"
proof -
  let ?e' = "fst (engine_key e s b st)" and ?desk = "Profile_contains (eng_profile e) DESKTOP"
  note ptr = engine_key_parts(1) [OF six, of s b st]
  have other: "b' \<noteq> b \<Longrightarrow> held_any ?e' b' = held_any e b'" for b'
    by (rule held_any_engine_key [OF six])
  show ?thesis
  proof (cases "?desk \<and> pointer_bit b \<noteq> 0 \<and> held_any e b \<noteq> held_any ?e' b")
    case True
    then obtain d where d: "b = direction_button d" using pointer_bit_cases by blast
    then have p': "eng_pointer ?e' = fst (update_key (eng_pointer e) (direction_bit d) (held_any ?e' b))"
      using ptr True by (simp add: pointer_bit_direction)
    have "bit (ptr_keys (eng_pointer ?e')) n \<Longrightarrow> n < 4" for n
      using f direction_index_less [of d]
      by (auto simp: p' update_key_fields pointer_follows_def bit_or_iff bit_and_iff bit_direction
          split: if_splits)
    moreover have "pressed (eng_pointer ?e') d' \<longleftrightarrow> ?desk \<and> held_any ?e' (direction_button d')" for d'
      unfolding p' pressed_update_key
      using True f other [of "direction_button d'"] d
      by (auto simp: pointer_follows_def direction_button_inj)
    ultimately show ?thesis by (simp add: pointer_follows_def)
  next
    case False
    then have p': "eng_pointer ?e' = eng_pointer e" using ptr by auto
    have "?desk \<and> held_any ?e' (direction_button d) \<longleftrightarrow> ?desk \<and> held_any e (direction_button d)" for d
    proof (cases "direction_button d = b")
      case True
      moreover have "direction_bit d \<noteq> 0" by (rule directions.bit_nonzero)
      ultimately show ?thesis using False pointer_bit_direction [of d] by auto
    next
      case False
      then show ?thesis using other by simp
    qed
    then show ?thesis using f unfolding pointer_follows_def p' by simp
  qed
qed

lemma eng_inv_engine_key:
  assumes "eng_inv c p e"
  shows "eng_inv c p (fst (engine_key e s b st))"
proof -
  have i: "six e" "pointer_follows e" "aim_inv (eng_aim e)" "velocity_inv (eng_pointer e)"
    "ir_inv (eng_pointer e)" "between 1 127 (ptr_speed (eng_pointer e))"
    using assms by (auto simp: eng_inv_def config_ok_def)
  have "aim_inv (eng_aim (fst (engine_key e s b st)))"
    using i(3) activation_key_good by (simp add: engine_key_parts(2) [OF i(1)] aim_good_def)
  moreover have "velocity_inv (eng_pointer (fst (engine_key e s b st)))"
    "ir_inv (eng_pointer (fst (engine_key e s b st)))"
    "ptr_speed (eng_pointer (fst (engine_key e s b st))) = ptr_speed (eng_pointer e)"
    using i by (simp_all add: engine_key_parts(1) [OF i(1)] update_key_inv ir_inv_def update_key_fields)
  ultimately show ?thesis
    using assms engine_key_follows [OF i(1,2)]
    by (simp add: eng_inv_def engine_key_parts(2) [OF i(1)])
qed

lemma release_buttons_step:
  "eng_inv c p e \<Longrightarrow> eng_inv c p (fst (release_buttons e s h bs)) \<and>
     list_all (action_ok c p) (snd (release_buttons e s h bs))"
proof (induction bs arbitrary: e)
  case (Cons b bs)
  have "list_all (action_ok c p) (snd (engine_key e s b Released))"
    using engine_key_actions [of e s b Released] Cons.prems by (simp add: eng_inv_def)
  then show ?case using Cons eng_inv_engine_key [OF Cons.prems] by simp
qed simp

lemma eng_inv_aim:
  "eng_inv c p e \<Longrightarrow> aim_good r \<Longrightarrow> aim_config (fst r) = aim_config (eng_aim e) \<Longrightarrow>
   eng_inv c p (e\<lparr>eng_aim := fst r\<rparr>)"
  by (simp add: eng_inv_def aim_good_def pointer_follows_def held_any_def holds_def six_def)

lemma motion_actions:
  "needs_gamepad p c \<Longrightarrow> list_all axis_fits axes \<Longrightarrow>
   list_all (action_ok c p) (map (\<lambda>a. OutAbs DevGamepad (ma_code a) (ma_value a)) axes)"
  by (induction axes) (auto, metis (full_types) mapped_axis.surjective old.unit.exhaust)

lemma engine_motion_step:
  assumes inv: "eng_inv c p e" and ok: "input_ok (InMotion kind axes)"
  shows "eng_inv c p (fst (engine_motion e kind axes)) \<and>
    list_all (action_ok c p) (snd (engine_motion e kind axes))"
proof -
  have fits: "list_all axis_fits (map_motion kind axes)"
    using ok by (intro map_motion_fits) auto
  have acts: "needs_gamepad p c \<Longrightarrow> list_all (action_ok c p)
      (map (\<lambda>a. OutAbs DevGamepad (ma_code a) (ma_value a)) (map_motion kind axes))"
    by (rule motion_actions [OF _ fits])
  have "aim_good (process_accelerometer (eng_aim e) v)"
    "sample_ok v \<Longrightarrow> aim_good (process_motion_plus (eng_aim e) v)" for v
    using inv by (auto simp: eng_inv_def intro: process_accelerometer_good process_motion_plus_good)
  moreover have "aim_config (eng_aim (e\<lparr>eng_aim := a\<rparr>)) = aim_config a" for a by simp
  moreover have "aim_config (eng_aim e) = AimConfig_from_config c" "eng_config e = c" "eng_profile e = p"
    using inv by (simp_all add: eng_inv_def)
  ultimately show ?thesis
    using ok acts inv
    by (cases kind) (simp_all add: engine_motion_def Let_def split_beta eng_inv_aim emit_aim_ok)
qed

lemma engine_ir_step:
  assumes inv: "eng_inv c p e" and ok: "input_ok (InIr frame)"
  shows "eng_inv c p (fst (engine_ir e frame)) \<and> list_all (action_ok c p) (snd (engine_ir e frame))"
proof -
  let ?pt = "select_ir (eng_pointer e) frame"
  have frame: "\<forall>q \<in> set frame. point_coord q" "length frame = 4" using ok by auto
  have pt: "\<forall>q. ?pt = Some q \<longrightarrow> ir_coord (pt_x q) \<and> ir_coord (pt_y q)"
    using select_Some [OF frame] by (auto simp: select_ir_def point_coord_def)
  then have ev: "aim_event_ok (AimIr ?pt)" by (auto simp: ir_coord_def in_i32_def)
  define e1 where "e1 = (if Profile_contains (eng_profile e) DESKTOP
    then e\<lparr>eng_pointer := fst (update_ir (eng_pointer e) ?pt)\<rparr> else e)"
  have i1: "eng_inv c p e1"
    using inv update_ir_inv [OF _ pt]
    by (simp add: e1_def eng_inv_def pointer_follows_def held_any_def holds_def six_def pressed_def
        update_ir_fields velocity_inv_def)
  then have good: "aim_good (process_ir (eng_aim e1) ?pt)"
    using ev by (intro process_ir_good) (simp_all add: eng_inv_def)
  have fields: "eng_config e = c" "eng_profile e = p" "aim_config (eng_aim e1) = AimConfig_from_config c"
    using inv i1 by (simp_all add: eng_inv_def)
  have out: "engine_ir e frame = (e1\<lparr>eng_aim := fst (process_ir (eng_aim e1) ?pt)\<rparr>,
      (if Profile_contains (eng_profile e) DESKTOP then emit_delta (snd (update_ir (eng_pointer e) ?pt)) else []) @
      emit_aim (e1\<lparr>eng_aim := fst (process_ir (eng_aim e1) ?pt)\<rparr>) (snd (process_ir (eng_aim e1) ?pt)))"
    by (simp add: engine_ir_def Let_def split_beta e1_def update_ir_frame_def)
  show ?thesis
    using eng_inv_aim [OF i1 good] fields by (simp add: out emit_delta_ok emit_aim_ok)
qed

lemma pointer_tick_needs_desktop: "eng_inv c p e \<Longrightarrow> pointer_active e \<Longrightarrow> Profile_contains p DESKTOP"
proof -
  assume inv: "eng_inv c p e" and act: "pointer_active e"
  obtain n where n: "bit (ptr_keys (eng_pointer e)) n"
    using act by (auto simp: pointer_active_def bit_eq_iff)
  then have "n < 4" using inv by (auto simp: eng_inv_def pointer_follows_def)
  then obtain d where "direction_index d = n" using direction_index_surj by blast
  then have "pressed (eng_pointer e) d"
    using n by (simp add: pressed_def directions.has_iff)
  then show ?thesis using inv by (auto simp: eng_inv_def pointer_follows_def)
qed

lemma eng_inv_reset: "eng_inv c p e \<Longrightarrow> eng_inv c p (fst (engine_process e InReset))"
proof -
  assume inv: "eng_inv c p e"
  have "\<not> holds (fst (engine_process e InReset)) s b" for s b
    using inv holds_engine_process [of e InReset s b] by (simp add: eng_inv_def)
  then have none: "\<not> held_any (fst (engine_process e InReset)) b" for b by (simp add: held_any_def)
  have "aim_good (aim_reset_session (eng_aim e))"
    using inv by (intro aim_reset_session_good) (simp add: eng_inv_def)
  then show ?thesis
    using inv none
    by (simp add: eng_inv_def aim_good_def pointer_follows_def pressed_def pointer_reset_def reset_ir_def
        velocity_inv_def axis_speed_def ir_inv_def ir_coord_def six_def)
qed

text \<open>The engine keeps its invariant and stays within its devices, for every profile.\<close>

interpretation engine: kept_invariant engine_process input_ok "eng_inv c p" "action_ok c p"
  for c p
proof
  fix e i assume inv: "eng_inv c p e" and ok: "input_ok i"
  have "eng_inv c p (fst (engine_process e i)) \<and> list_all (action_ok c p) (snd (engine_process e i))"
  proof (cases i)
    case (InKey s b st)
    then show ?thesis
      using eng_inv_engine_key [OF inv] engine_key_actions [of e s b st] inv
      by (simp add: eng_inv_def)
  next
    case (InMotion k ax)
    then show ?thesis using engine_motion_step [OF inv] ok by simp
  next
    case (InIr f)
    then show ?thesis using engine_ir_step [OF inv] ok by simp
  next
    case InPointerTick
    then show ?thesis using inv pointer_tick_needs_desktop [OF inv] by (simp add: emit_delta_ok)
  next
    case (InSourceRemoved s)
    then show ?thesis using release_buttons_step [OF inv] by simp
  next
    case InReset
    then show ?thesis using eng_inv_reset [OF inv] by simp
  qed
  then show "eng_inv c p (fst (engine_process e i))" "list_all (action_ok c p) (snd (engine_process e i))"
    by simp_all
qed

lemma eng_inv_new: "config_ok c \<Longrightarrow> eng_inv c p (DeviceEngine_new c p)"
proof -
  assume ok: "config_ok c"
  have "aim_inv (AimState_new (AimConfig_from_config c))"
    using config_ok_aim [OF ok] by (simp add: aim_inv_def AimState_new_def)
  moreover have "\<not> held_any (DeviceEngine_new c p) b" for b by (simp add: held_any_def new_engine_empty)
  ultimately show ?thesis
    using ok new_engine_empty(1) [of c p]
    by (simp add: eng_inv_def pointer_follows_def config_ok_def)
      (simp add: DeviceEngine_new_def AimState_new_def PointerState_new_def velocity_inv_def
        pressed_def axis_speed_def ir_inv_def ir_coord_def)
qed

text \<open>
  C25. Every action is deliverable. From a validated configuration, whatever admissible
  history the engine processes, each action it emits names a virtual device that the
  profile needs (and the adapter therefore created), a key, axis or relative code that
  device advertises, and for an axis a value within the range it was created with.
\<close>

theorem actions_deliverable:
  assumes "config_ok c" and "list_all input_ok inputs"
  shows "list_all (action_ok c p) (snd (run_steps engine_process (DeviceEngine_new c p) inputs))"
  by (rule engine.run_out [OF eng_inv_new [OF assms(1)] assms(2)])

definition sample_inputs :: "engine_input list" where
  "sample_inputs =
    [InKey SrcCore BtnLeft Pressed, InPointerTick, InIr sample_frame,
     InMotion MotAccel (replicate 8 \<lparr>abs_x = 90, abs_y = - 40, abs_z = 100\<rparr>), InSourceRemoved SrcCore, InReset]"

lemma sample_inputs_ok: "list_all input_ok sample_inputs"
  by (simp add: sample_inputs_def sample_frame_def point_coord_def ir_coord_def in_i32_def)

lemma Config_default_ok: "config_ok Config_default"
  by (simp add: config_ok_def Config_default_def Profile_is_valid_def GAMEPAD_def BOTH_def between_def
      calibration_ok_def MAX_DEVICE_RULES_def)

theorem actions_deliverable_witness:
  "list_all (action_ok Config_default BOTH)
     (snd (run_steps engine_process (DeviceEngine_new Config_default BOTH) sample_inputs))"
  by (rule actions_deliverable [OF Config_default_ok sample_inputs_ok])

text \<open>
  The cursor follows the D-pad. After any admissible history a pointer tick moves the
  cursor exactly when a desktop profile has a direction button held by some source: its
  movement is the configured speed along every axis on which just one of the two opposite
  directions is held, and there is nothing to emit when none is held.
\<close>

theorem pointer_tick_follows_dpad:
  assumes "config_ok c" and "list_all input_ok inputs"
    and "run_steps engine_process (DeviceEngine_new c p) inputs = (e, actions)"
  shows "engine_process e InPointerTick =
    (e, if Profile_contains p DESKTOP \<and> (\<exists>d. held_any e (direction_button d))
        then emit_pointer (axis_speed (cfg_pointer_speed c) (held_any e BtnLeft) (held_any e BtnRight))
               (axis_speed (cfg_pointer_speed c) (held_any e BtnUp) (held_any e BtnDown))
        else [])"
proof -
  have inv: "eng_inv c p e"
    using engine.run_inv [OF eng_inv_new [OF assms(1)] assms(2), of p] assms(3) by simp
  have pr: "pressed (eng_pointer e) d \<longleftrightarrow> Profile_contains p DESKTOP \<and> held_any e (direction_button d)" for d
    using inv by (simp add: eng_inv_def pointer_follows_def)
  have act: "pointer_active e \<longleftrightarrow> (\<exists>d. pressed (eng_pointer e) d)"
  proof
    assume "pointer_active e"
    then obtain n where n: "bit (ptr_keys (eng_pointer e)) n"
      by (auto simp: pointer_active_def bit_eq_iff)
    then have "n < 4" using inv by (auto simp: eng_inv_def pointer_follows_def)
    then show "\<exists>d. pressed (eng_pointer e) d"
      using n direction_index_surj by (metis directions.has_iff pressed_def)
  next
    assume "\<exists>d. pressed (eng_pointer e) d"
    then show "pointer_active e" by (auto simp: pressed_def pointer_active_def)
  qed
  have "ptr_speed (eng_pointer e) = cfg_pointer_speed c" "velocity_inv (eng_pointer e)"
    using inv by (simp_all add: eng_inv_def)
  then show ?thesis
    using act pr [of DirLeft] pr [of DirRight] pr [of DirUp] pr [of DirDown] pr
    by (auto simp: pointer_tick_def velocity_def velocity_inv_def emit_delta_def)
qed

theorem pointer_tick_follows_dpad_witness:
  "\<exists>e actions. run_steps engine_process (DeviceEngine_new Config_default DESKTOP) [InKey SrcCore BtnLeft Pressed] = (e, actions) \<and>
     held_any e BtnLeft \<and>
     snd (engine_process e InPointerTick) = emit_pointer (axis_speed 16 True (held_any e BtnRight))
       (axis_speed 16 (held_any e BtnUp) (held_any e BtnDown))"
proof -
  let ?is = "[InKey SrcCore BtnLeft Pressed]"
  obtain e actions where run: "run_steps engine_process (DeviceEngine_new Config_default DESKTOP) ?is = (e, actions)"
    by force
  have e: "e = fst (engine_key (DeviceEngine_new Config_default DESKTOP) SrcCore BtnLeft Pressed)"
    using run by (simp add: split_beta)
  have h: "held_any e BtnLeft"
    unfolding e held_any_def
    using holds_engine_key [OF new_engine_empty(1), of Config_default DESKTOP SrcCore BtnLeft Pressed SrcCore BtnLeft]
    by auto
  then have d: "\<exists>d. held_any e (direction_button d)" by (metis direction_button.simps(1))
  have "list_all input_ok ?is" by simp
  from pointer_tick_follows_dpad [OF Config_default_ok this run] h d
  show ?thesis using run by (auto simp: Profile_contains_def Config_default_def)
qed

text \<open>
  Losing an interface. Removing a source releases every button it held and nothing else:
  afterwards the source holds nothing, every other source holds what it held before, and a
  second removal of the same source changes nothing and emits nothing.
\<close>

theorem source_removed_releases:
  assumes "length (eng_held e) = length InputSource_ALL"
    and "engine_process e (InSourceRemoved s) = (e', out)"
  shows "(\<forall>b. \<not> holds e' s b) \<and> (\<forall>s' b. s' \<noteq> s \<longrightarrow> holds e' s' b = holds e s' b) \<and>
    engine_process e' (InSourceRemoved s) = (e', [])"
proof -
  have six: "six e" using assms(1) by (simp add: six_def InputSource_ALL_def)
  have h: "holds e' s' b \<longleftrightarrow> s' \<noteq> s \<and> holds e s' b" for s' b
    using holds_engine_process [OF six, of "InSourceRemoved s" s' b] assms(2) by simp
  have "release_buttons e' s (eng_held e' ! InputSource_index s) bs = (e', [])" for bs
    by (induction bs) (use h [of s] in \<open>simp_all add: holds_def\<close>)
  then show ?thesis using h by simp
qed

theorem source_removed_releases_witness:
  "\<not> holds (fst (engine_process (fst (engine_process (DeviceEngine_new Config_default GAMEPAD)
      (InKey SrcGuitar BtnFretUp Pressed))) (InSourceRemoved SrcGuitar))) SrcGuitar BtnFretUp"
proof -
  let ?e = "fst (engine_process (DeviceEngine_new Config_default GAMEPAD) (InKey SrcGuitar BtnFretUp Pressed))"
  obtain e' out where p: "engine_process ?e (InSourceRemoved SrcGuitar) = (e', out)" by force
  have len: "length (eng_held ?e) = length InputSource_ALL" by (simp add: DeviceEngine_new_def)
  show ?thesis using source_removed_releases [OF len p] p by simp
qed

end
