(* ===== verification/Calibration.thy ===== *)
theory Calibration
  imports Config_Types
begin

text \<open>
  The calibration windows of \<open>crates/wiiland-core/src/calibration.rs\<close>: running sums and
  extrema of the samples of a resting sensor, and the calibration they amount to when there
  are enough of them and they are still enough. A sample is the list of its three axes.
\<close>

definition AIM_CALIBRATION_MIN_SAMPLES :: nat where "AIM_CALIBRATION_MIN_SAMPLES = 16"
definition AIM_CALIBRATION_MAX_JITTER :: int where "AIM_CALIBRATION_MAX_JITTER = 512"
definition I32_MAX :: int where "I32_MAX = 2147483647"
definition I32_MIN :: int where "I32_MIN = - 2147483648"
definition U32_LIMIT :: nat where "U32_LIMIT = 4294967295"

record calibration_stats =
  cs_samples :: nat
  cs_sum_x :: int
  cs_sum_y :: int
  cs_sum_z :: int
  cs_min_x :: int
  cs_min_y :: int
  cs_min_z :: int
  cs_max_x :: int
  cs_max_y :: int
  cs_max_z :: int

definition CalibrationStats_new :: calibration_stats where
  "CalibrationStats_new =
    \<lparr>cs_samples = 0, cs_sum_x = 0, cs_sum_y = 0, cs_sum_z = 0,
     cs_min_x = I32_MAX, cs_min_y = I32_MAX, cs_min_z = I32_MAX,
     cs_max_x = I32_MIN, cs_max_y = I32_MIN, cs_max_z = I32_MIN\<rparr>"

definition stats_clear :: "calibration_stats \<Rightarrow> calibration_stats" where
  "stats_clear s = CalibrationStats_new"

definition stats_add :: "calibration_stats \<Rightarrow> int \<times> int \<times> int \<Rightarrow> calibration_stats" where
  "stats_add s sample =
    (case sample of (x, y, z) \<Rightarrow>
      \<lparr>cs_samples = min (cs_samples s + 1) U32_LIMIT,
       cs_sum_x = as_i64 (cs_sum_x s + x), cs_sum_y = as_i64 (cs_sum_y s + y),
       cs_sum_z = as_i64 (cs_sum_z s + z),
       cs_min_x = min (cs_min_x s) x, cs_min_y = min (cs_min_y s) y, cs_min_z = min (cs_min_z s) z,
       cs_max_x = max (cs_max_x s) x, cs_max_y = max (cs_max_y s) y, cs_max_z = max (cs_max_z s) z\<rparr>)"

definition stats_jitter :: "calibration_stats \<Rightarrow> int" where
  "stats_jitter s =
    (if cs_samples s = 0 then 0
     else as_i32 (min (max (max (cs_max_x s - cs_min_x s) (cs_max_y s - cs_min_y s))
                           (cs_max_z s - cs_min_z s)) I32_MAX))"

definition stats_finish :: "calibration_stats \<Rightarrow> sensor_calibration option" where
  "stats_finish s =
    (if cs_samples s < AIM_CALIBRATION_MIN_SAMPLES \<or> stats_jitter s > AIM_CALIBRATION_MAX_JITTER
     then None
     else Some
       \<lparr>cal_x = as_i32 (cs_sum_x s sdiv int (cs_samples s)),
        cal_y = as_i32 (cs_sum_y s sdiv int (cs_samples s)),
        cal_z = as_i32 (cs_sum_z s sdiv int (cs_samples s)), cal_axes = CAL_ALL\<rparr>)"

definition sensor_calibration_ready :: "sensor_calibration \<Rightarrow> bool" where
  "sensor_calibration_ready c \<longleftrightarrow> cal_axes c = CAL_ALL"


section \<open>Lemmas\<close>

definition sx :: "int \<times> int \<times> int \<Rightarrow> int" where "sx s = fst s"
definition sy :: "int \<times> int \<times> int \<Rightarrow> int" where "sy s = fst (snd s)"
definition sz :: "int \<times> int \<times> int \<Rightarrow> int" where "sz s = snd (snd s)"

definition stats_of :: "(int \<times> int \<times> int) list \<Rightarrow> calibration_stats" where
  "stats_of samples = foldl stats_add CalibrationStats_new samples"

definition samples_ok :: "(int \<times> int \<times> int) list \<Rightarrow> bool" where
  "samples_ok xs \<longleftrightarrow> length xs \<le> U32_LIMIT \<and> (\<forall>s \<in> set xs. in_i32 (sx s) \<and> in_i32 (sy s) \<and> in_i32 (sz s))"

text \<open>A sum of at most \<open>2^32 - 1\<close> values of an \<open>i32\<close> fits an \<open>i64\<close>.\<close>

lemma sum_list_abs: "\<forall>s \<in> set xs. in_i32 (f s) \<Longrightarrow> \<bar>sum_list (map f xs)\<bar> \<le> 2147483648 * int (length xs)"
  by (induction xs) (auto simp: in_i32_def abs_le_iff algebra_simps)

lemma sum_fits:
  assumes "length xs \<le> U32_LIMIT" "\<forall>s \<in> set xs. in_i32 (f s)"
  shows "as_i64 (sum_list (map f xs)) = sum_list (map f xs)"
proof -
  have "int (length xs) \<le> 4294967295" using assms(1) by (simp add: U32_LIMIT_def)
  then show ?thesis using sum_list_abs [OF assms(2)] by (intro as_i64_id in_i64_abs) linarith
qed

lemma stats_of_extrema:
  "cs_min_x (stats_of xs) = foldl min I32_MAX (map sx xs)"
  "cs_min_y (stats_of xs) = foldl min I32_MAX (map sy xs)"
  "cs_min_z (stats_of xs) = foldl min I32_MAX (map sz xs)"
  "cs_max_x (stats_of xs) = foldl max I32_MIN (map sx xs)"
  "cs_max_y (stats_of xs) = foldl max I32_MIN (map sy xs)"
  "cs_max_z (stats_of xs) = foldl max I32_MIN (map sz xs)"
  by (induction xs rule: rev_induct)
    (simp_all add: stats_of_def CalibrationStats_new_def stats_add_def split_beta sx_def sy_def sz_def)

lemma stats_of_sums:
  "samples_ok xs \<Longrightarrow>
    cs_samples (stats_of xs) = length xs \<and>
    cs_sum_x (stats_of xs) = sum_list (map sx xs) \<and> cs_sum_y (stats_of xs) = sum_list (map sy xs) \<and>
    cs_sum_z (stats_of xs) = sum_list (map sz xs)"
proof (induction xs rule: rev_induct)
  case Nil
  then show ?case by (simp add: stats_of_def CalibrationStats_new_def)
next
  case (snoc s xs)
  have ok: "samples_ok xs" using snoc.prems by (simp add: samples_ok_def)
  have "as_i64 (sum_list (map f xs) + f s) = sum_list (map f xs) + f s"
    if "\<forall>t \<in> set (xs @ [s]). in_i32 (f t)" for f
    using sum_fits [of "xs @ [s]" f] snoc.prems that by (simp add: samples_ok_def)
  then have "as_i64 (sum_list (map sx xs) + sx s) = sum_list (map sx xs) + sx s"
    "as_i64 (sum_list (map sy xs) + sy s) = sum_list (map sy xs) + sy s"
    "as_i64 (sum_list (map sz xs) + sz s) = sum_list (map sz xs) + sz s"
    using snoc.prems by (auto simp: samples_ok_def)
  moreover have "stats_of (xs @ [s]) = stats_add (stats_of xs) s" by (simp add: stats_of_def)
  ultimately show ?case
    using snoc.IH [OF ok] snoc.prems
    by (simp add: stats_add_def split_beta samples_ok_def sx_def [of s] sy_def [of s] sz_def [of s])
qed

lemma le_foldl_min: "m \<le> foldl min a ys \<longleftrightarrow> m \<le> a \<and> (\<forall>y \<in> set ys. m \<le> (y :: int))"
  by (induction ys arbitrary: a) auto

lemma foldl_max_le: "foldl max a ys \<le> m \<longleftrightarrow> a \<le> m \<and> (\<forall>y \<in> set ys. (y :: int) \<le> m)"
  by (induction ys arbitrary: a) auto

text \<open>The spread of one axis is at most \<open>d\<close> when no two samples are further apart.\<close>

lemma spread_le:
  assumes "\<forall>s \<in> set xs. in_i32 (f s)" "0 \<le> d"
  shows "foldl max I32_MIN (map f xs) - foldl min I32_MAX (map f xs) \<le> d \<longleftrightarrow>
    (\<forall>s \<in> set xs. \<forall>t \<in> set xs. f s - f t \<le> d)"
proof -
  let ?m = "foldl min I32_MAX (map f xs)"
  have "foldl max I32_MIN (map f xs) \<le> d + ?m \<longleftrightarrow> I32_MIN - d \<le> ?m \<and> (\<forall>s \<in> set xs. f s - d \<le> ?m)"
    by (auto simp: foldl_max_le)
  also have "I32_MIN - d \<le> ?m \<longleftrightarrow> True"
    using assms by (fastforce simp: le_foldl_min I32_MIN_def I32_MAX_def in_i32_def)
  also have "(True \<and> (\<forall>s \<in> set xs. f s - d \<le> ?m)) \<longleftrightarrow> (\<forall>s \<in> set xs. \<forall>t \<in> set xs. f s - d \<le> f t)"
    using assms by (fastforce simp: le_foldl_min I32_MAX_def in_i32_def)
  finally show ?thesis by (auto simp: algebra_simps)
qed

text \<open>No two samples differ by more than \<open>d\<close> on any axis.\<close>

definition steady :: "int \<Rightarrow> (int \<times> int \<times> int) list \<Rightarrow> bool" where
  "steady d xs \<longleftrightarrow> (\<forall>s \<in> set xs. \<forall>t \<in> set xs. sx s - sx t \<le> d \<and> sy s - sy t \<le> d \<and> sz s - sz t \<le> d)"

lemma stats_jitter_le:
  assumes "samples_ok xs" "xs \<noteq> []"
  shows "stats_jitter (stats_of xs) \<le> 512 \<longleftrightarrow> steady 512 xs"
proof -
  let ?dx = "cs_max_x (stats_of xs) - cs_min_x (stats_of xs)"
  let ?dy = "cs_max_y (stats_of xs) - cs_min_y (stats_of xs)"
  let ?dz = "cs_max_z (stats_of xs) - cs_min_z (stats_of xs)"
  obtain s where s: "s \<in> set xs" using assms(2) by (meson last_in_set)
  have "0 \<le> foldl max I32_MIN (map f xs) - foldl min I32_MAX (map f xs)" for f
  proof -
    have "f s \<le> foldl max I32_MIN (map f xs)" "foldl min I32_MAX (map f xs) \<le> f s"
      using s foldl_max_le [of I32_MIN "map f xs" "foldl max I32_MIN (map f xs)"]
        le_foldl_min [of "foldl min I32_MAX (map f xs)" I32_MAX "map f xs"] by auto
    then show ?thesis by linarith
  qed
  then have pos: "0 \<le> ?dx" "0 \<le> ?dy" "0 \<le> ?dz" by (simp_all add: stats_of_extrema)
  define m where "m = max (max ?dx ?dy) ?dz"
  have m: "0 \<le> m" using pos by (simp add: m_def)
  have "as_i32 (min m I32_MAX) = min m I32_MAX"
    using m by (intro as_i32_id) (auto simp: in_i32_def I32_MAX_def)
  then have "stats_jitter (stats_of xs) = min m I32_MAX"
    using stats_of_sums [OF assms(1)] assms(2) unfolding stats_jitter_def m_def [symmetric] by simp
  then have "stats_jitter (stats_of xs) \<le> 512 \<longleftrightarrow> ?dx \<le> 512 \<and> ?dy \<le> 512 \<and> ?dz \<le> 512"
    by (auto simp: m_def I32_MAX_def)
  also have "\<dots> \<longleftrightarrow> steady 512 xs"
    using assms(1) spread_le [of xs sx 512] spread_le [of xs sy 512] spread_le [of xs sz 512]
    by (auto simp: stats_of_extrema samples_ok_def steady_def)
  finally show ?thesis .
qed

lemma mean_between:
  assumes "xs \<noteq> []" "\<forall>s \<in> set xs. lo \<le> f s \<and> f s \<le> hi"
  shows "lo \<le> sum_list (map f xs) sdiv int (length xs) \<and> sum_list (map f xs) sdiv int (length xs) \<le> hi"
proof (rule sdiv_between)
  have "lo * int (length xs) \<le> sum_list (map f xs) \<and> sum_list (map f xs) \<le> hi * int (length xs)"
    using assms(2) by (induction xs) (auto simp: algebra_simps)
  then show "lo * int (length xs) \<le> sum_list (map f xs)" "sum_list (map f xs) \<le> hi * int (length xs)"
    by auto
qed (use assms(1) in simp)

definition mean :: "((int \<times> int \<times> int) \<Rightarrow> int) \<Rightarrow> (int \<times> int \<times> int) list \<Rightarrow> int" where
  "mean f xs = sum_list (map f xs) sdiv int (length xs)"

lemma mean_i32: "xs \<noteq> [] \<Longrightarrow> \<forall>s \<in> set xs. in_i32 (f s) \<Longrightarrow> as_i32 (mean f xs) = mean f xs"
  using mean_between [of xs "- 2147483648" f 2147483647]
  by (intro as_i32_id) (auto simp: in_i32_def mean_def)

text \<open>
  When a calibration window succeeds and what it yields. For up to \<open>2^32 - 1\<close> samples of
  a 32-bit sensor (no intermediate sum wraps), \<open>finish\<close> returns a calibration exactly when
  there are at least 16 samples and no two of them differ by more than 512 on an axis; it is
  then complete, and each of its axes is the truncated mean, which lies between the smallest
  and the largest sample of that axis.
\<close>

theorem calibration_window_sound:
  assumes "samples_ok xs"
  shows "stats_finish (stats_of xs) =
    (if 16 \<le> length xs \<and> steady 512 xs
     then Some \<lparr>cal_x = mean sx xs, cal_y = mean sy xs, cal_z = mean sz xs, cal_axes = CAL_ALL\<rparr>
     else None) \<and>
    (\<forall>lo hi. xs \<noteq> [] \<and> (\<forall>s \<in> set xs. lo \<le> sx s \<and> sx s \<le> hi) \<longrightarrow> lo \<le> mean sx xs \<and> mean sx xs \<le> hi)"
proof -
  note sums = stats_of_sums [OF assms]
  have "stats_finish (stats_of xs) =
    (if 16 \<le> length xs \<and> steady 512 xs
     then Some \<lparr>cal_x = mean sx xs, cal_y = mean sy xs, cal_z = mean sz xs, cal_axes = CAL_ALL\<rparr>
     else None)"
  proof (cases "16 \<le> length xs")
    case False
    then show ?thesis using sums by (simp add: stats_finish_def AIM_CALIBRATION_MIN_SAMPLES_def)
  next
    case True
    then have ne: "xs \<noteq> []" by auto
    have m: "as_i32 (mean sx xs) = mean sx xs" "as_i32 (mean sy xs) = mean sy xs"
      "as_i32 (mean sz xs) = mean sz xs"
      using assms ne by (simp_all add: mean_i32 samples_ok_def)
    have j: "AIM_CALIBRATION_MAX_JITTER < stats_jitter (stats_of xs) \<longleftrightarrow> \<not> steady 512 xs"
      using stats_jitter_le [OF assms ne] unfolding AIM_CALIBRATION_MAX_JITTER_def by linarith
    show ?thesis
      using True sums m unfolding stats_finish_def j AIM_CALIBRATION_MIN_SAMPLES_def mean_def by simp
  qed
  moreover have "lo \<le> mean sx xs \<and> mean sx xs \<le> hi"
    if "xs \<noteq> [] \<and> (\<forall>s \<in> set xs. lo \<le> sx s \<and> sx s \<le> hi)" for lo hi
    using mean_between [of xs lo sx hi] that unfolding mean_def by blast
  ultimately show ?thesis by blast
qed

theorem calibration_window_sound_witness:
  "stats_finish (stats_of (replicate 16 (7, - 3, 500))) =
    Some \<lparr>cal_x = 7, cal_y = - 3, cal_z = 500, cal_axes = CAL_ALL\<rparr>"
proof -
  let ?xs = "replicate 16 (7, - 3, 500) :: (int \<times> int \<times> int) list"
  have "samples_ok ?xs" "steady 512 ?xs" "16 \<le> length ?xs"
    by (simp_all add: samples_ok_def steady_def U32_LIMIT_def in_i32_def sx_def sy_def sz_def)
  moreover have "mean sx ?xs = 7" "mean sy ?xs = - 3" "mean sz ?xs = 500"
    by (simp_all add: mean_def sx_def sy_def sz_def sum_list_replicate sdiv_nonneg sdiv_neg)
  ultimately show ?thesis using calibration_window_sound [of ?xs] by simp
qed

end
