(* ===== verification/Trace.thy ===== *)
theory Trace
  imports Config_Types Std_Text
begin

text \<open>
  The diagnostic trace of \<open>crates/wiiland-core/src/trace.rs\<close>: the stable numbers and names of
  the event types, the filters of a trace, and the text line of one event. Raw event types,
  key codes and sequence numbers are unsigned and never computed with: \<open>nat\<close>.
\<close>

section \<open>Event types\<close>

datatype event_type =
    EvKey | EvAccelerometer | EvIr | EvBalanceBoard | EvMotionPlus | EvProKey | EvProMove | EvWatch | EvClassicKey
  | EvClassicMove | EvNunchukKey | EvNunchukMove | EvDrumsKey | EvDrumsMove | EvGuitarKey | EvGuitarMove | EvGone | EvUnknown nat

fun EventType_from_raw :: "nat \<Rightarrow> event_type" where
  "EventType_from_raw raw =
    (if raw = 0 then EvKey
     else if raw = 1 then EvAccelerometer
     else if raw = 2 then EvIr
     else if raw = 3 then EvBalanceBoard
     else if raw = 4 then EvMotionPlus
     else if raw = 5 then EvProKey
     else if raw = 6 then EvProMove
     else if raw = 7 then EvWatch
     else if raw = 8 then EvClassicKey
     else if raw = 9 then EvClassicMove
     else if raw = 10 then EvNunchukKey
     else if raw = 11 then EvNunchukMove
     else if raw = 12 then EvDrumsKey
     else if raw = 13 then EvDrumsMove
     else if raw = 14 then EvGuitarKey
     else if raw = 15 then EvGuitarMove
     else if raw = 16 then EvGone
     else EvUnknown raw)"

declare EventType_from_raw.simps [simp del]

fun EventType_raw :: "event_type \<Rightarrow> nat" where
  "EventType_raw EvKey = 0"
| "EventType_raw EvAccelerometer = 1"
| "EventType_raw EvIr = 2"
| "EventType_raw EvBalanceBoard = 3"
| "EventType_raw EvMotionPlus = 4"
| "EventType_raw EvProKey = 5"
| "EventType_raw EvProMove = 6"
| "EventType_raw EvWatch = 7"
| "EventType_raw EvClassicKey = 8"
| "EventType_raw EvClassicMove = 9"
| "EventType_raw EvNunchukKey = 10"
| "EventType_raw EvNunchukMove = 11"
| "EventType_raw EvDrumsKey = 12"
| "EventType_raw EvDrumsMove = 13"
| "EventType_raw EvGuitarKey = 14"
| "EventType_raw EvGuitarMove = 15"
| "EventType_raw EvGone = 16"
| "EventType_raw (EvUnknown n) = n"

fun EventType_name :: "event_type \<Rightarrow> string" where
  "EventType_name EvKey = ''key''"
| "EventType_name EvAccelerometer = ''accelerometer''"
| "EventType_name EvIr = ''ir''"
| "EventType_name EvBalanceBoard = ''balance-board''"
| "EventType_name EvMotionPlus = ''motion-plus''"
| "EventType_name EvProKey = ''pro-key''"
| "EventType_name EvProMove = ''pro-move''"
| "EventType_name EvWatch = ''watch''"
| "EventType_name EvClassicKey = ''classic-key''"
| "EventType_name EvClassicMove = ''classic-move''"
| "EventType_name EvNunchukKey = ''nunchuk-key''"
| "EventType_name EvNunchukMove = ''nunchuk-move''"
| "EventType_name EvDrumsKey = ''drums-key''"
| "EventType_name EvDrumsMove = ''drums-move''"
| "EventType_name EvGuitarKey = ''guitar-key''"
| "EventType_name EvGuitarMove = ''guitar-move''"
| "EventType_name EvGone = ''gone''"
| "EventType_name (EvUnknown n) = ''unknown''"

definition EventType_is_key :: "event_type \<Rightarrow> bool" where
  "EventType_is_key t \<longleftrightarrow>
    t \<in> {EvKey, EvClassicKey, EvNunchukKey, EvDrumsKey, EvGuitarKey, EvProKey}"

definition EventType_is_axes :: "event_type \<Rightarrow> bool" where
  "EventType_is_axes t \<longleftrightarrow>
    t \<in> {EvAccelerometer, EvIr, EvBalanceBoard, EvMotionPlus, EvClassicMove, EvNunchukMove,
         EvDrumsMove, EvGuitarMove, EvProMove}"

definition event_type_name :: "nat \<Rightarrow> string" where
  "event_type_name raw = EventType_name (EventType_from_raw raw)"

definition is_key_event :: "nat \<Rightarrow> bool" where
  "is_key_event raw \<longleftrightarrow> EventType_is_key (EventType_from_raw raw)"

definition is_abs_event :: "nat \<Rightarrow> bool" where
  "is_abs_event raw \<longleftrightarrow> EventType_is_axes (EventType_from_raw raw)"


section \<open>Filters\<close>

datatype trace_filter = FilterAll | FilterKeys | FilterAxes | FilterIr | FilterMotionPlus

fun TraceFilter_matches :: "trace_filter \<Rightarrow> nat \<Rightarrow> bool" where
  "TraceFilter_matches FilterAll t \<longleftrightarrow> True"
| "TraceFilter_matches FilterKeys t \<longleftrightarrow> is_key_event t"
| "TraceFilter_matches FilterAxes t \<longleftrightarrow> is_abs_event t"
| "TraceFilter_matches FilterIr t \<longleftrightarrow> t = EventType_raw EvIr"
| "TraceFilter_matches FilterMotionPlus t \<longleftrightarrow> t = EventType_raw EvMotionPlus"

fun TraceFilter_name :: "trace_filter \<Rightarrow> string" where
  "TraceFilter_name FilterAll = ''all''"
| "TraceFilter_name FilterKeys = ''keys''"
| "TraceFilter_name FilterAxes = ''axes''"
| "TraceFilter_name FilterIr = ''ir''"
| "TraceFilter_name FilterMotionPlus = ''motion-plus''"

definition TraceFilter_from_str :: "string \<Rightarrow> trace_filter option" where
  "TraceFilter_from_str v =
    (if v = ''all'' then Some FilterAll
     else if v = ''keys'' then Some FilterKeys
     else if v = ''axes'' then Some FilterAxes
     else if v = ''ir'' then Some FilterIr
     else if v = ''motion-plus'' then Some FilterMotionPlus
     else None)"

interpretation filter_text: exact_text "\<lambda>f. Some (TraceFilter_name f)" TraceFilter_from_str
proof
  fix a s
  show "Some (TraceFilter_name a) = Some s \<Longrightarrow> TraceFilter_from_str s = Some a"
    by (cases a) (auto simp: TraceFilter_from_str_def)
  show "Some (TraceFilter_name a) = Some s \<Longrightarrow> plain s"
    by (cases a) (auto simp: plain_simps)
  show "TraceFilter_from_str s = Some a \<Longrightarrow> Some (TraceFilter_name a) = Some s"
    by (auto simp: TraceFilter_from_str_def split: if_splits)
qed

record trace_config =
  tc_enabled :: bool
  tc_filter :: trace_filter

definition TraceConfig_default :: trace_config where
  "TraceConfig_default = \<lparr>tc_enabled = False, tc_filter = FilterAll\<rparr>"

definition TraceConfig_enable :: "trace_config \<Rightarrow> trace_filter option \<Rightarrow> trace_config" where
  "TraceConfig_enable c f =
    (case f of None \<Rightarrow> c\<lparr>tc_enabled := True\<rparr> | Some f \<Rightarrow> c\<lparr>tc_enabled := True, tc_filter := f\<rparr>)"

definition TraceConfig_matches :: "trace_config \<Rightarrow> nat \<Rightarrow> bool" where
  "TraceConfig_matches c t \<longleftrightarrow> tc_enabled c \<and> TraceFilter_matches (tc_filter c) t"


section \<open>Lines\<close>

record key_payload =
  kp_code :: nat
  kp_state :: nat

record abs_payload =
  ap_x :: int
  ap_y :: int
  ap_z :: int

datatype trace_payload = PayloadNone | PayloadKey key_payload | PayloadAxes "abs_payload list"

record trace_event =
  te_sequence :: nat
  te_monotonic_us :: "int option"
  te_syspath :: string
  te_event_type :: nat
  te_payload :: trace_payload

definition TraceEvent_new ::
  "nat \<Rightarrow> int option \<Rightarrow> string \<Rightarrow> nat \<Rightarrow> trace_payload \<Rightarrow> trace_event" where
  "TraceEvent_new sequence monotonic_us syspath event_type payload =
    \<lparr>te_sequence = sequence, te_monotonic_us = monotonic_us, te_syspath = syspath,
     te_event_type = event_type, te_payload = payload\<rparr>"

text \<open>\<open>{micros:06}\<close>: at least six digits, filled with zeros.\<close>

definition pad6 :: "string \<Rightarrow> string" where
  "pad6 s = replicate (6 - length s) (CHR ''0'') @ s"

definition format_axis :: "nat \<times> abs_payload \<Rightarrow> string" where
  "format_axis iv =
    (case iv of (i, v) \<Rightarrow>
      '' abs'' @ dec_nat i @ ''='' @ dec_int (ap_x v) @ '','' @ dec_int (ap_y v) @ '','' @ dec_int (ap_z v))"

definition time_text :: "int option \<Rightarrow> string" where
  "time_text t =
    (case t of
       Some us \<Rightarrow> ''time='' @ dec_int (us div 1000000) @ ''.'' @ pad6 (dec_int (us mod 1000000)) @ '' ''
     | None \<Rightarrow> ''time=unknown '')"

definition payload_text :: "trace_payload \<Rightarrow> string" where
  "payload_text p =
    (case p of
       PayloadKey k \<Rightarrow> '' key='' @ dec_nat (kp_code k) @ '' state='' @ dec_nat (kp_state k)
     | PayloadAxes vs \<Rightarrow> concat (map format_axis (List.enumerate 0 vs))
     | PayloadNone \<Rightarrow> [])"

definition format_line :: "trace_event \<Rightarrow> string" where
  "format_line e =
    time_text (te_monotonic_us e) @
    ''seq='' @ dec_nat (te_sequence e) @ '' '' @ te_syspath e @ '' '' @
    event_type_name (te_event_type e) @ '' type='' @ dec_nat (te_event_type e) @
    payload_text (te_payload e) @ [newline]"


section \<open>Properties\<close>

lemma from_raw_raw: "EventType_raw (EventType_from_raw n) = n"
  by (simp add: EventType_from_raw.simps)

text \<open>
  The event numbering is a faithful wire encoding: every raw number survives the trip
  through \<open>EventType\<close>, known types come back as themselves, and the key and axis filters
  accept disjoint sets of event types, each a part of what \<open>All\<close> accepts.
\<close>

theorem event_type_roundtrip:
  "EventType_raw (EventType_from_raw n) = n \<and>
   ((\<forall>k. t = EvUnknown k \<longrightarrow> 16 < k) \<longrightarrow> EventType_from_raw (EventType_raw t) = t) \<and>
   \<not> (TraceFilter_matches FilterKeys n \<and> TraceFilter_matches FilterAxes n) \<and>
   (TraceFilter_matches FilterIr n \<or> TraceFilter_matches FilterMotionPlus n \<longrightarrow>
     TraceFilter_matches FilterAxes n)"
proof -
  have "(\<forall>k. t = EvUnknown k \<longrightarrow> 16 < k) \<longrightarrow> EventType_from_raw (EventType_raw t) = t"
    by (cases t) (simp_all add: EventType_from_raw.simps)
  moreover have "\<not> (TraceFilter_matches FilterKeys n \<and> TraceFilter_matches FilterAxes n)"
    by (auto simp: is_key_event_def is_abs_event_def EventType_is_key_def EventType_is_axes_def)
  moreover have "TraceFilter_matches FilterIr n \<or> TraceFilter_matches FilterMotionPlus n \<longrightarrow>
      TraceFilter_matches FilterAxes n"
    by (auto simp: is_abs_event_def EventType_is_axes_def EventType_from_raw.simps)
  ultimately show ?thesis using from_raw_raw by blast
qed

theorem event_type_roundtrip_witness: "EventType_from_raw (EventType_raw (EvUnknown 99)) = EvUnknown 99"
  using event_type_roundtrip [of 99 "EvUnknown 99"] by simp

lemma digits_no_newline: "newline \<notin> set (dec_nat n)" "newline \<notin> set (dec_int i)"
proof -
  have digit: "digit_char d \<noteq> newline" if "d < 10" for d
    using digit_char_nat [OF that] by (auto simp: newline_def)
  then have n: "newline \<notin> set (dec_nat n)" for n using dec_nat_digits [of newline n] by metis
  then show "newline \<notin> set (dec_nat n)" "newline \<notin> set (dec_int i)"
    by (simp_all add: dec_int_def newline_def)
qed

lemma name_no_newline: "newline \<notin> set (EventType_name t)"
  by (cases t) (simp_all add: newline_def)

text \<open>
  One event, one line. For a device path without a newline, the text of an event
  contains exactly one newline, its last character, so events can be told apart in a trace
  whatever their payload; and the time it prints is the event's, to the microsecond.
\<close>

theorem format_line_is_one_line:
  assumes "newline \<notin> set (te_syspath e)"
  shows "\<exists>body. format_line e = body @ [newline] \<and> newline \<notin> set body \<and>
    (\<forall>us. te_monotonic_us e = Some us \<longrightarrow>
      (\<exists>rest. body = ''time='' @ dec_int (us div 1000000) @ ''.'' @ pad6 (dec_int (us mod 1000000)) @ rest))"
proof -
  have ax: "newline \<notin> set (concat (map format_axis ps))" for ps
    by (auto simp: format_axis_def digits_no_newline split_beta) (simp_all add: newline_def)
  have pad: "newline \<notin> set (pad6 s)" if "newline \<notin> set s" for s
    using that by (auto simp: pad6_def newline_def)
  have pl: "newline \<notin> set (payload_text (te_payload e))"
    using ax digits_no_newline
    by (cases "te_payload e") (simp_all add: payload_text_def, simp_all add: newline_def)
  have tm: "newline \<notin> set (time_text (te_monotonic_us e))"
    using pad digits_no_newline
    by (cases "te_monotonic_us e") (simp_all add: time_text_def, simp_all add: newline_def)
  let ?mid = "''seq='' @ dec_nat (te_sequence e) @ '' '' @ te_syspath e @ '' '' @
    event_type_name (te_event_type e) @ '' type='' @ dec_nat (te_event_type e)"
  have mid: "newline \<notin> set ?mid"
    using assms digits_no_newline name_no_newline by (auto simp: event_type_name_def newline_def)
  have "format_line e = (time_text (te_monotonic_us e) @ ?mid @ payload_text (te_payload e)) @ [newline]"
    by (simp add: format_line_def)
  moreover have "newline \<notin> set (time_text (te_monotonic_us e) @ ?mid @ payload_text (te_payload e))"
    using tm mid pl by simp
  ultimately show ?thesis
    by (intro exI [of _ "time_text (te_monotonic_us e) @ ?mid @ payload_text (te_payload e)"])
      (simp add: time_text_def)
qed

theorem format_line_is_one_line_witness:
  "\<exists>body. format_line (TraceEvent_new 3 (Some 1500002) ''/sys/w'' 0 (PayloadKey \<lparr>kp_code = 4, kp_state = 1\<rparr>)) =
     body @ [newline] \<and> newline \<notin> set body"
proof -
  have "newline \<notin> set (te_syspath (TraceEvent_new 3 (Some 1500002) ''/sys/w'' 0 (PayloadKey \<lparr>kp_code = 4, kp_state = 1\<rparr>)))"
    by (simp add: TraceEvent_new_def newline_def)
  from format_line_is_one_line [OF this] show ?thesis by blast
qed

end
