(* ===== verification/Hid_Model.thy ===== *)
theory Hid_Model
  imports Input
begin

text \<open>
  The values of \<open>crates/wiiland-hid/src/model.rs\<close>: three-axis samples, timestamps, raw evdev
  events, the interface masks of a controller, and the evdev codes the decoder
  knows (with the prefix \<open>HID_\<close>: the mapper of the core crate has constants of the same names).
  A \<open>u16\<close> event type or code is only compared and looked up, so it is a \<open>nat\<close>; the fields
  of \<open>timeval\<close> and the \<open>i32\<close> values are \<open>int\<close>.
\<close>

section \<open>Samples, timestamps and raw events\<close>

definition DRUM_SLOT_COUNT :: nat where "DRUM_SLOT_COUNT = 8"

definition EV_SYN :: nat where "EV_SYN = 0"
definition EV_KEY :: nat where "EV_KEY = 1"
definition EV_ABS :: nat where "EV_ABS = 3"
definition SYN_REPORT :: nat where "SYN_REPORT = 0"
definition SYN_DROPPED :: nat where "SYN_DROPPED = 3"

record axis3 =
  ax_x :: int
  ax_y :: int
  ax_z :: int

definition Axis3_default :: axis3 where
  "Axis3_default = \<lparr>ax_x = 0, ax_y = 0, ax_z = 0\<rparr>"

record timestamp =
  ts_seconds :: int
  ts_microseconds :: int

definition Timestamp_default :: timestamp where
  "Timestamp_default = \<lparr>ts_seconds = 0, ts_microseconds = 0\<rparr>"

text \<open>The \<open>libc\<close> structure the kernel fills in.\<close>

record timeval =
  tv_sec :: int
  tv_usec :: int

definition Timestamp_from_timeval :: "timeval \<Rightarrow> timestamp" where
  "Timestamp_from_timeval t =
    \<lparr>ts_seconds = tv_sec t,
     ts_microseconds =
       min (if 0 \<le> tv_usec t \<and> tv_usec t \<le> 4294967295 then tv_usec t else 0) 999999\<rparr>"

record raw_event =
  ie_time :: timeval
  ie_type :: nat
  ie_code :: nat
  ie_value :: int


section \<open>Interface masks\<close>

type_synonym interface_mask = u32

definition MASK_CORE :: interface_mask where "MASK_CORE = 0x1"
definition MASK_ACCEL :: interface_mask where "MASK_ACCEL = 0x2"
definition MASK_IR :: interface_mask where "MASK_IR = 0x4"
definition MASK_MOTION_PLUS :: interface_mask where "MASK_MOTION_PLUS = 0x100"
definition MASK_NUNCHUK :: interface_mask where "MASK_NUNCHUK = 0x200"
definition MASK_CLASSIC_CONTROLLER :: interface_mask where "MASK_CLASSIC_CONTROLLER = 0x400"
definition MASK_BALANCE_BOARD :: interface_mask where "MASK_BALANCE_BOARD = 0x800"
definition MASK_PRO_CONTROLLER :: interface_mask where "MASK_PRO_CONTROLLER = 0x1000"
definition MASK_DRUMS :: interface_mask where "MASK_DRUMS = 0x2000"
definition MASK_GUITAR :: interface_mask where "MASK_GUITAR = 0x4000"
definition MASK_ALL :: interface_mask where "MASK_ALL = 0x7f07"
definition MASK_WRITABLE :: interface_mask where "MASK_WRITABLE = 0x10000"

lemmas MASK_defs =
  MASK_CORE_def MASK_ACCEL_def MASK_IR_def MASK_MOTION_PLUS_def MASK_NUNCHUK_def
  MASK_CLASSIC_CONTROLLER_def MASK_BALANCE_BOARD_def MASK_PRO_CONTROLLER_def MASK_DRUMS_def
  MASK_GUITAR_def MASK_ALL_def MASK_WRITABLE_def

definition InterfaceMask_is_empty :: "interface_mask \<Rightarrow> bool" where
  "InterfaceMask_is_empty m \<longleftrightarrow> m = 0"

definition InterfaceMask_contains :: "interface_mask \<Rightarrow> interface_mask \<Rightarrow> bool" where
  "InterfaceMask_contains m n \<longleftrightarrow> m AND n = n"

definition InterfaceMask_insert :: "interface_mask \<Rightarrow> interface_mask \<Rightarrow> interface_mask" where
  "InterfaceMask_insert m n = m OR n"

definition InterfaceMask_remove :: "interface_mask \<Rightarrow> interface_mask \<Rightarrow> interface_mask" where
  "InterfaceMask_remove m n = m AND NOT n"


section \<open>evdev codes\<close>

definition HID_KEY_LEFT :: nat where "HID_KEY_LEFT = 105"
definition HID_KEY_RIGHT :: nat where "HID_KEY_RIGHT = 106"
definition HID_KEY_UP :: nat where "HID_KEY_UP = 103"
definition HID_KEY_DOWN :: nat where "HID_KEY_DOWN = 108"
definition HID_KEY_NEXT :: nat where "HID_KEY_NEXT = 0x197"
definition HID_KEY_PREVIOUS :: nat where "HID_KEY_PREVIOUS = 0x19c"
definition HID_BTN_1 :: nat where "HID_BTN_1 = 0x101"
definition HID_BTN_2 :: nat where "HID_BTN_2 = 0x102"
definition HID_BTN_3 :: nat where "HID_BTN_3 = 0x103"
definition HID_BTN_4 :: nat where "HID_BTN_4 = 0x104"
definition HID_BTN_5 :: nat where "HID_BTN_5 = 0x105"
definition HID_BTN_A :: nat where "HID_BTN_A = 0x130"
definition HID_BTN_B :: nat where "HID_BTN_B = 0x131"
definition HID_BTN_C :: nat where "HID_BTN_C = 0x132"
definition HID_BTN_X :: nat where "HID_BTN_X = 0x133"
definition HID_BTN_Y :: nat where "HID_BTN_Y = 0x134"
definition HID_BTN_Z :: nat where "HID_BTN_Z = 0x135"
definition HID_BTN_TL :: nat where "HID_BTN_TL = 0x136"
definition HID_BTN_TR :: nat where "HID_BTN_TR = 0x137"
definition HID_BTN_TL2 :: nat where "HID_BTN_TL2 = 0x138"
definition HID_BTN_TR2 :: nat where "HID_BTN_TR2 = 0x139"
definition HID_BTN_SELECT :: nat where "HID_BTN_SELECT = 0x13a"
definition HID_BTN_START :: nat where "HID_BTN_START = 0x13b"
definition HID_BTN_MODE :: nat where "HID_BTN_MODE = 0x13c"
definition HID_BTN_THUMBL :: nat where "HID_BTN_THUMBL = 0x13d"
definition HID_BTN_THUMBR :: nat where "HID_BTN_THUMBR = 0x13e"
definition HID_BTN_DPAD_UP :: nat where "HID_BTN_DPAD_UP = 0x220"
definition HID_BTN_DPAD_DOWN :: nat where "HID_BTN_DPAD_DOWN = 0x221"
definition HID_BTN_DPAD_LEFT :: nat where "HID_BTN_DPAD_LEFT = 0x222"
definition HID_BTN_DPAD_RIGHT :: nat where "HID_BTN_DPAD_RIGHT = 0x223"
definition HID_BTN_EAST :: nat where "HID_BTN_EAST = HID_BTN_B"
definition HID_BTN_SOUTH :: nat where "HID_BTN_SOUTH = HID_BTN_A"
definition HID_BTN_NORTH :: nat where "HID_BTN_NORTH = HID_BTN_X"
definition HID_BTN_WEST :: nat where "HID_BTN_WEST = HID_BTN_Y"

lemmas key_code_defs =
  HID_KEY_LEFT_def HID_KEY_RIGHT_def HID_KEY_UP_def HID_KEY_DOWN_def HID_KEY_NEXT_def HID_KEY_PREVIOUS_def
  HID_BTN_1_def HID_BTN_2_def HID_BTN_3_def HID_BTN_4_def HID_BTN_5_def HID_BTN_A_def HID_BTN_B_def HID_BTN_C_def HID_BTN_X_def
  HID_BTN_Y_def HID_BTN_Z_def HID_BTN_TL_def HID_BTN_TR_def HID_BTN_TL2_def HID_BTN_TR2_def HID_BTN_SELECT_def
  HID_BTN_START_def HID_BTN_MODE_def HID_BTN_THUMBL_def HID_BTN_THUMBR_def HID_BTN_DPAD_UP_def HID_BTN_DPAD_DOWN_def
  HID_BTN_DPAD_LEFT_def HID_BTN_DPAD_RIGHT_def HID_BTN_EAST_def HID_BTN_SOUTH_def HID_BTN_NORTH_def HID_BTN_WEST_def

definition HID_ABS_X :: nat where "HID_ABS_X = 0"
definition HID_ABS_Y :: nat where "HID_ABS_Y = 1"
definition HID_ABS_RX :: nat where "HID_ABS_RX = 3"
definition HID_ABS_RY :: nat where "HID_ABS_RY = 4"
definition HID_ABS_RZ :: nat where "HID_ABS_RZ = 5"
definition HID_ABS_HAT0X :: nat where "HID_ABS_HAT0X = 16"
definition HID_ABS_HAT0Y :: nat where "HID_ABS_HAT0Y = 17"
definition HID_ABS_HAT1X :: nat where "HID_ABS_HAT1X = 18"
definition HID_ABS_HAT1Y :: nat where "HID_ABS_HAT1Y = 19"
definition HID_ABS_HAT2X :: nat where "HID_ABS_HAT2X = 20"
definition HID_ABS_HAT2Y :: nat where "HID_ABS_HAT2Y = 21"
definition HID_ABS_HAT3X :: nat where "HID_ABS_HAT3X = 22"
definition HID_ABS_HAT3Y :: nat where "HID_ABS_HAT3Y = 23"

lemmas abs_code_defs =
  HID_ABS_X_def HID_ABS_Y_def HID_ABS_RX_def HID_ABS_RY_def HID_ABS_RZ_def HID_ABS_HAT0X_def HID_ABS_HAT0Y_def
  HID_ABS_HAT1X_def HID_ABS_HAT1Y_def HID_ABS_HAT2X_def HID_ABS_HAT2Y_def HID_ABS_HAT3X_def HID_ABS_HAT3Y_def


section \<open>Lemmas\<close>

lemma Timestamp_micros_bound:
  "0 \<le> ts_microseconds (Timestamp_from_timeval t) \<and> ts_microseconds (Timestamp_from_timeval t) < 1000000"
  by (auto simp: Timestamp_from_timeval_def)

lemma contains_bit:
  "InterfaceMask_contains m n \<longleftrightarrow> (\<forall>k. bit n k \<longrightarrow> bit m k)"
proof
  assume "InterfaceMask_contains m n"
  then have "n = m AND n" by (simp add: InterfaceMask_contains_def)
  then show "\<forall>k. bit n k \<longrightarrow> bit m k" by (metis bit_and_iff)
next
  assume "\<forall>k. bit n k \<longrightarrow> bit m k"
  then show "InterfaceMask_contains m n"
    unfolding InterfaceMask_contains_def by (intro bit_eqI) (auto simp: bit_and_iff)
qed

lemma contains_refl [simp]: "InterfaceMask_contains m m"
  by (simp add: contains_bit)

lemma contains_trans:
  "InterfaceMask_contains a b \<Longrightarrow> InterfaceMask_contains b c \<Longrightarrow> InterfaceMask_contains a c"
  by (simp add: contains_bit)

lemma contains_insert:
  "InterfaceMask_contains (InterfaceMask_insert m n) k \<longleftrightarrow>
    (\<forall>i. bit k i \<longrightarrow> bit m i \<or> bit n i)"
  by (simp add: contains_bit InterfaceMask_insert_def bit_or_iff)

lemma remove_insert_bit:
  "bit (InterfaceMask_remove m n) k \<longleftrightarrow> bit m k \<and> \<not> bit n k"
  by (cases "k < 32")
    (auto simp: InterfaceMask_remove_def bit_and_iff bit_not_iff dest: bit_imp_le_length)

end
