(* ===== verification/Decode.thy ===== *)
theory Decode
  imports Hid_Model
begin

text \<open>
  The evdev decoder of \<open>crates/wiiland-hid/src/decode.rs\<close>: typed events, the Motion Plus
  normaliser, the key snapshot with the replay after \<open>SYN_DROPPED\<close>, the axis caches, and the
  decoder that combines them. An array of the source is a list of its length; indices are the
  constants of the code and in range.
\<close>

section \<open>Events\<close>

datatype hid_event_type =
    TyKey | TyAccel | TyIr | TyBalanceBoard | TyMotionPlus | TyProControllerKey
  | TyProControllerMove | TyWatch | TyClassicControllerKey | TyClassicControllerMove
  | TyNunchukKey | TyNunchukMove | TyDrumsKey | TyDrumsMove | TyGuitarKey | TyGuitarMove
  | TyGone | TyUnknown nat

datatype interface_kind =
    KindCore | KindAccel | KindIr | KindMotionPlus | KindNunchuk | KindClassic
  | KindBalanceBoard | KindPro | KindDrums | KindGuitar

datatype event_kind =
    EKey button_event | EAccel axis3 | EIr "axis3 list" | EBalanceBoard "axis3 list"
  | EMotionPlus axis3 | EProControllerKey button_event | EProControllerMove "axis3 list"
  | EWatch | EClassicControllerKey button_event | EClassicControllerMove "axis3 list"
  | ENunchukKey button_event | ENunchukMove "axis3 list" | EDrumsKey button_event
  | EDrumsMove "axis3 list" | EGuitarKey button_event | EGuitarMove "axis3 list"
  | EGone | EUnknown nat

record hid_event =
  ev_time :: timestamp
  ev_kind :: event_kind

fun EventKind_interface :: "event_kind \<Rightarrow> interface_mask option" where
  "EventKind_interface (EKey _) = Some MASK_CORE"
| "EventKind_interface (EAccel _) = Some MASK_ACCEL"
| "EventKind_interface (EIr _) = Some MASK_IR"
| "EventKind_interface (EBalanceBoard _) = Some MASK_BALANCE_BOARD"
| "EventKind_interface (EMotionPlus _) = Some MASK_MOTION_PLUS"
| "EventKind_interface (EProControllerKey _) = Some MASK_PRO_CONTROLLER"
| "EventKind_interface (EProControllerMove _) = Some MASK_PRO_CONTROLLER"
| "EventKind_interface (EClassicControllerKey _) = Some MASK_CLASSIC_CONTROLLER"
| "EventKind_interface (EClassicControllerMove _) = Some MASK_CLASSIC_CONTROLLER"
| "EventKind_interface (ENunchukKey _) = Some MASK_NUNCHUK"
| "EventKind_interface (ENunchukMove _) = Some MASK_NUNCHUK"
| "EventKind_interface (EDrumsKey _) = Some MASK_DRUMS"
| "EventKind_interface (EDrumsMove _) = Some MASK_DRUMS"
| "EventKind_interface (EGuitarKey _) = Some MASK_GUITAR"
| "EventKind_interface (EGuitarMove _) = Some MASK_GUITAR"
| "EventKind_interface EWatch = None"
| "EventKind_interface EGone = None"
| "EventKind_interface (EUnknown _) = None"

fun EventKind_event_type :: "event_kind \<Rightarrow> hid_event_type" where
  "EventKind_event_type (EKey _) = TyKey"
| "EventKind_event_type (EAccel _) = TyAccel"
| "EventKind_event_type (EIr _) = TyIr"
| "EventKind_event_type (EBalanceBoard _) = TyBalanceBoard"
| "EventKind_event_type (EMotionPlus _) = TyMotionPlus"
| "EventKind_event_type (EProControllerKey _) = TyProControllerKey"
| "EventKind_event_type (EProControllerMove _) = TyProControllerMove"
| "EventKind_event_type EWatch = TyWatch"
| "EventKind_event_type (EClassicControllerKey _) = TyClassicControllerKey"
| "EventKind_event_type (EClassicControllerMove _) = TyClassicControllerMove"
| "EventKind_event_type (ENunchukKey _) = TyNunchukKey"
| "EventKind_event_type (ENunchukMove _) = TyNunchukMove"
| "EventKind_event_type (EDrumsKey _) = TyDrumsKey"
| "EventKind_event_type (EDrumsMove _) = TyDrumsMove"
| "EventKind_event_type (EGuitarKey _) = TyGuitarKey"
| "EventKind_event_type (EGuitarMove _) = TyGuitarMove"
| "EventKind_event_type EGone = TyGone"
| "EventKind_event_type (EUnknown n) = TyUnknown n"

fun HidEventType_code :: "hid_event_type \<Rightarrow> nat" where
  "HidEventType_code TyKey = 0"
| "HidEventType_code TyAccel = 1"
| "HidEventType_code TyIr = 2"
| "HidEventType_code TyBalanceBoard = 3"
| "HidEventType_code TyMotionPlus = 4"
| "HidEventType_code TyProControllerKey = 5"
| "HidEventType_code TyProControllerMove = 6"
| "HidEventType_code TyWatch = 7"
| "HidEventType_code TyClassicControllerKey = 8"
| "HidEventType_code TyClassicControllerMove = 9"
| "HidEventType_code TyNunchukKey = 10"
| "HidEventType_code TyNunchukMove = 11"
| "HidEventType_code TyDrumsKey = 12"
| "HidEventType_code TyDrumsMove = 13"
| "HidEventType_code TyGuitarKey = 14"
| "HidEventType_code TyGuitarMove = 15"
| "HidEventType_code TyGone = 16"
| "HidEventType_code (TyUnknown n) = n"


section \<open>The Motion Plus normaliser\<close>

record mp_normalizer =
  mp_offsets :: axis3
  mp_factor :: int

definition MotionPlusNormalizer_new :: mp_normalizer where
  "MotionPlusNormalizer_new = \<lparr>mp_offsets = Axis3_default, mp_factor = 0\<rparr>"

definition clamp_i32 :: "int \<Rightarrow> int" where
  "clamp_i32 = clamp (- 2147483648) 2147483647"

definition scale_offset :: "int \<Rightarrow> int" where
  "scale_offset v = clamp_i32 (v * 100)"

definition normalizer_set :: "mp_normalizer \<Rightarrow> int \<Rightarrow> int \<Rightarrow> int \<Rightarrow> int \<Rightarrow> mp_normalizer" where
  "normalizer_set m x y z factor = m\<lparr>
     mp_offsets := \<lparr>ax_x = scale_offset x, ax_y = scale_offset y, ax_z = scale_offset z\<rparr>,
     mp_factor := factor\<rparr>"

definition normalizer_values :: "mp_normalizer \<Rightarrow> int \<times> int \<times> int \<times> int" where
  "normalizer_values m =
    (ax_x (mp_offsets m) sdiv 100, ax_y (mp_offsets m) sdiv 100, ax_z (mp_offsets m) sdiv 100,
     mp_factor m)"

text \<open>The normalised value and the new offset of one axis.\<close>

definition normalize_axis :: "int \<Rightarrow> int \<Rightarrow> int \<Rightarrow> int \<times> int" where
  "normalize_axis v offset factor =
    (let normalized = clamp_i32 (v - offset sdiv 100)
     in (normalized,
         if normalized \<noteq> 0
         then clamp_i32 (offset + (if normalized > 0 then factor else - factor))
         else offset))"

definition normalizer_normalize :: "mp_normalizer \<Rightarrow> axis3 \<Rightarrow> axis3 \<times> mp_normalizer" where
  "normalizer_normalize m v =
    (let (x, ox) = normalize_axis (ax_x v) (ax_x (mp_offsets m)) (mp_factor m);
         (y, oy) = normalize_axis (ax_y v) (ax_y (mp_offsets m)) (mp_factor m);
         (z, oz) = normalize_axis (ax_z v) (ax_z (mp_offsets m)) (mp_factor m)
     in (\<lparr>ax_x = x, ax_y = y, ax_z = z\<rparr>,
         m\<lparr>mp_offsets := \<lparr>ax_x = ox, ax_y = oy, ax_z = oz\<rparr>\<rparr>))"


section \<open>The key snapshot and its replay\<close>

definition KEY_WORDS :: nat where "KEY_WORDS = 12"

record recovery_state =
  rec_key_state :: "u64 list"
  rec_key_pending :: "u64 list"
  rec_desynced :: bool
  rec_key_resync_pending :: bool
  rec_report_resync_pending :: bool
  rec_resync_time :: timeval

definition RecoveryState_default :: recovery_state where
  "RecoveryState_default = \<lparr>
     rec_key_state = replicate KEY_WORDS 0, rec_key_pending = replicate KEY_WORDS 0,
     rec_desynced = False, rec_key_resync_pending = False, rec_report_resync_pending = False,
     rec_resync_time = \<lparr>tv_sec = 0, tv_usec = 0\<rparr>\<rparr>"

definition recovery_dropped :: "recovery_state \<Rightarrow> recovery_state" where
  "recovery_dropped r = r\<lparr>rec_desynced := True\<rparr>"

text \<open>\<open>keys.get(i).copied().unwrap_or(0)\<close>; the state's own arrays have \<open>KEY_WORDS\<close> words and
  are read with it too.\<close>

definition key_word :: "u64 list \<Rightarrow> nat \<Rightarrow> u64" where
  "key_word keys i = (if i < length keys then keys ! i else 0)"

definition recovery_initialize :: "recovery_state \<Rightarrow> u64 list \<Rightarrow> recovery_state" where
  "recovery_initialize r keys = r\<lparr>
     rec_key_pending := replicate KEY_WORDS 0,
     rec_key_state := map (key_word keys) [0..<KEY_WORDS],
     rec_desynced := False, rec_key_resync_pending := False, rec_report_resync_pending := False\<rparr>"

definition recovery_seed :: "recovery_state \<Rightarrow> u64 list \<Rightarrow> timeval \<Rightarrow> bool \<Rightarrow> recovery_state" where
  "recovery_seed r keys time has_abs =
    (let pending = map (\<lambda>i. key_word (rec_key_state r) i XOR key_word keys i) [0..<KEY_WORDS]
     in r\<lparr>rec_key_pending := pending,
          rec_key_resync_pending := list_ex (\<lambda>w. w \<noteq> 0) pending,
          rec_key_state := map (key_word keys) [0..<KEY_WORDS],
          rec_resync_time := time, rec_report_resync_pending := has_abs, rec_desynced := False\<rparr>)"

text \<open>\<open>trailing_zeros\<close> of a nonzero word: its lowest set bit.\<close>

definition trailing_zeros :: "u64 \<Rightarrow> nat" where
  "trailing_zeros w = length (takeWhile (\<lambda>n. \<not> bit w n) [0..<64])"

definition next_key :: "recovery_state \<Rightarrow> raw_event option \<times> recovery_state" where
  "next_key r =
    (if \<not> rec_key_resync_pending r then (None, r)
     else case find (\<lambda>i. key_word (rec_key_pending r) i \<noteq> 0) [0..<KEY_WORDS] of
       Some i \<Rightarrow>
         (let b = trailing_zeros (key_word (rec_key_pending r) i)
          in (Some \<lparr>ie_time = rec_resync_time r, ie_type = EV_KEY, ie_code = i * 64 + b,
                    ie_value = (if key_word (rec_key_state r) i AND push_bit b 1 \<noteq> 0 then 1 else 0)\<rparr>,
              r\<lparr>rec_key_pending :=
                 (rec_key_pending r)[i := key_word (rec_key_pending r) i AND NOT (push_bit b 1)]\<rparr>))
     | None \<Rightarrow> (None, r\<lparr>rec_key_resync_pending := False\<rparr>))"

definition take_report :: "recovery_state \<Rightarrow> raw_event option \<times> recovery_state" where
  "take_report r =
    (if \<not> rec_report_resync_pending r then (None, r)
     else (Some \<lparr>ie_time = rec_resync_time r, ie_type = EV_SYN, ie_code = SYN_REPORT, ie_value = 0\<rparr>,
           r\<lparr>rec_report_resync_pending := False\<rparr>))"

definition has_pending :: "recovery_state \<Rightarrow> bool" where
  "has_pending r \<longleftrightarrow> rec_key_resync_pending r \<or> rec_report_resync_pending r"

definition remember :: "recovery_state \<Rightarrow> raw_event \<Rightarrow> recovery_state" where
  "remember r e =
    (if ie_type e \<noteq> EV_KEY \<or> ie_code e \<ge> KEY_WORDS * 64 \<or> \<not> (0 \<le> ie_value e \<and> ie_value e \<le> 2)
     then r
     else let w = ie_code e div 64; mask = push_bit (ie_code e mod 64) 1
          in r\<lparr>rec_key_state := (rec_key_state r)[w :=
                 (if ie_value e = 0 then key_word (rec_key_state r) w AND NOT mask
                  else key_word (rec_key_state r) w OR mask)]\<rparr>)"

section \<open>The axis caches\<close>

record cache_state =
  cache_accel :: axis3
  cache_ir :: "axis3 list"
  cache_motion_plus :: axis3
  cache_nunchuk :: "axis3 list"
  cache_classic :: "axis3 list"
  cache_balance_board :: "axis3 list"
  cache_pro :: "axis3 list"
  cache_drums :: "axis3 list"
  cache_guitar :: "axis3 list"

definition CacheState_default :: cache_state where
  "CacheState_default = \<lparr>
     cache_accel = Axis3_default,
     cache_ir = replicate 4 (Axis3_default\<lparr>ax_x := 1023, ax_y := 1023\<rparr>),
     cache_motion_plus = Axis3_default,
     cache_nunchuk = replicate 2 Axis3_default,
     cache_classic = replicate 3 Axis3_default,
     cache_balance_board = replicate 4 Axis3_default,
     cache_pro = replicate 2 Axis3_default,
     cache_drums = replicate DRUM_SLOT_COUNT Axis3_default,
     cache_guitar = replicate 3 Axis3_default\<rparr>"

text \<open>\<open>xs[i].x = v\<close>, \<open>xs[i].y = v\<close> and \<open>xs[i].z = v\<close> on a list of samples.\<close>

definition put_x :: "nat \<Rightarrow> int \<Rightarrow> axis3 list \<Rightarrow> axis3 list" where
  "put_x i v xs = xs[i := (xs ! i)\<lparr>ax_x := v\<rparr>]"

definition put_y :: "nat \<Rightarrow> int \<Rightarrow> axis3 list \<Rightarrow> axis3 list" where
  "put_y i v xs = xs[i := (xs ! i)\<lparr>ax_y := v\<rparr>]"

definition put_z :: "nat \<Rightarrow> int \<Rightarrow> axis3 list \<Rightarrow> axis3 list" where
  "put_z i v xs = xs[i := (xs ! i)\<lparr>ax_z := v\<rparr>]"

definition put_abc :: "nat \<Rightarrow> int \<Rightarrow> axis3 \<Rightarrow> axis3" where
  "put_abc code v a =
    (if code = HID_ABS_RX then a\<lparr>ax_x := v\<rparr>
     else if code = HID_ABS_RY then a\<lparr>ax_y := v\<rparr>
     else if code = HID_ABS_RZ then a\<lparr>ax_z := v\<rparr>
     else a)"

definition ir_slot :: "nat \<Rightarrow> (nat \<times> bool) option" where
  "ir_slot code =
    (if code = HID_ABS_HAT0X then Some (0, True)
     else if code = HID_ABS_HAT0Y then Some (0, False)
     else if code = HID_ABS_HAT1X then Some (1, True)
     else if code = HID_ABS_HAT1Y then Some (1, False)
     else if code = HID_ABS_HAT2X then Some (2, True)
     else if code = HID_ABS_HAT2Y then Some (2, False)
     else if code = HID_ABS_HAT3X then Some (3, True)
     else if code = HID_ABS_HAT3Y then Some (3, False)
     else None)"

fun update_abs :: "interface_kind \<Rightarrow> cache_state \<Rightarrow> nat \<Rightarrow> int \<Rightarrow> cache_state" where
  "update_abs KindAccel c code v = c\<lparr>cache_accel := put_abc code v (cache_accel c)\<rparr>"
| "update_abs KindMotionPlus c code v = c\<lparr>cache_motion_plus := put_abc code v (cache_motion_plus c)\<rparr>"
| "update_abs KindIr c code v =
    (case ir_slot code of
       Some (i, x) \<Rightarrow>
         c\<lparr>cache_ir := (if x then put_x i v (cache_ir c) else put_y i v (cache_ir c))\<rparr>
     | None \<Rightarrow> c)"
| "update_abs KindNunchuk c code v =
    (let xs = cache_nunchuk c in
     if code = HID_ABS_HAT0X then c\<lparr>cache_nunchuk := put_x 0 v xs\<rparr>
     else if code = HID_ABS_HAT0Y then c\<lparr>cache_nunchuk := put_y 0 v xs\<rparr>
     else if code = HID_ABS_RX then c\<lparr>cache_nunchuk := put_x 1 v xs\<rparr>
     else if code = HID_ABS_RY then c\<lparr>cache_nunchuk := put_y 1 v xs\<rparr>
     else if code = HID_ABS_RZ then c\<lparr>cache_nunchuk := put_z 1 v xs\<rparr>
     else c)"
| "update_abs KindClassic c code v =
    (let xs = cache_classic c in
     if code = HID_ABS_HAT1X then c\<lparr>cache_classic := put_x 0 v xs\<rparr>
     else if code = HID_ABS_HAT1Y then c\<lparr>cache_classic := put_y 0 v xs\<rparr>
     else if code = HID_ABS_HAT2X then c\<lparr>cache_classic := put_x 1 v xs\<rparr>
     else if code = HID_ABS_HAT2Y then c\<lparr>cache_classic := put_y 1 v xs\<rparr>
     else if code = HID_ABS_HAT3X then c\<lparr>cache_classic := put_y 2 v xs\<rparr>
     else if code = HID_ABS_HAT3Y then c\<lparr>cache_classic := put_x 2 v xs\<rparr>
     else c)"
| "update_abs KindBalanceBoard c code v =
    (let xs = cache_balance_board c in
     if code = HID_ABS_HAT0X then c\<lparr>cache_balance_board := put_x 0 v xs\<rparr>
     else if code = HID_ABS_HAT0Y then c\<lparr>cache_balance_board := put_x 1 v xs\<rparr>
     else if code = HID_ABS_HAT1X then c\<lparr>cache_balance_board := put_x 2 v xs\<rparr>
     else if code = HID_ABS_HAT1Y then c\<lparr>cache_balance_board := put_x 3 v xs\<rparr>
     else c)"
| "update_abs KindPro c code v =
    (let xs = cache_pro c in
     if code = HID_ABS_X then c\<lparr>cache_pro := put_x 0 v xs\<rparr>
     else if code = HID_ABS_Y then c\<lparr>cache_pro := put_y 0 v xs\<rparr>
     else if code = HID_ABS_RX then c\<lparr>cache_pro := put_x 1 v xs\<rparr>
     else if code = HID_ABS_RY then c\<lparr>cache_pro := put_y 1 v xs\<rparr>
     else c)"
| "update_abs KindDrums c code v =
    (let xs = cache_drums c in
     if code = HID_ABS_X then c\<lparr>cache_drums := put_x 0 v xs\<rparr>
     else if code = HID_ABS_Y then c\<lparr>cache_drums := put_y 0 v xs\<rparr>
     else if code = HID_ABS_HAT2X then c\<lparr>cache_drums := put_x 1 v xs\<rparr>
     else if code = HID_ABS_HAT2Y then c\<lparr>cache_drums := put_x 2 v xs\<rparr>
     else if code = HID_ABS_HAT0X then c\<lparr>cache_drums := put_x 3 v xs\<rparr>
     else if code = HID_ABS_HAT1X then c\<lparr>cache_drums := put_x 4 v xs\<rparr>
     else if code = HID_ABS_HAT0Y then c\<lparr>cache_drums := put_x 5 v xs\<rparr>
     else if code = HID_ABS_HAT3X then c\<lparr>cache_drums := put_x 6 v xs\<rparr>
     else if code = HID_ABS_HAT3Y then c\<lparr>cache_drums := put_x 7 v xs\<rparr>
     else c)"
| "update_abs KindGuitar c code v =
    (let xs = cache_guitar c in
     if code = HID_ABS_X then c\<lparr>cache_guitar := put_x 0 v xs\<rparr>
     else if code = HID_ABS_Y then c\<lparr>cache_guitar := put_y 0 v xs\<rparr>
     else if code = HID_ABS_HAT1X then c\<lparr>cache_guitar := put_x 1 v xs\<rparr>
     else if code = HID_ABS_HAT0X then c\<lparr>cache_guitar := put_x 2 v xs\<rparr>
     else c)"
| "update_abs KindCore c code v = c"

fun abs_codes :: "interface_kind \<Rightarrow> nat list" where
  "abs_codes KindAccel = [HID_ABS_RX, HID_ABS_RY, HID_ABS_RZ]"
| "abs_codes KindMotionPlus = [HID_ABS_RX, HID_ABS_RY, HID_ABS_RZ]"
| "abs_codes KindIr =
    [HID_ABS_HAT0X, HID_ABS_HAT0Y, HID_ABS_HAT1X, HID_ABS_HAT1Y,
     HID_ABS_HAT2X, HID_ABS_HAT2Y, HID_ABS_HAT3X, HID_ABS_HAT3Y]"
| "abs_codes KindNunchuk = [HID_ABS_HAT0X, HID_ABS_HAT0Y, HID_ABS_RX, HID_ABS_RY, HID_ABS_RZ]"
| "abs_codes KindClassic =
    [HID_ABS_HAT1X, HID_ABS_HAT1Y, HID_ABS_HAT2X, HID_ABS_HAT2Y, HID_ABS_HAT3X, HID_ABS_HAT3Y]"
| "abs_codes KindBalanceBoard = [HID_ABS_HAT0X, HID_ABS_HAT0Y, HID_ABS_HAT1X, HID_ABS_HAT1Y]"
| "abs_codes KindPro = [HID_ABS_X, HID_ABS_Y, HID_ABS_RX, HID_ABS_RY]"
| "abs_codes KindDrums =
    [HID_ABS_X, HID_ABS_Y, HID_ABS_HAT2X, HID_ABS_HAT2Y, HID_ABS_HAT0X, HID_ABS_HAT1X,
     HID_ABS_HAT0Y, HID_ABS_HAT3X, HID_ABS_HAT3Y]"
| "abs_codes KindGuitar = [HID_ABS_X, HID_ABS_Y, HID_ABS_HAT1X, HID_ABS_HAT0X]"
| "abs_codes KindCore = []"


section \<open>The key maps\<close>

text \<open>A \<open>match\<close> on the key code: the first entry of the table with the code.\<close>

definition map_core_key :: "nat \<Rightarrow> button option" where
  "map_core_key c = map_of
    [(HID_KEY_LEFT, BtnLeft), (HID_KEY_RIGHT, BtnRight), (HID_KEY_UP, BtnUp),
     (HID_KEY_DOWN, BtnDown), (HID_KEY_NEXT, BtnPlus), (HID_KEY_PREVIOUS, BtnMinus),
     (HID_BTN_1, BtnOne), (HID_BTN_2, BtnTwo), (HID_BTN_A, BtnA), (HID_BTN_B, BtnB),
     (HID_BTN_MODE, BtnHome)] c"

definition map_nunchuk_key :: "nat \<Rightarrow> button option" where
  "map_nunchuk_key c = map_of [(HID_BTN_C, BtnC), (HID_BTN_Z, BtnZ)] c"

definition map_classic_key :: "nat \<Rightarrow> button option" where
  "map_classic_key c = map_of
    [(HID_BTN_A, BtnA), (HID_BTN_B, BtnB), (HID_BTN_X, BtnX), (HID_BTN_Y, BtnY),
     (HID_KEY_NEXT, BtnPlus), (HID_KEY_PREVIOUS, BtnMinus), (HID_BTN_MODE, BtnHome),
     (HID_KEY_LEFT, BtnLeft), (HID_KEY_RIGHT, BtnRight), (HID_KEY_UP, BtnUp),
     (HID_KEY_DOWN, BtnDown), (HID_BTN_TL, BtnShoulderLeft), (HID_BTN_TR, BtnShoulderRight),
     (HID_BTN_TL2, BtnTriggerLeft), (HID_BTN_TR2, BtnTriggerRight)] c"

definition map_pro_key :: "nat \<Rightarrow> button option" where
  "map_pro_key c = map_of
    [(HID_BTN_EAST, BtnA), (HID_BTN_SOUTH, BtnB), (HID_BTN_NORTH, BtnX), (HID_BTN_WEST, BtnY),
     (HID_BTN_START, BtnPlus), (HID_BTN_SELECT, BtnMinus), (HID_BTN_MODE, BtnHome),
     (HID_BTN_DPAD_LEFT, BtnLeft), (HID_BTN_DPAD_RIGHT, BtnRight), (HID_BTN_DPAD_UP, BtnUp),
     (HID_BTN_DPAD_DOWN, BtnDown), (HID_BTN_TL, BtnShoulderLeft),
     (HID_BTN_TR, BtnShoulderRight), (HID_BTN_TL2, BtnTriggerLeft),
     (HID_BTN_TR2, BtnTriggerRight), (HID_BTN_THUMBL, BtnThumbLeft),
     (HID_BTN_THUMBR, BtnThumbRight)] c"

definition map_drums_key :: "nat \<Rightarrow> button option" where
  "map_drums_key c = map_of [(HID_BTN_START, BtnPlus), (HID_BTN_SELECT, BtnMinus)] c"

definition map_guitar_key :: "nat \<Rightarrow> button option" where
  "map_guitar_key c = map_of
    [(HID_BTN_1, BtnFretFarUp), (HID_BTN_2, BtnFretUp), (HID_BTN_3, BtnFretMid),
     (HID_BTN_4, BtnFretLow), (HID_BTN_5, BtnFretFarLow), (HID_BTN_DPAD_UP, BtnStrumBarUp),
     (HID_BTN_DPAD_DOWN, BtnStrumBarDown), (HID_BTN_START, BtnPlus),
     (HID_BTN_SELECT, BtnMinus)] c"

section \<open>The decoder\<close>

record decoder =
  dec_interface :: interface_kind
  dec_cache :: cache_state
  dec_recovery :: recovery_state
  dec_motion_plus :: mp_normalizer

definition Decoder_new :: "interface_kind \<Rightarrow> decoder" where
  "Decoder_new k = \<lparr>
     dec_interface = k, dec_cache = CacheState_default, dec_recovery = RecoveryState_default,
     dec_motion_plus = MotionPlusNormalizer_new\<rparr>"

definition decoder_report :: "decoder \<Rightarrow> timeval \<Rightarrow> hid_event option \<times> decoder" where
  "decoder_report d time =
    (let c = dec_cache d; ev = (\<lambda>k. Some \<lparr>ev_time = Timestamp_from_timeval time, ev_kind = k\<rparr>)
     in case dec_interface d of
       KindAccel \<Rightarrow> (ev (EAccel (cache_accel c)), d)
     | KindIr \<Rightarrow> (ev (EIr (cache_ir c)), d)
     | KindMotionPlus \<Rightarrow>
         (let (v, m) = normalizer_normalize (dec_motion_plus d) (cache_motion_plus c)
          in (ev (EMotionPlus v), d\<lparr>dec_motion_plus := m\<rparr>))
     | KindNunchuk \<Rightarrow> (ev (ENunchukMove (cache_nunchuk c)), d)
     | KindClassic \<Rightarrow> (ev (EClassicControllerMove (cache_classic c)), d)
     | KindBalanceBoard \<Rightarrow> (ev (EBalanceBoard (cache_balance_board c)), d)
     | KindPro \<Rightarrow> (ev (EProControllerMove (cache_pro c)), d)
     | KindDrums \<Rightarrow> (ev (EDrumsMove (cache_drums c)), d)
     | KindGuitar \<Rightarrow> (ev (EGuitarMove (cache_guitar c)), d)
     | KindCore \<Rightarrow> (None, d))"

text \<open>The first \<open>match\<close> of \<open>decode_key\<close>: the key map of the interface.\<close>

fun interface_key :: "interface_kind \<Rightarrow> nat \<Rightarrow> button option" where
  "interface_key KindCore c = map_core_key c"
| "interface_key KindNunchuk c = map_nunchuk_key c"
| "interface_key KindClassic c = map_classic_key c"
| "interface_key KindPro c = map_pro_key c"
| "interface_key KindDrums c = map_drums_key c"
| "interface_key KindGuitar c = map_guitar_key c"
| "interface_key _ c = None"

text \<open>Its last \<open>match\<close>: the event constructor of the interface.\<close>

fun key_kind :: "interface_kind \<Rightarrow> button_event \<Rightarrow> event_kind option" where
  "key_kind KindCore k = Some (EKey k)"
| "key_kind KindNunchuk k = Some (ENunchukKey k)"
| "key_kind KindClassic k = Some (EClassicControllerKey k)"
| "key_kind KindPro k = Some (EProControllerKey k)"
| "key_kind KindDrums k = Some (EDrumsKey k)"
| "key_kind KindGuitar k = Some (EGuitarKey k)"
| "key_kind _ k = None"

definition key_state_of :: "int \<Rightarrow> button_state option" where
  "key_state_of v =
    (if v = 0 then Some Released else if v = 1 then Some Pressed
     else if v = 2 then Some Repeated else None)"

definition decode_key :: "interface_kind \<Rightarrow> raw_event \<Rightarrow> hid_event option" where
  "decode_key iface e =
    (if \<not> (0 \<le> ie_value e \<and> ie_value e \<le> 2) then None
     else case interface_key iface (ie_code e) of
       None \<Rightarrow> None
     | Some b \<Rightarrow>
         (case key_state_of (ie_value e) of
            None \<Rightarrow> None
          | Some s \<Rightarrow>
              (case key_kind iface \<lparr>be_button = b, be_state = s\<rparr> of
                 None \<Rightarrow> None
               | Some k \<Rightarrow> Some \<lparr>ev_time = Timestamp_from_timeval (ie_time e), ev_kind = k\<rparr>)))"

definition decoder_push :: "decoder \<Rightarrow> raw_event \<Rightarrow> hid_event option \<times> decoder" where
  "decoder_push d e =
    (if rec_desynced (dec_recovery d) then (None, d)
     else if ie_type e = EV_SYN \<and> ie_code e = SYN_DROPPED
     then (None, d\<lparr>dec_recovery := recovery_dropped (dec_recovery d)\<rparr>)
     else if ie_type e = EV_KEY
     then (decode_key (dec_interface d) e, d\<lparr>dec_recovery := remember (dec_recovery d) e\<rparr>)
     else if ie_type e = EV_ABS
     then (None, d\<lparr>dec_cache := update_abs (dec_interface d) (dec_cache d) (ie_code e) (ie_value e)\<rparr>)
     else if ie_type e = EV_SYN \<and> ie_code e = SYN_REPORT
     then decoder_report d (ie_time e)
     else (None, d))"

definition update_abs_list :: "interface_kind \<Rightarrow> cache_state \<Rightarrow> (nat \<times> int) list \<Rightarrow> cache_state" where
  "update_abs_list k c axes = foldl (\<lambda>c (code, v). update_abs k c code v) c axes"

definition decoder_seed_state :: "decoder \<Rightarrow> u64 list \<Rightarrow> (nat \<times> int) list \<Rightarrow> decoder" where
  "decoder_seed_state d keys axes = d\<lparr>
     dec_cache := update_abs_list (dec_interface d) (dec_cache d) axes,
     dec_recovery := recovery_initialize (dec_recovery d) keys\<rparr>"

definition decoder_recover :: "decoder \<Rightarrow> u64 list \<Rightarrow> (nat \<times> int) list \<Rightarrow> timeval \<Rightarrow> decoder" where
  "decoder_recover d keys axes time = d\<lparr>
     dec_cache := update_abs_list (dec_interface d) (dec_cache d) axes,
     dec_recovery := recovery_seed (dec_recovery d) keys time (abs_codes (dec_interface d) \<noteq> [])\<rparr>"

definition push_recovered :: "decoder \<Rightarrow> hid_event option \<times> decoder" where
  "push_recovered d =
    (case next_key (dec_recovery d) of
       (Some e, r) \<Rightarrow> (decode_key (dec_interface d) e, d\<lparr>dec_recovery := r\<rparr>)
     | (None, r) \<Rightarrow>
         (case take_report r of
            (Some e, r') \<Rightarrow> decoder_report (d\<lparr>dec_recovery := r'\<rparr>) (ie_time e)
          | (None, r') \<Rightarrow> (None, d\<lparr>dec_recovery := r'\<rparr>)))"

end
