(* ===== verification/Recovery.thy ===== *)
theory Recovery
  imports Decode
begin

text \<open>
  The replay after \<open>SYN_DROPPED\<close>: \<open>take_recovered\<close> of the input interface
  (\<open>crates/wiiland-hid/src/device.rs\<close>) drains the decoder's pending keys. A key snapshot is
  read as the set of its key codes; the pending words are the codes still to replay, in the
  order in which \<open>next_key\<close> takes them.
\<close>

section \<open>Snapshots as sets of codes\<close>

definition key_bit :: "u64 list \<Rightarrow> nat \<Rightarrow> bool" where
  "key_bit ws c \<longleftrightarrow> bit (key_word ws (c div 64)) (c mod 64)"

definition KEY_CODES :: "nat list" where
  "KEY_CODES = [0..<KEY_WORDS * 64]"

definition pending_codes :: "recovery_state \<Rightarrow> nat list" where
  "pending_codes r = filter (key_bit (rec_key_pending r)) KEY_CODES"

definition recovery_work :: "recovery_state \<Rightarrow> nat" where
  "recovery_work r =
    length (pending_codes r) + (if rec_key_resync_pending r then 1 else 0)
      + (if rec_report_resync_pending r then 1 else 0)"

lemma trailing_zeros_props:
  assumes "w \<noteq> 0"
  shows "trailing_zeros w < 64" "bit w (trailing_zeros w)" "n < trailing_zeros w \<Longrightarrow> \<not> bit w n"
proof -
  let ?P = "\<lambda>n. \<not> bit w n"
  have ex: "\<exists>n \<in> set [0..<64]. bit w n"
    using assms by (auto simp: bit_eq_iff dest: bit_imp_le_length)
  have "length (takeWhile ?P [0..<64]) < length [0..<64]"
    using ex by (metis length_takeWhile_le linorder_neqE_nat not_le takeWhile_eq_all_conv
        take_all_iff takeWhile_eq_take)
  then show lt: "trailing_zeros w < 64" by (simp add: trailing_zeros_def)
  have "\<not> ?P ([0..<64] ! trailing_zeros w)"
    unfolding trailing_zeros_def using lt
    by (intro nth_length_takeWhile) (simp add: trailing_zeros_def)
  then show "bit w (trailing_zeros w)" using lt by simp
  show "n < trailing_zeros w \<Longrightarrow> \<not> bit w n"
  proof -
    assume n: "n < trailing_zeros w"
    then have "[0..<64] ! n \<in> set (takeWhile ?P [0..<64])"
      unfolding trailing_zeros_def by (metis nth_mem takeWhile_nth)
    then show ?thesis using n lt by (auto dest: set_takeWhileD)
  qed
qed

lemma filter_upt_first:
  assumes "c < n" "P c" "\<And>k. k < c \<Longrightarrow> \<not> P k"
  shows "filter P [0..<n] = c # filter P [Suc c..<n]"
proof -
  have "[0..<n] = [0..<c] @ c # [Suc c..<n]"
    using assms(1) upt_add_eq_append [of 0 c "n - c"] by (simp add: upt_conv_Cons)
  moreover have "filter P [0..<c] = []" using assms(3) by (simp add: filter_empty_conv)
  ultimately show ?thesis using assms(2) by simp
qed

lemma key_word_update:
  "i < length ws \<Longrightarrow> key_word (ws[i := w]) j = (if j = i then w else key_word ws j)"
  by (auto simp: key_word_def)

lemma key_bit_clear:
  assumes "i < length ws" "b < 64"
  shows "key_bit (ws[i := key_word ws i AND NOT (push_bit b 1)]) c \<longleftrightarrow> key_bit ws c \<and> c \<noteq> i * 64 + b"
proof (cases "c div 64 = i")
  case True
  then have c: "c = i * 64 + c mod 64" by presburger
  have "c mod 64 < 64" by simp
  moreover have "c = i * 64 + b \<longleftrightarrow> c mod 64 = b" using c by auto
  ultimately show ?thesis
    using assms True by (auto simp: key_bit_def key_word_update bit_and_iff bit_not_iff bit_exp_iff)
next
  case False
  then have "c \<noteq> i * 64 + b" using assms(2) by auto
  with False show ?thesis using assms by (simp add: key_bit_def key_word_update)
qed

lemma key_bit_set:
  assumes "i < length ws" "b < 64"
  shows "key_bit (ws[i := key_word ws i OR push_bit b 1]) c \<longleftrightarrow> key_bit ws c \<or> c = i * 64 + b"
proof (cases "c div 64 = i")
  case True
  then have c: "c = i * 64 + c mod 64" by presburger
  have "c = i * 64 + b \<longleftrightarrow> c mod 64 = b" using c by auto
  then show ?thesis
    using assms True by (auto simp: key_bit_def key_word_update bit_or_iff bit_exp_iff)
next
  case False
  then have "c \<noteq> i * 64 + b" using assms(2) by auto
  with False show ?thesis using assms by (simp add: key_bit_def key_word_update)
qed

text \<open>\<open>next_key\<close> takes the lowest pending code, and drops the flag when there is none.\<close>

lemma next_key_pending:
  assumes "rec_key_resync_pending r"
  shows "case pending_codes r of
      [] \<Rightarrow> next_key r = (None, r\<lparr>rec_key_resync_pending := False\<rparr>)
    | c # cs \<Rightarrow> (\<exists>r'. next_key r =
          (Some \<lparr>ie_time = rec_resync_time r, ie_type = EV_KEY, ie_code = c,
                 ie_value = (if key_bit (rec_key_state r) c then 1 else 0)\<rparr>, r')
        \<and> pending_codes r' = cs
        \<and> (\<exists>p. r' = r\<lparr>rec_key_pending := p\<rparr> \<and> length p = length (rec_key_pending r)))"
proof (cases "find (\<lambda>i. key_word (rec_key_pending r) i \<noteq> 0) [0..<KEY_WORDS]")
  case None
  then have z: "key_word (rec_key_pending r) i = 0" if "i < KEY_WORDS" for i
    using that by (auto simp: find_None_iff)
  have "pending_codes r = []"
    unfolding pending_codes_def KEY_CODES_def filter_empty_conv
    using z by (auto simp: key_bit_def KEY_WORDS_def less_mult_imp_div_less)
  then show ?thesis using None assms by (simp add: next_key_def)
next
  case (Some i)
  let ?P = "rec_key_pending r"
  define b where "b = trailing_zeros (key_word ?P i)"
  define c where "c = i * 64 + b"
  from Some have i: "i < KEY_WORDS" "key_word ?P i \<noteq> 0" and before: "\<forall>j<i. key_word ?P j = 0"
    by (auto simp: find_Some_iff)
  have b: "b < 64" "bit (key_word ?P i) b" "\<And>n. n < b \<Longrightarrow> \<not> bit (key_word ?P i) n"
    using trailing_zeros_props [OF i(2)] by (auto simp: b_def)
  have il: "i < length ?P" using i(2) by (simp add: key_word_def split: if_splits)
  have cdm: "c div 64 = i" "c mod 64 = b" using b(1) by (auto simp: c_def)
  have c: "c < KEY_WORDS * 64" "key_bit ?P c"
    using i(1) b cdm by (auto simp: c_def key_bit_def KEY_WORDS_def)
  have least: "\<not> key_bit ?P k" if "k < c" for k
  proof (cases "k div 64 = i")
    case True
    then have "k mod 64 < b" using that cdm by (metis mod_less_divisor div_mult_mod_eq nat_add_left_cancel_less)
    then show ?thesis using b(3) True by (simp add: key_bit_def)
  next
    case False
    then have "k div 64 < i" using that cdm(1) div_le_mono [of k c 64] by linarith
    then show ?thesis using before by (simp add: key_bit_def)
  qed
  let ?p = "?P[i := key_word ?P i AND NOT (push_bit b 1)]"
  let ?r = "r\<lparr>rec_key_pending := ?p\<rparr>"
  have pc: "pending_codes r = c # filter (key_bit ?P) [Suc c..<KEY_WORDS * 64]"
    unfolding pending_codes_def KEY_CODES_def by (rule filter_upt_first) (use c least in auto)
  have clr: "key_bit ?p k \<longleftrightarrow> key_bit ?P k \<and> k \<noteq> c" for k
    using key_bit_clear [OF il b(1)] by (simp add: c_def)
  have "pending_codes ?r = filter (\<lambda>k. k \<noteq> c) (pending_codes r)"
  proof -
    have kb: "key_bit ?p = (\<lambda>k. key_bit ?P k \<and> k \<noteq> c)" by (rule ext) (rule clr)
    have rp: "rec_key_pending ?r = ?p" by simp
    show ?thesis unfolding pending_codes_def rp kb filter_filter ..
  qed
  also have "\<dots> = filter (key_bit ?P) [Suc c..<KEY_WORDS * 64]"
    unfolding pc by (auto intro!: filter_cong simp: filter_empty_conv)
  finally have tl: "pending_codes ?r = filter (key_bit ?P) [Suc c..<KEY_WORDS * 64]" .
  have "(key_word (rec_key_state r) i AND push_bit b 1 \<noteq> 0) \<longleftrightarrow> key_bit (rec_key_state r) c"
    using mask_has_single [of "key_word (rec_key_state r) i" b] cdm
    by (simp add: mask_has_def key_bit_def)
  then have "next_key r =
      (Some \<lparr>ie_time = rec_resync_time r, ie_type = EV_KEY, ie_code = c,
             ie_value = (if key_bit (rec_key_state r) c then 1 else 0)\<rparr>, ?r)"
    using assms Some by (simp add: next_key_def b_def [symmetric] c_def Let_def)
  then show ?thesis unfolding pc using tl by auto
qed

section \<open>\<open>take_recovered\<close> returns\<close>

lemma decoder_report_recovery [simp]:
  "dec_recovery (snd (decoder_report d t)) = dec_recovery d"
  "dec_interface (snd (decoder_report d t)) = dec_interface d"
  "dec_cache (snd (decoder_report d t)) = dec_cache d"
  by (simp_all add: decoder_report_def Let_def split: interface_kind.split prod.split)

text \<open>The three cases of one \<open>push_recovered\<close>.\<close>

lemma push_recovered_key:
  assumes "rec_key_resync_pending (dec_recovery d)" "pending_codes (dec_recovery d) = c # cs"
  obtains p where
    "push_recovered d =
      (decode_key (dec_interface d)
         \<lparr>ie_time = rec_resync_time (dec_recovery d), ie_type = EV_KEY, ie_code = c,
          ie_value = (if key_bit (rec_key_state (dec_recovery d)) c then 1 else 0)\<rparr>,
       d\<lparr>dec_recovery := (dec_recovery d)\<lparr>rec_key_pending := p\<rparr>\<rparr>)"
    "pending_codes ((dec_recovery d)\<lparr>rec_key_pending := p\<rparr>) = cs"
    "length p = length (rec_key_pending (dec_recovery d))"
proof -
  from next_key_pending [OF assms(1)] assms(2) obtain p where
    "next_key (dec_recovery d) =
       (Some \<lparr>ie_time = rec_resync_time (dec_recovery d), ie_type = EV_KEY, ie_code = c,
              ie_value = (if key_bit (rec_key_state (dec_recovery d)) c then 1 else 0)\<rparr>,
        (dec_recovery d)\<lparr>rec_key_pending := p\<rparr>)"
    "pending_codes ((dec_recovery d)\<lparr>rec_key_pending := p\<rparr>) = cs"
    "length p = length (rec_key_pending (dec_recovery d))" by auto
  then show thesis by (intro that [of p]) (simp_all add: push_recovered_def)
qed

lemma push_recovered_report:
  assumes "rec_key_resync_pending r \<Longrightarrow> pending_codes r = []" "rec_report_resync_pending r"
    and "dec_recovery d = r"
  shows "push_recovered d =
    decoder_report
      (d\<lparr>dec_recovery := r\<lparr>rec_key_resync_pending := False, rec_report_resync_pending := False\<rparr>\<rparr>)
      (rec_resync_time r)"
proof (cases "rec_key_resync_pending r")
  case True
  with next_key_pending [OF True] assms show ?thesis
    by (simp add: push_recovered_def take_report_def)
next
  case False
  then have *: "r\<lparr>rec_key_resync_pending := False, rec_report_resync_pending := False\<rparr>
      = r\<lparr>rec_report_resync_pending := False\<rparr>" by (cases r) simp
  show ?thesis unfolding * using False assms
    by (simp add: push_recovered_def take_report_def next_key_def)
qed

lemma push_recovered_none:
  assumes "rec_key_resync_pending r \<Longrightarrow> pending_codes r = []" "\<not> rec_report_resync_pending r"
    and "dec_recovery d = r"
  shows "push_recovered d = (None, d\<lparr>dec_recovery := r\<lparr>rec_key_resync_pending := False\<rparr>\<rparr>)"
proof (cases "rec_key_resync_pending r")
  case True
  with next_key_pending [OF True] assms show ?thesis
    by (simp add: push_recovered_def take_report_def)
next
  case False
  then have "r\<lparr>rec_key_resync_pending := False\<rparr> = r" by (cases r) simp
  with False assms show ?thesis by (simp add: push_recovered_def take_report_def next_key_def)
qed

lemma pending_codes_flags [simp]:
  "pending_codes (r\<lparr>rec_key_resync_pending := f\<rparr>) = pending_codes r"
  "pending_codes (r\<lparr>rec_report_resync_pending := f\<rparr>) = pending_codes r"
  by (simp_all add: pending_codes_def)

lemma push_recovered_work:
  assumes "has_pending (dec_recovery d)"
  shows "recovery_work (dec_recovery (snd (push_recovered d))) < recovery_work (dec_recovery d)"
proof -
  let ?r = "dec_recovery d"
  show ?thesis
  proof (cases "rec_key_resync_pending ?r \<and> pending_codes ?r \<noteq> []")
    case True
    then obtain c cs where "pending_codes ?r = c # cs" by (cases "pending_codes ?r") auto
    with True show ?thesis by (auto elim!: push_recovered_key simp: recovery_work_def)
  next
    case False
    then have k: "rec_key_resync_pending ?r \<Longrightarrow> pending_codes ?r = []" by simp
    show ?thesis
    proof (cases "rec_report_resync_pending ?r")
      case True
      then show ?thesis using push_recovered_report [OF k True refl]
        by (simp add: recovery_work_def)
    next
      case False
      then show ?thesis using push_recovered_none [OF k False refl] assms
        by (simp add: recovery_work_def has_pending_def)
    qed
  qed
qed

function take_recovered :: "decoder \<Rightarrow> hid_event option \<times> decoder" where
  "take_recovered d =
    (if has_pending (dec_recovery d)
     then (case push_recovered d of
             (Some e, d') \<Rightarrow> (Some e, d')
           | (None, d') \<Rightarrow> take_recovered d')
     else (None, d))"
  by pat_completeness auto
termination
  by (relation "measure (\<lambda>d. recovery_work (dec_recovery d))")
    (auto dest!: push_recovered_work, metis snd_conv)

declare take_recovered.simps [simp del]

lemma take_recovered_some_work:
  "take_recovered d = (Some e, d') \<Longrightarrow> recovery_work (dec_recovery d') < recovery_work (dec_recovery d)"
proof (induction d rule: take_recovered.induct)
  case (1 d)
  show ?case
  proof (cases "has_pending (dec_recovery d)")
    case True
    obtain o1 d1 where p: "push_recovered d = (o1, d1)" by force
    have w: "recovery_work (dec_recovery d1) < recovery_work (dec_recovery d)"
      using push_recovered_work [OF True] p by simp
    show ?thesis
    proof (cases o1)
      case None
      then have "take_recovered d1 = (Some e, d')"
        using "1.prems" True p by (simp add: take_recovered.simps [of d])
      then show ?thesis using "1.IH" [OF True p [symmetric] None] w by simp
    next
      case (Some e1)
      then show ?thesis using "1.prems" True p w by (simp add: take_recovered.simps [of d])
    qed
  qed (use "1.prems" in \<open>simp add: take_recovered.simps [of d]\<close>)
qed

text \<open>All events the repeated calls of \<open>dispatch\<close> deliver, until nothing is pending.\<close>

function drain_recovered :: "decoder \<Rightarrow> hid_event list \<times> decoder" where
  "drain_recovered d =
    (case take_recovered d of
       (None, d') \<Rightarrow> ([], d')
     | (Some e, d') \<Rightarrow> (case drain_recovered d' of (es, d'') \<Rightarrow> (e # es, d'')))"
  by pat_completeness auto
termination
  by (relation "measure (\<lambda>d. recovery_work (dec_recovery d))")
    (auto dest: take_recovered_some_work [OF sym])

declare drain_recovered.simps [simp del]

section \<open>What a drain delivers\<close>

lemma map_filter_cong:
  "(\<And>x. x \<in> set xs \<Longrightarrow> f x = g x) \<Longrightarrow> List.map_filter f xs = List.map_filter g xs"
  by (induction xs) (simp_all add: List.map_filter_simps split: option.split)

definition key_replay_event :: "decoder \<Rightarrow> nat \<Rightarrow> raw_event" where
  "key_replay_event d c =
    \<lparr>ie_time = rec_resync_time (dec_recovery d), ie_type = EV_KEY, ie_code = c,
     ie_value = (if key_bit (rec_key_state (dec_recovery d)) c then 1 else 0)\<rparr>"

definition replayed_keys :: "decoder \<Rightarrow> nat list \<Rightarrow> hid_event list" where
  "replayed_keys d cs = List.map_filter (\<lambda>c. decode_key (dec_interface d) (key_replay_event d c)) cs"

definition replay_report :: "decoder \<Rightarrow> hid_event list" where
  "replay_report d =
    (case fst (decoder_report d (rec_resync_time (dec_recovery d))) of Some e \<Rightarrow> [e] | None \<Rightarrow> [])"

lemma replayed_keys_simps [simp]:
  "replayed_keys d [] = []"
  "replayed_keys d (c # cs) =
    (case decode_key (dec_interface d) (key_replay_event d c) of Some e \<Rightarrow> [e] | None \<Rightarrow> []) @ replayed_keys d cs"
  by (auto simp: replayed_keys_def List.map_filter_simps split: option.split)

lemma decoder_report_event [simp]:
  "fst (decoder_report (d\<lparr>dec_recovery := r\<rparr>) t) = fst (decoder_report d t)"
  by (simp add: decoder_report_def Let_def split_beta split: interface_kind.split)

lemma replay_invariants [simp]:
  "replayed_keys (d\<lparr>dec_recovery := (dec_recovery d)\<lparr>rec_key_pending := p\<rparr>\<rparr>) cs = replayed_keys d cs"
  "replay_report (d\<lparr>dec_recovery := (dec_recovery d)\<lparr>rec_key_pending := p\<rparr>\<rparr>) = replay_report d"
  by (simp_all add: replayed_keys_def replay_report_def key_replay_event_def)

lemma drain_idle: "\<not> has_pending (dec_recovery d) \<Longrightarrow> drain_recovered d = ([], d)"
  by (subst drain_recovered.simps, subst take_recovered.simps) simp

lemma drain_skip:
  assumes "has_pending (dec_recovery d)" "push_recovered d = (None, d')"
  shows "drain_recovered d = drain_recovered d'"
  using assms by (simp add: drain_recovered.simps [of d] drain_recovered.simps [of d'] take_recovered.simps [of d])

lemma drain_event:
  assumes "has_pending (dec_recovery d)" "push_recovered d = (Some e, d')"
  shows "drain_recovered d = (case drain_recovered d' of (es, d'') \<Rightarrow> (e # es, d''))"
  using assms by (simp add: drain_recovered.simps [of d] take_recovered.simps [of d])

definition drain_kept :: "decoder \<Rightarrow> decoder \<Rightarrow> bool" where
  "drain_kept d d' \<longleftrightarrow>
    dec_interface d' = dec_interface d \<and> dec_cache d' = dec_cache d
      \<and> rec_key_state (dec_recovery d') = rec_key_state (dec_recovery d)
      \<and> rec_desynced (dec_recovery d') = rec_desynced (dec_recovery d)
      \<and> \<not> has_pending (dec_recovery d')"

lemma drain_replay:
  assumes "\<not> rec_key_resync_pending (dec_recovery d) \<Longrightarrow> pending_codes (dec_recovery d) = []"
  shows "fst (drain_recovered d) =
      replayed_keys d (pending_codes (dec_recovery d))
      @ (if rec_report_resync_pending (dec_recovery d) then replay_report d else [])
    \<and> drain_kept d (snd (drain_recovered d))"
  using assms
proof (induction "recovery_work (dec_recovery d)" arbitrary: d rule: less_induct)
  case less
  let ?r = "dec_recovery d"
  show ?case
  proof (cases "pending_codes ?r")
    case (Cons c cs)
    with less.prems have flag: "rec_key_resync_pending ?r" by auto
    then have hp: "has_pending ?r" by (simp add: has_pending_def)
    from push_recovered_key [OF flag Cons] obtain p where
      push: "push_recovered d =
          (decode_key (dec_interface d) (key_replay_event d c), d\<lparr>dec_recovery := ?r\<lparr>rec_key_pending := p\<rparr>\<rparr>)"
      and cs: "pending_codes (?r\<lparr>rec_key_pending := p\<rparr>) = cs"
      unfolding key_replay_event_def by blast
    let ?d = "d\<lparr>dec_recovery := ?r\<lparr>rec_key_pending := p\<rparr>\<rparr>"
    have IH: "fst (drain_recovered ?d) =
        replayed_keys d cs @ (if rec_report_resync_pending ?r then replay_report d else [])
      \<and> drain_kept d (snd (drain_recovered ?d))"
      using less.hyps [of ?d] push_recovered_work [OF hp] push cs flag by (simp add: drain_kept_def)
    show ?thesis
    proof (cases "decode_key (dec_interface d) (key_replay_event d c)")
      case None
      then show ?thesis using IH drain_skip [OF hp, of ?d] push Cons by simp
    next
      case (Some e)
      then show ?thesis using IH drain_event [OF hp, of e ?d] push Cons by (simp add: split_beta)
    qed
  next
    case Nil
    show ?thesis
    proof (cases "rec_report_resync_pending ?r")
      case True
      then have hp: "has_pending ?r" by (simp add: has_pending_def)
      let ?d = "d\<lparr>dec_recovery := ?r\<lparr>rec_key_resync_pending := False, rec_report_resync_pending := False\<rparr>\<rparr>"
      let ?d2 = "snd (decoder_report ?d (rec_resync_time ?r))"
      have push: "push_recovered d = (fst (decoder_report d (rec_resync_time ?r)), ?d2)"
        using push_recovered_report [OF _ True refl] Nil by (simp add: prod_eq_iff)
      have idle: "drain_recovered ?d2 = ([], ?d2)"
        by (rule drain_idle) (simp add: has_pending_def)
      have kept: "drain_kept d ?d2" by (simp add: drain_kept_def has_pending_def)
      show ?thesis
      proof (cases "fst (decoder_report d (rec_resync_time ?r))")
        case None
        then show ?thesis using drain_skip [OF hp, of ?d2] push idle kept Nil True
          by (simp add: replay_report_def)
      next
        case (Some e)
        then show ?thesis using drain_event [OF hp, of e ?d2] push idle kept Nil True
          by (simp add: replay_report_def)
      qed
    next
      case False
      let ?d = "d\<lparr>dec_recovery := ?r\<lparr>rec_key_resync_pending := False\<rparr>\<rparr>"
      have push: "push_recovered d = (None, ?d)"
        using push_recovered_none [OF _ False refl] Nil by simp
      have idle: "drain_recovered ?d = ([], ?d)"
        by (rule drain_idle) (use False in \<open>simp add: has_pending_def\<close>)
      show ?thesis
      proof (cases "has_pending ?r")
        case True
        then show ?thesis using drain_skip [OF True push] idle Nil False
          by (simp add: drain_kept_def has_pending_def)
      next
        case f: False
        then show ?thesis using drain_idle [OF f] Nil False by (simp add: drain_kept_def)
      qed
    qed
  qed
qed


section \<open>Recovery replays the difference of two snapshots\<close>

lemma key_bit_map_key_word:
  "c < KEY_WORDS * 64 \<Longrightarrow> key_bit (map (key_word keys) [0..<KEY_WORDS]) c = key_bit keys c"
  by (simp add: key_bit_def key_word_def less_mult_imp_div_less)

lemma seed_pending_codes:
  "pending_codes (recovery_seed r keys t has_abs) =
    filter (\<lambda>c. key_bit (rec_key_state r) c \<noteq> key_bit keys c) KEY_CODES"
  unfolding pending_codes_def
proof (rule filter_cong [OF refl])
  fix c assume "c \<in> set KEY_CODES"
  then have c: "c div 64 < KEY_WORDS" by (simp add: KEY_CODES_def less_mult_imp_div_less)
  then show "key_bit (rec_key_pending (recovery_seed r keys t has_abs)) c
      = (key_bit (rec_key_state r) c \<noteq> key_bit keys c)"
    by (simp add: recovery_seed_def Let_def key_bit_def key_word_def [of "map _ _"] bit_xor_iff)
qed

lemma seed_flag:
  "\<not> rec_key_resync_pending (recovery_seed r keys t has_abs)
    \<Longrightarrow> pending_codes (recovery_seed r keys t has_abs) = []"
  unfolding pending_codes_def filter_empty_conv
  by (auto simp: recovery_seed_def Let_def key_bit_def key_word_def [of "map _ _"] list_ex_iff
      KEY_CODES_def less_mult_imp_div_less)

lemma recover_simps [simp]:
  "dec_interface (decoder_recover d keys axes t) = dec_interface d"
  "rec_key_state (dec_recovery (decoder_recover d keys axes t)) = map (key_word keys) [0..<KEY_WORDS]"
  "rec_resync_time (dec_recovery (decoder_recover d keys axes t)) = t"
  "rec_desynced (dec_recovery (decoder_recover d keys axes t)) = False"
  "rec_report_resync_pending (dec_recovery (decoder_recover d keys axes t)) \<longleftrightarrow> abs_codes (dec_interface d) \<noteq> []"
  "dec_cache (decoder_recover d keys axes t) = update_abs_list (dec_interface d) (dec_cache d) axes"
  by (simp_all add: decoder_recover_def recovery_seed_def Let_def)

lemma recover_drain:
  "fst (drain_recovered (decoder_recover d keys axes t)) =
     replayed_keys (decoder_recover d keys axes t)
       (filter (\<lambda>c. key_bit (rec_key_state (dec_recovery d)) c \<noteq> key_bit keys c) KEY_CODES)
     @ (if abs_codes (dec_interface d) = [] then [] else replay_report (decoder_recover d keys axes t))
   \<and> drain_kept (decoder_recover d keys axes t) (snd (drain_recovered (decoder_recover d keys axes t)))"
proof -
  have p: "pending_codes (dec_recovery (decoder_recover d keys axes t)) =
      filter (\<lambda>c. key_bit (rec_key_state (dec_recovery d)) c \<noteq> key_bit keys c) KEY_CODES"
    by (simp add: decoder_recover_def seed_pending_codes)
  have "\<not> rec_key_resync_pending (dec_recovery (decoder_recover d keys axes t)) \<Longrightarrow>
      pending_codes (dec_recovery (decoder_recover d keys axes t)) = []"
    using seed_flag by (simp add: decoder_recover_def)
  from drain_replay [OF this] show ?thesis unfolding p by auto
qed

section \<open>The consumer's view of the held buttons\<close>

text \<open>
  What a client that applies the delivered key events holds, and what a snapshot says is held.
\<close>

fun event_button :: "event_kind \<Rightarrow> button_event option" where
  "event_button (EKey k) = Some k"
| "event_button (ENunchukKey k) = Some k"
| "event_button (EClassicControllerKey k) = Some k"
| "event_button (EProControllerKey k) = Some k"
| "event_button (EDrumsKey k) = Some k"
| "event_button (EGuitarKey k) = Some k"
| "event_button _ = None"

definition consume :: "hid_event \<Rightarrow> button set \<Rightarrow> button set" where
  "consume e view = (case event_button (ev_kind e) of
     None \<Rightarrow> view
   | Some k \<Rightarrow> if be_state k = Released then view - {be_button k} else insert (be_button k) view)"

definition held_in :: "interface_kind \<Rightarrow> u64 list \<Rightarrow> button set" where
  "held_in k ws = {b. \<exists>c. interface_key k c = Some b \<and> key_bit ws c}"

lemma map_of_inj:
  "distinct (map snd xs) \<Longrightarrow> map_of xs c = Some b \<Longrightarrow> map_of xs c' = Some b \<Longrightarrow> c = c'"
  by (induction xs) (auto split: if_splits dest!: map_of_SomeD simp: image_iff)

text \<open>The key maps as tables.\<close>

fun key_table :: "interface_kind \<Rightarrow> (nat \<times> button) list" where
  "key_table KindCore =
    [(105, BtnLeft), (106, BtnRight), (103, BtnUp), (108, BtnDown), (0x197, BtnPlus),
     (0x19c, BtnMinus), (0x101, BtnOne), (0x102, BtnTwo), (0x130, BtnA), (0x131, BtnB),
     (0x13c, BtnHome)]"
| "key_table KindNunchuk = [(0x132, BtnC), (0x135, BtnZ)]"
| "key_table KindClassic =
    [(0x130, BtnA), (0x131, BtnB), (0x133, BtnX), (0x134, BtnY), (0x197, BtnPlus),
     (0x19c, BtnMinus), (0x13c, BtnHome), (105, BtnLeft), (106, BtnRight), (103, BtnUp),
     (108, BtnDown), (0x136, BtnShoulderLeft), (0x137, BtnShoulderRight),
     (0x138, BtnTriggerLeft), (0x139, BtnTriggerRight)]"
| "key_table KindPro =
    [(0x131, BtnA), (0x130, BtnB), (0x133, BtnX), (0x134, BtnY), (0x13b, BtnPlus),
     (0x13a, BtnMinus), (0x13c, BtnHome), (0x222, BtnLeft), (0x223, BtnRight), (0x220, BtnUp),
     (0x221, BtnDown), (0x136, BtnShoulderLeft), (0x137, BtnShoulderRight),
     (0x138, BtnTriggerLeft), (0x139, BtnTriggerRight), (0x13d, BtnThumbLeft),
     (0x13e, BtnThumbRight)]"
| "key_table KindDrums = [(0x13b, BtnPlus), (0x13a, BtnMinus)]"
| "key_table KindGuitar =
    [(0x101, BtnFretFarUp), (0x102, BtnFretUp), (0x103, BtnFretMid), (0x104, BtnFretLow),
     (0x105, BtnFretFarLow), (0x220, BtnStrumBarUp), (0x221, BtnStrumBarDown),
     (0x13b, BtnPlus), (0x13a, BtnMinus)]"
| "key_table _ = []"

lemmas key_map_defs =
  map_core_key_def map_nunchuk_key_def map_classic_key_def map_pro_key_def map_drums_key_def
  map_guitar_key_def

lemma interface_key_table: "interface_key k c = map_of (key_table k) c"
  by (cases k) (simp_all only: interface_key.simps key_map_defs key_table.simps key_code_defs map_of.simps(1))

lemma key_table_distinct: "distinct (map snd (key_table k))"
  by (cases k) simp_all

lemma key_table_codes: "list_all (\<lambda>(c, b). c < KEY_WORDS * 64) (key_table k)"
  by (cases k) (simp_all add: KEY_WORDS_def)

text \<open>No two codes of an interface carry the same button, and all are below \<open>KEY_MAX\<close>.\<close>

lemma interface_key_inj:
  "interface_key k c = Some b \<Longrightarrow> interface_key k c' = Some b \<Longrightarrow> c = c'"
  unfolding interface_key_table by (rule map_of_inj [OF key_table_distinct])

lemma interface_key_less: "interface_key k c = Some b \<Longrightarrow> c < KEY_WORDS * 64"
  using key_table_codes [of k] unfolding interface_key_table
  by (auto simp: list_all_iff dest!: map_of_SomeD)

lemma key_kind_button:
  "interface_key k c = Some b \<Longrightarrow> \<exists>e. key_kind k be = Some e \<and> event_button e = Some be"
  by (cases k) auto

lemma decode_key_some:
  assumes "interface_key k (ie_code e) = Some b" "key_state_of (ie_value e) = Some s"
  shows "\<exists>ev. decode_key k e = Some ev
    \<and> event_button (ev_kind ev) = Some \<lparr>be_button = b, be_state = s\<rparr>"
proof -
  from key_kind_button [OF assms(1), of "\<lparr>be_button = b, be_state = s\<rparr>"] obtain ek where
    "key_kind k \<lparr>be_button = b, be_state = s\<rparr> = Some ek"
    "event_button ek = Some \<lparr>be_button = b, be_state = s\<rparr>" by blast
  moreover have "0 \<le> ie_value e \<and> ie_value e \<le> 2"
    using assms(2) by (auto simp: key_state_of_def split: if_splits)
  ultimately show ?thesis using assms by (simp add: decode_key_def)
qed

lemma decode_key_none:
  "interface_key k (ie_code e) = None \<or> key_state_of (ie_value e) = None \<Longrightarrow> decode_key k e = None"
  by (auto simp: decode_key_def split: option.split)

lemma consume_report [simp]:
  assumes "fst (decoder_report d t) = Some e" shows "consume e view = view"
proof -
  have "event_button (ev_kind e) = None"
    using assms by (auto simp: decoder_report_def Let_def split: interface_kind.splits prod.splits)
  then show ?thesis by (simp add: consume_def)
qed

lemma consume_replay_report: "fold consume (replay_report d) view = view"
  by (auto simp: replay_report_def split: option.split)

lemma consume_replayed_keys:
  assumes "rec_key_state (dec_recovery d) = ws" "distinct cs"
  shows "fold consume (replayed_keys d cs) view =
    {b. case_option (b \<in> view) (key_bit ws)
          (find (\<lambda>c. interface_key (dec_interface d) c = Some b) cs)}"
  using assms(2)
proof (induction cs arbitrary: view)
  case Nil then show ?case by simp
next
  case (Cons c cs)
  let ?k = "dec_interface d"
  let ?e = "key_replay_event d c"
  have code: "ie_code ?e = c" "ie_value ?e = (if key_bit ws c then 1 else 0)"
    using assms(1) by (auto simp: key_replay_event_def)
  have notin: "find (\<lambda>c. interface_key ?k c = Some b) cs = None" if "interface_key ?k c = Some b" for b
    using Cons.prems unfolding find_None_iff by (auto dest: interface_key_inj [OF that])
  show ?case
  proof (cases "interface_key ?k c")
    case None
    then have "decode_key ?k ?e = None" by (intro decode_key_none) (simp add: code)
    then show ?thesis using Cons None by simp
  next
    case (Some b)
    define s where "s = (if key_bit ws c then Pressed else Released)"
    have "key_state_of (ie_value ?e) = Some s" using code by (simp add: s_def key_state_of_def)
    with decode_key_some [of ?k ?e b s] Some code obtain ev where ev: "decode_key ?k ?e = Some ev"
      "event_button (ev_kind ev) = Some \<lparr>be_button = b, be_state = s\<rparr>"
      by auto
    have view: "consume ev v = (if key_bit ws c then insert b v else v - {b})" for v
      using ev(2) by (simp add: consume_def s_def)
    have "fold consume (replayed_keys d (c # cs)) view = fold consume (replayed_keys d cs) (consume ev view)"
      using ev(1) by simp
    also have "\<dots> = {b'. case_option (b' \<in> consume ev view) (key_bit ws)
        (find (\<lambda>c. interface_key ?k c = Some b') cs)}"
      by (rule Cons.IH) (use Cons.prems in simp)
    also have "\<dots> = {b'. case_option (b' \<in> view) (key_bit ws)
        (find (\<lambda>c. interface_key ?k c = Some b') (c # cs))}"
    proof (rule Collect_cong)
      fix b' show "case_option (b' \<in> consume ev view) (key_bit ws)
          (find (\<lambda>c. interface_key ?k c = Some b') cs) =
        case_option (b' \<in> view) (key_bit ws) (find (\<lambda>c. interface_key ?k c = Some b') (c # cs))"
        using Some notin [OF Some] by (cases "b' = b") (simp_all add: view split: option.split)
    qed
    finally show ?thesis .
  qed
qed

lemma key_bit_KEY_CODES: "c \<in> set KEY_CODES \<longleftrightarrow> c < KEY_WORDS * 64"
  by (auto simp: KEY_CODES_def)

lemma held_in_snapshot: "held_in k (map (key_word keys) [0..<KEY_WORDS]) = held_in k keys"
  unfolding held_in_def
  by (rule Collect_cong) (metis key_bit_map_key_word interface_key_less)

lemma held_in_code:
  "interface_key k c = Some b \<Longrightarrow> b \<in> held_in k ws \<longleftrightarrow> key_bit ws c"
  unfolding held_in_def by (auto dest: interface_key_inj)

lemma recover_consumer:
  "fold consume (fst (drain_recovered (decoder_recover d keys axes t)))
     (held_in (dec_interface d) (rec_key_state (dec_recovery d)))
   = held_in (dec_interface d) keys"
proof -
  let ?d = "decoder_recover d keys axes t" and ?k = "dec_interface d"
  let ?old = "rec_key_state (dec_recovery d)"
  let ?diff = "filter (\<lambda>c. key_bit ?old c \<noteq> key_bit keys c) KEY_CODES"
  let ?new = "map (key_word keys) [0..<KEY_WORDS]"
  have dist: "distinct ?diff" by (simp add: KEY_CODES_def)
  have "fold consume (fst (drain_recovered ?d)) (held_in ?k ?old) =
      fold consume (replayed_keys ?d ?diff) (held_in ?k ?old)"
    using recover_drain [of d keys axes t] by (simp add: consume_replay_report)
  also have "\<dots> = {b. case_option (b \<in> held_in ?k ?old) (key_bit ?new)
      (find (\<lambda>c. interface_key ?k c = Some b) ?diff)}"
    using consume_replayed_keys [of ?d ?new ?diff "held_in ?k ?old"] dist by simp
  also have "\<dots> = held_in ?k keys"
  proof (rule set_eqI)
    fix b
    show "b \<in> {b. case_option (b \<in> held_in ?k ?old) (key_bit ?new)
        (find (\<lambda>c. interface_key ?k c = Some b) ?diff)} \<longleftrightarrow> b \<in> held_in ?k keys"
    proof (cases "find (\<lambda>c. interface_key ?k c = Some b) ?diff")
      case None
      then have "key_bit ?old c = key_bit keys c" if "interface_key ?k c = Some b" for c
        using that interface_key_less [OF that] by (auto simp: find_None_iff key_bit_KEY_CODES)
      with None show ?thesis by (auto simp: held_in_def)
    next
      case (Some c)
      then have c: "interface_key ?k c = Some b" by (auto simp: find_Some_iff)
      then have "key_bit ?new c = key_bit keys c"
        using key_bit_map_key_word interface_key_less by blast
      moreover have "b \<in> held_in ?k keys \<longleftrightarrow> key_bit keys c" by (rule held_in_code [OF c])
      ultimately show ?thesis using Some by simp
    qed
  qed
  finally show ?thesis .
qed


section \<open>Whole histories\<close>

text \<open>
  One step of an open interface: a raw event, or the recovery the interface performs after a
  drop, with everything it replays.
\<close>

datatype dec_step = PushRaw raw_event | Resync "u64 list" "(nat \<times> int) list" timeval

fun decoder_step :: "decoder \<Rightarrow> dec_step \<Rightarrow> decoder \<times> hid_event list" where
  "decoder_step d (PushRaw e) = (case decoder_push d e of
     (Some ev, d') \<Rightarrow> (d', [ev]) | (None, d') \<Rightarrow> (d', []))"
| "decoder_step d (Resync keys axes t) =
    (case drain_recovered (decoder_recover d keys axes t) of (es, d') \<Rightarrow> (d', es))"

definition decoder_ok :: "decoder \<Rightarrow> bool" where
  "decoder_ok d \<longleftrightarrow> length (rec_key_state (dec_recovery d)) = KEY_WORDS"

lemma remember_bit:
  assumes "length (rec_key_state r) = KEY_WORDS" "ie_type e = EV_KEY"
    and "ie_code e < KEY_WORDS * 64" "0 \<le> ie_value e \<and> ie_value e \<le> 2"
  shows "key_bit (rec_key_state (remember r e)) c =
    (if c = ie_code e then ie_value e \<noteq> 0 else key_bit (rec_key_state r) c)"
proof -
  let ?c = "ie_code e" and ?ws = "rec_key_state r"
  have i: "?c div 64 < length ?ws" "?c mod 64 < 64"
    using assms(1,3) by (simp_all add: less_mult_imp_div_less)
  have eq: "?c div 64 * 64 + ?c mod 64 = ?c" by simp
  show ?thesis
  proof (cases "ie_value e = 0")
    case True
    then have "rec_key_state (remember r e) =
        ?ws[?c div 64 := key_word ?ws (?c div 64) AND NOT (push_bit (?c mod 64) 1)]"
      using assms by (simp add: remember_def Let_def)
    then show ?thesis using key_bit_clear [OF i, of c] True unfolding eq by simp
  next
    case False
    then have "rec_key_state (remember r e) =
        ?ws[?c div 64 := key_word ?ws (?c div 64) OR push_bit (?c mod 64) 1]"
      using assms by (simp add: remember_def Let_def)
    then show ?thesis using key_bit_set [OF i, of c] False unfolding eq by auto
  qed
qed

lemma remember_held:
  assumes "length (rec_key_state r) = KEY_WORDS" "ie_type e = EV_KEY"
  shows "held_in k (rec_key_state (remember r e)) =
    (case decode_key k e of Some ev \<Rightarrow> consume ev (held_in k (rec_key_state r))
     | None \<Rightarrow> held_in k (rec_key_state r))"
proof (cases "interface_key k (ie_code e)")
  case None
  have "interface_key k c = Some b \<Longrightarrow> c \<noteq> ie_code e" for b c using None by auto
  moreover have "key_bit (rec_key_state (remember r e)) c = key_bit (rec_key_state r) c"
    if "c \<noteq> ie_code e" for c
    using that remember_bit [OF assms, of c]
    by (cases "ie_code e < KEY_WORDS * 64 \<and> 0 \<le> ie_value e \<and> ie_value e \<le> 2")
      (auto simp: remember_def)
  ultimately have "held_in k (rec_key_state (remember r e)) = held_in k (rec_key_state r)"
    unfolding held_in_def by blast
  then show ?thesis using decode_key_none [of k e] None by simp
next
  case (Some b)
  note less = interface_key_less [OF Some]
  let ?ws = "rec_key_state r" and ?c = "ie_code e"
  show ?thesis
  proof (cases "key_state_of (ie_value e)")
    case None
    then have "\<not> (0 \<le> ie_value e \<and> ie_value e \<le> 2)"
      by (auto simp: key_state_of_def split: if_splits)
    then show ?thesis using decode_key_none [of k e] None by (simp add: remember_def)
  next
    case st: (Some s)
    then have v: "0 \<le> ie_value e \<and> ie_value e \<le> 2" "s = Released \<longleftrightarrow> ie_value e = 0"
      by (auto simp: key_state_of_def split: if_splits)
    obtain ev where ev: "decode_key k e = Some ev"
      "event_button (ev_kind ev) = Some \<lparr>be_button = b, be_state = s\<rparr>"
      using decode_key_some [OF Some st] by blast
    have kb: "key_bit (rec_key_state (remember r e)) c =
        (if c = ?c then ie_value e \<noteq> 0 else key_bit ?ws c)" for c
      by (rule remember_bit [OF assms less v(1)])
    have "held_in k (rec_key_state (remember r e)) =
        (if s = Released then held_in k ?ws - {b} else insert b (held_in k ?ws))"
    proof (rule set_eqI)
      fix b'
      show "b' \<in> held_in k (rec_key_state (remember r e)) \<longleftrightarrow>
          b' \<in> (if s = Released then held_in k ?ws - {b} else insert b (held_in k ?ws))"
      proof (cases "b' = b")
        case True
        then show ?thesis using held_in_code [OF Some] kb [of ?c] v(2) by auto
      next
        case False
        then have "interface_key k c = Some b' \<Longrightarrow> c \<noteq> ?c" for c using Some by auto
        then have "b' \<in> held_in k (rec_key_state (remember r e)) \<longleftrightarrow> b' \<in> held_in k ?ws"
          unfolding held_in_def by (auto simp: kb)
        then show ?thesis using False by simp
      qed
    qed
    then show ?thesis using ev by (simp add: consume_def)
  qed
qed

lemma decoder_report_consume [simp]:
  "(case fst (decoder_report d t) of Some e \<Rightarrow> consume e view | None \<Rightarrow> view) = view"
  by (simp split: option.split)

lemma remember_length [simp]: "length (rec_key_state (remember r e)) = length (rec_key_state r)"
  by (simp add: remember_def Let_def)

lemma decoder_push_consume:
  assumes "decoder_ok d" "decoder_push d e = (out, d')"
  shows "decoder_ok d' \<and> dec_interface d' = dec_interface d
    \<and> held_in (dec_interface d) (rec_key_state (dec_recovery d')) =
        (case out of Some ev \<Rightarrow> consume ev (held_in (dec_interface d) (rec_key_state (dec_recovery d)))
         | None \<Rightarrow> held_in (dec_interface d) (rec_key_state (dec_recovery d)))"
proof (cases "ie_type e = EV_KEY \<and> \<not> rec_desynced (dec_recovery d)")
  case True
  then have "out = decode_key (dec_interface d) e" "d' = d\<lparr>dec_recovery := remember (dec_recovery d) e\<rparr>"
    using assms(2) by (simp_all add: decoder_push_def EV_KEY_def EV_SYN_def)
  then show ?thesis
    using remember_held [of "dec_recovery d" e "dec_interface d"] assms(1) True
    by (simp add: decoder_ok_def)
next
  case False
  consider "out = None \<and> dec_interface d' = dec_interface d
      \<and> rec_key_state (dec_recovery d') = rec_key_state (dec_recovery d)"
    | "(out, d') = decoder_report d (ie_time e)"
    using assms(2) False
    by (auto simp: decoder_push_def recovery_dropped_def split: if_splits)
  then show ?thesis
  proof cases
    case 2
    then have "out = fst (decoder_report d (ie_time e))" "d' = snd (decoder_report d (ie_time e))"
      by (metis fst_conv, metis snd_conv)
    then show ?thesis using assms(1) by (simp add: decoder_ok_def)
  qed (use assms(1) in \<open>simp add: decoder_ok_def\<close>)
qed

lemma decoder_step_consume:
  assumes "decoder_ok d" "decoder_step d i = (d', out)"
  shows "decoder_ok d' \<and> dec_interface d' = dec_interface d
    \<and> fold consume out (held_in (dec_interface d) (rec_key_state (dec_recovery d)))
        = held_in (dec_interface d) (rec_key_state (dec_recovery d'))"
proof (cases i)
  case (PushRaw e)
  obtain o1 where p: "decoder_push d e = (o1, d')" and out: "out = (case o1 of Some ev \<Rightarrow> [ev] | None \<Rightarrow> [])"
    using assms(2) PushRaw by (auto split: prod.splits option.splits)
  show ?thesis using decoder_push_consume [OF assms(1) p] out by (cases o1) simp_all
next
  case (Resync keys axes t)
  then have eqs: "d' = snd (drain_recovered (decoder_recover d keys axes t))"
    "out = fst (drain_recovered (decoder_recover d keys axes t))"
    using assms(2) by (auto split: prod.splits)
  then show ?thesis
    using recover_drain [of d keys axes t] recover_consumer [of d keys axes t]
    by (simp add: drain_kept_def decoder_ok_def held_in_snapshot)
qed


section \<open>Properties\<close>

text \<open>
  After a drop, the replay delivers exactly the difference between the last known key
  snapshot and the kernel's: one event per changed code the interface knows, lowest code first,
  with the kernel's value and the time of the report that ended the drop, then one axis report
  if the interface has axes, and afterwards nothing is pending and the decoder is in sync.
\<close>

theorem recovery_replays_difference:
  "fst (drain_recovered (decoder_recover d keys axes t)) =
     List.map_filter
       (\<lambda>c. decode_key (dec_interface d)
          \<lparr>ie_time = t, ie_type = EV_KEY, ie_code = c, ie_value = (if key_bit keys c then 1 else 0)\<rparr>)
       (filter (\<lambda>c. key_bit (rec_key_state (dec_recovery d)) c \<noteq> key_bit keys c) KEY_CODES)
     @ (if abs_codes (dec_interface d) = [] then []
        else case fst (decoder_report (decoder_recover d keys axes t) t) of Some e \<Rightarrow> [e] | None \<Rightarrow> [])
   \<and> \<not> has_pending (dec_recovery (snd (drain_recovered (decoder_recover d keys axes t))))
   \<and> \<not> rec_desynced (dec_recovery (snd (drain_recovered (decoder_recover d keys axes t))))"
proof -
  let ?d = "decoder_recover d keys axes t"
  let ?cs = "filter (\<lambda>c. key_bit (rec_key_state (dec_recovery d)) c \<noteq> key_bit keys c) KEY_CODES"
  have "replayed_keys ?d ?cs = List.map_filter
       (\<lambda>c. decode_key (dec_interface d)
          \<lparr>ie_time = t, ie_type = EV_KEY, ie_code = c, ie_value = (if key_bit keys c then 1 else 0)\<rparr>) ?cs"
    unfolding replayed_keys_def
    by (rule map_filter_cong) (simp add: key_replay_event_def key_bit_map_key_word key_bit_KEY_CODES)
  then show ?thesis
    using recover_drain [of d keys axes t] by (simp add: drain_kept_def replay_report_def)
qed

text \<open>
  C23. A client that applies the delivered key events has, over any history of raw events, drops
  and recoveries, exactly the buttons the decoder's snapshot holds: no press or release is
  lost or invented.
\<close>

theorem consumer_tracks_snapshot:
  assumes "decoder_ok d"
  shows "fold consume (snd (run_steps decoder_step d steps))
      (held_in (dec_interface d) (rec_key_state (dec_recovery d)))
    = held_in (dec_interface d) (rec_key_state (dec_recovery (fst (run_steps decoder_step d steps))))"
  using assms
proof (induction steps arbitrary: d)
  case (Cons i steps)
  obtain d' out where st: "decoder_step d i = (d', out)" by force
  show ?case using decoder_step_consume [OF Cons.prems st] Cons.IH [of d'] st
    by (auto simp: split_beta)
qed simp

text \<open>
  After a drop nothing is delivered and nothing is remembered until the recovery: raw events
  of an unknown prefix never reach the client.
\<close>

theorem silent_while_desynced:
  assumes "rec_desynced (dec_recovery d)"
  shows "run_steps decoder_step d (map PushRaw es) = (d, [])"
  using assms by (induction es) (simp_all add: decoder_push_def)

lemma Decoder_new_ok: "decoder_ok (Decoder_new k)"
  by (simp add: decoder_ok_def Decoder_new_def RecoveryState_default_def)

definition sample_press :: raw_event where
  "sample_press = \<lparr>ie_time = \<lparr>tv_sec = 1, tv_usec = 5\<rparr>, ie_type = EV_KEY, ie_code = 0x132, ie_value = 1\<rparr>"

definition sample_drop :: raw_event where
  "sample_drop = \<lparr>ie_time = \<lparr>tv_sec = 2, tv_usec = 0\<rparr>, ie_type = EV_SYN, ie_code = SYN_DROPPED, ie_value = 0\<rparr>"

text \<open>C is pressed, then events are lost in which it is released.\<close>

lemma consumer_tracks_snapshot_witness:
  "decoder_ok (Decoder_new KindNunchuk) \<and>
   fold consume (snd (run_steps decoder_step (Decoder_new KindNunchuk)
       [PushRaw sample_press, PushRaw sample_drop, Resync [0] [] \<lparr>tv_sec = 3, tv_usec = 0\<rparr>]))
     (held_in (dec_interface (Decoder_new KindNunchuk)) (rec_key_state (dec_recovery (Decoder_new KindNunchuk))))
   = held_in (dec_interface (Decoder_new KindNunchuk))
      (rec_key_state (dec_recovery (fst (run_steps decoder_step (Decoder_new KindNunchuk)
        [PushRaw sample_press, PushRaw sample_drop, Resync [0] [] \<lparr>tv_sec = 3, tv_usec = 0\<rparr>]))))"
  using consumer_tracks_snapshot [OF Decoder_new_ok, of KindNunchuk
      "[PushRaw sample_press, PushRaw sample_drop, Resync [0] [] \<lparr>tv_sec = 3, tv_usec = 0\<rparr>]"]
    Decoder_new_ok by blast

lemma silent_while_desynced_witness:
  "rec_desynced (dec_recovery (snd (decoder_push (Decoder_new KindCore) sample_drop))) \<and>
   run_steps decoder_step (snd (decoder_push (Decoder_new KindCore) sample_drop))
     (map PushRaw [sample_press, sample_drop])
   = (snd (decoder_push (Decoder_new KindCore) sample_drop), [])"
proof -
  have "rec_desynced (dec_recovery (snd (decoder_push (Decoder_new KindCore) sample_drop)))"
    by (simp add: decoder_push_def Decoder_new_def RecoveryState_default_def sample_drop_def
        recovery_dropped_def)
  then show ?thesis using silent_while_desynced by blast
qed

text \<open>
  C4. Recovery restores the client: whatever was lost, after the replay a client that held what
  the old snapshot holds, holds exactly the buttons that the kernel reports as down.
\<close>

theorem recovery_restores_client:
  "fold consume (fst (drain_recovered (decoder_recover d keys axes t)))
     (held_in (dec_interface d) (rec_key_state (dec_recovery d)))
   = held_in (dec_interface d) keys"
  by (rule recover_consumer)

end
