(* ===== verification/Decode_Axes.thy ===== *)
theory Decode_Axes
  imports Decode
begin

text \<open>
  What the axis caches and the Motion Plus normaliser of
  \<open>crates/wiiland-hid/src/decode.rs\<close> promise: every axis code of an interface has a slot of
  its own, a code that is not the interface's changes nothing, a recovery's axis list is applied
  independently of its order, and the normaliser stays in the range of \<open>i32\<close> and reports the
  values it was given.
\<close>

section \<open>Slots\<close>

text \<open>The specification: where the value of an axis code is found in the reports.\<close>

fun axis_slot :: "interface_kind \<Rightarrow> cache_state \<Rightarrow> nat \<Rightarrow> int option" where
  "axis_slot KindAccel c code = map_of
     [(3, ax_x (cache_accel c)), (4, ax_y (cache_accel c)), (5, ax_z (cache_accel c))] code"
| "axis_slot KindMotionPlus c code = map_of
     [(3, ax_x (cache_motion_plus c)), (4, ax_y (cache_motion_plus c)),
      (5, ax_z (cache_motion_plus c))] code"
| "axis_slot KindIr c code = map_of
     [(16, ax_x (cache_ir c ! 0)), (17, ax_y (cache_ir c ! 0)), (18, ax_x (cache_ir c ! 1)),
      (19, ax_y (cache_ir c ! 1)), (20, ax_x (cache_ir c ! 2)), (21, ax_y (cache_ir c ! 2)),
      (22, ax_x (cache_ir c ! 3)), (23, ax_y (cache_ir c ! 3))] code"
| "axis_slot KindNunchuk c code = map_of
     [(16, ax_x (cache_nunchuk c ! 0)), (17, ax_y (cache_nunchuk c ! 0)),
      (3, ax_x (cache_nunchuk c ! 1)), (4, ax_y (cache_nunchuk c ! 1)),
      (5, ax_z (cache_nunchuk c ! 1))] code"
| "axis_slot KindClassic c code = map_of
     [(18, ax_x (cache_classic c ! 0)), (19, ax_y (cache_classic c ! 0)),
      (20, ax_x (cache_classic c ! 1)), (21, ax_y (cache_classic c ! 1)),
      (22, ax_y (cache_classic c ! 2)), (23, ax_x (cache_classic c ! 2))] code"
| "axis_slot KindBalanceBoard c code = map_of
     [(16, ax_x (cache_balance_board c ! 0)), (17, ax_x (cache_balance_board c ! 1)),
      (18, ax_x (cache_balance_board c ! 2)), (19, ax_x (cache_balance_board c ! 3))] code"
| "axis_slot KindPro c code = map_of
     [(0, ax_x (cache_pro c ! 0)), (1, ax_y (cache_pro c ! 0)),
      (3, ax_x (cache_pro c ! 1)), (4, ax_y (cache_pro c ! 1))] code"
| "axis_slot KindDrums c code = map_of
     [(0, ax_x (cache_drums c ! 0)), (1, ax_y (cache_drums c ! 0)), (20, ax_x (cache_drums c ! 1)),
      (21, ax_x (cache_drums c ! 2)), (16, ax_x (cache_drums c ! 3)), (18, ax_x (cache_drums c ! 4)),
      (17, ax_x (cache_drums c ! 5)), (22, ax_x (cache_drums c ! 6)),
      (23, ax_x (cache_drums c ! 7))] code"
| "axis_slot KindGuitar c code = map_of
     [(0, ax_x (cache_guitar c ! 0)), (1, ax_y (cache_guitar c ! 0)),
      (18, ax_x (cache_guitar c ! 1)), (16, ax_x (cache_guitar c ! 2))] code"
| "axis_slot KindCore c code = None"

definition cache_ok :: "cache_state \<Rightarrow> bool" where
  "cache_ok c \<longleftrightarrow>
    length (cache_ir c) = 4 \<and> length (cache_nunchuk c) = 2 \<and> length (cache_classic c) = 3
    \<and> length (cache_balance_board c) = 4 \<and> length (cache_pro c) = 2 \<and> length (cache_drums c) = 8
    \<and> length (cache_guitar c) = 3"

lemma put_length [simp]:
  "length (put_x i v xs) = length xs" "length (put_y i v xs) = length xs"
  "length (put_z i v xs) = length xs"
  by (simp_all add: put_x_def put_y_def put_z_def)

lemma put_nth [simp]:
  "i < length xs \<Longrightarrow> put_x i v xs ! j = (if j = i then (xs ! j)\<lparr>ax_x := v\<rparr> else xs ! j)"
  "i < length xs \<Longrightarrow> put_y i v xs ! j = (if j = i then (xs ! j)\<lparr>ax_y := v\<rparr> else xs ! j)"
  "i < length xs \<Longrightarrow> put_z i v xs ! j = (if j = i then (xs ! j)\<lparr>ax_z := v\<rparr> else xs ! j)"
  by (auto simp: put_x_def put_y_def put_z_def)

lemma CacheState_default_ok: "cache_ok CacheState_default"
  by (simp add: cache_ok_def CacheState_default_def DRUM_SLOT_COUNT_def)

lemma update_abs_ok: "cache_ok c \<Longrightarrow> cache_ok (update_abs k c code v)"
  by (cases k) (simp_all add: cache_ok_def Let_def split: option.split prod.split)

lemma update_abs_foreign: "code \<notin> set (abs_codes k) \<Longrightarrow> update_abs k c code v = c"
  by (cases k) (simp_all add: Let_def put_abc_def ir_slot_def)

lemma axis_slot_dom: "axis_slot k c code \<noteq> None \<longleftrightarrow> code \<in> set (abs_codes k)"
  by (cases k) (auto simp: abs_code_defs)

lemma axis_slot_update:
  assumes "cache_ok c" "code \<in> set (abs_codes k)"
  shows "axis_slot k (update_abs k c code v) code' = (if code' = code then Some v else axis_slot k c code')"
proof -
  have len: "length (cache_ir c) = 4" "length (cache_nunchuk c) = 2" "length (cache_classic c) = 3"
    "length (cache_balance_board c) = 4" "length (cache_pro c) = 2" "length (cache_drums c) = 8"
    "length (cache_guitar c) = 3"
    using assms(1) by (auto simp: cache_ok_def)
  show ?thesis using assms(2)
    by (cases k; simp only: abs_codes.simps list.set insert_iff empty_iff simp_thms; elim disjE)
      (simp_all add: len Let_def put_abc_def ir_slot_def abs_code_defs)
qed

lemma update_abs_list_Cons:
  "update_abs_list k c ((code, v) # axes) = update_abs_list k (update_abs k c code v) axes"
  by (simp add: update_abs_list_def)

lemma update_abs_list_ok: "cache_ok c \<Longrightarrow> cache_ok (update_abs_list k c axes)"
  by (induction axes arbitrary: c) (auto simp: update_abs_list_def update_abs_ok)

lemma axis_slot_update_any:
  "cache_ok c \<Longrightarrow> axis_slot k (update_abs k c code v) code' =
    (if code' = code \<and> code \<in> set (abs_codes k) then Some v else axis_slot k c code')"
  using axis_slot_update [of c code k v code'] update_abs_foreign [of code k c v]
  by (cases "code \<in> set (abs_codes k)") auto


section \<open>The normaliser\<close>

lemma clamp_i32_range [simp]: "in_i32 (clamp_i32 x)"
  by (auto simp: in_i32_def clamp_i32_def clamp_def)

lemma clamp_i32_id: "in_i32 x \<Longrightarrow> clamp_i32 x = x"
  by (auto simp: in_i32_def clamp_i32_def clamp_def)

lemma scale_offset_back: "\<bar>x\<bar> \<le> 21474836 \<Longrightarrow> scale_offset x sdiv 100 = x"
  unfolding scale_offset_def by (subst clamp_i32_id) (auto simp: in_i32_def sdiv_exact)

definition normalizer_ok :: "mp_normalizer \<Rightarrow> bool" where
  "normalizer_ok m \<longleftrightarrow> in_i32 (ax_x (mp_offsets m)) \<and> in_i32 (ax_y (mp_offsets m))
    \<and> in_i32 (ax_z (mp_offsets m))"

definition axis3_ok :: "axis3 \<Rightarrow> bool" where
  "axis3_ok a \<longleftrightarrow> in_i32 (ax_x a) \<and> in_i32 (ax_y a) \<and> in_i32 (ax_z a)"

lemma normalize_axis_range:
  "in_i32 (fst (normalize_axis v off f)) \<and> (in_i32 off \<longrightarrow> in_i32 (snd (normalize_axis v off f)))"
  by (simp add: normalize_axis_def Let_def)


section \<open>Properties\<close>

text \<open>
  A list of axis values, as a snapshot or a recovery applies it, leaves in every slot of the
  interface the last value listed for its code and keeps the slot's old value when the code is
  not listed; codes of other interfaces have no effect.
\<close>

theorem axis_list_applied:
  assumes "cache_ok c"
  shows "axis_slot k (update_abs_list k c axes) code =
    (case map_of (rev axes) code of
       Some v \<Rightarrow> if code \<in> set (abs_codes k) then Some v else None
     | None \<Rightarrow> axis_slot k c code)"
  using assms
proof (induction axes arbitrary: c)
  case Nil
  then show ?case by (simp add: update_abs_list_def)
next
  case (Cons a axes)
  obtain code0 v where a: "a = (code0, v)" by force
  note IH = Cons.IH [OF update_abs_ok [OF Cons.prems], of k code0 v]
  show ?case
    using axis_slot_dom [of k c code] axis_slot_dom [of k "update_abs k c code0 v" code]
    by (auto simp: a update_abs_list_Cons IH axis_slot_update_any [OF Cons.prems] map_add_def
        split: option.split)
qed

lemma axis_list_applied_witness:
  "cache_ok CacheState_default \<and>
   axis_slot KindNunchuk (update_abs_list KindNunchuk CacheState_default [(16, 5), (17, 6), (16, 7)]) 16
     = Some 7"
proof -
  have "16 \<in> set (abs_codes KindNunchuk)" by (simp add: abs_code_defs)
  then show ?thesis
    using axis_list_applied [OF CacheState_default_ok, of KindNunchuk "[(16, 5), (17, 6), (16, 7)]" 16]
      CacheState_default_ok by simp
qed

text \<open>
  The normaliser reports the calibration it was given (for offsets whose hundredfold fits in
  an \<open>i32\<close>), whatever it held before.
\<close>

theorem normalizer_roundtrip:
  assumes "\<bar>x\<bar> \<le> 21474836" "\<bar>y\<bar> \<le> 21474836" "\<bar>z\<bar> \<le> 21474836"
  shows "normalizer_values (normalizer_set m x y z f) = (x, y, z, f)"
  using assms by (simp add: normalizer_values_def normalizer_set_def scale_offset_back)

lemma normalizer_roundtrip_witness:
  "\<bar>- 3\<bar> \<le> (21474836::int) \<and> normalizer_values (normalizer_set MotionPlusNormalizer_new (- 3) 10 21474836 7)
     = (- 3, 10, 21474836, 7)"
  using normalizer_roundtrip [of "- 3" 10 21474836 MotionPlusNormalizer_new 7] by simp

text \<open>
  Normalising never leaves the range of \<open>i32\<close>, keeps the factor, leaves an axis at rest
  alone, and moves the stored offset of a moving axis by the factor towards the sample.
\<close>

theorem normalizer_sound:
  assumes "normalizer_ok m" "normalizer_normalize m v = (out, m')"
  shows "axis3_ok out \<and> normalizer_ok m' \<and> mp_factor m' = mp_factor m
    \<and> (ax_x out = 0 \<longrightarrow> ax_x (mp_offsets m') = ax_x (mp_offsets m))
    \<and> (ax_x out > 0 \<longrightarrow> ax_x (mp_offsets m') = clamp_i32 (ax_x (mp_offsets m) + mp_factor m))
    \<and> (ax_x out < 0 \<longrightarrow> ax_x (mp_offsets m') = clamp_i32 (ax_x (mp_offsets m) - mp_factor m))"
proof -
  from assms(2) have out: "ax_x out = fst (normalize_axis (ax_x v) (ax_x (mp_offsets m)) (mp_factor m))"
    "ax_y out = fst (normalize_axis (ax_y v) (ax_y (mp_offsets m)) (mp_factor m))"
    "ax_z out = fst (normalize_axis (ax_z v) (ax_z (mp_offsets m)) (mp_factor m))"
    and off: "mp_factor m' = mp_factor m"
    "ax_x (mp_offsets m') = snd (normalize_axis (ax_x v) (ax_x (mp_offsets m)) (mp_factor m))"
    "ax_y (mp_offsets m') = snd (normalize_axis (ax_y v) (ax_y (mp_offsets m)) (mp_factor m))"
    "ax_z (mp_offsets m') = snd (normalize_axis (ax_z v) (ax_z (mp_offsets m)) (mp_factor m))"
    by (auto simp: normalizer_normalize_def Let_def split_beta)
  have "axis3_ok out" "normalizer_ok m'"
    using assms(1) by (simp_all add: axis3_ok_def normalizer_ok_def out off normalize_axis_range)
  moreover have
    "ax_x out = 0 \<Longrightarrow> ax_x (mp_offsets m') = ax_x (mp_offsets m)"
    "ax_x out > 0 \<Longrightarrow> ax_x (mp_offsets m') = clamp_i32 (ax_x (mp_offsets m) + mp_factor m)"
    "ax_x out < 0 \<Longrightarrow> ax_x (mp_offsets m') = clamp_i32 (ax_x (mp_offsets m) - mp_factor m)"
    unfolding out(1) off(2) by (auto simp: normalize_axis_def Let_def)
  ultimately show ?thesis using off(1) by blast
qed

lemma normalizer_sound_witness:
  "normalizer_ok (normalizer_set MotionPlusNormalizer_new 0 0 0 50) \<and>
   axis3_ok (fst (normalizer_normalize (normalizer_set MotionPlusNormalizer_new 0 0 0 50)
     \<lparr>ax_x = 12, ax_y = 0, ax_z = - 12\<rparr>))"
proof -
  let ?m = "normalizer_set MotionPlusNormalizer_new 0 0 0 50"
  have "normalizer_ok ?m" by (simp add: normalizer_ok_def normalizer_set_def scale_offset_def)
  then show ?thesis
    using normalizer_sound [of ?m "\<lparr>ax_x = 12, ax_y = 0, ax_z = - 12\<rparr>"] by (metis prod.collapse)
qed

end
