(* ===== verification/Device.thy ===== *)
theory Device
  imports Recovery Std_Text
begin

text \<open>
  An open controller: \<open>crates/wiiland-hid/src/device.rs\<close> with the interface table of
  \<open>backend.rs\<close>. What the kernel and libudev answer (opening a node, the \<open>ioctl\<close> queries, reads,
  the scan of the device's children, the queued udev events) is an argument of the operation
  that asks; error numbers are negative as in the source. A descriptor is an \<open>int\<close>, \<open>- 1\<close> when
  closed. \<open>hi_wake\<close> is whether the wake descriptor's counter is positive.
\<close>

section \<open>Interface table\<close>

definition IF_NAMES :: "string list" where
  "IF_NAMES =
    [''Nintendo Wii Remote'', ''Nintendo Wii Remote Accelerometer'', ''Nintendo Wii Remote IR'',
     ''Nintendo Wii Remote Motion Plus'', ''Nintendo Wii Remote Nunchuk'',
     ''Nintendo Wii Remote Classic Controller'', ''Nintendo Wii Remote Balance Board'',
     ''Nintendo Wii Remote Pro Controller'', ''Nintendo Wii Remote Drums'',
     ''Nintendo Wii Remote Guitar'']"

definition IF_BITS :: "u32 list" where
  "IF_BITS = [0x1, 0x2, 0x4, 0x100, 0x200, 0x400, 0x800, 0x1000, 0x2000, 0x4000]"

definition ALL_INTERFACES :: u32 where "ALL_INTERFACES = 0x7f07"
definition WRITABLE :: u32 where "WRITABLE = 0x10000"

definition interface_by_name :: "string \<Rightarrow> nat option" where
  "interface_by_name name = position (\<lambda>x. name = x) IF_NAMES"

definition INTERFACE_KINDS :: "interface_kind list" where
  "INTERFACE_KINDS =
    [KindCore, KindAccel, KindIr, KindMotionPlus, KindNunchuk, KindClassic, KindBalanceBoard,
     KindPro, KindDrums, KindGuitar]"

definition ENODEV :: int where "ENODEV = 19"
definition EINVAL :: int where "EINVAL = 22"
definition EPIPE :: int where "EPIPE = 32"
definition EAGAIN :: int where "EAGAIN = 11"
definition EINTR :: int where "EINTR = 4"

definition MONITOR_EPOLL_TAG :: nat where "MONITOR_EPOLL_TAG = 18446744073709551615"
definition RECOVERY_EPOLL_TAG :: nat where "RECOVERY_EPOLL_TAG = 18446744073709551614"

definition lifecycle_event :: "event_kind \<Rightarrow> hid_event" where
  "lifecycle_event k = \<lparr>ev_time = Timestamp_default, ev_kind = k\<rparr>"

definition is_child_path :: "bytes \<Rightarrow> bytes \<Rightarrow> bool" where
  "is_child_path root candidate \<longleftrightarrow>
    starts_with candidate root \<and>
    (case drop (length root) candidate of [] \<Rightarrow> False | c # _ \<Rightarrow> c = CHR ''/'')"

definition in_watch_scope :: "bytes \<Rightarrow> bytes \<Rightarrow> bytes option \<Rightarrow> bool" where
  "in_watch_scope root candidate subsystem \<longleftrightarrow>
    candidate = root \<and> subsystem = Some ''hid''
    \<or> subsystem = Some ''input'' \<and> is_child_path root candidate"

text \<open>
  \<open>query_abs_state\<close> asks the kernel for every axis of an interface. For the infrared camera the
  codes come in pairs; a point the kernel does not know is out of view (1023).
\<close>

type_synonym abs_query = "nat \<Rightarrow> int + int"

text \<open>An error other than \<open>EINVAL\<close> ends the query.\<close>

fun hard_error :: "int + int \<Rightarrow> bool" where
  "hard_error (Inl e) \<longleftrightarrow> e \<noteq> - EINVAL"
| "hard_error (Inr v) \<longleftrightarrow> False"

fun query_pairs :: "abs_query \<Rightarrow> nat list \<Rightarrow> int + (nat \<times> int) list" where
  "query_pairs query (x_code # y_code # codes) =
    (case (query x_code, query y_code) of
       (x, y) \<Rightarrow>
         if hard_error x then Inl (projl x)
         else if hard_error y then Inl (projl y)
         else
           (case query_pairs query codes of
              Inl e \<Rightarrow> Inl e
            | Inr rest \<Rightarrow>
                Inr ((case (x, y) of
                        (Inr xv, Inr yv) \<Rightarrow> [(x_code, xv), (y_code, yv)]
                      | _ \<Rightarrow> [(x_code, 1023), (y_code, 1023)]) @ rest)))"
| "query_pairs query _ = Inr []"

fun query_single :: "abs_query \<Rightarrow> nat list \<Rightarrow> int + (nat \<times> int) list" where
  "query_single query [] = Inr []"
| "query_single query (code # codes) =
    (case query code of
       Inl e \<Rightarrow> if e = - EINVAL then query_single query codes else Inl e
     | Inr v \<Rightarrow>
         (case query_single query codes of Inl e \<Rightarrow> Inl e | Inr rest \<Rightarrow> Inr ((code, v) # rest)))"

definition query_abs_state :: "interface_kind \<Rightarrow> abs_query \<Rightarrow> int + (nat \<times> int) list" where
  "query_abs_state k query =
    (if k = KindIr then query_pairs query (abs_codes k) else query_single query (abs_codes k))"

text \<open>\<open>query_recovery_state\<close>: the kernel's key words, then the axes.\<close>

definition query_recovery_state ::
  "interface_kind \<Rightarrow> (int + u64 list) \<Rightarrow> abs_query \<Rightarrow> int + (u64 list \<times> (nat \<times> int) list)" where
  "query_recovery_state k keys query =
    (case keys of
       Inl e \<Rightarrow> Inl e
     | Inr ws \<Rightarrow> (case query_abs_state k query of Inl e \<Rightarrow> Inl e | Inr axes \<Rightarrow> Inr (ws, axes)))"

text \<open>The name ends at the first NUL of the buffer.\<close>

definition validate_evdev_name :: "bytes \<Rightarrow> string \<Rightarrow> int option" where
  "validate_evdev_name name expected =
    (let len = (case position (\<lambda>b. b = CHR 0x00) name of Some n \<Rightarrow> n | None \<Rightarrow> length name)
     in if take len name = expected then None else Some (- ENODEV))"

definition query_initial_state ::
  "nat \<Rightarrow> (int + bytes) \<Rightarrow> (int + u64 list) \<Rightarrow> abs_query \<Rightarrow> int + (u64 list \<times> (nat \<times> int) list)" where
  "query_initial_state i name keys query =
    (case name of
       Inl e \<Rightarrow> Inl e
     | Inr buffer \<Rightarrow>
         (case validate_evdev_name buffer (IF_NAMES ! i) of
            Some e \<Rightarrow> Inl e
          | None \<Rightarrow> query_recovery_state (INTERFACE_KINDS ! i) keys query))"

definition epoll_input_index :: "nat \<Rightarrow> nat \<Rightarrow> nat option" where
  "epoll_input_index tag input_count =
    (if tag = 0 then None else if tag - 1 < input_count then Some (tag - 1) else None)"

definition EPOLLIN :: u32 where "EPOLLIN = 0x1"
definition EPOLLERR :: u32 where "EPOLLERR = 0x8"
definition EPOLLHUP :: u32 where "EPOLLHUP = 0x10"

definition monitor_epoll_status :: "u32 \<Rightarrow> int option" where
  "monitor_epoll_status events =
    (if events AND (EPOLLERR OR EPOLLHUP) \<noteq> 0 then Some (- EPIPE) else None)"

definition refresh_requires_close ::
  "int \<Rightarrow> string option \<Rightarrow> string option \<Rightarrow> bool \<Rightarrow> bool" where
  "refresh_requires_close fd old_node new_node available \<longleftrightarrow>
    fd \<ge> 0 \<and> (\<not> available \<or> old_node \<noteq> new_node)"


section \<open>One input interface\<close>

record input_interface =
  ii_node :: "string option"
  ii_fd :: int
  ii_available :: bool
  ii_awaiting_sync :: bool
  ii_decoder :: decoder

definition InputInterface_new :: "nat \<Rightarrow> input_interface" where
  "InputInterface_new i = \<lparr>
     ii_node = None, ii_fd = - 1, ii_available = False, ii_awaiting_sync = False,
     ii_decoder = Decoder_new (INTERFACE_KINDS ! i)\<rparr>"

definition reset_decoder :: "input_interface \<Rightarrow> input_interface" where
  "reset_decoder x = x\<lparr>
     ii_awaiting_sync := False,
     ii_decoder := (Decoder_new (dec_interface (ii_decoder x)))
       \<lparr>dec_motion_plus := dec_motion_plus (ii_decoder x)\<rparr>\<rparr>"

definition input_close :: "input_interface \<Rightarrow> input_interface" where
  "input_close x = reset_decoder (x\<lparr>ii_fd := (if ii_fd x \<ge> 0 then - 1 else ii_fd x)\<rparr>)"


section \<open>The device\<close>

record hid_interface =
  hi_inputs :: "input_interface list"
  hi_nodes :: "string option list"
  hi_available :: u32
  hi_monitor :: bool
  hi_rumble_fd :: int
  hi_rumble_id :: int
  hi_next_input :: nat
  hi_gone :: bool
  hi_wake :: bool

text \<open>The value \<open>new\<close> builds before its first \<open>refresh\<close>.\<close>

definition Interface_start :: hid_interface where
  "Interface_start = \<lparr>
     hi_inputs = map InputInterface_new [0..<10], hi_nodes = replicate 10 None, hi_available = 0,
     hi_monitor = False, hi_rumble_fd = - 1, hi_rumble_id = - 1, hi_next_input = 0,
     hi_gone = False, hi_wake = False\<rparr>"

definition set_input :: "hid_interface \<Rightarrow> nat \<Rightarrow> input_interface \<Rightarrow> hid_interface" where
  "set_input d i x = d\<lparr>hi_inputs := (hi_inputs d)[i := x]\<rparr>"

definition recovery_pending :: "hid_interface \<Rightarrow> bool" where
  "recovery_pending d \<longleftrightarrow> list_ex (\<lambda>x. has_pending (dec_recovery (ii_decoder x))) (hi_inputs d)"

definition signal_recovery_if_pending :: "hid_interface \<Rightarrow> hid_interface" where
  "signal_recovery_if_pending d = (if recovery_pending d then d\<lparr>hi_wake := True\<rparr> else d)"

definition opened :: "hid_interface \<Rightarrow> interface_mask" where
  "opened d =
    foldl (\<lambda>bits i. if ii_fd (hi_inputs d ! i) \<ge> 0 then bits OR IF_BITS ! i else bits) 0 [0..<10]"

definition close_one :: "u32 \<Rightarrow> hid_interface \<Rightarrow> nat \<Rightarrow> hid_interface" where
  "close_one requested d i =
    (let x = hi_inputs d ! i
     in if requested AND IF_BITS ! i \<noteq> 0 \<and> ii_fd x \<ge> 0 then
          set_input
            (if hi_rumble_fd d = ii_fd x then d\<lparr>hi_rumble_fd := - 1, hi_rumble_id := - 1\<rparr> else d)
            i (input_close x)
        else d)"

definition close_interfaces :: "hid_interface \<Rightarrow> interface_mask \<Rightarrow> hid_interface" where
  "close_interfaces d ifaces = foldl (close_one (ifaces AND ALL_INTERFACES)) d [0..<10]"

text \<open>What the kernel answers while interface \<open>i\<close> is opened.\<close>

record open_env =
  oe_node :: "nat \<Rightarrow> bool \<Rightarrow> int + int"
  oe_initial :: "nat \<Rightarrow> int + (u64 list \<times> (nat \<times> int) list)"
  oe_epoll :: "nat \<Rightarrow> int option"
  oe_rumble :: "nat \<Rightarrow> int option"

definition upload_rumble :: "open_env \<Rightarrow> hid_interface \<Rightarrow> nat \<Rightarrow> int \<Rightarrow> hid_interface" where
  "upload_rumble env d i fd =
    (case oe_rumble env i of
       Some effect \<Rightarrow> d\<lparr>hi_rumble_fd := fd, hi_rumble_id := effect\<rparr>
     | None \<Rightarrow> d)"

definition first_error :: "int \<Rightarrow> int \<Rightarrow> int" where
  "first_error first e = (if first = 0 then e else first)"

definition open_one ::
  "open_env \<Rightarrow> bool \<Rightarrow> u32 \<Rightarrow> hid_interface \<times> int \<Rightarrow> nat \<Rightarrow> hid_interface \<times> int" where
  "open_one env write requested df i =
    (case df of (d, first) \<Rightarrow>
       let x = hi_inputs d ! i
       in if requested AND IF_BITS ! i = 0 \<or> ii_fd x \<ge> 0 then (d, first)
          else if \<not> ii_available x \<or> ii_node x = None then (d, first_error first (- ENODEV))
          else case oe_node env i write of
            Inl e \<Rightarrow> (d, first_error first e)
          | Inr fd \<Rightarrow>
              (case oe_initial env i of
                 Inl e \<Rightarrow> (d, first_error first e)
               | Inr (keys, axes) \<Rightarrow>
                   let x1 = reset_decoder x;
                       x2 = x1\<lparr>ii_decoder := decoder_seed_state (ii_decoder x1) keys axes, ii_fd := fd\<rparr>
                   in case oe_epoll env i of
                        Some e \<Rightarrow> (set_input d i (input_close x2), first_error first e)
                      | None \<Rightarrow>
                          (let d' = set_input d i x2
                           in (if i = 0 \<or> i = 7 then upload_rumble env d' i fd else d', first))))"

text \<open>The first error number, or the mask of what is open.\<close>

definition open_interfaces ::
  "open_env \<Rightarrow> hid_interface \<Rightarrow> interface_mask \<Rightarrow> hid_interface \<times> int \<times> interface_mask" where
  "open_interfaces env d ifaces =
    (case foldl (open_one env (ifaces AND WRITABLE \<noteq> 0) (ifaces AND ALL_INTERFACES)) (d, 0) [0..<10] of
       (d', first) \<Rightarrow> (d', first, opened d'))"

text \<open>A scan of the children: an error, or the nodes and the mask of the available interfaces.\<close>

type_synonym node_scan = "int + (string option list \<times> u32)"

definition refresh_one :: "hid_interface \<Rightarrow> nat \<Rightarrow> hid_interface" where
  "refresh_one d i =
    (let available = (hi_available d AND IF_BITS ! i \<noteq> 0);
         node = hi_nodes d ! i;
         x = hi_inputs d ! i;
         d' = (if refresh_requires_close (ii_fd x) (ii_node x) node available
               then close_interfaces d (IF_BITS ! i) else d)
     in set_input d' i ((hi_inputs d' ! i)\<lparr>ii_available := available, ii_node := node\<rparr>))"

definition hid_refresh :: "node_scan \<Rightarrow> hid_interface \<Rightarrow> int option \<times> hid_interface" where
  "hid_refresh scan d =
    (case scan of
       Inl e \<Rightarrow> (Some e, d)
     | Inr (nodes, available) \<Rightarrow>
         (None, foldl refresh_one (d\<lparr>hi_nodes := nodes, hi_available := available\<rparr>) [0..<10]))"

text \<open>\<open>watch\<close>: the monitor is on or off; setting it up may fail with an error number.\<close>

definition hid_watch :: "bool \<Rightarrow> int option \<Rightarrow> hid_interface \<Rightarrow> int option \<times> hid_interface" where
  "hid_watch enabled setup d =
    (if \<not> enabled then (None, d\<lparr>hi_monitor := False\<rparr>)
     else if hi_monitor d then (None, d)
     else case setup of Some e \<Rightarrow> (Some e, d) | None \<Rightarrow> (None, d\<lparr>hi_monitor := True\<rparr>))"

text \<open>
  \<open>rumble\<close> finds the effect to play: \<open>ENODEV\<close>, or the descriptor written to with the code and the
  value of the event.
\<close>

definition rumble_target :: "hid_interface \<Rightarrow> bool \<Rightarrow> int + (int \<times> u16 \<times> int)" where
  "rumble_target d on =
    (if hi_rumble_fd d < 0 \<or> hi_rumble_id d < 0 then Inl ENODEV
     else Inr (hi_rumble_fd d, word_of_int (hi_rumble_id d), if on then 1 else 0))"

text \<open>\<open>Drop\<close>: the descriptors closed, in order; an input's own descriptor is closed by \<open>close\<close>.\<close>

definition hid_drop :: "hid_interface \<Rightarrow> hid_interface" where
  "hid_drop d = snd (hid_watch False None (close_interfaces d MASK_ALL))"

section \<open>The udev monitor\<close>

record udev_event =
  ue_action :: "string option"
  ue_path :: "bytes option"
  ue_subsystem :: "string option"

definition forget_nodes :: "hid_interface \<Rightarrow> hid_interface" where
  "forget_nodes d = d\<lparr>
     hi_inputs := map (\<lambda>x. x\<lparr>ii_available := False, ii_node := None\<rparr>) (hi_inputs d),
     hi_nodes := replicate 10 None\<rparr>"

text \<open>
  The loop of \<open>monitor_event\<close> over the queued events, each with the scan a refresh would see
  then; the end of the list is the empty queue.
\<close>

fun monitor_loop ::
  "bytes \<Rightarrow> (udev_event \<times> node_scan) list \<Rightarrow> hid_interface \<Rightarrow> (int + hid_event option) \<times> hid_interface" where
  "monitor_loop root [] d = (Inr None, d)"
| "monitor_loop root ((ev, scan) # evs) d =
    (if ue_action ev = Some ''remove'' \<and> ue_path ev = Some root then
       (if hi_gone d then monitor_loop root evs d
        else
          (Inr (Some (lifecycle_event EGone)),
           forget_nodes (close_interfaces (d\<lparr>hi_gone := True, hi_available := 0\<rparr>) MASK_ALL)))
     else case ue_path ev of
       None \<Rightarrow> monitor_loop root evs d
     | Some path \<Rightarrow>
         if hi_gone d \<or> \<not> in_watch_scope root path (ue_subsystem ev)
            \<or> ue_action ev \<noteq> Some ''add'' \<and> ue_action ev \<noteq> Some ''change'' \<and> ue_action ev \<noteq> Some ''remove''
         then monitor_loop root evs d
         else case hid_refresh scan d of
           (Some e, d') \<Rightarrow> (Inl e, d')
         | (None, d') \<Rightarrow>
             if hi_available d = hi_available d' \<and> hi_nodes d = hi_nodes d'
             then monitor_loop root evs d'
             else (Inr (Some (lifecycle_event EWatch)), d'))"

definition monitor_event ::
  "bytes \<Rightarrow> (udev_event \<times> node_scan) list \<Rightarrow> hid_interface \<Rightarrow> (int + hid_event option) \<times> hid_interface" where
  "monitor_event root evs d = (if \<not> hi_monitor d then (Inr None, d) else monitor_loop root evs d)"

definition monitor_epoll_event ::
  "u32 \<Rightarrow> bytes \<Rightarrow> (udev_event \<times> node_scan) list \<Rightarrow> hid_interface \<Rightarrow>
    (int + hid_event option) \<times> hid_interface" where
  "monitor_epoll_event events root evs d =
    (case (if events AND EPOLLIN \<noteq> 0 then monitor_event root evs d else (Inr None, d)) of
       (Inl e, d') \<Rightarrow> (Inl e, d')
     | (Inr (Some ev), d') \<Rightarrow> (Inr (Some ev), d')
     | (Inr None, d') \<Rightarrow>
         (case monitor_epoll_status events of Some e \<Rightarrow> (Inl e, d') | None \<Rightarrow> (Inr None, d')))"


section \<open>Reading and dispatching\<close>

datatype raw_read = RawEvent raw_event | RawInterrupted | RawAgain | RawBroken

text \<open>What the kernel answers during one \<open>dispatch\<close>.\<close>

record dispatch_env =
  de_root :: bytes
  de_epoll :: "int + (nat \<times> u32) list"
  de_udev :: "(udev_event \<times> node_scan) list"
  de_reads :: "nat \<Rightarrow> raw_read list"
  de_recovery :: "nat \<Rightarrow> int + (u64 list \<times> (nat \<times> int) list)"
  de_scan :: "nat \<Rightarrow> node_scan"

text \<open>\<open>read_failure_watch\<close> and \<open>recovery_failure_watch\<close>: close the interface, refresh, report.\<close>

definition failure_watch :: "node_scan \<Rightarrow> nat \<Rightarrow> hid_interface \<Rightarrow> hid_event option \<times> hid_interface" where
  "failure_watch scan i d =
    (Some (lifecycle_event EWatch), snd (hid_refresh scan (close_interfaces d (IF_BITS ! i))))"

definition set_decoder :: "hid_interface \<Rightarrow> nat \<Rightarrow> decoder \<Rightarrow> hid_interface" where
  "set_decoder d i dec = set_input d i ((hi_inputs d ! i)\<lparr>ii_decoder := dec\<rparr>)"

definition read_event ::
  "dispatch_env \<Rightarrow> nat \<Rightarrow> raw_event \<Rightarrow> hid_interface \<Rightarrow> hid_event option \<times> hid_interface" where
  "read_event env i e d =
    (let x = hi_inputs d ! i
     in if ii_awaiting_sync x then
          (if ie_type e \<noteq> EV_SYN \<or> ie_code e \<noteq> SYN_REPORT then (None, d)
           else case de_recovery env i of
             Inl _ \<Rightarrow> failure_watch (de_scan env i) i d
           | Inr (keys, axes) \<Rightarrow>
               (case take_recovered (decoder_recover (ii_decoder x) keys axes (ie_time e)) of
                  (ev, dec) \<Rightarrow>
                    (ev, set_input d i (x\<lparr>ii_decoder := dec, ii_awaiting_sync := False\<rparr>))))
        else if ie_type e = EV_SYN \<and> ie_code e = SYN_DROPPED then
          (None, set_input d i (x\<lparr>ii_decoder := snd (decoder_push (ii_decoder x) e), ii_awaiting_sync := True\<rparr>))
        else case decoder_push (ii_decoder x) e of (ev, dec) \<Rightarrow> (ev, set_decoder d i dec))"

fun read_loop_one ::
  "dispatch_env \<Rightarrow> nat \<Rightarrow> raw_read list \<Rightarrow> hid_interface \<Rightarrow> hid_event option \<times> hid_interface" where
  "read_loop_one env i [] d = (None, d)"
| "read_loop_one env i (r # rs) d =
    (case r of
       RawInterrupted \<Rightarrow> read_loop_one env i rs d
     | RawAgain \<Rightarrow> (None, d)
     | RawBroken \<Rightarrow> failure_watch (de_scan env i) i d
     | RawEvent e \<Rightarrow> read_event env i e d)"

definition read_one :: "dispatch_env \<Rightarrow> nat \<Rightarrow> hid_interface \<Rightarrow> hid_event option \<times> hid_interface" where
  "read_one env i d =
    (if ii_fd (hi_inputs d ! i) < 0 then (None, d) else read_loop_one env i (de_reads env i) d)"

text \<open>The first loop of \<open>dispatch\<close>, over the indices in the order they are visited.\<close>

fun recovered_scan :: "nat list \<Rightarrow> hid_interface \<Rightarrow> (nat \<times> hid_event) option \<times> hid_interface" where
  "recovered_scan [] d = (None, d)"
| "recovered_scan (i # is) d =
    (case take_recovered (ii_decoder (hi_inputs d ! i)) of
       (Some ev, dec) \<Rightarrow> (Some (i, ev), set_decoder d i dec)
     | (None, dec) \<Rightarrow> recovered_scan is (set_decoder d i dec))"

definition after_event :: "nat \<Rightarrow> hid_interface \<Rightarrow> hid_interface" where
  "after_event i d = signal_recovery_if_pending (d\<lparr>hi_next_input := (i + 1) mod 10\<rparr>)"

text \<open>The loop over the ready descriptors.\<close>

fun epoll_loop ::
  "dispatch_env \<Rightarrow> (nat \<times> u32) list \<Rightarrow> hid_interface \<Rightarrow> (int + hid_event) \<times> hid_interface" where
  "epoll_loop env [] d = (Inl EAGAIN, d)"
| "epoll_loop env ((tag, events) # eps) d =
    (if tag = MONITOR_EPOLL_TAG then
       (case monitor_epoll_event events (de_root env) (de_udev env) d of
          (Inl e, d') \<Rightarrow> (Inl \<bar>e\<bar>, d')
        | (Inr (Some ev), d') \<Rightarrow> (Inr ev, d')
        | (Inr None, d') \<Rightarrow> epoll_loop env eps d')
     else if tag = RECOVERY_EPOLL_TAG then epoll_loop env eps d
     else case epoll_input_index tag 10 of
       None \<Rightarrow> epoll_loop env eps d
     | Some i \<Rightarrow>
         (case read_one env i d of
            (Some ev, d') \<Rightarrow> (Inr ev, after_event i d')
          | (None, d') \<Rightarrow> epoll_loop env eps d'))"

definition dispatch :: "dispatch_env \<Rightarrow> hid_interface \<Rightarrow> (int + hid_event) \<times> hid_interface" where
  "dispatch env d =
    (case recovered_scan (map (\<lambda>offset. (hi_next_input d + offset) mod 10) [0..<10]) (d\<lparr>hi_wake := False\<rparr>) of
       (Some (i, ev), d') \<Rightarrow> (Inr ev, after_event i d')
     | (None, d') \<Rightarrow>
         (case de_epoll env of
            Inl e \<Rightarrow> (Inl (if e = EINTR then EAGAIN else e), d')
          | Inr eps \<Rightarrow> epoll_loop env (take 32 eps) d'))"


section \<open>Attributes\<close>

definition set_mp_normalization :: "hid_interface \<Rightarrow> int \<Rightarrow> int \<Rightarrow> int \<Rightarrow> int \<Rightarrow> hid_interface" where
  "set_mp_normalization d x y z f =
    (let dec = ii_decoder (hi_inputs d ! 3)
     in set_decoder d 3 (dec\<lparr>dec_motion_plus := normalizer_set (dec_motion_plus dec) x y z f\<rparr>))"

definition mp_normalization :: "hid_interface \<Rightarrow> int \<times> int \<times> int \<times> int" where
  "mp_normalization d = normalizer_values (dec_motion_plus (ii_decoder (hi_inputs d ! 3)))"

end
