(* ===== verification/Udev.thy ===== *)
theory Udev
  imports Device Config_Load
begin

text \<open>
  Finding controllers and reading their files: \<open>crates/wiiland-hid/src/monitor.rs\<close>, the scan and the
  attribute files of \<open>backend.rs\<close>, and rumble, LEDs, battery and attributes of \<open>device.rs\<close>. What udev
  knows of a device is a record; what udev and the kernel answer next is a list, and an exhausted list
  is a queue with nothing in it. Error numbers are positive in \<open>monitor.rs\<close> and negative in
  \<open>backend.rs\<close>, as in the source.
\<close>

section \<open>Text\<close>

text \<open>
  \<open>to_string_lossy\<close>: each maximal prefix of a sequence that goes no further becomes U+FFFD.
  \<open>utf8_fits\<close> is how many bytes of a sequence fit.
\<close>

definition utf8_second :: "nat \<Rightarrow> nat \<Rightarrow> bool" where
  "utf8_second a b \<longleftrightarrow>
    (if utf8_width a = 3 then utf8_second3 a b else if utf8_width a = 4 then utf8_second4 a b else utf8_cont b)"

definition utf8_fits :: "nat \<Rightarrow> nat list \<Rightarrow> nat" where
  "utf8_fits a r =
    (case r of [] \<Rightarrow> 0
     | b # r' \<Rightarrow> if utf8_width a < 2 \<or> \<not> utf8_second a b then 0
         else Suc (length (takeWhile utf8_cont (take (utf8_width a - 2) r'))))"

function lossy_bytes :: "nat list \<Rightarrow> nat list" where
  "lossy_bytes [] = []"
| "lossy_bytes (a # r) =
    (let k = utf8_fits a r
     in if 0 < utf8_width a \<and> Suc k = utf8_width a then a # take k r @ lossy_bytes (drop k r)
        else [239, 191, 189] @ lossy_bytes (drop k r))"
  by pat_completeness auto
termination by (relation "measure length") auto

definition lossy :: "bytes \<Rightarrow> string" where
  "lossy s = map char_of (lossy_bytes (map of_char s))"

text \<open>\<open>Path::join\<close>.\<close>

definition path_join :: "string \<Rightarrow> string \<Rightarrow> string" where
  "path_join p q = (if is_absolute q then q else path_push p q)"

section \<open>Devices of udev\<close>

record udev_info =
  ud_syspath :: "bytes option"
  ud_subsystem :: "bytes option"
  ud_driver :: "bytes option"
  ud_sysname :: "bytes option"
  ud_devnode :: "bytes option"
  ud_action :: "bytes option"
  ud_name :: "bytes option"

section \<open>The nodes of a controller\<close>

definition ENOMEM :: int where "ENOMEM = 12"

record device_nodes =
  nd_nodes :: "string option list"
  nd_available :: u32
  nd_leds :: "string option list"
  nd_battery :: "string option"

definition Nodes_default :: device_nodes where
  "Nodes_default = \<lparr>nd_nodes = replicate 10 None, nd_available = 0, nd_leds = replicate 4 None, nd_battery = None\<rparr>"

text \<open>An entry of the list: its name and the device udev makes of it, when it can.\<close>

type_synonym udev_entry = "bytes option \<times> udev_info option"

definition last_digit :: "bytes \<Rightarrow> nat option" where
  "last_digit path =
    (if \<not> valid_utf8 path \<or> path = [] then None else map_option nat (digit_value (last path)))"

text \<open>One entry; \<open>prev\<close> is the interface named by the input device just before.\<close>

definition scan_entry :: "nat option \<times> device_nodes \<Rightarrow> udev_entry \<Rightarrow> nat option \<times> device_nodes" where
  "scan_entry st entry =
    (case st of (prev, n) \<Rightarrow>
      (case entry of
         (Some path, Some child) \<Rightarrow>
           if ud_subsystem child = Some ''input'' then
             (case ud_sysname child of
                None \<Rightarrow> (prev, n)
              | Some sysname \<Rightarrow>
                  if starts_with sysname ''input'' then (Option.bind (ud_name child) interface_by_name, n)
                  else if starts_with sysname ''event'' then
                    (case (prev, ud_devnode child) of
                       (Some i, Some node) \<Rightarrow>
                         (None, n\<lparr>nd_nodes := (nd_nodes n)[i := Some (lossy node)],
                                  nd_available := nd_available n OR IF_BITS ! i\<rparr>)
                     | _ \<Rightarrow> (None, n))
                  else (None, n))
           else if ud_subsystem child = Some ''leds'' then
             (case last_digit path of
                Some k \<Rightarrow>
                  if k < 4 then (prev, n\<lparr>nd_leds := (nd_leds n)[k := Some (path_join (lossy path) ''brightness'')]\<rparr>)
                  else (prev, n)
              | None \<Rightarrow> (prev, n))
           else if ud_subsystem child = Some ''power_supply'' then
             (prev, n\<lparr>nd_battery := Some (path_join (lossy path) ''capacity'')\<rparr>)
           else (prev, n)
       | _ \<Rightarrow> (prev, n)))"

text \<open>
  \<open>made\<close> and \<open>matched\<close>: whether udev could make the enumeration and its matches; \<open>scanned\<close>: the result of
  the scan.
\<close>

definition refresh_nodes ::
  "bool \<Rightarrow> bool \<Rightarrow> int \<Rightarrow> udev_entry list \<Rightarrow> device_nodes \<Rightarrow> int option \<times> device_nodes" where
  "refresh_nodes made matched scanned entries old =
    (if \<not> made \<or> \<not> matched then (Some (- ENOMEM), old)
     else if scanned \<noteq> 0 then (Some scanned, old)
     else (None, snd (foldl scan_entry (None, old\<lparr>nd_available := 0\<rparr>) entries)))"

text \<open>What \<open>Interface::refresh\<close> goes on with.\<close>

definition scan_of :: "int option \<times> device_nodes \<Rightarrow> node_scan" where
  "scan_of r = (case fst r of Some e \<Rightarrow> Inl e | None \<Rightarrow> Inr (nd_nodes (snd r), nd_available (snd r)))"

section \<open>Attribute files\<close>

text \<open>The results of the calls of a read loop: the bytes read, or the error number.\<close>

fun read_attr_loop :: "(int + bytes) list \<Rightarrow> bytes \<Rightarrow> int + bytes" where
  "read_attr_loop [] out = Inr out"
| "read_attr_loop (Inr chunk # rs) out =
    (if chunk = [] then Inr out
     else if length chunk < 256 then Inr (out @ chunk) else read_attr_loop rs (out @ chunk))"
| "read_attr_loop (Inl e # rs) out = (if e = EINTR then read_attr_loop rs out else Inl (- e))"

definition ascii_whitespace :: "char \<Rightarrow> bool" where
  "ascii_whitespace c \<longleftrightarrow> (of_char c :: nat) \<in> {9, 10, 12, 13, 32}"

text \<open>\<open>nul\<close>: no path with a zero byte can be given to the kernel.\<close>

definition has_nul :: "bytes \<Rightarrow> bool" where
  "has_nul s \<longleftrightarrow> CHR 0x00 \<in> set s"

definition read_attr :: "string \<Rightarrow> int option \<Rightarrow> (int + bytes) list \<Rightarrow> int + bytes" where
  "read_attr path failed rs =
    (if has_nul path then Inl (- EINVAL)
     else case failed of Some e \<Rightarrow> Inl (- e)
     | None \<Rightarrow> (case read_attr_loop rs [] of
         Inl e \<Rightarrow> Inl e
       | Inr out \<Rightarrow> Inr (rev (dropWhile ascii_whitespace (rev out)))))"

text \<open>
  A loop that writes all of \<open>rest\<close>: the calls return a count (more than asked is impossible), or an error
  number; \<open>Inr 0\<close> is an error too, with the number then in \<open>errno\<close>. The result comes with what was written.
\<close>

fun write_whole :: "(int + nat) list \<Rightarrow> int \<Rightarrow> bytes \<Rightarrow> (int option \<times> bytes) option" where
  "write_whole ws errno [] = Some (None, [])"
| "write_whole [] errno rest = None"
| "write_whole (Inr n # ws) errno rest =
    (if n = 0 then Some (Some errno, [])
     else if length rest < n then None
     else case write_whole ws errno (drop n rest) of
       None \<Rightarrow> None | Some (r, out) \<Rightarrow> Some (r, take n rest @ out))"
| "write_whole (Inl e # ws) errno rest =
    (if e = EINTR then write_whole ws errno rest else Some (Some e, []))"

definition write_attr ::
  "string \<Rightarrow> int option \<Rightarrow> (int + nat) list \<Rightarrow> int \<Rightarrow> bytes \<Rightarrow> (int option \<times> bytes) option" where
  "write_attr path failed ws errno v =
    (if has_nul path then Some (Some (- EINVAL), [])
     else case failed of Some e \<Rightarrow> Some (Some (- e), [])
     | None \<Rightarrow> map_option (\<lambda>(r, out). (map_option uminus r, out)) (write_whole ws errno v))"

section \<open>LEDs, battery, attributes and rumble\<close>

definition led_path :: "device_nodes \<Rightarrow> nat \<Rightarrow> int + string" where
  "led_path n led =
    (if 4 \<le> led then Inl EINVAL else case nd_leds n ! led of None \<Rightarrow> Inl ENODEV | Some p \<Rightarrow> Inr p)"

definition get_led :: "device_nodes \<Rightarrow> nat \<Rightarrow> int option \<Rightarrow> (int + bytes) list \<Rightarrow> int + bool" where
  "get_led n led failed rs =
    (case led_path n led of
       Inl e \<Rightarrow> Inl e
     | Inr p \<Rightarrow> (case read_attr p failed rs of
         Inl e \<Rightarrow> Inl (- e) | Inr v \<Rightarrow> Inr (v \<noteq> [] \<and> hd v = CHR ''1'')))"

definition set_led ::
  "device_nodes \<Rightarrow> nat \<Rightarrow> bool \<Rightarrow> int option \<Rightarrow> (int + nat) list \<Rightarrow> int \<Rightarrow> (int option \<times> bytes) option" where
  "set_led n led on failed ws errno =
    (case led_path n led of
       Inl e \<Rightarrow> Some (Some e, [])
     | Inr p \<Rightarrow> map_option (\<lambda>(r, out). (map_option uminus r, out))
         (write_attr p failed ws errno (if on then ''1'' else ''0'')))"

text \<open>\<open>str::parse::<u8>\<close>: an optional plus sign, then digits, within a byte.\<close>

definition parse_u8 :: "string \<Rightarrow> nat option" where
  "parse_u8 s =
    (case parse_digits (case s of [] \<Rightarrow> [] | c # r \<Rightarrow> if c = CHR ''+'' then r else s) of
       None \<Rightarrow> None | Some v \<Rightarrow> if v \<le> 255 then Some (nat v) else None)"

definition battery :: "device_nodes \<Rightarrow> int option \<Rightarrow> (int + bytes) list \<Rightarrow> int + nat" where
  "battery n failed rs =
    (case nd_battery n of
       None \<Rightarrow> Inl ENODEV
     | Some p \<Rightarrow> (case read_attr p failed rs of
         Inl e \<Rightarrow> Inl (- e)
       | Inr v \<Rightarrow> if \<not> valid_utf8 v then Inl EINVAL
           else (case parse_u8 (str_trim v) of None \<Rightarrow> Inl EINVAL | Some k \<Rightarrow> Inr k)))"

definition hid_attr :: "string \<Rightarrow> string \<Rightarrow> int option \<Rightarrow> (int + bytes) list \<Rightarrow> int + bytes" where
  "hid_attr syspath name failed rs =
    (case read_attr (path_join syspath name) failed rs of Inl e \<Rightarrow> Inl (- e) | Inr v \<Rightarrow> Inr v)"

definition EV_FF :: nat where "EV_FF = 21"

text \<open>An input event of the kernel in memory: the time (zero), then type, code and value, little-endian.\<close>

definition le_bytes :: "nat \<Rightarrow> nat \<Rightarrow> bytes" where
  "le_bytes k n = map (\<lambda>i. char_of (n div 256 ^ i)) [0..<k]"

definition ff_event_bytes :: "u16 \<Rightarrow> nat \<Rightarrow> bytes" where
  "ff_event_bytes code v = le_bytes 16 0 @ le_bytes 2 EV_FF @ le_bytes 2 (unat code) @ le_bytes 4 v"

text \<open>\<open>rumble\<close>: the result and what was written to the effect's descriptor.\<close>

definition rumble :: "hid_interface \<Rightarrow> bool \<Rightarrow> (int + nat) list \<Rightarrow> int \<Rightarrow> (int option \<times> bytes) option" where
  "rumble d on ws errno =
    (case rumble_target d on of
       Inl e \<Rightarrow> Some (Some e, [])
     | Inr (fd, code, v) \<Rightarrow> write_whole ws errno (ff_event_bytes code (nat v)))"

section \<open>The monitor\<close>

datatype monitor_poll = MpPath string | MpPending | MpEmpty

text \<open>
  The list of the enumeration (an entry's name, and the device or the \<open>errno\<close> of making it), the paths
  listed when a watch began, whether it watches, and whether the enumeration is over.
\<close>

type_synonym enum_entry = "bytes option \<times> (int + udev_info)"

record monitor =
  mo_entries :: "enum_entry list"
  mo_initial :: "bytes list"
  mo_watch :: bool
  mo_enumerated :: bool

text \<open>\<open>ready\<close>: whether every udev object could be made; \<open>entries\<close>: what the scan finds.\<close>

definition monitor_new :: "bool \<Rightarrow> bool \<Rightarrow> enum_entry list \<Rightarrow> int + monitor" where
  "monitor_new watch ready entries =
    (if \<not> ready then Inl ENOMEM
     else Inr \<lparr>mo_entries = entries,
       mo_initial = (if watch then rev (List.map_filter fst entries) else []),
       mo_watch = watch, mo_enumerated = False\<rparr>)"

fun dedup_path :: "bool \<Rightarrow> bytes \<Rightarrow> bytes list \<Rightarrow> bool \<times> bytes list" where
  "dedup_path adding path [] = (False, [])"
| "dedup_path adding path (p # ps) =
    (if p = path then (adding, ps) else case dedup_path adding path ps of (b, qs) \<Rightarrow> (b, p # qs))"

definition deduplicate_initial :: "bytes list \<Rightarrow> bytes \<Rightarrow> bytes \<Rightarrow> bool \<times> bytes list" where
  "deduplicate_initial initial action path =
    (if action \<noteq> ''add'' \<and> action \<noteq> ''remove'' then (False, initial)
     else dedup_path (action = ''add'') path initial)"

definition null_receive :: "int \<Rightarrow> int option" where
  "null_receive errno = (if errno = 0 \<or> errno = EAGAIN then None else Some errno)"

definition ENOENT :: int where "ENOENT = 2"

definition classify_enum_device_errno :: "int \<Rightarrow> int option" where
  "classify_enum_device_errno errno =
    (if errno = 0 \<or> errno = ENOENT \<or> errno = ENODEV then None else Some errno)"

definition free_enum :: "monitor \<Rightarrow> monitor" where
  "free_enum m = m\<lparr>mo_initial := [], mo_entries := []\<rparr>"

definition next_enum :: "monitor \<Rightarrow> (int + udev_info option) \<times> monitor" where
  "next_enum m =
    (case mo_entries m of
       (name, made) # rest \<Rightarrow>
         (let m' = m\<lparr>mo_entries := rest\<rparr>
          in case name of None \<Rightarrow> (Inr None, m')
             | Some path \<Rightarrow>
                 (case made of
                    Inr dev \<Rightarrow> (Inr (Some dev), m')
                  | Inl errno \<Rightarrow>
                      (case classify_enum_device_errno errno of
                         Some e \<Rightarrow> (Inl e, m') | None \<Rightarrow> (Inr None, m'))))
     | [] \<Rightarrow>
         (let m' = m\<lparr>mo_enumerated := True\<rparr>
          in (Inr None, if mo_watch m then m' else free_enum m')))"

definition deduplicate :: "udev_info \<Rightarrow> monitor \<Rightarrow> bool \<times> monitor" where
  "deduplicate dev m =
    (case ud_action dev of
       None \<Rightarrow> (False, m)
     | Some action \<Rightarrow>
         if action \<noteq> ''add'' \<and> action \<noteq> ''remove'' then (False, m)
         else (case ud_syspath dev of
           None \<Rightarrow> (False, m)
         | Some path \<Rightarrow>
             (case deduplicate_initial (mo_initial m) action path of
                (b, initial) \<Rightarrow> (b, m\<lparr>mo_initial := initial\<rparr>))))"

definition valid_device :: "udev_info \<Rightarrow> string option" where
  "valid_device dev =
    (if ud_action dev \<noteq> None \<and> ud_action dev \<noteq> Some ''add'' then None
     else if ud_driver dev \<noteq> Some ''wiimote'' \<or> ud_subsystem dev \<noteq> Some ''hid'' then None
     else map_option lossy (ud_syspath dev))"

text \<open>
  One step, with what the netlink channel holds: each receive takes a device or fails with an \<open>errno\<close>; an
  empty channel answers \<open>EAGAIN\<close>.
\<close>

type_synonym received = "(int + udev_info) list"

definition poll_step :: "received \<Rightarrow> monitor \<Rightarrow> (int + monitor_poll) \<times> received \<times> monitor" where
  "poll_step rx m =
    (if \<not> mo_enumerated m then
       (case next_enum m of
          (Inl e, m') \<Rightarrow> (Inl e, rx, m')
        | (Inr (Some dev), m') \<Rightarrow>
            (case valid_device dev of Some path \<Rightarrow> (Inr (MpPath path), rx, m') | None \<Rightarrow> (Inr MpPending, rx, m'))
        | (Inr None, m') \<Rightarrow> (Inr MpPending, rx, m'))
     else if \<not> mo_watch m then (Inr MpEmpty, rx, m)
     else (case rx of
        [] \<Rightarrow> (Inr MpEmpty, rx, free_enum m)
      | Inl errno # rx' \<Rightarrow>
          (case null_receive errno of
             Some e \<Rightarrow> (Inl e, rx', m) | None \<Rightarrow> (Inr MpEmpty, rx', free_enum m))
      | Inr dev # rx' \<Rightarrow>
          (case deduplicate dev m of
             (dup, m') \<Rightarrow>
               (case (if dup then None else valid_device dev) of
                  Some path \<Rightarrow> (Inr (MpPath path), rx', m')
                | None \<Rightarrow> (Inr MpPending, rx', m')))))"

text \<open>\<open>poll_bounded\<close>, by \<open>poll_budget\<close>.\<close>

primrec poll_bounded :: "nat \<Rightarrow> received \<Rightarrow> monitor \<Rightarrow> (int + monitor_poll) \<times> received \<times> monitor" where
  "poll_bounded 0 rx m = (Inr MpPending, rx, m)"
| "poll_bounded (Suc budget) rx m =
    (case poll_step rx m of
       (Inr MpPending, rx', m') \<Rightarrow> poll_bounded budget rx' m'
     | r \<Rightarrow> r)"

text \<open>Every step that finds nothing uses something up.\<close>

definition work_left :: "received \<Rightarrow> monitor \<Rightarrow> nat" where
  "work_left rx m = length (mo_entries m) + length rx + (if mo_enumerated m then 0 else 1)"

lemma pending_step:
  assumes "poll_step rx m = (Inr MpPending, rx', m')"
  shows "work_left rx' m' < work_left rx m"
  using assms
  by (auto simp: poll_step_def next_enum_def work_left_def free_enum_def deduplicate_def Let_def
      split: if_splits list.splits option.splits sum.splits prod.splits)

lemma path_step_work:
  assumes "poll_step rx m = (Inr (MpPath path), rx', m')"
  shows "work_left rx' m' < work_left rx m"
  using assms
  by (auto simp: poll_step_def next_enum_def work_left_def free_enum_def deduplicate_def Let_def
      split: if_splits list.splits option.splits sum.splits prod.splits)

lemma pending_bounded:
  "poll_bounded n rx m = (Inr MpPending, rx', m') \<Longrightarrow> work_left rx' m' + n \<le> work_left rx m"
proof (induction n arbitrary: rx m)
  case (Suc n)
  obtain r rx1 m1 where s: "poll_step rx m = (r, rx1, m1)" by (metis prod_cases3)
  then have r: "r = Inr MpPending" using Suc.prems by (auto split: sum.splits monitor_poll.splits)
  then have "poll_bounded n rx1 m1 = (Inr MpPending, rx', m')" using Suc.prems s by simp
  from Suc.IH [OF this] pending_step [OF s [unfolded r]] show ?case by simp
qed simp

function monitor_next :: "received \<Rightarrow> monitor \<Rightarrow> (int + string option) \<times> received \<times> monitor" where
  "monitor_next rx m =
    (case poll_bounded 64 rx m of
       (Inl e, rx', m') \<Rightarrow> (Inl e, rx', m')
     | (Inr (MpPath path), rx', m') \<Rightarrow> (Inr (Some path), rx', m')
     | (Inr MpEmpty, rx', m') \<Rightarrow> (Inr None, rx', m')
     | (Inr MpPending, rx', m') \<Rightarrow> monitor_next rx' m')"
  by pat_completeness auto
termination
  by (relation "measure (\<lambda>(rx, m). work_left rx m)") (auto dest!: pending_bounded [OF sym])

declare monitor_next.simps [simp del]

end
