(* ===== verification/Device_Facts.thy ===== *)
theory Device_Facts
  imports Device
begin

text \<open>
  What an open controller (\<open>crates/wiiland-hid/src/device.rs\<close>) promises: opening and closing act
  on the requested interfaces only, a refresh leaves nothing open that is gone, a removed device
  stays silent, and replayed events are served in turn and never left waiting without a wake-up.
\<close>

section \<open>The interface bits\<close>

definition if_index :: "nat \<Rightarrow> nat" where
  "if_index i = [0, 1, 2, 8, 9, 10, 11, 12, 13, 14] ! i"

lemma ten_cases:
  "i < (10::nat) \<Longrightarrow> i = 0 \<or> i = 1 \<or> i = 2 \<or> i = 3 \<or> i = 4 \<or> i = 5 \<or> i = 6 \<or> i = 7 \<or> i = 8 \<or> i = 9"
  by (simp add: eval_nat_numeral less_Suc_eq)

lemma IF_BITS_index: "i < 10 \<Longrightarrow> IF_BITS ! i = push_bit (if_index i) 1"
  by (drule ten_cases) (elim disjE; simp add: IF_BITS_def if_index_def)

lemma if_index_less: "i < 10 \<Longrightarrow> if_index i < 32"
  by (drule ten_cases) (elim disjE; simp add: if_index_def)

lemma if_index_inj: "i < 10 \<Longrightarrow> j < 10 \<Longrightarrow> if_index i = if_index j \<Longrightarrow> i = j"
  unfolding if_index_def by (subst (asm) nth_eq_iff_index_eq) simp_all

lemma ALL_INTERFACES_bits: "i < 10 \<Longrightarrow> bit ALL_INTERFACES (if_index i)"
  by (drule ten_cases) (elim disjE; simp add: ALL_INTERFACES_def if_index_def)

lemma has_interface: "i < 10 \<Longrightarrow> m AND IF_BITS ! i \<noteq> 0 \<longleftrightarrow> bit m (if_index i)"
  using mask_has_single [of m "if_index i"] by (simp add: IF_BITS_index mask_has_def)

lemma requested_interface:
  "i < 10 \<Longrightarrow> (m AND ALL_INTERFACES) AND IF_BITS ! i \<noteq> 0 \<longleftrightarrow> bit m (if_index i)"
  using has_interface [of i "m AND ALL_INTERFACES"] ALL_INTERFACES_bits [of i]
  by (simp add: bit_and_iff)

lemma bit_IF_BITS: "i < 10 \<Longrightarrow> j < 10 \<Longrightarrow> bit (IF_BITS ! i) (if_index j) \<longleftrightarrow> i = j"
proof -
  assume ij: "i < 10" "j < 10"
  have "bit (IF_BITS ! i) (if_index j) \<longleftrightarrow> if_index i = if_index j"
    using if_index_less [OF ij(2)] by (auto simp: IF_BITS_index [OF ij(1)] bit_exp_iff)
  then show ?thesis using if_index_inj [OF ij] by blast
qed


section \<open>Loops over the ten interfaces\<close>

definition ten :: "hid_interface \<Rightarrow> bool" where
  "ten d \<longleftrightarrow> length (hi_inputs d) = 10"

lemma foldl_inputs:
  assumes step: "\<And>s i. i < 10 \<Longrightarrow> P s \<Longrightarrow> length (inp s) = 10 \<Longrightarrow>
      P (f s i) \<and> inp (f s i) = (inp s)[i := g i (inp s ! i)]"
    and init: "P s" "length (inp s) = 10" and n: "n \<le> 10"
  shows "P (foldl f s [0..<n]) \<and> length (inp (foldl f s [0..<n])) = 10 \<and>
    (\<forall>j < 10. inp (foldl f s [0..<n]) ! j = (if j < n then g j (inp s ! j) else inp s ! j))"
  using n
proof (induction n)
  case 0
  then show ?case using init by simp
next
  case (Suc n)
  let ?s = "foldl f s [0..<n]"
  have IH: "P ?s" "length (inp ?s) = 10"
    "\<And>j. j < 10 \<Longrightarrow> inp ?s ! j = (if j < n then g j (inp s ! j) else inp s ! j)"
    using Suc by auto
  have "foldl f s [0..<Suc n] = f ?s n" by simp
  then show ?case using step [of n ?s] IH Suc.prems by (auto simp: nth_list_update)
qed

lemma input_close_fields [simp]:
  "ii_fd (input_close x) < 0 \<longleftrightarrow> True"
  "ii_node (input_close x) = ii_node x" "ii_available (input_close x) = ii_available x"
  "0 \<le> ii_fd (input_close x) \<longleftrightarrow> False"
  by (auto simp: input_close_def reset_decoder_def)

lemma input_close_pending [simp]: "has_pending (dec_recovery (ii_decoder (input_close x))) = False"
  by (simp add: input_close_def reset_decoder_def Decoder_new_def RecoveryState_default_def has_pending_def)

lemma set_input_nth: "ten d \<Longrightarrow> i < 10 \<Longrightarrow> hi_inputs (set_input d i x) ! j = (if j = i then x else hi_inputs d ! j)"
  by (simp add: set_input_def ten_def)

lemma set_input_ten [simp]: "ten (set_input d i x) = ten d"
  by (simp add: set_input_def ten_def)

definition close_input :: "interface_mask \<Rightarrow> nat \<Rightarrow> input_interface \<Rightarrow> input_interface" where
  "close_input m i x = (if bit m (if_index i) \<and> ii_fd x \<ge> 0 then input_close x else x)"

lemma close_one_inputs:
  "i < 10 \<Longrightarrow> length (hi_inputs d) = 10 \<Longrightarrow> hi_inputs (close_one (m AND ALL_INTERFACES) d i) =
    (hi_inputs d)[i := close_input m i (hi_inputs d ! i)]"
  by (simp add: close_one_def Let_def set_input_def close_input_def requested_interface)

lemma close_interfaces_inputs:
  "ten d \<Longrightarrow> ten (close_interfaces d m) \<and>
    (\<forall>j < 10. hi_inputs (close_interfaces d m) ! j = close_input m j (hi_inputs d ! j))"
  unfolding close_interfaces_def ten_def
  using foldl_inputs [of "\<lambda>_. True" hi_inputs "close_one (m AND ALL_INTERFACES)" "close_input m" d 10]
    close_one_inputs [of _ _ m] by simp

lemma close_one_fields [simp]:
  "hi_nodes (close_one r d i) = hi_nodes d" "hi_available (close_one r d i) = hi_available d"
  "hi_monitor (close_one r d i) = hi_monitor d" "hi_next_input (close_one r d i) = hi_next_input d"
  "hi_gone (close_one r d i) = hi_gone d" "hi_wake (close_one r d i) = hi_wake d"
  by (simp_all add: close_one_def Let_def set_input_def)

lemma close_interfaces_fields [simp]:
  "hi_nodes (close_interfaces d m) = hi_nodes d" "hi_available (close_interfaces d m) = hi_available d"
  "hi_monitor (close_interfaces d m) = hi_monitor d"
  "hi_next_input (close_interfaces d m) = hi_next_input d"
  "hi_gone (close_interfaces d m) = hi_gone d" "hi_wake (close_interfaces d m) = hi_wake d"
proof -
  have *: "hi_nodes (foldl (close_one r) d is) = hi_nodes d
      \<and> hi_available (foldl (close_one r) d is) = hi_available d
      \<and> hi_monitor (foldl (close_one r) d is) = hi_monitor d
      \<and> hi_next_input (foldl (close_one r) d is) = hi_next_input d
      \<and> hi_gone (foldl (close_one r) d is) = hi_gone d
      \<and> hi_wake (foldl (close_one r) d is) = hi_wake d" for r "is"
    by (induction "is" arbitrary: d) simp_all
  show "hi_nodes (close_interfaces d m) = hi_nodes d" "hi_available (close_interfaces d m) = hi_available d"
    "hi_monitor (close_interfaces d m) = hi_monitor d"
    "hi_next_input (close_interfaces d m) = hi_next_input d"
    "hi_gone (close_interfaces d m) = hi_gone d" "hi_wake (close_interfaces d m) = hi_wake d"
    using * unfolding close_interfaces_def by blast+
qed

lemma foldl_or_bits:
  "bit (foldl (\<lambda>bits i. if P i then bits OR IF_BITS ! i else bits) b is) k
    \<longleftrightarrow> bit b k \<or> (\<exists>i \<in> set is. P i \<and> bit (IF_BITS ! i) k)"
  by (induction "is" arbitrary: b) (auto simp: bit_or_iff)

lemma opened_bit: "j < 10 \<Longrightarrow> bit (opened d) (if_index j) \<longleftrightarrow> ii_fd (hi_inputs d ! j) \<ge> 0"
  unfolding opened_def foldl_or_bits using bit_IF_BITS by auto

lemma bit_IF_BITS_iff: "i < 10 \<Longrightarrow> bit (IF_BITS ! i) k \<longleftrightarrow> k = if_index i"
  using if_index_less [of i] by (auto simp: IF_BITS_index bit_exp_iff)

lemma bit_opened: "bit (opened d) k \<longleftrightarrow> (\<exists>j < 10. k = if_index j \<and> ii_fd (hi_inputs d ! j) \<ge> 0)"
  unfolding opened_def foldl_or_bits by (auto simp: bit_IF_BITS_iff)

lemma ALL_INTERFACES_index: "bit ALL_INTERFACES k \<Longrightarrow> \<exists>j < 10. k = if_index j"
proof -
  have "ALL_INTERFACES = foldl (\<lambda>bits i. if True then bits OR IF_BITS ! i else bits) 0 [0..<10]"
    by (simp add: ALL_INTERFACES_def IF_BITS_def upt_rec)
  moreover assume "bit ALL_INTERFACES k"
  ultimately show ?thesis using foldl_or_bits [of "\<lambda>_. True" 0 "[0..<10]" k] by (auto simp: bit_IF_BITS_iff)
qed

lemma opened_zero: "opened d = 0 \<longleftrightarrow> (\<forall>j < 10. ii_fd (hi_inputs d ! j) < 0)"
proof
  assume z: "opened d = 0"
  show "\<forall>j < 10. ii_fd (hi_inputs d ! j) < 0"
    using opened_bit [of _ d] by (simp add: z) (metis not_le)
next
  assume "\<forall>j < 10. ii_fd (hi_inputs d ! j) < 0"
  then have "\<not> bit (opened d) k" for k by (auto simp: bit_opened)
  then show "opened d = 0" by (simp add: bit_eq_iff)
qed

lemma close_opened: "ten d \<Longrightarrow> opened (close_interfaces d m) = opened d AND NOT m"
proof (rule bit_eqI)
  fix k assume "ten d"
  note cl = close_interfaces_inputs [OF this, of m]
  have "ii_fd (close_input m j x) \<ge> 0 \<longleftrightarrow> ii_fd x \<ge> 0 \<and> \<not> bit m (if_index j)" for j x
    using input_close_fields(1) [of x] by (auto simp: close_input_def simp del: input_close_fields(1))
  then show "bit (opened (close_interfaces d m)) k \<longleftrightarrow> bit (opened d AND NOT m) k"
    using cl if_index_less by (auto simp: bit_opened bit_and_iff bit_not_iff)
qed

section \<open>Nothing pending\<close>

definition input_pending :: "input_interface \<Rightarrow> bool" where
  "input_pending x \<longleftrightarrow> has_pending (dec_recovery (ii_decoder x))"

lemma recovery_pending_iff: "recovery_pending d \<longleftrightarrow> (\<exists>x \<in> set (hi_inputs d). input_pending x)"
  by (simp add: recovery_pending_def input_pending_def list_ex_iff)

lemma input_pending_close [simp]: "\<not> input_pending (input_close x)"
  by (simp add: input_pending_def)

definition quiet :: "hid_interface \<Rightarrow> bool" where
  "quiet d \<longleftrightarrow> list_all (\<lambda>x. \<not> input_pending x) (hi_inputs d)"

lemma quiet_recovery: "quiet d \<longleftrightarrow> \<not> recovery_pending d"
  by (simp add: quiet_def recovery_pending_iff list_all_iff)

lemma list_all_update: "list_all P xs \<Longrightarrow> P y \<Longrightarrow> list_all P (xs[i := y])"
  by (auto simp: list_all_iff dest: set_update_subset_insert [THEN subsetD])

lemma quiet_set_input: "quiet d \<Longrightarrow> \<not> input_pending x \<Longrightarrow> quiet (set_input d i x)"
  by (simp add: quiet_def set_input_def list_all_update)

lemma quiet_nth: "quiet d \<Longrightarrow> i < length (hi_inputs d) \<Longrightarrow> \<not> input_pending (hi_inputs d ! i)"
  by (simp add: quiet_def list_all_length)

lemma quiet_cong: "hi_inputs d = hi_inputs d' \<Longrightarrow> quiet d = quiet d'"
  by (simp add: quiet_def)

lemma foldl_keeps: "(\<And>s i. i \<in> set is \<Longrightarrow> P s \<Longrightarrow> P (f s i)) \<Longrightarrow> P s \<Longrightarrow> P (foldl f s is)"
  by (induction "is" arbitrary: s) simp_all

definition still :: "hid_interface \<Rightarrow> bool" where
  "still d \<longleftrightarrow> ten d \<and> quiet d"

lemma still_set_input: "still d \<Longrightarrow> \<not> input_pending x \<Longrightarrow> still (set_input d i x)"
  by (simp add: still_def quiet_set_input)

lemma still_nth: "still d \<Longrightarrow> i < 10 \<Longrightarrow> \<not> input_pending (hi_inputs d ! i)"
  by (simp add: still_def ten_def quiet_nth)

lemma still_cong: "hi_inputs d = hi_inputs d' \<Longrightarrow> still d = still d'"
  by (simp add: still_def quiet_def ten_def)

lemma still_rumble [simp]:
  "still (d\<lparr>hi_rumble_fd := a\<rparr>) = still d" "still (d\<lparr>hi_rumble_id := b\<rparr>) = still d"
  "still (d\<lparr>hi_gone := c\<rparr>) = still d" "still (d\<lparr>hi_available := m\<rparr>) = still d"
  "still (d\<lparr>hi_nodes := ns\<rparr>) = still d" "still (d\<lparr>hi_wake := c\<rparr>) = still d"
  "still (d\<lparr>hi_next_input := n\<rparr>) = still d"
  by (simp_all add: still_def quiet_def ten_def)

lemma still_close: "still d \<Longrightarrow> still (close_interfaces d m)"
  unfolding close_interfaces_def
  by (rule foldl_keeps) (auto simp: close_one_def Let_def still_set_input)

lemma still_refresh: "still d \<Longrightarrow> hid_refresh scan d = (e, d') \<Longrightarrow> still d'"
proof -
  have one: "still (refresh_one s i)" if "still s" "i < 10" for s i
  proof -
    define t where "t = (if refresh_requires_close (ii_fd (hi_inputs s ! i)) (ii_node (hi_inputs s ! i))
      (hi_nodes s ! i) (hi_available s AND IF_BITS ! i \<noteq> 0) then close_interfaces s (IF_BITS ! i) else s)"
    have t: "still t" using that by (simp add: t_def still_close)
    show ?thesis unfolding refresh_one_def Let_def t_def [symmetric]
      by (rule still_set_input [OF t]) (use still_nth [OF t \<open>i < 10\<close>] in \<open>simp add: input_pending_def\<close>)
  qed
  assume "still d" "hid_refresh scan d = (e, d')"
  then show ?thesis
    using foldl_keeps [where P = still and f = refresh_one and ?is = "[0..<10]", OF one]
    by (auto simp: hid_refresh_def split: sum.splits prod.splits)
qed

lemma still_forget: "still d \<Longrightarrow> still (forget_nodes d)"
  by (auto simp: still_def ten_def quiet_def forget_nodes_def list_all_iff input_pending_def)

lemma still_gone:
  "still d \<Longrightarrow> still (forget_nodes (close_interfaces (d\<lparr>hi_gone := True, hi_available := 0\<rparr>) m))"
  by (rule still_forget, rule still_close) simp

lemma still_monitor_loop: "still d \<Longrightarrow> monitor_loop root evs d = (r, d') \<Longrightarrow> still d'"
proof (induction root evs d rule: monitor_loop.induct)
  case (2 root ev scan evs d)
  then show ?case
    by (auto split: if_splits option.splits prod.splits intro: still_gone
        dest: still_refresh)
qed simp

lemma still_monitor: "still d \<Longrightarrow> monitor_epoll_event events root evs d = (r, d') \<Longrightarrow> still d'"
  by (auto simp: monitor_epoll_event_def monitor_event_def
      split: if_splits prod.splits sum.splits option.splits dest: still_monitor_loop)

lemma still_failure: "still d \<Longrightarrow> failure_watch scan i d = (r, d') \<Longrightarrow> still d'"
  unfolding failure_watch_def
  using still_refresh [OF still_close, of d scan "IF_BITS ! i"] by (metis prod.collapse snd_conv)

text \<open>\<open>take_recovered\<close> without an event has drained the decoder.\<close>

lemma take_recovered_none: "take_recovered d = (None, d') \<Longrightarrow> \<not> has_pending (dec_recovery d')"
proof (induction d rule: take_recovered.induct)
  case (1 d)
  show ?case
  proof (cases "has_pending (dec_recovery d)")
    case True
    obtain o1 d1 where p: "push_recovered d = (o1, d1)" by force
    show ?thesis
    proof (cases o1)
      case None
      then have "take_recovered d1 = (None, d')"
        using "1.prems" True p by (simp add: take_recovered.simps [of d])
      then show ?thesis using "1.IH" [OF True p [symmetric] None] by simp
    qed (use "1.prems" True p in \<open>simp add: take_recovered.simps [of d]\<close>)
  qed (use "1.prems" in \<open>simp add: take_recovered.simps [of d]\<close>)
qed

lemma input_pending_simps [simp]:
  "input_pending (x\<lparr>ii_decoder := dec\<rparr>) = has_pending (dec_recovery dec)"
  "input_pending (x\<lparr>ii_awaiting_sync := b\<rparr>) = input_pending x"
  by (simp_all add: input_pending_def)

lemma has_pending_push [simp]:
  "has_pending (dec_recovery (snd (decoder_push dec e))) = has_pending (dec_recovery dec)"
  by (auto simp: decoder_push_def recovery_dropped_def has_pending_def remember_def Let_def)

lemma still_read_event:
  assumes "still d" "i < 10" "read_event env i e d = (None, d')"
  shows "still d'"
proof -
  have x: "\<not> has_pending (dec_recovery (ii_decoder (hi_inputs d ! i)))"
    using still_nth [OF assms(1,2)] by (simp add: input_pending_def)
  show ?thesis
  proof (cases "ii_awaiting_sync (hi_inputs d ! i)")
    case True
    show ?thesis
    proof (cases "de_recovery env i")
      case (Inl err)
      then show ?thesis using assms True by (auto simp: read_event_def failure_watch_def Let_def split: if_splits)
    next
      case (Inr ka)
      then show ?thesis using assms True take_recovered_none
        by (auto simp: read_event_def Let_def split: if_splits prod.splits intro!: still_set_input)
    qed
  next
    case False
    obtain ev dec where p: "decoder_push (ii_decoder (hi_inputs d ! i)) e = (ev, dec)" by force
    then have "\<not> has_pending (dec_recovery dec)"
      using x has_pending_push [of "ii_decoder (hi_inputs d ! i)" e] by simp
    then show ?thesis using assms False p
      by (auto simp: read_event_def Let_def set_decoder_def split: if_splits intro!: still_set_input)
  qed
qed

lemma still_read_one:
  assumes "still d" "i < 10" "read_one env i d = (None, d')"
  shows "still d'"
proof -
  have "read_loop_one env i rs d = (None, d') \<Longrightarrow> still d'" for rs
    using assms(1,2) by (induction env i rs d rule: read_loop_one.induct)
      (auto split: raw_read.splits intro: still_read_event simp: failure_watch_def)
  then show ?thesis using assms by (simp add: read_one_def split: if_splits)
qed

definition woken :: "hid_interface \<Rightarrow> bool" where
  "woken d \<longleftrightarrow> (recovery_pending d \<longrightarrow> hi_wake d)"

lemma still_woken: "still d \<Longrightarrow> woken d"
  by (simp add: woken_def still_def quiet_recovery)

lemma after_event_woken: "woken (after_event i d)"
  by (simp add: woken_def after_event_def signal_recovery_if_pending_def recovery_pending_def)

lemma epoll_loop_woken: "still d \<Longrightarrow> epoll_loop env eps d = (r, d') \<Longrightarrow> woken d'"
proof (induction env eps d rule: epoll_loop.induct)
  case (2 env tag events eps d)
  show ?case
  proof (cases "tag = MONITOR_EPOLL_TAG")
    case True
    obtain m d1 where m: "monitor_epoll_event events (de_root env) (de_udev env) d = (m, d1)" by force
    then have "still d1" using still_monitor "2.prems" by blast
    then show ?thesis using "2.IH"(1) [OF True m [symmetric]] "2.prems"(2) m True
      by (auto split: sum.splits option.splits intro: still_woken)
  next
    case nm: False
    show ?thesis
    proof (cases "tag = RECOVERY_EPOLL_TAG \<or> epoll_input_index tag 10 = None")
      case True
      then show ?thesis using 2 nm by (auto split: if_splits)
    next
      case False
      then obtain i where i: "epoll_input_index tag 10 = Some i" "tag \<noteq> RECOVERY_EPOLL_TAG" by auto
      obtain m d1 where m: "read_one env i d = (m, d1)" by force
      have "i < 10" using i(1) by (auto simp: epoll_input_index_def split: if_splits)
      then have s: "m = None \<Longrightarrow> still d1" using still_read_one "2.prems"(1) m by blast
      show ?thesis using "2.IH"(4) [OF nm i(2) i(1) m [symmetric]] "2.prems"(2) m nm i s
        by (cases m) (auto simp: after_event_woken)
    qed
  qed
qed (use still_woken in auto)

section \<open>The replay loop of \<open>dispatch\<close>\<close>

lemma set_decoder_nth:
  "ten d \<Longrightarrow> i < 10 \<Longrightarrow> hi_inputs (set_decoder d i dec) ! j =
    (if j = i then (hi_inputs d ! i)\<lparr>ii_decoder := dec\<rparr> else hi_inputs d ! j)"
  by (simp add: set_decoder_def set_input_nth)

lemma set_decoder_ten [simp]: "ten (set_decoder d i dec) = ten d"
  by (simp add: set_decoder_def)

lemma set_decoder_next [simp]: "hi_next_input (set_decoder d i dec) = hi_next_input d"
  by (simp add: set_decoder_def set_input_def)

lemma recovered_scan_none:
  assumes "ten d" "list_all (\<lambda>i. i < 10) is" "recovered_scan is d = (None, d')"
  shows "ten d' \<and> (\<forall>j. j \<in> set is \<or> \<not> input_pending (hi_inputs d ! j) \<longrightarrow> \<not> input_pending (hi_inputs d' ! j))"
  using assms
proof (induction "is" arbitrary: d)
  case (Cons i "is")
  obtain m dec where t: "take_recovered (ii_decoder (hi_inputs d ! i)) = (m, dec)" by force
  then have m: "m = None" "recovered_scan is (set_decoder d i dec) = (None, d')"
    using Cons.prems(3) by (auto split: option.splits)
  have "\<not> has_pending (dec_recovery dec)" using t m(1) take_recovered_none by simp
  then show ?case using Cons.IH [OF _ _ m(2)] Cons.prems(1,2)
    by (auto simp: set_decoder_nth)
qed auto

lemma visit_order: "set (map (\<lambda>k. (n + k) mod 10) [0..<10]) = {..<10::nat}"
proof -
  have "j \<in> (\<lambda>k. (n + k) mod 10) ` {0..<10}" if "j < 10" for j
  proof (rule image_eqI)
    have "(n + (j + 10 - n mod 10) mod 10) mod 10 = (n mod 10 + (j + 10 - n mod 10)) mod 10"
      by (simp only: mod_add_left_eq mod_add_right_eq)
    moreover have "n mod 10 + (j + 10 - n mod 10) = j + 10"
      using mod_less_divisor [of 10 n] by linarith
    ultimately show "j = (n + (j + 10 - n mod 10) mod 10) mod 10" using that by simp
  qed simp
  then show ?thesis by auto
qed

lemma recovered_scan_still:
  assumes "ten d" "recovered_scan (map (\<lambda>k. (n + k) mod 10) [0..<10]) d = (None, d')"
  shows "still d'"
proof -
  have "list_all (\<lambda>i. i < 10) (map (\<lambda>k. (n + k) mod 10) [0..<10])" by (simp add: list_all_iff)
  from recovered_scan_none [OF assms(1) this assms(2)] visit_order [of n]
  have "ten d'" "j < 10 \<Longrightarrow> \<not> input_pending (hi_inputs d' ! j)" for j by blast+
  then show ?thesis by (auto simp: still_def quiet_def ten_def list_all_length)
qed

text \<open>An input with a replay event is served, unless one before it in the visit order is.\<close>

lemma recovered_scan_serves:
  assumes "ten d" "j < 10" "take_recovered (ii_decoder (hi_inputs d ! j)) = (Some ev, dec)"
    and "list_all (\<lambda>i. i < 10 \<and> i \<noteq> j) pre"
  shows "\<exists>i e d'. recovered_scan (pre @ j # post) d = (Some (i, e), d') \<and> ten d'
    \<and> hi_next_input d' = hi_next_input d
    \<and> (i = j \<and> e = ev \<and> ii_decoder (hi_inputs d' ! j) = dec
       \<or> i \<in> set pre \<and> hi_inputs d' ! j = hi_inputs d ! j)"
  using assms
proof (induction pre arbitrary: d)
  case Nil
  then show ?case by (simp add: set_decoder_nth)
next
  case (Cons p pre)
  obtain m dec' where t: "take_recovered (ii_decoder (hi_inputs d ! p)) = (m, dec')" by force
  show ?case
  proof (cases m)
    case None
    have "hi_inputs (set_decoder d p dec') ! j = hi_inputs d ! j"
      using Cons.prems by (auto simp: set_decoder_nth)
    then show ?thesis using Cons.IH [of "set_decoder d p dec'"] Cons.prems t None by auto
  next
    case (Some e)
    then show ?thesis using Cons.prems t by (auto simp: set_decoder_nth)
  qed
qed

section \<open>Opening\<close>

text \<open>What \<open>open_one\<close> does to input \<open>i\<close>, with the error it reports (0 for none).\<close>

definition open_input ::
  "open_env \<Rightarrow> bool \<Rightarrow> interface_mask \<Rightarrow> nat \<Rightarrow> input_interface \<Rightarrow> input_interface \<times> int" where
  "open_input env write m i x =
    (if \<not> bit m (if_index i) \<or> ii_fd x \<ge> 0 then (x, 0)
     else if \<not> ii_available x \<or> ii_node x = None then (x, - ENODEV)
     else case oe_node env i write of
       Inl e \<Rightarrow> (x, e)
     | Inr fd \<Rightarrow>
         (case oe_initial env i of
            Inl e \<Rightarrow> (x, e)
          | Inr (keys, axes) \<Rightarrow>
              let x1 = reset_decoder x;
                  x2 = x1\<lparr>ii_decoder := decoder_seed_state (ii_decoder x1) keys axes, ii_fd := fd\<rparr>
              in case oe_epoll env i of Some e \<Rightarrow> (input_close x2, e) | None \<Rightarrow> (x2, 0)))"

lemma upload_rumble_inputs [simp]: "hi_inputs (upload_rumble env d i fd) = hi_inputs d"
  by (simp add: upload_rumble_def split: option.split)

lemma open_one_input:
  assumes "i < 10" "length (hi_inputs d) = 10"
  shows "hi_inputs (fst (open_one env write (m AND ALL_INTERFACES) (d, first) i)) =
      (hi_inputs d)[i := fst (open_input env write m i (hi_inputs d ! i))]
    \<and> snd (open_one env write (m AND ALL_INTERFACES) (d, first) i) =
      first_error first (snd (open_input env write m i (hi_inputs d ! i)))"
proof -
  let ?x = "hi_inputs d ! i"
  have req: "(m AND ALL_INTERFACES) AND IF_BITS ! i = 0 \<longleftrightarrow> \<not> bit m (if_index i)"
    using requested_interface [OF assms(1)] by blast
  show ?thesis
  proof (cases "\<not> bit m (if_index i) \<or> ii_fd ?x \<ge> 0 \<or> \<not> ii_available ?x \<or> ii_node ?x = None")
    case True
    then show ?thesis by (auto simp: open_one_def open_input_def req first_error_def)
  next
    case False
    show ?thesis
    proof (cases "oe_node env i write")
      case (Inl e)
      then show ?thesis using False by (auto simp: open_one_def open_input_def req Let_def)
    next
      case fd: (Inr fd)
      show ?thesis
      proof (cases "oe_initial env i")
        case (Inl e)
        then show ?thesis using False fd by (auto simp: open_one_def open_input_def req Let_def)
      next
        case (Inr ka)
        then show ?thesis using False fd
          by (cases ka; cases "oe_epoll env i")
            (auto simp: open_one_def open_input_def req Let_def set_input_def first_error_def)
      qed
    qed
  qed
qed

lemma foldl_first_error:
  assumes "\<And>s i. i < 10 \<Longrightarrow> length (inp s) = 10 \<Longrightarrow>
      inp (f s i) = (inp s)[i := fst (g i (inp s ! i))] \<and> snd (f s i) = first_error (snd s) (snd (g i (inp s ! i)))"
    and "length (inp s) = 10" "snd s = 0" "n \<le> 10"
  shows "snd (foldl f s [0..<n]) = 0 \<longleftrightarrow> (\<forall>i<n. snd (g i (inp s ! i)) = 0)"
  using \<open>n \<le> 10\<close>
proof (induction n)
  case 0
  then show ?case using assms(3) by simp
next
  case (Suc n)
  let ?s = "foldl f s [0..<n]"
  have inputs: "length (inp ?s) = 10" "inp ?s ! n = inp s ! n"
    using foldl_inputs [of "\<lambda>_. True" inp f "\<lambda>i x. fst (g i x)" s n] assms(1,2) Suc.prems by auto
  have "snd (foldl f s [0..<Suc n]) = first_error (snd ?s) (snd (g n (inp s ! n)))"
    using assms(1) [of n ?s] inputs Suc.prems by simp
  then show ?case using Suc by (auto simp: first_error_def less_Suc_eq)
qed

lemma open_interfaces_inputs:
  assumes "ten d" "open_interfaces env d m = (d', first, bits)"
  shows "ten d' \<and> bits = opened d'
    \<and> (\<forall>j < 10. hi_inputs d' ! j = fst (open_input env (m AND WRITABLE \<noteq> 0) m j (hi_inputs d ! j)))
    \<and> (first = 0 \<longleftrightarrow> (\<forall>j < 10. snd (open_input env (m AND WRITABLE \<noteq> 0) m j (hi_inputs d ! j)) = 0))"
proof -
  let ?w = "m AND WRITABLE \<noteq> 0"
  let ?f = "open_one env ?w (m AND ALL_INTERFACES)"
  let ?r = "foldl ?f (d, 0) [0..<10]"
  have r: "?r = (d', first)" "bits = opened d'"
    using assms(2) by (auto simp: open_interfaces_def split: prod.splits)
  have step: "hi_inputs (fst (?f s i)) = (hi_inputs (fst s))[i := fst (open_input env ?w m i (hi_inputs (fst s) ! i))]"
      "snd (?f s i) = first_error (snd s) (snd (open_input env ?w m i (hi_inputs (fst s) ! i)))"
    if "i < 10" "length (hi_inputs (fst s)) = 10" for s i
    using open_one_input [OF that, of env ?w m "snd s"] by (cases s; simp)+
  have "length (hi_inputs (fst ?r)) = 10 \<and> (\<forall>j < 10. hi_inputs (fst ?r) ! j = fst (open_input env ?w m j (hi_inputs d ! j)))"
    using foldl_inputs [of "\<lambda>_. True" "hi_inputs \<circ> fst" ?f "\<lambda>i x. fst (open_input env ?w m i x)" "(d, 0)" 10]
      step assms(1) by (simp add: ten_def)
  moreover have "snd ?r = 0 \<longleftrightarrow> (\<forall>j < 10. snd (open_input env ?w m j (hi_inputs d ! j)) = 0)"
    using foldl_first_error [of "hi_inputs \<circ> fst" ?f "open_input env ?w m" "(d, 0)" 10] step assms(1)
    by (simp add: ten_def)
  ultimately show ?thesis using r by (simp add: ten_def)
qed


section \<open>Refreshing\<close>

definition refresh_input ::
  "string option list \<Rightarrow> u32 \<Rightarrow> nat \<Rightarrow> input_interface \<Rightarrow> input_interface" where
  "refresh_input nodes available i x =
    (if refresh_requires_close (ii_fd x) (ii_node x) (nodes ! i) (bit available (if_index i))
     then input_close x else x)\<lparr>ii_available := bit available (if_index i), ii_node := nodes ! i\<rparr>"

lemma close_only:
  "ten d \<Longrightarrow> i < 10 \<Longrightarrow> hi_inputs (close_interfaces d (IF_BITS ! i)) =
    (hi_inputs d)[i := (if ii_fd (hi_inputs d ! i) \<ge> 0 then input_close (hi_inputs d ! i) else hi_inputs d ! i)]"
  using close_interfaces_inputs [of d "IF_BITS ! i"] bit_IF_BITS [of i]
  by (auto simp: ten_def close_input_def nth_list_update intro!: nth_equalityI)

lemma refresh_one_input:
  assumes "i < 10" "length (hi_inputs d) = 10"
  shows "hi_nodes (refresh_one d i) = hi_nodes d \<and> hi_available (refresh_one d i) = hi_available d
    \<and> hi_inputs (refresh_one d i) = (hi_inputs d)[i := refresh_input (hi_nodes d) (hi_available d) i (hi_inputs d ! i)]"
proof -
  have "refresh_requires_close (ii_fd x) a b c \<Longrightarrow> ii_fd x \<ge> 0" for x a b c
    by (simp add: refresh_requires_close_def)
  then show ?thesis
    using close_only [of d i] assms has_interface [OF assms(1), of "hi_available d"]
    by (auto simp: refresh_one_def Let_def set_input_def refresh_input_def ten_def)
qed

lemma refresh_inputs:
  assumes "ten d" "hid_refresh (Inr (nodes, available)) d = (e, d')"
  shows "ten d' \<and> hi_nodes d' = nodes \<and> hi_available d' = available
    \<and> (\<forall>j < 10. hi_inputs d' ! j = refresh_input nodes available j (hi_inputs d ! j))"
proof -
  let ?d = "d\<lparr>hi_nodes := nodes, hi_available := available\<rparr>"
  let ?P = "\<lambda>s. hi_nodes s = nodes \<and> hi_available s = available"
  have "d' = foldl refresh_one ?d [0..<10]" using assms(2) by (simp add: hid_refresh_def)
  moreover have "?P (refresh_one s i) \<and>
      hi_inputs (refresh_one s i) = (hi_inputs s)[i := refresh_input nodes available i (hi_inputs s ! i)]"
    if "i < 10" "?P s" "length (hi_inputs s) = 10" for s i
    using refresh_one_input [of i s] that by simp
  ultimately show ?thesis
    using foldl_inputs [of ?P hi_inputs refresh_one "refresh_input nodes available" ?d 10] assms(1)
    by (simp add: ten_def)
qed

end
