(* ===== verification/Udev_Facts.thy ===== *)
theory Udev_Facts
  imports Udev Device_Facts
begin

text \<open>
  What the monitor, the scan and the files of \<open>crates/wiiland-hid/src/monitor.rs\<close>, \<open>backend.rs\<close> and
  \<open>device.rs\<close> promise: which devices are reported and when, which interfaces a scan finds, and that
  what is written is the whole value.
\<close>

section \<open>Text\<close>

lemma utf8_rest_fits:
  assumes "utf8_rest a (take (utf8_width a - 1) r)"
  shows "Suc (utf8_fits a r) = utf8_width a \<and> 0 < utf8_width a"
proof -
  have w: "utf8_width a = 0 \<or> utf8_width a = 1 \<or> utf8_width a = 2 \<or> utf8_width a = 3 \<or> utf8_width a = 4"
    by (simp add: utf8_width_def)
  have c3: "utf8_second3 a b \<Longrightarrow> utf8_cont b" for b by (auto simp: utf8_second3_def utf8_cont_def split: if_splits)
  show ?thesis
  proof (cases r)
    case Nil
    then show ?thesis using assms by (simp add: utf8_fits_def)
  next
    case (Cons b s)
    show ?thesis
      using w assms Cons
      by (cases s; cases "tl s") (auto simp: utf8_fits_def utf8_second_def numeral_eq_Suc)
  qed
qed

lemma lossy_bytes_valid: "utf8_bytes bs \<Longrightarrow> lossy_bytes bs = bs"
proof (induction bs rule: utf8_bytes.induct)
  case (2 a r)
  then have f: "Suc (utf8_fits a r) = utf8_width a" "0 < utf8_width a" using utf8_rest_fits by simp_all
  then have k: "utf8_width a - 1 = utf8_fits a r" by simp
  have "lossy_bytes (drop (utf8_fits a r) r) = drop (utf8_fits a r) r" using 2 k by simp
  then show ?case using f by (simp add: Let_def)
qed simp

text \<open>On well-formed text the lossy conversion is the identity.\<close>

lemma lossy_valid: "valid_utf8 s \<Longrightarrow> lossy s = s"
  by (simp add: valid_utf8_def lossy_def lossy_bytes_valid comp_def)

section \<open>Writing\<close>

lemma write_whole_prefix:
  "write_whole ws errno v = Some (r, out) \<Longrightarrow>
    (\<exists>rest. v = out @ rest \<and> (r = None \<longleftrightarrow> rest = []))"
proof (induction ws errno v arbitrary: r out rule: write_whole.induct)
  case (3 n ws errno b bs)
  let ?v = "b # bs"
  show ?case
  proof (cases "n = 0 \<or> length ?v < n")
    case True
    then show ?thesis using "3.prems" by (auto split: if_splits)
  next
    case False
    then obtain q out1 where w: "write_whole ws errno (drop n ?v) = Some (q, out1)" "r = q" "out = take n ?v @ out1"
      using "3.prems" by (auto split: option.splits)
    obtain rest where "drop n ?v = out1 @ rest" "q = None \<longleftrightarrow> rest = []" using "3.IH" [OF _ _ w(1)] False by auto
    moreover have "?v = take n ?v @ drop n ?v" by simp
    ultimately show ?thesis using w(2,3) by (metis append.assoc)
  qed
qed (auto split: if_splits)

text \<open>
  An attribute file is written whole or the call fails: the bytes that reached the file are the value when
  no error is reported, and a proper beginning of it otherwise; a set LED therefore reads back as set.
\<close>
theorem attribute_written_whole:
  assumes "write_attr path failed ws errno v = Some (r, out)"
  shows "(r = None \<longrightarrow> out = v) \<and> (r \<noteq> None \<longrightarrow> out = [] \<or> (\<exists>rest. rest \<noteq> [] \<and> v = out @ rest))"
  using assms write_whole_prefix [of ws errno v]
  by (auto simp: write_attr_def split: if_splits option.splits)

lemma attribute_written_whole_witness:
  "write_attr ''/sys/led'' None [Inl 4, Inr 1] 0 ''1'' = Some (None, ''1'') \<and> ''1'' = (''1'' :: bytes)"
proof -
  have "write_attr ''/sys/led'' None [Inl 4, Inr 1] 0 ''1'' = Some (None, ''1'')"
    by (simp add: write_attr_def has_nul_def EINTR_def)
  then show ?thesis using attribute_written_whole [of "''/sys/led''" None "[Inl 4, Inr 1]" 0 "''1''" None "''1''"] by simp
qed

section \<open>What a watch reports\<close>

text \<open>The paths a caller gets who asks until there is nothing more, in one list, with the error that ended it.\<close>

function monitor_paths :: "received \<Rightarrow> monitor \<Rightarrow> int option \<times> string list" where
  "monitor_paths rx m =
    (case poll_step rx m of
       (Inl e, rx', m') \<Rightarrow> (Some e, [])
     | (Inr MpEmpty, rx', m') \<Rightarrow> (None, [])
     | (Inr MpPending, rx', m') \<Rightarrow> monitor_paths rx' m'
     | (Inr (MpPath path), rx', m') \<Rightarrow> (case monitor_paths rx' m' of (e, ps) \<Rightarrow> (e, path # ps)))"
  by pat_completeness auto
termination
  by (relation "measure (\<lambda>(rx, m). work_left rx m)") (auto dest: pending_step [OF sym] path_step_work [OF sym])

declare monitor_paths.simps [simp del]

lemma paths_bounded:
  "monitor_paths rx m =
    (case poll_bounded n rx m of
       (Inl e, rx', m') \<Rightarrow> (Some e, [])
     | (Inr MpEmpty, rx', m') \<Rightarrow> (None, [])
     | (Inr MpPending, rx', m') \<Rightarrow> monitor_paths rx' m'
     | (Inr (MpPath path), rx', m') \<Rightarrow> (case monitor_paths rx' m' of (e, ps) \<Rightarrow> (e, path # ps)))"
proof (induction n arbitrary: rx m)
  case (Suc n)
  obtain r rx1 m1 where s: "poll_step rx m = (r, rx1, m1)" by (metis prod_cases3)
  show ?case
    using Suc.IH [of rx1 m1] s
    by (simp add: monitor_paths.simps [of rx m] split: sum.split monitor_poll.split)
qed simp

lemma paths_next:
  "monitor_paths rx m =
    (case monitor_next rx m of
       (Inl e, rx', m') \<Rightarrow> (Some e, [])
     | (Inr None, rx', m') \<Rightarrow> (None, [])
     | (Inr (Some path), rx', m') \<Rightarrow> (case monitor_paths rx' m' of (e, ps) \<Rightarrow> (e, path # ps)))"
proof (induction rx m rule: monitor_next.induct)
  case (1 rx m)
  obtain r rx1 m1 where p: "poll_bounded 64 rx m = (r, rx1, m1)" by (metis prod_cases3)
  show ?case
    using 1 p paths_bounded [of rx m 64]
    by (simp add: monitor_next.simps [of rx m] split: sum.split monitor_poll.split)
qed

text \<open>
  An event of the netlink channel is suppressed when it is the first arrival or removal of a path that the
  enumeration had already listed, and an arrival.
\<close>

definition moves :: "bytes \<Rightarrow> udev_info \<Rightarrow> bool" where
  "moves p dev \<longleftrightarrow> ud_syspath dev = Some p \<and> (ud_action dev = Some ''add'' \<or> ud_action dev = Some ''remove'')"

definition suppressed :: "bytes list \<Rightarrow> udev_info list \<Rightarrow> nat \<Rightarrow> bool" where
  "suppressed initial evs k \<longleftrightarrow>
    (\<exists>p \<in> set initial. ud_syspath (evs ! k) = Some p \<and> ud_action (evs ! k) = Some ''add'' \<and> (\<forall>j < k. \<not> moves p (evs ! j)))"

lemma dedup_path_spec: "dedup_path adding path ps = (adding \<and> path \<in> set ps, remove1 path ps)"
  by (induction ps) auto

lemma deduplicate_spec:
  "deduplicate dev m = (\<exists>p \<in> set (mo_initial m). ud_syspath dev = Some p \<and> ud_action dev = Some ''add'',
    m\<lparr>mo_initial := (case ud_syspath dev of Some p \<Rightarrow> if moves p dev then remove1 p (mo_initial m) else mo_initial m
      | None \<Rightarrow> mo_initial m)\<rparr>)"
  by (cases "ud_action dev"; cases "ud_syspath dev")
    (auto simp: deduplicate_def deduplicate_initial_def dedup_path_spec moves_def)

lemma suppressed_Cons:
  assumes "distinct initial"
    and "initial' = (case ud_syspath e of Some p \<Rightarrow> if moves p e then remove1 p initial else initial | None \<Rightarrow> initial)"
  shows "suppressed initial (e # evs) (Suc k) = suppressed initial' evs k"
proof -
  have "set initial' = {p \<in> set initial. \<not> moves p e}"
    using assms by (auto simp: moves_def split: option.splits if_splits)
  then show ?thesis by (auto simp: suppressed_def All_less_Suc2)
qed

definition fresh_paths :: "bytes list \<Rightarrow> udev_info list \<Rightarrow> string list" where
  "fresh_paths initial evs =
    List.map_filter (\<lambda>k. if suppressed initial evs k then None else valid_device (evs ! k)) [0..<length evs]"

lemma map_filter_map: "List.map_filter f (map g xs) = List.map_filter (\<lambda>x. f (g x)) xs"
  by (induction xs) (simp_all add: List.map_filter_simps split: option.split)

lemma map_filter_shift:
  "List.map_filter f [0..<Suc n] = (case f 0 of None \<Rightarrow> [] | Some y \<Rightarrow> [y]) @ List.map_filter (\<lambda>k. f (Suc k)) [0..<n]"
proof -
  have "[0..<Suc n] = 0 # map Suc [0..<n]" by (simp add: map_Suc_upt upt_conv_Cons del: upt_Suc)
  then show ?thesis by (simp add: List.map_filter_simps map_filter_map split: option.split del: upt_Suc)
qed

lemma fresh_paths_Cons:
  assumes "distinct initial"
    and "initial' = (case ud_syspath e of Some p \<Rightarrow> if moves p e then remove1 p initial else initial | None \<Rightarrow> initial)"
  shows "fresh_paths initial (e # evs) =
    (case (if \<exists>p \<in> set initial. ud_syspath e = Some p \<and> ud_action e = Some ''add'' then None else valid_device e) of
       None \<Rightarrow> [] | Some p \<Rightarrow> [p]) @ fresh_paths initial' evs"
proof -
  have "suppressed initial (e # evs) 0 \<longleftrightarrow> (\<exists>p \<in> set initial. ud_syspath e = Some p \<and> ud_action e = Some ''add'')"
    by (simp add: suppressed_def)
  then show ?thesis
    using suppressed_Cons [OF assms, of evs] by (simp add: fresh_paths_def map_filter_shift del: upt_Suc cong: if_cong)
qed

lemma watch_events:
  assumes "mo_enumerated m" "mo_watch m" "distinct (mo_initial m)"
  shows "monitor_paths (map Inr evs) m = (None, fresh_paths (mo_initial m) evs)"
  using assms
proof (induction evs arbitrary: m)
  case Nil
  then show ?case by (simp add: monitor_paths.simps poll_step_def fresh_paths_def)
next
  case (Cons e evs)
  define initial' where "initial' = (case ud_syspath e of Some p \<Rightarrow>
    if moves p e then remove1 p (mo_initial m) else mo_initial m | None \<Rightarrow> mo_initial m)"
  define dup where "dup = (\<exists>p \<in> set (mo_initial m). ud_syspath e = Some p \<and> ud_action e = Some ''add'')"
  have d: "deduplicate e m = (dup, m\<lparr>mo_initial := initial'\<rparr>)"
    by (simp add: deduplicate_spec dup_def initial'_def)
  have "distinct initial'" using Cons.prems(3) by (auto simp: initial'_def split: option.split)
  then have ih: "monitor_paths (map Inr evs) (m\<lparr>mo_initial := initial'\<rparr>) = (None, fresh_paths initial' evs)"
    using Cons.IH [of "m\<lparr>mo_initial := initial'\<rparr>"] Cons.prems by simp
  show ?case
    using Cons.prems ih d fresh_paths_Cons [OF Cons.prems(3) initial'_def, of evs, folded dup_def]
    by (simp add: monitor_paths.simps [of "Inr e # map Inr evs"] poll_step_def split: option.split)
qed

definition listed_paths :: "enum_entry list \<Rightarrow> string list" where
  "listed_paths entries = List.map_filter
    (\<lambda>(name, made). case (name, made) of (Some _, Inr dev) \<Rightarrow> valid_device dev | _ \<Rightarrow> None) entries"

text \<open>No device of the enumeration fails to be made for another reason than that it has gone.\<close>

definition list_made :: "enum_entry list \<Rightarrow> bool" where
  "list_made entries \<longleftrightarrow> (\<forall>(name, made) \<in> set entries. \<forall>path errno.
    name = Some path \<longrightarrow> made = Inl errno \<longrightarrow> classify_enum_device_errno errno = None)"

lemma enumeration_listed:
  assumes "\<not> mo_enumerated m" "list_made (mo_entries m)"
    and "m' = m\<lparr>mo_entries := [], mo_enumerated := True, mo_initial := (if mo_watch m then mo_initial m else [])\<rparr>"
  shows "monitor_paths rx m = (case monitor_paths rx m' of (e, ps) \<Rightarrow> (e, listed_paths (mo_entries m) @ ps))"
  using assms
proof (induction "mo_entries m" arbitrary: m m')
  case Nil
  then have "poll_step rx m = (Inr MpPending, rx, m')"
    by (cases m) (simp add: poll_step_def next_enum_def free_enum_def Let_def)
  then show ?case using Nil by (simp add: monitor_paths.simps [of rx m] listed_paths_def List.map_filter_simps split: prod.split)
next
  case (Cons x xs)
  obtain name made where x: "x = (name, made)" by force
  let ?m1 = "m\<lparr>mo_entries := xs\<rparr>"
  have e: "mo_entries m = (name, made) # xs" using Cons.hyps(2) x by simp
  have made: "classify_enum_device_errno errno = None" if "name = Some path" "made = Inl errno" for path errno
    using Cons.prems(2) e that by (auto simp: list_made_def)
  have ih: "monitor_paths rx ?m1 = (case monitor_paths rx m' of (e, ps) \<Rightarrow> (e, listed_paths xs @ ps))"
    using Cons.hyps(1) [of ?m1 m'] Cons.prems e by (simp add: list_made_def)
  define found where "found = (case (name, made) of (Some _, Inr dev) \<Rightarrow> valid_device dev | _ \<Rightarrow> None)"
  have "poll_step rx m = (Inr (case found of Some p \<Rightarrow> MpPath p | None \<Rightarrow> MpPending), rx, ?m1)"
    using Cons.prems(1) made
    by (cases name; cases made) (auto simp: poll_step_def next_enum_def e found_def Let_def split: option.split)
  moreover have "listed_paths (mo_entries m) = (case found of None \<Rightarrow> [] | Some p \<Rightarrow> [p]) @ listed_paths xs"
    by (simp add: e listed_paths_def List.map_filter_simps found_def split: option.split sum.split)
  ultimately show ?case using ih
    by (simp add: monitor_paths.simps [of rx m] split: option.split prod.split)
qed


definition sample_remote :: "string \<Rightarrow> bytes option \<Rightarrow> udev_info" where
  "sample_remote path action = \<lparr>ud_syspath = Some path, ud_subsystem = Some ''hid'', ud_driver = Some ''wiimote'',
    ud_sysname = None, ud_devnode = None, ud_action = action, ud_name = None\<rparr>"

lemma sample_paths: "lossy ''/sys/a'' = ''/sys/a''" "lossy ''/sys/b'' = ''/sys/b''" "lossy ''/dev/e'' = ''/dev/e''"
  by (rule lossy_valid, simp add: valid_utf8_def utf8_width_def)+


section \<open>What a scan finds\<close>

text \<open>
  The entries of the input subsystem, in their order. An interface is found where the input device that
  has its name is followed at once by an event device that has a node.
\<close>

definition input_children :: "udev_entry list \<Rightarrow> udev_info list" where
  "input_children entries = List.map_filter
    (\<lambda>(path, child). case (path, child) of
       (Some _, Some c) \<Rightarrow> if ud_subsystem c = Some ''input'' \<and> ud_sysname c \<noteq> None then Some c else None
     | _ \<Rightarrow> None) entries"

definition names_interface :: "nat \<Rightarrow> udev_info \<Rightarrow> bool" where
  "names_interface i c \<longleftrightarrow> starts_with (the (ud_sysname c)) ''input'' \<and> Option.bind (ud_name c) interface_by_name = Some i"

definition event_node :: "udev_info \<Rightarrow> bytes \<Rightarrow> bool" where
  "event_node c node \<longleftrightarrow> \<not> starts_with (the (ud_sysname c)) ''input'' \<and> starts_with (the (ud_sysname c)) ''event''
    \<and> ud_devnode c = Some node"

definition listed_pair :: "udev_info list \<Rightarrow> nat \<Rightarrow> bytes \<Rightarrow> bool" where
  "listed_pair cs i node \<longleftrightarrow> (\<exists>pre x y post. cs = pre @ [x, y] @ post \<and> names_interface i x \<and> event_node y node)"

lemma listed_pair_Nil [simp]: "\<not> listed_pair [] i node" by (simp add: listed_pair_def)

lemma listed_pair_snoc:
  "listed_pair (cs @ [c]) i node \<longleftrightarrow>
    listed_pair cs i node \<or> cs \<noteq> [] \<and> names_interface i (last cs) \<and> event_node c node"
proof
  assume "listed_pair (cs @ [c]) i node"
  then obtain pre x y post where p: "cs @ [c] = pre @ [x, y] @ post" "names_interface i x" "event_node y node"
    by (auto simp: listed_pair_def)
  show "listed_pair cs i node \<or> cs \<noteq> [] \<and> names_interface i (last cs) \<and> event_node c node"
  proof (cases post rule: rev_cases)
    case Nil
    then have "cs = pre @ [x]" "c = y" using p(1) by simp_all
    then show ?thesis using p by simp
  next
    case (snoc post' z)
    then have "cs = pre @ [x, y] @ post'" using p(1) by simp
    then show ?thesis using p by (auto simp: listed_pair_def)
  qed
next
  assume "listed_pair cs i node \<or> cs \<noteq> [] \<and> names_interface i (last cs) \<and> event_node c node"
  then show "listed_pair (cs @ [c]) i node"
  proof (elim disjE conjE)
    assume "listed_pair cs i node"
    then show ?thesis unfolding listed_pair_def by (metis append.assoc)
  next
    assume a: "cs \<noteq> []" "names_interface i (last cs)" "event_node c node"
    then have "cs @ [c] = butlast cs @ [last cs, c] @ []" by (simp add: append_butlast_last_id [symmetric] del: append_butlast_last_id)
    then show ?thesis unfolding listed_pair_def using a(2,3) by blast
  qed
qed

definition scan_inv :: "udev_info list \<Rightarrow> nat option \<times> device_nodes \<Rightarrow> bool" where
  "scan_inv cs st \<longleftrightarrow> (case st of (prev, n) \<Rightarrow>
    (\<forall>i. prev = Some i \<longleftrightarrow> cs \<noteq> [] \<and> names_interface i (last cs)) \<and> length (nd_nodes n) = 10
    \<and> (\<forall>i < 10. bit (nd_available n) (if_index i) \<longleftrightarrow> (\<exists>node. listed_pair cs i node))
    \<and> (\<forall>i < 10. (\<exists>node. listed_pair cs i node) \<longrightarrow> (\<exists>node. listed_pair cs i node \<and> nd_nodes n ! i = Some (lossy node))))"

lemma named_less: "names_interface i c \<Longrightarrow> i < 10"
proof -
  assume "names_interface i c"
  then obtain name where "interface_by_name name = Some i"
    by (auto simp: names_interface_def split: Option.bind_splits)
  moreover have "position P xs = Some k \<Longrightarrow> k < length xs" for P :: "string \<Rightarrow> bool" and xs k
    by (induction xs arbitrary: k) (auto split: if_splits)
  ultimately have "i < length IF_NAMES" by (simp add: interface_by_name_def)
  then show ?thesis by (simp add: IF_NAMES_def)
qed

text \<open>What one entry does to the nodes and to the name kept.\<close>

lemma scan_other:
  assumes "input_children [entry] = []"
  shows "\<exists>n'. scan_entry (prev, n) entry = (prev, n') \<and> nd_nodes n' = nd_nodes n \<and> nd_available n' = nd_available n"
proof (cases entry)
  case (Pair path child)
  then show ?thesis using assms
    by (cases path; cases child)
      (auto simp: scan_entry_def input_children_def List.map_filter_simps split: option.splits if_splits)
qed

lemma scan_input:
  assumes "input_children [entry] = [c]"
  shows "scan_entry (prev, n) entry =
    (if starts_with (the (ud_sysname c)) ''input'' then (Option.bind (ud_name c) interface_by_name, n)
     else case (prev, ud_devnode c) of
       (Some i, Some node) \<Rightarrow>
         (None, if event_node c node
                then n\<lparr>nd_nodes := (nd_nodes n)[i := Some (lossy node)], nd_available := nd_available n OR IF_BITS ! i\<rparr> else n)
     | _ \<Rightarrow> (None, n))"
proof (cases entry)
  case (Pair path child)
  then obtain p sysname where "path = Some p" "child = Some c" "ud_subsystem c = Some ''input''" "ud_sysname c = Some sysname"
    using assms
    by (cases path; cases child) (auto simp: input_children_def List.map_filter_simps split: if_splits)
  then show ?thesis using Pair
    by (simp add: scan_entry_def event_node_def split: option.split)
qed

lemma scan_inv_step:
  assumes "scan_inv cs (prev, n)"
  shows "scan_inv (cs @ input_children [entry]) (scan_entry (prev, n) entry)"
proof (cases "input_children [entry]")
  case Nil
  then obtain n' where "scan_entry (prev, n) entry = (prev, n')" "nd_nodes n' = nd_nodes n" "nd_available n' = nd_available n"
    using scan_other by blast
  then show ?thesis using assms Nil by (simp add: scan_inv_def)
next
  case (Cons c rest)
  then have one: "input_children [entry] = [c]"
    by (cases entry) (auto simp: input_children_def List.map_filter_simps split: option.splits if_splits)
  have inv: "prev = Some i \<longleftrightarrow> cs \<noteq> [] \<and> names_interface i (last cs)" "length (nd_nodes n) = 10"
    "i < 10 \<Longrightarrow> bit (nd_available n) (if_index i) \<longleftrightarrow> (\<exists>node. listed_pair cs i node)"
    "i < 10 \<Longrightarrow> listed_pair cs i node \<Longrightarrow> \<exists>node. listed_pair cs i node \<and> nd_nodes n ! i = Some (lossy node)" for i node
    using assms by (auto simp: scan_inv_def)
  show ?thesis
  proof (cases "\<exists>i node. prev = Some i \<and> event_node c node")
    case True
    then obtain i node where p: "prev = Some i" "event_node c node" by blast
    then have e: "\<not> starts_with (the (ud_sysname c)) ''input''" "ud_devnode c = Some node" by (simp_all add: event_node_def)
    have i: "cs \<noteq> []" "names_interface i (last cs)" using inv(1) [of i] p(1) by simp_all
    have i10: "i < 10" using named_less [OF i(2)] .
    have s: "scan_entry (prev, n) entry =
        (None, n\<lparr>nd_nodes := (nd_nodes n)[i := Some (lossy node)], nd_available := nd_available n OR IF_BITS ! i\<rparr>)"
      using scan_input [OF one, of prev n] p e by simp
    have uniq: "names_interface j (last cs) \<longleftrightarrow> j = i" for j using i(2) by (auto simp: names_interface_def)
    have ev: "event_node c node' \<longleftrightarrow> node' = node" for node' using p(2) by (auto simp: event_node_def)
    have lp: "listed_pair (cs @ [c]) j node' \<longleftrightarrow> listed_pair cs j node' \<or> j = i \<and> node' = node" for j node'
      using i(1) by (auto simp: listed_pair_snoc uniq ev)
    have no: "\<not> names_interface j c" for j using e(1) by (simp add: names_interface_def)
    show ?thesis unfolding one s scan_inv_def prod.case
    proof (intro conjI allI impI)
      fix j :: nat assume j: "j < 10"
      show "bit (nd_available (n\<lparr>nd_nodes := (nd_nodes n)[i := Some (lossy node)], nd_available := nd_available n OR IF_BITS ! i\<rparr>)) (if_index j)
          \<longleftrightarrow> (\<exists>node'. listed_pair (cs @ [c]) j node')"
        using inv(3) [OF j] bit_IF_BITS [OF i10 j] by (auto simp: lp bit_simps)
      assume "\<exists>node'. listed_pair (cs @ [c]) j node'"
      show "\<exists>node'. listed_pair (cs @ [c]) j node'
          \<and> nd_nodes (n\<lparr>nd_nodes := (nd_nodes n)[i := Some (lossy node)], nd_available := nd_available n OR IF_BITS ! i\<rparr>) ! j = Some (lossy node')"
        using \<open>\<exists>node'. listed_pair (cs @ [c]) j node'\<close> inv(2) inv(4) [OF j] i10
        by (cases "j = i") (auto simp: lp)
    qed (use no inv(2) in simp_all)
  next
    case False
    have s: "scan_entry (prev, n) entry =
        (if starts_with (the (ud_sysname c)) ''input'' then Option.bind (ud_name c) interface_by_name else None, n)"
      using scan_input [OF one, of prev n] False by (auto split: option.splits)
    have same: "listed_pair (cs @ [c]) j node \<longleftrightarrow> listed_pair cs j node" for j node
      using False inv(1) [of j] by (auto simp: listed_pair_snoc)
    show ?thesis unfolding one s scan_inv_def prod.case same
      using inv by (auto simp: names_interface_def)
  qed
qed

lemma input_children_snoc: "input_children (xs @ [x]) = input_children xs @ input_children [x]"
  by (simp add: input_children_def List.map_filter_def)

lemma scan_inv_all: "scan_inv [] st \<Longrightarrow> scan_inv (input_children entries) (foldl scan_entry st entries)"
proof (induction entries rule: rev_induct)
  case (snoc x xs)
  obtain prev n where "foldl scan_entry st xs = (prev, n)" by force
  then show ?case using snoc scan_inv_step [of "input_children xs" prev n x] by (simp add: input_children_snoc)
qed (simp add: input_children_def List.map_filter_simps)

text \<open>
  C28. A scan marks an interface available exactly when the kernel lists an input device of its name directly
  before an event device with a node, and its node is one of those.
\<close>
theorem scan_finds_interfaces:
  assumes "refresh_nodes True True 0 entries old = (None, n)" "length (nd_nodes old) = 10" "i < 10"
  shows "(bit (nd_available n) (if_index i) \<longleftrightarrow> (\<exists>node. listed_pair (input_children entries) i node))
    \<and> (bit (nd_available n) (if_index i) \<longrightarrow>
        (\<exists>node. listed_pair (input_children entries) i node \<and> nd_nodes n ! i = Some (lossy node)))"
proof -
  have "scan_inv [] (None, old\<lparr>nd_available := 0\<rparr>)" using assms(2) by (simp add: scan_inv_def)
  from scan_inv_all [OF this, of entries] show ?thesis
    using assms(1,3) by (auto simp: scan_inv_def refresh_nodes_def)
qed

definition sample_input :: "bytes \<Rightarrow> bytes option \<Rightarrow> bytes option \<Rightarrow> udev_info" where
  "sample_input sysname name node = \<lparr>ud_syspath = None, ud_subsystem = Some ''input'', ud_driver = None,
    ud_sysname = Some sysname, ud_devnode = node, ud_action = None, ud_name = name\<rparr>"

lemma scan_finds_interfaces_witness:
  "\<exists>n. refresh_nodes True True 0
      [(Some ''/i'', Some (sample_input ''input7'' (Some ''Nintendo Wii Remote'') None)),
       (Some ''/e'', Some (sample_input ''event9'' None (Some ''/dev/e'')))] Nodes_default = (None, n)
    \<and> bit (nd_available n) (if_index 0) \<and> nd_nodes n ! 0 = Some ''/dev/e''"
proof -
  let ?x = "sample_input ''input7'' (Some ''Nintendo Wii Remote'') None"
  let ?y = "sample_input ''event9'' None (Some ''/dev/e'')"
  let ?entries = "[(Some ''/i'', Some ?x), (Some ''/e'', Some ?y)] :: udev_entry list"
  obtain n where n: "refresh_nodes True True 0 ?entries Nodes_default = (None, n)" by (simp add: refresh_nodes_def)
  have c: "input_children ?entries = [?x, ?y]" by (simp add: input_children_def List.map_filter_simps sample_input_def)
  have x: "names_interface 0 ?x"
    by (simp add: names_interface_def sample_input_def starts_with_def interface_by_name_def IF_NAMES_def)
  have y: "event_node ?y node \<longleftrightarrow> node = ''/dev/e''" for node by (auto simp: event_node_def sample_input_def starts_with_def)
  have "listed_pair [?x, ?y] 0 node \<longleftrightarrow> node = ''/dev/e''" for node
    using listed_pair_snoc [of "[?x]" ?y 0 node] listed_pair_snoc [of "[]" ?x 0 node] x y by simp
  then have "bit (nd_available n) (if_index 0) \<and> nd_nodes n ! 0 = Some ''/dev/e''"
    using scan_finds_interfaces [OF n, of 0] unfolding c by (simp add: Nodes_default_def sample_paths)
  then show ?thesis using n by blast
qed

end
