(* ===== verification/Device_Invariant.thy ===== *)
theory Device_Invariant
  imports Device_Facts
begin

text \<open>
  The invariant of an open controller (\<open>crates/wiiland-hid/src/device.rs\<close>) and that every
  operation keeps it: an open interface is available and has a node, a closed one has nothing
  pending, the interface and its decoder agree about a dropped report, and the rumble effect
  belongs to an open descriptor.
\<close>

section \<open>What the decoder keeps\<close>

definition dec_same :: "decoder \<Rightarrow> decoder \<Rightarrow> bool" where
  "dec_same d d' \<longleftrightarrow> dec_interface d' = dec_interface d
    \<and> length (rec_key_state (dec_recovery d')) = length (rec_key_state (dec_recovery d))
    \<and> rec_desynced (dec_recovery d') = rec_desynced (dec_recovery d)"

lemma next_key_keeps: "next_key r = (e, r') \<Longrightarrow>
  rec_key_state r' = rec_key_state r \<and> rec_desynced r' = rec_desynced r"
  by (auto simp: next_key_def Let_def split: if_splits option.splits)

lemma take_report_keeps: "take_report r = (e, r') \<Longrightarrow>
  rec_key_state r' = rec_key_state r \<and> rec_desynced r' = rec_desynced r"
  by (auto simp: take_report_def split: if_splits)

lemma push_recovered_same: "dec_same d (snd (push_recovered d))"
proof -
  obtain k r where k: "next_key (dec_recovery d) = (k, r)" by force
  obtain t r' where t: "take_report r = (t, r')" by force
  show ?thesis using next_key_keeps [OF k] take_report_keeps [OF t] k t
    by (auto simp: push_recovered_def dec_same_def split: option.split)
qed

lemma take_recovered_same: "take_recovered d = (e, d') \<Longrightarrow> dec_same d d'"
proof (induction d rule: take_recovered.induct)
  case (1 d)
  obtain o1 d1 where p: "push_recovered d = (o1, d1)" by force
  then have s: "dec_same d d1" using push_recovered_same [of d] by simp
  show ?case
  proof (cases "has_pending (dec_recovery d) \<and> o1 = None")
    case True
    then have hp: "has_pending (dec_recovery d)" and o1: "o1 = None" by simp_all
    then have "take_recovered d1 = (e, d')"
      using "1.prems" p by (simp add: take_recovered.simps [of d])
    then show ?thesis using "1.IH" [OF hp p [symmetric] o1] s by (simp add: dec_same_def)
  next
    case False
    then show ?thesis using "1.prems" p s
      by (auto simp: take_recovered.simps [of d] dec_same_def split: if_splits option.splits)
  qed
qed

lemma decoder_push_same:
  assumes "ie_type e \<noteq> EV_SYN \<or> ie_code e \<noteq> SYN_DROPPED"
  shows "dec_same d (snd (decoder_push d e))"
  using assms by (auto simp: decoder_push_def dec_same_def remember_def Let_def)


section \<open>The invariant\<close>

definition interface_ok :: "nat \<Rightarrow> input_interface \<Rightarrow> bool" where
  "interface_ok j x \<longleftrightarrow> dec_interface (ii_decoder x) = INTERFACE_KINDS ! j \<and> decoder_ok (ii_decoder x)
    \<and> ii_awaiting_sync x = rec_desynced (dec_recovery (ii_decoder x))
    \<and> (if ii_fd x < 0 then \<not> input_pending x \<and> \<not> ii_awaiting_sync x else ii_available x \<and> ii_node x \<noteq> None)"

definition rumble_ok :: "hid_interface \<Rightarrow> bool" where
  "rumble_ok d \<longleftrightarrow> (hi_rumble_fd d \<ge> 0 \<longrightarrow>
    ii_fd (hi_inputs d ! 0) = hi_rumble_fd d \<or> ii_fd (hi_inputs d ! 7) = hi_rumble_fd d)"

definition device_ok :: "hid_interface \<Rightarrow> bool" where
  "device_ok d \<longleftrightarrow> ten d \<and> (\<forall>j < 10. interface_ok j (hi_inputs d ! j)) \<and> rumble_ok d"

lemma device_ok_cong:
  "hi_inputs d' = hi_inputs d \<Longrightarrow> hi_rumble_fd d' = hi_rumble_fd d \<Longrightarrow> device_ok d' = device_ok d"
  by (simp add: device_ok_def ten_def rumble_ok_def)

lemma device_ok_fields [simp]:
  "device_ok (d\<lparr>hi_nodes := ns\<rparr>) = device_ok d" "device_ok (d\<lparr>hi_available := m\<rparr>) = device_ok d"
  "device_ok (d\<lparr>hi_monitor := b\<rparr>) = device_ok d" "device_ok (d\<lparr>hi_next_input := n\<rparr>) = device_ok d"
  "device_ok (d\<lparr>hi_gone := b\<rparr>) = device_ok d" "device_ok (d\<lparr>hi_wake := b\<rparr>) = device_ok d"
  by (simp_all add: device_ok_def ten_def rumble_ok_def)

lemma device_ok_set:
  assumes "device_ok d" "interface_ok i x"
    and "ii_fd x = ii_fd (hi_inputs d ! i) \<or> ii_fd (hi_inputs d ! i) < 0"
  shows "device_ok (set_input d i x)"
proof -
  have t: "length (hi_inputs d) = 10" using assms(1) by (simp add: device_ok_def ten_def)
  have "rumble_ok d" "\<forall>j < 10. interface_ok j (hi_inputs d ! j)" using assms(1) by (auto simp: device_ok_def)
  then have "rumble_ok (set_input d i x)"
    using assms(3) t by (cases "i < 10") (auto simp: rumble_ok_def set_input_def nth_list_update)
  then show ?thesis using assms(1,2) t
    by (cases "i < 10") (auto simp: device_ok_def ten_def set_input_def nth_list_update)
qed

lemma reset_decoder_ok:
  "interface_ok i x \<Longrightarrow> interface_ok i (reset_decoder x)"
  by (auto simp: interface_ok_def reset_decoder_def Decoder_new_def RecoveryState_default_def
      decoder_ok_def input_pending_def has_pending_def)

lemma input_close_ok: "interface_ok i x \<Longrightarrow> interface_ok i (input_close x)"
  by (auto simp: interface_ok_def input_close_def reset_decoder_def Decoder_new_def
      RecoveryState_default_def decoder_ok_def input_pending_def has_pending_def)

lemma device_ok_input: "device_ok d \<Longrightarrow> i < 10 \<Longrightarrow> interface_ok i (hi_inputs d ! i)"
  by (simp add: device_ok_def)

lemma device_ok_close_one:
  assumes "device_ok d" "i < 10"
  shows "device_ok (close_one m d i)"
proof -
  let ?x = "hi_inputs d ! i"
  let ?d = "if hi_rumble_fd d = ii_fd ?x then d\<lparr>hi_rumble_fd := - 1, hi_rumble_id := - 1\<rparr> else d"
  have t: "length (hi_inputs d) = 10" using assms(1) by (simp add: device_ok_def ten_def)
  have "rumble_ok (set_input ?d i (input_close ?x))"
    using assms t by (auto simp: device_ok_def rumble_ok_def set_input_def nth_list_update)
  then have "device_ok (set_input ?d i (input_close ?x))"
    using assms t input_close_ok [OF device_ok_input [OF assms]]
    by (auto simp: device_ok_def ten_def set_input_def nth_list_update)
  then show ?thesis using assms(1) by (simp add: close_one_def Let_def)
qed

lemma device_ok_close: "device_ok d \<Longrightarrow> device_ok (close_interfaces d m)"
  unfolding close_interfaces_def
  by (rule foldl_keeps [where P = device_ok]) (auto intro: device_ok_close_one)

lemma open_one_ok:
  assumes "device_ok d" "i < 10"
  shows "device_ok (fst (open_one env w m (d, first) i))"
proof -
  let ?x = "hi_inputs d ! i"
  note ok = device_ok_input [OF assms]
  show ?thesis
  proof (cases "m AND IF_BITS ! i = 0 \<or> ii_fd ?x \<ge> 0 \<or> \<not> ii_available ?x \<or> ii_node ?x = None")
    case True
    then show ?thesis using assms by (auto simp: open_one_def Let_def)
  next
    case False
    then have c: "ii_fd ?x < 0" "ii_available ?x" "ii_node ?x \<noteq> None" by auto
    have ok2: "interface_ok i ((reset_decoder ?x)\<lparr>ii_decoder := decoder_seed_state (ii_decoder (reset_decoder ?x)) ks as, ii_fd := fd\<rparr>)"
      for ks as fd
      using ok c by (auto simp: interface_ok_def reset_decoder_def Decoder_new_def decoder_seed_state_def
          recovery_initialize_def decoder_ok_def input_pending_def has_pending_def)
    have set: "device_ok (set_input d i y)" if "interface_ok i y" for y
      using device_ok_set [OF assms(1) that] c by simp
    have up: "device_ok (upload_rumble env (set_input d i y) i (ii_fd y))" if "interface_ok i y" "i = 0 \<or> i = 7" for y
      using set [OF that(1)] assms(1) that(2)
      by (auto simp: upload_rumble_def device_ok_def ten_def rumble_ok_def set_input_def split: option.split)
    show ?thesis
      using False assms ok2 set up [OF ok2] input_close_ok
      by (auto simp: open_one_def Let_def split: sum.split prod.split option.split)
  qed
qed

lemma device_ok_open: "device_ok d \<Longrightarrow> device_ok (fst (open_interfaces env d m))"
proof -
  assume "device_ok d"
  then have "device_ok (fst (foldl (open_one env (m AND WRITABLE \<noteq> 0) (m AND ALL_INTERFACES)) (d, 0) [0..<10]))"
    by (intro foldl_keeps [where P = "\<lambda>s. device_ok (fst s)"]) (auto intro: open_one_ok)
  then show ?thesis by (simp add: open_interfaces_def split_beta)
qed

lemma device_ok_refresh_one:
  assumes "device_ok d" "i < 10"
  shows "device_ok (refresh_one d i)"
proof -
  let ?x = "hi_inputs d ! i" and ?av = "hi_available d AND IF_BITS ! i \<noteq> 0" and ?node = "hi_nodes d ! i"
  define t where "t = (if refresh_requires_close (ii_fd ?x) (ii_node ?x) ?node ?av
    then close_interfaces d (IF_BITS ! i) else d)"
  let ?y = "(hi_inputs t ! i)\<lparr>ii_available := ?av, ii_node := ?node\<rparr>"
  have ten: "ten d" using assms(1) by (simp add: device_ok_def)
  have t: "device_ok t" using assms(1) by (simp add: t_def device_ok_close)
  have open_kept: "?av \<and> ?node \<noteq> None" if "ii_fd (hi_inputs t ! i) \<ge> 0"
  proof -
    have nc: "\<not> refresh_requires_close (ii_fd ?x) (ii_node ?x) ?node ?av"
    proof
      assume r: "refresh_requires_close (ii_fd ?x) (ii_node ?x) ?node ?av"
      then have "ii_fd ?x \<ge> 0" by (simp add: refresh_requires_close_def)
      then have "hi_inputs t ! i = input_close ?x"
        using r close_only [OF ten assms(2)] ten assms(2) by (simp add: t_def ten_def)
      then show False using that by simp
    qed
    then have "ii_node ?x \<noteq> None" "hi_inputs t ! i = ?x"
      using that device_ok_input [OF assms] by (auto simp: t_def interface_ok_def)
    then show ?thesis using nc that by (auto simp: refresh_requires_close_def)
  qed
  have "interface_ok i ?y" using open_kept device_ok_input [OF t assms(2)]
    by (auto simp: interface_ok_def input_pending_def)
  then have "device_ok (set_input t i ?y)" using device_ok_set [OF t] by simp
  then show ?thesis by (simp add: refresh_one_def Let_def t_def)
qed

lemma device_ok_refresh: "device_ok d \<Longrightarrow> hid_refresh scan d = (e, d') \<Longrightarrow> device_ok d'"
  using foldl_keeps [where P = device_ok and f = refresh_one and ?is = "[0..<10]"] device_ok_refresh_one
  by (auto simp: hid_refresh_def split: sum.splits prod.splits)

lemma MASK_ALL_bits: "i < 10 \<Longrightarrow> bit MASK_ALL (if_index i)"
  by (drule ten_cases) (elim disjE; simp add: MASK_ALL_def if_index_def)

lemma close_all: "ten d \<Longrightarrow> i < 10 \<Longrightarrow> ii_fd (hi_inputs (close_interfaces d MASK_ALL) ! i) < 0"
  using close_interfaces_inputs [of d MASK_ALL] MASK_ALL_bits [of i]
  by (auto simp: close_input_def)

lemma device_ok_gone:
  assumes "device_ok d"
  shows "device_ok (forget_nodes (close_interfaces (d\<lparr>hi_gone := True, hi_available := 0\<rparr>) MASK_ALL))"
proof -
  let ?c = "close_interfaces (d\<lparr>hi_gone := True, hi_available := 0\<rparr>) MASK_ALL"
  have c: "device_ok ?c" using assms by (intro device_ok_close) simp
  then have "ii_fd (hi_inputs ?c ! i) < 0" if "i < 10" for i
    using that close_all assms by (simp add: device_ok_def ten_def)
  then show ?thesis using c
    by (auto simp: device_ok_def forget_nodes_def ten_def rumble_ok_def interface_ok_def input_pending_def)
qed

lemma device_ok_monitor_loop: "device_ok d \<Longrightarrow> monitor_loop root evs d = (r, d') \<Longrightarrow> device_ok d'"
proof (induction root evs d rule: monitor_loop.induct)
  case (2 root ev scan evs d)
  then show ?case
    by (auto split: if_splits option.splits prod.splits intro: device_ok_gone dest: device_ok_refresh)
qed simp

lemma device_ok_monitor:
  "device_ok d \<Longrightarrow> monitor_epoll_event events root evs d = (r, d') \<Longrightarrow> device_ok d'"
  by (auto simp: monitor_epoll_event_def monitor_event_def
      split: if_splits prod.splits sum.splits option.splits dest: device_ok_monitor_loop)

lemma device_ok_failure: "device_ok d \<Longrightarrow> failure_watch scan i d = (r, d') \<Longrightarrow> device_ok d'"
  unfolding failure_watch_def
  using device_ok_refresh [OF device_ok_close, of d scan "IF_BITS ! i"] by (metis prod.collapse snd_conv)

lemma recover_same:
  "dec_interface (decoder_recover d ks as t) = dec_interface d \<and> decoder_ok (decoder_recover d ks as t)
    \<and> \<not> rec_desynced (dec_recovery (decoder_recover d ks as t))"
  by (simp add: decoder_recover_def recovery_seed_def Let_def decoder_ok_def)

lemma device_ok_read_event:
  assumes "device_ok d" "i < 10" "ii_fd (hi_inputs d ! i) \<ge> 0" "read_event env i e d = (r, d')"
  shows "device_ok d'"
proof -
  let ?x = "hi_inputs d ! i"
  have ok: "interface_ok i ?x" using assms(1,2) by (rule device_ok_input)
  have upd: "device_ok (set_input d i y)"
    if "interface_ok i y" "ii_fd y = ii_fd ?x" for y using device_ok_set [OF assms(1) that(1)] that(2) by simp
  show ?thesis
  proof (cases "ii_awaiting_sync ?x")
    case True
    show ?thesis
    proof (cases "de_recovery env i")
      case (Inl err)
      then show ?thesis using assms True device_ok_failure
        by (auto simp: read_event_def Let_def split: if_splits)
    next
      case (Inr ka)
      obtain keys axes where ka: "ka = (keys, axes)" by force
      obtain ev dec where t: "take_recovered (decoder_recover (ii_decoder ?x) keys axes (ie_time e)) = (ev, dec)"
        by force
      have "interface_ok i (?x\<lparr>ii_decoder := dec, ii_awaiting_sync := False\<rparr>)"
        using ok assms(3) take_recovered_same [OF t] recover_same [of "ii_decoder ?x" keys axes "ie_time e"]
        by (auto simp: interface_ok_def dec_same_def decoder_ok_def)
      then show ?thesis using assms True Inr ka t upd
        by (auto simp: read_event_def Let_def split: if_splits)
    qed
  next
    case False
    show ?thesis
    proof (cases "ie_type e = EV_SYN \<and> ie_code e = SYN_DROPPED")
      case True
      then have "interface_ok i (?x\<lparr>ii_decoder := snd (decoder_push (ii_decoder ?x) e), ii_awaiting_sync := True\<rparr>)"
        using ok assms(3) False
        by (auto simp: interface_ok_def decoder_push_def recovery_dropped_def decoder_ok_def)
      then show ?thesis using assms False True upd by (auto simp: read_event_def Let_def)
    next
      case nd: False
      obtain ev dec where p: "decoder_push (ii_decoder ?x) e = (ev, dec)" by force
      have "interface_ok i (?x\<lparr>ii_decoder := dec\<rparr>)"
        using ok assms(3) False decoder_push_same [of e "ii_decoder ?x"] nd p
        by (auto simp: interface_ok_def dec_same_def decoder_ok_def)
      then show ?thesis using assms False nd p upd
        by (auto simp: read_event_def Let_def set_decoder_def)
    qed
  qed
qed

lemma device_ok_read_one:
  assumes "device_ok d" "i < 10" "read_one env i d = (r, d')"
  shows "device_ok d'"
proof (cases "ii_fd (hi_inputs d ! i) < 0")
  case False
  then have "read_loop_one env i rs d = (r, d') \<Longrightarrow> device_ok d'" for rs
    using assms(1,2) by (induction env i rs d rule: read_loop_one.induct)
      (auto split: raw_read.splits intro: device_ok_read_event device_ok_failure)
  then show ?thesis using False assms by (simp add: read_one_def)
qed (use assms in \<open>simp add: read_one_def\<close>)

lemma device_ok_after: "device_ok d \<Longrightarrow> device_ok (after_event i d)"
  by (simp add: after_event_def signal_recovery_if_pending_def)

lemma device_ok_epoll: "device_ok d \<Longrightarrow> device_ok (snd (epoll_loop env eps d))"
proof (induction env eps d rule: epoll_loop.induct)
  case (2 env tag events eps d)
  show ?case
  proof (cases "tag = MONITOR_EPOLL_TAG")
    case True
    obtain m d1 where m: "monitor_epoll_event events (de_root env) (de_udev env) d = (m, d1)" by force
    then have "device_ok d1" using device_ok_monitor "2.prems" by blast
    then show ?thesis using "2.IH"(1) [OF True m [symmetric]] m True
      by (auto split: sum.splits option.splits)
  next
    case nm: False
    show ?thesis
    proof (cases "tag = RECOVERY_EPOLL_TAG \<or> epoll_input_index tag 10 = None")
      case True
      then show ?thesis using 2 nm by (auto split: if_splits)
    next
      case False
      then obtain i where i: "epoll_input_index tag 10 = Some i" "tag \<noteq> RECOVERY_EPOLL_TAG" by auto
      obtain m d1 where m: "read_one env i d = (m, d1)" by force
      have "i < 10" using i(1) by (auto simp: epoll_input_index_def split: if_splits)
      then have s: "device_ok d1" using device_ok_read_one "2.prems"(1) m by blast
      show ?thesis using "2.IH"(4) [OF nm i(2) i(1) m [symmetric]] m nm i s
        by (cases m) (auto simp: device_ok_after)
    qed
  qed
qed simp

lemma device_ok_scan:
  "device_ok d \<Longrightarrow> list_all (\<lambda>i. i < 10) is \<Longrightarrow> device_ok (snd (recovered_scan is d))"
proof (induction "is" arbitrary: d)
  case (Cons i "is")
  obtain m dec where t: "take_recovered (ii_decoder (hi_inputs d ! i)) = (m, dec)" by force
  have "interface_ok i ((hi_inputs d ! i)\<lparr>ii_decoder := dec\<rparr>)"
  proof (cases "ii_fd (hi_inputs d ! i) < 0")
    case True
    then have "dec = ii_decoder (hi_inputs d ! i)"
      using device_ok_input [of d i] Cons.prems t
      by (auto simp: interface_ok_def input_pending_def take_recovered.simps [of "ii_decoder (hi_inputs d ! i)"])
    then show ?thesis using device_ok_input [of d i] Cons.prems by simp
  next
    case False
    then show ?thesis using device_ok_input [of d i] Cons.prems take_recovered_same [OF t]
      by (auto simp: interface_ok_def dec_same_def decoder_ok_def)
  qed
  then have "device_ok (set_decoder d i dec)"
    using device_ok_set [of d i] Cons.prems by (simp add: set_decoder_def)
  then show ?case using Cons.IH Cons.prems t by (cases m) simp_all
qed simp

lemma device_ok_dispatch: "device_ok d \<Longrightarrow> device_ok (snd (dispatch env d))"
proof -
  assume d: "device_ok d"
  let ?order = "map (\<lambda>offset. (hi_next_input d + offset) mod 10) [0..<10]"
  obtain r d1 where r: "recovered_scan ?order (d\<lparr>hi_wake := False\<rparr>) = (r, d1)" by force
  have "device_ok d1"
    using device_ok_scan [of "d\<lparr>hi_wake := False\<rparr>" ?order] d r by (simp add: list_all_iff)
  then show ?thesis using r device_ok_after device_ok_epoll
    by (auto simp: dispatch_def split: option.split sum.split prod.split)
qed

lemma device_ok_normalization: "device_ok d \<Longrightarrow> device_ok (set_mp_normalization d x y z f)"
  using device_ok_input [of d 3]
  by (auto simp: set_mp_normalization_def Let_def set_decoder_def interface_ok_def decoder_ok_def input_pending_def
      intro!: device_ok_set)


section \<open>Histories\<close>

datatype hid_op =
    HidOpen open_env interface_mask
  | HidClose interface_mask
  | HidWatch bool "int option"
  | HidDispatch dispatch_env
  | HidNormalize int int int int

fun hid_step :: "hid_op \<Rightarrow> hid_interface \<Rightarrow> hid_interface" where
  "hid_step (HidOpen env m) d = fst (open_interfaces env d m)"
| "hid_step (HidClose m) d = close_interfaces d m"
| "hid_step (HidWatch enabled setup) d = snd (hid_watch enabled setup d)"
| "hid_step (HidDispatch env) d = snd (dispatch env d)"
| "hid_step (HidNormalize x y z f) d = set_mp_normalization d x y z f"

inductive hid_reachable :: "hid_interface \<Rightarrow> bool" where
  created: "hid_refresh scan Interface_start = (None, d) \<Longrightarrow> hid_reachable d"
| operated: "hid_reachable d \<Longrightarrow> hid_reachable (hid_step op d)"

lemma device_ok_start: "device_ok Interface_start"
  by (auto simp: device_ok_def ten_def Interface_start_def rumble_ok_def interface_ok_def InputInterface_new_def
      Decoder_new_def RecoveryState_default_def decoder_ok_def input_pending_def has_pending_def)

lemma hid_step_ok: "device_ok d \<Longrightarrow> device_ok (hid_step op d)"
  by (cases op) (auto simp: hid_watch_def device_ok_open device_ok_close device_ok_dispatch
      device_ok_normalization split: option.split)

lemma reachable_ok: "hid_reachable d \<Longrightarrow> device_ok d"
  by (induction rule: hid_reachable.induct) (auto intro: device_ok_refresh device_ok_start hid_step_ok)

lemma drop_closes:
  assumes "device_ok d"
  shows "opened (hid_drop d) = 0 \<and> hi_rumble_fd (hid_drop d) < 0"
proof -
  let ?c = "close_interfaces d MASK_ALL"
  have t: "ten d" using assms by (simp add: device_ok_def)
  have fields: "hi_inputs (hid_drop d) = hi_inputs ?c" "hi_rumble_fd (hid_drop d) = hi_rumble_fd ?c"
    by (simp_all add: hid_drop_def hid_watch_def)
  have closed: "\<not> 0 \<le> ii_fd (hi_inputs ?c ! j)" if "j < 10" for j using close_all [OF t that] by simp
  then have "opened (hid_drop d) = 0" by (auto simp: opened_zero fields(1) not_le)
  moreover have "rumble_ok ?c" using device_ok_close [OF assms] by (simp add: device_ok_def)
  ultimately show ?thesis using closed [of 0] closed [of 7] unfolding fields(2) rumble_ok_def
    by linarith
qed

end
