(* ===== verification/Device_Properties.thy ===== *)
theory Device_Properties
  imports Device_Invariant
begin

text \<open>
  The properties of an open controller (\<open>crates/wiiland-hid/src/device.rs\<close>): opening, closing,
  refreshing, removal, and the fair and unforgotten replay of \<open>dispatch\<close>.
\<close>

section \<open>Fair replay\<close>

definition turn :: "hid_interface \<Rightarrow> nat \<Rightarrow> nat" where
  "turn d j = (j + (10 - hi_next_input d mod 10)) mod 10"

lemma turn_input: "j < 10 \<Longrightarrow> (hi_next_input d + turn d j) mod 10 = j"
proof -
  assume j: "j < 10"
  have "(hi_next_input d + turn d j) mod 10 = (hi_next_input d mod 10 + (j + (10 - hi_next_input d mod 10))) mod 10"
    unfolding turn_def by (simp only: mod_add_left_eq mod_add_right_eq)
  moreover have "hi_next_input d mod 10 + (j + (10 - hi_next_input d mod 10)) = j + 10"
    using mod_less_divisor [of 10 "hi_next_input d"] by linarith
  ultimately show ?thesis using j by simp
qed

lemma turn_less: "turn d j < 10"
  by (simp add: turn_def)

lemma shifted_distinct: "a < b \<Longrightarrow> b < 10 \<Longrightarrow> (n + a) mod 10 \<noteq> (n + b) mod (10::nat)"
proof
  assume ab: "a < b" "b < 10" and "(n + a) mod 10 = (n + b) mod (10::nat)"
  then have "10 dvd (n + b) - (n + a)" using mod_eq_dvd_iff_nat [of "n + a" "n + b" 10] by simp
  then show False using ab by (auto dest: dvd_imp_le)
qed

lemma turn_after:
  assumes "j < 10" "k < turn d j" "hi_next_input d' = ((hi_next_input d + k) mod 10 + 1) mod 10"
  shows "turn d' j < turn d j"
proof -
  let ?n = "hi_next_input d" and ?t = "turn d j"
  have t: "(?n + ?t) mod 10 = j" "?t < 10" using turn_input assms(1) turn_less by blast+
  have n': "hi_next_input d' = (?n + k + 1) mod 10"
    using assms(3) by (simp add: mod_Suc_eq)
  have "(hi_next_input d' + turn d' j) mod 10 = (hi_next_input d' + (?t - k - 1)) mod 10"
  proof -
    have "(hi_next_input d' + (?t - k - 1)) mod 10 = (?n + k + 1 + (?t - k - 1)) mod 10"
      unfolding n' by (simp only: mod_add_left_eq)
    also have "?n + k + 1 + (?t - k - 1) = ?n + ?t" using assms(2) by linarith
    finally show ?thesis using t turn_input [OF assms(1)] by simp
  qed
  then have "turn d' j = ?t - k - 1"
    using shifted_distinct [of "turn d' j" "?t - k - 1" "hi_next_input d'"]
      shifted_distinct [of "?t - k - 1" "turn d' j" "hi_next_input d'"] t(2) turn_less [of d' j]
    by linarith
  then show ?thesis using assms(2) by linarith
qed

lemma after_event_fields [simp]:
  "hi_inputs (after_event i d) = hi_inputs d" "hi_next_input (after_event i d) = (i + 1) mod 10"
  by (simp_all add: after_event_def signal_recovery_if_pending_def)

lemma dispatch_replays:
  assumes "ten d" "j < 10" "take_recovered (ii_decoder (hi_inputs d ! j)) = (Some ev, dec)"
  obtains e d' where "dispatch env d = (Inr e, d')" "ten d'"
    "e = ev \<and> ii_decoder (hi_inputs d' ! j) = dec
     \<or> turn d' j < turn d j \<and> hi_inputs d' ! j = hi_inputs d ! j"
proof -
  let ?n = "hi_next_input d" and ?t = "turn d j"
  let ?pre = "map (\<lambda>k. (?n + k) mod 10) [0..<?t]" and ?post = "map (\<lambda>k. (?n + k) mod 10) [Suc ?t..<10]"
  let ?d = "d\<lparr>hi_wake := False\<rparr>"
  have "[0..<10] = [0..<?t] @ ?t # [Suc ?t..<10]"
    using upt_add_eq_append [of 0 ?t "10 - ?t"] turn_less [of d j] by (simp add: upt_conv_Cons)
  then have order: "map (\<lambda>k. (?n + k) mod 10) [0..<10] = ?pre @ j # ?post"
    using turn_input [OF assms(2), of d] by simp
  have pre: "list_all (\<lambda>i. i < 10 \<and> i \<noteq> j) ?pre"
    using shifted_distinct [of _ ?t ?n] turn_input [OF assms(2), of d] turn_less [of d j]
    by (auto simp: list_all_iff)
  have "ten ?d" "take_recovered (ii_decoder (hi_inputs ?d ! j)) = (Some ev, dec)"
    using assms by (simp_all add: ten_def)
  from recovered_scan_serves [OF this(1) assms(2) this(2) pre, of ?post] obtain i e d1 where
    r: "recovered_scan (?pre @ j # ?post) ?d = (Some (i, e), d1)" "ten d1" "hi_next_input d1 = ?n"
      "i = j \<and> e = ev \<and> ii_decoder (hi_inputs d1 ! j) = dec
       \<or> i \<in> set ?pre \<and> hi_inputs d1 ! j = hi_inputs d ! j"
    by fastforce
  have "dispatch env d = (Inr e, after_event i d1)"
    unfolding dispatch_def order r(1) by simp
  moreover have "turn (after_event i d1) j < ?t" if "i \<in> set ?pre"
    using that turn_after [OF assms(2)] by auto
  ultimately show thesis using r(2,4) by (intro that [of e "after_event i d1"]) (auto simp: ten_def)
qed

primrec dispatches :: "(nat \<Rightarrow> dispatch_env) \<Rightarrow> nat \<Rightarrow> hid_interface \<Rightarrow> hid_interface" where
  "dispatches envs 0 d = d"
| "dispatches envs (Suc k) d = dispatches (\<lambda>i. envs (Suc i)) k (snd (dispatch (envs 0) d))"

lemma replay_within_turn:
  assumes "ten d" "j < 10" "take_recovered (ii_decoder (hi_inputs d ! j)) = (Some ev, dec)"
  shows "\<exists>k \<le> turn d j. fst (dispatch (envs k) (dispatches envs k d)) = Inr ev
    \<and> ii_decoder (hi_inputs (dispatches envs (Suc k) d) ! j) = dec"
  using assms
proof (induction "turn d j" arbitrary: d envs rule: less_induct)
  case less
  from dispatch_replays [OF less.prems, of "envs 0"] obtain e d' where
    d': "dispatch (envs 0) d = (Inr e, d')" "ten d'"
      "e = ev \<and> ii_decoder (hi_inputs d' ! j) = dec
       \<or> turn d' j < turn d j \<and> hi_inputs d' ! j = hi_inputs d ! j" .
  show ?case
  proof (cases "e = ev \<and> ii_decoder (hi_inputs d' ! j) = dec")
    case True
    then show ?thesis using d'(1) by (intro exI [of _ 0]) simp
  next
    case False
    then have t: "turn d' j < turn d j" "hi_inputs d' ! j = hi_inputs d ! j" using d'(3) by auto
    from less.hyps [OF t(1) d'(2), of "\<lambda>i. envs (Suc i)"] less.prems t(2) obtain k where
      "k \<le> turn d' j" "fst (dispatch (envs (Suc k)) (dispatches (\<lambda>i. envs (Suc i)) k d')) = Inr ev"
      "ii_decoder (hi_inputs (dispatches (\<lambda>i. envs (Suc i)) (Suc k) d') ! j) = dec" by auto
    then show ?thesis using t(1) d'(1) by (intro exI [of _ "Suc k"]) simp
  qed
qed

section \<open>Removal\<close>

definition departed :: "hid_interface \<Rightarrow> bool" where
  "departed d \<longleftrightarrow> still d \<and> hi_gone d \<and> opened d = 0 \<and> (\<forall>j < 10. \<not> ii_available (hi_inputs d ! j))"

lemma departed_monitor_loop: "hi_gone d \<Longrightarrow> monitor_loop root evs d = (Inr None, d)"
  by (induction root evs d rule: monitor_loop.induct) (simp_all split: option.split)

lemma departed_monitor:
  assumes "hi_gone d"
  shows "monitor_epoll_event events root evs d =
    (case (monitor_epoll_status events) of Some e \<Rightarrow> (Inl e, d) | None \<Rightarrow> (Inr None, d))"
  using departed_monitor_loop [OF assms] by (simp add: monitor_epoll_event_def monitor_event_def)

lemma departed_epoll: "departed d \<Longrightarrow> \<exists>e. epoll_loop env eps d = (Inl e, d)"
proof (induction env eps d rule: epoll_loop.induct)
  case (2 env tag events eps d)
  have gone: "hi_gone d" and closed: "i < 10 \<Longrightarrow> ii_fd (hi_inputs d ! i) < 0" for i
    using "2.prems" by (auto simp: departed_def opened_zero)
  show ?case
  proof (cases "tag = MONITOR_EPOLL_TAG")
    case True
    then show ?thesis using 2 departed_monitor [OF gone]
      by (cases "monitor_epoll_status events") auto
  next
    case False
    then show ?thesis using 2 closed
      by (auto simp: read_one_def epoll_input_index_def split: option.split)
  qed
qed simp

lemma still_scan: "still d \<Longrightarrow> list_all (\<lambda>i. i < 10) is \<Longrightarrow> recovered_scan is d = (None, d)"
proof (induction "is")
  case (Cons i "is")
  have "\<not> input_pending (hi_inputs d ! i)" using Cons.prems by (simp add: still_nth)
  then have "take_recovered (ii_decoder (hi_inputs d ! i)) = (None, ii_decoder (hi_inputs d ! i))"
    by (subst take_recovered.simps) (simp add: input_pending_def)
  moreover have "set_decoder d i (ii_decoder (hi_inputs d ! i)) = d"
    by (simp add: set_decoder_def set_input_def)
  ultimately show ?case using Cons by simp
qed simp

lemma departed_dispatch:
  assumes "departed d"
  shows "\<exists>e. dispatch env d = (Inl e, d\<lparr>hi_wake := False\<rparr>)"
proof -
  let ?d = "d\<lparr>hi_wake := False\<rparr>"
  have dep: "departed ?d" using assms by (simp add: departed_def opened_def)
  have "recovered_scan (map (\<lambda>k. (hi_next_input d + k) mod 10) [0..<10]) ?d = (None, ?d)"
    by (rule still_scan) (use dep in \<open>auto simp: departed_def list_all_iff\<close>)
  then show ?thesis using departed_epoll [OF dep]
    by (cases "de_epoll env") (auto simp: dispatch_def)
qed

lemma departed_dispatches: "departed d \<Longrightarrow> departed (dispatches envs k d)"
proof (induction k arbitrary: d envs)
  case (Suc k)
  then show ?case using departed_dispatch [OF Suc.prems, of "envs 0"]
    by (auto simp: departed_def opened_def intro!: Suc.IH)
qed simp

lemma departed_open:
  assumes "departed d" "open_interfaces env d m = (d', first, bits)"
  shows "bits = 0"
proof -
  have "fst (open_input env w m j (hi_inputs d ! j)) = hi_inputs d ! j" if "j < 10" for j w
    using that assms(1) by (auto simp: open_input_def departed_def)
  then show ?thesis using open_interfaces_inputs [OF _ assms(2)] assms(1)
    by (simp add: departed_def still_def opened_zero)
qed


section \<open>Properties\<close>

text \<open>
  C24. A lossless wake-up: whatever the kernel answers, when \<open>dispatch\<close> returns while events still
  wait to be replayed, the wake descriptor is signalled, so a client that polls the descriptor
  calls \<open>dispatch\<close> again and no recovered event is stranded.
\<close>

theorem dispatch_signals_pending:
  assumes "length (hi_inputs d) = 10" "recovery_pending (snd (dispatch env d))"
  shows "hi_wake (snd (dispatch env d))"
proof -
  let ?order = "map (\<lambda>offset. (hi_next_input d + offset) mod 10) [0..<10]"
  obtain r d1 where r: "recovered_scan ?order (d\<lparr>hi_wake := False\<rparr>) = (r, d1)" by force
  have "woken (snd (dispatch env d))"
  proof (cases r)
    case None
    then have st: "still d1"
      using recovered_scan_still [of "d\<lparr>hi_wake := False\<rparr>"] r assms(1) by (simp add: ten_def)
    show ?thesis
    proof (cases "de_epoll env")
      case (Inl e)
      then show ?thesis using None r st by (simp add: dispatch_def still_woken)
    next
      case (Inr eps)
      then show ?thesis
        using None r epoll_loop_woken [OF st, of env "take 32 eps"]
        by (simp add: dispatch_def) (metis prod.collapse)
    qed
  next
    case (Some p)
    then show ?thesis using r after_event_woken by (cases p) (simp add: dispatch_def)
  qed
  then show ?thesis using assms(2) by (simp add: woken_def)
qed

text \<open>
  C12. Replay is fair: an interface with an event to replay has it delivered by one of the next ten
  calls of \<open>dispatch\<close>, whatever the kernel answers and however many events the other interfaces
  have to replay.
\<close>

theorem replay_not_starved:
  assumes "length (hi_inputs d) = 10" "j < 10"
    and "take_recovered (ii_decoder (hi_inputs d ! j)) = (Some ev, dec)"
  shows "\<exists>k < 10. fst (dispatch (envs k) (dispatches envs k d)) = Inr ev
    \<and> ii_decoder (hi_inputs (dispatches envs (Suc k) d) ! j) = dec"
  using replay_within_turn [of d j ev dec envs] assms turn_less [of d j]
  by (auto simp: ten_def dest: le_less_trans)

text \<open>
  Opening is exact: the returned mask is what is open; what was open stays as it was; nothing
  is opened that was not asked for; and when no error is reported every requested interface is
  open.
\<close>

theorem open_interfaces_exact:
  assumes "length (hi_inputs d) = 10" "open_interfaces env d m = (d', first, bits)"
    and "\<And>i w fd. oe_node env i w = Inr fd \<Longrightarrow> fd \<ge> 0"
    and "\<And>i w e. oe_node env i w = Inl e \<Longrightarrow> e \<noteq> 0" "\<And>i e. oe_initial env i = Inl e \<Longrightarrow> e \<noteq> 0"
    and "\<And>i e. oe_epoll env i = Some e \<Longrightarrow> e \<noteq> 0"
  shows "bits = opened d' \<and> opened d AND bits = opened d \<and> bits AND NOT (opened d OR m) = 0
    \<and> (\<forall>j < 10. bit (opened d) (if_index j) \<longrightarrow> hi_inputs d' ! j = hi_inputs d ! j)
    \<and> (first = 0 \<longrightarrow> m AND ALL_INTERFACES AND NOT bits = 0)"
proof -
  let ?w = "m AND WRITABLE \<noteq> 0"
  have o: "bits = opened d'"
      "j < 10 \<Longrightarrow> hi_inputs d' ! j = fst (open_input env ?w m j (hi_inputs d ! j))"
      "first = 0 \<longleftrightarrow> (\<forall>j < 10. snd (open_input env ?w m j (hi_inputs d ! j)) = 0)" for j
    using open_interfaces_inputs [OF _ assms(2)] assms(1) by (auto simp: ten_def)
  have kept: "ii_fd x \<ge> 0 \<Longrightarrow> fst (open_input env w m j x) = x" for w j x
    by (simp add: open_input_def)
  have asked: "\<not> bit m (if_index j) \<Longrightarrow> fst (open_input env w m j x) = x" for w j x
    by (simp add: open_input_def)
  have done': "bit m (if_index j) \<Longrightarrow> snd (open_input env w m j x) = 0 \<Longrightarrow> ii_fd (fst (open_input env w m j x)) \<ge> 0"
    for w j x
    using assms(3-6) by (auto simp: open_input_def ENODEV_def Let_def split: if_splits sum.splits prod.splits option.splits)
  have same: "bit (opened d) (if_index j) \<Longrightarrow> j < 10 \<Longrightarrow> hi_inputs d' ! j = hi_inputs d ! j" for j
    using o(2) kept by (simp add: opened_bit)
  have "opened d AND bits = opened d"
    by (rule bit_eqI) (use o(1,2) kept in \<open>fastforce simp: bit_and_iff bit_opened\<close>)
  moreover have "bits AND NOT (opened d OR m) = 0"
    by (rule bit_eqI) (use o(1,2) asked in \<open>auto simp: bit_and_iff bit_or_iff bit_not_iff bit_opened\<close>)
  moreover have "m AND ALL_INTERFACES AND NOT bits = 0" if "first = 0"
  proof (rule bit_eqI)
    fix k
    have "bit m (if_index j) \<Longrightarrow> j < 10 \<Longrightarrow> bit bits (if_index j)" for j
      using o that done' by (simp add: opened_bit)
    then show "bit (m AND ALL_INTERFACES AND NOT bits) k = bit 0 k"
      using ALL_INTERFACES_index [of k] by (auto simp: bit_and_iff bit_not_iff)
  qed
  ultimately show ?thesis using o(1) same by blast
qed

text \<open>
  A refresh leaves nothing stale: afterwards every interface has the scanned node and
  availability; an interface is open exactly if it was open, is still available and its node is
  the same, and then its descriptor and decoder are untouched; nothing unavailable is open.
\<close>

theorem refresh_exact:
  assumes "length (hi_inputs d) = 10" "hid_refresh (Inr (nodes, available)) d = (e, d')"
  shows "e = None \<and> hi_nodes d' = nodes \<and> hi_available d' = available
    \<and> opened d' AND NOT (opened d AND available) = 0
    \<and> (\<forall>j < 10. case (hi_inputs d ! j, hi_inputs d' ! j) of (x, y) \<Rightarrow>
        ii_available y = bit available (if_index j) \<and> ii_node y = nodes ! j
        \<and> (ii_fd y \<ge> 0 \<longleftrightarrow> ii_fd x \<ge> 0 \<and> bit available (if_index j) \<and> ii_node x = nodes ! j)
        \<and> (ii_fd y \<ge> 0 \<longrightarrow> ii_fd y = ii_fd x \<and> ii_decoder y = ii_decoder x))"
proof -
  have r: "hi_nodes d' = nodes" "hi_available d' = available"
      "j < 10 \<Longrightarrow> hi_inputs d' ! j = refresh_input nodes available j (hi_inputs d ! j)" for j
    using refresh_inputs [OF _ assms(2)] assms(1) by (auto simp: ten_def)
  have one: "ii_available (refresh_input nodes available j x) = bit available (if_index j)
      \<and> ii_node (refresh_input nodes available j x) = nodes ! j
      \<and> (ii_fd (refresh_input nodes available j x) \<ge> 0 \<longleftrightarrow>
          ii_fd x \<ge> 0 \<and> bit available (if_index j) \<and> ii_node x = nodes ! j)
      \<and> (ii_fd (refresh_input nodes available j x) \<ge> 0 \<longrightarrow>
          ii_fd (refresh_input nodes available j x) = ii_fd x
          \<and> ii_decoder (refresh_input nodes available j x) = ii_decoder x)" for j x
    by (auto simp: refresh_input_def refresh_requires_close_def)
  have "opened d' AND NOT (opened d AND available) = 0"
  proof (rule bit_eqI)
    fix k
    have "bit (opened d) k \<and> bit available k" if o: "bit (opened d') k"
    proof -
      from o obtain j where j: "j < 10" "k = if_index j" "ii_fd (hi_inputs d' ! j) \<ge> 0"
        unfolding bit_opened by blast
      then have "ii_fd (hi_inputs d ! j) \<ge> 0 \<and> bit available k"
        using r(3) [OF j(1)] one [of j "hi_inputs d ! j"] by simp
      then show ?thesis using j(1,2) opened_bit [OF j(1)] by simp
    qed
    then show "bit (opened d' AND NOT (opened d AND available)) k = bit 0 k"
      by (auto simp: bit_and_iff bit_or_iff bit_not_iff)
  qed
  moreover have "e = None" using assms(2) by (simp add: hid_refresh_def)
  moreover have "case (hi_inputs d ! j, hi_inputs d' ! j) of (x, y) \<Rightarrow>
        ii_available y = bit available (if_index j) \<and> ii_node y = nodes ! j
        \<and> (ii_fd y \<ge> 0 \<longleftrightarrow> ii_fd x \<ge> 0 \<and> bit available (if_index j) \<and> ii_node x = nodes ! j)
        \<and> (ii_fd y \<ge> 0 \<longrightarrow> ii_fd y = ii_fd x \<and> ii_decoder y = ii_decoder x)" if "j < 10" for j
    unfolding r(3) [OF that] prod.case by (rule one)
  ultimately show ?thesis using r(1,2) by blast
qed

text \<open>
  C30. Removal is final: the removal of the device's root is reported once as a gone event, with
  everything closed; from then on every \<open>dispatch\<close> fails, whatever udev and the kernel report,
  and \<open>open\<close> opens nothing.
\<close>

theorem removal_is_final:
  assumes "hid_reachable d" "hi_monitor d" "\<not> hi_gone d"
    and "ue_action ev = Some ''remove''" "ue_path ev = Some root"
    and "monitor_event root ((ev, scan) # evs) d = (r, d')"
  shows "r = Inr (Some (lifecycle_event EGone)) \<and> opened d' = 0
    \<and> (\<exists>e. fst (dispatch (envs k) (dispatches envs k d')) = Inl e)
    \<and> snd (snd (open_interfaces env (dispatches envs k d') m)) = 0"
proof -
  let ?c = "close_interfaces (d\<lparr>hi_gone := True, hi_available := 0\<rparr>) MASK_ALL"
  have r: "r = Inr (Some (lifecycle_event EGone))" "d' = forget_nodes ?c"
    using assms(2-6) by (auto simp: monitor_event_def)
  have "device_ok d'" using device_ok_gone [OF reachable_ok [OF assms(1)]] r(2) by simp
  moreover have "ii_fd (hi_inputs d' ! j) < 0" if "j < 10" for j
    using close_all [OF _ that, of "d\<lparr>hi_gone := True, hi_available := 0\<rparr>"] reachable_ok [OF assms(1)] that
      close_interfaces_inputs [of "d\<lparr>hi_gone := True, hi_available := 0\<rparr>" MASK_ALL]
    by (simp add: r(2) forget_nodes_def device_ok_def ten_def)
  ultimately have "departed d'"
    by (auto simp: departed_def still_def quiet_def opened_zero device_ok_def ten_def list_all_length
        interface_ok_def r(2)) (simp_all add: forget_nodes_def)
  then have later: "departed (dispatches envs k d')" by (rule departed_dispatches)
  obtain d2 first bits where o: "open_interfaces env (dispatches envs k d') m = (d2, first, bits)"
    by (cases "open_interfaces env (dispatches envs k d') m") auto
  obtain e where "dispatch (envs k) (dispatches envs k d') = (Inl e, (dispatches envs k d')\<lparr>hi_wake := False\<rparr>)"
    using departed_dispatch [OF later] by blast
  then show ?thesis using departed_open [OF later o] o r(1) \<open>departed d'\<close> by (simp add: departed_def)
qed

text \<open>
  C16. The invariant of an open controller, over every history of opens, closes, watches,
  dispatches and normalisations: an open interface is available and has a node, a closed one has
  nothing pending, each interface agrees with its decoder about a dropped report, and the rumble
  effect belongs to an open descriptor. Dropping the controller then closes every input and
  leaves no rumble descriptor to close a second time.
\<close>

theorem device_invariant:
  assumes "hid_reachable d"
  shows "device_ok d \<and> opened (hid_drop d) = 0 \<and> hi_rumble_fd (hid_drop d) < 0"
  using reachable_ok [OF assms] drop_closes by blast


section \<open>Witnesses\<close>

definition sample_scan :: node_scan where
  "sample_scan = Inr ([Some ''event0'', None, None, None, Some ''event4'', None, None, None, None, None], 0x201)"

definition sample_device :: hid_interface where
  "sample_device = snd (hid_watch True None (snd (hid_refresh sample_scan Interface_start)))"

definition sample_open_env :: open_env where
  "sample_open_env = \<lparr>
     oe_node = (\<lambda>i w. Inr (int i + 5)), oe_initial = (\<lambda>i. Inr ([0], [])),
     oe_epoll = (\<lambda>i. None), oe_rumble = (\<lambda>i. Some 0)\<rparr>"

text \<open>Accelerometer and infrared camera both have a report to replay.\<close>

definition sample_recovered :: "interface_kind \<Rightarrow> decoder" where
  "sample_recovered k = decoder_recover (Decoder_new k) [0] [] \<lparr>tv_sec = 1, tv_usec = 0\<rparr>"

definition sample_waiting :: hid_interface where
  "sample_waiting =
    set_decoder (set_decoder Interface_start 1 (sample_recovered KindAccel)) 2 (sample_recovered KindIr)"

definition sample_dispatch_env :: dispatch_env where
  "sample_dispatch_env = \<lparr>
     de_root = ''/sys/wii'', de_epoll = Inr [], de_udev = [], de_reads = (\<lambda>i. []),
     de_recovery = (\<lambda>i. Inr ([0], [])), de_scan = (\<lambda>i. Inl (- 2))\<rparr>"

lemma sample_device_reachable: "hid_reachable sample_device"
proof -
  have "hid_refresh sample_scan Interface_start = (None, snd (hid_refresh sample_scan Interface_start))"
    by (simp add: hid_refresh_def sample_scan_def)
  then have "hid_reachable (hid_step (HidWatch True None) (snd (hid_refresh sample_scan Interface_start)))"
    by (intro operated) (rule created)
  then show ?thesis by (simp add: sample_device_def)
qed

lemma device_invariant_witness:
  "hid_reachable sample_device \<and> device_ok sample_device
    \<and> opened (hid_drop sample_device) = 0 \<and> hi_rumble_fd (hid_drop sample_device) < 0"
  using device_invariant [OF sample_device_reachable] sample_device_reachable by simp

lemma sample_recovered_event:
  assumes "k \<in> {KindAccel, KindIr}"
  shows "has_pending (dec_recovery (sample_recovered k))" "fst (take_recovered (sample_recovered k)) \<noteq> None"
proof -
  have r: "rec_report_resync_pending (dec_recovery (sample_recovered k))"
      "\<not> rec_key_resync_pending (dec_recovery (sample_recovered k))"
    using assms by (auto simp: sample_recovered_def decoder_recover_def recovery_seed_def Let_def Decoder_new_def
        RecoveryState_default_def key_word_def KEY_WORDS_def list_ex_iff)
  then show hp: "has_pending (dec_recovery (sample_recovered k))" by (simp add: has_pending_def)
  have "fst (push_recovered (sample_recovered k)) \<noteq> None"
    using r assms by (auto simp: push_recovered_def next_key_def take_report_def decoder_report_def Let_def
        sample_recovered_def decoder_recover_def Decoder_new_def)
  then show "fst (take_recovered (sample_recovered k)) \<noteq> None"
    using hp by (auto simp: take_recovered.simps [of "sample_recovered k"] split: prod.split option.split)
qed

lemma sample_waiting_facts:
  "length (hi_inputs sample_waiting) = 10" "hi_next_input sample_waiting = 0"
  "\<not> input_pending (hi_inputs sample_waiting ! 0)" "input_pending (hi_inputs sample_waiting ! 2)"
  "fst (take_recovered (ii_decoder (hi_inputs sample_waiting ! 1))) \<noteq> None"
  "fst (take_recovered (ii_decoder (hi_inputs sample_waiting ! 2))) \<noteq> None"
proof -
  have ten: "ten Interface_start" by (simp add: ten_def Interface_start_def)
  have "hi_inputs Interface_start ! 0 = InputInterface_new 0" by (simp add: Interface_start_def)
  then have x: "hi_inputs sample_waiting ! 0 = InputInterface_new 0"
      "ii_decoder (hi_inputs sample_waiting ! 1) = sample_recovered KindAccel"
      "ii_decoder (hi_inputs sample_waiting ! 2) = sample_recovered KindIr"
    using ten by (simp_all add: sample_waiting_def set_decoder_nth)
  show "length (hi_inputs sample_waiting) = 10" "hi_next_input sample_waiting = 0"
    using ten by (simp_all add: sample_waiting_def set_decoder_def set_input_def ten_def Interface_start_def)
  show "\<not> input_pending (hi_inputs sample_waiting ! 0)"
    using x(1) by (simp add: input_pending_def InputInterface_new_def Decoder_new_def RecoveryState_default_def has_pending_def)
  show "input_pending (hi_inputs sample_waiting ! 2)"
    "fst (take_recovered (ii_decoder (hi_inputs sample_waiting ! 1))) \<noteq> None"
    "fst (take_recovered (ii_decoder (hi_inputs sample_waiting ! 2))) \<noteq> None"
    using sample_recovered_event [of KindAccel] sample_recovered_event [of KindIr] x by (simp_all add: input_pending_def)
qed

lemma sample_waiting_pending: "recovery_pending (snd (dispatch sample_dispatch_env sample_waiting))"
proof -
  let ?w = "sample_waiting\<lparr>hi_wake := False\<rparr>" and ?x = "\<lambda>i. hi_inputs sample_waiting ! i"
  have ten: "ten ?w" using sample_waiting_facts(1) by (simp add: ten_def)
  have order: "map (\<lambda>k. (hi_next_input sample_waiting + k) mod 10) [0..<10] = 0 # 1 # [2, 3, 4, 5, 6, 7, 8, 9]"
    by (simp add: sample_waiting_facts(2) upt_rec)
  obtain ev dec where t1: "take_recovered (ii_decoder (?x 1)) = (Some ev, dec)"
    using sample_waiting_facts(5) by (cases "take_recovered (ii_decoder (?x 1))") auto
  have t0: "take_recovered (ii_decoder (?x 0)) = (None, ii_decoder (?x 0))"
    using sample_waiting_facts(3) by (simp add: input_pending_def take_recovered.simps [of "ii_decoder (?x 0)"])
  let ?d = "set_decoder (set_decoder ?w 0 (ii_decoder (?x 0))) 1 dec"
  have "snd (dispatch sample_dispatch_env sample_waiting) = after_event 1 ?d"
    unfolding dispatch_def order using t0 t1 ten by (simp add: set_decoder_nth)
  moreover have "hi_inputs ?d ! 2 = ?x 2" using ten by (simp add: set_decoder_nth)
  moreover have "2 < length (hi_inputs ?d)" using ten by (simp add: ten_def set_decoder_def set_input_def)
  ultimately show ?thesis using sample_waiting_facts(4) nth_mem [of 2 "hi_inputs ?d"]
    unfolding recovery_pending_iff by (metis after_event_fields(1))
qed

lemma dispatch_signals_pending_witness:
  "length (hi_inputs sample_waiting) = 10
    \<and> recovery_pending (snd (dispatch sample_dispatch_env sample_waiting))
    \<and> hi_wake (snd (dispatch sample_dispatch_env sample_waiting))"
  using dispatch_signals_pending [OF sample_waiting_facts(1) sample_waiting_pending]
    sample_waiting_facts(1) sample_waiting_pending by simp

lemma replay_not_starved_witness:
  "length (hi_inputs sample_waiting) = 10 \<and>
   (\<exists>ev dec. take_recovered (ii_decoder (hi_inputs sample_waiting ! 2)) = (Some ev, dec) \<and>
     (\<exists>k < 10. fst (dispatch sample_dispatch_env (dispatches (\<lambda>_. sample_dispatch_env) k sample_waiting)) = Inr ev
       \<and> ii_decoder (hi_inputs (dispatches (\<lambda>_. sample_dispatch_env) (Suc k) sample_waiting) ! 2) = dec))"
proof -
  obtain ev dec where t: "take_recovered (ii_decoder (hi_inputs sample_waiting ! 2)) = (Some ev, dec)"
    using sample_waiting_facts(6) by (cases "take_recovered (ii_decoder (hi_inputs sample_waiting ! 2))") auto
  show ?thesis
    using replay_not_starved [OF sample_waiting_facts(1) _ t, of "\<lambda>_. sample_dispatch_env"] t
      sample_waiting_facts(1) by auto
qed

lemma open_interfaces_exact_witness:
  "length (hi_inputs sample_device) = 10 \<and>
   (case open_interfaces sample_open_env sample_device MASK_ALL of
     (d', first, bits) \<Rightarrow> bits = opened d' \<and> opened sample_device AND bits = opened sample_device)"
proof -
  have l: "length (hi_inputs sample_device) = 10"
    using reachable_ok [OF sample_device_reachable] by (simp add: device_ok_def ten_def)
  obtain d' first bits where o: "open_interfaces sample_open_env sample_device MASK_ALL = (d', first, bits)"
    by (cases "open_interfaces sample_open_env sample_device MASK_ALL") auto
  have "bits = opened d'" "opened sample_device AND bits = opened sample_device"
    using open_interfaces_exact [OF l o] by (auto simp: sample_open_env_def)
  then show ?thesis using l o by simp
qed

lemma refresh_exact_witness:
  "length (hi_inputs Interface_start) = 10 \<and>
   (case hid_refresh (Inr ([Some ''event0''], 1)) Interface_start of (e, d') \<Rightarrow> e = None \<and> hi_available d' = 1)"
proof -
  have l: "length (hi_inputs Interface_start) = 10" by (simp add: Interface_start_def)
  obtain e d' where r: "hid_refresh (Inr ([Some ''event0''], 1)) Interface_start = (e, d')" by force
  then show ?thesis using refresh_exact [OF l r] l by simp
qed

definition sample_removal :: udev_event where
  "sample_removal = \<lparr>ue_action = Some ''remove'', ue_path = Some ''/sys/wii'', ue_subsystem = Some ''hid''\<rparr>"

lemma removal_is_final_witness:
  "hid_reachable sample_device \<and> hi_monitor sample_device \<and> \<not> hi_gone sample_device \<and>
   (case monitor_event ''/sys/wii'' [(sample_removal, sample_scan)] sample_device of
     (r, d') \<Rightarrow> r = Inr (Some (lifecycle_event EGone)) \<and> opened d' = 0
       \<and> (\<exists>e. fst (dispatch sample_dispatch_env (dispatches (\<lambda>_. sample_dispatch_env) 3 d')) = Inl e)
       \<and> snd (snd (open_interfaces sample_open_env (dispatches (\<lambda>_. sample_dispatch_env) 3 d') MASK_ALL)) = 0)"
proof -
  have h: "hi_monitor sample_device" "\<not> hi_gone sample_device" by code_simp+
  obtain r d' where m: "monitor_event ''/sys/wii'' [(sample_removal, sample_scan)] sample_device = (r, d')" by force
  have e: "ue_action sample_removal = Some ''remove''" "ue_path sample_removal = Some ''/sys/wii''"
    by (simp_all add: sample_removal_def)
  show ?thesis
    using removal_is_final [OF sample_device_reachable h e m, of "\<lambda>_. sample_dispatch_env" 3 sample_open_env MASK_ALL]
      sample_device_reachable h m by simp
qed

end
