(* ===== verification/Protocol.thy ===== *)
theory Protocol
  imports Std_Text
begin

text \<open>
  The wire protocol of \<open>crates/wiiland-ipc/src/protocol.rs\<close>: the messages, and the framing of
  JSON documents into lines of bounded length. JSON itself (the crate \<open>serde_json\<close>) is a
  parameter: \<open>to_json\<close> is \<open>serde_json::to_vec\<close>, \<open>from_json\<close> is \<open>serde_json::from_slice\<close>
  with the text of its error. Unsigned fields are only copied and compared: \<open>nat\<close>.
\<close>

section \<open>Messages\<close>

definition PROTOCOL_MAJOR :: nat where "PROTOCOL_MAJOR = 1"
definition PROTOCOL_MINOR :: nat where "PROTOCOL_MINOR = 1"
definition MAX_CAPTURE_DEVICES :: nat where "MAX_CAPTURE_DEVICES = 32"
definition MAX_FRAME_BYTES :: nat where "MAX_FRAME_BYTES = 65536"

datatype subscription = SubAll | SubInput | SubDevices

datatype command =
    CmdHello nat nat | CmdPing | CmdDiagnostics | CmdConfig | CmdStartCapture string
  | CmdStopCapture | CmdStatus | CmdDevices | CmdSubscribe "subscription list"
  | CmdUnsubscribe "subscription list" | CmdUnknown

record request =
  req_id :: nat
  req_command :: command

datatype protocol_error_code =
    UnsupportedVersion | InvalidRequest | UnknownCommand | NotSubscribed | FrameTooLarge
  | InvalidJson | InternalError | UnknownCode

record protocol_error =
  pe_code :: protocol_error_code
  pe_message :: string

definition frame_too_large :: "nat \<Rightarrow> protocol_error" where
  "frame_too_large n =
    \<lparr>pe_code = FrameTooLarge,
     pe_message = ''JSON frame is '' @ dec_nat n @ '' bytes, maximum is '' @ dec_nat MAX_FRAME_BYTES\<rparr>"

definition json_error :: "string \<Rightarrow> protocol_error" where
  "json_error e = \<lparr>pe_code = InvalidJson, pe_message = e\<rparr>"

record daemon_status =
  st_daemon_version :: string
  st_pid :: nat
  st_device_count :: nat
  st_dry_run :: bool
  st_socket_path :: string

record diagnostics =
  dg_trace_records_dropped :: nat
  dg_lifecycle_records_dropped :: nat
  dg_max_pointer_lateness_us :: nat
  dg_max_dispatch_duration_us :: nat

datatype wire_profile = WireNone | WireGamepad | WireDesktop | WireBoth | WireUnknown

record device_info =
  di_syspath :: string
  di_profile :: wire_profile
  di_opened_interfaces :: nat
  di_pending_interfaces :: nat
  di_gamepad_output :: bool
  di_desktop_output :: bool

datatype response_result =
    ResHello nat nat string | ResPong | ResDiagnostics diagnostics | ResConfig string
  | ResCaptureStarted device_info | ResCaptureStopped | ResStatus daemon_status
  | ResDevices "device_info list" | ResSubscribed | ResUnsubscribed

datatype removal_reason =
  ReasonRemoved | ReasonGone | ReasonDrainError | ReasonPointerError | ReasonUnknown

record wire_timestamp =
  wt_seconds :: int
  wt_micros :: nat

record wire_axis3 =
  wa_x :: int
  wa_y :: int
  wa_z :: int

record wire_button =
  wb_code :: nat
  wb_state :: nat

datatype input_payload =
    PlKey wire_button | PlAccel wire_axis3 | PlIr "wire_axis3 list" | PlBalanceBoard "wire_axis3 list"
  | PlMotionPlus wire_axis3 | PlProControllerKey wire_button | PlProControllerMove "wire_axis3 list"
  | PlWatch | PlClassicControllerKey wire_button | PlClassicControllerMove "wire_axis3 list"
  | PlNunchukKey wire_button | PlNunchukMove "wire_axis3 list" | PlDrumsKey wire_button
  | PlDrumsMove "wire_axis3 list" | PlGuitarKey wire_button | PlGuitarMove "wire_axis3 list"
  | PlGone | PlUnknown nat | PlUnsupported

fun InputPayload_event_code :: "input_payload \<Rightarrow> nat" where
  "InputPayload_event_code (PlKey _) = 0"
| "InputPayload_event_code (PlAccel _) = 1"
| "InputPayload_event_code (PlIr _) = 2"
| "InputPayload_event_code (PlBalanceBoard _) = 3"
| "InputPayload_event_code (PlMotionPlus _) = 4"
| "InputPayload_event_code (PlProControllerKey _) = 5"
| "InputPayload_event_code (PlProControllerMove _) = 6"
| "InputPayload_event_code PlWatch = 7"
| "InputPayload_event_code (PlClassicControllerKey _) = 8"
| "InputPayload_event_code (PlClassicControllerMove _) = 9"
| "InputPayload_event_code (PlNunchukKey _) = 10"
| "InputPayload_event_code (PlNunchukMove _) = 11"
| "InputPayload_event_code (PlDrumsKey _) = 12"
| "InputPayload_event_code (PlDrumsMove _) = 13"
| "InputPayload_event_code (PlGuitarKey _) = 14"
| "InputPayload_event_code (PlGuitarMove _) = 15"
| "InputPayload_event_code PlGone = 16"
| "InputPayload_event_code (PlUnknown n) = n"
| "InputPayload_event_code PlUnsupported = 4294967295"

datatype notification =
    NoteDeviceAdded nat device_info
  | NoteDeviceRemoved nat string removal_reason
  | NoteInput nat string wire_timestamp input_payload
  | NoteUnsupported

datatype server_message =
    MsgResponse nat response_result
  | MsgNotification notification
  | MsgError "nat option" protocol_error


section \<open>Framing\<close>

definition carriage_return :: char where "carriage_return = CHR 0x0D"

definition encode_frame :: "('a \<Rightarrow> string + bytes) \<Rightarrow> 'a \<Rightarrow> protocol_error + bytes" where
  "encode_frame to_json v =
    (case to_json v of
       Inl e \<Rightarrow> Inl (json_error e)
     | Inr json \<Rightarrow>
         if length json > MAX_FRAME_BYTES then Inl (frame_too_large (length json))
         else Inr (json @ [newline]))"

text \<open>\<open>last() == Some(&b)\<close>, with the last byte dropped.\<close>

definition strip_last :: "char \<Rightarrow> bytes \<Rightarrow> bytes" where
  "strip_last b xs = (if xs \<noteq> [] \<and> last xs = b then butlast xs else xs)"

definition decode_frame :: "(bytes \<Rightarrow> string + 'a) \<Rightarrow> bytes \<Rightarrow> protocol_error + 'a" where
  "decode_frame from_json frame =
    (let payload = strip_last carriage_return (strip_last newline frame)
     in if length payload > MAX_FRAME_BYTES then Inl (frame_too_large (length payload))
        else case from_json payload of Inl e \<Rightarrow> Inl (json_error e) | Inr v \<Rightarrow> Inr v)"

text \<open>The state of a \<open>FrameBuffer\<close> is its bytes. \<open>push\<close> returns them with its result.\<close>

type_synonym frame_buffer = bytes

definition ends_cr :: "bytes \<Rightarrow> bool" where
  "ends_cr xs \<longleftrightarrow> xs \<noteq> [] \<and> last xs = carriage_return"

function frame_loop ::
  "frame_buffer \<Rightarrow> bytes \<Rightarrow> bytes list \<Rightarrow> (protocol_error + bytes list) \<times> frame_buffer" where
  "frame_loop buffer input frames =
    (if input = [] then (Inr frames, buffer)
     else case position (\<lambda>b. b = newline) input of
       Some n \<Rightarrow>
         (let part = take n input;
              frame_len = length buffer + length part;
              payload_len = frame_len
                - (if ends_cr part \<or> part = [] \<and> ends_cr buffer then 1 else 0)
          in if payload_len > MAX_FRAME_BYTES then (Inl (frame_too_large payload_len), buffer)
             else frame_loop [] (drop (n + 1) input)
                    (frames @ [strip_last carriage_return (buffer @ part)]))
     | None \<Rightarrow>
         (let frame_len = length buffer + length input;
              payload_len = frame_len - (if ends_cr input then 1 else 0)
          in if payload_len > MAX_FRAME_BYTES then (Inl (frame_too_large payload_len), buffer)
             else (Inr frames, buffer @ input)))"
  by pat_completeness auto
termination
  by (relation "measure (\<lambda>(buffer, input, frames). length input)") auto

declare frame_loop.simps [simp del]

definition frame_push ::
  "frame_buffer \<Rightarrow> bytes \<Rightarrow> (protocol_error + bytes list) \<times> frame_buffer" where
  "frame_push buffer input = frame_loop buffer input []"


section \<open>Lines of a stream\<close>

text \<open>The specification: the complete lines of a byte stream, and what follows the last newline.\<close>

fun split_lines :: "bytes \<Rightarrow> bytes list \<times> bytes" where
  "split_lines [] = ([], [])"
| "split_lines (b # bs) =
    (case split_lines bs of (ls, t) \<Rightarrow>
       if b = newline then ([] # ls, t)
       else case ls of [] \<Rightarrow> ([], b # t) | l # ls' \<Rightarrow> ((b # l) # ls', t))"

definition payload_of :: "bytes \<Rightarrow> bytes" where
  "payload_of = strip_last carriage_return"

definition stream_ok :: "bytes \<Rightarrow> bool" where
  "stream_ok s \<longleftrightarrow>
    (case split_lines s of (ls, t) \<Rightarrow>
       list_all (\<lambda>l. length (payload_of l) \<le> MAX_FRAME_BYTES) ls
       \<and> length (payload_of t) \<le> MAX_FRAME_BYTES)"

lemma split_lines_no_newline: "newline \<notin> set s \<Longrightarrow> split_lines s = ([], s)"
  by (induction s) auto

lemma split_lines_newline:
  "newline \<notin> set p \<Longrightarrow> split_lines (p @ newline # s) = (p # fst (split_lines s), snd (split_lines s))"
  by (induction p) (auto simp: split_beta)

lemma split_lines_tail: "newline \<notin> set (snd (split_lines s))"
  by (induction s) (auto simp: split_beta split: list.split)

lemma split_lines_append:
  "split_lines (s @ t) =
    (fst (split_lines s) @ fst (split_lines (snd (split_lines s) @ t)),
     snd (split_lines (snd (split_lines s) @ t)))"
proof (induction s)
  case (Cons b s)
  then show ?case
    by (cases "fst (split_lines s)") (auto simp: split_beta split: list.split)
qed simp

lemma length_payload_of: "length (payload_of l) = length l - (if ends_cr l then 1 else 0)"
  by (simp add: payload_of_def strip_last_def ends_cr_def)

lemma payload_of_prefix: "length (payload_of p) \<le> length (payload_of (p @ x))"
  by (cases x rule: rev_cases) (auto simp: length_payload_of)

lemma position_newline:
  "position (\<lambda>b. b = newline) s = None \<longleftrightarrow> newline \<notin> set s"
  "position (\<lambda>b. b = newline) s = Some n \<Longrightarrow>
     n < length s \<and> s ! n = newline \<and> newline \<notin> set (take n s)"
proof -
  show "position (\<lambda>b. b = newline) s = None \<longleftrightarrow> newline \<notin> set s"
    by (induction s) auto
  show "position (\<lambda>b. b = newline) s = Some n \<Longrightarrow>
     n < length s \<and> s ! n = newline \<and> newline \<notin> set (take n s)"
    by (induction s arbitrary: n) (auto split: if_splits)
qed

end
