(* ===== verification/Frames.thy ===== *)
theory Frames
  imports Protocol
begin

text \<open>
  What the framing of \<open>crates/wiiland-ipc/src/protocol.rs\<close> promises: a \<open>FrameBuffer\<close> yields the
  lines of the byte stream, however the stream is cut into chunks, refuses exactly the streams
  with an oversized line, and returns the documents that \<open>encode_frame\<close> wrote.
\<close>

section \<open>One push\<close>

lemma split_lines_cut:
  assumes "position (\<lambda>b. b = newline) input = Some n" "newline \<notin> set buffer"
  shows "split_lines (buffer @ input) =
    ((buffer @ take n input) # fst (split_lines (drop (n + 1) input)),
     snd (split_lines (drop (n + 1) input)))"
proof -
  note n = position_newline(2) [OF assms(1)]
  then have "input = take n input @ newline # drop (n + 1) input"
    by (metis Suc_eq_plus1 id_take_nth_drop)
  then have "buffer @ input = (buffer @ take n input) @ newline # drop (n + 1) input" by simp
  then show ?thesis using split_lines_newline [of "buffer @ take n input" "drop (n + 1) input"] n assms(2)
    by simp
qed

lemma part_payload:
  "length buffer + length part - (if ends_cr part \<or> part = [] \<and> ends_cr buffer then 1 else 0)
    = length (payload_of (buffer @ part))"
  by (cases part rule: rev_cases) (auto simp: length_payload_of ends_cr_def)

lemma frame_loop_newline:
  "input \<noteq> [] \<Longrightarrow> position (\<lambda>b. b = newline) input = Some n \<Longrightarrow>
    frame_loop buffer input frames =
      (if length (payload_of (buffer @ take n input)) > MAX_FRAME_BYTES
       then (Inl (frame_too_large (length (payload_of (buffer @ take n input)))), buffer)
       else frame_loop [] (drop (n + 1) input) (frames @ [payload_of (buffer @ take n input)]))"
  unfolding part_payload [symmetric]
  by (subst frame_loop.simps) (simp add: Let_def payload_of_def)

lemma input_payload:
  "input \<noteq> [] \<Longrightarrow> length buffer + length input - (if ends_cr input then 1 else 0)
    = length (payload_of (buffer @ input))"
  using part_payload [of buffer input] by (auto simp: ends_cr_def)

definition push_spec :: "bytes \<Rightarrow> bytes list \<Rightarrow> (protocol_error + bytes list) \<times> bytes \<Rightarrow> bool" where
  "push_spec stream frames r \<longleftrightarrow>
    (case fst r of
       Inr fs \<Rightarrow> stream_ok stream \<and> fs = frames @ map payload_of (fst (split_lines stream))
         \<and> snd r = snd (split_lines stream)
     | Inl e \<Rightarrow> \<not> stream_ok stream \<and> pe_code e = FrameTooLarge)"

lemma frame_too_large_code [simp]: "pe_code (frame_too_large n) = FrameTooLarge"
  by (simp add: frame_too_large_def)

lemma frame_loop_spec:
  "newline \<notin> set buffer \<Longrightarrow> length (payload_of buffer) \<le> MAX_FRAME_BYTES \<Longrightarrow>
    push_spec (buffer @ input) frames (frame_loop buffer input frames)"
proof (induction buffer input frames rule: frame_loop.induct)
  case (1 buffer input frames)
  show ?case
  proof (cases "input = []")
    case True
    then show ?thesis using "1.prems"
      by (simp add: frame_loop.simps [of buffer] push_spec_def stream_ok_def split_lines_no_newline)
  next
    case ne: False
    show ?thesis
    proof (cases "position (\<lambda>b. b = newline) input")
      case None
      then have "newline \<notin> set (buffer @ input)" using "1.prems" position_newline(1) by auto
      then show ?thesis using ne None input_payload [OF ne, of buffer]
        by (simp add: frame_loop.simps [of buffer] push_spec_def stream_ok_def split_lines_no_newline Let_def)
    next
      case (Some n)
      let ?part = "take n input" and ?rest = "drop (n + 1) input"
      let ?len = "length (payload_of (buffer @ ?part))"
      note cut = split_lines_cut [OF Some "1.prems"(1)]
      have pay: "length buffer + length ?part - (if ends_cr ?part \<or> ?part = [] \<and> ends_cr buffer then 1 else 0) = ?len"
        by (rule part_payload)
      show ?thesis
      proof (cases "?len > MAX_FRAME_BYTES")
        case True
        then have "frame_loop buffer input frames = (Inl (frame_too_large ?len), buffer)"
          using frame_loop_newline [OF ne Some] by simp
        then show ?thesis using True by (simp add: push_spec_def stream_ok_def cut)
      next
        case False
        let ?frames = "frames @ [payload_of (buffer @ ?part)]"
        have step: "frame_loop buffer input frames = frame_loop [] ?rest ?frames"
          using frame_loop_newline [OF ne Some] False by simp
        have "push_spec ?rest ?frames (frame_loop [] ?rest ?frames)"
          using "1.IH" [OF ne Some refl refl refl] False pay
          by (simp add: payload_of_def strip_last_def del: length_take)
        then show ?thesis using False
          by (simp add: step push_spec_def stream_ok_def cut split_beta split: sum.splits)
      qed
    qed
  qed
qed


section \<open>A sequence of pushes\<close>

text \<open>The frames of successive reads of a connection, until a frame is refused.\<close>

fun feed :: "frame_buffer \<Rightarrow> bytes list \<Rightarrow> protocol_error + (bytes list \<times> frame_buffer)" where
  "feed buffer [] = Inr ([], buffer)"
| "feed buffer (c # cs) =
    (case frame_push buffer c of
       (Inl e, _) \<Rightarrow> Inl e
     | (Inr fs, buffer') \<Rightarrow>
         (case feed buffer' cs of
            Inl e \<Rightarrow> Inl e
          | Inr (fs', buffer'') \<Rightarrow> Inr (fs @ fs', buffer'')))"

lemma stream_ok_append:
  "stream_ok (s @ t) \<longleftrightarrow> stream_ok s \<and> stream_ok (snd (split_lines s) @ t)"
proof -
  let ?ls = "fst (split_lines s)" and ?t = "snd (split_lines s)"
  have app: "split_lines (s @ t) = (?ls @ fst (split_lines (?t @ t)), snd (split_lines (?t @ t)))"
    by (rule split_lines_append)
  have "length (payload_of ?t) \<le> MAX_FRAME_BYTES" if ok: "stream_ok (?t @ t)"
  proof (cases "newline \<in> set t")
    case True
    then obtain p q where t: "t = p @ newline # q" "newline \<notin> set p" by (meson split_list_first)
    have "split_lines ((?t @ p) @ newline # q) = ((?t @ p) # fst (split_lines q), snd (split_lines q))"
      by (rule split_lines_newline) (use t(2) split_lines_tail in auto)
    then have "length (payload_of (?t @ p)) \<le> MAX_FRAME_BYTES" using ok t by (simp add: stream_ok_def)
    then show ?thesis using payload_of_prefix le_trans by blast
  next
    case False
    then have "split_lines (?t @ t) = ([], ?t @ t)"
      by (intro split_lines_no_newline) (use split_lines_tail in auto)
    then have "length (payload_of (?t @ t)) \<le> MAX_FRAME_BYTES" using ok by (simp add: stream_ok_def)
    then show ?thesis using payload_of_prefix le_trans by blast
  qed
  then show ?thesis using app by (auto simp: stream_ok_def split_beta)
qed

definition feed_spec :: "bytes \<Rightarrow> protocol_error + (bytes list \<times> bytes) \<Rightarrow> bool" where
  "feed_spec stream r \<longleftrightarrow>
    (case r of
       Inr (fs, rest) \<Rightarrow> stream_ok stream \<and> fs = map payload_of (fst (split_lines stream))
         \<and> rest = snd (split_lines stream)
     | Inl e \<Rightarrow> \<not> stream_ok stream \<and> pe_code e = FrameTooLarge)"

lemma feed_feed_spec:
  "newline \<notin> set buffer \<Longrightarrow> length (payload_of buffer) \<le> MAX_FRAME_BYTES \<Longrightarrow>
    feed_spec (buffer @ concat chunks) (feed buffer chunks)"
proof (induction chunks arbitrary: buffer)
  case Nil
  then show ?case by (simp add: feed_spec_def stream_ok_def split_lines_no_newline)
next
  case (Cons c cs)
  let ?s = "buffer @ c"
  have push: "push_spec ?s [] (frame_push buffer c)"
    unfolding frame_push_def by (rule frame_loop_spec [OF Cons.prems])
  have app: "split_lines (?s @ concat cs) =
      (fst (split_lines ?s) @ fst (split_lines (snd (split_lines ?s) @ concat cs)),
       snd (split_lines (snd (split_lines ?s) @ concat cs)))"
    by (rule split_lines_append)
  show ?case
  proof (cases "fst (frame_push buffer c)")
    case (Inl e)
    then have "feed buffer (c # cs) = Inl e" by (simp add: split_beta)
    moreover have "\<not> stream_ok ?s" "pe_code e = FrameTooLarge"
      using push Inl by (simp_all add: push_spec_def)
    ultimately show ?thesis using stream_ok_append [of ?s "concat cs"] by (simp add: feed_spec_def)
  next
    case (Inr fs)
    let ?b = "snd (frame_push buffer c)"
    have ok: "stream_ok ?s" "fs = map payload_of (fst (split_lines ?s))" "?b = snd (split_lines ?s)"
      using push Inr by (simp_all add: push_spec_def)
    have "newline \<notin> set ?b" "length (payload_of ?b) \<le> MAX_FRAME_BYTES"
      using ok split_lines_tail by (auto simp: stream_ok_def split_beta)
    from Cons.IH [OF this] have IH: "feed_spec (?b @ concat cs) (feed ?b cs)" .
    have step: "feed buffer (c # cs) =
        (case feed ?b cs of Inl e \<Rightarrow> Inl e | Inr (fs', b) \<Rightarrow> Inr (fs @ fs', b))"
      using Inr by (simp add: split_beta)
    show ?thesis using IH stream_ok_append [of ?s "concat cs"] ok app
      unfolding step by (auto simp: feed_spec_def split: sum.splits prod.splits)
  qed
qed


section \<open>Encoded documents\<close>

definition json_line :: "bytes \<Rightarrow> bool" where
  "json_line j \<longleftrightarrow> newline \<notin> set j \<and> \<not> ends_cr j \<and> length j \<le> MAX_FRAME_BYTES"

lemma split_lines_documents:
  "list_all json_line js \<Longrightarrow> split_lines (concat (map (\<lambda>j. j @ [newline]) js)) = (js, [])"
proof (induction js)
  case (Cons j js)
  then show ?case
    using split_lines_newline [of j "concat (map (\<lambda>j. j @ [newline]) js)"] by (simp add: json_line_def)
qed simp

lemma payload_of_document: "json_line j \<Longrightarrow> payload_of j = j"
  by (auto simp: json_line_def payload_of_def strip_last_def ends_cr_def)

lemma stream_ok_documents:
  "list_all json_line js \<Longrightarrow> stream_ok (concat (map (\<lambda>j. j @ [newline]) js))"
  by (simp add: stream_ok_def split_lines_documents)
    (auto simp: list_all_iff payload_of_document json_line_def [of "_"] payload_of_def strip_last_def)

section \<open>Properties\<close>

text \<open>
  C11. Framing does not depend on how the bytes arrive. However a stream is cut into reads, the
  frame buffer accepts it exactly when every line, and the unfinished last one, is within the
  size limit; it then returns the lines in order, without their line ends, and keeps the
  unfinished one. Otherwise it reports an oversized frame.
\<close>

theorem framing_chunk_independent:
  "case feed [] chunks of
     Inr (frames, rest) \<Rightarrow>
       stream_ok (concat chunks) \<and>
       frames = map payload_of (fst (split_lines (concat chunks))) \<and>
       rest = snd (split_lines (concat chunks))
   | Inl e \<Rightarrow> \<not> stream_ok (concat chunks) \<and> pe_code e = FrameTooLarge"
proof -
  have "length (payload_of []) \<le> MAX_FRAME_BYTES" by (simp add: length_payload_of)
  then show ?thesis using feed_feed_spec [of "[]" chunks] by (simp add: feed_spec_def)
qed

text \<open>
  C29. Messages round-trip. When messages are encoded one after the other and the bytes arrive
  in any pieces, the receiver gets exactly their JSON documents, one frame each, with nothing
  left over, and decoding a frame is decoding the document. The JSON library is assumed to
  write no line break into a document and not to end it with a carriage return.
\<close>

theorem encoded_messages_arrive:
  assumes enc: "list_all2 (\<lambda>v frame. encode_frame to_json v = Inr frame) vs frames"
    and lib: "\<forall>v j. to_json v = Inr j \<longrightarrow> newline \<notin> set j \<and> \<not> ends_cr j"
    and cut: "concat chunks = concat frames"
  shows "\<exists>docs. feed [] chunks = Inr (docs, []) \<and> map Inr docs = map to_json vs \<and>
    map (decode_frame from_json) docs =
      map (\<lambda>doc. case from_json doc of Inl e \<Rightarrow> Inl (json_error e) | Inr v \<Rightarrow> Inr v) docs"
proof -
  have one: "\<exists>j. to_json v = Inr j \<and> json_line j \<and> frame = j @ [newline]"
    if "encode_frame to_json v = Inr frame" for v frame
    using that lib by (auto simp: encode_frame_def json_line_def split: sum.splits if_splits)
  have "\<exists>docs. map Inr docs = map to_json vs \<and> list_all json_line docs \<and>
      frames = map (\<lambda>j. j @ [newline]) docs"
    using enc
  proof (induction vs frames rule: list_all2_induct)
    case (Cons v vs frame frames)
    from Cons.IH obtain docs where docs: "map Inr docs = map to_json vs" "list_all json_line docs"
      "frames = map (\<lambda>j. j @ [newline]) docs" by blast
    from one [OF Cons.hyps(1)] obtain j where "to_json v = Inr j" "json_line j" "frame = j @ [newline]"
      by blast
    with docs show ?case by (intro exI [of _ "j # docs"]) simp
  qed simp
  then obtain docs where docs: "map Inr docs = map to_json vs" "list_all json_line docs"
    "frames = map (\<lambda>j. j @ [newline]) docs" by blast
  have "length (payload_of []) \<le> MAX_FRAME_BYTES" by (simp add: length_payload_of)
  from feed_feed_spec [OF _ this, of chunks] stream_ok_documents [OF docs(2)]
    split_lines_documents [OF docs(2)] cut docs(3)
  have "feed [] chunks = Inr (map payload_of docs, [])"
    by (auto simp: feed_spec_def split: sum.splits)
  moreover have "map payload_of docs = docs"
    using docs(2) by (induction docs) (simp_all add: payload_of_document)
  moreover have "map (decode_frame from_json) docs =
      map (\<lambda>doc. case from_json doc of Inl e \<Rightarrow> Inl (json_error e) | Inr v \<Rightarrow> Inr v) docs"
    using docs(2)
  proof (induction docs)
    case (Cons j js)
    have "j = [] \<or> last j \<noteq> newline"
      using Cons.prems by (metis json_line_def last_in_set list.pred_inject(2))
    then have "strip_last newline j = j" "strip_last carriage_return j = j" "length j \<le> MAX_FRAME_BYTES"
      using Cons.prems by (auto simp: json_line_def strip_last_def ends_cr_def)
    then show ?case using Cons by (simp add: decode_frame_def)
  qed simp
  ultimately show ?thesis using docs(1) by auto
qed

text \<open>Two numbers as JSON documents, delivered in pieces that do not match the frames.\<close>

lemma dec_nat_plain: "newline \<notin> set (dec_nat n) \<and> \<not> ends_cr (dec_nat n)"
proof -
  have d: "newline \<noteq> digit_char d \<and> digit_char d \<noteq> carriage_return" if "d < 10" for d
  proof -
    have "(of_char (digit_char d) :: nat) = 48 + d"
      using that by (simp add: digit_char_def)
    moreover have "(of_char newline :: nat) = 10" "(of_char carriage_return :: nat) = 13"
      by (simp_all add: newline_def carriage_return_def)
    ultimately show ?thesis by auto
  qed
  show ?thesis
  proof (induction n rule: dec_nat.induct)
    case (1 n)
    then show ?case
      using d [of n] d [of "n mod 10"] by (simp add: dec_nat.simps [of n] ends_cr_def)
  qed
qed

lemma encoded_messages_arrive_witness:
  "\<exists>docs. feed [] [''1'', ''7'' @ [newline] @ ''4'', [newline]] = Inr (docs, []) \<and>
     map Inr docs = map (\<lambda>n. (Inr (dec_nat n) :: string + bytes)) [17, 4]"
proof -
  have digits: "dec_nat 17 = ''17''" "dec_nat 4 = ''4''"
    by code_simp+
  have enc: "list_all2 (\<lambda>v frame. encode_frame (\<lambda>n. Inr (dec_nat n)) v = Inr frame) [17, 4]
      [''17'' @ [newline], ''4'' @ [newline]]"
    by (simp add: encode_frame_def digits MAX_FRAME_BYTES_def)
  have lib: "\<forall>v j. (Inr (dec_nat v) :: string + bytes) = Inr j \<longrightarrow> newline \<notin> set j \<and> \<not> ends_cr j"
    using dec_nat_plain by auto
  from encoded_messages_arrive [OF enc lib, of "[''1'', ''7'' @ [newline] @ ''4'', [newline]]" "\<lambda>b. Inr b"]
  show ?thesis by auto
qed

end
