(* ===== verification/Ipc_Client.thy ===== *)
theory Ipc_Client
  imports Frames
begin

text \<open>
  One connection of the daemon's socket: \<open>crates/wiilandd/src/ipc/connection.rs\<close>. The stream
  is outside the model: what successive \<open>write\<close> and \<open>read\<close> calls on it return is an argument,
  a list of results, and a call past its end would block. What the connection asks the rest of
  the daemon for (JSON, the status, the device list, the version) is the record \<open>ipc_env\<close>.
  A method that changes the client returns it updated.
\<close>

section \<open>Limits and state\<close>

definition MAX_CLIENTS :: nat where "MAX_CLIENTS = 64"
definition MAX_QUEUED_BYTES :: nat where "MAX_QUEUED_BYTES = 256 * 1024"
definition ACCEPT_BUDGET :: nat where "ACCEPT_BUDGET = 8"
definition READ_BUDGET :: nat where "READ_BUDGET = 8"
definition READ_CHUNK :: nat where "READ_CHUNK = 16 * 1024"
definition FRAME_BUDGET :: nat where "FRAME_BUDGET = 8"
definition WRITE_BUDGET :: nat where "WRITE_BUDGET = 64 * 1024"

record pending =
  pd_bytes :: bytes
  pd_offset :: nat

record client =
  cl_frames :: frame_buffer
  cl_pending_frames :: "bytes list"
  cl_output :: "pending list"
  cl_queued_bytes :: nat
  cl_negotiated :: bool
  cl_immediate_close :: bool
  cl_closing :: bool
  cl_input :: bool
  cl_devices :: bool
  cl_commands :: "(nat \<times> command) list"
  cl_capture :: "string list"

definition Client_new :: client where
  "Client_new = \<lparr>
     cl_frames = [], cl_pending_frames = [], cl_output = [], cl_queued_bytes = 0,
     cl_negotiated = False, cl_immediate_close = False, cl_closing = False, cl_input = False,
     cl_devices = False, cl_commands = [], cl_capture = []\<rparr>"

record ipc_env =
  env_to_json :: "server_message \<Rightarrow> string + bytes"
  env_from_json :: "bytes \<Rightarrow> string + request"
  env_status :: daemon_status
  env_devices :: "device_info list"
  env_version :: string


section \<open>Output\<close>

fun client_wants :: "client \<Rightarrow> notification \<Rightarrow> bool" where
  "client_wants c (NoteInput _ _ _ _) = cl_input c"
| "client_wants c (NoteDeviceAdded _ _) = cl_devices c"
| "client_wants c (NoteDeviceRemoved _ _ _) = cl_devices c"
| "client_wants c NoteUnsupported = False"

definition queue_encoded :: "client \<Rightarrow> bytes \<Rightarrow> client \<times> bool" where
  "queue_encoded c bytes =
    (if cl_queued_bytes c + length bytes > MAX_QUEUED_BYTES
     then (c\<lparr>cl_immediate_close := True\<rparr>, False)
     else (c\<lparr>cl_queued_bytes := cl_queued_bytes c + length bytes,
             cl_output := cl_output c @ [\<lparr>pd_bytes = bytes, pd_offset = 0\<rparr>]\<rparr>, True))"

definition client_queue :: "ipc_env \<Rightarrow> client \<Rightarrow> server_message \<Rightarrow> client \<times> bool" where
  "client_queue env c msg =
    (case encode_frame (env_to_json env) msg of
       Inl _ \<Rightarrow> (c\<lparr>cl_immediate_close := True\<rparr>, False)
     | Inr bytes \<Rightarrow> queue_encoded c bytes)"

definition make_protocol_error :: "protocol_error_code \<Rightarrow> string \<Rightarrow> protocol_error" where
  "make_protocol_error code message = \<lparr>pe_code = code, pe_message = message\<rparr>"

definition queue_response :: "ipc_env \<Rightarrow> client \<Rightarrow> nat \<Rightarrow> response_result \<Rightarrow> client \<times> bool" where
  "queue_response env c i result =
    (case encode_frame (env_to_json env) (MsgResponse i result) of
       Inr bytes \<Rightarrow> queue_encoded c bytes
     | Inl _ \<Rightarrow> client_queue env c (MsgError (Some i)
         (make_protocol_error InternalError ''response exceeds the maximum IPC frame size'')))"

text \<open>
  \<open>Accept n\<close>: the kernel takes at most \<open>n\<close> bytes of what it is offered.
\<close>

datatype write_result = Accept nat | WriteBlocks | WriteFails

primrec write_loop ::
  "write_result list \<Rightarrow> nat \<Rightarrow> client \<Rightarrow> bool \<times> client \<times> bytes" where
  "write_loop [] budget c = (True, c, [])"
| "write_loop (r # rs) budget c =
    (if budget = 0 then (True, c, [])
     else case cl_output c of
       [] \<Rightarrow> (True, c, [])
     | front # rest \<Rightarrow>
         (let remaining = drop (pd_offset front) (pd_bytes front);
              offered = take (min (length remaining) budget) remaining
          in case r of
               Accept n \<Rightarrow>
                 (let written = min n (length offered)
                  in if written = 0 then (False, c\<lparr>cl_closing := True\<rparr>, [])
                     else
                       let front' = front\<lparr>pd_offset := pd_offset front + written\<rparr>;
                           c' = c\<lparr>cl_queued_bytes := cl_queued_bytes c - written,
                                  cl_output := (if pd_offset front' = length (pd_bytes front')
                                                then rest else front' # rest)\<rparr>
                       in case write_loop rs (budget - written) c' of
                            (ok, c'', out) \<Rightarrow> (ok, c'', take written offered @ out))
             | WriteBlocks \<Rightarrow> (True, c, [])
             | WriteFails \<Rightarrow> (False, c\<lparr>cl_closing := True\<rparr>, [])))"

definition write_ready :: "write_result list \<Rightarrow> client \<Rightarrow> bool \<times> client \<times> bytes" where
  "write_ready rs c = write_loop rs WRITE_BUDGET c"


section \<open>Requests\<close>

fun apply_subscription :: "bool \<Rightarrow> client \<Rightarrow> subscription \<Rightarrow> client" where
  "apply_subscription enabled c SubAll = c\<lparr>cl_input := enabled, cl_devices := enabled\<rparr>"
| "apply_subscription enabled c SubInput = c\<lparr>cl_input := enabled\<rparr>"
| "apply_subscription enabled c SubDevices = c\<lparr>cl_devices := enabled\<rparr>"

definition apply_subscriptions :: "client \<Rightarrow> subscription list \<Rightarrow> bool \<Rightarrow> client" where
  "apply_subscriptions c subs enabled = foldl (apply_subscription enabled) c subs"

definition queue_error :: "ipc_env \<Rightarrow> client \<Rightarrow> nat option \<Rightarrow> protocol_error_code \<Rightarrow> string \<Rightarrow> client" where
  "queue_error env c i code message = fst (client_queue env c (MsgError i (make_protocol_error code message)))"

text \<open>The requests that the reactor answers later: they are queued, or refused.\<close>

definition defer_command :: "ipc_env \<Rightarrow> client \<Rightarrow> nat \<Rightarrow> command \<Rightarrow> client" where
  "defer_command env c i cmd =
    (if (case cmd of
           CmdStartCapture path \<Rightarrow> length (cl_capture c) \<ge> MAX_CAPTURE_DEVICES \<and> path \<notin> set (cl_capture c)
         | _ \<Rightarrow> False)
     then queue_error env c (Some i) InvalidRequest
            ''capture device limit reached; stop capture before selecting new devices''
     else if length (cl_commands c) \<ge> FRAME_BUDGET then c\<lparr>cl_immediate_close := True\<rparr>
     else c\<lparr>cl_commands := cl_commands c @ [(i, cmd)]\<rparr>)"

text \<open>The first request of a connection.\<close>

definition handle_first :: "ipc_env \<Rightarrow> client \<Rightarrow> nat \<Rightarrow> command \<Rightarrow> client" where
  "handle_first env c i cmd =
    (case cmd of
       CmdHello min_major max_major \<Rightarrow>
         if min_major \<le> PROTOCOL_MAJOR \<and> max_major \<ge> PROTOCOL_MAJOR
         then fst (queue_response env (c\<lparr>cl_negotiated := True\<rparr>) i
                (ResHello PROTOCOL_MAJOR PROTOCOL_MINOR (env_version env)))
         else (queue_error env c (Some i) UnsupportedVersion ''unsupported protocol version'')
                \<lparr>cl_closing := True\<rparr>
     | _ \<Rightarrow> (queue_error env c (Some i) InvalidRequest ''first request must be hello'')
                \<lparr>cl_closing := True\<rparr>)"

definition handle_command :: "ipc_env \<Rightarrow> client \<Rightarrow> nat \<Rightarrow> command \<Rightarrow> client" where
  "handle_command env c i cmd =
    (case cmd of
       CmdHello _ _ \<Rightarrow> queue_error env c (Some i) InvalidRequest ''hello was already completed''
     | CmdPing \<Rightarrow> fst (queue_response env c i ResPong)
     | CmdStatus \<Rightarrow> fst (queue_response env c i (ResStatus (env_status env)))
     | CmdDevices \<Rightarrow> fst (queue_response env c i (ResDevices (env_devices env)))
     | CmdSubscribe subs \<Rightarrow>
         fst (queue_response env (apply_subscriptions c subs True) i ResSubscribed)
     | CmdUnsubscribe subs \<Rightarrow>
         fst (queue_response env (apply_subscriptions c subs False) i ResUnsubscribed)
     | CmdDiagnostics \<Rightarrow> defer_command env c i cmd
     | CmdConfig \<Rightarrow> defer_command env c i cmd
     | CmdStartCapture _ \<Rightarrow> defer_command env c i cmd
     | CmdStopCapture \<Rightarrow> defer_command env c i cmd
     | CmdUnknown \<Rightarrow> queue_error env c (Some i) UnknownCommand ''unknown command'')"

definition handle_frame :: "ipc_env \<Rightarrow> client \<Rightarrow> bytes \<Rightarrow> bool \<times> client" where
  "handle_frame env c frame =
    (case decode_frame (env_from_json env) frame of
       Inl e \<Rightarrow> (True, fst (client_queue env c (MsgError None e)))
     | Inr r \<Rightarrow>
         if \<not> cl_negotiated c then (True, handle_first env c (req_id r) (req_command r))
         else (True, handle_command env c (req_id r) (req_command r)))"

text \<open>The client with the remaining frame budget.\<close>

fun process_pending :: "ipc_env \<Rightarrow> nat \<Rightarrow> client \<Rightarrow> bool \<times> client \<times> nat" where
  "process_pending env 0 c = (True, c, 0)"
| "process_pending env (Suc budget) c =
    (case cl_pending_frames c of
       [] \<Rightarrow> (True, c, Suc budget)
     | frame # rest \<Rightarrow>
         (case handle_frame env (c\<lparr>cl_pending_frames := rest\<rparr>) frame of
            (ok, c') \<Rightarrow>
              if \<not> ok then (False, c', budget)
              else if cl_closing c' \<or> cl_immediate_close c' then (True, c', budget)
              else process_pending env budget c'))"

datatype read_result = ReadData bytes | ReadBlocks | ReadFails

fun read_loop ::
  "ipc_env \<Rightarrow> nat \<Rightarrow> read_result list \<Rightarrow> nat \<Rightarrow> client \<Rightarrow> bool \<times> client" where
  "read_loop env 0 rs budget c = (True, c)"
| "read_loop env (Suc n) [] budget c = (True, c)"
| "read_loop env (Suc n) (r # rs) budget c =
    (case r of
       ReadBlocks \<Rightarrow> (True, c)
     | ReadFails \<Rightarrow> (False, c)
     | ReadData bytes \<Rightarrow>
         (let data = take READ_CHUNK bytes
          in if data = [] then (False, c)
             else case frame_push (cl_frames c) data of
               (Inl e, buffer) \<Rightarrow>
                 (True, fst (client_queue env (c\<lparr>cl_frames := buffer, cl_closing := True\<rparr>)
                          (MsgError None e)))
             | (Inr frames, buffer) \<Rightarrow>
                 (case process_pending env budget
                         (c\<lparr>cl_frames := buffer, cl_pending_frames := cl_pending_frames c @ frames\<rparr>) of
                    (ok, c', budget') \<Rightarrow>
                      if \<not> ok then (False, c')
                      else if cl_closing c' \<or> cl_immediate_close c' \<or> budget' = 0
                           \<or> cl_pending_frames c' \<noteq> [] \<or> length data < READ_CHUNK
                      then (True, c')
                      else read_loop env n rs budget' c')))"

definition read_client :: "ipc_env \<Rightarrow> read_result list \<Rightarrow> client \<Rightarrow> bool \<times> client" where
  "read_client env rs c =
    (case process_pending env FRAME_BUDGET c of
       (ok, c', budget) \<Rightarrow>
         if \<not> ok then (False, c')
         else if budget = 0 \<or> cl_pending_frames c' \<noteq> [] \<or> cl_closing c' \<or> cl_immediate_close c'
         then (True, c')
         else read_loop env READ_BUDGET rs budget c')"

end
