(* ===== verification/Ipc_Client_Facts.thy ===== *)
theory Ipc_Client_Facts
  imports Ipc_Client
begin

text \<open>
  What a connection of \<open>crates/wiilandd/src/ipc/connection.rs\<close> promises: the byte account of its
  output queue is exact and bounded, nothing but a handshake is served before the handshake,
  every request has one answer, and what is written is what was queued.
\<close>

section \<open>The state of a connection\<close>

text \<open>The bytes that are queued and not yet written.\<close>

definition backlog :: "client \<Rightarrow> bytes" where
  "backlog c = concat (map (\<lambda>p. drop (pd_offset p) (pd_bytes p)) (cl_output c))"

definition queue_ok :: "client \<Rightarrow> bool" where
  "queue_ok c \<longleftrightarrow>
    cl_queued_bytes c = length (backlog c) \<and> cl_queued_bytes c \<le> MAX_QUEUED_BYTES
    \<and> list_all (\<lambda>p. pd_offset p < length (pd_bytes p)) (cl_output c)"

definition handshake_ok :: "client \<Rightarrow> bool" where
  "handshake_ok c \<longleftrightarrow> cl_negotiated c
    \<or> \<not> cl_input c \<and> \<not> cl_devices c \<and> cl_commands c = []"

definition limits_ok :: "client \<Rightarrow> bool" where
  "limits_ok c \<longleftrightarrow> length (cl_commands c) \<le> FRAME_BUDGET
    \<and> length (cl_capture c) \<le> MAX_CAPTURE_DEVICES \<and> distinct (cl_capture c)"

definition buffer_ok :: "client \<Rightarrow> bool" where
  "buffer_ok c \<longleftrightarrow> newline \<notin> set (cl_frames c) \<and> length (payload_of (cl_frames c)) \<le> MAX_FRAME_BYTES"

definition client_ok :: "client \<Rightarrow> bool" where
  "client_ok c \<longleftrightarrow> queue_ok c \<and> handshake_ok c \<and> limits_ok c \<and> buffer_ok c"

lemmas client_defs = client_ok_def queue_ok_def handshake_ok_def limits_ok_def buffer_ok_def

lemma Client_new_ok: "client_ok Client_new"
  by (simp add: client_defs Client_new_def backlog_def length_payload_of)

lemma client_ok_flags [simp]:
  "client_ok (c\<lparr>cl_closing := b\<rparr>) = client_ok c"
  "client_ok (c\<lparr>cl_immediate_close := b\<rparr>) = client_ok c"
  "client_ok (c\<lparr>cl_pending_frames := fs\<rparr>) = client_ok c"
  by (simp_all add: client_defs backlog_def)


section \<open>Queueing\<close>

lemma encode_frame_nonempty: "encode_frame to_json v = Inr bytes \<Longrightarrow> bytes \<noteq> []"
  by (auto simp: encode_frame_def split: sum.splits if_splits)

lemma queue_encoded_fields [simp]:
  "cl_negotiated (fst (queue_encoded c b)) = cl_negotiated c"
  "cl_closing (fst (queue_encoded c b)) = cl_closing c"
  "cl_input (fst (queue_encoded c b)) = cl_input c"
  "cl_devices (fst (queue_encoded c b)) = cl_devices c"
  "cl_commands (fst (queue_encoded c b)) = cl_commands c"
  "cl_capture (fst (queue_encoded c b)) = cl_capture c"
  "cl_frames (fst (queue_encoded c b)) = cl_frames c"
  "cl_pending_frames (fst (queue_encoded c b)) = cl_pending_frames c"
  by (simp_all add: queue_encoded_def)

lemma queue_encoded_ok: "client_ok c \<Longrightarrow> b \<noteq> [] \<Longrightarrow> client_ok (fst (queue_encoded c b))"
  by (auto simp: client_defs queue_encoded_def backlog_def)

text \<open>A message is queued whole, as one entry, or the connection is marked for closing.\<close>

definition queued_or_closed :: "ipc_env \<Rightarrow> (server_message \<Rightarrow> bool) \<Rightarrow> client \<Rightarrow> client \<Rightarrow> bool" where
  "queued_or_closed env ok c c' \<longleftrightarrow>
    cl_immediate_close c' \<and> cl_output c' = cl_output c
    \<or> (\<exists>msg bytes. ok msg \<and> encode_frame (env_to_json env) msg = Inr bytes
        \<and> cl_output c' = cl_output c @ [\<lparr>pd_bytes = bytes, pd_offset = 0\<rparr>])"

lemma queue_encoded_one:
  "ok m \<Longrightarrow> encode_frame (env_to_json env) m = Inr b \<Longrightarrow>
    queued_or_closed env ok c (fst (queue_encoded c b))"
  by (auto simp: queued_or_closed_def queue_encoded_def)

lemma client_queue_fields [simp]:
  "cl_negotiated (fst (client_queue env c m)) = cl_negotiated c"
  "cl_closing (fst (client_queue env c m)) = cl_closing c"
  "cl_input (fst (client_queue env c m)) = cl_input c"
  "cl_devices (fst (client_queue env c m)) = cl_devices c"
  "cl_commands (fst (client_queue env c m)) = cl_commands c"
  "cl_capture (fst (client_queue env c m)) = cl_capture c"
  "cl_frames (fst (client_queue env c m)) = cl_frames c"
  "cl_pending_frames (fst (client_queue env c m)) = cl_pending_frames c"
  by (simp_all add: client_queue_def split: sum.split)

lemma client_queue_ok: "client_ok c \<Longrightarrow> client_ok (fst (client_queue env c m))"
  by (auto simp: client_queue_def queue_encoded_ok encode_frame_nonempty split: sum.split)

lemma client_queue_one: "ok m \<Longrightarrow> queued_or_closed env ok c (fst (client_queue env c m))"
  by (auto simp: client_queue_def queue_encoded_one queued_or_closed_def [of _ _ _ "c\<lparr>cl_immediate_close := True\<rparr>"]
      split: sum.split)

lemma queue_response_fields [simp]:
  "cl_negotiated (fst (queue_response env c i r)) = cl_negotiated c"
  "cl_closing (fst (queue_response env c i r)) = cl_closing c"
  "cl_input (fst (queue_response env c i r)) = cl_input c"
  "cl_devices (fst (queue_response env c i r)) = cl_devices c"
  "cl_commands (fst (queue_response env c i r)) = cl_commands c"
  "cl_capture (fst (queue_response env c i r)) = cl_capture c"
  "cl_frames (fst (queue_response env c i r)) = cl_frames c"
  "cl_pending_frames (fst (queue_response env c i r)) = cl_pending_frames c"
  by (simp_all add: queue_response_def split: sum.split)

lemma queue_response_ok: "client_ok c \<Longrightarrow> client_ok (fst (queue_response env c i r))"
  by (auto simp: queue_response_def queue_encoded_ok client_queue_ok encode_frame_nonempty split: sum.split)

lemma queue_response_one:
  "ok (MsgResponse i r) \<Longrightarrow> (\<And>e. ok (MsgError (Some i) e)) \<Longrightarrow>
    queued_or_closed env ok c (fst (queue_response env c i r))"
  by (auto simp: queue_response_def client_queue_one queue_encoded_one split: sum.split)

lemma queue_error_fields [simp]:
  "cl_negotiated (queue_error env c i k m) = cl_negotiated c"
  "cl_closing (queue_error env c i k m) = cl_closing c"
  "cl_input (queue_error env c i k m) = cl_input c"
  "cl_devices (queue_error env c i k m) = cl_devices c"
  "cl_commands (queue_error env c i k m) = cl_commands c"
  "cl_capture (queue_error env c i k m) = cl_capture c"
  "cl_frames (queue_error env c i k m) = cl_frames c"
  "cl_pending_frames (queue_error env c i k m) = cl_pending_frames c"
  by (simp_all add: queue_error_def)

lemma queue_error_ok: "client_ok c \<Longrightarrow> client_ok (queue_error env c i k m)"
  by (simp add: queue_error_def client_queue_ok)

lemma queue_error_one:
  "(\<And>e. ok (MsgError i e)) \<Longrightarrow> queued_or_closed env ok c (queue_error env c i k m)"
  by (simp add: queue_error_def client_queue_one)

lemma queued_or_closed_cong:
  "cl_output c1 = cl_output c \<Longrightarrow> queued_or_closed env ok c1 c' = queued_or_closed env ok c c'"
  "queued_or_closed env ok c (c'\<lparr>cl_closing := b\<rparr>) = queued_or_closed env ok c c'"
  by (simp_all add: queued_or_closed_def)


section \<open>Writing\<close>

text \<open>Writing changes only the queue and the closing flag.\<close>

definition session_eq :: "client \<Rightarrow> client \<Rightarrow> bool" where
  "session_eq c c' \<longleftrightarrow>
    cl_negotiated c' = cl_negotiated c \<and> cl_immediate_close c' = cl_immediate_close c
    \<and> cl_input c' = cl_input c \<and> cl_devices c' = cl_devices c \<and> cl_commands c' = cl_commands c
    \<and> cl_capture c' = cl_capture c \<and> cl_frames c' = cl_frames c
    \<and> cl_pending_frames c' = cl_pending_frames c"

lemma session_eq_client_ok: "session_eq c c' \<Longrightarrow> client_ok c \<Longrightarrow> queue_ok c' \<Longrightarrow> client_ok c'"
  by (simp add: session_eq_def client_ok_def handshake_ok_def limits_ok_def buffer_ok_def)

lemma write_loop_backlog:
  "queue_ok c \<Longrightarrow> write_loop rs budget c = (ok, c', out) \<Longrightarrow>
    queue_ok c' \<and> backlog c = out @ backlog c' \<and> length out \<le> budget
    \<and> session_eq c c'
    \<and> (ok \<longrightarrow> cl_closing c' = cl_closing c)"
proof (induction rs arbitrary: budget c ok c' out)
  case Nil
  then show ?case by (simp add: session_eq_def)
next
  case (Cons r rs)
  show ?case
  proof (cases "budget = 0 \<or> cl_output c = []")
    case True
    then have "ok" "c' = c" "out = []" using Cons.prems by (auto split: list.splits)
    then show ?thesis using Cons.prems(1) by (simp add: session_eq_def)
  next
    case False
    then obtain front rest where ot: "cl_output c = front # rest" and bud: "budget \<noteq> 0"
      by (cases "cl_output c") auto
    let ?rem = "drop (pd_offset front) (pd_bytes front)"
    let ?off = "take (min (length ?rem) budget) ?rem"
    have closing: ?thesis if "(ok, c', out) = (b, c\<lparr>cl_closing := True\<rparr>, [])" "\<not> b" for b
      using that Cons.prems(1) by (auto simp: queue_ok_def backlog_def session_eq_def)
    show ?thesis
    proof (cases r)
      case WriteBlocks
      then have "ok" "c' = c" "out = []" using Cons.prems ot bud by (auto simp: Let_def)
      then show ?thesis using Cons.prems(1) by (simp add: session_eq_def)
    next
      case WriteFails
      then show ?thesis using Cons.prems ot bud closing [of False] by (simp add: Let_def)
    next
      case (Accept n)
      define w where "w = min n (length ?off)"
      have wlen: "w \<le> length ?rem" "w \<le> budget" and off: "take w ?off = take w ?rem"
        by (auto simp: w_def min_def)
      let ?front = "front\<lparr>pd_offset := pd_offset front + w\<rparr>"
      let ?out = "if pd_offset ?front = length (pd_bytes ?front) then rest else ?front # rest"
      let ?c = "c\<lparr>cl_queued_bytes := cl_queued_bytes c - w, cl_output := ?out\<rparr>"
      have eq: "write_loop (r # rs) budget c =
          (if w = 0 then (False, c\<lparr>cl_closing := True\<rparr>, [])
           else case write_loop rs (budget - w) ?c of (ok, c'', out) \<Rightarrow> (ok, c'', take w ?off @ out))"
        by (simp only: write_loop.simps ot bud Accept Let_def list.case write_result.case if_False w_def)
      show ?thesis
      proof (cases "w = 0")
        case True
        have "(ok, c', out) = (False, c\<lparr>cl_closing := True\<rparr>, [])"
          using Cons.prems(2) unfolding eq if_P [OF True] by (rule sym)
        then show ?thesis by (rule closing) simp
      next
        case w: False
        obtain ok2 c2 out2 where rec: "write_loop rs (budget - w) ?c = (ok2, c2, out2)"
          by (metis prod_cases3)
        have res: "ok = ok2" "c' = c2" "out = take w ?rem @ out2"
          using Cons.prems(2) unfolding eq if_not_P [OF w] rec off by simp_all
        have rem: "?rem = take w ?rem @ drop (pd_offset front + w) (pd_bytes front)"
          by (metis append_take_drop_id drop_drop add.commute)
        have bl: "backlog c = take w ?rem @ backlog ?c"
        proof -
          let ?tl = "concat (map (\<lambda>p. drop (pd_offset p) (pd_bytes p)) rest)"
          have "backlog c = ?rem @ ?tl" by (simp add: backlog_def ot)
          moreover have "backlog ?c = drop (pd_offset front + w) (pd_bytes front) @ ?tl"
            by (cases "pd_offset front + w = length (pd_bytes front)") (simp_all add: backlog_def)
          ultimately show ?thesis using rem by (metis append_assoc)
        qed
        then have "length (backlog c) = w + length (backlog ?c)" using wlen(1) by simp
        then have qok: "queue_ok ?c"
          using Cons.prems(1) ot wlen(1) w by (auto simp: queue_ok_def)
        have IH: "queue_ok c2 \<and> backlog ?c = out2 @ backlog c2 \<and> length out2 \<le> budget - w
            \<and> session_eq ?c c2 \<and> (ok2 \<longrightarrow> cl_closing c2 = cl_closing ?c)"
          by (rule Cons.IH [OF qok rec])
        moreover have "length (take w ?rem @ out2) \<le> budget"
        proof -
          have "length (take w ?rem) \<le> w" by simp
          then show ?thesis using IH wlen(2) unfolding length_append by linarith
        qed
        ultimately show ?thesis using bl by (simp add: res session_eq_def)
      qed
    qed
  qed
qed


section \<open>Requests\<close>

lemma apply_subscriptions_fields [simp]:
  "cl_negotiated (apply_subscriptions c subs b) = cl_negotiated c"
  "cl_closing (apply_subscriptions c subs b) = cl_closing c"
  "cl_immediate_close (apply_subscriptions c subs b) = cl_immediate_close c"
  "cl_commands (apply_subscriptions c subs b) = cl_commands c"
  "cl_capture (apply_subscriptions c subs b) = cl_capture c"
  "cl_output (apply_subscriptions c subs b) = cl_output c"
  "cl_queued_bytes (apply_subscriptions c subs b) = cl_queued_bytes c"
  "cl_frames (apply_subscriptions c subs b) = cl_frames c"
  "cl_pending_frames (apply_subscriptions c subs b) = cl_pending_frames c"
proof -
  have "cl_negotiated c' = cl_negotiated c \<and> cl_closing c' = cl_closing c
      \<and> cl_immediate_close c' = cl_immediate_close c \<and> cl_commands c' = cl_commands c
      \<and> cl_capture c' = cl_capture c \<and> cl_output c' = cl_output c
      \<and> cl_queued_bytes c' = cl_queued_bytes c \<and> cl_frames c' = cl_frames c
      \<and> cl_pending_frames c' = cl_pending_frames c"
    if "c' = apply_subscriptions c subs b" for c'
    using that
  proof (induction subs arbitrary: c)
    case (Cons s subs)
    then show ?case by (cases s) (simp_all add: apply_subscriptions_def)
  qed (simp add: apply_subscriptions_def)
  then show
    "cl_negotiated (apply_subscriptions c subs b) = cl_negotiated c"
    "cl_closing (apply_subscriptions c subs b) = cl_closing c"
    "cl_immediate_close (apply_subscriptions c subs b) = cl_immediate_close c"
    "cl_commands (apply_subscriptions c subs b) = cl_commands c"
    "cl_capture (apply_subscriptions c subs b) = cl_capture c"
    "cl_output (apply_subscriptions c subs b) = cl_output c"
    "cl_queued_bytes (apply_subscriptions c subs b) = cl_queued_bytes c"
    "cl_frames (apply_subscriptions c subs b) = cl_frames c"
    "cl_pending_frames (apply_subscriptions c subs b) = cl_pending_frames c"
    by blast+
qed

lemma apply_subscriptions_ok:
  "cl_negotiated c \<Longrightarrow> client_ok c \<Longrightarrow> client_ok (apply_subscriptions c subs b)"
  by (simp add: client_defs backlog_def)

text \<open>The answer to request \<open>i\<close>.\<close>

fun answers :: "nat \<Rightarrow> server_message \<Rightarrow> bool" where
  "answers i (MsgResponse j _) \<longleftrightarrow> i = j"
| "answers i (MsgError (Some j) _) \<longleftrightarrow> i = j"
| "answers i _ \<longleftrightarrow> False"

definition deferred :: "nat \<Rightarrow> command \<Rightarrow> client \<Rightarrow> client \<Rightarrow> bool" where
  "deferred i cmd c c' \<longleftrightarrow> cl_commands c' = cl_commands c @ [(i, cmd)] \<and> cl_output c' = cl_output c"

lemma defer_command_props:
  assumes "client_ok c" "cl_negotiated c"
  shows "client_ok (defer_command env c i cmd)"
    "cl_negotiated (defer_command env c i cmd)"
    "cl_pending_frames (defer_command env c i cmd) = cl_pending_frames c"
    "cl_commands (defer_command env c i cmd) = cl_commands c
        \<and> queued_or_closed env (answers i) c (defer_command env c i cmd)
      \<or> deferred i cmd c (defer_command env c i cmd)"
proof -
  show "client_ok (defer_command env c i cmd)"
  proof -
    have "length (cl_commands c) < FRAME_BUDGET \<Longrightarrow>
        client_ok (c\<lparr>cl_commands := cl_commands c @ [(i, cmd)]\<rparr>)"
      using assms by (simp add: client_defs backlog_def)
    then show ?thesis
      using assms(1) queue_error_ok [OF assms(1)] by (simp add: defer_command_def)
  qed
  show "cl_negotiated (defer_command env c i cmd)" using assms(2) by (simp add: defer_command_def)
  show "cl_pending_frames (defer_command env c i cmd) = cl_pending_frames c"
    by (simp add: defer_command_def)
  show "cl_commands (defer_command env c i cmd) = cl_commands c
        \<and> queued_or_closed env (answers i) c (defer_command env c i cmd)
      \<or> deferred i cmd c (defer_command env c i cmd)"
    using queue_error_one [of "answers i" "Some i" env c]
    by (auto simp: defer_command_def deferred_def queued_or_closed_def [of _ _ _ "c\<lparr>cl_immediate_close := True\<rparr>"])
qed

lemma handle_first_props:
  assumes "client_ok c" "\<not> cl_negotiated c"
  shows "client_ok (handle_first env c i cmd)"
    "cl_pending_frames (handle_first env c i cmd) = cl_pending_frames c"
    "cl_commands (handle_first env c i cmd) = cl_commands c"
    "queued_or_closed env (answers i) c (handle_first env c i cmd)"
    "cl_negotiated (handle_first env c i cmd) \<or> cl_closing (handle_first env c i cmd)"
proof -
  have "client_ok (c\<lparr>cl_negotiated := True\<rparr>)"
    using assms(1) by (simp add: client_defs backlog_def)
  then show "client_ok (handle_first env c i cmd)"
    using assms(1) by (cases cmd) (simp_all add: handle_first_def queue_response_ok queue_error_ok)
  show "cl_pending_frames (handle_first env c i cmd) = cl_pending_frames c"
    "cl_commands (handle_first env c i cmd) = cl_commands c"
    "cl_negotiated (handle_first env c i cmd) \<or> cl_closing (handle_first env c i cmd)"
    by (cases cmd; simp add: handle_first_def)+
  have "queued_or_closed env (answers i) c (queue_error env c (Some i) k m)" for k m
    by (rule queue_error_one) simp
  moreover have "queued_or_closed env (answers i) c (fst (queue_response env (c\<lparr>cl_negotiated := True\<rparr>) i r))" for r
    using queue_response_one [of "answers i" i r env "c\<lparr>cl_negotiated := True\<rparr>"]
    by (simp add: queued_or_closed_cong(1) [of "c\<lparr>cl_negotiated := True\<rparr>" c])
  ultimately show "queued_or_closed env (answers i) c (handle_first env c i cmd)"
    by (cases cmd) (simp_all add: handle_first_def queued_or_closed_cong(2))
qed

lemma handle_command_props:
  assumes "client_ok c" "cl_negotiated c"
  shows "client_ok (handle_command env c i cmd)"
    "cl_negotiated (handle_command env c i cmd)"
    "cl_pending_frames (handle_command env c i cmd) = cl_pending_frames c"
    "cl_commands (handle_command env c i cmd) = cl_commands c
        \<and> queued_or_closed env (answers i) c (handle_command env c i cmd)
      \<or> deferred i cmd c (handle_command env c i cmd)"
proof -
  note dfr = defer_command_props [OF assms, of env i cmd]
  have err: "queued_or_closed env (answers i) c (queue_error env c (Some i) k m)" for k m
    by (rule queue_error_one) simp
  have resp: "queued_or_closed env (answers i) c (fst (queue_response env c i r))" for r
    by (rule queue_response_one) simp_all
  have sub: "queued_or_closed env (answers i) c (fst (queue_response env (apply_subscriptions c ss b) i r))" for ss b r
    using queue_response_one [of "answers i" i r env "apply_subscriptions c ss b"]
    by (simp add: queued_or_closed_cong(1) [of "apply_subscriptions c ss b" c])
  have sub_ok: "client_ok (fst (queue_response env (apply_subscriptions c ss b) i r))" for ss b r
    by (rule queue_response_ok [OF apply_subscriptions_ok [OF assms(2,1)]])
  show "client_ok (handle_command env c i cmd)"
    using dfr(1) sub_ok queue_response_ok [OF assms(1)] queue_error_ok [OF assms(1)]
    by (cases cmd) (simp_all add: handle_command_def)
  show "cl_negotiated (handle_command env c i cmd)"
    using dfr(2) assms(2) by (cases cmd) (simp_all add: handle_command_def)
  show "cl_pending_frames (handle_command env c i cmd) = cl_pending_frames c"
    using dfr(3) by (cases cmd) (simp_all add: handle_command_def)
  show "cl_commands (handle_command env c i cmd) = cl_commands c
        \<and> queued_or_closed env (answers i) c (handle_command env c i cmd)
      \<or> deferred i cmd c (handle_command env c i cmd)"
    using dfr(4) err resp sub by (cases cmd) (simp_all add: handle_command_def)
qed

lemma handle_frame_ok: "client_ok c \<Longrightarrow> client_ok (snd (handle_frame env c f))"
  using handle_first_props(1) [of c] handle_command_props(1) [of c]
  by (auto simp: handle_frame_def client_queue_ok split: sum.split)

lemma handle_frame_True [simp]: "fst (handle_frame env c f)"
  by (auto simp: handle_frame_def split: sum.split)

lemma process_pending_ok:
  "client_ok c \<Longrightarrow> client_ok (fst (snd (process_pending env n c))) \<and> fst (process_pending env n c)
    \<and> snd (snd (process_pending env n c)) \<le> n"
proof (induction env n c rule: process_pending.induct)
  case (2 env n c)
  show ?case
  proof (cases "cl_pending_frames c")
    case (Cons f rest)
    obtain ok c' where h: "handle_frame env (c\<lparr>cl_pending_frames := rest\<rparr>) f = (ok, c')" by force
    have "client_ok c'" "ok"
      using handle_frame_ok [of "c\<lparr>cl_pending_frames := rest\<rparr>" env f] "2.prems" h
        handle_frame_True [of env "c\<lparr>cl_pending_frames := rest\<rparr>" f] by simp_all
    then show ?thesis
      using Cons "2.IH" [OF Cons h [symmetric]] h by auto
  qed (use "2.prems" in simp)
qed simp

lemma frame_loop_buffer:
  "newline \<notin> set buffer \<Longrightarrow> length (payload_of buffer) \<le> MAX_FRAME_BYTES \<Longrightarrow>
    newline \<notin> set (snd (frame_loop buffer input frames))
    \<and> length (payload_of (snd (frame_loop buffer input frames))) \<le> MAX_FRAME_BYTES"
proof (induction buffer input frames rule: frame_loop.induct)
  case (1 buffer input frames)
  show ?case
  proof (cases "fst (frame_loop buffer input frames)")
    case (Inr fs)
    then show ?thesis using frame_loop_spec [OF "1.prems", of input frames] split_lines_tail
      by (auto simp: push_spec_def stream_ok_def split_beta)
  next
    case err: (Inl e)
    show ?thesis
    proof (cases "input = []")
      case True
      then show ?thesis using "1.prems" by (simp add: frame_loop.simps [of buffer])
    next
      case ne: False
      show ?thesis
      proof (cases "position (\<lambda>b. b = newline) input")
        case None
        then show ?thesis using "1.prems" ne err
          by (simp add: frame_loop.simps [of buffer] Let_def split: if_splits)
      next
        case (Some n)
        have "length (payload_of []) \<le> MAX_FRAME_BYTES" by (simp add: length_payload_of)
        then show ?thesis
          using "1.prems" "1.IH" [OF ne Some refl refl refl]
          unfolding frame_loop_newline [OF ne Some] part_payload
          by (auto simp: payload_of_def)
      qed
    qed
  qed
qed

lemma read_loop_ok: "client_ok c \<Longrightarrow> client_ok (snd (read_loop env n rs budget c))"
proof (induction env n rs budget c rule: read_loop.induct)
  case (3 env n r rs budget c)
  show ?case
  proof (cases r)
    case (ReadData bytes)
    let ?data = "take READ_CHUNK bytes"
    let ?push = "frame_push (cl_frames c) ?data"
    have buf: "newline \<notin> set (snd ?push) \<and> length (payload_of (snd ?push)) \<le> MAX_FRAME_BYTES"
      unfolding frame_push_def using "3.prems"
      by (intro frame_loop_buffer) (simp_all add: client_ok_def buffer_ok_def)
    have upd: "client_ok (c\<lparr>cl_frames := snd ?push\<rparr>)"
      using "3.prems" buf by (simp add: client_defs backlog_def)
    show ?thesis
    proof (cases "?data = []")
      case False
      show ?thesis
      proof (cases "fst ?push")
        case (Inl e)
        have "client_ok (c\<lparr>cl_frames := snd ?push, cl_closing := True\<rparr>)"
          using upd client_ok_flags(1) [where c = "c\<lparr>cl_frames := snd ?push\<rparr>"] by simp
        then show ?thesis using ReadData False Inl
          by (simp add: Let_def split_beta client_queue_ok)
      next
        case (Inr fs)
        let ?c = "c\<lparr>cl_frames := snd ?push, cl_pending_frames := cl_pending_frames c @ fs\<rparr>"
        obtain buf where push: "?push = (Inr fs, buf)" using Inr by (cases ?push) simp
        obtain ok c' budget' where r: "process_pending env budget
            (c\<lparr>cl_frames := buf, cl_pending_frames := cl_pending_frames c @ fs\<rparr>) = (ok, c', budget')"
          by (metis prod_cases3)
        have "client_ok ?c"
          using upd client_ok_flags(3) [where c = "c\<lparr>cl_frames := snd ?push\<rparr>"] by simp
        then have "client_ok c'" "ok" using process_pending_ok [of ?c env budget] r push by simp_all
        then show ?thesis
          using "3.IH" [OF ReadData refl False push [symmetric] refl r [symmetric] refl]
            ReadData False push r
          by (auto simp: Let_def)
      qed
    qed (use ReadData "3.prems" in simp)
  qed (use "3.prems" in simp_all)
qed simp_all

lemma read_client_ok: "client_ok c \<Longrightarrow> client_ok (snd (read_client env rs c))"
  using process_pending_ok [of c env FRAME_BUDGET]
  by (auto simp: read_client_def split_beta intro: read_loop_ok)

end
