(* ===== verification/Ipc_Server.thy ===== *)
theory Ipc_Server
  imports Ipc_Client_Facts
begin

text \<open>
  The socket server of \<open>crates/wiilandd/src/ipc/mod.rs\<close> over its connections. The hash map of
  clients is an association list with distinct tokens (its order stands for the map's
  arbitrary iteration order; a new client goes to the end). Descriptors and the setup of the
  socket (\<open>bind\<close>, \<open>socket.rs\<close>) are outside the model; the results of \<open>accept\<close>, \<open>read\<close> and
  \<open>write\<close> are arguments. The unbounded loop of \<open>allocate_token\<close> is a partial function whose
  value is \<open>None\<close> where the loop does not end.
\<close>

section \<open>State\<close>

definition LISTENER_TOKEN :: nat where "LISTENER_TOKEN = 1"

text \<open>The event bits of \<open>poll\<close>.\<close>

definition POLLIN :: u16 where "POLLIN = 0x1"
definition POLLOUT :: u16 where "POLLOUT = 0x4"
definition POLLERR :: u16 where "POLLERR = 0x8"
definition POLLHUP :: u16 where "POLLHUP = 0x10"
definition POLLNVAL :: u16 where "POLLNVAL = 0x20"

record ipc_server =
  srv_clients :: "(nat \<times> client) list"
  srv_next_token :: nat

definition IpcServer_new :: ipc_server where
  "IpcServer_new = \<lparr>srv_clients = [], srv_next_token = 2\<rparr>"

record poll_source =
  ps_token :: nat
  ps_events :: u16

definition has_input_subscribers :: "ipc_server \<Rightarrow> bool" where
  "has_input_subscribers s \<longleftrightarrow>
    list_ex (\<lambda>(t, c). cl_negotiated c \<and> cl_input c \<and> \<not> cl_closing c \<and> \<not> cl_immediate_close c)
      (srv_clients s)"

definition poll_sources :: "ipc_server \<Rightarrow> poll_source list" where
  "poll_sources s =
    \<lparr>ps_token = LISTENER_TOKEN, ps_events = POLLIN\<rparr> #
    map (\<lambda>(t, c).
      \<lparr>ps_token = t,
       ps_events =
         (if \<not> cl_closing c \<and> \<not> cl_immediate_close c then POLLIN else 0)
         OR (if \<not> cl_immediate_close c \<and> (cl_output c \<noteq> [] \<or> cl_pending_frames c \<noteq> [])
             then POLLOUT else 0)\<rparr>)
      (srv_clients s)"


section \<open>Accepting\<close>

text \<open>\<open>wrapping_add(1)\<close> on a \<open>u64\<close>, then the two reserved numbers are skipped.\<close>

definition next_token :: "nat \<Rightarrow> nat" where
  "next_token t =
    (let n = (t + 1) mod 18446744073709551616 in if n = 0 \<or> n = LISTENER_TOKEN then 2 else n)"

partial_function (option) allocate_loop :: "nat list \<Rightarrow> nat \<Rightarrow> (nat \<times> nat) option" where
  "allocate_loop used token =
    (if token > LISTENER_TOKEN \<and> token \<notin> set used then Some (token, next_token token)
     else allocate_loop used (next_token token))"

definition allocate_token :: "ipc_server \<Rightarrow> (nat \<times> ipc_server) option" where
  "allocate_token s =
    map_option (\<lambda>(token, n). (token, s\<lparr>srv_next_token := n\<rparr>))
      (allocate_loop (map fst (srv_clients s)) (srv_next_token s))"

text \<open>\<open>Accepted b\<close>: a connection, \<open>b\<close> whether it could be made nonblocking.\<close>

datatype accept_result = Accepted bool | AcceptBlocks | AcceptFails string

fun accept_loop ::
  "nat \<Rightarrow> accept_result list \<Rightarrow> ipc_server \<Rightarrow> (string option \<times> ipc_server) option" where
  "accept_loop 0 rs s = Some (None, s)"
| "accept_loop (Suc n) [] s = Some (None, s)"
| "accept_loop (Suc n) (r # rs) s =
    (case r of
       AcceptBlocks \<Rightarrow> Some (None, s)
     | AcceptFails e \<Rightarrow> Some (Some e, s)
     | Accepted nonblocking \<Rightarrow>
         if \<not> nonblocking then accept_loop n rs s
         else if length (srv_clients s) \<ge> MAX_CLIENTS then accept_loop n rs s
         else case allocate_token s of
           None \<Rightarrow> None
         | Some (token, s') \<Rightarrow>
             accept_loop n rs (s'\<lparr>srv_clients := srv_clients s' @ [(token, Client_new)]\<rparr>))"

definition accept_ready :: "accept_result list \<Rightarrow> ipc_server \<Rightarrow> (string option \<times> ipc_server) option" where
  "accept_ready rs s = accept_loop ACCEPT_BUDGET rs s"


section \<open>Serving a ready connection\<close>

text \<open>The body of \<open>handle_ready\<close> for one client: whether to remove it, and what was written.\<close>

definition serve_client ::
  "ipc_env \<Rightarrow> u16 \<Rightarrow> read_result list \<Rightarrow> write_result list \<Rightarrow> client \<Rightarrow> bool \<times> client \<times> bytes" where
  "serve_client env revents reads writes c =
    (let (remove, c) =
           (if \<not> cl_closing c \<and> \<not> cl_immediate_close c
               \<and> (revents AND (POLLIN OR POLLERR OR POLLHUP OR POLLNVAL) \<noteq> 0
                  \<or> cl_pending_frames c \<noteq> [])
            then (case read_client env reads c of (ok, c') \<Rightarrow> (\<not> ok, c'))
            else (False, c));
         remove = (remove \<or> cl_immediate_close c);
         (remove, c, out) =
           (if \<not> remove \<and> (revents AND POLLOUT \<noteq> 0 \<or> cl_output c \<noteq> [])
            then (case write_ready writes c of (ok, c', out) \<Rightarrow> (\<not> ok, c', out))
            else (remove, c, []))
     in (remove \<or> cl_immediate_close c \<or> cl_closing c \<and> cl_output c = [], c, out))"

definition put_client :: "(nat \<times> client) list \<Rightarrow> nat \<Rightarrow> client \<Rightarrow> (nat \<times> client) list" where
  "put_client cs t c = map (\<lambda>(t', c'). if t' = t then (t', c) else (t', c')) cs"

definition handle_ready ::
  "ipc_env \<Rightarrow> nat \<Rightarrow> u16 \<Rightarrow> accept_result list \<Rightarrow> read_result list \<Rightarrow> write_result list \<Rightarrow> ipc_server \<Rightarrow>
    (string option \<times> ipc_server \<times> bytes) option" where
  "handle_ready env token revents accepts reads writes s =
    (if token = LISTENER_TOKEN then
       (if revents AND POLLNVAL \<noteq> 0 then Some (Some ''IPC listener became invalid'', s, [])
        else if revents AND (POLLIN OR POLLERR OR POLLHUP) \<noteq> 0
        then map_option (\<lambda>(e, s'). (e, s', [])) (accept_ready accepts s)
        else Some (None, s, []))
     else case map_of (srv_clients s) token of
       None \<Rightarrow> Some (None, s, [])
     | Some c \<Rightarrow>
         (case serve_client env revents reads writes c of (remove, c', out) \<Rightarrow>
            Some (None,
              s\<lparr>srv_clients :=
                  (if remove then filter (\<lambda>(t, _). t \<noteq> token) (srv_clients s)
                   else put_client (srv_clients s) token c')\<rparr>,
              out)))"


section \<open>Commands and notifications\<close>

definition live :: "client \<Rightarrow> bool" where
  "live c \<longleftrightarrow> \<not> cl_closing c \<and> \<not> cl_immediate_close c"

definition take_commands :: "ipc_server \<Rightarrow> (nat \<times> nat \<times> command) list \<times> ipc_server" where
  "take_commands s =
    (concat (map (\<lambda>(t, c). if live c then map (\<lambda>(i, cmd). (t, i, cmd)) (cl_commands c) else [])
       (srv_clients s)),
     s\<lparr>srv_clients := map (\<lambda>(t, c). (t, if live c then c\<lparr>cl_commands := []\<rparr> else c)) (srv_clients s)\<rparr>)"

definition complete_client :: "ipc_env \<Rightarrow> client \<Rightarrow> nat \<Rightarrow> protocol_error + response_result \<Rightarrow> client" where
  "complete_client env c i result =
    (case result of
       Inl e \<Rightarrow> fst (client_queue env c (MsgError (Some i) e))
     | Inr r \<Rightarrow>
         if (case r of
               ResCaptureStarted info \<Rightarrow>
                 length (cl_capture c) \<ge> MAX_CAPTURE_DEVICES \<and> di_syspath info \<notin> set (cl_capture c)
             | _ \<Rightarrow> False)
         then queue_error env c (Some i) InvalidRequest ''capture device limit reached''
         else
           fst (queue_response env
             (case r of
                ResCaptureStarted info \<Rightarrow>
                  if di_syspath info \<in> set (cl_capture c) then c
                  else c\<lparr>cl_capture := cl_capture c @ [di_syspath info]\<rparr>
              | ResCaptureStopped \<Rightarrow> c\<lparr>cl_capture := []\<rparr>
              | _ \<Rightarrow> c) i r))"

definition complete_command ::
  "ipc_env \<Rightarrow> nat \<Rightarrow> nat \<Rightarrow> protocol_error + response_result \<Rightarrow> ipc_server \<Rightarrow> ipc_server" where
  "complete_command env token i result s =
    (case map_of (srv_clients s) token of
       None \<Rightarrow> s
     | Some c \<Rightarrow> s\<lparr>srv_clients := put_client (srv_clients s) token (complete_client env c i result)\<rparr>)"

definition capture_paths :: "ipc_server \<Rightarrow> string list" where
  "capture_paths s = concat (map (\<lambda>(t, c). if live c then cl_capture c else []) (srv_clients s))"

definition publish_client :: "notification \<Rightarrow> bytes \<Rightarrow> client \<Rightarrow> client" where
  "publish_client note frame c =
    (if cl_negotiated c \<and> \<not> cl_closing c \<and> \<not> cl_immediate_close c \<and> client_wants c note
     then fst (queue_encoded c frame) else c)"

definition publish :: "ipc_env \<Rightarrow> notification \<Rightarrow> ipc_server \<Rightarrow> ipc_server" where
  "publish env note s =
    (case encode_frame (env_to_json env) (MsgNotification note) of
       Inl _ \<Rightarrow> s
     | Inr frame \<Rightarrow>
         s\<lparr>srv_clients :=
             filter (\<lambda>(t, c). \<not> cl_immediate_close c)
               (map (\<lambda>(t, c). (t, publish_client note frame c)) (srv_clients s))\<rparr>)"


section \<open>The server as a machine\<close>

datatype server_input =
    SrvReady nat u16 "accept_result list" "read_result list" "write_result list"
  | SrvPublish notification
  | SrvTakeCommands
  | SrvComplete nat nat "protocol_error + response_result"

inductive server_step :: "ipc_env \<Rightarrow> ipc_server \<Rightarrow> server_input \<Rightarrow> ipc_server \<Rightarrow> bool" for env where
  ready: "handle_ready env t ev as rs ws s = Some (e, s', out) \<Longrightarrow>
            server_step env s (SrvReady t ev as rs ws) s'"
| publish: "server_step env s (SrvPublish note) (publish env note s)"
| take: "server_step env s SrvTakeCommands (snd (take_commands s))"
| complete: "server_step env s (SrvComplete t i result) (complete_command env t i result s)"

inductive server_reachable :: "ipc_env \<Rightarrow> ipc_server \<Rightarrow> bool" for env where
  start: "server_reachable env IpcServer_new"
| step: "server_reachable env s \<Longrightarrow> server_step env s i s' \<Longrightarrow> server_reachable env s'"

inductive_cases server_step_cases [elim]: "server_step env s i s'"

inductive_simps server_step_simps:
  "server_step env s (SrvReady t ev as rs ws) s'"
  "server_step env s (SrvPublish note) s'"
  "server_step env s SrvTakeCommands s'"
  "server_step env s (SrvComplete t i result) s'"

end
