(* ===== verification/Ipc_Server_Facts.thy ===== *)
theory Ipc_Server_Facts
  imports Ipc_Server
begin

text \<open>
  What the socket server of \<open>crates/wiilandd/src/ipc/mod.rs\<close> promises in every reachable state:
  distinct tokens, a bounded number of clients, an exact and bounded byte account for each of
  them; accepting always finds a token; a notification reaches exactly its subscribers.
\<close>

section \<open>Fresh tokens\<close>

definition token_ok :: "nat \<Rightarrow> bool" where
  "token_ok t \<longleftrightarrow> 2 \<le> t \<and> t < 18446744073709551616"

lemma next_token_ok: "token_ok (next_token t)"
proof -
  have "(t + 1) mod 18446744073709551616 < 18446744073709551616" by simp
  then show ?thesis by (auto simp: token_ok_def next_token_def Let_def LISTENER_TOKEN_def)
qed

text \<open>On valid tokens \<open>next_token\<close> is the successor modulo their number.\<close>

lemma token_ok_add: "token_ok t \<longleftrightarrow> (\<exists>u < 18446744073709551614. t = 2 + u)"
  by (auto simp: token_ok_def intro: exI [of _ "t - 2"])

lemma next_token_mod:
  assumes "u < 18446744073709551614"
  shows "next_token (2 + u) = 2 + (u + 1) mod 18446744073709551614"
proof (cases "u = 18446744073709551613")
  case True
  then show ?thesis by (simp add: next_token_def)
next
  case False
  then have "(2 + u + 1) mod 18446744073709551616 = 2 + u + 1"
    "(u + 1) mod 18446744073709551614 = u + 1"
    using assms by auto
  then show ?thesis by (simp add: next_token_def LISTENER_TOKEN_def)
qed

lemma funpow_token:
  "u < 18446744073709551614 \<Longrightarrow> (next_token ^^ k) (2 + u) = 2 + (u + k) mod 18446744073709551614"
proof (induction k)
  case (Suc k)
  have "(u + k) mod 18446744073709551614 < 18446744073709551614" by simp
  from next_token_mod [OF this] show ?case using Suc by (simp add: mod_simps)
qed simp

lemma funpow_token_inj:
  assumes "token_ok t" "j < k" "k < 18446744073709551614"
  shows "(next_token ^^ j) t \<noteq> (next_token ^^ k) t"
proof
  assume eq: "(next_token ^^ j) t = (next_token ^^ k) t"
  from assms(1) obtain u where u: "u < 18446744073709551614" "t = 2 + u" by (auto simp: token_ok_add)
  then have "(u + j) mod 18446744073709551614 = (u + k) mod 18446744073709551614"
    using eq funpow_token [OF u(1)] by simp
  then have "18446744073709551614 dvd (u + k) - (u + j)"
    using assms(2) by (metis add_le_cancel_left less_imp_le mod_eq_dvd_iff_nat)
  then have "18446744073709551614 dvd k - j" by simp
  then have "18446744073709551614 \<le> k - j" using assms(2) by (auto dest: dvd_imp_le)
  then show False using assms(3) by linarith
qed

lemma allocate_loop_free:
  "token_ok t \<Longrightarrow> t \<notin> set used \<Longrightarrow> allocate_loop used t = Some (t, next_token t)"
  by (subst allocate_loop.simps) (simp add: token_ok_def LISTENER_TOKEN_def)

lemma allocate_loop_used: "t \<in> set used \<Longrightarrow> allocate_loop used t = allocate_loop used (next_token t)"
  by (subst allocate_loop.simps) simp

lemma allocate_loop_finds:
  "token_ok t \<Longrightarrow> (next_token ^^ k) t \<notin> set used \<Longrightarrow>
    \<exists>token. allocate_loop used t = Some (token, next_token token) \<and> token_ok token \<and> token \<notin> set used"
proof (induction k arbitrary: t)
  case 0
  then show ?case using allocate_loop_free [of t used] by auto
next
  case (Suc k)
  show ?case
  proof (cases "t \<in> set used")
    case True
    have "(next_token ^^ k) (next_token t) \<notin> set used"
      using Suc.prems(2) by (simp add: funpow_swap1)
    then show ?thesis using Suc.IH [OF next_token_ok] allocate_loop_used [OF True] by simp
  next
    case False
    then show ?thesis using Suc.prems(1) allocate_loop_free [of t used] by blast
  qed
qed

lemma allocate_loop_returns:
  assumes "token_ok t" "length used < 18446744073709551614"
  obtains token where "allocate_loop used t = Some (token, next_token token)"
    "token_ok token" "token \<notin> set used"
proof -
  let ?f = "\<lambda>k. (next_token ^^ k) t"
  have "inj_on ?f {..length used}"
  proof (rule linorder_inj_onI)
    fix j k assume "j < k" "j \<in> {..length used}" "k \<in> {..length used}"
    then show "?f j \<noteq> ?f k" using assms by (intro funpow_token_inj) auto
  qed auto
  then have "card (?f ` {..length used}) = Suc (length used)" by (simp add: card_image)
  moreover have "card (set used) \<le> length used" by (rule card_length)
  ultimately have "\<not> ?f ` {..length used} \<subseteq> set used"
    by (metis List.finite_set Suc_n_not_le_n card_mono le_trans)
  then obtain k where "?f k \<notin> set used" by blast
  then show thesis using allocate_loop_finds [OF assms(1)] that by blast
qed


section \<open>The invariant\<close>

definition server_ok :: "ipc_server \<Rightarrow> bool" where
  "server_ok s \<longleftrightarrow>
    distinct (map fst (srv_clients s)) \<and> list_all (\<lambda>(t, c). token_ok t \<and> client_ok c) (srv_clients s)
    \<and> length (srv_clients s) \<le> MAX_CLIENTS \<and> token_ok (srv_next_token s)"

lemma IpcServer_new_ok: "server_ok IpcServer_new"
  by (simp add: server_ok_def IpcServer_new_def token_ok_def)

lemma server_ok_lookup: "server_ok s \<Longrightarrow> map_of (srv_clients s) t = Some c \<Longrightarrow> client_ok c \<and> token_ok t"
  by (auto simp: server_ok_def list_all_iff dest!: map_of_SomeD)

lemma allocate_token_ok:
  assumes "server_ok s"
  obtains token s' where "allocate_token s = Some (token, s')" "token_ok token"
    "token \<notin> fst ` set (srv_clients s)" "srv_clients s' = srv_clients s" "token_ok (srv_next_token s')"
proof -
  have "length (map fst (srv_clients s)) < 18446744073709551614"
    using assms by (simp add: server_ok_def MAX_CLIENTS_def)
  then obtain token where
    "allocate_loop (map fst (srv_clients s)) (srv_next_token s) = Some (token, next_token token)"
    "token_ok token" "token \<notin> set (map fst (srv_clients s))"
    using assms allocate_loop_returns [of "srv_next_token s"] by (metis server_ok_def)
  then show thesis
    by (intro that [of token "s\<lparr>srv_next_token := next_token token\<rparr>"])
      (simp_all add: allocate_token_def next_token_ok)
qed

lemma accept_loop_ok:
  "server_ok s \<Longrightarrow> \<exists>e s'. accept_loop n rs s = Some (e, s') \<and> server_ok s'
    \<and> (\<exists>new. srv_clients s' = srv_clients s @ new \<and> list_all (\<lambda>(t, c). c = Client_new) new)"
proof (induction n arbitrary: rs s)
  case (Suc n)
  show ?case
  proof (cases rs)
    case (Cons r rs')
    show ?thesis
    proof (cases r)
      case (Accepted nonblocking)
      show ?thesis
      proof (cases "nonblocking \<and> length (srv_clients s) < MAX_CLIENTS")
        case True
        from allocate_token_ok [OF Suc.prems] obtain token s1 where t: "allocate_token s = Some (token, s1)"
          "token_ok token" "token \<notin> fst ` set (srv_clients s)" "srv_clients s1 = srv_clients s"
          "token_ok (srv_next_token s1)" .
        let ?s = "s1\<lparr>srv_clients := srv_clients s1 @ [(token, Client_new)]\<rparr>"
        have "server_ok ?s" using Suc.prems t True
          by (auto simp: server_ok_def Client_new_ok)
        from Suc.IH [OF this, of rs'] t(4) show ?thesis
          using Cons Accepted True t(1) by (auto simp: not_le)
      next
        case False
        then show ?thesis using Suc.IH [OF Suc.prems, of rs'] Cons Accepted by (auto simp: not_less)
      qed
    qed (use Suc.prems Cons in auto)
  qed (use Suc.prems in auto)
qed auto

lemma serve_client_ok:
  assumes "client_ok c" "serve_client env ev rs ws c = (remove, c', out)"
  shows "client_ok c'"
proof -
  define c1 where "c1 = (if \<not> cl_closing c \<and> \<not> cl_immediate_close c
      \<and> (ev AND (POLLIN OR POLLERR OR POLLHUP OR POLLNVAL) \<noteq> 0 \<or> cl_pending_frames c \<noteq> [])
    then snd (read_client env rs c) else c)"
  have c1: "client_ok c1" using assms(1) by (simp add: c1_def read_client_ok)
  have w: "client_ok (fst (snd (write_ready ws c1)))"
  proof -
    obtain ok c2 out2 where r: "write_loop ws WRITE_BUDGET c1 = (ok, c2, out2)" by (metis prod_cases3)
    have "queue_ok c1" using c1 by (simp add: client_ok_def)
    from write_loop_backlog [OF this r] have "queue_ok c2" "session_eq c1 c2" by auto
    then show ?thesis using session_eq_client_ok [OF _ c1] r by (simp add: write_ready_def)
  qed
  have "c' = c1 \<or> c' = fst (snd (write_ready ws c1))"
    using assms(2) by (auto simp: serve_client_def c1_def Let_def split_beta split: if_splits)
  then show ?thesis using c1 w by auto
qed

lemma put_client_keys [simp]: "map fst (put_client cs t c) = map fst cs"
  by (simp add: put_client_def split_beta o_def if_distrib cong: if_cong)

lemma put_client_length [simp]: "length (put_client cs t c) = length cs"
  by (simp add: put_client_def)

lemma put_client_ok:
  "server_ok s \<Longrightarrow> client_ok c \<Longrightarrow> server_ok (s\<lparr>srv_clients := put_client (srv_clients s) t c\<rparr>)"
  by (auto simp: server_ok_def list_all_iff) (auto simp: put_client_def split: if_splits)

lemma map_clients_ok:
  assumes "server_ok s" "\<And>t c. (t, c) \<in> set (srv_clients s) \<Longrightarrow> client_ok c \<Longrightarrow> client_ok (f c)"
  shows "server_ok (s\<lparr>srv_clients := map (\<lambda>(t, c). (t, f c)) (srv_clients s)\<rparr>)"
proof -
  have "map fst (map (\<lambda>(t, c). (t, f c)) (srv_clients s)) = map fst (srv_clients s)"
    by (simp add: split_beta o_def)
  moreover have "list_all (\<lambda>(t, c). token_ok t \<and> client_ok c) (map (\<lambda>(t, c). (t, f c)) (srv_clients s))"
    using assms by (auto simp: server_ok_def list_all_iff)
  ultimately show ?thesis using assms(1) by (simp add: server_ok_def del: list.map_comp map_map)
qed

lemma filter_clients_ok:
  "server_ok s \<Longrightarrow> server_ok (s\<lparr>srv_clients := filter P (srv_clients s)\<rparr>)"
  by (auto simp: server_ok_def list_all_iff distinct_map_filter intro: le_trans [OF length_filter_le])

lemma handle_ready_ok:
  assumes "server_ok s"
  shows "\<exists>e s' out. handle_ready env t ev as rs ws s = Some (e, s', out) \<and> server_ok s'"
proof (cases "t = LISTENER_TOKEN")
  case True
  then show ?thesis using accept_loop_ok [OF assms, of ACCEPT_BUDGET as] assms
    by (auto simp: handle_ready_def accept_ready_def)
next
  case False
  show ?thesis
  proof (cases "map_of (srv_clients s) t")
    case None
    then show ?thesis using False assms by (simp add: handle_ready_def)
  next
    case (Some c)
    obtain remove c' out where serve: "serve_client env ev rs ws c = (remove, c', out)"
      by (metis prod_cases3)
    have "client_ok c'" using serve_client_ok [OF _ serve] server_ok_lookup [OF assms Some] by simp
    then show ?thesis
      using False Some serve put_client_ok [OF assms] filter_clients_ok [OF assms]
      by (simp add: handle_ready_def)
  qed
qed

lemma publish_client_ok: "client_ok c \<Longrightarrow> frame \<noteq> [] \<Longrightarrow> client_ok (publish_client note frame c)"
  by (simp add: publish_client_def queue_encoded_ok)

lemma publish_ok: "server_ok s \<Longrightarrow> server_ok (publish env note s)"
  unfolding publish_def
proof (cases "encode_frame (env_to_json env) (MsgNotification note)")
  case (Inr frame)
  assume s: "server_ok s"
  note ne = encode_frame_nonempty [OF Inr]
  have "server_ok (s\<lparr>srv_clients := map (\<lambda>(t, c). (t, publish_client note frame c)) (srv_clients s)\<rparr>)"
    by (rule map_clients_ok [OF s]) (simp add: publish_client_ok ne)
  from filter_clients_ok [OF this, of "\<lambda>(t, c). \<not> cl_immediate_close c"]
  show "server_ok (case encode_frame (env_to_json env) (MsgNotification note) of
      Inl _ \<Rightarrow> s
    | Inr frame \<Rightarrow> s\<lparr>srv_clients := filter (\<lambda>(t, c). \<not> cl_immediate_close c)
        (map (\<lambda>(t, c). (t, publish_client note frame c)) (srv_clients s))\<rparr>)"
    by (simp add: Inr)
qed simp

lemma take_commands_ok: "server_ok s \<Longrightarrow> server_ok (snd (take_commands s))"
  unfolding take_commands_def snd_conv
  by (rule map_clients_ok) (auto simp: client_defs backlog_def)

lemma complete_client_ok: "client_ok c \<Longrightarrow> client_ok (complete_client env c i result)"
proof (cases result)
  case (Inl e)
  assume "client_ok c" then show ?thesis by (simp add: Inl complete_client_def client_queue_ok)
next
  case (Inr r)
  assume c: "client_ok c"
  have cap: "client_ok (c\<lparr>cl_capture := cl_capture c @ [p]\<rparr>)"
    if "p \<notin> set (cl_capture c)" "\<not> MAX_CAPTURE_DEVICES \<le> length (cl_capture c)" for p
    using that c by (auto simp: client_defs backlog_def)
  have clr: "client_ok (c\<lparr>cl_capture := []\<rparr>)"
    using c by (auto simp: client_defs backlog_def)
  have resp: "client_ok c' \<Longrightarrow> client_ok (fst (queue_response env c' i r))" for c'
    by (rule queue_response_ok)
  show ?thesis
    using c resp [OF c] resp [OF clr] resp [OF cap] queue_error_ok [OF c]
    by (cases r) (auto simp: complete_client_def Inr)
qed

lemma complete_command_ok: "server_ok s \<Longrightarrow> server_ok (complete_command env t i result s)"
  by (simp add: complete_command_def put_client_ok complete_client_ok server_ok_lookup split: option.split)

lemma server_step_ok: "server_step env s i s' \<Longrightarrow> server_ok s \<Longrightarrow> server_ok s'"
proof (induction rule: server_step.induct)
  case (ready t ev as rs ws s e s' out)
  then show ?case using handle_ready_ok [of s env t ev as rs ws] by auto
qed (simp_all add: publish_ok take_commands_ok complete_command_ok)

lemma server_reachable_ok: "server_reachable env s \<Longrightarrow> server_ok s"
  by (induction rule: server_reachable.induct) (auto simp: IpcServer_new_ok server_step_ok)

end
