(* ===== verification/Ipc_Properties.thy ===== *)
theory Ipc_Properties
  imports Ipc_Server_Facts
begin

text \<open>
  The properties of the daemon's socket server: the invariant of its reachable states, that no
  input leaves it stuck, what goes over the wire, and how requests and notifications are served.
\<close>

section \<open>Only whole messages are queued\<close>

definition grows :: "ipc_env \<Rightarrow> client \<Rightarrow> client \<Rightarrow> bool" where
  "grows env c c' \<longleftrightarrow>
    (\<exists>frames. list_all (\<lambda>f. \<exists>msg. encode_frame (env_to_json env) msg = Inr f) frames
      \<and> cl_output c' = cl_output c @ map (\<lambda>f. \<lparr>pd_bytes = f, pd_offset = 0\<rparr>) frames)"

lemma grows_refl: "cl_output c' = cl_output c \<Longrightarrow> grows env c c'"
  by (auto simp: grows_def intro: exI [of _ "[]"])

lemma grows_trans: "grows env a b \<Longrightarrow> grows env b c \<Longrightarrow> grows env a c"
proof -
  assume "grows env a b" "grows env b c"
  then obtain fs gs where
    "list_all (\<lambda>f. \<exists>msg. encode_frame (env_to_json env) msg = Inr f) (fs @ gs)"
    "cl_output c = cl_output a @ map (\<lambda>f. \<lparr>pd_bytes = f, pd_offset = 0\<rparr>) (fs @ gs)"
    by (auto simp: grows_def)
  then show ?thesis unfolding grows_def by blast
qed

lemma grows_cong:
  "cl_output c1 = cl_output c \<Longrightarrow> grows env c1 c' = grows env c c'"
  by (simp add: grows_def)

lemma queued_grows: "queued_or_closed env ok c c' \<Longrightarrow> grows env c c'"
proof -
  assume "queued_or_closed env ok c c'"
  then consider "cl_output c' = cl_output c"
    | f msg where "encode_frame (env_to_json env) msg = Inr f"
      "cl_output c' = cl_output c @ [\<lparr>pd_bytes = f, pd_offset = 0\<rparr>]"
    by (auto simp: queued_or_closed_def)
  then show ?thesis
  proof cases
    case 2
    then show ?thesis unfolding grows_def by (intro exI [of _ "[f]"]) auto
  qed (rule grows_refl)
qed

lemma handle_frame_grows: "client_ok c \<Longrightarrow> grows env c (snd (handle_frame env c f))"
proof (cases "decode_frame (env_from_json env) f")
  case (Inl e)
  then show ?thesis
    using queued_grows [OF client_queue_one [of "\<lambda>_. True" "MsgError None e" env c]]
    by (simp add: handle_frame_def)
next
  case (Inr r)
  assume c: "client_ok c"
  show ?thesis
  proof (cases "cl_negotiated c")
    case True
    from handle_command_props(4) [OF c True, of env "req_id r" "req_command r"] show ?thesis
      using True Inr by (auto simp: handle_frame_def deferred_def dest: queued_grows grows_refl)
  next
    case False
    from handle_first_props(4) [OF c False, of env "req_id r" "req_command r"] show ?thesis
      using False Inr by (auto simp: handle_frame_def dest: queued_grows)
  qed
qed

lemma process_pending_grows:
  "client_ok c \<Longrightarrow> grows env c (fst (snd (process_pending env n c)))"
proof (induction env n c rule: process_pending.induct)
  case (2 env n c)
  show ?case
  proof (cases "cl_pending_frames c")
    case (Cons f rest)
    let ?c = "c\<lparr>cl_pending_frames := rest\<rparr>"
    obtain ok c' where h: "handle_frame env ?c f = (ok, c')" by force
    have c': "client_ok c'" "ok" "grows env c c'"
      using handle_frame_ok [of ?c env f] handle_frame_grows [of ?c env f] "2.prems" h
        handle_frame_True [of env ?c f] grows_cong [of ?c c env c'] by simp_all
    then show ?thesis
      using Cons "2.IH" [OF Cons h [symmetric]] h grows_trans [OF c'(3)] by auto
  qed (simp add: grows_refl)
qed (simp add: grows_refl)

lemma read_loop_grows: "client_ok c \<Longrightarrow> grows env c (snd (read_loop env n rs budget c))"
proof (induction env n rs budget c rule: read_loop.induct)
  case (3 env n r rs budget c)
  show ?case
  proof (cases r)
    case (ReadData bytes)
    let ?data = "take READ_CHUNK bytes"
    show ?thesis
    proof (cases "?data = []")
      case False
      obtain res buf where push: "frame_push (cl_frames c) ?data = (res, buf)" by force
      show ?thesis
      proof (cases res)
        case (Inl e)
        let ?c = "c\<lparr>cl_frames := buf, cl_closing := True\<rparr>"
        have "grows env ?c (fst (client_queue env ?c (MsgError None e)))"
          by (rule queued_grows [OF client_queue_one [of "\<lambda>_. True"]]) simp
        then show ?thesis using ReadData False Inl push grows_cong [of ?c c] by (simp add: Let_def)
      next
        case (Inr fs)
        let ?c = "c\<lparr>cl_frames := buf, cl_pending_frames := cl_pending_frames c @ fs\<rparr>"
        obtain ok c' budget' where r: "process_pending env budget ?c = (ok, c', budget')"
          by (metis prod_cases3)
        have buf: "newline \<notin> set buf \<and> length (payload_of buf) \<le> MAX_FRAME_BYTES"
          using frame_loop_buffer [of "cl_frames c" ?data "[]"] "3.prems" push
          by (simp add: frame_push_def client_ok_def buffer_ok_def)
        have "client_ok ?c" using "3.prems" buf by (simp add: client_defs backlog_def)
        then have c': "client_ok c'" "ok" "grows env c c'"
          using process_pending_ok [of ?c env budget] process_pending_grows [of ?c env budget] r
            grows_cong [of ?c c env c'] by simp_all
        then show ?thesis
          using "3.IH" [OF ReadData refl False push [symmetric] Inr r [symmetric] refl]
            ReadData False push r Inr grows_trans [OF c'(3)]
          by (auto simp: Let_def)
      qed
    qed (use ReadData in \<open>simp add: grows_refl\<close>)
  qed (simp_all add: grows_refl)
qed (simp_all add: grows_refl)

lemma read_client_grows: "client_ok c \<Longrightarrow> grows env c (snd (read_client env rs c))"
proof -
  assume c: "client_ok c"
  obtain ok c' budget where p: "process_pending env FRAME_BUDGET c = (ok, c', budget)"
    by (metis prod_cases3)
  have "client_ok c'" "grows env c c'"
    using process_pending_ok [OF c, of env FRAME_BUDGET] process_pending_grows [OF c, of env FRAME_BUDGET] p
    by simp_all
  then show ?thesis
    using read_loop_grows [of c' env READ_BUDGET rs budget] grows_trans p
    by (auto simp: read_client_def)
qed

lemma grows_backlog:
  "grows env c c' \<Longrightarrow> \<exists>frames. backlog c' = backlog c @ concat frames
    \<and> list_all (\<lambda>f. \<exists>msg. encode_frame (env_to_json env) msg = Inr f) frames"
  unfolding grows_def backlog_def by (force simp: o_def)


section \<open>Properties\<close>

text \<open>
  C2. In every reachable state of the server the clients have distinct valid tokens and are at
  most \<open>MAX_CLIENTS\<close>; each client's byte count is exactly what is queued and unsent and within
  \<open>MAX_QUEUED_BYTES\<close>; its deferred commands and captures are bounded; its unfinished frame is
  within the frame limit; and it has neither subscriptions nor commands before its handshake.
\<close>

theorem ipc_server_invariant:
  assumes "server_reachable env s"
  shows "distinct (map fst (srv_clients s)) \<and> length (srv_clients s) \<le> MAX_CLIENTS \<and>
    list_all (\<lambda>(t, c). token_ok t \<and> queue_ok c \<and> handshake_ok c \<and> limits_ok c \<and> buffer_ok c)
      (srv_clients s)"
  using server_reachable_ok [OF assms] by (simp add: server_ok_def client_ok_def)

text \<open>
  No input leaves the server stuck: in every reachable state every readiness, notification
  and completion has a successor; in particular the unbounded search of \<open>allocate_token\<close> ends.
\<close>

theorem ipc_server_progress:
  assumes "server_reachable env s"
  shows "\<exists>s'. server_step env s i s'"
proof (cases i)
  case (SrvReady t ev as rs ws)
  then show ?thesis
    using handle_ready_ok [OF server_reachable_ok [OF assms], of env t ev as rs ws]
    by (auto intro: server_step.ready)
qed (auto intro: server_step.intros)

text \<open>
  Accepting gives every new connection an unused token: a token the search returns is valid,
  belongs to no client, and is not the listener's.
\<close>

theorem fresh_token:
  assumes "server_reachable env s"
  shows "\<exists>token s'. allocate_token s = Some (token, s') \<and> token \<notin> fst ` set (srv_clients s)
    \<and> token \<noteq> LISTENER_TOKEN \<and> srv_clients s' = srv_clients s"
  using server_reachable_ok [OF assms]
  by (rule allocate_token_ok) (auto simp: token_ok_def LISTENER_TOKEN_def)

text \<open>
  C13. Serving a ready connection never tears a message: what is written, followed by what stays
  queued, is what was queued before, followed by whole encoded messages.
\<close>

theorem serving_keeps_the_stream:
  assumes "client_ok c" "serve_client env ev rs ws c = (remove, c', out)"
  shows "\<exists>frames. out @ backlog c' = backlog c @ concat frames \<and> length out \<le> WRITE_BUDGET \<and>
    list_all (\<lambda>f. \<exists>msg. encode_frame (env_to_json env) msg = Inr f) frames"
proof -
  define c1 where "c1 = (if \<not> cl_closing c \<and> \<not> cl_immediate_close c
      \<and> (ev AND (POLLIN OR POLLERR OR POLLHUP OR POLLNVAL) \<noteq> 0 \<or> cl_pending_frames c \<noteq> [])
    then snd (read_client env rs c) else c)"
  have c1: "client_ok c1" "grows env c c1"
    using assms(1) by (simp_all add: c1_def read_client_ok read_client_grows grows_refl)
  obtain ok c2 out2 where w: "write_loop ws WRITE_BUDGET c1 = (ok, c2, out2)" by (metis prod_cases3)
  have "queue_ok c1" using c1(1) by (simp add: client_ok_def)
  from write_loop_backlog [OF this w] have wr: "backlog c1 = out2 @ backlog c2" "length out2 \<le> WRITE_BUDGET"
    by auto
  have "c' = c1 \<and> out = [] \<or> c' = c2 \<and> out = out2"
    using assms(2) w
    by (auto simp: serve_client_def c1_def write_ready_def Let_def split_beta split: if_splits)
  moreover obtain frames where "backlog c1 = backlog c @ concat frames"
    "list_all (\<lambda>f. \<exists>msg. encode_frame (env_to_json env) msg = Inr f) frames"
    using grows_backlog [OF c1(2)] by blast
  ultimately show ?thesis using wr by (intro exI [of _ frames]) auto
qed

text \<open>
  What the protocol promises a request after the handshake. Some commands are left to the reactor,
  a capture only while the connection may lease one more device; every other command has its reply.
\<close>

fun left_to_reactor :: "client \<Rightarrow> command \<Rightarrow> bool" where
  "left_to_reactor c CmdDiagnostics = True"
| "left_to_reactor c CmdConfig = True"
| "left_to_reactor c CmdStopCapture = True"
| "left_to_reactor c (CmdStartCapture path) = (length (cl_capture c) < MAX_CAPTURE_DEVICES \<or> path \<in> set (cl_capture c))"
| "left_to_reactor c _ = False"

fun reply_to :: "ipc_env \<Rightarrow> command \<Rightarrow> protocol_error + response_result" where
  "reply_to env CmdPing = Inr ResPong"
| "reply_to env CmdStatus = Inr (ResStatus (env_status env))"
| "reply_to env CmdDevices = Inr (ResDevices (env_devices env))"
| "reply_to env (CmdSubscribe _) = Inr ResSubscribed"
| "reply_to env (CmdUnsubscribe _) = Inr ResUnsubscribed"
| "reply_to env (CmdHello _ _) = Inl (make_protocol_error InvalidRequest ''hello was already completed'')"
| "reply_to env (CmdStartCapture _) = Inl (make_protocol_error InvalidRequest
     ''capture device limit reached; stop capture before selecting new devices'')"
| "reply_to env _ = Inl (make_protocol_error UnknownCommand ''unknown command'')"

text \<open>The frame of the reply under its number; a result too large for a frame is replaced by an error.\<close>

definition reply_frame :: "ipc_env \<Rightarrow> nat \<Rightarrow> command \<Rightarrow> bytes option" where
  "reply_frame env i cmd =
    (let frame = (\<lambda>m. case encode_frame (env_to_json env) m of Inr bytes \<Rightarrow> Some bytes | Inl _ \<Rightarrow> None)
     in case reply_to env cmd of
          Inl e \<Rightarrow> frame (MsgError (Some i) e)
        | Inr result \<Rightarrow>
            (case frame (MsgResponse i result) of
               Some bytes \<Rightarrow> Some bytes
             | None \<Rightarrow> frame (MsgError (Some i)
                 (make_protocol_error InternalError ''response exceeds the maximum IPC frame size''))))"

definition takes_frame :: "client \<Rightarrow> bytes option \<Rightarrow> client \<Rightarrow> bool" where
  "takes_frame c frame c' \<longleftrightarrow> cl_commands c' = cl_commands c
    \<and> (case frame of
         Some bytes \<Rightarrow>
           if cl_queued_bytes c + length bytes \<le> MAX_QUEUED_BYTES
           then cl_output c' = cl_output c @ [\<lparr>pd_bytes = bytes, pd_offset = 0\<rparr>]
             \<and> cl_immediate_close c' = cl_immediate_close c
           else cl_output c' = cl_output c \<and> cl_immediate_close c'
       | None \<Rightarrow> cl_output c' = cl_output c \<and> cl_immediate_close c')"

lemma takes_queue:
  "takes_frame c (case encode_frame (env_to_json env) m of Inr bytes \<Rightarrow> Some bytes | Inl _ \<Rightarrow> None)
    (fst (client_queue env c m))"
  by (auto simp: takes_frame_def client_queue_def queue_encoded_def split: sum.split)

lemma takes_error:
  assumes "reply_to env cmd = Inl (make_protocol_error code text)"
  shows "takes_frame c (reply_frame env i cmd) (queue_error env c (Some i) code text)"
  using takes_queue [of c env "MsgError (Some i) (make_protocol_error code text)"]
  by (simp add: reply_frame_def assms queue_error_def)

lemma takes_response:
  assumes "reply_to env cmd = Inr result"
  shows "takes_frame c (reply_frame env i cmd) (fst (queue_response env c i result))"
proof (cases "encode_frame (env_to_json env) (MsgResponse i result)")
  case (Inl e)
  then show ?thesis
    using takes_queue [of c env "MsgError (Some i)
      (make_protocol_error InternalError ''response exceeds the maximum IPC frame size'')"]
    by (simp add: reply_frame_def assms queue_response_def)
next
  case (Inr bytes)
  then show ?thesis
    by (simp add: reply_frame_def assms queue_response_def takes_frame_def queue_encoded_def)
qed

lemma takes_subscribed:
  "takes_frame c frame c' \<longleftrightarrow> takes_frame (apply_subscriptions c subs on) frame c'"
proof -
  have "cl_commands (foldl (apply_subscription on) c subs) = cl_commands c
      \<and> cl_output (foldl (apply_subscription on) c subs) = cl_output c
      \<and> cl_queued_bytes (foldl (apply_subscription on) c subs) = cl_queued_bytes c
      \<and> cl_immediate_close (foldl (apply_subscription on) c subs) = cl_immediate_close c"
  proof (induction subs arbitrary: c)
    case (Cons s subs)
    then show ?case by (cases s) simp_all
  qed simp
  then show ?thesis by (simp add: takes_frame_def apply_subscriptions_def split: option.split)
qed

lemma command_replied:
  assumes "\<not> left_to_reactor c cmd"
  shows "takes_frame c (reply_frame env i cmd) (handle_command env c i cmd)"
proof (cases cmd)
  case (CmdStartCapture path)
  then have full: "MAX_CAPTURE_DEVICES \<le> length (cl_capture c) \<and> path \<notin> set (cl_capture c)" using assms by auto
  show ?thesis unfolding CmdStartCapture using full
    by (simp only: handle_command_def command.case defer_command_def simp_thms if_True) (rule takes_error, simp)
next
  case (CmdSubscribe subs)
  have "takes_frame (apply_subscriptions c subs True) (reply_frame env i cmd)
      (fst (queue_response env (apply_subscriptions c subs True) i ResSubscribed))"
    by (rule takes_response) (simp add: CmdSubscribe)
  then show ?thesis by (simp add: handle_command_def CmdSubscribe flip: takes_subscribed)
next
  case (CmdUnsubscribe subs)
  have "takes_frame (apply_subscriptions c subs False) (reply_frame env i cmd)
      (fst (queue_response env (apply_subscriptions c subs False) i ResUnsubscribed))"
    by (rule takes_response) (simp add: CmdUnsubscribe)
  then show ?thesis by (simp add: handle_command_def CmdUnsubscribe flip: takes_subscribed)
qed (use assms in \<open>auto simp: handle_command_def intro!: takes_response takes_error\<close>)

lemma command_left:
  assumes "left_to_reactor c cmd"
  shows "handle_command env c i cmd = (if length (cl_commands c) < FRAME_BUDGET
    then c\<lparr>cl_commands := cl_commands c @ [(i, cmd)]\<rparr> else c\<lparr>cl_immediate_close := True\<rparr>)"
  using assms by (cases cmd) (auto simp: handle_command_def defer_command_def)

lemma reply_frame_answers:
  "reply_frame env i cmd = Some bytes \<Longrightarrow> \<exists>msg. answers i msg \<and> encode_frame (env_to_json env) msg = Inr bytes"
  by (auto simp: reply_frame_def Let_def split: sum.splits option.splits) (metis answers.simps(1,2))+

text \<open>
  C27. Every request gets exactly one answer. Take a request that decodes, after the handshake, on a
  connection not yet given up. A request for the reactor (diagnostics, configuration, the end of a
  capture, or a capture within the limit of leases) is put at the end of the commands under its
  number, and any other is answered at once by one message with its number: its reply, or an error
  when its result cannot be encoded in a frame. The connection is given up, with nothing queued, exactly when
  the command queue is full, when that message would take the output over its limit of bytes, or when
  it cannot be encoded itself.
\<close>

theorem request_answered_once:
  assumes "cl_negotiated c" "decode_frame (env_from_json env) frame = Inr r"
    and "handle_frame env c frame = (ok, c')" "\<not> cl_immediate_close c"
    and "reply = reply_frame env (req_id r) (req_command r)"
  shows "ok \<and>
    (if left_to_reactor c (req_command r) then cl_output c' = cl_output c
       \<and> (if length (cl_commands c) < FRAME_BUDGET
          then cl_commands c' = cl_commands c @ [(req_id r, req_command r)] \<and> \<not> cl_immediate_close c'
          else cl_commands c' = cl_commands c \<and> cl_immediate_close c')
     else cl_commands c' = cl_commands c
       \<and> (cl_immediate_close c' \<longleftrightarrow>
            \<not> (\<exists>bytes. reply = Some bytes \<and> cl_queued_bytes c + length bytes \<le> MAX_QUEUED_BYTES))
       \<and> cl_output c' = cl_output c @
            (if cl_immediate_close c' then [] else [\<lparr>pd_bytes = the reply, pd_offset = 0\<rparr>])
       \<and> (\<forall>bytes. reply = Some bytes \<longrightarrow>
            (\<exists>msg. answers (req_id r) msg \<and> encode_frame (env_to_json env) msg = Inr bytes)))"
proof -
  have h: "ok" "c' = handle_command env c (req_id r) (req_command r)"
    using assms(1-3) by (auto simp: handle_frame_def)
  show ?thesis
  proof (cases "left_to_reactor c (req_command r)")
    case True
    then show ?thesis using h command_left [OF True, of env "req_id r"] assms(4) by simp
  next
    case False
    have "takes_frame c reply c'" unfolding h(2) assms(5) by (rule command_replied [OF False])
    moreover have "\<exists>msg. answers (req_id r) msg \<and> encode_frame (env_to_json env) msg = Inr bytes"
      if "reply = Some bytes" for bytes
      using reply_frame_answers that unfolding assms(5) .
    ultimately show ?thesis using h(1) False assms(4)
      by (cases reply) (simp_all add: takes_frame_def split: if_splits)
  qed
qed

text \<open>
  The handshake guards the connection: a first request that is not a \<open>Hello\<close> for this
  protocol version is refused, closes the connection and changes neither its subscriptions nor
  its commands.
\<close>

theorem handshake_guards:
  assumes "\<not> cl_negotiated c" "decode_frame (env_from_json env) frame = Inr r"
    and "\<forall>lo hi. req_command r = CmdHello lo hi \<longrightarrow> \<not> (lo \<le> PROTOCOL_MAJOR \<and> PROTOCOL_MAJOR \<le> hi)"
  shows "case handle_frame env c frame of (ok, c') \<Rightarrow>
    cl_closing c' \<and> \<not> cl_negotiated c' \<and> cl_commands c' = cl_commands c
    \<and> cl_input c' = cl_input c \<and> cl_devices c' = cl_devices c \<and> cl_capture c' = cl_capture c"
  using assms by (cases "req_command r") (simp_all add: handle_frame_def handle_first_def)

lemma map_of_filter_value:
  "distinct (map fst xs) \<Longrightarrow> map_of (filter (\<lambda>(k, v). P v) xs) k =
    (case map_of xs k of None \<Rightarrow> None | Some v \<Rightarrow> if P v then Some v else None)"
proof (induction xs)
  case (Cons x xs)
  obtain k' v where x: "x = (k', v)" by force
  show ?case
  proof (cases "k' = k")
    case True
    then have "map_of xs k = None" using Cons.prems x by (simp add: map_of_eq_None_iff)
    then show ?thesis using Cons x True by auto
  qed (use Cons x in auto)
qed simp

lemma map_of_map_value: "map_of (map (\<lambda>(k, v). (k, f v)) xs) k = map_option f (map_of xs k)"
  by (induction xs) auto

text \<open>
  A notification reaches exactly its subscribers: every client that completed the handshake,
  is not being closed and subscribed to this kind of notification gets the whole frame at the end
  of its queue, or is dropped when its queue would overflow; no other client is affected.
\<close>

theorem publish_reaches_subscribers:
  assumes "server_reachable env s" "encode_frame (env_to_json env) (MsgNotification note) = Inr frame"
    and "map_of (srv_clients s) t = Some c" "\<not> cl_immediate_close c"
  shows "map_of (srv_clients (publish env note s)) t =
    (if cl_negotiated c \<and> \<not> cl_closing c \<and> client_wants c note
     then if cl_queued_bytes c + length frame \<le> MAX_QUEUED_BYTES
          then Some (c\<lparr>cl_queued_bytes := cl_queued_bytes c + length frame,
                       cl_output := cl_output c @ [\<lparr>pd_bytes = frame, pd_offset = 0\<rparr>]\<rparr>)
          else None
     else Some c)"
proof -
  let ?cs = "map (\<lambda>(t, c). (t, publish_client note frame c)) (srv_clients s)"
  have "map fst ?cs = map fst (srv_clients s)" by (simp add: split_beta o_def)
  then have "distinct (map fst ?cs)"
    using server_reachable_ok [OF assms(1)] by (simp add: server_ok_def del: map_map)
  from map_of_filter_value [OF this, of "\<lambda>c. \<not> cl_immediate_close c" t]
  have "map_of (srv_clients (publish env note s)) t =
      (if \<not> cl_immediate_close (publish_client note frame c)
       then Some (publish_client note frame c) else None)"
    using assms(2,3) by (simp add: publish_def map_of_map_value)
  then show ?thesis using assms(4) by (auto simp: publish_client_def queue_encoded_def)
qed


section \<open>Witnesses\<close>

definition sample_env :: ipc_env where
  "sample_env = \<lparr>
     env_to_json = (\<lambda>m. case m of MsgResponse _ _ \<Rightarrow> Inr ''ok'' | _ \<Rightarrow> Inr ''note''),
     env_from_json = (\<lambda>b. Inr \<lparr>req_id = 7, req_command = (if b = ''ping'' then CmdPing else CmdHello 1 1)\<rparr>),
     env_status = \<lparr>st_daemon_version = ''1'', st_pid = 1, st_device_count = 0, st_dry_run = True,
                   st_socket_path = ''s''\<rparr>,
     env_devices = [], env_version = ''1''\<rparr>"

lemma sample_reachable: "server_reachable sample_env
  (publish sample_env (NoteDeviceRemoved 1 ''d'' ReasonGone) IpcServer_new)"
  by (rule server_reachable.step [OF server_reachable.start server_step.publish])

lemma ipc_server_invariant_witness:
  "length (srv_clients (publish sample_env (NoteDeviceRemoved 1 ''d'' ReasonGone) IpcServer_new)) \<le> MAX_CLIENTS"
  using ipc_server_invariant [OF sample_reachable] by blast

lemma ipc_server_progress_witness:
  "\<exists>s'. server_step sample_env (publish sample_env (NoteDeviceRemoved 1 ''d'' ReasonGone) IpcServer_new)
     (SrvReady LISTENER_TOKEN POLLIN [Accepted True, AcceptBlocks] [] []) s'"
  by (rule ipc_server_progress [OF sample_reachable])

lemma fresh_token_witness:
  "\<exists>token s'. allocate_token IpcServer_new = Some (token, s') \<and> token \<noteq> LISTENER_TOKEN"
  using fresh_token [OF server_reachable.start [of sample_env]] by blast

definition sample_client :: client where
  "sample_client = Client_new\<lparr>cl_negotiated := True, cl_devices := True\<rparr>"

lemma sample_client_ok: "client_ok sample_client"
  using Client_new_ok by (simp add: sample_client_def client_defs backlog_def)

lemma serving_keeps_the_stream_witness:
  "client_ok sample_client \<and>
   (\<exists>remove c' out frames. serve_client sample_env POLLIN [ReadData (''ping'' @ [newline])] [Accept 2] sample_client
      = (remove, c', out) \<and> out @ backlog c' = backlog sample_client @ concat frames)"
proof -
  obtain remove c' out where
    s: "serve_client sample_env POLLIN [ReadData (''ping'' @ [newline])] [Accept 2] sample_client = (remove, c', out)"
    by (metis prod_cases3)
  from serving_keeps_the_stream [OF sample_client_ok s] s sample_client_ok show ?thesis by blast
qed

lemma request_answered_once_witness:
  "cl_output (snd (handle_frame sample_env sample_client ''ping'')) = [\<lparr>pd_bytes = ''ok'' @ [newline], pd_offset = 0\<rparr>]
    \<and> \<not> cl_immediate_close (snd (handle_frame sample_env sample_client ''ping''))"
proof -
  have d: "decode_frame (env_from_json sample_env) ''ping'' = Inr \<lparr>req_id = 7, req_command = CmdPing\<rparr>"
    by (simp add: decode_frame_def sample_env_def strip_last_def newline_def carriage_return_def
        MAX_FRAME_BYTES_def)
  have n: "cl_negotiated sample_client" "\<not> cl_immediate_close sample_client" "cl_output sample_client = []"
    "cl_queued_bytes sample_client = 0"
    by (simp_all add: sample_client_def Client_new_def)
  obtain ok c' where h: "handle_frame sample_env sample_client ''ping'' = (ok, c')" by force
  have f: "reply_frame sample_env 7 CmdPing = Some (''ok'' @ [newline])"
    by (simp add: reply_frame_def encode_frame_def sample_env_def MAX_FRAME_BYTES_def)
  from request_answered_once [OF n(1) d h n(2) refl] show ?thesis using h n f by (simp add: MAX_QUEUED_BYTES_def)
qed

lemma handshake_guards_witness:
  "cl_closing (snd (handle_frame sample_env Client_new ''ping''))"
proof -
  have d: "decode_frame (env_from_json sample_env) ''ping'' = Inr \<lparr>req_id = 7, req_command = CmdPing\<rparr>"
    by (simp add: decode_frame_def sample_env_def strip_last_def newline_def carriage_return_def
        MAX_FRAME_BYTES_def)
  have n: "\<not> cl_negotiated Client_new" by (simp add: Client_new_def)
  from handshake_guards [OF n d] show ?thesis by (simp add: split_beta)
qed

text \<open>A state with one client, reached by accepting a connection and reading its handshake.\<close>

lemma publish_reaches_subscribers_witness:
  "\<exists>s c. server_reachable sample_env s \<and> map_of (srv_clients s) 2 = Some c \<and>
     map_of (srv_clients (publish sample_env (NoteDeviceRemoved 1 ''d'' ReasonGone) s)) 2 = Some c"
proof -
  have alloc: "allocate_token IpcServer_new = Some (2, IpcServer_new\<lparr>srv_next_token := 3\<rparr>)"
    by (simp add: allocate_token_def IpcServer_new_def allocate_loop.simps LISTENER_TOKEN_def next_token_def)
  let ?s = "\<lparr>srv_clients = [(2, Client_new)], srv_next_token = 3\<rparr>"
  have acc: "accept_ready [Accepted True] IpcServer_new = Some (None, ?s)"
  proof -
    have nil: "accept_loop n [] s = Some (None, s)" for n s by (cases n) simp_all
    have "accept_loop (Suc 7) [Accepted True] IpcServer_new = Some (None, ?s)"
      unfolding accept_loop.simps accept_result.case alloc option.case prod.case nil
      by (simp add: IpcServer_new_def MAX_CLIENTS_def)
    then show ?thesis by (simp add: accept_ready_def ACCEPT_BUDGET_def eval_nat_numeral)
  qed
  have "handle_ready sample_env LISTENER_TOKEN POLLIN [Accepted True] [] [] IpcServer_new = Some (None, ?s, [])"
    by (simp add: handle_ready_def acc POLLIN_def POLLNVAL_def POLLERR_def POLLHUP_def)
  then have r: "server_reachable sample_env ?s"
    using server_reachable.step [OF server_reachable.start server_step.ready] by blast
  have e: "encode_frame (env_to_json sample_env) (MsgNotification (NoteDeviceRemoved 1 ''d'' ReasonGone))
      = Inr (''note'' @ [newline])"
    by (simp add: encode_frame_def sample_env_def MAX_FRAME_BYTES_def)
  have m: "map_of (srv_clients ?s) 2 = Some Client_new" by simp
  have i: "\<not> cl_immediate_close Client_new" by (simp add: Client_new_def)
  from publish_reaches_subscribers [OF r e m i] have
    "map_of (srv_clients (publish sample_env (NoteDeviceRemoved 1 ''d'' ReasonGone) ?s)) 2 = Some Client_new"
    by (simp add: Client_new_def)
  then show ?thesis using r m by blast
qed

end
