(* ===== verification/Ipc_Reader.thy ===== *)
theory Ipc_Reader
  imports Frames
begin

text \<open>
  The blocking client of the daemon's socket: \<open>crates/wiiland-ipc/src/client.rs\<close>. What the
  reads of the stream return is an argument, a list that a call consumes; a read past its end
  times out. JSON is a parameter. A panic (\<open>expect\<close>) is the outcome \<open>Panic\<close>.
\<close>

section \<open>State and errors\<close>

definition MAX_NOTIFICATION_BACKLOG_BYTES :: nat where
  "MAX_NOTIFICATION_BACKLOG_BYTES = 256 * 1024"

datatype io_kind =
  IoBrokenPipe | IoConnectionReset | IoUnexpectedEof | IoWouldBlock | IoTimedOut | IoInterrupted
  | IoInvalidInput | IoOther

datatype client_error =
    CeIo io_kind | CeFrame protocol_error | CeServer protocol_error
  | CeUnexpectedResponseId nat nat | CeUnexpectedMessage | CeUnsupportedVersion nat nat
  | CeNotificationBacklogExceeded nat | CeSessionBacklogExceeded nat | CeUnsupportedFeature nat nat
  | CePrematureEof | CeRuntimeDirectoryMissing | CeRuntimeDirectoryRelative string

record reader =
  rd_frames :: frame_buffer
  rd_notifications :: "(notification \<times> nat) list"
  rd_notification_bytes :: nat
  rd_messages :: "(server_message \<times> nat) list"
  rd_terminated :: bool
  rd_next_id :: nat
  rd_protocol_minor :: nat

text \<open>The client \<open>connect\<close> builds before \<open>hello\<close>.\<close>

definition reader_start :: reader where
  "reader_start = \<lparr>
     rd_frames = [], rd_notifications = [], rd_notification_bytes = 0, rd_messages = [],
     rd_terminated = False, rd_next_id = 1, rd_protocol_minor = 0\<rparr>"

fun map_stream_io_error :: "io_kind \<Rightarrow> client_error" where
  "map_stream_io_error IoBrokenPipe = CePrematureEof"
| "map_stream_io_error IoConnectionReset = CePrematureEof"
| "map_stream_io_error IoUnexpectedEof = CePrematureEof"
| "map_stream_io_error k = CeIo k"

definition ensure_active :: "reader \<Rightarrow> (unit, client_error) outcome" where
  "ensure_active c =
    (if rd_terminated c then Err (CeNotificationBacklogExceeded MAX_NOTIFICATION_BACKLOG_BYTES) else Ok ())"

definition require_minor :: "reader \<Rightarrow> nat \<Rightarrow> (unit, client_error) outcome" where
  "require_minor c required =
    (if rd_protocol_minor c < required then Err (CeUnsupportedFeature (rd_protocol_minor c) required)
     else Ok ())"

definition allocate_id :: "reader \<Rightarrow> nat \<times> reader" where
  "allocate_id c =
    (let n = (rd_next_id c + 1) mod 18446744073709551616
     in (rd_next_id c, c\<lparr>rd_next_id := (if n = 0 then 1 else n)\<rparr>))"


section \<open>Reading messages\<close>

text \<open>\<open>split_inclusive\<close> at the newlines: every piece but the last ends with one.\<close>

fun split_inclusive :: "bytes \<Rightarrow> bytes list" where
  "split_inclusive [] = []"
| "split_inclusive (b # bs) =
    (if b = newline then [b] # split_inclusive bs
     else case split_inclusive bs of [] \<Rightarrow> [[b]] | c # cs \<Rightarrow> (b # c) # cs)"

text \<open>The loop over the completed frames, each with the piece of the chunk that ended it.\<close>

fun take_frames ::
  "(bytes \<Rightarrow> string + server_message) \<Rightarrow> bytes list \<Rightarrow> bytes list \<Rightarrow> nat \<Rightarrow> reader \<Rightarrow>
    (unit, client_error) outcome \<times> reader" where
  "take_frames from_json [] chunks prefix c = (Ok (), c)"
| "take_frames from_json (frame # frames) [] prefix c = (Panic, c)"
| "take_frames from_json (frame # frames) (chunk # chunks) prefix c =
    (case decode_frame from_json frame of
       Inl e \<Rightarrow> (Err (CeFrame e), c)
     | Inr msg \<Rightarrow>
         take_frames from_json frames chunks 0
           (c\<lparr>rd_messages := rd_messages c @ [(msg, prefix + length chunk)]\<rparr>))"

definition pop_message :: "reader \<Rightarrow> (server_message \<times> nat) option \<times> reader" where
  "pop_message c =
    (case rd_messages c of [] \<Rightarrow> (None, c) | m # ms \<Rightarrow> (Some m, c\<lparr>rd_messages := ms\<rparr>))"

datatype stream_read = StreamData bytes | StreamError io_kind

definition read_messages ::
  "(bytes \<Rightarrow> string + server_message) \<Rightarrow> bytes \<Rightarrow> reader \<Rightarrow>
    ((server_message \<times> nat) option, client_error) outcome \<times> reader" where
  "read_messages from_json data c =
    (if data = [] then (Err CePrematureEof, c)
     else case frame_push (rd_frames c) data of
       (Inl e, buffer) \<Rightarrow> (Err (CeFrame e), c\<lparr>rd_frames := buffer\<rparr>)
     | (Inr frames, buffer) \<Rightarrow>
         (case take_frames from_json frames (split_inclusive data) (length (rd_frames c))
                 (c\<lparr>rd_frames := buffer\<rparr>) of
            (Ok _, c') \<Rightarrow> (case pop_message c' of (m, c'') \<Rightarrow> (Ok m, c''))
          | (Err e, c') \<Rightarrow> (Err e, c')
          | (Panic, c') \<Rightarrow> (Panic, c')))"

fun poll_message ::
  "(bytes \<Rightarrow> string + server_message) \<Rightarrow> stream_read list \<Rightarrow> reader \<Rightarrow>
    ((server_message \<times> nat) option, client_error) outcome \<times> stream_read list \<times> reader" where
  "poll_message from_json reads c =
    (if rd_messages c \<noteq> [] then (case pop_message c of (m, c') \<Rightarrow> (Ok m, reads, c'))
     else case reads of
       [] \<Rightarrow> (Err (CeIo IoWouldBlock), [], c)
     | StreamError k # rs \<Rightarrow> (Err (map_stream_io_error k), rs, c)
     | StreamData bytes # rs \<Rightarrow>
         (case read_messages from_json (take 8192 bytes) c of (r, c') \<Rightarrow> (r, rs, c')))"

declare poll_message.simps [simp del]

definition queue_notification ::
  "reader \<Rightarrow> notification \<Rightarrow> nat \<Rightarrow> (unit, client_error) outcome \<times> reader" where
  "queue_notification c note frame_bytes =
    (if rd_notification_bytes c + frame_bytes > MAX_NOTIFICATION_BACKLOG_BYTES
     then (Err (CeNotificationBacklogExceeded MAX_NOTIFICATION_BACKLOG_BYTES), c\<lparr>rd_terminated := True\<rparr>)
     else (Ok (), c\<lparr>rd_notification_bytes := rd_notification_bytes c + frame_bytes,
                    rd_notifications := rd_notifications c @ [(note, frame_bytes)]\<rparr>))"

text \<open>Booking out more bytes than are booked in is an arithmetic overflow, hence the panic.\<close>

definition poll_event ::
  "(bytes \<Rightarrow> string + server_message) \<Rightarrow> stream_read list \<Rightarrow> reader \<Rightarrow>
    (notification option, client_error) outcome \<times> stream_read list \<times> reader" where
  "poll_event from_json reads c =
    (case ensure_active c of
       Err e \<Rightarrow> (Err e, reads, c)
     | Panic \<Rightarrow> (Panic, reads, c)
     | Ok _ \<Rightarrow>
         (case rd_notifications c of
            (note, n) # notes \<Rightarrow>
              if rd_notification_bytes c < n then (Panic, reads, c\<lparr>rd_notifications := notes\<rparr>)
              else (Ok (Some note), reads,
                    c\<lparr>rd_notifications := notes, rd_notification_bytes := rd_notification_bytes c - n\<rparr>)
          | [] \<Rightarrow>
              (case poll_message from_json reads c of
                 (Err e, rs, c') \<Rightarrow> (Err e, rs, c')
               | (Panic, rs, c') \<Rightarrow> (Panic, rs, c')
               | (Ok None, rs, c') \<Rightarrow> (Ok None, rs, c')
               | (Ok (Some (msg, _)), rs, c') \<Rightarrow>
                   (case msg of
                      MsgNotification note \<Rightarrow> (Ok (Some note), rs, c')
                    | MsgResponse _ _ \<Rightarrow> (Err CeUnexpectedMessage, rs, c')
                    | MsgError _ e \<Rightarrow> (Err (CeServer e), rs, c')))))"


section \<open>Requests\<close>

text \<open>What the loop of \<open>read_response\<close> does with one message: go on, or finish.\<close>

definition response_message ::
  "nat \<Rightarrow> server_message \<Rightarrow> nat \<Rightarrow> reader \<Rightarrow> (response_result, client_error) outcome option \<times> reader" where
  "response_message i msg frame_bytes c =
    (case msg of
       MsgNotification note \<Rightarrow>
         (case queue_notification c note frame_bytes of
            (Ok _, c') \<Rightarrow> (None, c') | (Err e, c') \<Rightarrow> (Some (Err e), c') | (Panic, c') \<Rightarrow> (Some Panic, c'))
     | MsgResponse actual result \<Rightarrow>
         (Some (if actual \<noteq> i then Err (CeUnexpectedResponseId i actual) else Ok result), c)
     | MsgError actual e \<Rightarrow>
         (Some (case actual of
                  Some a \<Rightarrow> if a \<noteq> i then Err (CeUnexpectedResponseId i a) else Err (CeServer e)
                | None \<Rightarrow> Err (CeServer e)), c))"

lemma response_message_keeps: "response_message i msg n c = (r, c') \<Longrightarrow> rd_messages c' = rd_messages c"
  by (auto simp: response_message_def queue_notification_def split: server_message.splits if_splits)

lemma poll_message_shrinks:
  "poll_message f reads c = (Ok m, rs, c') \<Longrightarrow>
    length rs < length reads \<or> rs = reads \<and> length (rd_messages c') < length (rd_messages c)"
  by (auto simp: poll_message.simps pop_message_def split: if_splits list.splits stream_read.splits prod.splits)

text \<open>
  \<open>rounds k\<close>: why the loop stops before its round \<open>k\<close> reads, if it does (the deadline has passed,
  \<open>IoTimedOut\<close>, or the remaining time could not be set on the socket).
\<close>

function read_response ::
  "(bytes \<Rightarrow> string + server_message) \<Rightarrow> (nat \<Rightarrow> io_kind option) \<Rightarrow> nat \<Rightarrow> nat \<Rightarrow> stream_read list \<Rightarrow> reader \<Rightarrow>
    (response_result, client_error) outcome \<times> stream_read list \<times> reader" where
  "read_response f rounds k i reads c =
    (case rounds k of
       Some e \<Rightarrow> (Err (CeIo e), reads, c)
     | None \<Rightarrow>
         (case poll_message f reads c of
            (Err e, rs, c') \<Rightarrow> (Err e, rs, c')
          | (Panic, rs, c') \<Rightarrow> (Panic, rs, c')
          | (Ok None, rs, c') \<Rightarrow> read_response f rounds (Suc k) i rs c'
          | (Ok (Some (msg, n)), rs, c') \<Rightarrow>
              (case response_message i msg n c' of
                 (Some r, c'') \<Rightarrow> (r, rs, c'')
               | (None, c'') \<Rightarrow> read_response f rounds (Suc k) i rs c'')))"
  by pat_completeness auto
termination
  by (relation "inv_image (less_than <*lex*> less_than)
      (\<lambda>(f, rounds, k, i, reads, c). (length reads, length (rd_messages c)))")
    (auto dest!: poll_message_shrinks [OF sym] response_message_keeps [OF sym])

declare read_response.simps [simp del]

text \<open>
  What the socket does around the reads of one request: the error of \<open>write_all\<close>, of
  \<open>read_timeout\<close>, of the rounds of \<open>read_response\<close>, and of restoring the timeout.
\<close>

record wire =
  wi_write :: "io_kind option"
  wi_timeout :: "io_kind option"
  wi_rounds :: "nat \<Rightarrow> io_kind option"
  wi_restore :: "io_kind option"

text \<open>\<open>request\<close>: the identifier is spent before the request is encoded and written.\<close>

definition client_request ::
  "(request \<Rightarrow> string + bytes) \<Rightarrow> (bytes \<Rightarrow> string + server_message) \<Rightarrow> wire \<Rightarrow> command \<Rightarrow>
    stream_read list \<Rightarrow> reader \<Rightarrow> (response_result, client_error) outcome \<times> stream_read list \<times> reader" where
  "client_request to_json from_json w cmd reads c =
    (case ensure_active c of
       Err e \<Rightarrow> (Err e, reads, c)
     | Panic \<Rightarrow> (Panic, reads, c)
     | Ok _ \<Rightarrow>
         (case allocate_id c of
            (i, c') \<Rightarrow>
              (case encode_frame to_json \<lparr>req_id = i, req_command = cmd\<rparr> of
                 Inl e \<Rightarrow> (Err (CeFrame e), reads, c')
               | Inr frame \<Rightarrow>
                   (case wi_write w of
                      Some k \<Rightarrow> (Err (map_stream_io_error k), reads, c')
                    | None \<Rightarrow>
                        (case wi_timeout w of
                           Some k \<Rightarrow> (Err (CeIo k), reads, c')
                         | None \<Rightarrow>
                             (case read_response from_json (wi_rounds w) 0 i reads c' of
                                (Ok response, rs, c'') \<Rightarrow>
                                  ((case wi_restore w of None \<Rightarrow> Ok response | Some k \<Rightarrow> Err (CeIo k)), rs, c'')
                              | (Err e, rs, c'') \<Rightarrow> (Err e, rs, c'')
                              | (Panic, rs, c'') \<Rightarrow> (Panic, rs, c'')))))))"


section \<open>Commands\<close>

text \<open>Each command sends one request and accepts one kind of result.\<close>

definition expect_result ::
  "(response_result \<Rightarrow> 'a option) \<Rightarrow> (response_result, client_error) outcome \<times> 's \<Rightarrow>
    ('a, client_error) outcome \<times> 's" where
  "expect_result f rs =
    (case rs of
       (Ok result, s) \<Rightarrow> ((case f result of Some v \<Rightarrow> Ok v | None \<Rightarrow> Err CeUnexpectedMessage), s)
     | (Err e, s) \<Rightarrow> (Err e, s)
     | (Panic, s) \<Rightarrow> (Panic, s))"

text \<open>A call of the client: how it sends a command, from the reads and the client.\<close>

type_synonym 'a client_call = "stream_read list \<Rightarrow> reader \<Rightarrow> ('a, client_error) outcome \<times> stream_read list \<times> reader"
type_synonym requester = "command \<Rightarrow> response_result client_call"

definition client_status :: "requester \<Rightarrow> daemon_status client_call" where
  "client_status request reads c =
    expect_result (\<lambda>r. case r of ResStatus v \<Rightarrow> Some v | _ \<Rightarrow> None) (request CmdStatus reads c)"

definition client_devices :: "requester \<Rightarrow> device_info list client_call" where
  "client_devices request reads c =
    expect_result (\<lambda>r. case r of ResDevices v \<Rightarrow> Some v | _ \<Rightarrow> None) (request CmdDevices reads c)"

definition client_ping :: "requester \<Rightarrow> unit client_call" where
  "client_ping request reads c =
    expect_result (\<lambda>r. case r of ResPong \<Rightarrow> Some () | _ \<Rightarrow> None) (request CmdPing reads c)"

definition client_subscribe :: "requester \<Rightarrow> unit client_call" where
  "client_subscribe request reads c =
    expect_result (\<lambda>r. case r of ResSubscribed \<Rightarrow> Some () | _ \<Rightarrow> None)
      (request (CmdSubscribe [SubAll]) reads c)"

definition client_unsubscribe :: "requester \<Rightarrow> unit client_call" where
  "client_unsubscribe request reads c =
    expect_result (\<lambda>r. case r of ResUnsubscribed \<Rightarrow> Some () | _ \<Rightarrow> None)
      (request (CmdUnsubscribe [SubAll]) reads c)"

text \<open>The commands of protocol 1.1 first check the version the daemon gave in its greeting.\<close>

definition guarded :: "nat \<Rightarrow> 'a client_call \<Rightarrow> 'a client_call" where
  "guarded minor call reads c =
    (case require_minor c minor of
       Ok _ \<Rightarrow> call reads c
     | Err e \<Rightarrow> (Err e, reads, c)
     | Panic \<Rightarrow> (Panic, reads, c))"

definition client_diagnostics :: "requester \<Rightarrow> diagnostics client_call" where
  "client_diagnostics request = guarded 1 (\<lambda>reads c.
    expect_result (\<lambda>r. case r of ResDiagnostics v \<Rightarrow> Some v | _ \<Rightarrow> None) (request CmdDiagnostics reads c))"

definition client_config :: "requester \<Rightarrow> string client_call" where
  "client_config request = guarded 1 (\<lambda>reads c.
    expect_result (\<lambda>r. case r of ResConfig v \<Rightarrow> Some v | _ \<Rightarrow> None) (request CmdConfig reads c))"

definition client_start_capture :: "requester \<Rightarrow> string \<Rightarrow> device_info client_call" where
  "client_start_capture request syspath = guarded 1 (\<lambda>reads c.
    expect_result (\<lambda>r. case r of ResCaptureStarted v \<Rightarrow> Some v | _ \<Rightarrow> None)
      (request (CmdStartCapture syspath) reads c))"

definition client_stop_capture :: "requester \<Rightarrow> unit client_call" where
  "client_stop_capture request = guarded 1 (\<lambda>reads c.
    expect_result (\<lambda>r. case r of ResCaptureStopped \<Rightarrow> Some () | _ \<Rightarrow> None)
      (request CmdStopCapture reads c))"

definition client_hello :: "requester \<Rightarrow> unit client_call" where
  "client_hello request reads c =
    (case request (CmdHello PROTOCOL_MAJOR PROTOCOL_MAJOR) reads c of
       (Ok (ResHello major minor _), rs, c') \<Rightarrow>
         if major = PROTOCOL_MAJOR then (Ok (), rs, c'\<lparr>rd_protocol_minor := minor\<rparr>)
         else (Err (CeUnsupportedVersion major minor), rs, c')
     | (Ok _, rs, c') \<Rightarrow> (Err CeUnexpectedMessage, rs, c')
     | (Err e, rs, c') \<Rightarrow> (Err e, rs, c')
     | (Panic, rs, c') \<Rightarrow> (Panic, rs, c'))"

text \<open>\<open>default_socket_path\<close>, from the value of \<open>XDG_RUNTIME_DIR\<close>. A relative one is refused.\<close>

definition ipc_socket_path :: "string option \<Rightarrow> client_error + string" where
  "ipc_socket_path var =
    (case var of
       None \<Rightarrow> Inl CeRuntimeDirectoryMissing
     | Some runtime \<Rightarrow>
         if take 1 runtime \<noteq> ''/'' then Inl (CeRuntimeDirectoryRelative runtime)
         else Inr ((if last runtime = CHR ''/'' then runtime else runtime @ ''/'') @ ''wiiland/wiilandd.sock''))"

end
