(* ===== verification/Session.thy ===== *)
theory Session
  imports Ipc_Reader
begin

text \<open>
  The background subscription of \<open>crates/wiiland-ipc/src/session.rs\<close> and the capture connection of
  \<open>capture.rs\<close> it owns: the bounded event queue and its two delivery policies, the selection of
  devices, the setup of a capture, the worker's loop, and the consumer's \<open>try_recv\<close> and
  \<open>try_finish\<close>. Worker and consumer share the queue behind a mutex: their operations are steps
  that interleave.
\<close>

section \<open>The event queue\<close>

definition EVENT_QUEUE :: nat where "EVENT_QUEUE = 64"

datatype session_event =
    EvConnected daemon_status "device_info list"
  | EvNotification notification

datatype delivery_policy = Strict | LatestSensors

record event_queue =
  eq_events :: "session_event list"
  eq_policy :: delivery_policy
  eq_coalesced :: nat
  eq_closed :: bool

definition event_queue_new :: "delivery_policy \<Rightarrow> event_queue" where
  "event_queue_new p = \<lparr>eq_events = [], eq_policy = p, eq_coalesced = 0, eq_closed = False\<rparr>"

fun sensor_payload :: "input_payload \<Rightarrow> bool" where
  "sensor_payload (PlAccel _) \<longleftrightarrow> True"
| "sensor_payload (PlIr _) \<longleftrightarrow> True"
| "sensor_payload (PlBalanceBoard _) \<longleftrightarrow> True"
| "sensor_payload (PlMotionPlus _) \<longleftrightarrow> True"
| "sensor_payload (PlProControllerMove _) \<longleftrightarrow> True"
| "sensor_payload (PlClassicControllerMove _) \<longleftrightarrow> True"
| "sensor_payload (PlNunchukMove _) \<longleftrightarrow> True"
| "sensor_payload (PlDrumsMove _) \<longleftrightarrow> True"
| "sensor_payload (PlGuitarMove _) \<longleftrightarrow> True"
| "sensor_payload _ \<longleftrightarrow> False"

fun sensor_identity :: "session_event \<Rightarrow> (string \<times> nat) option" where
  "sensor_identity (EvNotification (NoteInput _ syspath _ payload)) =
    (if sensor_payload payload then Some (syspath, InputPayload_event_code payload) else None)"
| "sensor_identity _ = None"

text \<open>The element a full queue gives up for \<open>ev\<close>: its sensor's oldest sample, else the oldest sample.\<close>

definition victim :: "session_event list \<Rightarrow> session_event \<Rightarrow> nat option" where
  "victim events ev =
    (let same = (case sensor_identity ev of
                   None \<Rightarrow> None
                 | Some i \<Rightarrow> position (\<lambda>old. sensor_identity old = Some i) events)
     in case same of Some n \<Rightarrow> Some n | None \<Rightarrow> position (\<lambda>old. sensor_identity old \<noteq> None) events)"

definition remove_at :: "nat \<Rightarrow> 'a list \<Rightarrow> 'a list" where
  "remove_at n xs = take n xs @ drop (Suc n) xs"

definition count_one :: "event_queue \<Rightarrow> event_queue" where
  "count_one q = q\<lparr>eq_coalesced := (eq_coalesced q + 1) mod 18446744073709551616\<rparr>"

definition event_send :: "event_queue \<Rightarrow> session_event \<Rightarrow> (unit, client_error) outcome \<times> event_queue" where
  "event_send q ev =
    (let events = eq_events q;
         full = (Err (CeSessionBacklogExceeded EVENT_QUEUE), q)
     in if length events \<noteq> EVENT_QUEUE then (Ok (), q\<lparr>eq_events := events @ [ev]\<rparr>)
        else case eq_policy q of
          Strict \<Rightarrow> full
        | LatestSensors \<Rightarrow>
            (case victim events ev of
               Some n \<Rightarrow> (Ok (), count_one (q\<lparr>eq_events := remove_at n events @ [ev]\<rparr>))
             | None \<Rightarrow> if sensor_identity ev \<noteq> None then (Ok (), count_one q) else full))"

datatype recv_error = RecvEmpty | RecvDisconnected

definition queue_try_recv :: "event_queue \<Rightarrow> (session_event, recv_error) outcome \<times> event_queue" where
  "queue_try_recv q =
    (case eq_events q of
       ev # evs \<Rightarrow> (Ok ev, q\<lparr>eq_events := evs\<rparr>)
     | [] \<Rightarrow> (Err (if eq_closed q then RecvDisconnected else RecvEmpty), q))"


section \<open>Selecting devices\<close>

definition all_digits :: "string \<Rightarrow> bool" where
  "all_digits s \<longleftrightarrow> list_all (\<lambda>c. digit_value c \<noteq> None) s"

text \<open>\<open>selector.parse::<usize>()\<close> of a text of digits, then \<open>checked_sub(1)\<close>.\<close>

definition ordinal :: "string \<Rightarrow> nat option" where
  "ordinal s =
    (case parse_digits s of
       None \<Rightarrow> None
     | Some v \<Rightarrow> if v < 18446744073709551616 \<and> v \<ge> 1 then Some (nat v - 1) else None)"

definition select_devices ::
  "device_info list \<Rightarrow> string \<Rightarrow> bool \<Rightarrow> (device_info list, client_error) outcome" where
  "select_devices devices selector single =
    (let invalid = Err (CeIo IoInvalidInput)
     in if selector = [] then
          (if devices = [] then invalid else Ok (if single then take 1 devices else devices))
        else if all_digits selector then
          (case ordinal selector of
             None \<Rightarrow> invalid
           | Some n \<Rightarrow> if n < length devices then Ok [devices ! n] else invalid)
        else case List.find (\<lambda>d. di_syspath d = selector) devices of
          Some d \<Rightarrow> Ok [d]
        | None \<Rightarrow> invalid)"


section \<open>The capture connection\<close>

definition pure_call :: "'a \<Rightarrow> 'a client_call" where
  "pure_call v reads c = (Ok v, reads, c)"

definition then_call :: "'a client_call \<Rightarrow> ('a \<Rightarrow> 'b client_call) \<Rightarrow> 'b client_call" where
  "then_call call next_call reads c =
    (case call reads c of
       (Ok v, rs, c') \<Rightarrow> next_call v rs c'
     | (Err e, rs, c') \<Rightarrow> (Err e, rs, c')
     | (Panic, rs, c') \<Rightarrow> (Panic, rs, c'))"

definition call_result :: "('a, client_error) outcome \<Rightarrow> 'a client_call" where
  "call_result r reads c = (r, reads, c)"

definition socket_setting :: "io_kind option \<Rightarrow> unit client_call" where
  "socket_setting e = call_result (case e of None \<Rightarrow> Ok () | Some k \<Rightarrow> Err (CeIo k))"

text \<open>
  What surrounds a capture: the results of opening the socket and of its settings, and whether the
  caller has cancelled at each check. \<open>ce_request n\<close> is the client's \<open>request\<close> at its \<open>n\<close>th use.
\<close>

record capture_env =
  ce_open :: "(unit, client_error) outcome"
  ce_setting :: "nat \<Rightarrow> io_kind option"
  ce_cancelled :: "nat \<Rightarrow> bool"
  ce_request :: "nat \<Rightarrow> requester"

text \<open>\<open>Client::connect\<close>, and the timeouts it sets before and after the greeting.\<close>

definition client_connect :: "capture_env \<Rightarrow> unit client_call" where
  "client_connect env =
    then_call (call_result (ce_open env)) (\<lambda>_.
    then_call (socket_setting (ce_setting env 0)) (\<lambda>_.
    then_call (socket_setting (ce_setting env 1)) (\<lambda>_.
    then_call (client_hello (ce_request env 0)) (\<lambda>_.
    then_call (socket_setting (ce_setting env 2)) (\<lambda>_.
    socket_setting (ce_setting env 3))))))"

definition check_cancelled :: "capture_env \<Rightarrow> nat \<Rightarrow> unit client_call" where
  "check_cancelled env k = call_result (if ce_cancelled env k then Err (CeIo IoInterrupted) else Ok ())"

fun lease_devices :: "capture_env \<Rightarrow> nat \<Rightarrow> device_info list \<Rightarrow> device_info list client_call" where
  "lease_devices env k [] = pure_call []"
| "lease_devices env k (d # ds) =
    then_call (check_cancelled env (4 + k)) (\<lambda>_.
    then_call (client_start_capture (ce_request env (4 + k)) (di_syspath d)) (\<lambda>d'.
    then_call (lease_devices env (Suc k) ds) (\<lambda>ds'. pure_call (d' # ds'))))"

definition connect_cancellable ::
  "capture_env \<Rightarrow> string \<Rightarrow> bool \<Rightarrow> (daemon_status \<times> device_info list) client_call" where
  "connect_cancellable env selector single =
    then_call (check_cancelled env 0) (\<lambda>_.
    then_call (client_connect env) (\<lambda>_.
    then_call (socket_setting (ce_setting env 4)) (\<lambda>_.
    then_call (socket_setting (ce_setting env 5)) (\<lambda>_.
    then_call (check_cancelled env 1) (\<lambda>_.
    then_call (client_status (ce_request env 1)) (\<lambda>status.
    then_call (check_cancelled env 2) (\<lambda>_.
    then_call (client_devices (ce_request env 2)) (\<lambda>known.
    then_call (call_result (select_devices known selector single)) (\<lambda>selected.
    then_call (check_cancelled env 3) (\<lambda>_.
    then_call (client_subscribe (ce_request env 3)) (\<lambda>_.
    then_call (lease_devices env 0 selected) (\<lambda>devices.
    then_call (check_cancelled env (4 + length selected)) (\<lambda>_.
    then_call (socket_setting (ce_setting env 6)) (\<lambda>_.
    pure_call (status, devices)))))))))))))))"

text \<open>\<open>next_event\<close>: the events of devices that were not selected are dropped.\<close>

fun notification_path :: "notification \<Rightarrow> string option" where
  "notification_path (NoteInput _ syspath _ _) = Some syspath"
| "notification_path (NoteDeviceRemoved _ syspath _) = Some syspath"
| "notification_path (NoteDeviceAdded _ device) = Some (di_syspath device)"
| "notification_path NoteUnsupported = None"

definition wanted :: "device_info list \<Rightarrow> notification \<Rightarrow> bool" where
  "wanted devices event =
    (case notification_path event of
       None \<Rightarrow> True
     | Some path \<Rightarrow> list_ex (\<lambda>device. di_syspath device = path) devices)"

definition next_event ::
  "(bytes \<Rightarrow> string + server_message) \<Rightarrow> device_info list \<Rightarrow> notification option client_call" where
  "next_event from_json devices =
    then_call (poll_event from_json) (\<lambda>event.
      pure_call (case event of None \<Rightarrow> None | Some e \<Rightarrow> if wanted devices e then Some e else None))"


section \<open>Worker and consumer\<close>

record session =
  se_queue :: event_queue
  se_channel :: "(unit, client_error) outcome option"
  se_sender :: bool
  se_cancelled :: bool
  se_pending_event :: "session_event option"
  se_pending_result :: "(unit, client_error) outcome option"

definition session_new :: "delivery_policy \<Rightarrow> session" where
  "session_new p = \<lparr>
     se_queue = event_queue_new p, se_channel = None, se_sender = True, se_cancelled = False,
     se_pending_event = None, se_pending_result = None\<rparr>"

definition session_try_recv :: "session \<Rightarrow> (session_event, recv_error) outcome \<times> session" where
  "session_try_recv s =
    (case se_pending_event s of
       Some ev \<Rightarrow> (Ok ev, s\<lparr>se_pending_event := None\<rparr>)
     | None \<Rightarrow> (case queue_try_recv (se_queue s) of (r, q) \<Rightarrow> (r, s\<lparr>se_queue := q\<rparr>)))"

text \<open>\<open>finished.try_recv()\<close> on the channel of the worker's result.\<close>

definition channel_try_recv :: "session \<Rightarrow> ((unit, client_error) outcome, recv_error) outcome \<times> session" where
  "channel_try_recv s =
    (case se_channel s of
       Some r \<Rightarrow> (Ok r, s\<lparr>se_channel := None\<rparr>)
     | None \<Rightarrow> (Err (if se_sender s then RecvEmpty else RecvDisconnected), s))"

definition try_finish :: "session \<Rightarrow> ((unit, client_error) outcome, recv_error) outcome \<times> session" where
  "try_finish s =
    (let (got, s1) = (case se_pending_result s of
                        Some r \<Rightarrow> (Ok r, s\<lparr>se_pending_result := None\<rparr>)
                      | None \<Rightarrow> channel_try_recv s)
     in case got of
          Err e \<Rightarrow> (Err e, s1)
        | Panic \<Rightarrow> (Panic, s1)
        | Ok result \<Rightarrow>
            (if se_pending_event s1 \<noteq> None then (Err RecvEmpty, s1\<lparr>se_pending_result := Some result\<rparr>)
             else case queue_try_recv (se_queue s1) of
               (Ok ev, q) \<Rightarrow>
                 (Err RecvEmpty, s1\<lparr>se_queue := q, se_pending_event := Some ev, se_pending_result := Some result\<rparr>)
             | (_, q) \<Rightarrow> (Ok result, s1\<lparr>se_queue := q\<rparr>)))"

definition session_cancel :: "session \<Rightarrow> session" where
  "session_cancel s = s\<lparr>se_cancelled := True\<rparr>"

text \<open>
  The worker thread: \<open>run\<close> connects, sends \<open>Connected\<close>, then loops over \<open>next_event\<close>; afterwards the
  thread closes the queue and sends its result.
\<close>

datatype worker =
    WorkerConnecting
  | WorkerRunning "device_info list"
  | WorkerClosing "(unit, client_error) outcome"
  | WorkerSending "(unit, client_error) outcome"
  | WorkerGone

text \<open>Beside its effects a step gives the events that entered the queue, for the specification.\<close>

definition worker_send ::
  "session \<Rightarrow> session_event \<Rightarrow> worker \<Rightarrow> session_event list \<times> worker \<times> session" where
  "worker_send s ev after =
    (case event_send (se_queue s) ev of
       (Ok _, q) \<Rightarrow> ([ev], after, s\<lparr>se_queue := q\<rparr>)
     | (Err e, q) \<Rightarrow> ([], WorkerClosing (Err e), s\<lparr>se_queue := q\<rparr>)
     | (Panic, q) \<Rightarrow> ([], WorkerGone, s\<lparr>se_queue := q, se_sender := False\<rparr>))"

fun worker_step ::
  "(bytes \<Rightarrow> string + server_message) \<Rightarrow> capture_env \<Rightarrow> string \<Rightarrow> bool \<Rightarrow> worker \<Rightarrow> session \<Rightarrow>
    stream_read list \<Rightarrow> reader \<Rightarrow>
    (session_event list \<times> worker \<times> session) \<times> stream_read list \<times> reader" where
  "worker_step f env selector single WorkerConnecting s reads c =
    (case connect_cancellable env selector single reads c of
       (Ok (status, devices), rs, c') \<Rightarrow>
         (worker_send s (EvConnected status devices) (WorkerRunning devices), rs, c')
     | (Err e, rs, c') \<Rightarrow> (([], WorkerClosing (if se_cancelled s then Ok () else Err e), s), rs, c')
     | (Panic, rs, c') \<Rightarrow> (([], WorkerGone, s\<lparr>se_sender := False\<rparr>), rs, c'))"
| "worker_step f env selector single (WorkerRunning devices) s reads c =
    (if se_cancelled s then (([], WorkerClosing (Ok ()), s), reads, c)
     else case next_event f devices reads c of
       (Ok (Some event), rs, c') \<Rightarrow>
         (worker_send s (EvNotification event) (WorkerRunning devices), rs, c')
     | (Ok None, rs, c') \<Rightarrow> (([], WorkerRunning devices, s), rs, c')
     | (Err e, rs, c') \<Rightarrow>
         (([], if e = CeIo IoWouldBlock \<or> e = CeIo IoTimedOut then WorkerRunning devices
               else WorkerClosing (Err e), s), rs, c')
     | (Panic, rs, c') \<Rightarrow> (([], WorkerGone, s\<lparr>se_sender := False\<rparr>), rs, c'))"
| "worker_step f env selector single (WorkerClosing r) s reads c =
    (([], WorkerSending r, s\<lparr>se_queue := (se_queue s)\<lparr>eq_closed := True\<rparr>\<rparr>), reads, c)"
| "worker_step f env selector single (WorkerSending r) s reads c =
    (([], WorkerGone, s\<lparr>se_channel := Some r, se_sender := False\<rparr>), reads, c)"
| "worker_step f env selector single WorkerGone s reads c = (([], WorkerGone, s), reads, c)"

text \<open>
  A session as a sequence of steps of the worker and calls of the consumer, in any order.
\<close>

datatype session_op = DoWork | DoRecv | DoFinish | DoCancel

datatype session_out =
    OutSent "session_event list"
  | OutReceived "(session_event, recv_error) outcome"
  | OutFinished "((unit, client_error) outcome, recv_error) outcome"
  | OutCancelled

type_synonym session_state = "worker \<times> session \<times> stream_read list \<times> reader"

fun session_step ::
  "(bytes \<Rightarrow> string + server_message) \<Rightarrow> capture_env \<Rightarrow> string \<Rightarrow> bool \<Rightarrow> session_op \<Rightarrow> session_state \<Rightarrow>
    session_out \<times> session_state" where
  "session_step f env selector single DoWork (w, s, reads, c) =
    (case worker_step f env selector single w s reads c of
       ((sent, w', s'), rs, c') \<Rightarrow> (OutSent sent, w', s', rs, c'))"
| "session_step f env selector single DoRecv (w, s, reads, c) =
    (case session_try_recv s of (r, s') \<Rightarrow> (OutReceived r, w, s', reads, c))"
| "session_step f env selector single DoFinish (w, s, reads, c) =
    (case try_finish s of (r, s') \<Rightarrow> (OutFinished r, w, s', reads, c))"
| "session_step f env selector single DoCancel (w, s, reads, c) =
    (OutCancelled, w, session_cancel s, reads, c)"

fun session_run ::
  "(bytes \<Rightarrow> string + server_message) \<Rightarrow> capture_env \<Rightarrow> string \<Rightarrow> bool \<Rightarrow> session_op list \<Rightarrow> session_state \<Rightarrow>
    session_out list \<times> session_state" where
  "session_run f env selector single [] st = ([], st)"
| "session_run f env selector single (op # ops) st =
    (case session_step f env selector single op st of
       (out, st') \<Rightarrow> (case session_run f env selector single ops st' of (outs, st'') \<Rightarrow> (out # outs, st'')))"

definition session_start :: "delivery_policy \<Rightarrow> stream_read list \<Rightarrow> session_state" where
  "session_start policy reads = (WorkerConnecting, session_new policy, reads, reader_start)"

end
