(* ===== verification/Ipc_Reader_Facts.thy ===== *)
theory Ipc_Reader_Facts
  imports Ipc_Reader "HOL-Library.Sublist"
begin

text \<open>
  What the blocking client (\<open>crates/wiiland-ipc/src/client.rs\<close>) promises: it never panics, the
  size it books for a message is exactly the message's bytes on the wire, its backlog stays
  bounded, and notifications are delivered once each and in the order of the stream, also
  those that arrive while a request waits for its answer.
\<close>

section \<open>Pieces and lines\<close>

lemma split_inclusive_lines:
  "split_inclusive s = map (\<lambda>l. l @ [newline]) (fst (split_lines s))
    @ (if snd (split_lines s) = [] then [] else [snd (split_lines s)])"
proof (induction s)
  case (Cons b s)
  then show ?case by (cases "fst (split_lines s)") (auto simp: split_beta)
qed simp

lemma split_lines_prefix:
  assumes "newline \<notin> set b"
  shows "split_lines (b @ s) =
    (case fst (split_lines s) of [] \<Rightarrow> ([], b @ snd (split_lines s))
     | l # ls \<Rightarrow> ((b @ l) # ls, snd (split_lines s)))"
  using assms by (induction b) (auto simp: split_beta prod_eq_iff split: list.split)

text \<open>A message and its size on the wire, from a line of the stream.\<close>

definition line_message :: "(bytes \<Rightarrow> string + server_message) \<Rightarrow> bytes \<Rightarrow> server_message \<times> nat" where
  "line_message f l = (projr (decode_frame f (payload_of l)), length l + 1)"

lemma take_frames_lines:
  "take_frames f (map payload_of ls) (map (\<lambda>l. l @ [newline]) ls @ rest) 0 c = (r, c') \<Longrightarrow>
    r \<noteq> Panic \<and> (r = Ok () \<longrightarrow> c' = c\<lparr>rd_messages := rd_messages c @ map (line_message f) ls\<rparr>)"
proof (induction ls arbitrary: c)
  case (Cons l ls)
  show ?case
  proof (cases "decode_frame f (payload_of l)")
    case (Inl e)
    then show ?thesis using Cons.prems by auto
  next
    case (Inr m)
    let ?c = "c\<lparr>rd_messages := rd_messages c @ [line_message f l]\<rparr>"
    have "take_frames f (map payload_of ls) (map (\<lambda>l. l @ [newline]) ls @ rest) 0 ?c = (r, c')"
      using Cons.prems Inr by (simp add: line_message_def)
    from Cons.IH [OF this] show ?thesis by auto
  qed
qed auto

lemma take_frames_first:
  assumes "take_frames f (payload_of (b @ l) # map payload_of ls)
      ((l @ [newline]) # map (\<lambda>l. l @ [newline]) ls @ rest) (length b) c = (r, c')"
  shows "r \<noteq> Panic \<and>
    (r = Ok () \<longrightarrow> c' = c\<lparr>rd_messages := rd_messages c @ line_message f (b @ l) # map (line_message f) ls\<rparr>)"
proof (cases "decode_frame f (payload_of (b @ l))")
  case (Inl e)
  then show ?thesis using assms by auto
next
  case (Inr m)
  let ?c = "c\<lparr>rd_messages := rd_messages c @ [line_message f (b @ l)]\<rparr>"
  have "take_frames f (map payload_of ls) (map (\<lambda>l. l @ [newline]) ls @ rest) 0 ?c = (r, c')"
    using assms Inr by (simp add: line_message_def)
  from take_frames_lines [OF this] show ?thesis by auto
qed


section \<open>Reading\<close>

definition frames_ok :: "reader \<Rightarrow> bool" where
  "frames_ok c \<longleftrightarrow> newline \<notin> set (rd_frames c) \<and> length (payload_of (rd_frames c)) \<le> MAX_FRAME_BYTES"

lemma read_messages_stream:
  assumes "frames_ok c" "rd_messages c = []" "read_messages f data c = (r, c')"
  shows "r \<noteq> Panic \<and> (\<forall>m. r = Ok m \<longrightarrow>
    frames_ok c' \<and> rd_frames c' = snd (split_lines (rd_frames c @ data))
    \<and> (case m of None \<Rightarrow> [] | Some x \<Rightarrow> [x]) @ rd_messages c'
        = map (line_message f) (fst (split_lines (rd_frames c @ data)))
    \<and> c' = c\<lparr>rd_frames := rd_frames c', rd_messages := rd_messages c'\<rparr>)"
proof (cases "data = []")
  case True
  then show ?thesis using assms(3) by (auto simp: read_messages_def)
next
  case False
  let ?b = "rd_frames c" and ?ls = "fst (split_lines data)" and ?t = "snd (split_lines data)"
  obtain fr buffer where p: "frame_push ?b data = (fr, buffer)" by force
  have spec: "push_spec (?b @ data) [] (fr, buffer)"
    unfolding p [symmetric] frame_push_def using assms(1)
    by (intro frame_loop_spec) (simp_all add: frames_ok_def)
  show ?thesis
  proof (cases fr)
    case (Inl e)
    then show ?thesis using assms(3) False p by (auto simp: read_messages_def)
  next
    case (Inr frames)
    have fs: "frames = map payload_of (fst (split_lines (?b @ data)))"
        "buffer = snd (split_lines (?b @ data))" "stream_ok (?b @ data)"
      using spec Inr by (simp_all add: push_spec_def)
    have bok: "frames_ok (c'\<lparr>rd_frames := buffer\<rparr>)" for c'
      using fs(2,3) split_lines_tail by (auto simp: frames_ok_def stream_ok_def split_beta)
    let ?c = "c\<lparr>rd_frames := buffer\<rparr>"
    obtain t c1 where t: "take_frames f frames (split_inclusive data) (length ?b) ?c = (t, c1)" by force
    have nl: "newline \<notin> set ?b" using assms(1) by (simp add: frames_ok_def)
    have tf: "t \<noteq> Panic \<and> (t = Ok () \<longrightarrow>
        c1 = ?c\<lparr>rd_messages := map (line_message f) (fst (split_lines (?b @ data)))\<rparr>)"
    proof (cases ?ls)
      case Nil
      then have "frames = []" using fs(1) split_lines_prefix [OF nl, of data] by simp
      then show ?thesis using t Nil split_lines_prefix [OF nl, of data] assms(2) by auto
    next
      case (Cons l ls)
      then have sl: "fst (split_lines (?b @ data)) = (?b @ l) # ls"
        using split_lines_prefix [OF nl, of data] by simp
      have "take_frames f (payload_of (?b @ l) # map payload_of ls)
          ((l @ [newline]) # map (\<lambda>l. l @ [newline]) ls @ (if ?t = [] then [] else [?t])) (length ?b) ?c = (t, c1)"
        using t by (simp only: fs(1) sl split_inclusive_lines Cons list.map append_Cons)
      from take_frames_first [OF this] show ?thesis using assms(2) by (simp add: sl)
    qed
    have rm: "read_messages f data c = (case t of Ok _ \<Rightarrow> (case pop_message c1 of (m, c2) \<Rightarrow> (Ok m, c2))
        | Err e \<Rightarrow> (Err e, c1) | Panic \<Rightarrow> (Panic, c1))"
      using False p Inr t by (simp add: read_messages_def)
    show ?thesis
    proof (cases t)
      case (Ok u)
      then have c1: "c1 = ?c\<lparr>rd_messages := map (line_message f) (fst (split_lines (?b @ data)))\<rparr>"
        using tf by simp
      show ?thesis
        using assms(3) rm Ok bok [of c'] fs(2)
        by (auto simp: c1 pop_message_def frames_ok_def split: list.splits)
    qed (use assms(3) rm tf in auto)
  qed
qed

section \<open>The stream and the messages\<close>

fun stream_data :: "stream_read \<Rightarrow> bytes" where
  "stream_data (StreamData b) = take 8192 b"
| "stream_data (StreamError k) = []"

definition received :: "stream_read list \<Rightarrow> bytes" where
  "received reads = concat (map stream_data reads)"

text \<open>The messages, with their sizes, in the complete lines of a stream.\<close>

definition arrived :: "(bytes \<Rightarrow> string + server_message) \<Rightarrow> bytes \<Rightarrow> (server_message \<times> nat) list" where
  "arrived f s = map (line_message f) (fst (split_lines s))"

text \<open>After stream \<open>s\<close> with the messages \<open>h\<close> taken, the client holds the rest.\<close>

definition synced :: "(bytes \<Rightarrow> string + server_message) \<Rightarrow> bytes \<Rightarrow> (server_message \<times> nat) list \<Rightarrow> reader \<Rightarrow> bool" where
  "synced f s h c \<longleftrightarrow> frames_ok c \<and> rd_frames c = snd (split_lines s) \<and> arrived f s = h @ rd_messages c"

definition same_box :: "reader \<Rightarrow> reader \<Rightarrow> bool" where
  "same_box c c' \<longleftrightarrow> rd_notifications c' = rd_notifications c
    \<and> rd_notification_bytes c' = rd_notification_bytes c \<and> rd_terminated c' = rd_terminated c"

fun bad_frame :: "client_error \<Rightarrow> bool" where
  "bad_frame (CeFrame _) \<longleftrightarrow> True"
| "bad_frame _ \<longleftrightarrow> False"

fun frame_error :: "('a, client_error) outcome \<Rightarrow> bool" where
  "frame_error (Err e) \<longleftrightarrow> bad_frame e"
| "frame_error _ \<longleftrightarrow> False"

fun taken :: "((server_message \<times> nat) option, client_error) outcome \<Rightarrow> (server_message \<times> nat) list" where
  "taken (Ok (Some m)) = [m]"
| "taken _ = []"

lemma arrived_append:
  "arrived f (s @ t) = arrived f s @ arrived f (snd (split_lines s) @ t)"
  by (simp add: arrived_def split_lines_append [of s t])

lemma take_frames_error: "take_frames f frames chunks n c = (Err e, c') \<Longrightarrow> frame_error (Err e :: (unit, client_error) outcome)"
  by (induction f frames chunks n c rule: take_frames.induct) (auto split: sum.splits)

lemma map_stream_io_error_not_frame: "\<not> frame_error (Err (map_stream_io_error k) :: ('a, client_error) outcome)"
  by (cases k) simp_all

lemma poll_message_synced:
  assumes sy: "synced f s h c" and p: "poll_message f reads c = (r, rs, c')" and fe: "\<not> frame_error r"
  shows "r \<noteq> Panic \<and> same_box c c' \<and>
    (\<exists>used. reads = used @ rs \<and> synced f (s @ received used) (h @ taken r) c')"
proof (cases "rd_messages c")
  case (Cons m ms)
  then have "r = Ok (Some m)" "rs = reads" "c' = c\<lparr>rd_messages := ms\<rparr>"
    using p by (auto simp: poll_message.simps pop_message_def)
  then show ?thesis using sy Cons
    by (intro conjI exI [of _ "[]"]) (auto simp: synced_def same_box_def received_def frames_ok_def)
next
  case Nil
  show ?thesis
  proof (cases reads)
    case rn: Nil
    then show ?thesis using p Nil sy
      by (intro conjI exI [of _ "[]"]) (auto simp: poll_message.simps same_box_def received_def)
  next
    case (Cons a as)
    show ?thesis
    proof (cases a)
      case (StreamError k)
      then show ?thesis using p Nil Cons sy map_stream_io_error_not_frame
        by (intro conjI exI [of _ "[a]"]) (auto simp: poll_message.simps same_box_def received_def)
    next
      case (StreamData b)
      let ?d = "take 8192 b"
      have rm: "read_messages f ?d c = (r, c')" and rs: "rs = as"
        using p Nil Cons StreamData by (auto simp: poll_message.simps split: prod.splits)
      have fok: "frames_ok c" using sy by (simp add: synced_def)
      note st = read_messages_stream [OF fok Nil rm]
      have sp: "split_lines (s @ ?d) = (fst (split_lines s) @ fst (split_lines (rd_frames c @ ?d)),
          snd (split_lines (rd_frames c @ ?d)))"
        using split_lines_append [of s ?d] sy by (simp add: synced_def)
      have ar: "arrived f (s @ ?d) = h @ map (line_message f) (fst (split_lines (rd_frames c @ ?d)))"
        using sy Nil by (simp add: arrived_def sp synced_def)
      show ?thesis
      proof (cases r)
        case (Ok m)
        then have "synced f (s @ ?d) (h @ taken r) c'"
          using st ar sp by (cases m) (auto simp: synced_def)
        moreover obtain b' ms where "c' = c\<lparr>rd_frames := b', rd_messages := ms\<rparr>" using st Ok by blast
        then have "same_box c c'" by (simp add: same_box_def)
        ultimately show ?thesis using Ok Cons StreamData rs
          by (intro conjI exI [of _ "[a]"]) (simp_all add: received_def)
      next
        case (Err e)
        have "c' = c \<and> ?d = []"
        proof (rule ccontr)
          assume "\<not> ?thesis"
          then have ne: "?d \<noteq> []" using rm by (auto simp: read_messages_def)
          obtain fr buffer where fp: "frame_push (rd_frames c) ?d = (fr, buffer)" by force
          show False
          proof (cases fr)
            case (Inr frames)
            obtain t c1 where t: "take_frames f frames (split_inclusive ?d) (length (rd_frames c))
                (c\<lparr>rd_frames := buffer\<rparr>) = (t, c1)" by force
            have "t = Err e" using rm Err ne fp Inr t
              by (auto simp: read_messages_def split: outcome.splits prod.splits)
            from take_frames_error [OF t [unfolded this]] show False using Err fe by (cases e) auto
          qed (use rm Err ne fp fe in \<open>auto simp: read_messages_def\<close>)
        qed
        then show ?thesis using Cons StreamData rs sy Err
          by (intro conjI exI [of _ "[a]"]) (simp_all add: received_def same_box_def)
      next
        case Panic
        then show ?thesis using st by simp
      qed
    qed
  qed
qed

section \<open>Notifications in order\<close>

fun note_of :: "server_message \<times> nat \<Rightarrow> notification list" where
  "note_of (MsgNotification note, _) = [note]"
| "note_of _ = []"

definition notices :: "(server_message \<times> nat) list \<Rightarrow> notification list" where
  "notices h = concat (map note_of h)"

lemma notices_simps [simp]: "notices [] = []" "notices (h @ h') = notices h @ notices h'" "notices [m] = note_of m"
  by (simp_all add: notices_def)

text \<open>The notifications of a stream: what a subscriber is due.\<close>

definition stream_notes :: "(bytes \<Rightarrow> string + server_message) \<Rightarrow> bytes \<Rightarrow> notification list" where
  "stream_notes f s = notices (arrived f s)"

definition box_ok :: "reader \<Rightarrow> bool" where
  "box_ok c \<longleftrightarrow> rd_notification_bytes c = sum_list (map snd (rd_notifications c))
    \<and> rd_notification_bytes c \<le> MAX_NOTIFICATION_BACKLOG_BYTES"

text \<open>
  After stream \<open>s\<close>, with the notifications \<open>d\<close> handed out: the backlog is what is due and not yet
  handed out, unless it overflowed, which closes the client.
\<close>

definition reader_ok :: "(bytes \<Rightarrow> string + server_message) \<Rightarrow> bytes \<Rightarrow> notification list \<Rightarrow> reader \<Rightarrow> bool" where
  "reader_ok f s d c \<longleftrightarrow> box_ok c \<and> (\<exists>h. synced f s h c \<and> prefix d (notices h)
    \<and> (rd_terminated c \<or> d @ map fst (rd_notifications c) = notices h))"

lemma reader_ok_start: "reader_ok f [] [] reader_start"
  by (simp add: reader_ok_def box_ok_def synced_def frames_ok_def arrived_def reader_start_def payload_of_def
      strip_last_def)

lemma reader_ok_same_box:
  assumes "reader_ok f s d c" "same_box c c'"
    and "\<And>h. synced f s h c \<Longrightarrow> synced f s' (h @ m) c'" and "notices m = []"
  shows "reader_ok f s' d c'"
  using assms unfolding reader_ok_def same_box_def box_ok_def by (metis append_Nil2 notices_simps(2))

text \<open>A message that is a notification is queued, or handed out at once when the backlog is empty.\<close>

lemma reader_ok_queue:
  assumes "box_ok c" "synced f s h c" "prefix d (notices h)" "d @ map fst (rd_notifications c) @ [note] = notices h"
    and q: "queue_notification c note n = (r, c')"
  shows "reader_ok f s d c' \<and> r \<noteq> Panic \<and> (r = Ok () \<longrightarrow> rd_terminated c' = rd_terminated c)"
proof -
  have "synced f s h c'"
    using q assms(2) by (auto simp: queue_notification_def synced_def frames_ok_def split: if_splits)
  moreover have "box_ok c'" using q assms(1)
    by (auto simp: queue_notification_def box_ok_def split: if_splits)
  moreover have "rd_terminated c' \<or> d @ map fst (rd_notifications c') = notices h"
    using q assms(4) by (auto simp: queue_notification_def split: if_splits)
  moreover have "r \<noteq> Panic" "r = Ok () \<longrightarrow> rd_terminated c' = rd_terminated c"
    using q by (auto simp: queue_notification_def split: if_splits)
  ultimately show ?thesis using assms(3) by (auto simp: reader_ok_def)
qed

fun handed :: "(notification option, client_error) outcome \<Rightarrow> notification list" where
  "handed (Ok (Some n)) = [n]"
| "handed _ = []"

lemma poll_message_reader:
  assumes ok: "reader_ok f s d c" and act: "\<not> rd_terminated c" and p: "poll_message f reads c = (r, rs, c')"
    and fe: "\<not> frame_error r"
  shows "r \<noteq> Panic \<and> same_box c c' \<and> (\<exists>used h. reads = used @ rs \<and> synced f (s @ received used) (h @ taken r) c'
    \<and> box_ok c' \<and> prefix d (notices h) \<and> d @ map fst (rd_notifications c') = notices h)"
proof -
  obtain h where h: "synced f s h c" "prefix d (notices h)" "d @ map fst (rd_notifications c) = notices h"
    using ok act by (auto simp: reader_ok_def)
  note pm = poll_message_synced [OF h(1) p fe]
  then have sb: "rd_notifications c' = rd_notifications c" "rd_notification_bytes c' = rd_notification_bytes c"
    by (auto simp: same_box_def)
  have "box_ok c'" using ok sb by (auto simp: reader_ok_def box_ok_def)
  then show ?thesis using pm h(2,3) sb(1) by auto
qed

lemma poll_event_reader:
  assumes ok: "reader_ok f s d c" and p: "poll_event f reads c = (r, rs, c')" and fe: "\<not> frame_error r"
  shows "r \<noteq> Panic \<and> (\<exists>used. reads = used @ rs \<and> reader_ok f (s @ received used) (d @ handed r) c')"
proof (cases "rd_terminated c")
  case True
  then show ?thesis using p ok
    by (intro conjI exI [of _ "[]"]) (auto simp: poll_event_def ensure_active_def received_def)
next
  case act: False
  show ?thesis
  proof (cases "rd_notifications c")
    case (Cons nn ns)
    obtain w n where nn: "nn = (w, n)" by force
    obtain h where h: "synced f s h c" "d @ map fst (rd_notifications c) = notices h" "box_ok c"
      using ok act by (auto simp: reader_ok_def)
    have c': "r = Ok (Some w)" "rs = reads"
        "c' = c\<lparr>rd_notifications := ns, rd_notification_bytes := rd_notification_bytes c - n\<rparr>"
      using p act Cons nn h(3) by (auto simp: poll_event_def ensure_active_def box_ok_def)
    have "box_ok c'" using h(3) c'(3) Cons nn by (auto simp: box_ok_def)
    moreover have "synced f s h c'" using h(1) c'(3) by (auto simp: synced_def frames_ok_def)
    moreover have "prefix (d @ [w]) (notices h)" "(d @ [w]) @ map fst (rd_notifications c') = notices h"
      using h(2) c'(3) Cons nn by (auto intro: prefixI [of _ _ "map fst ns"])
    ultimately show ?thesis using c'(1,2)
      by (intro conjI exI [of _ "[]"]) (auto simp: received_def reader_ok_def)
  next
    case Nil
    obtain q qs qc where q: "poll_message f reads c = (q, qs, qc)" by (metis prod_cases3)
    have pe: "poll_event f reads c = (case q of Err e \<Rightarrow> (Err e, qs, qc) | Panic \<Rightarrow> (Panic, qs, qc)
        | Ok None \<Rightarrow> (Ok None, qs, qc)
        | Ok (Some (msg, _)) \<Rightarrow> (case msg of MsgNotification note \<Rightarrow> (Ok (Some note), qs, qc)
            | MsgResponse _ _ \<Rightarrow> (Err CeUnexpectedMessage, qs, qc) | MsgError _ e \<Rightarrow> (Err (CeServer e), qs, qc)))"
      using act Nil q by (simp add: poll_event_def ensure_active_def split: outcome.split option.split)
    have fq: "\<not> frame_error q" using fe p pe by (cases q) auto
    obtain used h where k: "q \<noteq> Panic" "same_box c qc" "reads = used @ qs"
        "synced f (s @ received used) (h @ taken q) qc" "box_ok qc" "prefix d (notices h)"
        "d @ map fst (rd_notifications qc) = notices h"
      using poll_message_reader [OF ok act q fq] by auto
    have nil: "rd_notifications qc = []" using k(2) Nil by (simp add: same_box_def)
    have res: "notices (h @ taken q) = notices h @ handed r \<and> rs = qs \<and> c' = qc \<and> r \<noteq> Panic"
      using p pe k(1) by (auto split: outcome.splits option.splits prod.splits server_message.splits)
    have "reader_ok f (s @ received used) (d @ handed r) c'"
      unfolding reader_ok_def using k(4,5,7) nil res by (auto intro!: exI [of _ "h @ taken q"])
    then show ?thesis using res k(3) by auto
  qed
qed

lemma response_message_reader:
  assumes h: "synced f s (h @ [(msg, n)]) c" "box_ok c" "prefix d (notices h)"
      "d @ map fst (rd_notifications c) = notices h"
    and act: "\<not> rd_terminated c" and p: "response_message i msg n c = (r, c')"
  shows "reader_ok f s d c' \<and> r \<noteq> Some Panic \<and> (r = None \<longrightarrow> \<not> rd_terminated c')"
proof (cases msg)
  case (MsgNotification w)
  obtain q qc where q: "queue_notification c w n = (q, qc)" by force
  have r: "c' = qc \<and> r = (case q of Ok _ \<Rightarrow> None | Err e \<Rightarrow> Some (Err e) | Panic \<Rightarrow> Some Panic)"
    using p q MsgNotification by (auto simp: response_message_def split: outcome.splits)
  have "prefix d (notices (h @ [(msg, n)]))" "d @ map fst (rd_notifications c) @ [w] = notices (h @ [(msg, n)])"
    using h(3,4) MsgNotification by auto
  from reader_ok_queue [OF h(2,1) this q] r act show ?thesis by (auto split: outcome.splits)
next
  case (MsgResponse a res)
  then show ?thesis using p h act
    by (auto simp: response_message_def reader_ok_def intro!: exI [of _ "h @ [(msg, n)]"] split: if_splits)
next
  case (MsgError a e)
  then show ?thesis using p h act
    by (auto simp: response_message_def reader_ok_def intro!: exI [of _ "h @ [(msg, n)]"] split: option.splits if_splits)
qed

lemma read_response_reader:
  "reader_ok f s d c \<Longrightarrow> \<not> rd_terminated c \<Longrightarrow> read_response f rounds k i reads c = (r, rs, c') \<Longrightarrow>
    \<not> frame_error r \<Longrightarrow>
    r \<noteq> Panic \<and> (\<exists>used. reads = used @ rs \<and> reader_ok f (s @ received used) d c')"
proof (induction f rounds k i reads c arbitrary: s rule: read_response.induct)
  case (1 f rounds k i reads c)
  show ?case
  proof (cases "rounds k")
    case (Some e)
    then have "r = Err (CeIo e)" "rs = reads" "c' = c" using "1.prems"(3) by (auto simp: read_response.simps)
    then show ?thesis using "1.prems"(1) by (auto simp: received_def)
  next
    case None
    obtain q qs qc where q: "poll_message f reads c = (q, qs, qc)" by (metis prod_cases3)
    note rr = "1.prems"(3) [unfolded read_response.simps [of f rounds k i reads c] None q option.case prod.case]
    have fq: "\<not> frame_error q" using "1.prems"(4) rr by (cases q) auto
    obtain used h where k: "q \<noteq> Panic" "same_box c qc" "reads = used @ qs"
        "synced f (s @ received used) (h @ taken q) qc" "box_ok qc" "prefix d (notices h)"
        "d @ map fst (rd_notifications qc) = notices h"
      using poll_message_reader [OF "1.prems"(1,2) q fq] by auto
    have act: "\<not> rd_terminated qc" using k(2) "1.prems"(2) by (simp add: same_box_def)
    have more: "\<exists>u. reads = u @ rs \<and> reader_ok f (s @ received u) d c'"
      if "\<exists>u. qs = u @ rs \<and> reader_ok f ((s @ received used) @ received u) d c'"
      using that k(3) by (force simp: received_def)
    show ?thesis
    proof (cases q)
      case (Err e)
      then have "reader_ok f (s @ received used) d c'" "rs = qs" "r = Err e"
        using rr k by (auto simp: reader_ok_def intro!: exI [of _ h])
      then show ?thesis using k(3) by auto
    next
      case (Ok m)
      show ?thesis
      proof (cases m)
        case mn: None
        have "reader_ok f (s @ received used) d qc" using k Ok mn by (auto simp: reader_ok_def intro!: exI [of _ h])
        from "1.IH"(1) [OF None q [symmetric] Ok mn refl this act] rr Ok mn "1.prems"(4)
        show ?thesis using more by auto
      next
        case (Some mm)
        obtain msg n where mm: "mm = (msg, n)" by force
        obtain t tc where t: "response_message i msg n qc = (t, tc)" by force
        have sy: "synced f (s @ received used) (h @ [(msg, n)]) qc" using k(4) Ok Some mm by simp
        note rm = response_message_reader [OF sy k(5-7) act t]
        show ?thesis
        proof (cases t)
          case tn: None
          have "reader_ok f (s @ received used) d tc" "\<not> rd_terminated tc" using rm tn by auto
          from "1.IH"(2) [OF None q [symmetric] Ok Some mm [symmetric] refl t [symmetric] tn this] rr Ok Some mm t tn "1.prems"(4)
          show ?thesis using more by auto
        next
          case ts: (Some res)
          then have "r = res" "rs = qs" "c' = tc" using rr Ok Some mm t by auto
          then show ?thesis using rm ts k(3) by auto
        qed
      qed
    next
      case Panic
      then show ?thesis using k(1) by simp
    qed
  qed
qed

section \<open>No panic\<close>

lemma frame_loop_keeps:
  "newline \<notin> set b \<Longrightarrow> length (payload_of b) \<le> MAX_FRAME_BYTES \<Longrightarrow> frame_loop b i fs = (r, b') \<Longrightarrow>
    newline \<notin> set b' \<and> length (payload_of b') \<le> MAX_FRAME_BYTES"
proof (induction b i fs rule: frame_loop.induct)
  case (1 b i fs)
  show ?case
  proof (cases "i = [] \<or> (\<exists>e. r = Inl e) \<and> b' = b")
    case True
    then show ?thesis using "1.prems" by (auto simp: frame_loop.simps [of b])
  next
    case False
    then have ne: "i \<noteq> []" by simp
    show ?thesis
    proof (cases "position (\<lambda>b. b = newline) i")
      case None
      then have "newline \<notin> set (b @ i)" using "1.prems" position_newline(1) by auto
      then show ?thesis using "1.prems" ne None input_payload [OF ne, of b]
        by (auto simp: frame_loop.simps [of b] Let_def split: if_splits)
    next
      case (Some n)
      have "frame_loop [] (drop (n + 1) i) (fs @ [payload_of (b @ take n i)]) = (r, b')"
        using "1.prems"(3) False frame_loop_newline [OF ne Some, of b fs] by (auto split: if_splits)
      moreover have "length (payload_of (b @ take n i)) \<le> MAX_FRAME_BYTES"
        using "1.prems"(3) False frame_loop_newline [OF ne Some, of b fs] by (auto split: if_splits)
      ultimately show ?thesis
        using "1.IH" [OF ne Some refl refl refl] part_payload [of b "take n i"]
        by (simp add: payload_of_def strip_last_def del: length_take)
    qed
  qed
qed

lemma same_messages: "\<exists>ms. c = c\<lparr>rd_messages := ms\<rparr>"
  by (rule exI [of _ "rd_messages c"]) simp

lemma take_frames_keeps: "take_frames f fr ch n c = (r, c') \<Longrightarrow> \<exists>ms. c' = c\<lparr>rd_messages := ms\<rparr>"
  by (induction f fr ch n c rule: take_frames.induct) (auto simp: same_messages split: sum.splits)

lemma poll_message_safe:
  assumes "frames_ok c" "poll_message f reads c = (r, rs, c')"
  shows "r \<noteq> Panic \<and> frames_ok c' \<and> same_box c c'"
proof (cases "rd_messages c = [] \<and> (\<exists>b as. reads = StreamData b # as)")
  case True
  then obtain b as where b: "rd_messages c = []" "reads = StreamData b # as" by blast
  then have rm: "read_messages f (take 8192 b) c = (r, c')"
    using assms(2) by (auto simp: poll_message.simps split: prod.splits)
  have "frames_ok c' \<and> same_box c c'"
  proof (cases "take 8192 b = []")
    case True
    then show ?thesis using rm assms(1) by (auto simp: read_messages_def same_box_def)
  next
    case ne: False
    obtain fr buffer where fp: "frame_push (rd_frames c) (take 8192 b) = (fr, buffer)" by force
    have "newline \<notin> set buffer \<and> length (payload_of buffer) \<le> MAX_FRAME_BYTES"
      by (rule frame_loop_keeps [OF _ _ fp [unfolded frame_push_def]])
        (use assms(1) in \<open>simp_all add: frames_ok_def\<close>)
    then have fb: "frames_ok (c\<lparr>rd_frames := buffer, rd_messages := ms\<rparr>)" for ms
      by (simp add: frames_ok_def)
    have "\<exists>ms. c' = c\<lparr>rd_frames := buffer, rd_messages := ms\<rparr>"
    proof (cases fr)
      case (Inl e)
      then have "c' = c\<lparr>rd_frames := buffer\<rparr>" using rm ne fp by (auto simp: read_messages_def)
      then show ?thesis by (intro exI [of _ "rd_messages c"]) simp
    next
      case (Inr frames)
      obtain t c1 where t: "take_frames f frames (split_inclusive (take 8192 b)) (length (rd_frames c))
          (c\<lparr>rd_frames := buffer\<rparr>) = (t, c1)" by force
      obtain ms where "c1 = c\<lparr>rd_frames := buffer, rd_messages := ms\<rparr>" using take_frames_keeps [OF t] by auto
      then show ?thesis using rm ne fp Inr t
        by (auto simp: read_messages_def pop_message_def split: outcome.splits list.splits prod.splits)
    qed
    then obtain ms where "c' = c\<lparr>rd_frames := buffer, rd_messages := ms\<rparr>" ..
    then show ?thesis using fb by (simp add: same_box_def)
  qed
  then show ?thesis using read_messages_stream [OF assms(1) b(1) rm] by simp
next
  case False
  then show ?thesis using assms
    by (cases reads; cases "rd_messages c"; cases "hd reads")
      (auto simp: poll_message.simps pop_message_def same_box_def frames_ok_def)
qed

definition reader_safe :: "reader \<Rightarrow> bool" where
  "reader_safe c \<longleftrightarrow> frames_ok c \<and> box_ok c"

lemma same_box_ok: "same_box c c' \<Longrightarrow> box_ok c \<Longrightarrow> box_ok c'"
  by (simp add: same_box_def box_ok_def)

lemma poll_event_safe:
  assumes "reader_safe c" "poll_event f reads c = (r, rs, c')"
  shows "r \<noteq> Panic \<and> reader_safe c'"
proof (cases "rd_terminated c \<or> rd_notifications c \<noteq> []")
  case True
  then show ?thesis using assms
    by (cases "rd_notifications c")
      (auto simp: poll_event_def ensure_active_def reader_safe_def box_ok_def frames_ok_def split: if_splits)
next
  case False
  obtain q qs qc where q: "poll_message f reads c = (q, qs, qc)" by (metis prod_cases3)
  have "q \<noteq> Panic \<and> reader_safe qc"
    using poll_message_safe [OF _ q] same_box_ok assms(1) by (auto simp: reader_safe_def)
  then show ?thesis using assms(2) False q
    by (auto simp: poll_event_def ensure_active_def split: outcome.splits option.splits server_message.splits)
qed

lemma response_message_safe:
  "reader_safe c \<Longrightarrow> response_message i msg n c = (r, c') \<Longrightarrow> r \<noteq> Some Panic \<and> reader_safe c'"
  by (auto simp: response_message_def queue_notification_def reader_safe_def box_ok_def frames_ok_def
      split: server_message.splits if_splits option.splits)

lemma read_response_safe:
  "reader_safe c \<Longrightarrow> read_response f rounds k i reads c = (r, rs, c') \<Longrightarrow> r \<noteq> Panic \<and> reader_safe c'"
proof (induction f rounds k i reads c rule: read_response.induct)
  case (1 f rounds k i reads c)
  show ?case
  proof (cases "rounds k")
    case (Some e)
    then show ?thesis using "1.prems" by (auto simp: read_response.simps)
  next
    case None
    obtain q qs qc where q: "poll_message f reads c = (q, qs, qc)" by (metis prod_cases3)
    note rr = "1.prems"(2) [unfolded read_response.simps [of f rounds k i reads c] None q option.case prod.case]
    have qs: "q \<noteq> Panic" "reader_safe qc"
      using poll_message_safe [OF _ q] same_box_ok "1.prems"(1) by (auto simp: reader_safe_def)
    show ?thesis
    proof (cases "\<exists>msg n. q = Ok (Some (msg, n))")
      case True
      then obtain msg n where mm: "q = Ok (Some (msg, n))" by auto
      obtain t tc where t: "response_message i msg n qc = (t, tc)" by force
      note rm = response_message_safe [OF qs(2) t]
      show ?thesis
        using "1.IH"(2) [OF None q [symmetric] mm refl refl refl t [symmetric]] rr mm t rm
        by (cases t) auto
    next
      case False
      then show ?thesis using "1.IH"(1) [OF None q [symmetric] _ _ refl qs(2)] rr qs
        by (cases q) (auto split: option.splits)
    qed
  qed
qed

section \<open>A client's life\<close>

lemma client_request_safe:
  assumes "reader_safe c" "client_request to_json f w cmd reads c = (r, rs, c')"
  shows "r \<noteq> Panic \<and> reader_safe c'"
proof -
  obtain i ca where a: "allocate_id c = (i, ca)" by force
  have sa: "reader_safe ca" using a assms(1)
    by (auto simp: allocate_id_def reader_safe_def frames_ok_def box_ok_def Let_def)
  obtain q qs qc where q: "read_response f (wi_rounds w) 0 i reads ca = (q, qs, qc)" by (metis prod_cases3)
  note read_response_safe [OF sa q]
  then show ?thesis using assms a sa q
    by (auto simp: client_request_def ensure_active_def split: sum.splits option.splits outcome.splits if_splits)
qed

lemma client_request_reader:
  assumes ok: "reader_ok f s d c" and p: "client_request to_json f w cmd reads c = (r, rs, c')"
    and fe: "\<not> frame_error r"
  shows "r \<noteq> Panic \<and> (\<exists>used. reads = used @ rs \<and> reader_ok f (s @ received used) d c')"
proof (cases "rd_terminated c")
  case True
  then show ?thesis using p ok
    by (intro conjI exI [of _ "[]"]) (auto simp: client_request_def ensure_active_def received_def)
next
  case act: False
  obtain i ca where a: "allocate_id c = (i, ca)" by force
  have sa: "reader_ok f s d ca" "\<not> rd_terminated ca" using a ok act
    by (auto simp: allocate_id_def reader_ok_def synced_def frames_ok_def box_ok_def Let_def)
  note start = p [unfolded client_request_def ensure_active_def, simplified act if_False outcome.case a prod.case]
  show ?thesis
  proof (cases "rs = reads \<and> c' = ca \<and> r \<noteq> Panic")
    case True
    then show ?thesis using sa(1) by (intro conjI exI [of _ "[]"]) (auto simp: received_def)
  next
    case False
    obtain q qs qc where q: "read_response f (wi_rounds w) 0 i reads ca = (q, qs, qc)" by (metis prod_cases3)
    have "rs = qs \<and> c' = qc \<and> (q = Panic \<longrightarrow> r = Panic) \<and> (r = Panic \<longrightarrow> q = Panic) \<and> \<not> frame_error q"
      using start False q fe
      by (auto split: sum.splits option.splits outcome.splits if_splits)
    then show ?thesis using read_response_reader [OF sa q] by auto
  qed
qed

text \<open>The calls a program makes on its client, and what they return.\<close>

datatype client_op = OpPoll | OpRequest wire command

fun client_step ::
  "(request \<Rightarrow> string + bytes) \<Rightarrow> (bytes \<Rightarrow> string + server_message) \<Rightarrow> client_op \<Rightarrow> stream_read list \<Rightarrow> reader \<Rightarrow>
    (notification option, client_error) outcome \<times> stream_read list \<times> reader" where
  "client_step to_json f OpPoll reads c = poll_event f reads c"
| "client_step to_json f (OpRequest w cmd) reads c = expect_result (\<lambda>_. Some None) (client_request to_json f w cmd reads c)"

fun client_run ::
  "(request \<Rightarrow> string + bytes) \<Rightarrow> (bytes \<Rightarrow> string + server_message) \<Rightarrow> client_op list \<Rightarrow> stream_read list \<Rightarrow> reader \<Rightarrow>
    (notification option, client_error) outcome list \<times> stream_read list \<times> reader" where
  "client_run to_json f [] reads c = ([], reads, c)"
| "client_run to_json f (op # ops) reads c =
    (case client_step to_json f op reads c of
       (r, rs, c') \<Rightarrow> (case client_run to_json f ops rs c' of (out, rs', c'') \<Rightarrow> (r # out, rs', c'')))"

lemma client_step_safe:
  assumes "reader_safe c" "client_step to_json f op reads c = (r, rs, c')"
  shows "r \<noteq> Panic \<and> reader_safe c'"
proof (cases op)
  case OpPoll
  then show ?thesis using poll_event_safe [OF assms(1)] assms(2) by simp
next
  case (OpRequest w cmd)
  obtain q qs qc where q: "client_request to_json f w cmd reads c = (q, qs, qc)" by (metis prod_cases3)
  then show ?thesis using client_request_safe [OF assms(1) q] assms(2) OpRequest
    by (cases q) (auto simp: expect_result_def)
qed

lemma client_step_reader:
  assumes "reader_ok f s d c" "client_step to_json f op reads c = (r, rs, c')" "\<not> frame_error r"
  shows "\<exists>used. reads = used @ rs \<and> reader_ok f (s @ received used) (d @ handed r) c'"
proof (cases op)
  case OpPoll
  then show ?thesis using poll_event_reader [OF assms(1) _ assms(3)] assms(2) by simp
next
  case (OpRequest w cmd)
  obtain q qs qc where q: "client_request to_json f w cmd reads c = (q, qs, qc)" by (metis prod_cases3)
  then have "rs = qs \<and> c' = qc \<and> handed r = [] \<and> \<not> frame_error q" using assms(2,3) OpRequest
    by (cases q) (auto simp: expect_result_def)
  then show ?thesis using client_request_reader [OF assms(1) q] by auto
qed

lemma client_run_reader:
  "reader_ok f s d c \<Longrightarrow> client_run to_json f ops reads c = (out, rs, c') \<Longrightarrow> \<not> list_ex frame_error out \<Longrightarrow>
    \<exists>used. reads = used @ rs \<and> reader_ok f (s @ received used) (d @ concat (map handed out)) c'"
proof (induction ops arbitrary: s d reads c out)
  case Nil
  then show ?case by (auto simp: received_def)
next
  case (Cons op ops)
  obtain r rs1 c1 where p: "client_step to_json f op reads c = (r, rs1, c1)" by (metis prod_cases3)
  obtain out1 rs2 c2 where q: "client_run to_json f ops rs1 c1 = (out1, rs2, c2)" by (metis prod_cases3)
  have o: "out = r # out1" "rs2 = rs" "c2 = c'" using Cons.prems(2) p q by auto
  obtain used where u: "reads = used @ rs1" "reader_ok f (s @ received used) (d @ handed r) c1"
    using client_step_reader [OF Cons.prems(1) p] Cons.prems(3) o by auto
  obtain used2 where "rs1 = used2 @ rs"
      "reader_ok f ((s @ received used) @ received used2) ((d @ handed r) @ concat (map handed out1)) c'"
    using Cons.IH [OF u(2) q [unfolded o(2,3)]] Cons.prems(3) o by auto
  then show ?case using u(1) o by (intro exI [of _ "used @ used2"]) (simp add: received_def)
qed

lemma client_run_safe:
  "reader_safe c \<Longrightarrow> client_run to_json f ops reads c = (out, rs, c') \<Longrightarrow> Panic \<notin> set out \<and> reader_safe c'"
proof (induction ops arbitrary: reads c out)
  case (Cons op ops)
  obtain r rs1 c1 where p: "client_step to_json f op reads c = (r, rs1, c1)" by (metis prod_cases3)
  obtain out1 rs2 c2 where q: "client_run to_json f ops rs1 c1 = (out1, rs2, c2)" by (metis prod_cases3)
  show ?case using client_step_safe [OF Cons.prems(1) p] Cons.IH [of c1 rs1 out1] Cons.prems(2) p q by auto
qed auto

section \<open>Claims\<close>

text \<open>
  Whatever the peer sends and whatever the program calls, the client never panics: every
  complete frame has its delimiter in the chunk just read, the bytes booked for the backlog never
  go below zero, and they are exactly the wire bytes of the backlog, at most its limit.
\<close>

theorem client_never_panics:
  "case client_run to_json f ops reads reader_start of (out, rs, c) \<Rightarrow>
     Panic \<notin> set out \<and> rd_notification_bytes c = sum_list (map snd (rd_notifications c))
     \<and> rd_notification_bytes c \<le> MAX_NOTIFICATION_BACKLOG_BYTES"
proof -
  obtain out rs c where r: "client_run to_json f ops reads reader_start = (out, rs, c)" by (metis prod_cases3)
  have "reader_safe reader_start"
    by (simp add: reader_safe_def frames_ok_def box_ok_def reader_start_def payload_of_def strip_last_def)
  from client_run_safe [OF this r] show ?thesis by (auto simp: r reader_safe_def box_ok_def)
qed

text \<open>
  C22. Until a frame is refused, the notifications handed out by the polls are the notifications of
  the stream, once each and in its order, although those that arrive while a request waits for its
  answer take another way: what is handed out, the backlog and the messages not looked at yet
  are together exactly what was received, and if the backlog overflows, what was handed out is
  still a prefix of it.
\<close>

theorem notifications_once_in_order:
  assumes "client_run to_json f ops reads reader_start = (out, rs, c)" "\<not> list_ex frame_error out"
  shows "\<exists>used. reads = used @ rs
    \<and> prefix (concat (map handed out)) (stream_notes f (received used))
    \<and> (rd_terminated c \<or> concat (map handed out) @ map fst (rd_notifications c) @ notices (rd_messages c)
        = stream_notes f (received used))"
proof -
  obtain used where u: "reads = used @ rs" "reader_ok f (received used) (concat (map handed out)) c"
    using client_run_reader [OF reader_ok_start assms] by auto
  then obtain h where h: "arrived f (received used) = h @ rd_messages c" "prefix (concat (map handed out)) (notices h)"
      "rd_terminated c \<or> concat (map handed out) @ map fst (rd_notifications c) = notices h"
    by (auto simp: reader_ok_def synced_def)
  have "stream_notes f (received used) = notices h @ notices (rd_messages c)"
    by (simp add: stream_notes_def h(1))
  then show ?thesis using u(1) h(2,3) by (intro exI [of _ used]) (auto simp: prefix_def)
qed

definition notice_or_pong :: "bytes \<Rightarrow> string + server_message" where
  "notice_or_pong b = Inr (if b = ''n'' then MsgNotification NoteUnsupported else MsgResponse 1 ResPong)"

theorem notifications_once_in_order_witness:
  "\<exists>used. [StreamData (''n'' @ [newline, CHR ''p''] @ [newline])] = used @ []
    \<and> prefix [NoteUnsupported] (stream_notes notice_or_pong (received used))"
proof -
  let ?quiet = "\<lparr>wi_write = None, wi_timeout = None, wi_rounds = \<lambda>_. None, wi_restore = None\<rparr>"
  have "client_run (\<lambda>_. Inr []) notice_or_pong [OpRequest ?quiet CmdPing, OpPoll]
      [StreamData (''n'' @ [newline, CHR ''p''] @ [newline])] reader_start
    = ([Ok None, Ok (Some NoteUnsupported)], [], reader_start\<lparr>rd_next_id := 2\<rparr>)"
    by (simp add: client_request_def ensure_active_def reader_start_def allocate_id_def encode_frame_def
        read_response.simps poll_message.simps read_messages_def frame_push_def frame_loop.simps
        ends_cr_def newline_def carriage_return_def MAX_FRAME_BYTES_def strip_last_def decode_frame_def
        notice_or_pong_def pop_message_def response_message_def queue_notification_def
        MAX_NOTIFICATION_BACKLOG_BYTES_def expect_result_def poll_event_def)
  from notifications_once_in_order [OF this] show ?thesis by auto
qed

end
