(* ===== verification/Session_Facts.thy ===== *)
theory Session_Facts
  imports Session Ipc_Reader_Facts
begin

text \<open>
  What a session (\<open>crates/wiiland-ipc/src/session.rs\<close>, \<open>capture.rs\<close>) promises its consumer: a
  bounded queue, control events never lost or reordered, every dropped sample counted, and
  completion only after the last event.
\<close>

section \<open>The queue\<close>

definition controls :: "session_event list \<Rightarrow> session_event list" where
  "controls evs = filter (\<lambda>e. sensor_identity e = None) evs"

lemma controls_append [simp]: "controls (xs @ ys) = controls xs @ controls ys"
  by (simp add: controls_def)

lemma position_SomeD: "position P xs = Some n \<Longrightarrow> n < length xs \<and> P (xs ! n)"
  by (induction xs arbitrary: n) (auto split: if_splits)

lemma victim_sensor: "victim evs ev = Some n \<Longrightarrow> n < length evs \<and> sensor_identity (evs ! n) \<noteq> None"
  by (auto simp: victim_def Let_def split: option.splits dest!: position_SomeD)

lemma remove_at_split: "n < length xs \<Longrightarrow> xs = take n xs @ xs ! n # drop (Suc n) xs"
  by (rule id_take_nth_drop)

lemma controls_remove: "n < length xs \<Longrightarrow> sensor_identity (xs ! n) \<noteq> None \<Longrightarrow> controls (remove_at n xs) = controls xs"
  by (subst (2) remove_at_split [of n]) (auto simp: remove_at_def controls_def)

lemma subseq_remove_at: "subseq (remove_at n xs) xs"
proof (cases "n < length xs")
  case True
  have "subseq (take n xs @ drop (Suc n) xs) (take n xs @ xs ! n # drop (Suc n) xs)"
    by (rule list_emb_append_mono) auto
  then show ?thesis using remove_at_split [OF True] by (simp add: remove_at_def)
qed (simp add: remove_at_def)

text \<open>A queue \<open>q\<close> that took in \<open>ins\<close> and gave out \<open>outs\<close>.\<close>

definition queue_ok :: "event_queue \<Rightarrow> session_event list \<Rightarrow> session_event list \<Rightarrow> bool" where
  "queue_ok q ins outs \<longleftrightarrow> length (eq_events q) \<le> EVENT_QUEUE
    \<and> subseq (outs @ eq_events q) ins
    \<and> controls (outs @ eq_events q) = controls ins
    \<and> eq_coalesced q = (length ins - length (outs @ eq_events q)) mod 18446744073709551616
    \<and> (eq_policy q = Strict \<longrightarrow> outs @ eq_events q = ins)"

lemma event_send_policy: "event_send q ev = (r, q') \<Longrightarrow> eq_policy q' = eq_policy q \<and> eq_closed q' = eq_closed q \<and> r \<noteq> Panic"
  by (auto simp: event_send_def count_one_def Let_def split: if_splits delivery_policy.splits option.splits)

lemma event_send_error: "event_send q ev = (Err e, q') \<Longrightarrow> q' = q"
  by (auto simp: event_send_def Let_def split: if_splits delivery_policy.splits option.splits)

lemma event_send_ok:
  assumes q: "queue_ok q ins outs" and p: "event_send q ev = (Ok u, q')"
  shows "queue_ok q' (ins @ [ev]) outs"
proof -
  let ?evs = "eq_events q"
  have le: "length (outs @ ?evs) \<le> length ins" using q list_emb_length unfolding queue_ok_def by blast
  consider (room) "length ?evs \<noteq> EVENT_QUEUE" "q' = q\<lparr>eq_events := ?evs @ [ev]\<rparr>"
    | (evict) n where "length ?evs = EVENT_QUEUE" "eq_policy q = LatestSensors" "victim ?evs ev = Some n"
        "q' = count_one (q\<lparr>eq_events := remove_at n ?evs @ [ev]\<rparr>)"
    | (drop) "length ?evs = EVENT_QUEUE" "eq_policy q = LatestSensors" "sensor_identity ev \<noteq> None" "q' = count_one q"
    using p by (auto simp: event_send_def Let_def split: if_splits delivery_policy.splits option.splits)
  then show ?thesis
  proof cases
    case room
    then show ?thesis using q le
      by (auto simp: queue_ok_def subseq_append simp flip: append_assoc)
  next
    case evict
    note vs = victim_sensor [OF evict(3)]
    have len: "length (remove_at n ?evs) = length ?evs - 1" using vs by (simp add: remove_at_def)
    have "subseq (outs @ remove_at n ?evs) ins"
      using q subseq_remove_at [of n ?evs] unfolding queue_ok_def by (meson subseq_append' subseq_order.trans)
    then have "subseq ((outs @ remove_at n ?evs) @ [ev]) (ins @ [ev])" by (rule list_emb_append_mono) simp
    moreover have "length ins + 1 - (length outs + (length ?evs - 1) + 1)
        = (length ins - (length outs + length ?evs)) + 1"
      using vs le by simp
    ultimately show ?thesis using q vs evict(1,2,4) len controls_remove [of n ?evs]
      by (auto simp: queue_ok_def count_one_def mod_Suc_eq)
  next
    case drop
    have "length ins + 1 - length (outs @ ?evs) = (length ins - length (outs @ ?evs)) + 1" using le by simp
    moreover have "subseq (outs @ ?evs) (ins @ [ev])" using q by (auto simp: queue_ok_def)
    ultimately show ?thesis using q drop by (auto simp: queue_ok_def count_one_def controls_def mod_Suc_eq)
  qed
qed

lemma queue_try_recv_ok:
  assumes "queue_ok q ins outs" "queue_try_recv q = (r, q')"
  shows "queue_ok q' ins (outs @ (case r of Ok ev \<Rightarrow> [ev] | _ \<Rightarrow> [])) \<and> r \<noteq> Panic \<and> eq_policy q' = eq_policy q
    \<and> eq_closed q' = eq_closed q \<and> (\<forall>e. r = Err e \<longrightarrow> eq_events q = [] \<and> q' = q)"
  using assms by (cases "eq_events q") (auto simp: queue_ok_def queue_try_recv_def controls_def split: if_splits)

section \<open>The consumer\<close>

definition pend :: "session \<Rightarrow> session_event list" where
  "pend s = (case se_pending_event s of None \<Rightarrow> [] | Some ev \<Rightarrow> [ev])"

definition holding :: "session \<Rightarrow> session_event list" where
  "holding s = pend s @ eq_events (se_queue s)"

fun stopped :: "worker \<Rightarrow> bool" where
  "stopped (WorkerSending _) \<longleftrightarrow> True"
| "stopped WorkerGone \<longleftrightarrow> True"
| "stopped _ \<longleftrightarrow> False"

text \<open>
  \<open>ins\<close> entered the queue and the consumer got \<open>outs\<close>; a result is there only after the worker has
  ended, and the queue is closed only when nothing more enters it.
\<close>

definition session_ok :: "worker \<Rightarrow> session \<Rightarrow> session_event list \<Rightarrow> session_event list \<Rightarrow> bool" where
  "session_ok w s ins outs \<longleftrightarrow> queue_ok (se_queue s) ins (outs @ pend s)
    \<and> (se_channel s \<noteq> None \<or> se_pending_result s \<noteq> None \<longrightarrow> w = WorkerGone)
    \<and> (eq_closed (se_queue s) \<longrightarrow> stopped w)"

lemma session_try_recv_ok:
  assumes "session_ok w s ins outs" "session_try_recv s = (r, s')"
  shows "session_ok w s' ins (outs @ (case r of Ok ev \<Rightarrow> [ev] | _ \<Rightarrow> [])) \<and> r \<noteq> Panic
    \<and> eq_policy (se_queue s') = eq_policy (se_queue s)
    \<and> (\<forall>e. r = Err e \<longrightarrow> holding s' = []) \<and> (r = Err RecvDisconnected \<longrightarrow> stopped w)
    \<and> (holding s = [] \<longrightarrow> holding s' = [] \<and> (\<exists>e. r = Err e))"
proof (cases "se_pending_event s")
  case (Some ev)
  then show ?thesis using assms by (auto simp: session_try_recv_def session_ok_def pend_def holding_def)
next
  case None
  obtain q where q: "queue_try_recv (se_queue s) = (r, q)" "s' = s\<lparr>se_queue := q\<rparr>"
    using None assms(2) by (auto simp: session_try_recv_def split: prod.splits)
  have "queue_ok (se_queue s) ins outs" using assms(1) None by (simp add: session_ok_def pend_def)
  note qr = queue_try_recv_ok [OF this q(1)]
  have "r = Err RecvDisconnected \<longrightarrow> eq_closed (se_queue s)" "eq_events (se_queue s) = [] \<longrightarrow> (\<exists>e. r = Err e)"
    using q(1) by (auto simp: queue_try_recv_def split: list.splits if_splits)
  then show ?thesis using qr q(2) assms(1) None
    by (cases r) (simp_all add: session_ok_def pend_def holding_def)
qed

lemma try_finish_ok:
  assumes ok: "session_ok w s ins outs" and p: "try_finish s = (r, s')"
  shows "session_ok w s' ins outs \<and> r \<noteq> Panic \<and> eq_policy (se_queue s') = eq_policy (se_queue s)
    \<and> (\<forall>v. r = Ok v \<longrightarrow> holding s' = [] \<and> w = WorkerGone) \<and> (holding s = [] \<longrightarrow> holding s' = [])"
proof -
  obtain got s1 where g: "(case se_pending_result s of Some r \<Rightarrow> (Ok r, s\<lparr>se_pending_result := None\<rparr>)
      | None \<Rightarrow> channel_try_recv s) = (got, s1)" by force
  have s1: "session_ok w s1 ins outs" "got \<noteq> Panic" "se_queue s1 = se_queue s" "pend s1 = pend s"
      "se_pending_event s1 = se_pending_event s" "\<forall>v. got = Ok v \<longrightarrow> w = WorkerGone"
    using g ok by (auto simp: session_ok_def channel_try_recv_def pend_def split: option.splits)
  note tf = p [unfolded try_finish_def Let_def g prod.case]
  show ?thesis
  proof (cases got)
    case (Ok v)
    then have w: "w = WorkerGone" using s1(6) by simp
    show ?thesis
    proof (cases "se_pending_event s1")
      case (Some ev)
      then show ?thesis using tf Ok s1 w by (auto simp: session_ok_def holding_def pend_def)
    next
      case None
      obtain t q where q: "queue_try_recv (se_queue s1) = (t, q)" by force
      have "queue_ok (se_queue s1) ins outs" using s1(1) None by (simp add: session_ok_def pend_def)
      moreover have "eq_events (se_queue s1) = [] \<longrightarrow> (\<forall>ev. t \<noteq> Ok ev)"
        using q by (auto simp: queue_try_recv_def)
      ultimately show ?thesis
        using queue_try_recv_ok [OF _ q] tf Ok None q s1 w by (cases t) (auto simp: session_ok_def holding_def pend_def)
    qed
  next
    case (Err e)
    then show ?thesis using tf s1 by (auto simp: holding_def)
  next
    case Panic
    then show ?thesis using s1(2) by simp
  qed
qed

section \<open>The worker\<close>

text \<open>A call that takes from the stream and hands out no notification.\<close>

definition keeps :: "(bytes \<Rightarrow> string + server_message) \<Rightarrow> 'a client_call \<Rightarrow> bool" where
  "keeps f call \<longleftrightarrow> (\<forall>s d reads c r rs c'. reader_ok f s d c \<longrightarrow> call reads c = (r, rs, c') \<longrightarrow> \<not> frame_error r \<longrightarrow>
    r \<noteq> Panic \<and> (\<exists>used. reads = used @ rs \<and> reader_ok f (s @ received used) d c'))"

lemma keepsD:
  "keeps f call \<Longrightarrow> reader_ok f s d c \<Longrightarrow> call reads c = (r, rs, c') \<Longrightarrow> \<not> frame_error r \<Longrightarrow>
    r \<noteq> Panic \<and> (\<exists>used. reads = used @ rs \<and> reader_ok f (s @ received used) d c')"
  unfolding keeps_def by blast

lemma keeps_same: "(\<And>reads c. \<exists>r. call reads c = (r, reads, c) \<and> r \<noteq> Panic) \<Longrightarrow> keeps f call"
  unfolding keeps_def by (metis Pair_inject append_Nil append_Nil2 concat.simps(1) list.simps(8) received_def)

lemma keeps_pure [intro]: "keeps f (pure_call v)"
  by (rule keeps_same) (simp add: pure_call_def)

lemma keeps_result [intro]: "r \<noteq> Panic \<Longrightarrow> keeps f (call_result r)"
  by (rule keeps_same) (simp add: call_result_def)

lemma keeps_setting [intro]: "keeps f (socket_setting e)"
  by (auto simp: socket_setting_def split: option.split)

lemma keeps_check [intro]: "keeps f (check_cancelled env k)"
  by (auto simp: check_cancelled_def)

lemma keeps_then [intro]:
  assumes "keeps f call" "\<And>v. keeps f (next_call v)"
  shows "keeps f (then_call call next_call)"
  unfolding keeps_def
proof (intro allI impI)
  fix s d reads c r rs c'
  assume a: "reader_ok f s d c" "then_call call next_call reads c = (r, rs, c')" "\<not> frame_error r"
  obtain q qs qc where q: "call reads c = (q, qs, qc)" by (metis prod_cases3)
  then have "\<not> frame_error q" using a(2,3) by (cases q) (auto simp: then_call_def)
  then obtain used where u: "q \<noteq> Panic" "reads = used @ qs" "reader_ok f (s @ received used) d qc"
    using keepsD [OF assms(1) a(1) q] by auto
  show "r \<noteq> Panic \<and> (\<exists>used. reads = used @ rs \<and> reader_ok f (s @ received used) d c')"
  proof (cases q)
    case (Ok v)
    then have "next_call v qs qc = (r, rs, c')" using a(2) q by (simp add: then_call_def)
    then obtain used2 where "r \<noteq> Panic" "qs = used2 @ rs" "reader_ok f ((s @ received used) @ received used2) d c'"
      using keepsD [OF assms(2) u(3) _ a(3)] by blast
    then show ?thesis using u(2) by (auto simp: received_def intro!: exI [of _ "used @ used2"])
  qed (use a(2) q u in \<open>auto simp: then_call_def\<close>)
qed

lemma keeps_request [intro]: "keeps f (client_request to_json f w cmd)"
  unfolding keeps_def using client_request_reader by blast

lemma keeps_expect:
  assumes "keeps f call"
  shows "keeps f (\<lambda>reads c. expect_result g (call reads c))"
  unfolding keeps_def
proof (intro allI impI)
  fix s d reads c r rs c'
  assume a: "reader_ok f s d c" "expect_result g (call reads c) = (r, rs, c')" "\<not> frame_error r"
  obtain q qs qc where q: "call reads c = (q, qs, qc)" by (metis prod_cases3)
  have "\<not> frame_error q \<and> qs = rs \<and> qc = c' \<and> (r = Panic \<longrightarrow> q = Panic)" using a(2,3) q
    by (cases q) (auto simp: expect_result_def split: option.splits)
  then show "r \<noteq> Panic \<and> (\<exists>used. reads = used @ rs \<and> reader_ok f (s @ received used) d c')"
    using keepsD [OF assms a(1) q] by auto
qed

lemma keeps_guarded: "keeps f call \<Longrightarrow> keeps f (guarded m call)"
proof -
  assume k: "keeps f call"
  have "guarded m call reads c = call reads c \<or> (\<exists>e. guarded m call reads c = (Err e, reads, c))" for reads c
    by (simp add: guarded_def require_minor_def)
  then show ?thesis using k keeps_result [of "Err _" f] unfolding keeps_def call_result_def
    by (metis outcome.distinct(5))
qed

lemma keeps_hello:
  assumes "\<And>cmd. keeps f (request cmd)"
  shows "keeps f (client_hello request)"
  unfolding keeps_def
proof (intro allI impI)
  fix s d reads c r rs c'
  assume a: "reader_ok f s d c" "client_hello request reads c = (r, rs, c')" "\<not> frame_error r"
  obtain q qs qc where q: "request (CmdHello PROTOCOL_MAJOR PROTOCOL_MAJOR) reads c = (q, qs, qc)" by (metis prod_cases3)
  have same: "reader_ok f t d (x\<lparr>rd_protocol_minor := m\<rparr>) = reader_ok f t d x" for t x m
    by (simp add: reader_ok_def box_ok_def synced_def frames_ok_def)
  have "\<not> frame_error q \<and> qs = rs \<and> (r = Panic \<longrightarrow> q = Panic) \<and> (c' = qc \<or> (\<exists>m. c' = qc\<lparr>rd_protocol_minor := m\<rparr>))"
    using a(2,3) q by (cases q) (auto simp: client_hello_def split: response_result.splits if_splits)
  then show "r \<noteq> Panic \<and> (\<exists>used. reads = used @ rs \<and> reader_ok f (s @ received used) d c')"
    using keepsD [OF assms a(1) q] same by auto
qed

lemma keeps_connect:
  assumes rq: "\<And>n cmd. keeps f (ce_request env n cmd)" and op: "ce_open env \<noteq> Panic"
  shows "keeps f (connect_cancellable env selector single)"
proof -
  have ex: "keeps f (client_status (ce_request env n))" "keeps f (client_devices (ce_request env n))"
      "keeps f (client_subscribe (ce_request env n))" "keeps f (client_start_capture (ce_request env n) p)" for n p
    unfolding client_status_def [abs_def] client_devices_def [abs_def] client_subscribe_def [abs_def]
      client_start_capture_def
    by (intro keeps_expect keeps_guarded rq)+
  have lease: "keeps f (lease_devices env k ds)" for k ds
    by (induction ds arbitrary: k) (auto intro!: keeps_then ex)
  have hello: "keeps f (client_hello (ce_request env n))" for n by (rule keeps_hello) (rule rq)
  have sel: "keeps f (call_result (select_devices known selector single))" for known
    by (rule keeps_result) (auto simp: select_devices_def Let_def split: option.split)
  show ?thesis
    unfolding connect_cancellable_def client_connect_def
    by (intro keeps_then keeps_check keeps_setting keeps_pure keeps_result op ex lease hello sel)
qed

text \<open>What a session may have put in its queue, of a stream.\<close>

definition due :: "(bytes \<Rightarrow> string + server_message) \<Rightarrow> bytes \<Rightarrow> session_event list \<Rightarrow> bool" where
  "due f stream ins \<longleftrightarrow> ins = [] \<or> (\<exists>status devices d. prefix d (stream_notes f stream)
    \<and> ins = EvConnected status devices # map EvNotification (filter (wanted devices) d))"

lemma stream_notes_append: "prefix (stream_notes f s) (stream_notes f (s @ t))"
  unfolding stream_notes_def by (subst arrived_append) simp

lemma reader_ok_prefix: "reader_ok f s d c \<Longrightarrow> prefix d (stream_notes f (s @ t))"
proof -
  assume "reader_ok f s d c"
  then obtain h where "arrived f s = h @ rd_messages c" "prefix d (notices h)"
    by (auto simp: reader_ok_def synced_def)
  then have "prefix d (stream_notes f s)" by (auto simp: stream_notes_def prefix_def)
  then show ?thesis using stream_notes_append prefix_order.trans by blast
qed

fun worker_ok ::
  "(bytes \<Rightarrow> string + server_message) \<Rightarrow> stream_read list \<Rightarrow> worker \<Rightarrow> stream_read list \<Rightarrow> reader \<Rightarrow>
    session_event list \<Rightarrow> bool" where
  "worker_ok f all WorkerConnecting reads c ins \<longleftrightarrow>
    ins = [] \<and> (\<exists>used. all = used @ reads \<and> reader_ok f (received used) [] c)"
| "worker_ok f all (WorkerRunning devices) reads c ins \<longleftrightarrow>
    (\<exists>used status d. all = used @ reads \<and> reader_ok f (received used) d c
      \<and> ins = EvConnected status devices # map EvNotification (filter (wanted devices) d))"
| "worker_ok f all w reads c ins \<longleftrightarrow> due f (received all) ins"

lemma worker_ok_due: "worker_ok f all w reads c ins \<Longrightarrow> due f (received all) ins"
proof (cases w)
  case (WorkerRunning devices)
  assume "worker_ok f all w reads c ins"
  then obtain used status d where u: "all = used @ reads" "reader_ok f (received used) d c"
      "ins = EvConnected status devices # map EvNotification (filter (wanted devices) d)"
    using WorkerRunning by auto
  have "prefix d (stream_notes f (received all))"
    using reader_ok_prefix [OF u(2), of "received reads"] u(1) by (simp add: received_def)
  then show ?thesis using u(3) by (auto simp: due_def)
qed (auto simp: due_def)

lemma worker_send_ok:
  assumes "session_ok w s ins outs" "\<not> stopped w" "worker_send s ev v = (sent, w', s')" "\<not> stopped v"
  shows "session_ok w' s' (ins @ sent) outs \<and> eq_policy (se_queue s') = eq_policy (se_queue s)
    \<and> (sent = [ev] \<and> w' = v \<or> sent = [] \<and> (\<exists>e. w' = WorkerClosing (Err e)))"
proof -
  obtain r q where q: "event_send (se_queue s) ev = (r, q)" by force
  have qo: "queue_ok (se_queue s) ins (outs @ pend s)" using assms(1) by (simp add: session_ok_def)
  have nc: "\<not> eq_closed (se_queue s)" "se_channel s = None" "se_pending_result s = None"
    using assms(1,2) by (auto simp: session_ok_def)
  note ep = event_send_policy [OF q]
  show ?thesis
  proof (cases r)
    case (Ok u)
    have "queue_ok q (ins @ [ev]) (outs @ pend s)" using event_send_ok [OF qo] q Ok by simp
    then show ?thesis using assms(3,4) q Ok ep nc by (auto simp: worker_send_def session_ok_def pend_def)
  next
    case (Err e)
    then have "q = se_queue s" using event_send_error q by blast
    then show ?thesis using assms(3) q Err qo nc by (auto simp: worker_send_def session_ok_def pend_def)
  qed (use ep in simp)
qed

definition env_ok :: "(bytes \<Rightarrow> string + server_message) \<Rightarrow> capture_env \<Rightarrow> bool" where
  "env_ok f env \<longleftrightarrow> ce_open env \<noteq> Panic \<and> (\<forall>n cmd. keeps f (ce_request env n cmd))"

lemma worker_step_ok:
  assumes env: "env_ok f env"
    and wo: "worker_ok f all w reads c ins" and so: "session_ok w s ins outs"
    and p: "worker_step f env selector single w s reads c = ((sent, w', s'), rs, c')"
  shows "worker_ok f all w' rs c' (ins @ sent) \<and> session_ok w' s' (ins @ sent) outs
    \<and> eq_policy (se_queue s') = eq_policy (se_queue s) \<and> (w = WorkerGone \<longrightarrow> w' = WorkerGone \<and> s' = s)"
proof (cases w)
  case WorkerConnecting
  then obtain used where u: "ins = []" "all = used @ reads" "reader_ok f (received used) [] c" using wo by auto
  obtain q qs qc where q: "connect_cancellable env selector single reads c = (q, qs, qc)" by (metis prod_cases3)
  have kc: "keeps f (connect_cancellable env selector single)"
    by (rule keeps_connect) (use env in \<open>auto simp: env_ok_def\<close>)
  note k = keepsD [OF kc u(3) q]
  show ?thesis
  proof (cases q)
    case (Ok v)
    obtain status devices where v: "v = (status, devices)" by force
    have "(sent, w', s') = worker_send s (EvConnected status devices) (WorkerRunning devices)" "rs = qs" "c' = qc"
      using p WorkerConnecting q Ok v by (auto split: prod.splits)
    moreover obtain used2 where "reads = used2 @ qs" "reader_ok f (received used @ received used2) [] qc"
      using k Ok by auto
    ultimately show ?thesis
      using worker_send_ok [OF so _ sym] WorkerConnecting u
      by (fastforce simp: received_def due_def)
  next
    case (Err e)
    then show ?thesis using p WorkerConnecting q so u(1) by (auto simp: due_def session_ok_def)
  next
    case Panic
    then show ?thesis using k by simp
  qed
next
  case (WorkerRunning devices)
  then obtain used status d where u: "all = used @ reads" "reader_ok f (received used) d c"
      "ins = EvConnected status devices # map EvNotification (filter (wanted devices) d)" using wo by auto
  note dueI = worker_ok_due [OF wo]
  show ?thesis
  proof (cases "se_cancelled s")
    case True
    then show ?thesis using p WorkerRunning dueI so by (auto simp: session_ok_def)
  next
    case act: False
    obtain q qs qc where q: "poll_event f reads c = (q, qs, qc)" by (metis prod_cases3)
    note k = poll_event_reader [OF u(2) q]
    have ne: "next_event f devices reads c = (case q of
        Ok event \<Rightarrow> (Ok (case event of None \<Rightarrow> None | Some e \<Rightarrow> if wanted devices e then Some e else None), qs, qc)
      | Err e \<Rightarrow> (Err e, qs, qc) | Panic \<Rightarrow> (Panic, qs, qc))"
      using q by (cases q) (simp_all add: next_event_def then_call_def pure_call_def)
    show ?thesis
    proof (cases "\<exists>e. q = Err e \<and> e \<noteq> CeIo IoWouldBlock \<and> e \<noteq> CeIo IoTimedOut")
      case True
      then show ?thesis using p WorkerRunning act ne dueI so by (auto simp: session_ok_def)
    next
      case False
      then have "\<not> frame_error q" by (cases q) auto
      then obtain used2 where k2: "q \<noteq> Panic" "reads = used2 @ qs" "reader_ok f (received used @ received used2) (d @ handed q) qc"
        using k by auto
      have run: "worker_ok f all (WorkerRunning devices) qs qc
          (ins @ map EvNotification (filter (wanted devices) (handed q)))"
        using k2 u by (auto simp: received_def intro!: exI [of _ "used @ used2"] exI [of _ status] exI [of _ "d @ handed q"])
      show ?thesis
      proof (cases "\<exists>e. q = Ok (Some e) \<and> wanted devices e")
        case True
        then obtain e where e: "q = Ok (Some e)" "wanted devices e" by auto
        have "(sent, w', s') = worker_send s (EvNotification e) (WorkerRunning devices)" "rs = qs" "c' = qc"
          using p WorkerRunning act ne e by (auto split: prod.splits)
        then show ?thesis using worker_send_ok [OF so _ sym] WorkerRunning run e dueI by fastforce
      next
        case none: False
        then have "sent = []" "w' = WorkerRunning devices" "s' = s" "rs = qs" "c' = qc"
            "filter (wanted devices) (handed q) = []"
          using p WorkerRunning act ne False k2(1)
          by (auto split: outcome.splits option.splits if_splits)
        then show ?thesis using run so WorkerRunning by simp
      qed
    qed
  qed
next
  case (WorkerClosing r)
  then show ?thesis using p wo so by (auto simp: session_ok_def queue_ok_def pend_def)
next
  case (WorkerSending r)
  then show ?thesis using p wo so by (auto simp: session_ok_def pend_def)
next
  case WorkerGone
  then show ?thesis using p wo so by auto
qed

section \<open>Whole sessions\<close>

fun sent_by :: "session_out \<Rightarrow> session_event list" where
  "sent_by (OutSent evs) = evs"
| "sent_by _ = []"

fun received_by :: "session_out \<Rightarrow> session_event list" where
  "received_by (OutReceived (Ok ev)) = [ev]"
| "received_by _ = []"

fun finished_by :: "session_out \<Rightarrow> bool" where
  "finished_by (OutFinished (Ok _)) \<longleftrightarrow> True"
| "finished_by _ \<longleftrightarrow> False"

definition sent_in :: "session_out list \<Rightarrow> session_event list" where
  "sent_in outs = concat (map sent_by outs)"

definition received_in :: "session_out list \<Rightarrow> session_event list" where
  "received_in outs = concat (map received_by outs)"

definition finished_in :: "session_out list \<Rightarrow> bool" where
  "finished_in outs = list_ex finished_by outs"

definition system_ok ::
  "(bytes \<Rightarrow> string + server_message) \<Rightarrow> stream_read list \<Rightarrow> delivery_policy \<Rightarrow> session_state \<Rightarrow>
    session_event list \<Rightarrow> session_event list \<Rightarrow> bool \<Rightarrow> bool" where
  "system_ok f all p st ins outs fin \<longleftrightarrow>
    (case st of (w, s, reads, c) \<Rightarrow> worker_ok f all w reads c ins \<and> session_ok w s ins outs
      \<and> eq_policy (se_queue s) = p \<and> (fin \<longrightarrow> w = WorkerGone \<and> holding s = []))"

lemma system_ok_step:
  assumes env: "env_ok f env" and ok: "system_ok f all p st ins outs fin"
    and p: "session_step f env selector single op st = (out, st')"
  shows "system_ok f all p st' (ins @ sent_by out) (outs @ received_by out) (fin \<or> finished_by out)"
proof -
  obtain w s reads c where st: "st = (w, s, reads, c)" by (metis prod_cases4)
  note o = ok [unfolded system_ok_def st prod.case]
  show ?thesis
  proof (cases op)
    case DoWork
    obtain sent w' s' rs c' where q: "worker_step f env selector single w s reads c = ((sent, w', s'), rs, c')"
      by (metis prod_cases3 prod.collapse)
    have "out = OutSent sent \<and> st' = (w', s', rs, c')" using p DoWork st q by simp
    then show ?thesis using worker_step_ok [OF env _ _ q] o by (auto simp: system_ok_def)
  next
    case DoRecv
    obtain r s' where q: "session_try_recv s = (r, s')" by force
    have "out = OutReceived r \<and> st' = (w, s', reads, c)" using p DoRecv st q by auto
    then show ?thesis using session_try_recv_ok [OF _ q] o by (cases r) (auto simp: system_ok_def)
  next
    case DoFinish
    obtain r s' where q: "try_finish s = (r, s')" by force
    have "out = OutFinished r \<and> st' = (w, s', reads, c)" using p DoFinish st q by auto
    then show ?thesis using try_finish_ok [OF _ q] o by (cases r) (auto simp: system_ok_def)
  next
    case DoCancel
    then have "out = OutCancelled \<and> st' = (w, session_cancel s, reads, c)" using p st by auto
    then show ?thesis using o by (auto simp: system_ok_def session_cancel_def session_ok_def pend_def holding_def)
  qed
qed

lemma system_ok_run:
  "env_ok f env \<Longrightarrow> system_ok f all p st ins outs fin \<Longrightarrow> session_run f env selector single ops st = (os, st') \<Longrightarrow>
    system_ok f all p st' (ins @ sent_in os) (outs @ received_in os) (fin \<or> finished_in os)"
proof (induction ops arbitrary: st ins outs fin os)
  case Nil
  then show ?case by (simp add: sent_in_def received_in_def finished_in_def)
next
  case (Cons op ops)
  obtain out st1 where q: "session_step f env selector single op st = (out, st1)" by (meson surj_pair)
  obtain os1 st2 where r: "session_run f env selector single ops st1 = (os1, st2)" by (meson surj_pair)
  have o: "os = out # os1" "st2 = st'" using Cons.prems(3) q r by auto
  from Cons.IH [OF Cons.prems(1) system_ok_step [OF Cons.prems(1,2) q] r [unfolded o(2)]]
  show ?case by (simp add: o(1) sent_in_def received_in_def finished_in_def disj_assoc)
qed

lemma system_ok_start: "system_ok f reads p (session_start p reads) [] [] False"
  using reader_ok_start
  by (auto simp: system_ok_def session_start_def session_new_def event_queue_new_def session_ok_def queue_ok_def
      pend_def controls_def received_def)

definition socket_env ::
  "(request \<Rightarrow> string + bytes) \<Rightarrow> (bytes \<Rightarrow> string + server_message) \<Rightarrow> (nat \<Rightarrow> wire) \<Rightarrow> io_kind option \<Rightarrow>
    (nat \<Rightarrow> io_kind option) \<Rightarrow> (nat \<Rightarrow> bool) \<Rightarrow> capture_env" where
  "socket_env to_json f wires opened settings cancelled = \<lparr>
     ce_open = (case opened of None \<Rightarrow> Ok () | Some k \<Rightarrow> Err (CeIo k)),
     ce_setting = settings, ce_cancelled = cancelled,
     ce_request = (\<lambda>n. client_request to_json f (wires n))\<rparr>"

lemma socket_env_ok: "env_ok f (socket_env to_json f wires opened settings cancelled)"
  by (auto simp: env_ok_def socket_env_def split: option.split)

section \<open>Claims\<close>

text \<open>
  C7. Whatever the socket delivers and however worker and consumer interleave: the events the
  worker puts in are the greeting \<open>Connected\<close> followed by the notifications of the stream about
  the captured devices, from the first on and in the order of the wire; the queue holds at most 64
  of them; the control events (button transitions and lifecycle events) come out, or are still
  held, all of them and in their order; the events that come out are in the order they were put in,
  which is that of the wire; and the counter of coalesced samples is the number of events that
  entered and will not come out, modulo \<open>2 ^ 64\<close>.
\<close>

theorem session_accounts_for_events:
  "case session_run f (socket_env to_json f wires opened settings cancelled) selector single ops
      (session_start policy reads) of
     (os, w, s, rs, c) \<Rightarrow>
       length (eq_events (se_queue s)) \<le> EVENT_QUEUE
       \<and> controls (received_in os @ holding s) = controls (sent_in os)
       \<and> subseq (received_in os @ holding s) (sent_in os)
       \<and> eq_coalesced (se_queue s)
          = (length (sent_in os) - length (received_in os @ holding s)) mod 18446744073709551616
       \<and> (sent_in os = [] \<or> (\<exists>status devices d. prefix d (stream_notes f (received reads))
            \<and> sent_in os = EvConnected status devices # map EvNotification (filter (wanted devices) d)))"
proof -
  obtain os w s rs c where r: "session_run f (socket_env to_json f wires opened settings cancelled) selector single
      ops (session_start policy reads) = (os, w, s, rs, c)" by (metis prod_cases5)
  have "session_ok w s (sent_in os) (received_in os)" "worker_ok f reads w rs c (sent_in os)"
    using system_ok_run [OF socket_env_ok system_ok_start r] by (simp_all add: system_ok_def)
  then show ?thesis using worker_ok_due [of f reads w rs c]
    by (simp add: r session_ok_def queue_ok_def holding_def due_def)
qed

text \<open>
  C18. A strict session loses nothing: what its consumer received or still holds is exactly what the
  worker put in, and that is the greeting \<open>Connected\<close> followed by the notifications of the stream
  about the captured devices, from the first on, in order.
\<close>

theorem strict_session_lossless:
  "case session_run f (socket_env to_json f wires opened settings cancelled) selector single ops
      (session_start Strict reads) of
     (os, w, s, rs, c) \<Rightarrow>
       received_in os @ holding s = sent_in os
       \<and> (sent_in os = [] \<or> (\<exists>status devices d. prefix d (stream_notes f (received reads))
            \<and> sent_in os = EvConnected status devices # map EvNotification (filter (wanted devices) d)))"
proof -
  obtain os w s rs c where r: "session_run f (socket_env to_json f wires opened settings cancelled) selector single
      ops (session_start Strict reads) = (os, w, s, rs, c)" by (metis prod_cases5)
  have "session_ok w s (sent_in os) (received_in os)" "eq_policy (se_queue s) = Strict"
      "worker_ok f reads w rs c (sent_in os)"
    using system_ok_run [OF socket_env_ok system_ok_start r] by (simp_all add: system_ok_def)
  then show ?thesis using worker_ok_due [of f reads w rs c]
    by (simp add: r session_ok_def queue_ok_def holding_def due_def)
qed

text \<open>
  Completion comes last: once \<open>try_finish\<close> has given the worker's result, the worker has ended
  and nothing is left to receive, so every control event that entered the queue was received
  before, and under the strict policy every event was.
\<close>

theorem completion_after_last_event:
  assumes "session_run f (socket_env to_json f wires opened settings cancelled) selector single ops
      (session_start policy reads) = (os, w, s, rs, c)" "finished_in os"
  shows "w = WorkerGone \<and> holding s = [] \<and> controls (received_in os) = controls (sent_in os)
    \<and> (policy = Strict \<longrightarrow> received_in os = sent_in os)"
proof -
  have "system_ok f reads policy (w, s, rs, c) (sent_in os) (received_in os) (finished_in os)"
    using system_ok_run [OF socket_env_ok system_ok_start assms(1)] by simp
  then show ?thesis using assms(2) by (auto simp: system_ok_def session_ok_def queue_ok_def holding_def controls_def)
qed

theorem completion_after_last_event_witness:
  "\<exists>w s rs c. session_run notice_or_pong
      (socket_env (\<lambda>_. Inr []) notice_or_pong (\<lambda>_. \<lparr>wi_write = None, wi_timeout = None, wi_rounds = \<lambda>_. None,
        wi_restore = None\<rparr>) (Some IoOther) (\<lambda>_. None) (\<lambda>_. False)) ''1'' True
      [DoWork, DoFinish, DoWork, DoWork, DoRecv, DoFinish] (session_start Strict [])
    = ([OutSent [], OutFinished (Err RecvEmpty), OutSent [], OutSent [], OutReceived (Err RecvDisconnected),
        OutFinished (Ok (Err (CeIo IoOther)))], w, s, rs, c)
    \<and> w = WorkerGone \<and> holding s = []"
proof -
  let ?env = "socket_env (\<lambda>_. Inr []) notice_or_pong (\<lambda>_. \<lparr>wi_write = None, wi_timeout = None,
    wi_rounds = \<lambda>_. None, wi_restore = None\<rparr>) (Some IoOther) (\<lambda>_. None) (\<lambda>_. False)"
  obtain s where r: "session_run notice_or_pong ?env ''1'' True
      [DoWork, DoFinish, DoWork, DoWork, DoRecv, DoFinish] (session_start Strict [])
    = ([OutSent [], OutFinished (Err RecvEmpty), OutSent [], OutSent [], OutReceived (Err RecvDisconnected),
        OutFinished (Ok (Err (CeIo IoOther)))], WorkerGone, s, [], reader_start)"
    by (simp add: session_start_def connect_cancellable_def then_call_def check_cancelled_def call_result_def
        socket_env_def client_connect_def session_new_def event_queue_new_def try_finish_def channel_try_recv_def
        session_try_recv_def queue_try_recv_def)
  from completion_after_last_event [OF r] show ?thesis using r by (auto simp: finished_in_def)
qed

end
