(* ===== verification/Uinput.thy ===== *)
theory Uinput
  imports Engine Hid_Model
begin

text \<open>
  The virtual devices: \<open>crates/wiilandd/src/uinput.rs\<close>. What the kernel answers (the result of
  \<open>open\<close>, of each \<open>ioctl\<close>, of each \<open>write\<close>) is an argument; the operations on the descriptor are
  recorded in their order. Results are negative error numbers as in the source.
\<close>

section \<open>Constants and structures\<close>

definition EIO :: int where "EIO = 5"
definition UI_DEV_CREATE :: nat where "UI_DEV_CREATE = 0x5501"
definition UI_DEV_DESTROY :: nat where "UI_DEV_DESTROY = 0x5502"
definition UI_SET_EVBIT :: nat where "UI_SET_EVBIT = 0x40045564"
definition UI_SET_KEYBIT :: nat where "UI_SET_KEYBIT = 0x40045565"
definition UI_SET_RELBIT :: nat where "UI_SET_RELBIT = 0x40045566"
definition UI_SET_ABSBIT :: nat where "UI_SET_ABSBIT = 0x40045567"
definition EV_REL :: nat where "EV_REL = 2"
definition BUS_BLUETOOTH :: nat where "BUS_BLUETOOTH = 0x0005"

record input_id =
  id_bustype :: nat
  id_vendor :: nat
  id_product :: nat
  id_version :: nat

record uinput_user_dev =
  ud_name :: bytes
  ud_id :: input_id
  ud_ff_effects_max :: int
  ud_absmax :: "int list"
  ud_absmin :: "int list"
  ud_absfuzz :: "int list"
  ud_absflat :: "int list"

definition UinputUserDev_default :: uinput_user_dev where
  "UinputUserDev_default = \<lparr>
     ud_name = replicate 80 (CHR 0x00),
     ud_id = \<lparr>id_bustype = 0, id_vendor = 0, id_product = 0, id_version = 0\<rparr>,
     ud_ff_effects_max = 0, ud_absmax = replicate 64 0, ud_absmin = replicate 64 0,
     ud_absfuzz = replicate 64 0, ud_absflat = replicate 64 0\<rparr>"

text \<open>The time of an emitted event is zero; the kernel stamps it.\<close>

record input_event =
  in_type :: nat
  in_code :: nat
  in_value :: int

datatype virtual_kind = VkController | VkDesktop

fun VirtualKind_name :: "virtual_kind \<Rightarrow> string" where
  "VirtualKind_name VkController = ''WiiLand Virtual Controller''"
| "VirtualKind_name VkDesktop = ''WiiLand Virtual Desktop''"

fun VirtualKind_capabilities :: "virtual_kind \<Rightarrow> virtual_capabilities" where
  "VirtualKind_capabilities VkController = CONTROLLER_CAPABILITIES"
| "VirtualKind_capabilities VkDesktop = DESKTOP_CAPABILITIES"


section \<open>Creation\<close>

datatype uinput_op =
    UiOpen | UiIoctl nat nat | UiWriteDevice uinput_user_dev | UiClose

text \<open>An error of the backend, with its error number if the system gave one.\<close>

definition backend_errno :: "int option \<Rightarrow> int" where
  "backend_errno raw = - (case raw of Some e \<Rightarrow> e | None \<Rightarrow> EIO)"

datatype uinput_write = WroteBytes nat | WriteError "int option"

text \<open>
  \<open>write_exact\<close> retries an interrupted write and refuses a short one. The list is what the writes
  return; when it is exhausted the kernel takes everything.
\<close>

fun write_exact :: "nat \<Rightarrow> uinput_write list \<Rightarrow> int option \<times> uinput_write list" where
  "write_exact len [] = (None, [])"
| "write_exact len (r # rs) =
    (case r of
       WroteBytes n \<Rightarrow> ((if n = len then None else Some (- EIO)), rs)
     | WriteError raw \<Rightarrow> if raw = Some 4 then write_exact len rs else (Some (backend_errno raw), rs))"

definition enable_bits :: "nat \<Rightarrow> nat list \<Rightarrow> uinput_op list" where
  "enable_bits request codes = map (UiIoctl request) codes"

definition configure_ioctls :: "virtual_kind \<Rightarrow> uinput_op list" where
  "configure_ioctls kind =
    (let caps = VirtualKind_capabilities kind
     in UiIoctl UI_SET_EVBIT EV_KEY # enable_bits UI_SET_KEYBIT (cap_keys caps)
        @ (if cap_axes caps \<noteq> [] then UiIoctl UI_SET_EVBIT EV_ABS # enable_bits UI_SET_ABSBIT (cap_axes caps) else [])
        @ (if cap_rels caps \<noteq> [] then UiIoctl UI_SET_EVBIT EV_REL # enable_bits UI_SET_RELBIT (cap_rels caps) else []))"

definition set_axis :: "uinput_user_dev \<Rightarrow> nat \<Rightarrow> uinput_user_dev" where
  "set_axis u code =
    (case axis_info code of
       None \<Rightarrow> u
     | Some info \<Rightarrow> u\<lparr>
         ud_absmin := (ud_absmin u)[code := ax_minimum info],
         ud_absmax := (ud_absmax u)[code := ax_maximum info],
         ud_absflat := (ud_absflat u)[code := ax_flat info],
         ud_absfuzz := (ud_absfuzz u)[code := ax_fuzz info]\<rparr>)"

definition user_dev :: "virtual_kind \<Rightarrow> uinput_user_dev" where
  "user_dev kind =
    (let text = take 79 (VirtualKind_name kind);
         u = UinputUserDev_default\<lparr>
           ud_name := text @ drop (length text) (replicate 80 (CHR 0x00)),
           ud_id := \<lparr>id_bustype = BUS_BLUETOOTH, id_vendor = 0x057e, id_product = 0x0337, id_version = 1\<rparr>\<rparr>
     in foldl set_axis u (cap_axes (VirtualKind_capabilities kind)))"

text \<open>\<open>size_of\<close> of the two structures written to the kernel.\<close>

definition USER_DEV_SIZE :: nat where "USER_DEV_SIZE = 1116"
definition INPUT_EVENT_SIZE :: nat where "INPUT_EVENT_SIZE = 24"

record virtual_env =
  ve_open :: "int option option"
  ve_ioctl :: "nat \<Rightarrow> int option option"
  ve_writes :: "uinput_write list"

text \<open>Calls from the \<open>k\<close>th \<open>ioctl\<close> on until one fails, with the operations made.\<close>

fun run_ioctls :: "virtual_env \<Rightarrow> nat \<Rightarrow> uinput_op list \<Rightarrow> int option \<times> uinput_op list" where
  "run_ioctls env k [] = (None, [])"
| "run_ioctls env k (op # ops) =
    (case ve_ioctl env k of
       Some raw \<Rightarrow> (Some (backend_errno raw), [op])
     | None \<Rightarrow> (case run_ioctls env (Suc k) ops of (r, made) \<Rightarrow> (r, op # made)))"

record virtual_device =
  vd_kind :: virtual_kind
  vd_created :: bool
  vd_events :: "input_event list"

text \<open>\<open>configure\<close>: the capabilities, then the description of the device.\<close>

definition virtual_configure :: "virtual_env \<Rightarrow> virtual_kind \<Rightarrow> int option \<times> uinput_op list" where
  "virtual_configure env kind =
    (case run_ioctls env 0 (configure_ioctls kind) of
       (Some e, made) \<Rightarrow> (Some e, made)
     | (None, made) \<Rightarrow>
         (case write_exact USER_DEV_SIZE (ve_writes env) of (r, _) \<Rightarrow> (r, made @ [UiWriteDevice (user_dev kind)])))"

text \<open>\<open>Drop\<close>: a created device is destroyed, and the descriptor is closed in any case.\<close>

definition virtual_drop :: "virtual_device \<Rightarrow> uinput_op list" where
  "virtual_drop vd = (if vd_created vd then [UiIoctl UI_DEV_DESTROY 0] else []) @ [UiClose]"

definition virtual_create ::
  "virtual_env \<Rightarrow> virtual_kind \<Rightarrow> (int + virtual_device) \<times> uinput_op list" where
  "virtual_create env kind =
    (case ve_open env of
       Some raw \<Rightarrow> (Inl (backend_errno raw), [UiOpen])
     | None \<Rightarrow>
         (let out = \<lparr>vd_kind = kind, vd_created = False, vd_events = []\<rparr>
          in case virtual_configure env kind of
               (Some e, made) \<Rightarrow> (Inl e, UiOpen # made @ virtual_drop out)
             | (None, made) \<Rightarrow>
                 (case ve_ioctl env (length made - 1) of
                    Some raw \<Rightarrow> (Inl (backend_errno raw), UiOpen # made @ [UiIoctl UI_DEV_CREATE 0] @ virtual_drop out)
                  | None \<Rightarrow> (Inr (out\<lparr>vd_created := True\<rparr>), UiOpen # made @ [UiIoctl UI_DEV_CREATE 0]))))"


section \<open>Emission\<close>

text \<open>
  An emission takes what the writes return and the device; \<open>vd_events\<close> are the events the kernel
  took, so a failed write adds none.
\<close>

type_synonym emission = "uinput_write list \<Rightarrow> virtual_device \<Rightarrow> int option \<times> uinput_write list \<times> virtual_device"

definition emit_event :: "nat \<Rightarrow> nat \<Rightarrow> int \<Rightarrow> emission" where
  "emit_event ty code v ws vd =
    (case write_exact INPUT_EVENT_SIZE ws of
       (None, ws') \<Rightarrow> (None, ws', vd\<lparr>vd_events := vd_events vd @ [\<lparr>in_type = ty, in_code = code, in_value = v\<rparr>]\<rparr>)
     | (Some e, ws') \<Rightarrow> (Some e, ws', vd))"

definition then_emit :: "emission \<Rightarrow> emission \<Rightarrow> emission" where
  "then_emit f g ws vd =
    (case f ws vd of
       (None, ws', vd') \<Rightarrow> g ws' vd'
     | (Some e, ws', vd') \<Rightarrow> (Some e, ws', vd'))"

definition virtual_syn :: emission where
  "virtual_syn = emit_event EV_SYN SYN_REPORT 0"

definition emit_key :: "nat \<Rightarrow> nat \<Rightarrow> emission" where
  "emit_key code st = then_emit (emit_event EV_KEY code (int (min st 2))) virtual_syn"

definition emit_abs :: "nat \<Rightarrow> int \<Rightarrow> emission" where
  "emit_abs code v = emit_event EV_ABS code v"

definition emit_rel :: "nat \<Rightarrow> int \<Rightarrow> emission" where
  "emit_rel code v = (if v \<noteq> 0 then emit_event EV_REL code v else (\<lambda>ws vd. (None, ws, vd)))"


section \<open>Facts\<close>

lemma run_ioctls_ok: "run_ioctls env k ops = (None, made) \<Longrightarrow> made = ops"
  by (induction ops arbitrary: k made) (auto split: option.splits prod.splits)

lemma run_ioctls_prefix: "run_ioctls env k ops = (r, made) \<Longrightarrow> \<exists>rest. ops = made @ rest"
  by (induction ops arbitrary: k made r) (auto split: option.splits prod.splits)

lemma no_close_configure: "UiClose \<notin> set (configure_ioctls kind)"
  by (auto simp: configure_ioctls_def Let_def enable_bits_def)

lemma no_destroy_configure: "UiIoctl UI_DEV_DESTROY n \<notin> set (configure_ioctls kind)"
  by (auto simp: configure_ioctls_def Let_def enable_bits_def UI_DEV_DESTROY_def UI_SET_EVBIT_def
      UI_SET_KEYBIT_def UI_SET_ABSBIT_def UI_SET_RELBIT_def)

lemma configure_quiet:
  assumes "virtual_configure env kind = (r, made)"
  shows "UiClose \<notin> set made \<and> UiIoctl UI_DEV_DESTROY 0 \<notin> set made"
proof -
  obtain q m where q: "run_ioctls env 0 (configure_ioctls kind) = (q, m)" by force
  obtain rest where "configure_ioctls kind = m @ rest" using run_ioctls_prefix [OF q] by auto
  then have "UiClose \<notin> set m" "UiIoctl UI_DEV_DESTROY 0 \<notin> set m"
    using no_close_configure [of kind] no_destroy_configure [of 0 kind] by auto
  then show ?thesis using assms q by (auto simp: virtual_configure_def split: option.splits prod.splits)
qed

text \<open>
  Setting up a virtual device leaks no descriptor: when it fails the descriptor it opened is
  closed exactly once, after everything else, and nothing is destroyed that was not created; when it
  succeeds every capability of the kind was enabled and its description written before the device
  was created, and the descriptor stays open.
\<close>

theorem virtual_create_releases:
  "case virtual_create env kind of
     (Inl e, ops) \<Rightarrow> (ops = [UiOpen] \<or> (\<exists>made. ops = UiOpen # made @ [UiClose] \<and> UiClose \<notin> set made))
       \<and> UiIoctl UI_DEV_DESTROY 0 \<notin> set ops
   | (Inr vd, ops) \<Rightarrow>
       ops = UiOpen # configure_ioctls kind @ [UiWriteDevice (user_dev kind), UiIoctl UI_DEV_CREATE 0]
       \<and> vd = \<lparr>vd_kind = kind, vd_created = True, vd_events = []\<rparr>"
proof (cases "ve_open env")
  case None
  obtain r made where c: "virtual_configure env kind = (r, made)" by force
  note q = configure_quiet [OF c]
  have made: "r = None \<longrightarrow> made = configure_ioctls kind @ [UiWriteDevice (user_dev kind)]"
    using c run_ioctls_ok by (auto simp: virtual_configure_def split: option.splits prod.splits)
  show ?thesis using None c q made
    by (auto simp: virtual_create_def virtual_drop_def Let_def UI_DEV_CREATE_def UI_DEV_DESTROY_def
        split: option.splits intro: exI [of _ "made @ [UiIoctl _ 0]"])
qed (simp add: virtual_create_def)

end
