(* ===== verification/Bridge.thy ===== *)
theory Bridge
  imports Uinput Trace Device Config_Parse
begin

text \<open>
  One controller with its virtual devices: \<open>crates/wiilandd/src/bridge.rs\<close>. It opens the
  interfaces the profile needs, turns each event of the controller into an input of the engine,
  writes the engine's actions to the virtual devices, and rebuilds them when an interface it needs
  is lost. Paths are their text (the source prints them with \<open>to_string_lossy\<close>, the identity on
  UTF-8); an error is its negative number.
\<close>

section \<open>Interfaces and events\<close>

definition MAX_EVENTS_PER_DRAIN :: nat where "MAX_EVENTS_PER_DRAIN = 256"

definition requested_interfaces :: "profile \<Rightarrow> config \<Rightarrow> interface_mask" where
  "requested_interfaces p c =
    (let m0 = (if Profile_contains p GAMEPAD then MASK_ALL AND NOT MASK_IR else 0);
         m1 = (if Profile_contains p DESKTOP then m0 OR (MASK_CORE OR MASK_IR) else m0)
     in if cfg_aim_mode c = AimOff then m1
        else
          let m2 = m1 OR (case cfg_aim_source c of
                       SourceIr \<Rightarrow> MASK_IR
                     | SourceMotionPlus \<Rightarrow> MASK_MOTION_PLUS
                     | SourceAccelerometer \<Rightarrow> MASK_ACCEL
                     | SourceAuto \<Rightarrow> MASK_IR OR MASK_MOTION_PLUS OR MASK_ACCEL)
          in if cfg_aim_activation c = ActZ \<or> cfg_aim_activation c = ActC then m2 OR MASK_NUNCHUK else m2)"

definition forwards_to_engine :: "event_kind \<Rightarrow> profile \<Rightarrow> config \<Rightarrow> bool" where
  "forwards_to_engine kind p c =
    (case EventKind_interface kind of
       None \<Rightarrow> False
     | Some i \<Rightarrow> InterfaceMask_contains (requested_interfaces p c) i)"

definition valid_ir_point :: "axis3 \<Rightarrow> bool" where
  "valid_ir_point v \<longleftrightarrow> ax_x v \<noteq> 1023 \<or> ax_y v \<noteq> 1023"

fun axis_events :: "event_kind \<Rightarrow> axis3 list" where
  "axis_events (EAccel v) = [v]"
| "axis_events (EMotionPlus v) = [v]"
| "axis_events (EIr vs) = vs"
| "axis_events (EBalanceBoard vs) = vs"
| "axis_events (ENunchukMove vs) = vs"
| "axis_events (EProControllerMove vs) = vs"
| "axis_events (EClassicControllerMove vs) = vs"
| "axis_events (EGuitarMove vs) = vs"
| "axis_events (EDrumsMove vs) = vs"
| "axis_events _ = []"

text \<open>An array of eight zero axes with the event's axes copied over its front (\<open>zip\<close>).\<close>

definition motion_axes :: "axis3 list \<Rightarrow> abs3 list" where
  "motion_axes vs =
    (let copied = map (\<lambda>v. \<lparr>abs_x = ax_x v, abs_y = ax_y v, abs_z = ax_z v\<rparr>) (take 8 vs)
     in copied @ replicate (8 - length copied) \<lparr>abs_x = 0, abs_y = 0, abs_z = 0\<rparr>)"

fun engine_key_event :: "event_kind \<Rightarrow> (input_source \<times> button_event) option" where
  "engine_key_event (EKey k) = Some (SrcCore, k)"
| "engine_key_event (ENunchukKey k) = Some (SrcNunchuk, k)"
| "engine_key_event (EClassicControllerKey k) = Some (SrcClassicController, k)"
| "engine_key_event (EProControllerKey k) = Some (SrcProController, k)"
| "engine_key_event (EDrumsKey k) = Some (SrcDrums, k)"
| "engine_key_event (EGuitarKey k) = Some (SrcGuitar, k)"
| "engine_key_event _ = None"

fun engine_motion_kind :: "event_kind \<Rightarrow> motion_kind option" where
  "engine_motion_kind (EAccel _) = Some MotAccel"
| "engine_motion_kind (EMotionPlus _) = Some MotMotionPlus"
| "engine_motion_kind (ENunchukMove _) = Some MotNunchuk"
| "engine_motion_kind (EClassicControllerMove _) = Some MotClassic"
| "engine_motion_kind (EProControllerMove _) = Some MotPro"
| "engine_motion_kind (EGuitarMove _) = Some MotGuitar"
| "engine_motion_kind (EDrumsMove _) = Some MotDrums"
| "engine_motion_kind (EBalanceBoard _) = Some MotBalance"
| "engine_motion_kind _ = None"

definition ir_input :: "axis3 list \<Rightarrow> engine_input" where
  "ir_input vs = InIr (map (\<lambda>v. \<lparr>pt_valid = valid_ir_point v, pt_x = ax_x v, pt_y = ax_y v\<rparr>) vs)"

definition engine_input_of :: "event_kind \<Rightarrow> engine_input option" where
  "engine_input_of kind =
    (case engine_key_event kind of
       Some (source, key) \<Rightarrow> Some (InKey source (be_button key) (be_state key))
     | None \<Rightarrow>
         (case kind of
            EIr vs \<Rightarrow> Some (ir_input vs)
          | _ \<Rightarrow> (case engine_motion_kind kind of
                    None \<Rightarrow> None
                  | Some motion \<Rightarrow> Some (InMotion motion (motion_axes (axis_events kind))))))"


section \<open>Tracing\<close>

definition key_event_of :: "event_kind \<Rightarrow> (nat \<times> nat) option" where
  "key_event_of kind =
    (case engine_key_event kind of
       Some (_, key) \<Rightarrow> Some (Button_code (be_button key), ButtonState_value (be_state key))
     | None \<Rightarrow> None)"

definition event_type_code :: "event_kind \<Rightarrow> nat" where
  "event_type_code kind = HidEventType_code (EventKind_event_type kind)"

definition trace_payload_of :: "event_kind \<Rightarrow> trace_payload" where
  "trace_payload_of kind =
    (case key_event_of kind of
       Some (code, st) \<Rightarrow> PayloadKey \<lparr>kp_code = code, kp_state = st\<rparr>
     | None \<Rightarrow>
         (let axes = axis_events kind
          in if axes = [] then PayloadNone
             else PayloadAxes (map (\<lambda>v. \<lparr>ap_x = ax_x v, ap_y = ax_y v, ap_z = ax_z v\<rparr>) axes)))"

definition format_trace_line :: "nat \<Rightarrow> int \<Rightarrow> string \<Rightarrow> event_kind \<Rightarrow> string" where
  "format_trace_line sequence monotonic_us syspath kind =
    (let line = format_line (TraceEvent_new sequence (Some monotonic_us) syspath (event_type_code kind)
                  (trace_payload_of kind))
     in if ends_with line [newline] then butlast line else line)"

text \<open>
  \<open>emit\<close> of a trace context, with the sequence number it shares with the other devices: the new
  number and the line. The number is never 0.
\<close>

definition trace_emit ::
  "trace_filter \<Rightarrow> nat \<Rightarrow> int \<Rightarrow> string \<Rightarrow> event_kind \<Rightarrow> nat \<times> string list" where
  "trace_emit flt sequence now syspath kind =
    (if \<not> TraceFilter_matches flt (event_type_code kind) then (sequence, [])
     else let n = max 1 ((sequence + 1) mod 18446744073709551616)
          in (n, [format_trace_line n now syspath kind]))"

section \<open>Profiles\<close>

text \<open>\<open>profile_for_device\<close> of the bridge, from the attribute \<open>devtype\<close> as it was read.\<close>

definition bridge_profile :: "config \<Rightarrow> string \<Rightarrow> bytes option \<Rightarrow> profile" where
  "bridge_profile c syspath devtype =
    (let text = (case devtype of
                   None \<Rightarrow> None
                 | Some b \<Rightarrow> if valid_utf8 b \<and> str_trim b \<noteq> [] then Some (str_trim b) else None)
     in profile_for_device c (Some syspath) text)"


section \<open>The bridge\<close>

record bridge =
  br_syspath :: string
  br_profile :: profile
  br_iface :: hid_interface
  br_gamepad :: "virtual_device option"
  br_desktop :: "virtual_device option"
  br_engine :: device_engine
  br_opened :: interface_mask
  br_pending :: interface_mask
  br_trace :: "trace_filter option"
  br_config :: config
  br_outputs_enabled :: bool
  br_capture :: bool

text \<open>What the kernel answers when interfaces are opened and virtual devices created.\<close>

record bridge_env =
  be_open :: open_env
  be_gamepad :: virtual_env
  be_desktop :: virtual_env

definition create_one :: "bool \<Rightarrow> virtual_env \<Rightarrow> virtual_kind \<Rightarrow> int + virtual_device option" where
  "create_one needed env kind =
    (if \<not> needed then Inr None
     else case fst (virtual_create env kind) of Inl e \<Rightarrow> Inl e | Inr vd \<Rightarrow> Inr (Some vd))"

definition create_outputs ::
  "profile \<Rightarrow> config \<Rightarrow> bridge_env \<Rightarrow> bool \<Rightarrow> int + (virtual_device option \<times> virtual_device option)" where
  "create_outputs p c env enabled =
    (if \<not> enabled then Inr (None, None)
     else case create_one (needs_gamepad p c) (be_gamepad env) VkController of
       Inl e \<Rightarrow> Inl e
     | Inr gamepad \<Rightarrow>
         (case create_one (needs_desktop p c) (be_desktop env) VkDesktop of
            Inl e \<Rightarrow> Inl e
          | Inr desktop \<Rightarrow> Inr (gamepad, desktop)))"

text \<open>\<open>io_errno\<close> of an error of the controller, which always has its number.\<close>

definition hid_errno :: "int \<Rightarrow> int" where
  "hid_errno e = - \<bar>e\<bar>"

record bridge_setup =
  bs_interface :: "int option + hid_interface"
  bs_syspath :: string
  bs_devtype :: "bytes option"
  bs_watch :: "int option"

definition bridge_new :: "bridge_env \<Rightarrow> bridge_setup \<Rightarrow> config \<Rightarrow> bool \<Rightarrow> int + bridge" where
  "bridge_new env setup c enabled =
    (if Config_validate c \<noteq> None then Inl (- EINVAL)
     else case bs_interface setup of
       Inl raw \<Rightarrow> Inl (backend_errno raw)
     | Inr d0 \<Rightarrow>
         (let p = bridge_profile c (bs_syspath setup) (bs_devtype setup);
              requested = requested_interfaces p c
          in case hid_watch True (bs_watch setup) d0 of
               (Some e, _) \<Rightarrow> Inl (hid_errno e)
             | (None, d1) \<Rightarrow>
                 (case open_interfaces (be_open env) d1 requested of
                    (d2, first, bits) \<Rightarrow>
                      if bits = 0 \<and> first \<noteq> 0 then Inl (hid_errno first)
                      else case create_outputs p c env enabled of
                        Inl e \<Rightarrow> Inl e
                      | Inr (gamepad, desktop) \<Rightarrow> Inr \<lparr>
                          br_syspath = bs_syspath setup, br_profile = p, br_iface = d2,
                          br_gamepad = gamepad, br_desktop = desktop, br_engine = DeviceEngine_new c p,
                          br_opened = bits, br_pending = requested AND NOT bits, br_trace = None,
                          br_config = c, br_outputs_enabled = enabled, br_capture = False\<rparr>)))"

definition bridge_requested :: "bridge \<Rightarrow> interface_mask" where
  "bridge_requested b =
    (if br_capture b then MASK_ALL else requested_interfaces (br_profile b) (br_config b))"

text \<open>The result of a step is an error, or none.\<close>

definition retry_open :: "bridge_env \<Rightarrow> bridge \<Rightarrow> int option \<times> bridge" where
  "retry_open env b =
    (if br_pending b = 0 then (None, b)
     else case open_interfaces (be_open env) (br_iface b) (br_pending b) of
       (d, first, bits) \<Rightarrow>
         (let b' = b\<lparr>br_iface := d, br_opened := bits, br_pending := br_pending b AND NOT bits\<rparr>
          in if bits AND requested_interfaces (br_profile b) (br_config b) \<noteq> 0 then (None, b')
             else (Some (if first = 0 then - ENODEV else hid_errno first), b')))"

definition set_capture :: "bridge_env \<Rightarrow> bool \<Rightarrow> bridge \<Rightarrow> int option \<times> bridge" where
  "set_capture env enabled b =
    (if enabled = br_capture b then (None, b)
     else let b1 = b\<lparr>br_capture := enabled\<rparr>;
              desired = bridge_requested b1;
              d = close_interfaces (br_iface b1) (opened (br_iface b1) AND NOT desired)
          in retry_open env (b1\<lparr>br_iface := d, br_opened := opened d, br_pending := desired AND NOT (opened d)\<rparr>))"

definition recreate_outputs :: "bridge_env \<Rightarrow> bridge \<Rightarrow> int option \<times> bridge" where
  "recreate_outputs env b =
    (case create_outputs (br_profile b) (br_config b) env (br_outputs_enabled b) of
       Inl e \<Rightarrow> (Some e, b)
     | Inr (gamepad, desktop) \<Rightarrow> (None, b\<lparr>br_gamepad := gamepad, br_desktop := desktop\<rparr>))"

definition handle_watch :: "bridge_env \<Rightarrow> bridge \<Rightarrow> int option \<times> bridge" where
  "handle_watch env b =
    (let now_open = opened (br_iface b);
         lost = br_opened b AND NOT now_open AND requested_interfaces (br_profile b) (br_config b);
         (e, b1) = (if lost \<noteq> 0 then
                      recreate_outputs env (b\<lparr>br_gamepad := None, br_desktop := None,
                        br_engine := fst (engine_process (br_engine b) InReset)\<rparr>)
                    else (None, b))
     in case e of
          Some code \<Rightarrow> (Some code, b1)
        | None \<Rightarrow>
            retry_open env (b1\<lparr>br_opened := now_open, br_pending := bridge_requested b1 AND NOT now_open\<rparr>))"


section \<open>Events\<close>

definition emit_action :: "output_action \<Rightarrow> emission" where
  "emit_action a =
    (case a of
       OutKey _ code v \<Rightarrow> emit_key code v
     | OutAbs _ code v \<Rightarrow> emit_abs code v
     | OutRel _ code v \<Rightarrow> emit_rel code v
     | OutSync _ \<Rightarrow> virtual_syn)"

fun action_target :: "output_action \<Rightarrow> output_device" where
  "action_target (OutKey t _ _) = t"
| "action_target (OutAbs t _ _) = t"
| "action_target (OutRel t _ _) = t"
| "action_target (OutSync t) = t"

fun output_of :: "output_device \<Rightarrow> bridge \<Rightarrow> virtual_device option" where
  "output_of DevGamepad b = br_gamepad b"
| "output_of DevDesktop b = br_desktop b"

fun set_output :: "output_device \<Rightarrow> virtual_device \<Rightarrow> bridge \<Rightarrow> bridge" where
  "set_output DevGamepad vd b = b\<lparr>br_gamepad := Some vd\<rparr>"
| "set_output DevDesktop vd b = b\<lparr>br_desktop := Some vd\<rparr>"

text \<open>The loop over the actions stops at the first failing write.\<close>

fun run_actions :: "output_action list \<Rightarrow> uinput_write list \<Rightarrow> bridge \<Rightarrow> int option \<times> uinput_write list \<times> bridge" where
  "run_actions [] ws b = (None, ws, b)"
| "run_actions (a # as) ws b =
    (case output_of (action_target a) b of
       None \<Rightarrow> run_actions as ws b
     | Some vd \<Rightarrow>
         (case emit_action a ws vd of
            (None, ws', vd') \<Rightarrow> run_actions as ws' (set_output (action_target a) vd' b)
          | (Some e, ws', vd') \<Rightarrow> (Some e, ws', set_output (action_target a) vd' b)))"

definition process :: "engine_input \<Rightarrow> uinput_write list \<Rightarrow> bridge \<Rightarrow> int option \<times> uinput_write list \<times> bridge" where
  "process input ws b =
    (case engine_process (br_engine b) input of
       (e, actions) \<Rightarrow>
         (let b1 = b\<lparr>br_engine := e\<rparr>
          in if \<not> br_outputs_enabled b then (None, ws, b1) else run_actions actions ws b1))"

definition tick_pointer :: "uinput_write list \<Rightarrow> bridge \<Rightarrow> int option \<times> uinput_write list \<times> bridge" where
  "tick_pointer ws b = process InPointerTick ws b"

datatype bridge_action = BridgeContinue | BridgeGone

definition handle_event ::
  "bridge_env \<Rightarrow> event_kind \<Rightarrow> uinput_write list \<Rightarrow> bridge \<Rightarrow> (int + bridge_action) \<times> uinput_write list \<times> bridge" where
  "handle_event env kind ws b =
    (case kind of
       EGone \<Rightarrow> (Inr BridgeGone, ws, b)
     | EWatch \<Rightarrow>
         (case handle_watch env b of
            (Some e, b') \<Rightarrow> (Inl e, ws, b')
          | (None, b') \<Rightarrow> (Inr BridgeContinue, ws, b'))
     | _ \<Rightarrow>
         (case (if forwards_to_engine kind (br_profile b) (br_config b) then engine_input_of kind else None) of
            None \<Rightarrow> (Inr BridgeContinue, ws, b)
          | Some input \<Rightarrow>
              (case process input ws b of
                 (Some e, ws', b') \<Rightarrow> (Inl e, ws', b')
               | (None, ws', b') \<Rightarrow> (Inr BridgeContinue, ws', b'))))"

text \<open>What the kernel answers during one round of \<open>drain_with\<close>, and the clock a trace line shows.\<close>

record drain_env =
  dr_dispatch :: dispatch_env
  dr_bridge :: bridge_env
  dr_now :: int

record drained =
  dn_result :: "int + bridge_action"
  dn_events :: "hid_event list"
  dn_lines :: "string list"
  dn_writes :: "uinput_write list"
  dn_sequence :: nat
  dn_bridge :: bridge

definition bridge_trace :: "nat \<Rightarrow> int \<Rightarrow> event_kind \<Rightarrow> bridge \<Rightarrow> nat \<times> string list" where
  "bridge_trace sequence now kind b =
    (case br_trace b of
       None \<Rightarrow> (sequence, [])
     | Some flt \<Rightarrow> trace_emit flt sequence now (br_syspath b) kind)"

text \<open>\<open>dn_events\<close> are the events the observer saw, \<open>dn_lines\<close> the trace lines, in their order.\<close>

fun drain_loop :: "nat \<Rightarrow> (nat \<Rightarrow> drain_env) \<Rightarrow> nat \<Rightarrow> uinput_write list \<Rightarrow> nat \<Rightarrow> bridge \<Rightarrow> drained" where
  "drain_loop 0 envs k ws sequence b = \<lparr>
     dn_result = Inr BridgeContinue, dn_events = [], dn_lines = [], dn_writes = ws,
     dn_sequence = sequence, dn_bridge = b\<rparr>"
| "drain_loop (Suc n) envs k ws sequence b =
    (case dispatch (dr_dispatch (envs k)) (br_iface b) of
       (Inl e, d) \<Rightarrow> \<lparr>
         dn_result = (if e = EAGAIN then Inr BridgeContinue else Inl (- e)), dn_events = [], dn_lines = [],
         dn_writes = ws, dn_sequence = sequence, dn_bridge = b\<lparr>br_iface := d\<rparr>\<rparr>
     | (Inr ev, d) \<Rightarrow>
         (let (sequence', lines) = bridge_trace sequence (dr_now (envs k)) (ev_kind ev) b;
              (r, ws', b') = handle_event (dr_bridge (envs k)) (ev_kind ev) ws (b\<lparr>br_iface := d\<rparr>);
              rest = (if r = Inr BridgeContinue then drain_loop n envs (Suc k) ws' sequence' b'
                      else \<lparr>dn_result = r, dn_events = [], dn_lines = [], dn_writes = ws',
                            dn_sequence = sequence', dn_bridge = b'\<rparr>)
          in rest\<lparr>dn_events := ev # dn_events rest, dn_lines := lines @ dn_lines rest\<rparr>))"

definition drain_with :: "(nat \<Rightarrow> drain_env) \<Rightarrow> uinput_write list \<Rightarrow> nat \<Rightarrow> bridge \<Rightarrow> drained" where
  "drain_with envs ws sequence b = drain_loop MAX_EVENTS_PER_DRAIN envs 0 ws sequence b"

definition bridge_pointer_active :: "bridge \<Rightarrow> bool" where
  "bridge_pointer_active b = pointer_active (br_engine b)"

end
