(* ===== verification/Device_Scan.thy ===== *)
theory Device_Scan
  imports Device_Invariant
begin

text \<open>
  What changes the set of open interfaces of a controller (\<open>crates/wiiland-hid/src/device.rs\<close>):
  while nobody opens or closes one, \<open>dispatch\<close> changes it only together with a \<open>Watch\<close> or \<open>Gone\<close>
  event, so a client that looks at each of these always knows what is open.
\<close>

section \<open>The scan and the inputs agree\<close>

definition scan_ok :: "hid_interface \<Rightarrow> bool" where
  "scan_ok d \<longleftrightarrow> device_ok d \<and> (\<forall>j < 10. ii_node (hi_inputs d ! j) = hi_nodes d ! j
    \<and> ii_available (hi_inputs d ! j) = bit (hi_available d) (if_index j))"

text \<open>The same descriptors are open, the same nodes are known.\<close>

definition same_open :: "hid_interface \<Rightarrow> hid_interface \<Rightarrow> bool" where
  "same_open d d' \<longleftrightarrow> hi_nodes d' = hi_nodes d \<and> hi_available d' = hi_available d
    \<and> (\<forall>j < 10. ii_fd (hi_inputs d' ! j) = ii_fd (hi_inputs d ! j)
        \<and> ii_node (hi_inputs d' ! j) = ii_node (hi_inputs d ! j)
        \<and> ii_available (hi_inputs d' ! j) = ii_available (hi_inputs d ! j))"

lemma same_open_refl [simp]: "same_open d d" by (simp add: same_open_def)

lemma same_open_trans: "same_open a b \<Longrightarrow> same_open b c \<Longrightarrow> same_open a c"
  by (simp add: same_open_def)

lemma same_open_opened: "same_open d d' \<Longrightarrow> opened d' = opened d"
  by (rule bit_eqI) (auto simp: same_open_def bit_opened)

text \<open>Nothing is open that was not.\<close>

definition shrinks :: "hid_interface \<Rightarrow> hid_interface \<Rightarrow> bool" where
  "shrinks d d' \<longleftrightarrow> (\<forall>j < 10. ii_fd (hi_inputs d' ! j) \<ge> 0 \<longrightarrow> ii_fd (hi_inputs d ! j) \<ge> 0)"

lemma same_open_shrinks: "same_open d d' \<Longrightarrow> shrinks d d'" by (simp add: same_open_def shrinks_def)

lemma shrinks_refl [simp]: "shrinks d d" by (simp add: shrinks_def)

lemma shrinks_trans: "shrinks a b \<Longrightarrow> shrinks b c \<Longrightarrow> shrinks a c" by (simp add: shrinks_def)

lemma shrinks_opened: "shrinks d d' \<Longrightarrow> bit (opened d') k \<Longrightarrow> bit (opened d) k"
  by (auto simp: shrinks_def bit_opened)

lemma shrinks_after [simp]: "shrinks d (after_event i d') = shrinks d d'"
  by (simp add: after_event_def signal_recovery_if_pending_def shrinks_def)

lemma same_open_scan: "same_open d d' \<Longrightarrow> scan_ok d \<Longrightarrow> device_ok d' \<Longrightarrow> scan_ok d'"
  by (simp add: same_open_def scan_ok_def)

lemma scan_ten: "scan_ok d \<Longrightarrow> ten d" by (simp add: scan_ok_def device_ok_def)

lemma same_open_set_input:
  "ten d \<Longrightarrow> ii_fd x = ii_fd (hi_inputs d ! i) \<Longrightarrow> ii_node x = ii_node (hi_inputs d ! i) \<Longrightarrow>
    ii_available x = ii_available (hi_inputs d ! i) \<Longrightarrow> same_open d (set_input d i x)"
  by (cases "i < 10") (auto simp: same_open_def set_input_def ten_def nth_list_update)

lemma same_open_set_decoder: "ten d \<Longrightarrow> same_open d (set_decoder d i dec)"
  unfolding set_decoder_def by (rule same_open_set_input) simp_all

lemma same_open_after [simp]: "same_open d (after_event i d') = same_open d d'"
  by (simp add: after_event_def signal_recovery_if_pending_def same_open_def)


section \<open>Dispatch\<close>

fun tells :: "hid_event option \<Rightarrow> bool" where
  "tells None \<longleftrightarrow> False"
| "tells (Some ev) \<longleftrightarrow> ev_kind ev = EWatch \<or> ev_kind ev = EGone"

lemma ev_kind_lifecycle [simp]: "ev_kind (lifecycle_event k) = k" by (simp add: lifecycle_event_def)

lemma refresh_unchanged:
  assumes "scan_ok d" "hid_refresh scan d = (e, d')" "hi_nodes d' = hi_nodes d" "hi_available d' = hi_available d"
  shows "same_open d d'"
proof (cases scan)
  case (Inr na)
  obtain nodes available where na: "na = (nodes, available)" by force
  note r = refresh_inputs [OF scan_ten [OF assms(1)] assms(2) [unfolded Inr na]]
  have "refresh_input nodes available j x = x" if "x = hi_inputs d ! j" "j < 10" for j x
  proof -
    have "ii_node x = nodes ! j" "ii_available x = bit available (if_index j)" "interface_ok j x"
      using that assms(1,3,4) r by (auto simp: scan_ok_def device_ok_def)
    then show ?thesis by (auto simp: refresh_input_def refresh_requires_close_def interface_ok_def)
  qed
  then show ?thesis using r assms(3,4) by (simp add: same_open_def)
qed (use assms in \<open>simp add: hid_refresh_def\<close>)

lemma scan_ok_refresh:
  assumes "scan_ok d" "hid_refresh scan d = (e, d')"
  shows "scan_ok d'"
proof (cases scan)
  case (Inr na)
  obtain nodes available where na: "na = (nodes, available)" by force
  note r = refresh_inputs [OF scan_ten [OF assms(1)] assms(2) [unfolded Inr na]]
  have "device_ok d'" using device_ok_refresh assms by (auto simp: scan_ok_def)
  then show ?thesis using r by (simp add: scan_ok_def refresh_input_def)
qed (use assms in \<open>simp add: hid_refresh_def\<close>)

lemma refresh_shrinks:
  assumes "ten d" "hid_refresh scan d = (e, d')"
  shows "shrinks d d'"
proof (cases scan)
  case (Inr na)
  obtain nodes available where na: "na = (nodes, available)" by force
  show ?thesis using refresh_inputs [OF assms(1) assms(2) [unfolded Inr na]]
    by (simp add: shrinks_def refresh_input_def)
qed (use assms in \<open>simp add: hid_refresh_def\<close>)

lemma close_shrinks: "ten d \<Longrightarrow> shrinks d (close_interfaces d m)"
  using close_interfaces_inputs [of d m] by (simp add: shrinks_def close_input_def)

lemma close_keeps_nodes:
  "ten d \<Longrightarrow> i < 10 \<Longrightarrow> ii_node (hi_inputs (close_interfaces d m) ! i) = ii_node (hi_inputs d ! i)
    \<and> ii_available (hi_inputs (close_interfaces d m) ! i) = ii_available (hi_inputs d ! i)"
  using close_interfaces_inputs [of d m] by (auto simp: close_input_def)

lemma scan_ok_close: "scan_ok d \<Longrightarrow> scan_ok (close_interfaces d m)"
  using device_ok_close scan_ten [of d] close_keeps_nodes [of d _ m] by (simp add: scan_ok_def)

lemma if_index_available: "bit (0 :: u32) (if_index j) = False" by simp

lemma scan_ok_forget:
  assumes "scan_ok d"
  shows "scan_ok (forget_nodes (close_interfaces (d\<lparr>hi_gone := True, hi_available := 0\<rparr>) MASK_ALL))"
proof -
  let ?d = "d\<lparr>hi_gone := True, hi_available := 0\<rparr>"
  have "device_ok (forget_nodes (close_interfaces ?d MASK_ALL))"
    by (rule device_ok_gone) (use assms in \<open>simp add: scan_ok_def\<close>)
  moreover have "ten (close_interfaces ?d MASK_ALL)"
  proof -
    have "device_ok ?d" using assms by (simp add: scan_ok_def)
    from device_ok_close [OF this, of MASK_ALL] show ?thesis by (simp add: device_ok_def)
  qed
  ultimately show ?thesis by (simp add: scan_ok_def forget_nodes_def ten_def)
qed

lemma forget_shrinks:
  "scan_ok d \<Longrightarrow> shrinks d (forget_nodes (close_interfaces (d\<lparr>hi_gone := True, hi_available := 0\<rparr>) MASK_ALL))"
proof -
  let ?d = "d\<lparr>hi_gone := True, hi_available := 0\<rparr>"
  assume "scan_ok d"
  then have d: "device_ok ?d" by (simp add: scan_ok_def)
  then have t: "ten ?d" by (simp add: device_ok_def)
  have "ten (close_interfaces ?d MASK_ALL)" using device_ok_close [OF d, of MASK_ALL] by (simp add: device_ok_def)
  then show ?thesis using close_shrinks [OF t, of MASK_ALL] by (simp add: shrinks_def forget_nodes_def ten_def)
qed

lemma monitor_loop_open:
  "scan_ok d \<Longrightarrow> monitor_loop root evs d = (r, d') \<Longrightarrow>
    scan_ok d' \<and> shrinks d d' \<and> (same_open d d' \<or> (\<exists>ev. r = Inr (Some ev) \<and> tells (Some ev)))"
proof (induction root evs d rule: monitor_loop.induct)
  case (2 root ev scan evs d)
  let ?remove = "ue_action ev = Some ''remove'' \<and> ue_path ev = Some root"
  let ?skip = "\<lambda>path. hi_gone d \<or> \<not> in_watch_scope root path (ue_subsystem ev)
    \<or> ue_action ev \<noteq> Some ''add'' \<and> ue_action ev \<noteq> Some ''change'' \<and> ue_action ev \<noteq> Some ''remove''"
  show ?case
  proof (cases ?remove)
    case True
    then show ?thesis using 2 scan_ok_forget [of d] forget_shrinks [of d] by (auto split: if_splits)
  next
    case nr: False
    show ?thesis
    proof (cases "ue_path ev")
      case None
      then have "monitor_loop root evs d = (r, d')" using "2.prems"(2) by simp
      then show ?thesis by (rule "2.IH"(2) [OF nr None "2.prems"(1)])
    next
      case (Some path)
      show ?thesis
      proof (cases "?skip path")
        case True
        then have "monitor_loop root evs d = (r, d')" using "2.prems"(2)
          by (simp only: monitor_loop.simps Some if_not_P [OF nr [unfolded Some]] option.case if_P [OF True] if_True)
        then show ?thesis by (rule "2.IH"(3) [OF nr Some True "2.prems"(1)])
      next
        case False
        obtain e d1 where rf: "hid_refresh scan d = (e, d1)" by force
        have s1: "scan_ok d1" using scan_ok_refresh [OF "2.prems"(1) rf] .
        have h1: "shrinks d d1" using refresh_shrinks [OF scan_ten [OF "2.prems"(1)] rf] .
        note step = "2.prems"(2) [unfolded monitor_loop.simps Some if_not_P [OF nr [unfolded Some]] option.case if_not_P [OF False] rf prod.case]
        show ?thesis
        proof (cases e)
          case en: None
          show ?thesis
          proof (cases "hi_available d = hi_available d1 \<and> hi_nodes d = hi_nodes d1")
            case True
            have o: "same_open d d1" using refresh_unchanged [OF "2.prems"(1) rf] True by simp
            have "monitor_loop root evs d1 = (r, d')" using step en True by simp
            from "2.IH"(4) [OF nr Some False rf [symmetric] en True s1 this] o h1 same_open_trans shrinks_trans
            show ?thesis by blast
          next
            case ch: False
            then show ?thesis using step en s1 h1 by auto
          qed
        next
          case (Some code)
          have "d1 = d" using rf Some by (auto simp: hid_refresh_def split: sum.splits prod.splits)
          then show ?thesis using "2.prems"(1) step Some by auto
        qed
      qed
    qed
  qed
qed simp

text \<open>What a step may do to the open interfaces, seen with the event it reports.\<close>

definition told :: "hid_interface \<Rightarrow> hid_event option \<Rightarrow> hid_interface \<Rightarrow> bool" where
  "told d ev d' \<longleftrightarrow> scan_ok d' \<and> shrinks d d' \<and> (same_open d d' \<or> tells ev)"

lemma told_trans: "told a None b \<Longrightarrow> told b ev c \<Longrightarrow> told a ev c"
  using same_open_trans shrinks_trans by (auto simp: told_def)

lemma told_refl: "scan_ok d \<Longrightarrow> told d ev d" by (simp add: told_def)

lemma monitor_epoll_told:
  assumes "scan_ok d" "monitor_epoll_event events root evs d = (r, d')"
  shows "told d (case r of Inr ev \<Rightarrow> ev | Inl _ \<Rightarrow> None) d'"
proof -
  obtain m d1 where m: "(if events AND EPOLLIN \<noteq> 0 then monitor_event root evs d else (Inr None, d)) = (m, d1)" by force
  have t: "scan_ok d1 \<and> shrinks d d1 \<and> (same_open d d1 \<or> (\<exists>ev. m = Inr (Some ev) \<and> tells (Some ev)))"
    using m assms(1) monitor_loop_open [OF assms(1), of root evs m d1]
    by (auto simp: monitor_event_def split: if_splits)
  have "d' = d1 \<and> (\<forall>ev. m = Inr (Some ev) \<longrightarrow> r = m)"
    using assms(2) m by (auto simp: monitor_epoll_event_def split: sum.splits option.splits)
  then show ?thesis using t by (auto simp: told_def)
qed

lemma failure_told: "scan_ok d \<Longrightarrow> failure_watch scan i d = (r, d') \<Longrightarrow> told d r d'"
proof -
  assume d: "scan_ok d" and f: "failure_watch scan i d = (r, d')"
  obtain e d1 where h: "hid_refresh scan (close_interfaces d (IF_BITS ! i)) = (e, d1)" by force
  have "scan_ok d1" by (rule scan_ok_refresh [OF scan_ok_close [OF d] h])
  moreover have "shrinks d d1"
    using close_shrinks [OF scan_ten [OF d]] refresh_shrinks [OF scan_ten [OF scan_ok_close [OF d]] h] shrinks_trans
    by blast
  ultimately show ?thesis using f h by (auto simp: failure_watch_def told_def)
qed

lemma same_open_told: "scan_ok d \<Longrightarrow> same_open d d' \<Longrightarrow> device_ok d' \<Longrightarrow> told d ev d'"
  using same_open_scan same_open_shrinks by (simp add: told_def)

lemma read_event_told:
  assumes "scan_ok d" "i < 10" "ii_fd (hi_inputs d ! i) \<ge> 0" "read_event env i e d = (r, d')"
  shows "told d r d'"
proof (cases "ii_awaiting_sync (hi_inputs d ! i) \<and> ie_type e = EV_SYN \<and> ie_code e = SYN_REPORT \<and> (\<exists>err. de_recovery env i = Inl err)")
  case True
  then have "failure_watch (de_scan env i) i d = (r, d')"
    using assms(4) by (auto simp: read_event_def Let_def)
  then show ?thesis by (rule failure_told [OF assms(1)])
next
  case False
  have "device_ok d'" using device_ok_read_event [OF _ assms(2-4)] assms(1) by (simp add: scan_ok_def)
  moreover have "same_open d d'"
    using assms(4) False same_open_set_input [OF scan_ten [OF assms(1)], of _ i]
      same_open_set_decoder [OF scan_ten [OF assms(1)], of i]
    by (auto simp: read_event_def Let_def split: if_splits sum.splits prod.splits)
  ultimately show ?thesis using same_open_told assms(1) by blast
qed

lemma read_one_told:
  assumes "scan_ok d" "i < 10" "read_one env i d = (r, d')"
  shows "told d r d'"
proof (cases "ii_fd (hi_inputs d ! i) < 0")
  case True
  then show ?thesis using assms by (auto simp: read_one_def told_def)
next
  case False
  then have "read_loop_one env i rs d = (r, d') \<Longrightarrow> told d r d'" for rs
    using assms(1,2)
    by (induction rs) (auto split: raw_read.splits intro: read_event_told failure_told told_refl)
  then show ?thesis using False assms(3) by (simp add: read_one_def)
qed

fun reported :: "int + hid_event \<Rightarrow> hid_event option" where
  "reported (Inr ev) = Some ev"
| "reported (Inl _) = None"

lemma told_after: "told d ev d' \<Longrightarrow> told d ev (after_event i d')"
proof -
  assume t: "told d ev d'"
  have "scan_ok (after_event i d')"
    using t device_ok_after [of d' i] by (auto simp: told_def after_event_def signal_recovery_if_pending_def scan_ok_def)
  then show ?thesis using t by (auto simp: told_def)
qed

lemma epoll_told: "scan_ok d \<Longrightarrow> epoll_loop env eps d = (r, d') \<Longrightarrow> told d (reported r) d'"
proof (induction env eps d rule: epoll_loop.induct)
  case (2 env tag events eps d)
  show ?case
  proof (cases "tag = MONITOR_EPOLL_TAG")
    case True
    obtain m d1 where m: "monitor_epoll_event events (de_root env) (de_udev env) d = (m, d1)" by force
    note t = monitor_epoll_told [OF "2.prems"(1) m]
    show ?thesis
    proof (cases "m = Inr None")
      case none: True
      then have "scan_ok d1" "epoll_loop env eps d1 = (r, d')" using t "2.prems"(2) True m by (auto simp: told_def)
      then have "told d1 (reported r) d'" using "2.IH"(1) [OF True m [symmetric] none refl] by simp
      then show ?thesis using told_trans t none by auto
    next
      case False
      then show ?thesis using t "2.prems"(2) True m by (auto split: sum.splits option.splits)
    qed
  next
    case nm: False
    show ?thesis
    proof (cases "tag = RECOVERY_EPOLL_TAG \<or> epoll_input_index tag 10 = None")
      case True
      then show ?thesis using 2 nm by (auto split: if_splits)
    next
      case False
      then obtain i where i: "epoll_input_index tag 10 = Some i" "tag \<noteq> RECOVERY_EPOLL_TAG" by auto
      obtain m d1 where m: "read_one env i d = (m, d1)" by force
      have "i < 10" using i(1) by (auto simp: epoll_input_index_def split: if_splits)
      note t = read_one_told [OF "2.prems"(1) this m]
      show ?thesis
      proof (cases m)
        case None
        then have "scan_ok d1" "epoll_loop env eps d1 = (r, d')" using t "2.prems"(2) nm i m by (auto simp: told_def)
        then have "told d1 (reported r) d'" using "2.IH"(4) [OF nm i(2) i(1) m [symmetric] None] by simp
        then show ?thesis using told_trans t None by blast
      next
        case (Some ev)
        then show ?thesis using t told_after "2.prems"(2) nm i m by auto
      qed
    qed
  qed
qed (simp add: told_def)

lemma scan_told: "scan_ok d \<Longrightarrow> list_all (\<lambda>i. i < 10) is \<Longrightarrow> recovered_scan is d = (r, d') \<Longrightarrow> device_ok d' \<Longrightarrow> same_open d d'"
proof -
  have "ten d \<Longrightarrow> recovered_scan is d = (r, d') \<Longrightarrow> same_open d d'"
  proof (induction "is" arbitrary: d)
    case (Cons i js)
    obtain m dec where t: "take_recovered (ii_decoder (hi_inputs d ! i)) = (m, dec)" by force
    note s = same_open_set_decoder [OF Cons.prems(1), of i dec]
    show ?case
    proof (cases m)
      case None
      then show ?thesis using Cons.IH [of "set_decoder d i dec"] Cons.prems t s same_open_trans by auto
    next
      case (Some ev)
      then show ?thesis using Cons.prems t s by auto
    qed
  qed simp
  then show "scan_ok d \<Longrightarrow> recovered_scan is d = (r, d') \<Longrightarrow> same_open d d'" using scan_ten by blast
qed

lemma dispatch_told:
  assumes "scan_ok d" "dispatch env d = (r, d')"
  shows "told d (reported r) d'"
proof -
  let ?order = "map (\<lambda>offset. (hi_next_input d + offset) mod 10) [0..<10]"
  let ?d = "d\<lparr>hi_wake := False\<rparr>"
  obtain q d1 where q: "recovered_scan ?order ?d = (q, d1)" by force
  have d: "scan_ok ?d" using assms(1) by (simp add: scan_ok_def)
  have dk: "device_ok d1" using device_ok_scan [of ?d ?order] q d by (simp add: list_all_iff scan_ok_def)
  have "same_open ?d d1" by (rule scan_told [OF d _ q dk]) (simp add: list_all_iff)
  then have so: "same_open d d1" by (simp add: same_open_def)
  then have t1: "told d ev d1" for ev using same_open_told assms(1) dk by blast
  show ?thesis
  proof (cases q)
    case None
    show ?thesis
    proof (cases "de_epoll env")
      case (Inl e)
      then show ?thesis using assms(2) q None t1 by (auto simp: dispatch_def)
    next
      case (Inr eps)
      then have "epoll_loop env (take 32 eps) d1 = (r, d')" using assms(2) q None by (simp add: dispatch_def)
      then have "told d1 (reported r) d'" 
        using epoll_told [of d1 env _ r d'] t1 [of None] by (simp add: told_def)
      then show ?thesis using told_trans t1 by blast
    qed
  next
    case (Some ie)
    then show ?thesis using assms(2) q t1 told_after by (auto simp: dispatch_def split: prod.splits)
  qed
qed

lemma scan_ok_open:
  assumes "scan_ok d" "open_interfaces env d m = (d', first, bits)"
  shows "scan_ok d'"
proof -
  have "device_ok d'" using device_ok_open [of d env m] assms by (simp add: scan_ok_def)
  moreover have "hi_nodes d' = hi_nodes d \<and> hi_available d' = hi_available d"
  proof -
    let ?P = "\<lambda>s. hi_nodes (fst s) = hi_nodes d \<and> hi_available (fst s) = hi_available d"
    have step: "?P s \<Longrightarrow> ?P (open_one env w q s i)" for s w q i
      by (cases s) (auto simp: open_one_def Let_def set_input_def upload_rumble_def
          split: sum.splits prod.splits option.splits)
    have "?P (foldl (open_one env (m AND WRITABLE \<noteq> 0) (m AND ALL_INTERFACES)) (d, 0) [0..<10])"
      by (rule foldl_keeps [where P = ?P]) (use step in auto)
    then show ?thesis using assms(2) by (auto simp: open_interfaces_def split: prod.splits)
  qed
  moreover have "ii_node (hi_inputs d' ! j) = ii_node (hi_inputs d ! j)
      \<and> ii_available (hi_inputs d' ! j) = ii_available (hi_inputs d ! j)" if "j < 10" for j
    using open_interfaces_inputs [OF scan_ten [OF assms(1)] assms(2)] that
    by (auto simp: open_input_def input_close_def reset_decoder_def Let_def split: sum.splits prod.splits option.splits)
  ultimately show ?thesis using assms(1) by (simp add: scan_ok_def)
qed

lemma scan_ok_start: "hid_refresh scan Interface_start = (None, d) \<Longrightarrow> scan_ok d \<and> opened d = 0"
proof -
  assume h: "hid_refresh scan Interface_start = (None, d)"
  have "ten Interface_start" using device_ok_start by (simp add: device_ok_def)
  then obtain nodes available where r: "ten d" "hi_nodes d = nodes" "hi_available d = available"
      "\<forall>j < 10. hi_inputs d ! j = refresh_input nodes available j (hi_inputs Interface_start ! j)"
    using h refresh_inputs [of Interface_start _ _ None d]
    by (cases scan) (auto simp: hid_refresh_def split: prod.splits)
  have "device_ok d" using device_ok_refresh [OF device_ok_start h] .
  then show ?thesis using r
    by (simp add: scan_ok_def refresh_input_def opened_zero refresh_requires_close_def Interface_start_def
        InputInterface_new_def)
qed

end
