(* ===== verification/Bridge_Facts.thy ===== *)
theory Bridge_Facts
  imports Bridge Device_Scan
begin

text \<open>
  What a bridged controller (\<open>crates/wiilandd/src/bridge.rs\<close>, \<open>uinput.rs\<close>) keeps true as long as
  it lives: the keys the kernel sees pressed on the virtual devices are those the engine wants, the
  masks it reports are what is open, and sensors opened for diagnosis do not act on the virtual
  devices.
\<close>

section \<open>What the kernel sees\<close>

text \<open>The pressed keys after the events of a virtual device; \<open>None\<close> for a meaningless event.\<close>

definition event_keys :: "nat set \<Rightarrow> input_event \<Rightarrow> nat set option" where
  "event_keys keys e =
    (if in_type e \<noteq> EV_KEY then Some keys
     else if in_value e = 1 then (if in_code e \<in> keys then None else Some (insert (in_code e) keys))
     else if in_code e \<notin> keys then None
     else if in_value e = 0 then Some (keys - {in_code e})
     else if in_value e = 2 then Some keys
     else None)"

primrec kernel_keys :: "nat set \<Rightarrow> input_event list \<Rightarrow> nat set option" where
  "kernel_keys keys [] = Some keys"
| "kernel_keys keys (e # es) =
    (case event_keys keys e of None \<Rightarrow> None | Some keys' \<Rightarrow> kernel_keys keys' es)"

lemma kernel_keys_append:
  "kernel_keys keys (as @ bs) =
    (case kernel_keys keys as of None \<Rightarrow> None | Some keys' \<Rightarrow> kernel_keys keys' bs)"
  by (induction as arbitrary: keys) (simp_all split: option.split)

lemma EV_types [simp]: "EV_SYN \<noteq> EV_KEY" "EV_REL \<noteq> EV_KEY" "EV_ABS \<noteq> EV_KEY"
  by (simp_all add: EV_SYN_def EV_KEY_def EV_REL_def EV_ABS_def)

lemma emit_event_None:
  "emit_event ty code v ws vd = (None, ws', vd') \<Longrightarrow>
    vd' = vd\<lparr>vd_events := vd_events vd @ [\<lparr>in_type = ty, in_code = code, in_value = v\<rparr>]\<rparr>"
  by (auto simp: emit_event_def split: prod.splits option.splits)

text \<open>The events an action becomes.\<close>

fun action_events :: "output_action \<Rightarrow> input_event list" where
  "action_events (OutKey _ code v) =
    [\<lparr>in_type = EV_KEY, in_code = code, in_value = int (min v 2)\<rparr>,
     \<lparr>in_type = EV_SYN, in_code = SYN_REPORT, in_value = 0\<rparr>]"
| "action_events (OutAbs _ code v) = [\<lparr>in_type = EV_ABS, in_code = code, in_value = v\<rparr>]"
| "action_events (OutRel _ code v) = (if v = 0 then [] else [\<lparr>in_type = EV_REL, in_code = code, in_value = v\<rparr>])"
| "action_events (OutSync _) = [\<lparr>in_type = EV_SYN, in_code = SYN_REPORT, in_value = 0\<rparr>]"

lemma emit_action_None:
  assumes "emit_action a ws vd = (None, ws', vd')"
  shows "vd' = vd\<lparr>vd_events := vd_events vd @ action_events a\<rparr>"
proof (cases a)
  case (OutKey t code v)
  obtain r ws1 vd1 where e: "emit_event EV_KEY code (int (min v 2)) ws vd = (r, ws1, vd1)" by (metis prod_cases3)
  then have "r = None" using assms OutKey
    by (cases r) (auto simp: emit_action_def emit_key_def then_emit_def)
  then show ?thesis using assms OutKey e
    by (auto simp: emit_action_def emit_key_def then_emit_def virtual_syn_def dest!: emit_event_None)
qed (use assms in \<open>auto simp: emit_action_def emit_abs_def emit_rel_def virtual_syn_def dest!: emit_event_None
      split: if_splits\<close>)

lemma emit_action_kind: "emit_action a ws vd = (r, ws', vd') \<Longrightarrow> vd_kind vd' = vd_kind vd \<and> vd_created vd' = vd_created vd"
  by (cases a) (auto simp: emit_action_def emit_key_def emit_abs_def emit_rel_def virtual_syn_def then_emit_def
      emit_event_def split: prod.splits option.splits if_splits)

lemma action_events_keys:
  assumes "key_effect (action_target a) keys a = Some keys'"
  shows "kernel_keys keys (action_events a) = Some keys'"
  using assms by (cases a) (auto simp: event_keys_def min_def split: if_splits)

lemma other_target: "action_target a \<noteq> dev \<Longrightarrow> key_effect dev keys a = Some keys"
  by (cases a) auto

text \<open>\<open>b'\<close> differs from \<open>b\<close> at most in its virtual devices, which exist in both or in neither.\<close>

definition without_outputs :: "bridge \<Rightarrow> bridge" where
  "without_outputs b = b\<lparr>br_gamepad := None, br_desktop := None\<rparr>"

definition outputs_only :: "bridge \<Rightarrow> bridge \<Rightarrow> bool" where
  "outputs_only b b' \<longleftrightarrow> without_outputs b' = without_outputs b
    \<and> (br_gamepad b' = None \<longleftrightarrow> br_gamepad b = None) \<and> (br_desktop b' = None \<longleftrightarrow> br_desktop b = None)"

lemma outputs_only_refl [simp]: "outputs_only b b"
  by (simp add: outputs_only_def)

lemma outputs_only_set:
  "outputs_only b0 b \<Longrightarrow> output_of dev b \<noteq> None \<Longrightarrow> outputs_only b0 (set_output dev vd b)"
  by (cases dev) (auto simp: outputs_only_def without_outputs_def)

lemma outputs_only_fields:
  assumes "outputs_only b b'"
  shows "br_engine b' = br_engine b" "br_iface b' = br_iface b" "br_profile b' = br_profile b"
    "br_config b' = br_config b" "br_opened b' = br_opened b" "br_pending b' = br_pending b"
    "br_capture b' = br_capture b" "br_outputs_enabled b' = br_outputs_enabled b"
    "br_syspath b' = br_syspath b" "br_trace b' = br_trace b"
    "output_of dev b' = None \<longleftrightarrow> output_of dev b = None"
  using assms by (cases b; cases b'; cases dev; simp add: outputs_only_def without_outputs_def)+

lemma output_of_set [simp]:
  "output_of dev (set_output dev' vd b) = (if dev = dev' then Some vd else output_of dev b)"
  by (cases dev; cases dev') auto

text \<open>A completed run of actions appends to each device exactly its own actions' events.\<close>

lemma run_actions_events:
  "outputs_only b0 b \<Longrightarrow> run_actions as ws b = (None, ws', b') \<Longrightarrow>
    outputs_only b0 b' \<and> (\<forall>dev vd. output_of dev b = Some vd \<longrightarrow>
      output_of dev b' = Some (vd\<lparr>vd_events := vd_events vd @ concat (map action_events (filter (\<lambda>a. action_target a = dev) as))\<rparr>))"
proof (induction as arbitrary: ws b)
  case Nil
  then show ?case by simp
next
  case (Cons a as)
  show ?case
  proof (cases "output_of (action_target a) b")
    case None
    then have "run_actions as ws b = (None, ws', b')" using Cons.prems(2) by simp
    from Cons.IH [OF Cons.prems(1) this] None show ?thesis by auto
  next
    case (Some vd)
    obtain r ws1 vd1 where e: "emit_action a ws vd = (r, ws1, vd1)" by (metis prod_cases3)
    then have r: "r = None" "run_actions as ws1 (set_output (action_target a) vd1 b) = (None, ws', b')"
      using Cons.prems(2) Some by (auto split: option.splits)
    note vd1 = emit_action_None [OF e [unfolded r(1)]]
    have "outputs_only b0 (set_output (action_target a) vd1 b)" using outputs_only_set Cons.prems(1) Some by auto
    from Cons.IH [OF this r(2)] show ?thesis using vd1 Some by (auto split: if_splits)
  qed
qed

lemma replay_events:
  "replay_keys dev keys as = Some keys' \<Longrightarrow>
    kernel_keys keys (concat (map action_events (filter (\<lambda>a. action_target a = dev) as))) = Some keys'"
proof (induction as arbitrary: keys)
  case (Cons a as)
  then obtain k1 where k: "key_effect dev keys a = Some k1" "replay_keys dev k1 as = Some keys'"
    by (auto split: option.splits)
  show ?case
  proof (cases "action_target a = dev")
    case True
    then show ?thesis using Cons.IH [OF k(2)] k(1) action_events_keys [of a keys k1]
      by (simp add: kernel_keys_append)
  next
    case False
    then show ?thesis using Cons.IH [OF k(2)] k(1) other_target [OF False] by simp
  qed
qed simp


section \<open>The virtual devices\<close>

fun needed :: "output_device \<Rightarrow> bridge \<Rightarrow> bool" where
  "needed DevGamepad b \<longleftrightarrow> needs_gamepad (br_profile b) (br_config b)"
| "needed DevDesktop b \<longleftrightarrow> needs_desktop (br_profile b) (br_config b)"

definition keys_ok :: "bridge \<Rightarrow> output_device \<Rightarrow> bool" where
  "keys_ok b dev \<longleftrightarrow>
    (case output_of dev b of
       None \<Rightarrow> \<not> (br_outputs_enabled b \<and> needed dev b)
     | Some vd \<Rightarrow> br_outputs_enabled b \<and> needed dev b \<and> vd_created vd
         \<and> kernel_keys {} (vd_events vd) = Some (wanted_keys dev (br_engine b)))"

definition outputs_ok :: "bridge \<Rightarrow> bool" where
  "outputs_ok b \<longleftrightarrow> eng_config (br_engine b) = br_config b \<and> eng_profile (br_engine b) = br_profile b
    \<and> six (br_engine b) \<and> (\<forall>dev. keys_ok b dev)"

lemma process_ok:
  assumes "outputs_ok b" "input \<noteq> InReset" "process input ws b = (None, ws', b')"
  shows "outputs_ok b' \<and> outputs_only (b\<lparr>br_engine := br_engine b'\<rparr>) b'"
proof -
  obtain e actions where p: "engine_process (br_engine b) input = (e, actions)" by force
  let ?b = "b\<lparr>br_engine := e\<rparr>"
  have six: "six (br_engine b)" using assms(1) by (simp add: outputs_ok_def)
  have e: "eng_config e = br_config b" "eng_profile e = br_profile b" "six e"
    using engine_process_fields [of "br_engine b" input] assms(1) p by (auto simp: outputs_ok_def)
  have same: "needed dev (b\<lparr>br_engine := x\<rparr>) = needed dev b" "output_of dev (b\<lparr>br_engine := x\<rparr>) = output_of dev b" for dev x
    by (cases dev; simp)+
  show ?thesis
  proof (cases "br_outputs_enabled b")
    case False
    then have b': "b' = ?b" using assms(3) p by (simp add: process_def)
    have "keys_ok ?b dev" for dev
      using assms(1) False same [of dev] by (auto simp: outputs_ok_def keys_ok_def split: option.splits)
    then show ?thesis using e b' by (simp add: outputs_ok_def)
  next
    case True
    then have r: "run_actions actions ws ?b = (None, ws', b')" using assms(3) p by (simp add: process_def)
    note ra = run_actions_events [OF outputs_only_refl r]
    have f: "br_engine b' = e" "br_outputs_enabled b' = br_outputs_enabled b" "br_profile b' = br_profile b"
        "br_config b' = br_config b"
      using outputs_only_fields [OF conjunct1 [OF ra]] by simp_all
    have "keys_ok b' dev" for dev
    proof -
      have nd: "needed dev b' = needed dev b" using f by (cases dev) simp_all
      have none: "output_of dev b' = None \<longleftrightarrow> output_of dev b = None"
        using outputs_only_fields(11) [OF conjunct1 [OF ra], of dev] same by simp
      have kb: "keys_ok b dev" using assms(1) by (simp add: outputs_ok_def)
      show ?thesis
      proof (cases "output_of dev b")
        case None
        then show ?thesis using kb none nd f by (simp add: keys_ok_def)
      next
        case (Some vd)
        have "replay_keys dev (wanted_keys dev (br_engine b)) actions = Some (wanted_keys dev e)"
          using replay_engine_process [of "br_engine b" input dev] six assms(2) p by simp
        then have "kernel_keys {} (vd_events vd @ concat (map action_events (filter (\<lambda>a. action_target a = dev) actions)))
            = Some (wanted_keys dev e)"
          using replay_events kb Some by (simp add: keys_ok_def kernel_keys_append)
        then show ?thesis using ra Some same [of dev e] kb nd f by (simp add: keys_ok_def)
      qed
    qed
    moreover have "outputs_only (b\<lparr>br_engine := br_engine b'\<rparr>) b'" using ra f by simp
    ultimately show ?thesis using e f by (simp add: outputs_ok_def)
  qed
qed

section \<open>The masks\<close>

text \<open>The reported masks are the truth: what is open, and what is still wanted.\<close>

definition masks_ok :: "bridge \<Rightarrow> bool" where
  "masks_ok b \<longleftrightarrow> scan_ok (br_iface b) \<and> br_opened b = opened (br_iface b)
    \<and> br_pending b = bridge_requested b AND NOT (br_opened b)
    \<and> (\<forall>k. bit (br_opened b) k \<longrightarrow> bit (bridge_requested b) k)"

lemma open_bits:
  assumes "scan_ok d" "open_interfaces env d m = (d', first, bits)"
  shows "scan_ok d' \<and> bits = opened d' \<and> (\<forall>k. bit (opened d) k \<longrightarrow> bit bits k)
    \<and> (\<forall>k. bit bits k \<longrightarrow> bit (opened d) k \<or> bit m k)"
proof -
  note o = open_interfaces_inputs [OF scan_ten [OF assms(1)] assms(2)]
  have "ii_fd x \<ge> 0 \<Longrightarrow> fst (open_input env w m j x) = x"
      "\<not> bit m (if_index j) \<Longrightarrow> fst (open_input env w m j x) = x" for w j x
    by (simp_all add: open_input_def)
  then show ?thesis using o scan_ok_open [OF assms] by (auto simp: bit_opened)
qed

lemma outputs_ok_cong:
  assumes "br_gamepad b' = br_gamepad b" "br_desktop b' = br_desktop b" "br_engine b' = br_engine b"
    "br_profile b' = br_profile b" "br_config b' = br_config b" "br_outputs_enabled b' = br_outputs_enabled b"
  shows "outputs_ok b' = outputs_ok b"
proof -
  have "output_of dev b' = output_of dev b" "needed dev b' = needed dev b" for dev
    using assms by (cases dev; simp)+
  then show ?thesis using assms(3-6) by (simp add: outputs_ok_def keys_ok_def cong: option.case_cong)
qed

lemma retry_open_ok:
  assumes "masks_ok b" "retry_open env b = (r, b')"
  shows "masks_ok b' \<and> br_capture b' = br_capture b \<and> (outputs_ok b \<longrightarrow> outputs_ok b')
    \<and> br_profile b' = br_profile b \<and> br_config b' = br_config b"
proof (cases "br_pending b = 0")
  case True
  then show ?thesis using assms by (simp add: retry_open_def)
next
  case False
  obtain d first bits where o: "open_interfaces (be_open env) (br_iface b) (br_pending b) = (d, first, bits)"
    by (metis prod_cases3)
  have sc: "scan_ok (br_iface b)" using assms(1) by (simp add: masks_ok_def)
  note ob = open_bits [OF sc o]
  have b': "b' = b\<lparr>br_iface := d, br_opened := bits, br_pending := br_pending b AND NOT bits\<rparr>"
    using assms(2) False o by (auto simp: retry_open_def Let_def split: if_splits)
  have req: "bridge_requested b' = bridge_requested b" by (simp add: b' bridge_requested_def)
  have "br_pending b AND NOT bits = bridge_requested b AND NOT bits"
    by (rule bit_eqI) (use assms(1) ob in \<open>auto simp: masks_ok_def bit_and_iff bit_not_iff\<close>)
  moreover have "bit bits k \<Longrightarrow> bit (bridge_requested b) k" for k
    using ob assms(1) by (auto simp: masks_ok_def bit_and_iff)
  ultimately have "masks_ok b'" using ob req by (simp add: masks_ok_def b')
  moreover have "outputs_ok b' = outputs_ok b" by (rule outputs_ok_cong) (simp_all add: b')
  ultimately show ?thesis by (simp add: b')
qed

lemma set_capture_ok:
  assumes "masks_ok b" "set_capture env enabled b = (r, b')"
  shows "masks_ok b' \<and> br_capture b' = enabled \<and> (outputs_ok b \<longrightarrow> outputs_ok b')
    \<and> br_profile b' = br_profile b \<and> br_config b' = br_config b"
proof (cases "enabled = br_capture b")
  case True
  then show ?thesis using assms by (simp add: set_capture_def)
next
  case False
  define b1 where "b1 = b\<lparr>br_capture := enabled\<rparr>"
  define d where "d = close_interfaces (br_iface b1) (opened (br_iface b1) AND NOT (bridge_requested b1))"
  define b2 where "b2 = b1\<lparr>br_iface := d, br_opened := opened d, br_pending := bridge_requested b1 AND NOT (opened d)\<rparr>"
  have sc: "scan_ok (br_iface b1)" using assms(1) by (simp add: masks_ok_def b1_def)
  have "opened d = opened (br_iface b1) AND NOT (opened (br_iface b1) AND NOT (bridge_requested b1))"
    unfolding d_def by (rule close_opened [OF scan_ten [OF sc]])
  then have "bit (opened d) k \<Longrightarrow> bit (bridge_requested b1) k" for k
    by (auto simp: bit_and_iff bit_or_iff bit_not_iff dest: bit_imp_le_length)
  moreover have "bridge_requested b2 = bridge_requested b1" by (simp add: b2_def bridge_requested_def)
  moreover have "scan_ok d" unfolding d_def by (rule scan_ok_close [OF sc])
  ultimately have "masks_ok b2" by (simp add: masks_ok_def b2_def)
  moreover have "retry_open env b2 = (r, b')" using assms(2) False by (simp add: set_capture_def Let_def b1_def b2_def d_def)
  moreover have "outputs_ok b2 = outputs_ok b" by (rule outputs_ok_cong) (simp_all add: b1_def b2_def)
  ultimately show ?thesis using retry_open_ok [of b2 env r b'] by (simp add: b2_def b1_def)
qed

lemma create_one_ok:
  "create_one n env kind = Inr v \<Longrightarrow>
    (if n then v = Some \<lparr>vd_kind = kind, vd_created = True, vd_events = []\<rparr> else v = None)"
  by (auto simp: create_one_def virtual_create_def Let_def split: sum.splits option.splits prod.splits if_splits)

lemma create_outputs_ok:
  assumes "create_outputs p c env enabled = Inr (g, k)"
  shows "g = (if enabled \<and> needs_gamepad p c then Some \<lparr>vd_kind = VkController, vd_created = True, vd_events = []\<rparr> else None)
    \<and> k = (if enabled \<and> needs_desktop p c then Some \<lparr>vd_kind = VkDesktop, vd_created = True, vd_events = []\<rparr> else None)"
  using assms by (auto simp: create_outputs_def split: if_splits sum.splits dest!: create_one_ok)

lemma fresh_outputs_ok:
  assumes "create_outputs (br_profile b) (br_config b) env (br_outputs_enabled b) = Inr (br_gamepad b, br_desktop b)"
    and "eng_config (br_engine b) = br_config b" "eng_profile (br_engine b) = br_profile b" "six (br_engine b)"
    and none: "\<And>s x. \<not> holds (br_engine b) s x"
  shows "outputs_ok b"
proof -
  have w: "wanted_keys dev (br_engine b) = {}" for dev using none by (cases dev) (simp_all add: held_any_def)
  have "keys_ok b dev" for dev
    using create_outputs_ok [OF assms(1)] w [of dev] by (cases dev) (simp_all add: keys_ok_def del: wanted_keys.simps)
  then show ?thesis using assms(2-4) by (simp add: outputs_ok_def)
qed

lemma handle_watch_ok:
  assumes "outputs_ok b" "scan_ok (br_iface b)" "\<And>k. bit (opened (br_iface b)) k \<Longrightarrow> bit (bridge_requested b) k"
    and "handle_watch env b = (None, b')"
  shows "masks_ok b' \<and> outputs_ok b' \<and> br_capture b' = br_capture b \<and> br_profile b' = br_profile b \<and> br_config b' = br_config b"
proof -
  define lost where "lost = br_opened b AND NOT (opened (br_iface b)) AND requested_interfaces (br_profile b) (br_config b)"
  define b0 where "b0 = b\<lparr>br_gamepad := None, br_desktop := None, br_engine := fst (engine_process (br_engine b) InReset)\<rparr>"
  obtain e b1 where e: "(if lost \<noteq> 0 then recreate_outputs env b0 else (None, b)) = (e, b1)" by force
  have hw: "handle_watch env b = (case e of Some code \<Rightarrow> (Some code, b1) | None \<Rightarrow>
      retry_open env (b1\<lparr>br_opened := opened (br_iface b), br_pending := bridge_requested b1 AND NOT (opened (br_iface b))\<rparr>))"
    by (simp only: handle_watch_def Let_def lost_def [symmetric] b0_def [symmetric] e prod.case)
  have en: "e = None" using assms(4) hw by (cases e) auto
  have keep: "outputs_ok b1 \<and> br_iface b1 = br_iface b \<and> br_capture b1 = br_capture b \<and> br_profile b1 = br_profile b
      \<and> br_config b1 = br_config b"
  proof (cases "lost = 0")
    case True
    then show ?thesis using e assms(1) by simp
  next
    case False
    have p: "eng_config (br_engine b) = br_config b" "eng_profile (br_engine b) = br_profile b" "six (br_engine b)"
      using assms(1) by (auto simp: outputs_ok_def)
    obtain g k where gk: "create_outputs (br_profile b0) (br_config b0) env (br_outputs_enabled b0) = Inr (g, k)"
        "b1 = b0\<lparr>br_gamepad := g, br_desktop := k\<rparr>"
      using e False en by (auto simp: recreate_outputs_def split: sum.splits)
    have "\<not> holds (fst (engine_process (br_engine b) InReset)) s x" for s x
      using holds_engine_process [OF p(3), of InReset s x] by simp
    then have "outputs_ok b1" using gk p engine_process_fields [of "br_engine b" InReset]
      by (intro fresh_outputs_ok [where env = env]) (simp_all add: b0_def del: engine_process.simps)
    then show ?thesis by (simp add: gk(2) b0_def)
  qed
  define b2 where "b2 = b1\<lparr>br_opened := opened (br_iface b), br_pending := bridge_requested b1 AND NOT (opened (br_iface b))\<rparr>"
  have "retry_open env b2 = (None, b')"
    using assms(4) hw en by (simp add: b2_def)
  moreover have "bridge_requested b2 = bridge_requested b1" "bridge_requested b1 = bridge_requested b"
    using keep by (simp_all add: b2_def bridge_requested_def)
  then have "masks_ok b2" using assms(2,3) keep by (simp add: masks_ok_def b2_def)
  moreover have "outputs_ok b2 = outputs_ok b1" by (rule outputs_ok_cong) (simp_all add: b2_def)
  ultimately show ?thesis using retry_open_ok [of b2 env None b'] keep by (simp add: b2_def)
qed

section \<open>Events\<close>

definition bridge_ok :: "bridge \<Rightarrow> bool" where
  "bridge_ok b \<longleftrightarrow> outputs_ok b \<and> masks_ok b"

definition same_identity :: "bridge \<Rightarrow> bridge \<Rightarrow> bool" where
  "same_identity b b' \<longleftrightarrow> br_profile b' = br_profile b \<and> br_config b' = br_config b
    \<and> br_outputs_enabled b' = br_outputs_enabled b \<and> br_syspath b' = br_syspath b"

lemma masks_ok_cong:
  assumes "br_iface b' = br_iface b" "br_opened b' = br_opened b" "br_pending b' = br_pending b"
    "br_capture b' = br_capture b" "br_profile b' = br_profile b" "br_config b' = br_config b"
  shows "masks_ok b' = masks_ok b"
  using assms by (simp add: masks_ok_def bridge_requested_def)

lemma process_bridge_ok:
  assumes "bridge_ok b" "input \<noteq> InReset" "process input ws b = (None, ws', b')"
  shows "bridge_ok b'"
proof -
  note p = process_ok [OF _ assms(2,3)]
  have "outputs_only (b\<lparr>br_engine := br_engine b'\<rparr>) b'" using p assms(1) by (simp add: bridge_ok_def)
  note f = outputs_only_fields [OF this]
  have "masks_ok b' = masks_ok b" by (rule masks_ok_cong) (simp_all add: f(2-7))
  then show ?thesis using p assms(1) by (simp add: bridge_ok_def)
qed

lemma engine_input_not_reset: "engine_input_of kind = Some input \<Longrightarrow> input \<noteq> InReset \<and> (\<forall>s. input \<noteq> InSourceRemoved s)"
  by (cases kind) (auto simp: engine_input_of_def ir_input_def)

lemma handle_event_ok:
  assumes b: "outputs_ok b" "scan_ok (br_iface b)" "\<And>k. bit (opened (br_iface b)) k \<Longrightarrow> bit (bridge_requested b) k"
    and quiet: "kind \<noteq> EWatch \<Longrightarrow> masks_ok b"
    and h: "handle_event env kind ws b = (Inr BridgeContinue, ws', b')"
  shows "bridge_ok b'"
proof (cases "kind = EWatch")
  case True
  obtain e b1 where w: "handle_watch env b = (e, b1)" by force
  then have "e = None \<and> b1 = b'" using h True by (auto simp: handle_event_def split: option.splits)
  then show ?thesis using handle_watch_ok [OF b, of env b'] w by (simp add: bridge_ok_def)
next
  case False
  then have ok: "bridge_ok b" using quiet b(1) by (simp add: bridge_ok_def)
  have ng: "kind \<noteq> EGone" using h by (auto simp: handle_event_def)
  let ?i = "if forwards_to_engine kind (br_profile b) (br_config b) then engine_input_of kind else None"
  have he: "handle_event env kind ws b = (case ?i of None \<Rightarrow> (Inr BridgeContinue, ws, b)
      | Some input \<Rightarrow> (case process input ws b of (Some e, ws', b') \<Rightarrow> (Inl e, ws', b')
          | (None, ws', b') \<Rightarrow> (Inr BridgeContinue, ws', b')))"
    using False ng by (cases kind) (simp_all only: handle_event_def event_kind.case, auto)
  show ?thesis
  proof (cases ?i)
    case None
    then show ?thesis using he h ok by auto
  next
    case (Some input)
    obtain e ws1 b1 where p: "process input ws b = (e, ws1, b1)" by (metis prod_cases3)
    have "e = None \<and> b1 = b'" using he h Some p by (auto split: option.splits)
    then show ?thesis using process_bridge_ok [OF ok _ ] engine_input_not_reset Some p
      by (metis option.distinct(1))
  qed
qed

lemma drain_step_ok:
  assumes "bridge_ok b" "dispatch denv (br_iface b) = (r, d)"
  shows "outputs_ok (b\<lparr>br_iface := d\<rparr>) \<and> scan_ok d \<and> (\<forall>k. bit (opened d) k \<longrightarrow> bit (bridge_requested (b\<lparr>br_iface := d\<rparr>)) k)
    \<and> (\<not> tells (reported r) \<longrightarrow> masks_ok (b\<lparr>br_iface := d\<rparr>))"
proof -
  have m: "masks_ok b" "outputs_ok b" using assms(1) by (simp_all add: bridge_ok_def)
  have t: "told (br_iface b) (reported r) d"
    by (rule dispatch_told [OF _ assms(2)]) (use m(1) in \<open>simp add: masks_ok_def\<close>)
  have "outputs_ok (b\<lparr>br_iface := d\<rparr>) = outputs_ok b" by (rule outputs_ok_cong) simp_all
  moreover have req: "bridge_requested (b\<lparr>br_iface := d\<rparr>) = bridge_requested b" by (simp add: bridge_requested_def)
  moreover have "bit (opened d) k \<Longrightarrow> bit (bridge_requested b) k" for k
    using t m(1) shrinks_opened by (auto simp: told_def masks_ok_def)
  moreover have "masks_ok (b\<lparr>br_iface := d\<rparr>)" if "\<not> tells (reported r)"
    using that t m(1) same_open_opened [of "br_iface b" d] req by (simp add: told_def masks_ok_def)
  ultimately show ?thesis using t m(2) by (simp add: told_def)
qed

lemma drain_loop_ok:
  "bridge_ok b \<Longrightarrow> dn_result (drain_loop n envs k ws q b) = Inr BridgeContinue \<Longrightarrow>
    bridge_ok (dn_bridge (drain_loop n envs k ws q b))"
proof (induction n arbitrary: k ws q b)
  case (Suc n)
  obtain r d where d: "dispatch (dr_dispatch (envs k)) (br_iface b) = (r, d)" by force
  note st = drain_step_ok [OF Suc.prems(1) d]
  show ?case
  proof (cases r)
    case (Inl e)
    then have "bridge_ok (b\<lparr>br_iface := d\<rparr>)" using st by (simp add: bridge_ok_def)
    then show ?thesis using d Inl by simp
  next
    case (Inr ev)
    obtain q1 lines where t: "bridge_trace q (dr_now (envs k)) (ev_kind ev) b = (q1, lines)" by force
    obtain a ws1 b1 where h: "handle_event (dr_bridge (envs k)) (ev_kind ev) ws (b\<lparr>br_iface := d\<rparr>) = (a, ws1, b1)"
      by (metis prod_cases3)
    have ac: "a = Inr BridgeContinue" using Suc.prems(2) d Inr t h by (auto simp: Let_def split: if_splits)
    have "bridge_ok b1"
    proof (cases "ev_kind ev = EGone")
      case True
      then show ?thesis using h ac by (simp add: handle_event_def)
    next
      case False
      show ?thesis by (rule handle_event_ok [OF _ _ _ _ h [unfolded ac]]) (use st Inr False in auto)
    qed
    then show ?thesis using Suc.IH [of b1 "Suc k" ws1 q1] Suc.prems(2) d Inr t h ac by (simp add: Let_def)
  qed
qed simp

section \<open>A bridge's life\<close>

text \<open>
  The bridges of a configuration: created on a controller just found, then any sequence of
  successful drains of events of the kind \<open>ok\<close>, pointer ticks, and changes of capture and trace,
  which the daemon survives also when they fail to open everything.
\<close>

inductive bridge_reachable :: "(event_kind \<Rightarrow> bool) \<Rightarrow> config \<Rightarrow> bool \<Rightarrow> bridge \<Rightarrow> bool"
  for ok :: "event_kind \<Rightarrow> bool" and c :: config and enabled :: bool where
  bridge_created: "hid_refresh scan Interface_start = (None, d) \<Longrightarrow> bs_interface setup = Inr d \<Longrightarrow>
    bridge_new env setup c enabled = Inr b \<Longrightarrow> bridge_reachable ok c enabled b"
| bridge_drained: "bridge_reachable ok c enabled b \<Longrightarrow> drain_with envs ws q b = dn \<Longrightarrow>
    list_all (\<lambda>ev. ok (ev_kind ev)) (dn_events dn) \<Longrightarrow> dn_result dn = Inr BridgeContinue \<Longrightarrow>
    bridge_reachable ok c enabled (dn_bridge dn)"
| bridge_ticked: "bridge_reachable ok c enabled b \<Longrightarrow> tick_pointer ws b = (None, ws', b') \<Longrightarrow>
    bridge_reachable ok c enabled b'"
| bridge_captured: "bridge_reachable ok c enabled b \<Longrightarrow> set_capture env on b = (r, b') \<Longrightarrow>
    bridge_reachable ok c enabled b'"
| bridge_traced: "bridge_reachable ok c enabled b \<Longrightarrow> bridge_reachable ok c enabled (b\<lparr>br_trace := flt\<rparr>)"

lemma bridge_new_ok:
  assumes "scan_ok d" "opened d = 0" "bs_interface setup = Inr d" "bridge_new env setup c enabled = Inr b"
  shows "bridge_ok b \<and> Config_validate c = None \<and> br_config b = c \<and> br_outputs_enabled b = enabled
    \<and> br_engine b = DeviceEngine_new c (br_profile b)"
proof -
  define p where "p = bridge_profile c (bs_syspath setup) (bs_devtype setup)"
  obtain e d1 where w: "hid_watch True (bs_watch setup) d = (e, d1)" by force
  obtain d2 first bits where o: "open_interfaces (be_open env) d1 (requested_interfaces p c) = (d2, first, bits)"
    by (metis prod_cases3)
  have v: "Config_validate c = None" using assms(4) by (auto simp: bridge_new_def split: if_splits)
  have e: "e = None" using assms(3,4) v w by (cases e) (auto simp: bridge_new_def Let_def)
  obtain g k where gk: "create_outputs p c env enabled = Inr (g, k)"
    using assms(3,4) v w e o by (auto simp: bridge_new_def Let_def p_def split: if_splits sum.splits)
  have b: "b = \<lparr>br_syspath = bs_syspath setup, br_profile = p, br_iface = d2, br_gamepad = g, br_desktop = k,
      br_engine = DeviceEngine_new c p, br_opened = bits, br_pending = requested_interfaces p c AND NOT bits,
      br_trace = None, br_config = c, br_outputs_enabled = enabled, br_capture = False\<rparr>"
    using assms(3,4) v w e o gk by (auto simp: bridge_new_def Let_def p_def split: if_splits)
  have d1: "scan_ok d1 \<and> opened d1 = 0" using w assms(1,2) e
    by (auto simp: hid_watch_def scan_ok_def opened_zero split: if_splits option.splits)
  have "scan_ok d2 \<and> bits = opened d2 \<and> (\<forall>n. bit bits n \<longrightarrow> bit (requested_interfaces p c) n)"
    using open_bits [OF conjunct1 [OF d1] o] d1 by simp
  then have "masks_ok b" by (simp add: b masks_ok_def bridge_requested_def)
  moreover have "outputs_ok b"
    by (rule fresh_outputs_ok [where env = env])
      (use gk new_engine_empty in \<open>simp_all add: b DeviceEngine_new_def\<close>)
  ultimately show ?thesis using v by (simp add: bridge_ok_def b)
qed

lemma reachable_bridge_ok: "bridge_reachable ok c enabled b \<Longrightarrow> bridge_ok b"
proof (induction rule: bridge_reachable.induct)
  case (bridge_created scan d su env b)
  then show ?case using bridge_new_ok [of d su env c enabled b] scan_ok_start by blast
next
  case (bridge_drained b envs ws q dn)
  then show ?case using drain_loop_ok by (auto simp: drain_with_def)
next
  case (bridge_ticked b ws ws' b')
  then show ?case using process_bridge_ok [of b InPointerTick ws ws' b'] by (simp add: tick_pointer_def)
next
  case (bridge_captured b env en r b')
  then show ?case using set_capture_ok by (auto simp: bridge_ok_def)
next
  case (bridge_traced b flt)
  have "outputs_ok (b\<lparr>br_trace := flt\<rparr>) = outputs_ok b" by (rule outputs_ok_cong) simp_all
  moreover have "masks_ok (b\<lparr>br_trace := flt\<rparr>) = masks_ok b" by (rule masks_ok_cong) simp_all
  ultimately show ?case using bridge_traced by (simp add: bridge_ok_def)
qed

end
