(* ===== verification/Bridge_Properties.thy ===== *)
theory Bridge_Properties
  imports Bridge_Facts Device_Properties
begin

text \<open>
  The properties of a bridged controller (\<open>crates/wiilandd/src/bridge.rs\<close>, \<open>uinput.rs\<close>) over its
  whole life, with their witnesses.
\<close>

section \<open>What never changes\<close>

lemma retry_open_identity: "retry_open env b = (r, b') \<Longrightarrow> same_identity b b' \<and> br_engine b' = br_engine b
    \<and> br_gamepad b' = br_gamepad b \<and> br_desktop b' = br_desktop b"
  by (auto simp: retry_open_def same_identity_def Let_def split: if_splits prod.splits)

lemma set_capture_identity: "set_capture env en b = (r, b') \<Longrightarrow> same_identity b b' \<and> br_engine b' = br_engine b
    \<and> br_gamepad b' = br_gamepad b \<and> br_desktop b' = br_desktop b"
  by (auto simp: set_capture_def same_identity_def Let_def split: if_splits dest!: retry_open_identity)

lemma recreate_identity: "recreate_outputs env b = (r, b') \<Longrightarrow> same_identity b b' \<and> br_engine b' = br_engine b"
  by (auto simp: recreate_outputs_def same_identity_def split: sum.splits)

lemma same_identity_refl [simp]: "same_identity b b" by (simp add: same_identity_def)

lemma same_identity_trans: "same_identity a b \<Longrightarrow> same_identity b c \<Longrightarrow> same_identity a c"
  by (simp add: same_identity_def)

lemma same_identity_fields [simp]:
  "same_identity b (b'\<lparr>br_iface := d\<rparr>) = same_identity b b'" "same_identity (b\<lparr>br_iface := d\<rparr>) b' = same_identity b b'"
  "same_identity b (b'\<lparr>br_opened := m\<rparr>) = same_identity b b'" "same_identity (b\<lparr>br_opened := m\<rparr>) b' = same_identity b b'"
  "same_identity b (b'\<lparr>br_pending := m\<rparr>) = same_identity b b'" "same_identity (b\<lparr>br_pending := m\<rparr>) b' = same_identity b b'"
  "same_identity b (b'\<lparr>br_engine := e\<rparr>) = same_identity b b'" "same_identity (b\<lparr>br_engine := e\<rparr>) b' = same_identity b b'"
  "same_identity b (b'\<lparr>br_gamepad := v\<rparr>) = same_identity b b'" "same_identity (b\<lparr>br_gamepad := v\<rparr>) b' = same_identity b b'"
  "same_identity b (b'\<lparr>br_desktop := v\<rparr>) = same_identity b b'" "same_identity (b\<lparr>br_desktop := v\<rparr>) b' = same_identity b b'"
  "same_identity b (b'\<lparr>br_trace := t\<rparr>) = same_identity b b'"
  by (simp_all add: same_identity_def)

lemma handle_watch_engine:
  assumes "handle_watch env b = (r, b')"
  shows "same_identity b b' \<and> (br_engine b' = br_engine b \<and> br_gamepad b' = br_gamepad b \<and> br_desktop b' = br_desktop b
    \<or> br_engine b' = fst (engine_process (br_engine b) InReset)
      \<and> (br_gamepad b' = None \<and> br_desktop b' = None
         \<or> create_outputs (br_profile b) (br_config b) env (br_outputs_enabled b) = Inr (br_gamepad b', br_desktop b')))"
proof -
  let ?lost = "br_opened b AND NOT (opened (br_iface b)) AND requested_interfaces (br_profile b) (br_config b)"
  let ?b0 = "b\<lparr>br_gamepad := None, br_desktop := None, br_engine := fst (engine_process (br_engine b) InReset)\<rparr>"
  obtain e b1 where e: "(if ?lost \<noteq> 0 then recreate_outputs env ?b0 else (None, b)) = (e, b1)" by force
  have hw: "handle_watch env b = (case e of Some code \<Rightarrow> (Some code, b1) | None \<Rightarrow>
      retry_open env (b1\<lparr>br_opened := opened (br_iface b), br_pending := bridge_requested b1 AND NOT (opened (br_iface b))\<rparr>))"
    by (simp only: handle_watch_def Let_def e prod.case)
  have b1: "same_identity b b1 \<and> (b1 = b \<or> br_engine b1 = fst (engine_process (br_engine b) InReset)
      \<and> (br_gamepad b1 = None \<and> br_desktop b1 = None
         \<or> create_outputs (br_profile b) (br_config b) env (br_outputs_enabled b) = Inr (br_gamepad b1, br_desktop b1)))"
    using e by (auto simp: recreate_outputs_def same_identity_def split: if_splits sum.splits)
  show ?thesis
  proof (cases e)
    case None
    then have "retry_open env (b1\<lparr>br_opened := opened (br_iface b),
        br_pending := bridge_requested b1 AND NOT (opened (br_iface b))\<rparr>) = (r, b')" using hw assms by simp
    from retry_open_identity [OF this] show ?thesis using b1 same_identity_trans by auto
  next
    case (Some code)
    then show ?thesis using hw assms b1 by auto
  qed
qed

lemma run_actions_identity: "run_actions as ws b = (r, ws', b') \<Longrightarrow> same_identity b b' \<and> br_engine b' = br_engine b"
proof (induction as arbitrary: ws b)
  case (Cons a as)
  have s: "same_identity b (set_output dev vd b) \<and> br_engine (set_output dev vd b) = br_engine b" for dev vd
    by (cases dev) simp_all
  show ?case
  proof (cases "output_of (action_target a) b")
    case None
    then show ?thesis using Cons by simp
  next
    case (Some vd)
    obtain q ws1 vd1 where e: "emit_action a ws vd = (q, ws1, vd1)" by (metis prod_cases3)
    show ?thesis
    proof (cases q)
      case None
      then have "run_actions as ws1 (set_output (action_target a) vd1 b) = (r, ws', b')" using Cons.prems Some e by simp
      from Cons.IH [OF this] show ?thesis using s same_identity_trans by metis
    next
      case (Some code)
      then show ?thesis using Cons.prems \<open>output_of (action_target a) b = Some vd\<close> e s by auto
    qed
  qed
qed simp

lemma process_identity:
  assumes "process input ws b = (r, ws', b')"
  shows "same_identity b b' \<and> br_engine b' = fst (engine_process (br_engine b) input)"
proof -
  obtain e actions where p: "engine_process (br_engine b) input = (e, actions)" by force
  show ?thesis
  proof (cases "br_outputs_enabled b")
    case True
    then have "run_actions actions ws (b\<lparr>br_engine := e\<rparr>) = (r, ws', b')" using assms p by (simp add: process_def)
    from run_actions_identity [OF this] p show ?thesis by simp
  qed (use assms p in \<open>auto simp: process_def\<close>)
qed

text \<open>One event, seen by the engine: nothing, a reset with new devices, or one input.\<close>

lemma handle_event_cases:
  assumes "handle_event env kind ws b = (r, ws', b')"
  obtains "b' = b"
  | e where "kind = EWatch" "handle_watch env b = (e, b')"
  | input e where "engine_input_of kind = Some input" "process input ws b = (e, ws', b')"
    "e = None \<longleftrightarrow> r = Inr BridgeContinue"
proof (cases "kind = EWatch \<or> kind = EGone")
  case True
  then show ?thesis using assms that(1,2) by (auto simp: handle_event_def split: option.splits prod.splits)
next
  case False
  let ?i = "if forwards_to_engine kind (br_profile b) (br_config b) then engine_input_of kind else None"
  have he: "handle_event env kind ws b = (case ?i of None \<Rightarrow> (Inr BridgeContinue, ws, b)
      | Some input \<Rightarrow> (case process input ws b of (Some e, ws', b') \<Rightarrow> (Inl e, ws', b')
          | (None, ws', b') \<Rightarrow> (Inr BridgeContinue, ws', b')))"
    using False by (cases kind) (simp_all only: handle_event_def event_kind.case, auto)
  show ?thesis
  proof (cases ?i)
    case None
    then show ?thesis using he assms that(1) by auto
  next
    case (Some input)
    obtain e ws1 b1 where p: "process input ws b = (e, ws1, b1)" by (metis prod_cases3)
    have i: "engine_input_of kind = Some input" using Some by (auto split: if_splits)
    show ?thesis by (rule that(3) [OF i, of e]) (use he assms Some p in \<open>auto split: option.splits\<close>)
  qed
qed

lemma handle_event_identity: "handle_event env kind ws b = (r, ws', b') \<Longrightarrow> same_identity b b'"
  by (erule handle_event_cases) (auto dest: handle_watch_engine process_identity)

lemma drain_identity: "same_identity b (dn_bridge (drain_loop n envs k ws q b))"
proof (induction n arbitrary: k ws q b)
  case (Suc n)
  obtain r d where d: "dispatch (dr_dispatch (envs k)) (br_iface b) = (r, d)" by force
  show ?case
  proof (cases r)
    case (Inr ev)
    obtain q1 lines where t: "bridge_trace q (dr_now (envs k)) (ev_kind ev) b = (q1, lines)" by force
    obtain a ws1 b1 where h: "handle_event (dr_bridge (envs k)) (ev_kind ev) ws (b\<lparr>br_iface := d\<rparr>) = (a, ws1, b1)"
      by (metis prod_cases3)
    have "same_identity b b1" using handle_event_identity [OF h] by simp
    then show ?thesis using d Inr t h Suc.IH [where b = b1] same_identity_trans by (auto simp: Let_def)
  qed (use d in simp)
qed simp

lemma bridge_reachable_identity:
  "bridge_reachable ok c enabled b \<Longrightarrow> br_config b = c \<and> br_outputs_enabled b = enabled \<and> config_ok c"
proof (induction rule: bridge_reachable.induct)
  case (bridge_created scan d su env b)
  then show ?case using bridge_new_ok [of d su env c enabled b] scan_ok_start Config_validate_None by blast
next
  case (bridge_drained b envs ws q dn)
  then show ?case using drain_identity [of b MAX_EVENTS_PER_DRAIN envs 0 ws q]
    by (auto simp: drain_with_def same_identity_def)
next
  case (bridge_ticked b ws ws' b')
  then show ?case using process_identity by (auto simp: tick_pointer_def same_identity_def)
next
  case (bridge_captured b env en r b')
  then show ?case using set_capture_identity [of env en b r b'] by (simp add: same_identity_def)
qed simp

section \<open>Acceptable events\<close>

text \<open>What a device of a kind was set up to accept: enabled codes, and axis values in its ranges.\<close>

definition accepts :: "virtual_kind \<Rightarrow> input_event \<Rightarrow> bool" where
  "accepts kind e \<longleftrightarrow>
    (if in_type e = EV_KEY then UiIoctl UI_SET_KEYBIT (in_code e) \<in> set (configure_ioctls kind)
       \<and> 0 \<le> in_value e \<and> in_value e \<le> 2
     else if in_type e = EV_ABS then UiIoctl UI_SET_ABSBIT (in_code e) \<in> set (configure_ioctls kind)
       \<and> ud_absmin (user_dev kind) ! in_code e \<le> in_value e \<and> in_value e \<le> ud_absmax (user_dev kind) ! in_code e
     else if in_type e = EV_REL then UiIoctl UI_SET_RELBIT (in_code e) \<in> set (configure_ioctls kind)
     else in_type e = EV_SYN \<and> in_code e = SYN_REPORT \<and> in_value e = 0)"

fun kind_of :: "output_device \<Rightarrow> virtual_kind" where
  "kind_of DevGamepad = VkController"
| "kind_of DevDesktop = VkDesktop"

lemma set_axis_length [simp]:
  "length (ud_absmin (set_axis u a)) = length (ud_absmin u)" "length (ud_absmax (set_axis u a)) = length (ud_absmax u)"
  by (simp_all add: set_axis_def split: option.split)

lemma foldl_set_axis:
  assumes "length (ud_absmin u) = 64" "length (ud_absmax u) = 64" "code < 64" "axis_info code = Some i"
    and "code \<in> set codes"
  shows "ud_absmin (foldl set_axis u codes) ! code = ax_minimum i \<and> ud_absmax (foldl set_axis u codes) ! code = ax_maximum i"
  using assms(5)
proof (induction codes rule: rev_induct)
  case (snoc a codes)
  let ?v = "foldl set_axis u codes"
  have len: "length (ud_absmin ?v) = 64 \<and> length (ud_absmax ?v) = 64"
    by (rule foldl_keeps [where P = "\<lambda>v. length (ud_absmin v) = 64 \<and> length (ud_absmax v) = 64"])
      (use assms(1,2) in auto)
  have hit: "ud_absmin (set_axis w code) ! code = ax_minimum i \<and> ud_absmax (set_axis w code) ! code = ax_maximum i"
    if "length (ud_absmin w) = 64 \<and> length (ud_absmax w) = 64" for w
    using that assms(3,4) by (simp add: set_axis_def)
  have miss: "ud_absmin (set_axis w a) ! code = ud_absmin w ! code \<and> ud_absmax (set_axis w a) ! code = ud_absmax w ! code"
    if "a \<noteq> code" for w
    using that by (simp add: set_axis_def split: option.split)
  show ?case
  proof (cases "a = code")
    case True
    then show ?thesis using hit [OF len] by simp
  next
    case False
    then show ?thesis using snoc miss [OF False, of ?v] by simp
  qed
qed simp

lemma controller_range:
  assumes "axis_info code = Some i"
  shows "code \<in> set CORE_AXES \<and> ud_absmin (user_dev VkController) ! code = ax_minimum i
    \<and> ud_absmax (user_dev VkController) ! code = ax_maximum i"
proof -
  have c: "code \<in> set CORE_AXES" using assms by (auto simp: axis_info_def split: if_splits)
  have "\<forall>a \<in> set CORE_AXES. a < 64" by (simp add: CORE_AXES_def code_consts)
  then have "code < 64" using c by blast
  then show ?thesis using foldl_set_axis [OF _ _ _ assms] c
    by (simp add: user_dev_def Let_def CONTROLLER_CAPABILITIES_def UinputUserDev_default_def)
qed

lemma enabled_codes:
  "code \<in> set (cap_keys (VirtualKind_capabilities kind)) \<Longrightarrow> UiIoctl UI_SET_KEYBIT code \<in> set (configure_ioctls kind)"
  "code \<in> set (cap_axes (VirtualKind_capabilities kind)) \<Longrightarrow> UiIoctl UI_SET_ABSBIT code \<in> set (configure_ioctls kind)"
  "code \<in> set (cap_rels (VirtualKind_capabilities kind)) \<Longrightarrow> UiIoctl UI_SET_RELBIT code \<in> set (configure_ioctls kind)"
  by (auto simp: configure_ioctls_def Let_def enable_bits_def)

lemma EV_distinct [simp]: "EV_ABS \<noteq> EV_REL" "EV_REL \<noteq> EV_ABS" "EV_SYN \<noteq> EV_ABS" "EV_SYN \<noteq> EV_REL"
  by (simp_all add: EV_SYN_def EV_REL_def EV_ABS_def)

lemma accepted_action:
  assumes "action_ok c p a"
  shows "list_all (accepts (kind_of (action_target a))) (action_events a)"
proof (cases a)
  case (OutKey t code v)
  then show ?thesis using assms enabled_codes(1) by (cases t) (auto simp: accepts_def)
next
  case (OutAbs t code v)
  then have t: "t = DevGamepad" and fits: "axis_fits \<lparr>ma_code = code, ma_value = v\<rparr>" using assms by (cases t; simp)+
  then obtain i where i: "axis_info code = Some i" "ax_minimum i \<le> v" "v \<le> ax_maximum i"
    by (auto simp: axis_fits_def)
  then show ?thesis using OutAbs t controller_range [OF i(1)] enabled_codes(2) [of code VkController]
    by (auto simp: accepts_def CONTROLLER_CAPABILITIES_def)
next
  case (OutRel t code v)
  then show ?thesis using assms enabled_codes(3) by (cases t) (auto simp: accepts_def)
next
  case (OutSync t)
  then show ?thesis by (auto simp: accepts_def)
qed


section \<open>Hardware\<close>

text \<open>The reports the controller's driver produces: arrays of their fixed lengths, values in range.\<close>

definition small_axis :: "axis3 \<Rightarrow> bool" where
  "small_axis v \<longleftrightarrow> in_i32 (ax_x v) \<and> in_i32 (ax_y v) \<and> in_i32 (ax_z v)"

fun hardware_ok :: "event_kind \<Rightarrow> bool" where
  "hardware_ok (EIr vs) \<longleftrightarrow> length vs = 4 \<and> (\<forall>v \<in> set vs. ir_coord (ax_x v) \<and> ir_coord (ax_y v))"
| "hardware_ok (EBalanceBoard vs) \<longleftrightarrow> length vs = 4 \<and> list_all small_axis vs
    \<and> (\<forall>v \<in> set vs. 0 \<le> ax_x v \<and> ax_x v \<le> 65535)"
| "hardware_ok kind \<longleftrightarrow> list_all small_axis (axis_events kind)"

lemma motion_axes_ok:
  "list_all small_axis vs \<Longrightarrow> length (motion_axes vs) = 8 \<and> in_i32 (abs_x (motion_axes vs ! 0))
    \<and> in_i32 (abs_y (motion_axes vs ! 0)) \<and> in_i32 (abs_z (motion_axes vs ! 0))"
  by (cases vs) (auto simp: motion_axes_def Let_def small_axis_def in_i32_def nth_append)

lemma balance_axes_ok:
  "length vs = 4 \<Longrightarrow> (\<forall>v \<in> set vs. 0 \<le> ax_x v \<and> ax_x v \<le> 65535) \<Longrightarrow> i < 4 \<Longrightarrow>
    0 \<le> abs_x (motion_axes vs ! i) \<and> abs_x (motion_axes vs ! i) \<le> 65535"
  by (auto simp: motion_axes_def Let_def nth_append)

lemma hardware_input: "hardware_ok kind \<Longrightarrow> engine_input_of kind = Some input \<Longrightarrow> input_ok input"
proof (cases kind)
  case (EBalanceBoard vs)
  assume h: "hardware_ok kind" "engine_input_of kind = Some input"
  then have "input = InMotion MotBalance (motion_axes vs)" using EBalanceBoard by (simp add: engine_input_of_def)
  then show ?thesis using h(1) EBalanceBoard motion_axes_ok [of vs] balance_axes_ok [of vs] by auto
qed (auto simp: engine_input_of_def ir_input_def point_coord_def motion_axes_ok)

definition devices_ok :: "bridge \<Rightarrow> bool" where
  "devices_ok b \<longleftrightarrow> eng_inv (br_config b) (br_profile b) (br_engine b) \<and> (\<forall>dev vd. output_of dev b = Some vd \<longrightarrow>
    list_all (accepts (kind_of dev)) (vd_events vd))"

lemma process_devices:
  assumes "devices_ok b" "input_ok input" "process input ws b = (None, ws', b')"
  shows "devices_ok b'"
proof -
  obtain e actions where p: "engine_process (br_engine b) input = (e, actions)" by force
  have inv: "eng_inv (br_config b) (br_profile b) (br_engine b)" using assms(1) by (simp add: devices_ok_def)
  have e: "eng_inv (br_config b) (br_profile b) e" "list_all (action_ok (br_config b) (br_profile b)) actions"
    using engine.step_inv [OF inv assms(2)] engine.step_out [OF inv assms(2)] p by simp_all
  have id: "br_engine b' = e" "br_config b' = br_config b" "br_profile b' = br_profile b"
    using process_identity [OF assms(3)] p by (auto simp: same_identity_def)
  have acc: "list_all (accepts (kind_of dev)) (concat (map action_events (filter (\<lambda>a. action_target a = dev) actions)))" for dev
    using e(2) accepted_action by (fastforce simp: list_all_iff)
  have same: "output_of dev (b\<lparr>br_engine := e\<rparr>) = output_of dev b" for dev by (cases dev) simp_all
  have "list_all (accepts (kind_of dev)) (vd_events vd)" if "output_of dev b' = Some vd" for dev vd
  proof (cases "br_outputs_enabled b")
    case False
    then have "b' = b\<lparr>br_engine := e\<rparr>" using assms(3) p by (simp add: process_def)
    then show ?thesis using that same assms(1) by (simp add: devices_ok_def)
  next
    case True
    then have r: "run_actions actions ws (b\<lparr>br_engine := e\<rparr>) = (None, ws', b')" using assms(3) p by (simp add: process_def)
    note ra = run_actions_events [OF outputs_only_refl r]
    have "output_of dev (b\<lparr>br_engine := e\<rparr>) \<noteq> None"
      using outputs_only_fields(11) [OF conjunct1 [OF ra], of dev] that by auto
    then obtain vd0 where vd0: "output_of dev b = Some vd0" using same by auto
    then have "vd_events vd = vd_events vd0 @ concat (map action_events (filter (\<lambda>a. action_target a = dev) actions))"
      using ra same that by auto
    then show ?thesis using assms(1) vd0 acc by (simp add: devices_ok_def)
  qed
  then show ?thesis using e(1) id by (simp add: devices_ok_def)
qed

lemma fresh_devices:
  "create_outputs (br_profile b) (br_config b) env en = Inr (br_gamepad b, br_desktop b) \<Longrightarrow>
    output_of dev b = Some vd \<Longrightarrow> vd_events vd = []"
  using create_outputs_ok [of "br_profile b" "br_config b" env en] by (cases dev) (auto split: if_splits)

lemma devices_ok_cong:
  assumes "br_gamepad b' = br_gamepad b" "br_desktop b' = br_desktop b" "br_engine b' = br_engine b" "same_identity b b'"
  shows "devices_ok b' = devices_ok b"
proof -
  have "output_of dev b' = output_of dev b" for dev using assms(1,2) by (cases dev) simp_all
  then show ?thesis using assms(3,4) by (simp add: devices_ok_def same_identity_def)
qed

lemma handle_watch_devices:
  assumes "devices_ok b" "handle_watch env b = (r, b')"
  shows "devices_ok b'"
proof -
  note hw = handle_watch_engine [OF assms(2)]
  have id: "same_identity b b'" using hw by simp
  show ?thesis
  proof (cases "br_engine b' = br_engine b \<and> br_gamepad b' = br_gamepad b \<and> br_desktop b' = br_desktop b")
    case True
    then show ?thesis using devices_ok_cong [of b' b] id assms(1) by simp
  next
    case False
    then have e: "br_engine b' = fst (engine_process (br_engine b) InReset)"
      and fresh: "br_gamepad b' = None \<and> br_desktop b' = None
         \<or> create_outputs (br_profile b') (br_config b') env (br_outputs_enabled b) = Inr (br_gamepad b', br_desktop b')"
      using hw id by (auto simp: same_identity_def)
    have "eng_inv (br_config b') (br_profile b') (br_engine b')"
      using assms(1) e id eng_inv_reset [of "br_config b" "br_profile b" "br_engine b"]
      by (simp add: devices_ok_def same_identity_def del: engine_process.simps)
    moreover have "vd_events vd = []" if "output_of dev b' = Some vd" for dev vd
      using fresh that fresh_devices [of b' env "br_outputs_enabled b" dev vd] by (cases dev) auto
    ultimately show ?thesis by (simp add: devices_ok_def)
  qed
qed

lemma handle_event_devices:
  assumes "devices_ok b" "hardware_ok kind" "handle_event env kind ws b = (Inr BridgeContinue, ws', b')"
  shows "devices_ok b'"
  using assms(3)
proof (rule handle_event_cases)
  fix input e
  assume i: "engine_input_of kind = Some input" "process input ws b = (e, ws', b')"
    "e = None \<longleftrightarrow> (Inr BridgeContinue :: int + bridge_action) = Inr BridgeContinue"
  have "input_ok input" by (rule hardware_input [OF assms(2) i(1)])
  then show "devices_ok b'" using process_devices [OF assms(1)] i(2,3) by auto
qed (use assms(1) handle_watch_devices in auto)

lemma drain_devices:
  "devices_ok b \<Longrightarrow> dn_result (drain_loop n envs k ws q b) = Inr BridgeContinue \<Longrightarrow>
    list_all (\<lambda>ev. hardware_ok (ev_kind ev)) (dn_events (drain_loop n envs k ws q b)) \<Longrightarrow>
    devices_ok (dn_bridge (drain_loop n envs k ws q b))"
proof (induction n arbitrary: k ws q b)
  case (Suc n)
  obtain r d where d: "dispatch (dr_dispatch (envs k)) (br_iface b) = (r, d)" by force
  have b0: "devices_ok (b\<lparr>br_iface := d\<rparr>)" using Suc.prems(1) devices_ok_cong [of "b\<lparr>br_iface := d\<rparr>" b] by simp
  show ?case
  proof (cases r)
    case (Inl e)
    then show ?thesis using d b0 by simp
  next
    case (Inr ev)
    obtain q1 lines where t: "bridge_trace q (dr_now (envs k)) (ev_kind ev) b = (q1, lines)" by force
    obtain a ws1 b1 where h: "handle_event (dr_bridge (envs k)) (ev_kind ev) ws (b\<lparr>br_iface := d\<rparr>) = (a, ws1, b1)"
      by (metis prod_cases3)
    have ac: "a = Inr BridgeContinue" using Suc.prems(2) d Inr t h by (auto simp: Let_def split: if_splits)
    have "hardware_ok (ev_kind ev)" using Suc.prems(3) d Inr t h by (auto simp: Let_def)
    then have "devices_ok b1" using handle_event_devices [OF b0 _ h [unfolded ac]] by simp
    then show ?thesis using Suc.IH [of b1 "Suc k" ws1 q1] Suc.prems(2,3) d Inr t h ac by (simp add: Let_def)
  qed
qed simp

lemma reachable_devices_ok: "bridge_reachable hardware_ok c enabled b \<Longrightarrow> devices_ok b"
proof (induction rule: bridge_reachable.induct)
  case (bridge_created scan d su env b)
  have s: "scan_ok d \<and> opened d = 0" by (rule scan_ok_start [OF bridge_created(1)])
  have n: "config_ok c \<and> br_config b = c \<and> br_engine b = DeviceEngine_new c (br_profile b)"
    using bridge_new_ok [OF _ _ bridge_created(2,3)] s Config_validate_None by blast
  have "create_outputs (br_profile b) (br_config b) env enabled = Inr (br_gamepad b, br_desktop b)"
    using bridge_created(2,3) by (auto simp: bridge_new_def Let_def split: if_splits sum.splits prod.splits option.splits)
  then show ?case using fresh_devices n eng_inv_new by (auto simp: devices_ok_def)
next
  case (bridge_drained b envs ws q dn)
  then show ?case using drain_devices by (auto simp: drain_with_def)
next
  case (bridge_ticked b ws ws' b')
  then show ?case using process_devices [of b InPointerTick ws ws' b'] by (simp add: tick_pointer_def)
next
  case (bridge_captured b env en r b')
  then show ?case using devices_ok_cong [of b' b] set_capture_identity [OF bridge_captured.hyps(2)] by simp
next
  case (bridge_traced b flt)
  then show ?case using devices_ok_cong [of "b\<lparr>br_trace := flt\<rparr>" b] by simp
qed

section \<open>The properties\<close>

text \<open>
  C6. The kernel's view of the virtual devices is the engine's: at every point of a bridge's life
  the gamepad and the desktop device exist exactly when output is enabled and the profile or the
  aiming needs them, they are created, and replaying every event written to one of them since its
  creation never presses a pressed key nor releases a free one and leaves pressed exactly the keys
  of the buttons now held. No key stays stuck when an extension is unplugged or a device rebuilt.
\<close>

theorem bridge_virtual_keys:
  assumes "bridge_reachable ok c enabled b"
  shows "case output_of dev b of
      None \<Rightarrow> \<not> (enabled \<and> (if dev = DevGamepad then needs_gamepad (br_profile b) c else needs_desktop (br_profile b) c))
    | Some vd \<Rightarrow> enabled \<and> (if dev = DevGamepad then needs_gamepad (br_profile b) c else needs_desktop (br_profile b) c)
        \<and> vd_created vd \<and> kernel_keys {} (vd_events vd) = Some (wanted_keys dev (br_engine b))"
proof -
  have "keys_ok b dev" using reachable_bridge_ok [OF assms] by (simp add: bridge_ok_def outputs_ok_def)
  then show ?thesis using bridge_reachable_identity [OF assms]
    by (cases dev) (simp_all add: keys_ok_def cong: option.case_cong)
qed

text \<open>
  C8. A bridge reports the truth about its interfaces: its opened mask is what is open, its pending
  mask is what it still wants (everything while diagnosing, what the profile needs otherwise) and is
  not open, and nothing it does not want stays open. So turning a capture off closes the sensors
  that only the capture needed.
\<close>

theorem bridge_masks_truthful:
  assumes "bridge_reachable ok c enabled b"
  shows "br_opened b = opened (br_iface b)
    \<and> br_pending b = (if br_capture b then MASK_ALL else requested_interfaces (br_profile b) c) AND NOT (opened (br_iface b))
    \<and> opened (br_iface b) AND NOT (if br_capture b then MASK_ALL else requested_interfaces (br_profile b) c) = 0"
proof -
  have m: "masks_ok b" using reachable_bridge_ok [OF assms] by (simp add: bridge_ok_def)
  have r: "bridge_requested b = (if br_capture b then MASK_ALL else requested_interfaces (br_profile b) c)"
    using bridge_reachable_identity [OF assms] by (simp add: bridge_requested_def)
  have "opened (br_iface b) AND NOT (bridge_requested b) = 0"
    by (rule bit_eqI) (use m in \<open>auto simp: masks_ok_def bit_and_iff bit_not_iff\<close>)
  then show ?thesis using m by (simp add: masks_ok_def flip: r)
qed

lemma requested_readable: "requested_interfaces p c AND WRITABLE = 0" "MASK_ALL AND WRITABLE = 0"
  by (cases "Profile_contains p GAMEPAD"; cases "Profile_contains p DESKTOP"; cases "cfg_aim_source c";
      simp add: requested_interfaces_def Let_def MASK_defs WRITABLE_def)
    (simp add: MASK_defs WRITABLE_def)

text \<open>
  C34. Turning a capture on or off, at any point of a bridge's life, does what it says at each of the ten
  interfaces. One the bridge does
  not want any more is closed; one it wants and had open is left exactly as it was; and one it wants
  (any of them while capturing) and did not have open is open afterwards if, and only if, the
  controller has it and the kernel lets it be opened, read and watched. The engine and the virtual
  devices are left alone.
\<close>

theorem capture_opens_sensors:
  assumes "bridge_reachable ok c enabled b" "set_capture env on b = (r, b')" "on \<noteq> br_capture b" "i < 10"
    and "before = hi_inputs (br_iface b) ! i" "after = hi_inputs (br_iface b') ! i"
  shows "(if bit (if on then MASK_ALL else requested_interfaces (br_profile b) c) (if_index i) then
        if 0 \<le> ii_fd before then after = before
        else 0 \<le> ii_fd after \<longleftrightarrow> ii_available before \<and> ii_node before \<noteq> None
          \<and> (\<exists>fd state. oe_node (be_open env) i False = Inr fd \<and> 0 \<le> fd
               \<and> oe_initial (be_open env) i = Inr state \<and> oe_epoll (be_open env) i = None)
      else ii_fd after < 0)
    \<and> br_engine b' = br_engine b \<and> br_gamepad b' = br_gamepad b \<and> br_desktop b' = br_desktop b"
proof -
  let ?w = "if on then MASK_ALL else requested_interfaces (br_profile b) c"
  define d where "d = close_interfaces (br_iface b) (opened (br_iface b) AND NOT ?w)"
  define b2 where "b2 = b\<lparr>br_capture := on, br_iface := d, br_opened := opened d, br_pending := ?w AND NOT (opened d)\<rparr>"
  have m: "masks_ok b" using reachable_bridge_ok [OF assms(1)] by (simp add: bridge_ok_def)
  have ten: "ten (br_iface b)" using m scan_ten by (simp add: masks_ok_def)
  note id = bridge_reachable_identity [OF assms(1)]
  have "bridge_requested (b\<lparr>br_capture := on\<rparr>) = ?w" using id by (simp add: bridge_requested_def)
  then have re: "retry_open env b2 = (r, b')" using assms(2,3) by (simp add: set_capture_def Let_def b2_def d_def)
  have cl: "ten d" "hi_inputs d ! i = close_input (opened (br_iface b) AND NOT ?w) i before"
    using close_interfaces_inputs [OF ten] assms(4) by (auto simp: d_def assms(5))
  have op: "bit (opened (br_iface b)) (if_index i) \<longleftrightarrow> 0 \<le> ii_fd before" using opened_bit [OF assms(4)] by (simp add: assms(5))
  have od: "bit (opened d) (if_index i) \<longleftrightarrow> 0 \<le> ii_fd (hi_inputs d ! i)" using opened_bit [OF assms(4)] by simp
  have l: "if_index i < 32" using if_index_less [OF assms(4)] .
  have pend: "br_pending b2 = ?w AND NOT (opened d)" by (simp add: b2_def)
  have writable: "br_pending b2 AND WRITABLE = 0"
  proof -
    have w: "?w AND WRITABLE = 0" by (simp add: requested_readable)
    have "br_pending b2 AND WRITABLE = (?w AND WRITABLE) AND NOT (opened d)"
      unfolding pend by (simp only: and.assoc and.left_commute and.commute)
    then show ?thesis unfolding w by simp
  qed
  have after: "after = fst (open_input (be_open env) False (br_pending b2) i (hi_inputs d ! i))"
  proof (cases "br_pending b2 = 0")
    case True
    then have "b' = b2" using re by (simp add: retry_open_def)
    then show ?thesis by (simp add: assms(6) b2_def True [unfolded b2_def] open_input_def)
  next
    case False
    obtain d' first bits where o: "open_interfaces (be_open env) d (br_pending b2) = (d', first, bits)"
      by (metis prod_cases3)
    have "br_iface b' = d'" using re False o by (auto simp: retry_open_def Let_def b2_def split: if_splits)
    then show ?thesis using open_interfaces_inputs [OF cl(1) o] assms(4,6) writable by simp
  qed
  have closed: "ii_fd (close_input k i before) < 0" if "bit k (if_index i)" for k
    using that input_close_fields(1) [of before] by (auto simp: close_input_def)
  have bitp: "bit (br_pending b2) (if_index i) \<longleftrightarrow> bit ?w (if_index i) \<and> \<not> 0 \<le> ii_fd (hi_inputs d ! i)"
    using l od by (simp add: pend bit_and_iff bit_not_iff)
  have bitk: "bit (opened (br_iface b) AND NOT ?w) (if_index i) \<longleftrightarrow> 0 \<le> ii_fd before \<and> \<not> bit ?w (if_index i)"
    using l op by (simp add: bit_and_iff bit_not_iff)
  have same: "hi_inputs d ! i = before" if "\<not> (0 \<le> ii_fd before \<and> \<not> bit ?w (if_index i))"
  proof -
    have "\<not> bit (opened (br_iface b) AND NOT ?w) (if_index i)" using that bitk by blast
    then show ?thesis unfolding cl(2) close_input_def by simp
  qed
  have "if bit ?w (if_index i) then
      if 0 \<le> ii_fd before then after = before
      else 0 \<le> ii_fd after \<longleftrightarrow> ii_available before \<and> ii_node before \<noteq> None
        \<and> (\<exists>fd state. oe_node (be_open env) i False = Inr fd \<and> 0 \<le> fd
             \<and> oe_initial (be_open env) i = Inr state \<and> oe_epoll (be_open env) i = None)
    else ii_fd after < 0"
  proof (cases "bit ?w (if_index i)")
    case True
    then have s: "hi_inputs d ! i = before" using same by blast
    have p: "bit (br_pending b2) (if_index i) \<longleftrightarrow> \<not> 0 \<le> ii_fd before" using bitp True s by simp
    show ?thesis
    proof (cases "0 \<le> ii_fd before")
      case held: True
      then show ?thesis using True by (simp add: after s open_input_def)
    next
      case False
      then have p: "bit (br_pending b2) (if_index i)" using p by simp
      show ?thesis using True False p input_close_fields(1)
        by (auto simp: after s open_input_def Let_def not_le split: sum.split option.split)
    qed
  next
    case False
    then have "\<not> bit (br_pending b2) (if_index i)" using bitp by simp
    then have a: "after = hi_inputs d ! i" by (simp add: after open_input_def)
    have "ii_fd after < 0"
    proof (cases "0 \<le> ii_fd before")
      case True
      then show ?thesis unfolding a cl(2) by (intro closed) (use bitk False in simp)
    next
      case neg: False
      then show ?thesis using same a by simp
    qed
    then show ?thesis using False by simp
  qed
  then show ?thesis using set_capture_identity [OF assms(2)] by simp
qed

text \<open>
  C19. Whatever the controller reports (coordinates in the sensors' ranges), every event a bridge
  writes is one its virtual device was set up to accept: a key, axis or relative code enabled when
  the device was created, a key value 0, 1 or 2, and an axis value inside the range announced for
  that axis.
\<close>

theorem bridge_events_accepted:
  assumes "bridge_reachable hardware_ok c enabled b"
  shows "list_all (accepts VkController) (case br_gamepad b of None \<Rightarrow> [] | Some vd \<Rightarrow> vd_events vd)
    \<and> list_all (accepts VkDesktop) (case br_desktop b of None \<Rightarrow> [] | Some vd \<Rightarrow> vd_events vd)"
proof -
  have d: "output_of dev b = Some vd \<Longrightarrow> list_all (accepts (kind_of dev)) (vd_events vd)" for dev vd
    using reachable_devices_ok [OF assms] by (simp add: devices_ok_def)
  show ?thesis using d [of DevGamepad] d [of DevDesktop] by (auto split: option.split)
qed

text \<open>A sequence of inputs, each acting on the virtual devices as \<open>process\<close> says, up to the first failing write.\<close>

fun process_all :: "engine_input list \<Rightarrow> uinput_write list \<Rightarrow> bridge \<Rightarrow> int option \<times> uinput_write list \<times> bridge" where
  "process_all [] ws b = (None, ws, b)"
| "process_all (i # is) ws b =
    (case process i ws b of
       (None, ws', b') \<Rightarrow> process_all is ws' b'
     | (Some e, ws', b') \<Rightarrow> (Some e, ws', b'))"

definition with_iface :: "hid_interface \<Rightarrow> bridge \<Rightarrow> bridge" where
  "with_iface d b = b\<lparr>br_iface := d\<rparr>"

lemma with_iface_fields [simp]:
  "br_engine (with_iface d b) = br_engine b" "br_gamepad (with_iface d b) = br_gamepad b"
  "br_desktop (with_iface d b) = br_desktop b" "br_profile (with_iface d b) = br_profile b"
  "br_config (with_iface d b) = br_config b" "br_outputs_enabled (with_iface d b) = br_outputs_enabled b"
  "br_iface (with_iface d b) = d" "with_iface d (with_iface d' b) = with_iface d b"
  "with_iface (br_iface b) b = b"
  by (simp_all add: with_iface_def)

lemma output_of_iface [simp]: "output_of dev (with_iface d b) = output_of dev b"
  by (cases dev) simp_all

lemma set_output_iface: "set_output dev vd (with_iface d b) = with_iface d (set_output dev vd b)"
  by (cases dev) (simp_all add: with_iface_def)

lemma run_actions_iface:
  "run_actions as ws (with_iface d b) = (case run_actions as ws b of (r, ws', b') \<Rightarrow> (r, ws', with_iface d b'))"
  by (induction as arbitrary: ws b) (simp_all add: set_output_iface split: option.split prod.split)

lemma process_iface:
  "process i ws (with_iface d b) = (case process i ws b of (r, ws', b') \<Rightarrow> (r, ws', with_iface d b'))"
proof -
  have e: "(with_iface d b)\<lparr>br_engine := x\<rparr> = with_iface d (b\<lparr>br_engine := x\<rparr>)" for x by (simp add: with_iface_def)
  show ?thesis by (simp add: process_def Let_def e run_actions_iface split: prod.split)
qed

lemma process_all_iface:
  "process_all is ws (with_iface d b) = (case process_all is ws b of (r, ws', b') \<Rightarrow> (r, ws', with_iface d b'))"
  by (induction "is" arbitrary: ws b) (simp_all add: process_iface split: option.split prod.split)

text \<open>The guard of the engine, read as a question about bits: a kind of event has a single interface.\<close>

lemma forwards_iff:
  "forwards_to_engine kind p c \<longleftrightarrow> (\<exists>i. EventKind_interface kind = Some i \<and> requested_interfaces p c AND i \<noteq> 0)"
proof -
  have "InterfaceMask_contains m i \<longleftrightarrow> m AND i \<noteq> 0" if k: "EventKind_interface kind = Some i" for i m
  proof -
    have "i \<in> set IF_BITS" using k by (cases kind) (auto simp: IF_BITS_def MASK_defs)
    moreover have "length IF_BITS = 10" by (simp add: IF_BITS_def)
    ultimately obtain n where "i = push_bit (if_index n) 1" "if_index n < 32"
      using IF_BITS_index if_index_less by (metis in_set_conv_nth)
    then have bits: "bit i j \<longleftrightarrow> j = if_index n" for j by (auto simp: bit_simps)
    have "m AND i \<noteq> 0 \<longleftrightarrow> (\<exists>j. bit (m AND i) j)" by (metis bit_0_eq bot_apply bot_bool_def bit_eqI)
    then show ?thesis by (simp add: contains_bit bits bit_and_iff)
  qed
  then show ?thesis by (auto simp: forwards_to_engine_def split: option.split)
qed

definition engine_inputs :: "profile \<Rightarrow> config \<Rightarrow> event_kind list \<Rightarrow> engine_input list" where
  "engine_inputs p c kinds = List.map_filter engine_input_of
    (filter (\<lambda>kind. \<exists>i. EventKind_interface kind = Some i \<and> requested_interfaces p c AND i \<noteq> 0) kinds)"

text \<open>One event other than a change of interfaces is its input, when the engine takes it, and nothing otherwise.\<close>

lemma handle_event_inputs:
  assumes "kind \<noteq> EWatch" "handle_event env kind ws b = (r, ws', b')"
  shows "process_all (engine_inputs (br_profile b) (br_config b) [kind]) ws b
      = (case r of Inl e \<Rightarrow> Some e | Inr _ \<Rightarrow> None, ws', b')"
proof -
  have i: "engine_inputs (br_profile b) (br_config b) [kind] = (case (if forwards_to_engine kind (br_profile b) (br_config b)
      then engine_input_of kind else None) of None \<Rightarrow> [] | Some input \<Rightarrow> [input])"
    by (simp add: engine_inputs_def forwards_iff [symmetric] List.map_filter_simps split: option.split)
  show ?thesis
  proof (cases "kind = EGone")
    case True
    then show ?thesis using assms(2) unfolding i by (auto simp: handle_event_def forwards_to_engine_def)
  next
    case False
    have "handle_event env kind ws b = (case (if forwards_to_engine kind (br_profile b) (br_config b)
        then engine_input_of kind else None) of None \<Rightarrow> (Inr BridgeContinue, ws, b)
      | Some input \<Rightarrow> (case process input ws b of (Some e, ws', b') \<Rightarrow> (Inl e, ws', b')
          | (None, ws', b') \<Rightarrow> (Inr BridgeContinue, ws', b')))"
      using False assms(1) by (cases kind) (simp_all only: handle_event_def event_kind.case, auto)
    then show ?thesis using assms(2) unfolding i by (auto split: option.splits prod.splits if_splits)
  qed
qed

lemma engine_inputs_Cons: "engine_inputs p c (kind # kinds) = engine_inputs p c [kind] @ engine_inputs p c kinds"
  by (simp add: engine_inputs_def List.map_filter_simps split: option.split)

lemma process_all_append:
  "process_all (is @ js) ws b = (case process_all is ws b of
     (None, ws', b') \<Rightarrow> process_all js ws' b' | (Some e, ws', b') \<Rightarrow> (Some e, ws', b'))"
  by (induction "is" arbitrary: ws b) (simp_all split: option.split prod.split)

lemma drain_inputs:
  "drain_loop n envs k ws q b = dn \<Longrightarrow> \<forall>ev \<in> set (dn_events dn). ev_kind ev \<noteq> EWatch \<Longrightarrow>
    \<exists>r. process_all (engine_inputs (br_profile b) (br_config b) (map ev_kind (dn_events dn))) ws b
          = (r, dn_writes dn, with_iface (br_iface b) (dn_bridge dn))
      \<and> (r \<noteq> None \<longrightarrow> dn_result dn = Inl (the r))"
proof (induction n arbitrary: k ws q b dn)
  case 0
  then show ?case by (auto simp: engine_inputs_def List.map_filter_simps)
next
  case (Suc n)
  obtain r d where d: "dispatch (dr_dispatch (envs k)) (br_iface b) = (r, d)" by force
  have b0: "b\<lparr>br_iface := d\<rparr> = with_iface d b" by (simp add: with_iface_def)
  show ?case
  proof (cases r)
    case (Inl e)
    then show ?thesis using Suc.prems(1) d by (auto simp: engine_inputs_def List.map_filter_simps b0)
  next
    case (Inr ev)
    obtain q1 lines where t: "bridge_trace q (dr_now (envs k)) (ev_kind ev) b = (q1, lines)" by force
    obtain a ws1 b1 where h: "handle_event (dr_bridge (envs k)) (ev_kind ev) ws (with_iface d b) = (a, ws1, b1)"
      by (metis prod_cases3)
    define rest where "rest = (if a = Inr BridgeContinue then drain_loop n envs (Suc k) ws1 q1 b1
        else \<lparr>dn_result = a, dn_events = [], dn_lines = [], dn_writes = ws1, dn_sequence = q1, dn_bridge = b1\<rparr>)"
    have dn: "dn = rest\<lparr>dn_events := ev # dn_events rest, dn_lines := lines @ dn_lines rest\<rparr>"
      using Suc.prems(1) d Inr t h by (simp add: b0 Let_def rest_def)
    have w: "ev_kind ev \<noteq> EWatch" using Suc.prems(2) by (simp add: dn)
    have id: "br_profile b1 = br_profile b \<and> br_config b1 = br_config b"
      using handle_event_identity [OF h] by (simp add: same_identity_def)
    let ?first = "engine_inputs (br_profile b) (br_config b) [ev_kind ev]"
    let ?e = "case a of Inl e \<Rightarrow> Some e | Inr _ \<Rightarrow> None"
    have first: "process_all ?first ws b = (?e, ws1, with_iface (br_iface b) b1)"
    proof -
      have "process_all ?first ws (with_iface d b) = (?e, ws1, b1)"
        using handle_event_inputs [OF w h] by simp
      moreover have "process_all ?first ws (with_iface (br_iface b) (with_iface d b))
          = (case process_all ?first ws (with_iface d b) of (r, ws', b') \<Rightarrow> (r, ws', with_iface (br_iface b) b'))"
        by (rule process_all_iface)
      ultimately show ?thesis by simp
    qed
    show ?thesis
    proof (cases "a = Inr BridgeContinue")
      case True
      have "drain_loop n envs (Suc k) ws1 q1 b1 = rest" using True by (simp add: rest_def)
      from Suc.IH [OF this] Suc.prems(2) obtain r' where
        r': "process_all (engine_inputs (br_profile b) (br_config b) (map ev_kind (dn_events rest))) ws1 b1
            = (r', dn_writes rest, with_iface (br_iface b1) (dn_bridge rest))"
          "r' \<noteq> None \<longrightarrow> dn_result rest = Inl (the r')"
        by (auto simp: dn id)
      have "process_all (engine_inputs (br_profile b) (br_config b) (map ev_kind (dn_events rest))) ws1 (with_iface (br_iface b) b1)
            = (r', dn_writes rest, with_iface (br_iface b) (dn_bridge rest))"
        using r'(1) by (simp add: process_all_iface)
      then show ?thesis using r'(2) first True
        by (simp add: dn engine_inputs_Cons [of _ _ "ev_kind ev" "map ev_kind (dn_events rest)"] process_all_append)
    next
      case False
      then have rest: "rest = \<lparr>dn_result = a, dn_events = [], dn_lines = [], dn_writes = ws1, dn_sequence = q1, dn_bridge = b1\<rparr>"
        by (simp add: rest_def)
      show ?thesis using first by (auto simp: dn rest split: sum.split)
    qed
  qed
qed

text \<open>
  C33. Diagnosis is invisible to the outputs. Let a round of a bridge report any events, of all the
  sensors a capture has opened, none of them a change of the interfaces. Then the round acts on the
  engine and on the virtual devices exactly as the inputs of those events whose interface the
  profile and the aiming request do, in their order: every other event is as if it had not arrived,
  nothing is written for it, and a write that fails ends the round with its error.
\<close>

theorem diagnosis_is_invisible:
  assumes "drain_with envs ws q b = dn" "\<forall>ev \<in> set (dn_events dn). ev_kind ev \<noteq> EWatch"
    and "inputs = List.map_filter engine_input_of (filter (\<lambda>kind. \<exists>i. EventKind_interface kind = Some i
      \<and> requested_interfaces (br_profile b) (br_config b) AND i \<noteq> 0) (map ev_kind (dn_events dn)))"
  shows "\<exists>r. process_all inputs ws b = (r, dn_writes dn, (dn_bridge dn)\<lparr>br_iface := br_iface b\<rparr>)
    \<and> (r \<noteq> None \<longrightarrow> dn_result dn = Inl (the r))"
  using drain_inputs [of MAX_EVENTS_PER_DRAIN envs 0 ws q b dn] assms
  by (simp add: drain_with_def engine_inputs_def with_iface_def)


section \<open>Witnesses\<close>

definition sample_virtual_env :: virtual_env where
  "sample_virtual_env = \<lparr>ve_open = None, ve_ioctl = (\<lambda>_. None), ve_writes = []\<rparr>"

definition sample_bridge_env :: bridge_env where
  "sample_bridge_env = \<lparr>be_open = sample_open_env, be_gamepad = sample_virtual_env, be_desktop = sample_virtual_env\<rparr>"

lemma run_ioctls_sample: "run_ioctls sample_virtual_env k ops = (None, ops)"
  by (induction ops arbitrary: k) (simp_all add: sample_virtual_env_def)

lemma create_sample:
  "fst (virtual_create sample_virtual_env kind) = Inr \<lparr>vd_kind = kind, vd_created = True, vd_events = []\<rparr>"
proof -
  have "ve_writes sample_virtual_env = []" "ve_open sample_virtual_env = None" "ve_ioctl sample_virtual_env k = None" for k
    by (simp_all add: sample_virtual_env_def)
  then show ?thesis by (simp add: virtual_create_def virtual_configure_def run_ioctls_sample Let_def)
qed

text \<open>A controller with the core and an infrared camera, bridged with the default configuration.\<close>

definition sample_iface :: hid_interface where
  "sample_iface = snd (hid_refresh (Inr ([Some ''event0'', None, Some ''event2''] @ replicate 7 None, 5)) Interface_start)"

lemma sample_bridge_new:
  "\<exists>b. bridge_new sample_bridge_env
        \<lparr>bs_interface = Inr sample_iface, bs_syspath = path, bs_devtype = None, bs_watch = None\<rparr> Config_default True = Inr b
      \<and> bridge_reachable ok Config_default True b \<and> br_gamepad b \<noteq> None \<and> br_opened b \<noteq> 0
      \<and> \<not> br_capture b \<and> br_profile b = GAMEPAD \<and> br_config b = Config_default
      \<and> (\<exists>x. x = hi_inputs (br_iface b) ! 2 \<and> ii_fd x < 0 \<and> ii_available x \<and> ii_node x = Some ''event2'')"
proof -
  obtain e d where r: "hid_refresh (Inr ([Some ''event0'', None, Some ''event2''] @ replicate 7 None, 5)) Interface_start = (e, d)"
    by force
  then have d: "sample_iface = d" by (simp add: sample_iface_def)
  have e: "e = None" using r by (simp add: hid_refresh_def)
  have t: "ten Interface_start" using device_ok_start by (simp add: device_ok_def)
  note s = scan_ok_start [OF r [unfolded e]]
  have x: "ii_available (hi_inputs d ! 0) \<and> ii_node (hi_inputs d ! 0) = Some ''event0'' \<and> ii_fd (hi_inputs d ! 0) < 0"
    using refresh_inputs [OF t r] by (simp add: refresh_input_def refresh_requires_close_def Interface_start_def InputInterface_new_def if_index_def)
  have x2: "ii_available (hi_inputs d ! 2) \<and> ii_node (hi_inputs d ! 2) = Some ''event2'' \<and> ii_fd (hi_inputs d ! 2) < 0"
    using refresh_inputs [OF t r] by (simp add: refresh_input_def refresh_requires_close_def Interface_start_def InputInterface_new_def if_index_def bit_simps)
  obtain f d1 where w: "hid_watch True None d = (f, d1)" by force
  have d1: "f = None \<and> hi_inputs d1 = hi_inputs d" using w by (auto simp: hid_watch_def split: if_splits)
  obtain p where p: "p = bridge_profile Config_default path None" by simp
  have pg: "p = GAMEPAD" by (simp add: p bridge_profile_def profile_for_device_def Config_default_def)
  obtain d2 first bits where o: "open_interfaces sample_open_env d1 (requested_interfaces p Config_default) = (d2, first, bits)"
    by (metis prod_cases3)
  have d1s: "scan_ok d1" using s w by (auto simp: hid_watch_def scan_ok_def split: if_splits)
  note oi = open_interfaces_inputs [OF scan_ten [OF d1s] o]
  have req: "bit (requested_interfaces p Config_default) (if_index 0)"
    by (simp add: pg requested_interfaces_def Profile_contains_def if_index_def Config_default_def GAMEPAD_def DESKTOP_def MASK_ALL_def MASK_IR_def bit_simps)
  have "\<not> bit (requested_interfaces p Config_default) (if_index 2)"
    by (simp add: pg requested_interfaces_def Profile_contains_def if_index_def Config_default_def GAMEPAD_def DESKTOP_def MASK_ALL_def MASK_IR_def bit_simps)
  then have camera: "hi_inputs d2 ! 2 = hi_inputs d ! 2" using oi d1 by (simp add: open_input_def)
  have fd: "ii_fd (hi_inputs d2 ! 0) = 5"
    using oi x d1 req by (simp add: open_input_def sample_open_env_def Let_def)
  then have nz: "bits \<noteq> 0" using oi opened_zero [of d2] by fastforce
  have one: "\<exists>v. create_one n sample_virtual_env kind = Inr v" for n kind
    by (simp add: create_one_def create_sample)
  obtain g k where c: "create_outputs p Config_default sample_bridge_env True = Inr (g, k)"
    using one [of "needs_gamepad p Config_default" VkController] one [of "needs_desktop p Config_default" VkDesktop]
    by (auto simp: create_outputs_def sample_bridge_env_def)
  have g: "g \<noteq> None" using create_outputs_ok [OF c] by (simp add: pg needs_gamepad_def Profile_contains_def)
  have v: "Config_validate Config_default = None" by (simp add: Config_validate_None Config_default_ok)
  define su where "su = \<lparr>bs_interface = Inr d, bs_syspath = path, bs_devtype = None, bs_watch = None\<rparr>"
  obtain b where b: "bridge_new sample_bridge_env su Config_default True = Inr b" "br_gamepad b = g" "br_opened b = bits"
      "\<not> br_capture b" "br_profile b = GAMEPAD" "br_config b = Config_default" "br_iface b = d2"
    using w d1 o nz c v
    by (simp add: bridge_new_def su_def Let_def sample_bridge_env_def p [symmetric] pg [symmetric])
  have "bridge_reachable ok Config_default True b"
    by (rule bridge_created [OF r [unfolded e] _ b(1)]) (simp add: su_def)
  then show ?thesis using b g nz x2 camera by (simp add: d su_def)
qed

lemma sample_bridge:
  "\<exists>b. bridge_reachable ok Config_default True b \<and> br_gamepad b \<noteq> None \<and> br_opened b \<noteq> 0"
  using sample_bridge_new by blast

lemma bridge_virtual_keys_witness:
  "\<exists>b vd. bridge_reachable (\<lambda>_. True) Config_default True b \<and> output_of DevGamepad b = Some vd
    \<and> vd_created vd \<and> kernel_keys {} (vd_events vd) = Some (wanted_keys DevGamepad (br_engine b))"
proof -
  obtain b where b: "bridge_reachable (\<lambda>_. True) Config_default True b" "br_gamepad b \<noteq> None" using sample_bridge by blast
  then show ?thesis using bridge_virtual_keys [OF b(1), of DevGamepad] by (force simp: b(1))
qed

lemma bridge_masks_truthful_witness:
  "\<exists>b. bridge_reachable (\<lambda>_. True) Config_default True b \<and> br_opened b \<noteq> 0
    \<and> br_opened b = opened (br_iface b)"
  using bridge_masks_truthful sample_bridge by metis

lemma bridge_events_accepted_witness:
  "\<exists>b. bridge_reachable hardware_ok Config_default True b \<and> br_gamepad b \<noteq> None
    \<and> list_all (accepts VkController) (case br_gamepad b of None \<Rightarrow> [] | Some vd \<Rightarrow> vd_events vd)"
  using bridge_events_accepted sample_bridge [of hardware_ok] by blast

lemma capture_opens_sensors_witness:
  "\<exists>b r b'. bridge_reachable (\<lambda>_. True) Config_default True b \<and> set_capture sample_bridge_env True b = (r, b')
    \<and> ii_fd (hi_inputs (br_iface b) ! 2) < 0 \<and> 0 \<le> ii_fd (hi_inputs (br_iface b') ! 2)
    \<and> br_engine b' = br_engine b"
proof -
  obtain b x where b: "bridge_reachable (\<lambda>_. True) Config_default True b" "\<not> br_capture b"
    "x = hi_inputs (br_iface b) ! 2" "ii_fd x < 0" "ii_available x" "ii_node x = Some ''event2''"
    using sample_bridge_new by blast
  obtain r b' where s: "set_capture sample_bridge_env True b = (r, b')" by force
  have "bit MASK_ALL (if_index 2)" by (simp add: MASK_ALL_def if_index_def bit_simps)
  then have "0 \<le> ii_fd (hi_inputs (br_iface b') ! 2) \<and> br_engine b' = br_engine b"
    using capture_opens_sensors [OF b(1) s _ _ b(3) refl] b(2,4-6)
    by (simp add: sample_bridge_env_def sample_open_env_def not_le [symmetric])
  then show ?thesis using b s by blast
qed

text \<open>An open infrared camera, and a round in which it reports once.\<close>

definition sample_camera :: hid_interface where
  "sample_camera = set_input Interface_start 2 ((InputInterface_new 2)\<lparr>ii_fd := 7\<rparr>)"

definition sample_report :: dispatch_env where
  "sample_report = sample_dispatch_env\<lparr>de_epoll := Inr [(3, EPOLLIN)],
     de_reads := (\<lambda>_. [RawEvent \<lparr>ie_time = \<lparr>tv_sec = 1, tv_usec = 0\<rparr>, ie_type = EV_SYN, ie_code = SYN_REPORT, ie_value = 0\<rparr>])\<rparr>"

lemma sample_camera_reports:
  "\<exists>ev d. dispatch sample_report sample_camera = (Inr ev, d) \<and> (\<exists>vs. ev_kind ev = EIr vs)
    \<and> fst (dispatch sample_dispatch_env d) = Inl EAGAIN"
proof -
  have ten: "ten Interface_start" by (simp add: ten_def Interface_start_def)
  have "\<not> input_pending x" if "x \<in> set (hi_inputs Interface_start)" for x
    using that by (auto simp: Interface_start_def input_pending_def InputInterface_new_def Decoder_new_def RecoveryState_default_def has_pending_def)
  then have "still Interface_start" by (simp add: still_def ten quiet_def list_all_iff)
  then have still: "still sample_camera" unfolding sample_camera_def
    by (rule still_set_input) (simp add: input_pending_def InputInterface_new_def Decoder_new_def RecoveryState_default_def has_pending_def)
  have x: "hi_inputs sample_camera ! 2 = (InputInterface_new 2)\<lparr>ii_fd := 7\<rparr>"
    using ten by (simp add: sample_camera_def set_input_def ten_def)
  have scan: "recovered_scan (map (\<lambda>k. (hi_next_input d + k) mod 10) [0..<10]) (d\<lparr>hi_wake := False\<rparr>) = (None, d\<lparr>hi_wake := False\<rparr>)"
    if "still d" for d
    by (rule still_scan) (use that in \<open>simp_all add: list_all_iff\<close>)
  let ?d = "sample_camera\<lparr>hi_wake := False\<rparr>"
  obtain ev dec where push: "decoder_push (Decoder_new KindIr) \<lparr>ie_time = \<lparr>tv_sec = 1, tv_usec = 0\<rparr>, ie_type = EV_SYN,
      ie_code = SYN_REPORT, ie_value = 0\<rparr> = (Some ev, dec)" "dec = Decoder_new KindIr" "\<exists>vs. ev_kind ev = EIr vs"
    by (simp add: decoder_push_def decoder_report_def Decoder_new_def RecoveryState_default_def EV_SYN_def EV_KEY_def EV_ABS_def
        SYN_REPORT_def SYN_DROPPED_def Let_def)
  have "dispatch sample_report sample_camera = (Inr ev, after_event 2 (set_decoder ?d 2 dec))"
    using push(1) by (simp add: dispatch_def scan [OF still] sample_report_def x read_one_def read_event_def InputInterface_new_def
      epoll_input_index_def MONITOR_EPOLL_TAG_def RECOVERY_EPOLL_TAG_def EV_SYN_def SYN_REPORT_def SYN_DROPPED_def INTERFACE_KINDS_def)
  moreover have "still (after_event 2 (set_decoder ?d 2 dec))"
  proof -
    have "hi_inputs (after_event 2 (set_decoder ?d 2 dec)) = hi_inputs (set_decoder ?d 2 dec)" by simp
    moreover have "still (set_decoder ?d 2 dec)" unfolding set_decoder_def
      by (rule still_set_input) (use still push(2) in \<open>simp_all add: input_pending_def Decoder_new_def RecoveryState_default_def has_pending_def\<close>)
    ultimately show ?thesis using still_cong by blast
  qed
  then have "fst (dispatch sample_dispatch_env (after_event 2 (set_decoder ?d 2 dec))) = Inl EAGAIN"
    by (simp only: dispatch_def scan) (simp add: sample_dispatch_env_def)
  ultimately show ?thesis using push(3) by blast
qed

lemma diagnosis_is_invisible_witness:
  "\<exists>(b :: bridge) envs dn vs. drain_with envs [] 0 b = dn \<and> map ev_kind (dn_events dn) = [EIr vs]
    \<and> br_gamepad b \<noteq> None \<and> br_gamepad (dn_bridge dn) = br_gamepad b \<and> br_engine (dn_bridge dn) = br_engine b
    \<and> dn_writes dn = []"
proof -
  obtain b0 :: bridge where b0: "br_gamepad b0 \<noteq> None" "br_profile b0 = GAMEPAD" "br_config b0 = Config_default"
    using sample_bridge_new [where ok = "\<lambda>_. True" and path = "''p''"] by blast
  define b where "b = b0\<lparr>br_iface := sample_camera\<rparr>"
  define envs where "envs = (\<lambda>k :: nat. \<lparr>dr_dispatch = if k = 0 then sample_report else sample_dispatch_env,
    dr_bridge = sample_bridge_env, dr_now = 0\<rparr>)"
  obtain ev d vs where d: "dispatch sample_report sample_camera = (Inr ev, d)" "ev_kind ev = EIr vs"
    "fst (dispatch sample_dispatch_env d) = Inl EAGAIN" using sample_camera_reports by blast
  obtain d2 where d2: "dispatch sample_dispatch_env d = (Inl EAGAIN, d2)" using d(3) by (metis prod.collapse)
  define dn where "dn = drain_with envs [] 0 b"
  have wanted: "requested_interfaces (br_profile b) (br_config b) AND MASK_IR = 0"
    by (simp add: b_def b0 requested_interfaces_def Profile_contains_def GAMEPAD_def DESKTOP_def Config_default_def MASK_defs)
  then have "\<not> forwards_to_engine (EIr vs) (br_profile b) (br_config b)" by (simp add: forwards_iff)
  then have h: "handle_event sample_bridge_env (EIr vs) [] (b\<lparr>br_iface := d\<rparr>) = (Inr BridgeContinue, [], b\<lparr>br_iface := d\<rparr>)"
    by (simp add: handle_event_def)
  obtain q lines where t: "bridge_trace 0 0 (EIr vs) b = (q, lines)" by force
  have "MAX_EVENTS_PER_DRAIN = Suc (Suc 254)" by (simp add: MAX_EVENTS_PER_DRAIN_def)
  then obtain m where max: "MAX_EVENTS_PER_DRAIN = Suc (Suc m)" by blast
  have i: "br_iface b = sample_camera" by (simp add: b_def)
  have "dn_events dn = [ev]"
    unfolding dn_def drain_with_def max by (simp add: envs_def i d d2 h t Let_def)
  then have evs: "map ev_kind (dn_events dn) = [EIr vs]" by (simp add: d(2))
  have "\<exists>r. process_all [] [] b = (r, dn_writes dn, (dn_bridge dn)\<lparr>br_iface := br_iface b\<rparr>) \<and> (r \<noteq> None \<longrightarrow> dn_result dn = Inl (the r))"
    by (rule diagnosis_is_invisible [OF dn_def [symmetric]])
      (use evs wanted in \<open>auto simp: List.map_filter_simps\<close>)
  then have "dn_writes dn = [] \<and> b = (dn_bridge dn)\<lparr>br_iface := br_iface b\<rparr>" by simp
  then have "dn_writes dn = [] \<and> br_gamepad (dn_bridge dn) = br_gamepad b \<and> br_engine (dn_bridge dn) = br_engine b"
    by (metis bridge.select_convs(4,6) bridge.ext_inject bridge.surjective bridge.update_convs(3))
  then show ?thesis using evs b0(1) dn_def by (intro exI [of _ b] exI [of _ envs] exI [of _ dn] exI [of _ vs]) (simp add: b_def)
qed

end
