(* ===== verification/Diag_Writer.thy ===== *)
theory Diag_Writer
  imports Std_Text
begin

text \<open>
  The bounded, best-effort diagnostic output of the daemon: \<open>crates/wiilandd/src/diagnostics.rs\<close>. The
  reactor's side never blocks: a record that is too long, or finds the queue full or the writer
  gone, is counted and dropped. The writer's thread takes the records one by one and says how many
  were lost; whether its writes succeed is an argument.
\<close>

definition QUEUE_RECORDS :: nat where "QUEUE_RECORDS = 256"
definition MAX_RECORD_BYTES :: nat where "MAX_RECORD_BYTES = 16 * 1024"

record diag_sender =
  dq_queue :: "string list"
  dq_dropped :: nat
  dq_open :: bool

definition diag_new :: diag_sender where
  "diag_new = \<lparr>dq_queue = [], dq_dropped = 0, dq_open = True\<rparr>"

definition diag_send :: "string \<Rightarrow> diag_sender \<Rightarrow> diag_sender" where
  "diag_send line d =
    (if length line > MAX_RECORD_BYTES \<or> length (dq_queue d) \<ge> QUEUE_RECORDS \<or> \<not> dq_open d
     then d\<lparr>dq_dropped := (dq_dropped d + 1) mod 18446744073709551616\<rparr>
     else d\<lparr>dq_queue := dq_queue d @ [line]\<rparr>)"

text \<open>
  One turn of the writer, with the count it last reported: the lines written, and the writer's new
  count, \<open>None\<close> when it stops after a failed write. \<open>notice_ok\<close> and \<open>line_ok\<close> say whether the writes
  succeed; the subtraction is that of the machine (\<open>u64\<close>).
\<close>

definition diag_notice :: "nat \<Rightarrow> string" where
  "diag_notice n = ''wiilandd: diagnostics: dropped '' @ dec_nat n @ '' records''"

definition writer_turn ::
  "bool \<Rightarrow> bool \<Rightarrow> nat \<Rightarrow> diag_sender \<Rightarrow> string list \<times> nat option \<times> diag_sender" where
  "writer_turn notice_ok line_ok reported d =
    (case dq_queue d of
       [] \<Rightarrow> ([], Some reported, d)
     | line # rest \<Rightarrow>
         (let d' = d\<lparr>dq_queue := rest\<rparr>;
              current = dq_dropped d;
              notice = (if current \<noteq> reported then [diag_notice (current - reported)] else [])
          in if current \<noteq> reported \<and> \<not> notice_ok then ([], None, d'\<lparr>dq_open := False\<rparr>)
             else if \<not> line_ok then (notice, None, d'\<lparr>dq_open := False\<rparr>)
             else (notice @ [line], Some current, d')))"

lemma diag_send_bounded:
  "length (dq_queue d) \<le> QUEUE_RECORDS \<Longrightarrow> length (dq_queue (diag_send line d)) \<le> QUEUE_RECORDS"
  by (auto simp: diag_send_def)

text \<open>A record is queued or counted, never both; the queue keeps what it held.\<close>

lemma diag_send_counts:
  "diag_send line d = d\<lparr>dq_queue := dq_queue d @ [line]\<rparr>
    \<or> diag_send line d = d\<lparr>dq_dropped := (dq_dropped d + 1) mod 18446744073709551616\<rparr>"
  by (simp add: diag_send_def)

end
