(* ===== verification/Runtime.thy ===== *)
theory Runtime
  imports Ipc_Server_Facts Bridge Config_Dump Diag_Writer
begin

text \<open>
  The reactor of the daemon: \<open>crates/wiilandd/src/runtime.rs\<close>, over the interfaces of \<open>platform.rs\<close>.
  It owns 32 device slots, the socket server and the queues of discovery, and serves them all on
  one thread. The source is generic in the device (\<open>DeviceSession\<close>): here its methods are the record
  \<open>session_ops\<close>, an argument. What the platform answers (poll, monitor, snapshots, the clock, the
  opening of devices) is an argument too. Errors are negative numbers. Instants are nanoseconds.
\<close>

section \<open>Paths\<close>

text \<open>
  \<open>Path\<close>s are equal when their components are: repeated separators, a trailing one and \<open>.\<close> do not
  count, save a leading \<open>.\<close> of a relative path.
\<close>

fun path_pieces :: "string \<Rightarrow> string list" where
  "path_pieces [] = [[]]"
| "path_pieces (c # s) =
    (if c = CHR ''/'' then [] # path_pieces s
     else case path_pieces s of [] \<Rightarrow> [[c]] | p # ps \<Rightarrow> (c # p) # ps)"

definition path_key :: "string \<Rightarrow> bool \<times> bool \<times> string list" where
  "path_key p =
    (let rooted = (p \<noteq> [] \<and> hd p = CHR ''/''); pieces = path_pieces p
     in (rooted, \<not> rooted \<and> hd pieces = ''.'', filter (\<lambda>c. c \<noteq> [] \<and> c \<noteq> ''.'') pieces))"

definition path_eq :: "string \<Rightarrow> string \<Rightarrow> bool" where
  "path_eq p q \<longleftrightarrow> path_key p = path_key q"

lemma path_eq_refl [simp]: "path_eq p p"
  and path_eq_sym: "path_eq p q \<Longrightarrow> path_eq q p"
  and path_eq_trans: "path_eq p q \<Longrightarrow> path_eq q r \<Longrightarrow> path_eq p r"
  by (simp_all add: path_eq_def)

section \<open>Wire values\<close>

definition wire_axis :: "axis3 \<Rightarrow> wire_axis3" where
  "wire_axis v = \<lparr>wa_x = ax_x v, wa_y = ax_y v, wa_z = ax_z v\<rparr>"

definition wire_key :: "button_event \<Rightarrow> wire_button" where
  "wire_key k = \<lparr>wb_code = Button_code (be_button k), wb_state = ButtonState_value (be_state k)\<rparr>"

fun input_payload_of :: "event_kind \<Rightarrow> input_payload" where
  "input_payload_of (EKey k) = PlKey (wire_key k)"
| "input_payload_of (EAccel v) = PlAccel (wire_axis v)"
| "input_payload_of (EIr vs) = PlIr (map wire_axis vs)"
| "input_payload_of (EBalanceBoard vs) = PlBalanceBoard (map wire_axis vs)"
| "input_payload_of (EMotionPlus v) = PlMotionPlus (wire_axis v)"
| "input_payload_of (EProControllerKey k) = PlProControllerKey (wire_key k)"
| "input_payload_of (EProControllerMove vs) = PlProControllerMove (map wire_axis vs)"
| "input_payload_of EWatch = PlWatch"
| "input_payload_of (EClassicControllerKey k) = PlClassicControllerKey (wire_key k)"
| "input_payload_of (EClassicControllerMove vs) = PlClassicControllerMove (map wire_axis vs)"
| "input_payload_of (ENunchukKey k) = PlNunchukKey (wire_key k)"
| "input_payload_of (ENunchukMove vs) = PlNunchukMove (map wire_axis vs)"
| "input_payload_of (EDrumsKey k) = PlDrumsKey (wire_key k)"
| "input_payload_of (EDrumsMove vs) = PlDrumsMove (map wire_axis vs)"
| "input_payload_of (EGuitarKey k) = PlGuitarKey (wire_key k)"
| "input_payload_of (EGuitarMove vs) = PlGuitarMove (map wire_axis vs)"
| "input_payload_of EGone = PlGone"
| "input_payload_of (EUnknown n) = PlUnknown n"

definition wire_time :: "hid_event \<Rightarrow> wire_timestamp" where
  "wire_time ev =
    \<lparr>wt_seconds = ts_seconds (ev_time ev), wt_micros = nat (ts_microseconds (ev_time ev))\<rparr>"

definition ipc_profile :: "profile \<Rightarrow> wire_profile" where
  "ipc_profile p =
    (if p = GAMEPAD then WireGamepad else if p = DESKTOP then WireDesktop
     else if p = BOTH then WireBoth else WireNone)"

definition next_sequence :: "nat \<Rightarrow> nat" where
  "next_sequence s = (let n = (s + 1) mod 18446744073709551616 in if n = 0 then 1 else n)"

section \<open>Lifecycle messages\<close>

datatype lifecycle =
    LcAdd string | LcRemove string | LcGone string | LcReconcile nat nat nat
  | LcError string "string option" int

fun lifecycle_text :: "lifecycle \<Rightarrow> string" where
  "lifecycle_text (LcAdd p) = ''wiilandd: add: '' @ p"
| "lifecycle_text (LcRemove p) = ''wiilandd: remove: '' @ p"
| "lifecycle_text (LcGone p) = ''wiilandd: gone: '' @ p"
| "lifecycle_text (LcReconcile snapshot queued active) =
    ''wiilandd: reconcile: snapshot='' @ dec_nat snapshot @ '' queued='' @ dec_nat queued
      @ '' active='' @ dec_nat active"
| "lifecycle_text (LcError operation (Some p) code) =
    ''wiilandd: error: '' @ operation @ '' '' @ p @ '': '' @ dec_int code"
| "lifecycle_text (LcError operation None code) =
    ''wiilandd: error: '' @ operation @ '': '' @ dec_int code"


section \<open>Device sessions\<close>

text \<open>What one drain of a device reports: its result, the events seen, the trace lines, the trace counter.\<close>

record 'd session_drained =
  sd_result :: "int + bridge_action"
  sd_events :: "hid_event list"
  sd_lines :: "string list"
  sd_sequence :: nat
  sd_device :: 'd

text \<open>The methods of a device; \<open>'e\<close> is what its kernel answers during a call.\<close>

record ('d, 'e) session_ops =
  so_open :: "'e \<Rightarrow> string \<Rightarrow> config \<Rightarrow> bool \<Rightarrow> int + 'd"
  so_path :: "'d \<Rightarrow> string"
  so_info :: "'d \<Rightarrow> device_info"
  so_drain :: "'e \<Rightarrow> nat \<Rightarrow> 'd \<Rightarrow> 'd session_drained"
  so_set_capture :: "'e \<Rightarrow> bool \<Rightarrow> 'd \<Rightarrow> int option \<times> 'd"
  so_pointer_active :: "'d \<Rightarrow> bool"
  so_tick_pointer :: "'e \<Rightarrow> 'd \<Rightarrow> int option \<times> 'd"
  so_set_trace :: "trace_filter \<Rightarrow> 'd \<Rightarrow> 'd"

section \<open>The runtime\<close>

definition MAX_DEVICES :: nat where "MAX_DEVICES = 32"
definition POINTER_TICK :: nat where "POINTER_TICK = 16000 * 1000"
definition RECONCILE_TICK :: nat where "RECONCILE_TICK = 1000000000"
definition DEVICE_SETUP_BUDGET :: nat where "DEVICE_SETUP_BUDGET = 2"
definition MONITOR_EVENT_BUDGET :: nat where "MONITOR_EVENT_BUDGET = 32"
definition ENOSPC :: int where "ENOSPC = 28"

text \<open>\<open>rt_published\<close> is the list of the notifications given to the server, for the specification.\<close>

record 'd runtime =
  rt_config :: config
  rt_slots :: "'d option list"
  rt_snapshot_pending :: bool
  rt_monitor_pending :: bool
  rt_reconcile_again :: bool
  rt_pending_additions :: "string list"
  rt_dry_run :: bool
  rt_verbose :: bool
  rt_lifecycle :: diag_sender
  rt_trace :: trace_config
  rt_trace_sequence :: nat
  rt_trace_writer :: diag_sender
  rt_notification_sequence :: nat
  rt_ipc :: "ipc_server option"
  rt_metrics :: diagnostics
  rt_published :: "notification list"

definition runtime_new :: "config \<Rightarrow> int + 'd runtime" where
  "runtime_new c =
    (if Config_validate c \<noteq> None then Inl (- EINVAL)
     else Inr \<lparr>
       rt_config = c, rt_slots = replicate MAX_DEVICES None, rt_snapshot_pending = False,
       rt_monitor_pending = False, rt_reconcile_again = False, rt_pending_additions = [],
       rt_dry_run = False, rt_verbose = False, rt_lifecycle = diag_new, rt_trace = TraceConfig_default,
       rt_trace_sequence = 0, rt_trace_writer = diag_new, rt_notification_sequence = 0, rt_ipc = None,
       rt_metrics = \<lparr>dg_trace_records_dropped = 0, dg_lifecycle_records_dropped = 0,
         dg_max_pointer_lateness_us = 0, dg_max_dispatch_duration_us = 0\<rparr>,
       rt_published = []\<rparr>)"

definition enable_ipc :: "'d runtime \<Rightarrow> 'd runtime" where
  "enable_ipc rt = rt\<lparr>rt_ipc := Some IpcServer_new\<rparr>"

text \<open>What the process knows of itself, and JSON.\<close>

record daemon_env =
  dm_to_json :: "server_message \<Rightarrow> string + bytes"
  dm_from_json :: "bytes \<Rightarrow> string + request"
  dm_version :: string
  dm_pid :: nat
  dm_socket :: string

definition status_snapshot :: "daemon_env \<Rightarrow> 'd option list \<Rightarrow> bool \<Rightarrow> daemon_status" where
  "status_snapshot dm slots dry_run = \<lparr>
     st_daemon_version = dm_version dm, st_pid = dm_pid dm,
     st_device_count = length (filter (\<lambda>s. s \<noteq> None) slots) mod 4294967296,
     st_dry_run = dry_run, st_socket_path = dm_socket dm\<rparr>"

definition device_snapshot :: "('d, 'e) session_ops \<Rightarrow> 'd option list \<Rightarrow> device_info list" where
  "device_snapshot ops slots = map (so_info ops) (List.map_filter id slots)"

definition server_env :: "daemon_env \<Rightarrow> ('d, 'e) session_ops \<Rightarrow> 'd runtime \<Rightarrow> ipc_env" where
  "server_env dm ops rt = \<lparr>
     env_to_json = dm_to_json dm, env_from_json = dm_from_json dm,
     env_status = status_snapshot dm (rt_slots rt) (rt_dry_run rt),
     env_devices = device_snapshot ops (rt_slots rt), env_version = dm_version dm\<rparr>"

definition emit_lifecycle :: "lifecycle \<Rightarrow> 'd runtime \<Rightarrow> 'd runtime" where
  "emit_lifecycle ev rt =
    (if rt_verbose rt then rt\<lparr>rt_lifecycle := diag_send (lifecycle_text ev) (rt_lifecycle rt)\<rparr> else rt)"

definition rt_publish ::
  "daemon_env \<Rightarrow> ('d, 'e) session_ops \<Rightarrow> notification \<Rightarrow> 'd runtime \<Rightarrow> 'd runtime" where
  "rt_publish dm ops event rt =
    (case rt_ipc rt of
       None \<Rightarrow> rt
     | Some s \<Rightarrow> rt\<lparr>rt_ipc := Some (publish (server_env dm ops rt) event s),
                     rt_published := rt_published rt @ [event]\<rparr>)"

definition publish_added ::
  "daemon_env \<Rightarrow> ('d, 'e) session_ops \<Rightarrow> device_info \<Rightarrow> 'd runtime \<Rightarrow> 'd runtime" where
  "publish_added dm ops info rt =
    (let n = next_sequence (rt_notification_sequence rt)
     in rt_publish dm ops (NoteDeviceAdded n info) (rt\<lparr>rt_notification_sequence := n\<rparr>))"

definition publish_removed ::
  "daemon_env \<Rightarrow> ('d, 'e) session_ops \<Rightarrow> string \<Rightarrow> removal_reason \<Rightarrow> 'd runtime \<Rightarrow> 'd runtime" where
  "publish_removed dm ops path reason rt =
    (let n = next_sequence (rt_notification_sequence rt)
     in rt_publish dm ops (NoteDeviceRemoved n path reason) (rt\<lparr>rt_notification_sequence := n\<rparr>))"

definition rt_find :: "('d, 'e) session_ops \<Rightarrow> string \<Rightarrow> 'd runtime \<Rightarrow> nat option" where
  "rt_find ops path rt =
    position (\<lambda>s. case s of None \<Rightarrow> False | Some d \<Rightarrow> path_eq (so_path ops d) path) (rt_slots rt)"

definition add_path ::
  "daemon_env \<Rightarrow> ('d, 'e) session_ops \<Rightarrow> 'e \<Rightarrow> string \<Rightarrow> 'd runtime \<Rightarrow> (int + bool) \<times> 'd runtime" where
  "add_path dm ops e path rt =
    (if rt_find ops path rt \<noteq> None then (Inr False, rt)
     else case position (\<lambda>s. s = None) (rt_slots rt) of
       None \<Rightarrow> (Inl (- ENOSPC), emit_lifecycle (LcError ''add'' (Some path) (- ENOSPC)) rt)
     | Some slot \<Rightarrow>
         (case so_open ops e path (rt_config rt) (\<not> rt_dry_run rt) of
            Inl code \<Rightarrow> (Inl code, emit_lifecycle (LcError ''add'' (Some path) code) rt)
          | Inr opened_dev \<Rightarrow>
              (let dev = (if tc_enabled (rt_trace rt) then so_set_trace ops (tc_filter (rt_trace rt)) opened_dev
                          else opened_dev);
                   rt1 = rt\<lparr>rt_slots := (rt_slots rt)[slot := Some dev]\<rparr>
               in (Inr True, emit_lifecycle (LcAdd path) (publish_added dm ops (so_info ops dev) rt1)))))"

text \<open>\<open>take\<close> of a slot: when it held a device, the removal is published and a message given.\<close>

definition release_slot ::
  "daemon_env \<Rightarrow> ('d, 'e) session_ops \<Rightarrow> nat \<Rightarrow> string \<Rightarrow> removal_reason \<Rightarrow> lifecycle \<Rightarrow> 'd runtime \<Rightarrow> 'd runtime" where
  "release_slot dm ops slot path reason event rt =
    (if rt_slots rt ! slot = None then rt
     else emit_lifecycle event
       (publish_removed dm ops path reason (rt\<lparr>rt_slots := (rt_slots rt)[slot := None]\<rparr>)))"

section \<open>Discovery\<close>

text \<open>\<open>req\<close>: the error number with which the platform refuses a snapshot request, if it does.\<close>

definition request_reconcile :: "int option \<Rightarrow> 'd runtime \<Rightarrow> 'd runtime" where
  "request_reconcile req rt =
    (if rt_snapshot_pending rt \<or> rt_pending_additions rt \<noteq> [] then rt\<lparr>rt_reconcile_again := True\<rparr>
     else case req of
       None \<Rightarrow> rt\<lparr>rt_snapshot_pending := True\<rparr>
     | Some code \<Rightarrow> emit_lifecycle (LcError ''reconcile request'' None code) rt)"

definition push_unique :: "string list \<Rightarrow> string \<Rightarrow> string list" where
  "push_unique paths path = (if list_ex (path_eq path) paths then paths else paths @ [path])"

text \<open>The occupied slots, in their order, with their devices.\<close>

definition active_slots :: "'d option list \<Rightarrow> (nat \<times> 'd) list" where
  "active_slots slots =
    List.map_filter (\<lambda>(slot, s). map_option (Pair slot) s) (zip [0..<length slots] slots)"

definition missing_slots :: "(nat \<times> string) list \<Rightarrow> string list \<Rightarrow> nat list" where
  "missing_slots active present =
    map fst (filter (\<lambda>(slot, path). \<not> list_ex (\<lambda>q. path_eq q path) present) active)"

definition remove_missing ::
  "daemon_env \<Rightarrow> ('d, 'e) session_ops \<Rightarrow> 'd runtime \<Rightarrow> nat \<Rightarrow> 'd runtime" where
  "remove_missing dm ops rt slot =
    (case rt_slots rt ! slot of
       None \<Rightarrow> rt
     | Some d \<Rightarrow> release_slot dm ops slot (so_path ops d) ReasonRemoved (LcRemove (so_path ops d)) rt)"

definition new_paths :: "('d, 'e) session_ops \<Rightarrow> 'd runtime \<Rightarrow> string list \<Rightarrow> string list" where
  "new_paths ops rt paths = foldl push_unique [] (filter (\<lambda>p. rt_find ops p rt = None) paths)"

definition apply_snapshot ::
  "daemon_env \<Rightarrow> ('d, 'e) session_ops \<Rightarrow> string list \<Rightarrow> 'd runtime \<Rightarrow> 'd runtime" where
  "apply_snapshot dm ops paths rt =
    (let missing = missing_slots (map (\<lambda>(slot, d). (slot, so_path ops d)) (active_slots (rt_slots rt))) paths;
         rt1 = foldl (remove_missing dm ops) rt missing;
         rt2 = rt1\<lparr>rt_pending_additions := rt_pending_additions rt1 @ new_paths ops rt1 paths\<rparr>
     in emit_lifecycle
          (LcReconcile (length paths) (length (rt_pending_additions rt2)) (length (active_slots (rt_slots rt2)))) rt2)"

primrec add_pending ::
  "daemon_env \<Rightarrow> ('d, 'e) session_ops \<Rightarrow> (nat \<Rightarrow> 'e) \<Rightarrow> nat \<Rightarrow> 'd runtime \<Rightarrow> 'd runtime" where
  "add_pending dm ops es 0 rt = rt"
| "add_pending dm ops es (Suc n) rt =
    (case rt_pending_additions rt of
       [] \<Rightarrow> rt
     | path # paths \<Rightarrow>
         add_pending dm ops es n (snd (add_path dm ops (es n) path (rt\<lparr>rt_pending_additions := paths\<rparr>))))"

text \<open>\<open>taken\<close>: what \<open>take_snapshot\<close> returns; \<open>es\<close>: what the kernel answers when devices are opened.\<close>

definition discovery_work ::
  "daemon_env \<Rightarrow> ('d, 'e) session_ops \<Rightarrow> (int + string list) option \<Rightarrow> (nat \<Rightarrow> 'e) \<Rightarrow> 'd runtime \<Rightarrow> 'd runtime" where
  "discovery_work dm ops taken es rt =
    (let rt1 = (if rt_snapshot_pending rt then
                  (case taken of
                     None \<Rightarrow> rt
                   | Some (Inr paths) \<Rightarrow> apply_snapshot dm ops paths (rt\<lparr>rt_snapshot_pending := False\<rparr>)
                   | Some (Inl code) \<Rightarrow>
                       emit_lifecycle (LcError ''reconcile snapshot'' None code) (rt\<lparr>rt_snapshot_pending := False\<rparr>))
                else rt)
     in add_pending dm ops es DEVICE_SETUP_BUDGET rt1)"

definition service_discovery ::
  "daemon_env \<Rightarrow> ('d, 'e) session_ops \<Rightarrow> (int + string list) option \<Rightarrow> (nat \<Rightarrow> 'e) \<Rightarrow> int option \<Rightarrow>
    'd runtime \<Rightarrow> 'd runtime" where
  "service_discovery dm ops taken es req rt =
    (let rt2 = discovery_work dm ops taken es rt
     in if \<not> rt_snapshot_pending rt2 \<and> rt_pending_additions rt2 = [] \<and> rt_reconcile_again rt2
        then request_reconcile req (rt2\<lparr>rt_reconcile_again := False\<rparr>) else rt2)"

section \<open>Events of a device\<close>

definition should_collect_input :: "bool option \<Rightarrow> bool" where
  "should_collect_input subscribers \<longleftrightarrow> subscribers = Some True"

text \<open>The notifications of a drain, each with the next sequence number.\<close>

fun input_notes :: "string \<Rightarrow> nat \<Rightarrow> hid_event list \<Rightarrow> notification list" where
  "input_notes syspath n [] = []"
| "input_notes syspath n (ev # evs) =
    (let m = next_sequence n
     in NoteInput m syspath (wire_time ev) (input_payload_of (ev_kind ev)) # input_notes syspath m evs)"

definition drain_device ::
  "daemon_env \<Rightarrow> ('d, 'e) session_ops \<Rightarrow> 'e \<Rightarrow> nat \<Rightarrow> bool \<Rightarrow> 'd runtime \<Rightarrow> int option \<times> 'd runtime" where
  "drain_device dm ops e slot single rt =
    (case rt_slots rt ! slot of
       None \<Rightarrow> (None, rt)
     | Some d \<Rightarrow>
         (let path = so_path ops d;
              sd = so_drain ops e (rt_trace_sequence rt) d;
              rt1 = rt\<lparr>rt_slots := (rt_slots rt)[slot := Some (sd_device sd)],
                       rt_trace_sequence := sd_sequence sd,
                       rt_trace_writer := foldl (\<lambda>w line. diag_send line w) (rt_trace_writer rt) (sd_lines sd)\<rparr>;
              rt2 = (if should_collect_input (map_option has_input_subscribers (rt_ipc rt)) then
                       foldl (\<lambda>r event. rt_publish dm ops event r)
                         (rt1\<lparr>rt_notification_sequence :=
                                (next_sequence ^^ length (sd_events sd)) (rt_notification_sequence rt)\<rparr>)
                         (input_notes path (rt_notification_sequence rt) (sd_events sd))
                     else rt1)
          in case sd_result sd of
               Inr BridgeContinue \<Rightarrow> (None, rt2)
             | Inr BridgeGone \<Rightarrow> (None, release_slot dm ops slot path ReasonGone (LcGone path) rt2)
             | Inl code \<Rightarrow>
                 (if single then Some code else None,
                  release_slot dm ops slot path ReasonDrainError (LcError ''drain'' (Some path) code) rt2)))"

section \<open>Control commands\<close>

definition control_command ::
  "('d, 'e) session_ops \<Rightarrow> 'e \<Rightarrow> command \<Rightarrow> 'd runtime \<Rightarrow> (protocol_error + response_result) \<times> 'd runtime" where
  "control_command ops e cmd rt =
    (case cmd of
       CmdDiagnostics \<Rightarrow>
         (Inr (ResDiagnostics ((rt_metrics rt)\<lparr>
            dg_trace_records_dropped := dq_dropped (rt_trace_writer rt),
            dg_lifecycle_records_dropped := dq_dropped (rt_lifecycle rt)\<rparr>)), rt)
     | CmdConfig \<Rightarrow> (Inr (ResConfig (Config_dump (rt_config rt))), rt)
     | CmdStartCapture syspath \<Rightarrow>
         (case rt_find ops syspath rt of
            None \<Rightarrow> (Inl \<lparr>pe_code = InvalidRequest, pe_message = ''device is not owned by this daemon''\<rparr>, rt)
          | Some slot \<Rightarrow>
              (case rt_slots rt ! slot of
                 None \<Rightarrow> (Inl \<lparr>pe_code = InvalidRequest, pe_message = ''device is not owned by this daemon''\<rparr>, rt)
               | Some d \<Rightarrow>
                   (case so_set_capture ops e True d of
                      (r, d') \<Rightarrow>
                        ((case r of
                            Some code \<Rightarrow> Inl \<lparr>pe_code = InternalError,
                              pe_message = ''cannot open capture interfaces: '' @ dec_int code\<rparr>
                          | None \<Rightarrow> Inr (ResCaptureStarted (so_info ops d'))),
                         rt\<lparr>rt_slots := (rt_slots rt)[slot := Some d']\<rparr>))))
     | CmdStopCapture \<Rightarrow> (Inr ResCaptureStopped, rt)
     | _ \<Rightarrow> (Inl \<lparr>pe_code = UnknownCommand, pe_message = ''unsupported control command''\<rparr>, rt))"

text \<open>The commands the connections deferred, each answered to its connection.\<close>

fun complete_commands ::
  "daemon_env \<Rightarrow> ('d, 'e) session_ops \<Rightarrow> (nat \<Rightarrow> 'e) \<Rightarrow> nat \<Rightarrow> (nat \<times> nat \<times> command) list \<Rightarrow> 'd runtime \<Rightarrow> 'd runtime" where
  "complete_commands dm ops es k [] rt = rt"
| "complete_commands dm ops es k ((token, i, cmd) # cmds) rt =
    (case control_command ops (es k) cmd rt of
       (result, rt1) \<Rightarrow>
         complete_commands dm ops es (Suc k) cmds
           (rt1\<lparr>rt_ipc := map_option (complete_command (server_env dm ops rt1) token i result) (rt_ipc rt1)\<rparr>))"

text \<open>Every device captures as long as a live connection leases it.\<close>

definition apply_capture ::
  "('d, 'e) session_ops \<Rightarrow> (nat \<Rightarrow> 'e) \<Rightarrow> string list \<Rightarrow> 'd runtime \<Rightarrow> nat \<Rightarrow> 'd runtime" where
  "apply_capture ops es captures rt slot =
    (case rt_slots rt ! slot of
       None \<Rightarrow> rt
     | Some d \<Rightarrow>
         (case so_set_capture ops (es slot) (list_ex (\<lambda>path. path_eq path (so_path ops d)) captures) d of
            (r, d') \<Rightarrow>
              (let rt1 = rt\<lparr>rt_slots := (rt_slots rt)[slot := Some d']\<rparr>
               in case r of None \<Rightarrow> rt1
                 | Some code \<Rightarrow> emit_lifecycle (LcError ''capture'' (Some (so_path ops d')) code) rt1)))"

text \<open>\<open>cs\<close> is what the kernel answers during the commands, \<open>es\<close> during the captures of the slots.\<close>

definition service_commands ::
  "daemon_env \<Rightarrow> ('d, 'e) session_ops \<Rightarrow> (nat \<Rightarrow> 'e) \<Rightarrow> (nat \<Rightarrow> 'e) \<Rightarrow> 'd runtime \<Rightarrow> 'd runtime" where
  "service_commands dm ops cs es rt =
    (let (cmds, ipc) = (case rt_ipc rt of
                          None \<Rightarrow> ([], None)
                        | Some s \<Rightarrow> (case take_commands s of (cmds, s') \<Rightarrow> (cmds, Some s')));
         rt1 = complete_commands dm ops cs 0 cmds (rt\<lparr>rt_ipc := ipc\<rparr>);
         captures = (case rt_ipc rt1 of None \<Rightarrow> [] | Some s \<Rightarrow> capture_paths s)
     in foldl (apply_capture ops es captures) rt1 [0..<length (rt_slots rt1)])"


section \<open>One round of the reactor\<close>

datatype poll_owner = OwnSignal | OwnMonitor | OwnDevice nat | OwnIpc nat

definition has_ready_ipc :: "poll_owner list \<Rightarrow> u16 list \<Rightarrow> bool" where
  "has_ready_ipc owners revents \<longleftrightarrow>
    list_ex (\<lambda>(owner, ev). (case owner of OwnIpc token \<Rightarrow> ev \<noteq> 0 | _ \<Rightarrow> False)) (zip owners revents)"

definition poll_owners :: "bool \<Rightarrow> 'd runtime \<Rightarrow> poll_owner list" where
  "poll_owners monitor rt =
    OwnSignal # (if monitor then [OwnMonitor] else [])
      @ map (\<lambda>(slot, d). OwnDevice slot) (active_slots (rt_slots rt))
      @ (case rt_ipc rt of None \<Rightarrow> [] | Some s \<Rightarrow> map (\<lambda>p. OwnIpc (ps_token p)) (poll_sources s))"

text \<open>
  What one call of \<open>poll\<close> and the calls it triggers return: the count or the error number of \<open>poll\<close>,
  the event bits by index, whether a shutdown was requested meanwhile, \<open>drain_monitor\<close> and the
  answer to a snapshot request, the socket calls, and the kernel's answers to each device.
\<close>

record 'e poll_env =
  pv_polled :: "int + nat"
  pv_revents :: "nat \<Rightarrow> u16"
  pv_monitor_fd :: bool
  pv_shutdown :: bool
  pv_drain :: "nat \<Rightarrow> 'e"
  pv_monitor :: "int + bool"
  pv_request :: "int option"
  pv_accepts :: "accept_result list"
  pv_reads :: "nat \<Rightarrow> read_result list"
  pv_writes :: "nat \<Rightarrow> write_result list"
  pv_errno :: "string \<Rightarrow> int"
  pv_commands :: "nat \<Rightarrow> 'e"
  pv_captures :: "nat \<Rightarrow> 'e"

fun drain_ready ::
  "daemon_env \<Rightarrow> ('d, 'e) session_ops \<Rightarrow> (nat \<Rightarrow> 'e) \<Rightarrow> bool \<Rightarrow> (poll_owner \<times> u16) list \<Rightarrow> 'd runtime \<Rightarrow>
    int option \<times> 'd runtime" where
  "drain_ready dm ops es single [] rt = (None, rt)"
| "drain_ready dm ops es single ((owner, ev) # rest) rt =
    (case owner of
       OwnDevice slot \<Rightarrow>
         if ev = 0 then drain_ready dm ops es single rest rt
         else (case drain_device dm ops (es slot) slot single rt of
                 (Some code, rt1) \<Rightarrow> (Some code, rt1)
               | (None, rt1) \<Rightarrow> drain_ready dm ops es single rest rt1)
     | _ \<Rightarrow> drain_ready dm ops es single rest rt)"

text \<open>\<open>None\<close> where the server's loop for a free token would not end.\<close>

fun serve_ready ::
  "daemon_env \<Rightarrow> ('d, 'e) session_ops \<Rightarrow> 'e poll_env \<Rightarrow> (poll_owner \<times> u16) list \<Rightarrow> 'd runtime \<Rightarrow>
    (int option \<times> 'd runtime) option" where
  "serve_ready dm ops pv [] rt = Some (None, rt)"
| "serve_ready dm ops pv ((owner, ev) # rest) rt =
    (case (owner, rt_ipc rt) of
       (OwnIpc token, Some s) \<Rightarrow>
         if ev = 0 then serve_ready dm ops pv rest rt
         else (case handle_ready (server_env dm ops rt) token ev (pv_accepts pv) (pv_reads pv token)
                      (pv_writes pv token) s of
                 None \<Rightarrow> None
               | Some (None, s', out) \<Rightarrow> serve_ready dm ops pv rest (rt\<lparr>rt_ipc := Some s'\<rparr>)
               | Some (Some err, s', out) \<Rightarrow>
                   Some (Some (pv_errno pv err),
                         emit_lifecycle (LcError ''ipc'' None (pv_errno pv err)) (rt\<lparr>rt_ipc := Some s'\<rparr>)))
     | _ \<Rightarrow> serve_ready dm ops pv rest rt)"

definition drain_monitor_step :: "'e poll_env \<Rightarrow> 'd runtime \<Rightarrow> 'd runtime" where
  "drain_monitor_step pv rt =
    request_reconcile (pv_request pv)
      (case pv_monitor pv of
         Inr pending \<Rightarrow> rt\<lparr>rt_monitor_pending := pending\<rparr>
       | Inl code \<Rightarrow> emit_lifecycle (LcError ''monitor'' None code) (rt\<lparr>rt_monitor_pending := False\<rparr>))"

text \<open>The result: an error, or whether the daemon is to stop.\<close>

definition poll_once ::
  "daemon_env \<Rightarrow> ('d, 'e) session_ops \<Rightarrow> 'e poll_env \<Rightarrow> bool \<Rightarrow> 'd runtime \<Rightarrow> ((int + bool) \<times> 'd runtime) option" where
  "poll_once dm ops pv single rt =
    (let owners = poll_owners (pv_monitor_fd pv) rt;
         ready = zip owners (map (pv_revents pv) [0..<length owners])
     in if pv_shutdown pv then Some (Inr True, rt)
        else case pv_polled pv of
          Inl code \<Rightarrow>
            if code = - 4 then Some (Inr False, rt)
            else Some (Inl code, emit_lifecycle (LcError ''poll'' None code) rt)
        | Inr count \<Rightarrow>
            (if pv_revents pv 0 \<noteq> 0 then Some (Inr True, rt)
             else if count = 0 \<and> \<not> rt_monitor_pending rt then Some (Inr False, rt)
             else case drain_ready dm ops (pv_drain pv) single ready rt of
               (Some code, rt1) \<Rightarrow> Some (Inl code, rt1)
             | (None, rt1) \<Rightarrow>
                 (let rt2 = (if list_ex (\<lambda>(owner, ev). owner = OwnMonitor \<and> ev \<noteq> 0) ready \<or> rt_monitor_pending rt1
                             then drain_monitor_step pv rt1 else rt1)
                  in case (if has_ready_ipc owners (map (pv_revents pv) [0..<length owners])
                           then serve_ready dm ops pv ready rt2 else Some (None, rt2)) of
                       None \<Rightarrow> None
                     | Some (Some code, rt3) \<Rightarrow> Some (Inl code, rt3)
                     | Some (None, rt3) \<Rightarrow>
                         Some (Inr False, service_commands dm ops (pv_commands pv) (pv_captures pv) rt3))))"

section \<open>The loop\<close>

text \<open>A deadline moves on by whole ticks until it is after \<open>now\<close>.\<close>

function advance_pointer :: "nat \<Rightarrow> nat \<Rightarrow> nat" where
  "advance_pointer deadline now =
    (if deadline \<le> now then advance_pointer (deadline + POINTER_TICK) now else deadline)"
  by auto
termination
  by (relation "measure (\<lambda>(deadline, now). Suc now - deadline)") (auto simp: POINTER_TICK_def)

function advance_reconcile :: "nat \<Rightarrow> nat \<Rightarrow> nat" where
  "advance_reconcile deadline now =
    (if deadline \<le> now then advance_reconcile (deadline + RECONCILE_TICK) now else deadline)"
  by auto
termination
  by (relation "measure (\<lambda>(deadline, now). Suc now - deadline)") (auto simp: RECONCILE_TICK_def)

declare advance_pointer.simps [simp del] advance_reconcile.simps [simp del]

text \<open>The timeout of \<open>poll\<close> in milliseconds: microseconds, rounded up.\<close>

definition poll_timeout :: "bool \<Rightarrow> nat \<Rightarrow> nat \<Rightarrow> nat \<Rightarrow> 'd runtime \<Rightarrow> nat" where
  "poll_timeout single next_pointer next_reconcile now rt =
    (let deadline = (if single then next_pointer else min next_pointer next_reconcile);
         micros = (deadline - now) div 1000;
         ms = min ((micros + 999) div 1000) 2147483647
     in if rt_pending_additions rt = [] \<and> \<not> rt_monitor_pending rt then ms else 0)"

definition as_u64_micros :: "nat \<Rightarrow> nat" where
  "as_u64_micros ns = min (ns div 1000) 18446744073709551615"

fun tick_slots ::
  "daemon_env \<Rightarrow> ('d, 'e) session_ops \<Rightarrow> (nat \<Rightarrow> 'e) \<Rightarrow> bool \<Rightarrow> nat list \<Rightarrow> 'd runtime \<Rightarrow> int option \<times> 'd runtime" where
  "tick_slots dm ops es single [] rt = (None, rt)"
| "tick_slots dm ops es single (slot # slots) rt =
    (case rt_slots rt ! slot of
       None \<Rightarrow> tick_slots dm ops es single slots rt
     | Some d \<Rightarrow>
         if \<not> so_pointer_active ops d then tick_slots dm ops es single slots rt
         else case so_tick_pointer ops (es slot) d of
           (None, d') \<Rightarrow> tick_slots dm ops es single slots (rt\<lparr>rt_slots := (rt_slots rt)[slot := Some d']\<rparr>)
         | (Some code, d') \<Rightarrow>
             (let rt1 = release_slot dm ops slot (so_path ops d') ReasonPointerError
                          (LcError ''pointer tick'' (Some (so_path ops d')) code)
                          (rt\<lparr>rt_slots := (rt_slots rt)[slot := Some d']\<rparr>)
              in if single then (Some code, rt1) else tick_slots dm ops es single slots rt1))"

text \<open>
  The clock and the platform during one round of \<open>loop_run\<close>: the instants when it begins, after
  \<open>poll\<close>, afterwards and at the end, and the answers of discovery.
\<close>

record 'e loop_env =
  le_shutdown :: bool
  le_dispatch :: nat
  le_now :: nat
  le_end :: nat
  le_poll :: "'e poll_env"
  le_ticks :: "nat \<Rightarrow> 'e"
  le_reconcile :: "int option"
  le_taken :: "(int + string list) option"
  le_opens :: "nat \<Rightarrow> 'e"
  le_again :: "int option"
  le_commands :: "nat \<Rightarrow> 'e"
  le_captures :: "nat \<Rightarrow> 'e"

datatype loop_result = LoopStopped | LoopFailed int | LoopGoes nat nat

definition loop_tick ::
  "daemon_env \<Rightarrow> ('d, 'e) session_ops \<Rightarrow> 'e loop_env \<Rightarrow> bool \<Rightarrow> nat \<Rightarrow> 'd runtime \<Rightarrow> int option \<times> 'd runtime" where
  "loop_tick dm ops le single next_pointer rt =
    (if le_now le < next_pointer then (None, rt)
     else tick_slots dm ops (le_ticks le) single [0..<MAX_DEVICES]
       (rt\<lparr>rt_metrics := (rt_metrics rt)\<lparr>dg_max_pointer_lateness_us :=
          max (dg_max_pointer_lateness_us (rt_metrics rt)) (as_u64_micros (le_now le - next_pointer))\<rparr>\<rparr>))"

definition loop_round ::
  "daemon_env \<Rightarrow> ('d, 'e) session_ops \<Rightarrow> 'e loop_env \<Rightarrow> bool \<Rightarrow> nat \<Rightarrow> nat \<Rightarrow> 'd runtime \<Rightarrow>
    (loop_result \<times> 'd runtime) option" where
  "loop_round dm ops le single next_pointer next_reconcile rt =
    (if le_shutdown le then Some (LoopStopped, rt)
     else case poll_once dm ops (le_poll le) single rt of
       None \<Rightarrow> None
     | Some (Inl code, rt1) \<Rightarrow> Some (LoopFailed code, rt1)
     | Some (Inr True, rt1) \<Rightarrow> Some (LoopStopped, rt1)
     | Some (Inr False, rt1) \<Rightarrow>
         (case loop_tick dm ops le single next_pointer rt1 of
            (Some code, rt2) \<Rightarrow> Some (LoopFailed code, rt2)
          | (None, rt2) \<Rightarrow>
              (let now = le_now le;
                   pointer' = (if next_pointer \<le> now then advance_pointer next_pointer now else next_pointer);
                   due = (\<not> single \<and> next_reconcile \<le> now);
                   rt3 = (if due then request_reconcile (le_reconcile le) rt2 else rt2);
                   reconcile' = (if due then advance_reconcile next_reconcile now else next_reconcile);
                   rt4 = (if single then rt3
                          else service_discovery dm ops (le_taken le) (le_opens le) (le_again le) rt3);
                   rt5 = service_commands dm ops (le_commands le) (le_captures le) rt4;
                   rt6 = rt5\<lparr>rt_metrics := (rt_metrics rt5)\<lparr>dg_max_dispatch_duration_us :=
                     max (dg_max_dispatch_duration_us (rt_metrics rt5)) (as_u64_micros (le_end le - le_dispatch le))\<rparr>\<rparr>
               in if single \<and> list_all (\<lambda>s. s = None) (rt_slots rt6) then Some (LoopStopped, rt6)
                  else Some (LoopGoes pointer' reconcile', rt6))))"

text \<open>\<open>run_monitor\<close> up to its loop: the monitor may fail to start.\<close>

definition run_monitor_start :: "int option \<Rightarrow> int option \<Rightarrow> 'd runtime \<Rightarrow> int option \<times> 'd runtime" where
  "run_monitor_start started req rt =
    (case started of
       Some code \<Rightarrow> (Some code, emit_lifecycle (LcError ''monitor'' None code) rt)
     | None \<Rightarrow> (None, request_reconcile req rt))"

end
