(* ===== verification/Runtime_Facts.thy ===== *)
theory Runtime_Facts
  imports Runtime
begin

text \<open>
  What every step of the reactor (\<open>crates/wiilandd/src/runtime.rs\<close>) keeps true, for any device that
  meets the contract \<open>device_session\<close>: the slots hold devices of different paths, the server keeps
  its invariant, and the notifications published tell the device table exactly.
\<close>

section \<open>What a client can follow\<close>

text \<open>The devices a client knows after a notification; \<open>None\<close> for one that makes no sense.\<close>

fun note_effect :: "string set \<Rightarrow> notification \<Rightarrow> string set option" where
  "note_effect known (NoteDeviceAdded _ info) =
    (if di_syspath info \<in> known then None else Some (insert (di_syspath info) known))"
| "note_effect known (NoteDeviceRemoved _ path _) = (if path \<in> known then Some (known - {path}) else None)"
| "note_effect known (NoteInput _ path _ _) = (if path \<in> known then Some known else None)"
| "note_effect known NoteUnsupported = Some known"

primrec follow :: "string set \<Rightarrow> notification list \<Rightarrow> string set option" where
  "follow known [] = Some known"
| "follow known (n # ns) = (case note_effect known n of None \<Rightarrow> None | Some known' \<Rightarrow> follow known' ns)"

lemma follow_append:
  "follow known (xs @ ys) = (case follow known xs of None \<Rightarrow> None | Some known' \<Rightarrow> follow known' ys)"
  by (induction xs arbitrary: known) (simp_all split: option.split)

fun note_number :: "notification \<Rightarrow> nat option" where
  "note_number (NoteDeviceAdded n _) = Some n"
| "note_number (NoteDeviceRemoved n _ _) = Some n"
| "note_number (NoteInput n _ _ _) = Some n"
| "note_number NoteUnsupported = None"

text \<open>The last number of a list numbered without a gap after \<open>n\<close>.\<close>

primrec numbered :: "nat \<Rightarrow> notification list \<Rightarrow> nat option" where
  "numbered n [] = Some n"
| "numbered n (e # es) = (if note_number e = Some (next_sequence n) then numbered (next_sequence n) es else None)"

lemma numbered_append:
  "numbered n (xs @ ys) = (case numbered n xs of None \<Rightarrow> None | Some m \<Rightarrow> numbered m ys)"
  by (induction xs arbitrary: n) simp_all

lemma numbered_inputs: "numbered n (input_notes p n evs) = Some ((next_sequence ^^ length evs) n)"
  by (induction evs arbitrary: n) (simp_all add: Let_def funpow_swap1)

lemma follow_inputs: "p \<in> known \<Longrightarrow> follow known (input_notes p n evs) = Some known"
  by (induction evs arbitrary: n) (simp_all add: Let_def)


section \<open>Steps\<close>

definition rt_paths :: "('d, 'e) session_ops \<Rightarrow> 'd runtime \<Rightarrow> string option list" where
  "rt_paths ops rt = map (map_option (so_path ops)) (rt_slots rt)"

definition known_paths :: "string option list \<Rightarrow> string set" where
  "known_paths ps = {p. Some p \<in> set ps}"

text \<open>All slots, and no two devices of the same path.\<close>

definition paths_ok :: "string option list \<Rightarrow> bool" where
  "paths_ok ps \<longleftrightarrow> length ps = MAX_DEVICES \<and>
    (\<forall>i < MAX_DEVICES. \<forall>j < MAX_DEVICES. \<forall>p q. ps ! i = Some p \<longrightarrow> ps ! j = Some q \<longrightarrow> path_eq p q \<longrightarrow> i = j)"

definition ipc_ok :: "'d runtime \<Rightarrow> bool" where
  "ipc_ok rt \<longleftrightarrow> (case rt_ipc rt of None \<Rightarrow> True | Some s \<Rightarrow> server_ok s)"

definition rt_ok :: "('d, 'e) session_ops \<Rightarrow> 'd runtime \<Rightarrow> bool" where
  "rt_ok ops rt \<longleftrightarrow> paths_ok (rt_paths ops rt) \<and> ipc_ok rt"

text \<open>A step tells a client that follows the notifications what became of the device table.\<close>

definition tells_table :: "('d, 'e) session_ops \<Rightarrow> 'd runtime \<Rightarrow> 'd runtime \<Rightarrow> bool" where
  "tells_table ops rt rt' \<longleftrightarrow>
    (\<exists>notes. rt_published rt' = rt_published rt @ notes
      \<and> follow (known_paths (rt_paths ops rt)) notes = Some (known_paths (rt_paths ops rt'))
      \<and> numbered (rt_notification_sequence rt) notes = Some (rt_notification_sequence rt'))"

definition runs :: "('d, 'e) session_ops \<Rightarrow> 'd runtime \<Rightarrow> 'd runtime \<Rightarrow> bool" where
  "runs ops rt rt' \<longleftrightarrow> rt_ok ops rt \<longrightarrow> rt_ok ops rt' \<and> (rt_ipc rt' = None \<longleftrightarrow> rt_ipc rt = None)
    \<and> rt_config rt' = rt_config rt \<and> rt_dry_run rt' = rt_dry_run rt
    \<and> (rt_ipc rt \<noteq> None \<longrightarrow> tells_table ops rt rt')"

lemma tells_table_trans: "tells_table ops a b \<Longrightarrow> tells_table ops b c \<Longrightarrow> tells_table ops a c"
proof -
  assume "tells_table ops a b" "tells_table ops b c"
  then obtain ns ms where n: "rt_published b = rt_published a @ ns" "rt_published c = rt_published b @ ms"
      "follow (known_paths (rt_paths ops a)) ns = Some (known_paths (rt_paths ops b))"
      "follow (known_paths (rt_paths ops b)) ms = Some (known_paths (rt_paths ops c))"
      "numbered (rt_notification_sequence a) ns = Some (rt_notification_sequence b)"
      "numbered (rt_notification_sequence b) ms = Some (rt_notification_sequence c)"
    by (auto simp: tells_table_def)
  then show ?thesis unfolding tells_table_def
    by (intro exI [of _ "ns @ ms"]) (simp add: follow_append numbered_append)
qed

lemma runs_trans: "runs ops a b \<Longrightarrow> runs ops b c \<Longrightarrow> runs ops a c"
  unfolding runs_def using tells_table_trans [of ops a b c] by metis

text \<open>A change of anything but the table, the counter and the log.\<close>

lemma runs_frame:
  assumes "rt_paths ops rt' = rt_paths ops rt" "rt_published rt' = rt_published rt"
    "rt_notification_sequence rt' = rt_notification_sequence rt" "rt_config rt' = rt_config rt"
    "rt_dry_run rt' = rt_dry_run rt" "rt_ipc rt' = None \<longleftrightarrow> rt_ipc rt = None"
    "ipc_ok rt \<Longrightarrow> ipc_ok rt'"
  shows "runs ops rt rt'"
proof -
  have "tells_table ops rt rt'" unfolding tells_table_def using assms(1-3) by (intro exI [of _ "[]"]) simp
  then show ?thesis using assms by (auto simp: runs_def rt_ok_def)
qed

lemma runs_refl [simp]: "runs ops rt rt" by (rule runs_frame) simp_all

lemma emit_lifecycle_fields [simp]:
  "rt_slots (emit_lifecycle ev rt) = rt_slots rt" "rt_ipc (emit_lifecycle ev rt) = rt_ipc rt"
  "rt_published (emit_lifecycle ev rt) = rt_published rt" "rt_config (emit_lifecycle ev rt) = rt_config rt"
  "rt_notification_sequence (emit_lifecycle ev rt) = rt_notification_sequence rt"
  "rt_dry_run (emit_lifecycle ev rt) = rt_dry_run rt"
  "rt_pending_additions (emit_lifecycle ev rt) = rt_pending_additions rt"
  "rt_snapshot_pending (emit_lifecycle ev rt) = rt_snapshot_pending rt"
  "rt_reconcile_again (emit_lifecycle ev rt) = rt_reconcile_again rt"
  "rt_monitor_pending (emit_lifecycle ev rt) = rt_monitor_pending rt"
  "rt_trace (emit_lifecycle ev rt) = rt_trace rt"
  by (simp_all add: emit_lifecycle_def)

lemma runs_emit [simp]: "runs ops rt (emit_lifecycle ev rt)"
  by (rule runs_frame) (simp_all add: rt_paths_def ipc_ok_def)

lemma runs_request_reconcile [simp]: "runs ops rt (request_reconcile req rt)"
  by (rule runs_frame) (auto simp: request_reconcile_def rt_paths_def ipc_ok_def split: option.split)

text \<open>A publication with the next number, after which the table is the one told.\<close>

lemma runs_publish:
  assumes "rt_published rt1 = rt_published rt" "rt_ipc rt1 = rt_ipc rt"
    "rt_config rt1 = rt_config rt" "rt_dry_run rt1 = rt_dry_run rt"
    and "note_number e = Some (next_sequence (rt_notification_sequence rt))"
    and "rt_notification_sequence rt1 = next_sequence (rt_notification_sequence rt)"
    and "paths_ok (rt_paths ops rt) \<Longrightarrow> paths_ok (rt_paths ops rt1)
      \<and> note_effect (known_paths (rt_paths ops rt)) e = Some (known_paths (rt_paths ops rt1))"
  shows "runs ops rt (rt_publish dm ops e rt1)"
proof (cases "rt_ipc rt")
  case None
  then show ?thesis using assms by (auto simp: runs_def rt_ok_def ipc_ok_def rt_publish_def)
next
  case (Some s)
  let ?s = "publish (server_env dm ops rt1) e s"
  have p: "rt_publish dm ops e rt1 = rt1\<lparr>rt_ipc := Some ?s, rt_published := rt_published rt @ [e]\<rparr>"
    using Some assms(1,2) by (simp add: rt_publish_def)
  have paths: "rt_paths ops (rt_publish dm ops e rt1) = rt_paths ops rt1" by (simp add: p rt_paths_def)
  have ok: "rt_ok ops (rt_publish dm ops e rt1)" if "rt_ok ops rt"
    using that assms(7) Some publish_ok [of s] by (simp add: rt_ok_def ipc_ok_def paths) (simp add: p)
  have "tells_table ops rt (rt_publish dm ops e rt1)" if "rt_ok ops rt"
    unfolding tells_table_def
    using that assms(5-7) by (intro exI [of _ "[e]"]) (simp add: paths rt_ok_def, simp add: p)
  then show ?thesis using ok assms(3,4) Some by (simp add: runs_def) (simp add: p)
qed

lemma known_paths_update:
  "i < length ps \<Longrightarrow> ps ! i = None \<Longrightarrow> known_paths (ps[i := Some p]) = insert p (known_paths ps)"
proof -
  assume i: "i < length ps" "ps ! i = None"
  have "Some q \<in> set (ps[i := Some p]) \<longleftrightarrow> q = p \<or> Some q \<in> set ps" for q
    using i by (auto simp: in_set_conv_nth nth_list_update) (metis nth_list_update_neq option.distinct(1))
  then show ?thesis by (auto simp: known_paths_def)
qed

lemma cleared_nth: "j < length ps \<Longrightarrow> ps[i := None] ! j = Some q \<longleftrightarrow> j \<noteq> i \<and> ps ! j = Some q"
  by (cases "i = j") simp_all

lemma known_paths_clear:
  assumes "paths_ok ps" "i < length ps" "ps ! i = Some p"
  shows "known_paths (ps[i := None]) = known_paths ps - {p}"
proof -
  have "Some q \<in> set (ps[i := None]) \<longleftrightarrow> q \<noteq> p \<and> Some q \<in> set ps" for q
  proof
    assume "Some q \<in> set (ps[i := None])"
    then obtain j where "j < length ps" "ps[i := None] ! j = Some q" by (auto simp: in_set_conv_nth)
    then have j: "j < length ps" "j \<noteq> i" "ps ! j = Some q" using cleared_nth [of j ps i q] by auto
    then have "q \<noteq> p" using assms by (auto simp: paths_ok_def)
    then show "q \<noteq> p \<and> Some q \<in> set ps" using j nth_mem by fastforce
  next
    assume "q \<noteq> p \<and> Some q \<in> set ps"
    then obtain j where "j < length ps" "ps ! j = Some q" "j \<noteq> i" using assms(3) by (metis in_set_conv_nth option.inject)
    then show "Some q \<in> set (ps[i := None])" by (metis length_list_update nth_list_update_neq nth_mem)
  qed
  then show ?thesis by (auto simp: known_paths_def)
qed

lemma paths_ok_clear: "paths_ok ps \<Longrightarrow> paths_ok (ps[i := None])"
  unfolding paths_ok_def by (metis cleared_nth length_list_update)

lemma rt_paths_update: "rt_paths ops (rt\<lparr>rt_slots := (rt_slots rt)[i := s]\<rparr>) = (rt_paths ops rt)[i := map_option (so_path ops) s]"
  by (simp add: rt_paths_def map_update)

lemma rt_paths_nth: "i < length (rt_slots rt) \<Longrightarrow> rt_paths ops rt ! i = map_option (so_path ops) (rt_slots rt ! i)"
  by (simp add: rt_paths_def)

lemma runs_release:
  assumes "slot < length (rt_slots rt)" "rt_slots rt ! slot \<noteq> None \<Longrightarrow> rt_paths ops rt ! slot = Some path"
  shows "runs ops rt (release_slot dm ops slot path reason event rt)"
proof (cases "rt_slots rt ! slot = None")
  case True
  then show ?thesis by (simp add: release_slot_def)
next
  case False
  let ?n = "next_sequence (rt_notification_sequence rt)"
  let ?rt1 = "rt\<lparr>rt_slots := (rt_slots rt)[slot := None], rt_notification_sequence := ?n\<rparr>"
  have p: "rt_paths ops rt ! slot = Some path" using assms(2) False by simp
  have l: "slot < length (rt_paths ops rt)" using assms(1) by (simp add: rt_paths_def)
  have paths: "rt_paths ops ?rt1 = (rt_paths ops rt)[slot := None]" by (simp add: rt_paths_def map_update)
  have mem: "path \<in> known_paths (rt_paths ops rt)" using p l nth_mem by (fastforce simp: known_paths_def)
  have "runs ops rt (rt_publish dm ops (NoteDeviceRemoved ?n path reason) ?rt1)"
  proof (rule runs_publish)
    assume ok: "paths_ok (rt_paths ops rt)"
    show "paths_ok (rt_paths ops ?rt1) \<and> note_effect (known_paths (rt_paths ops rt)) (NoteDeviceRemoved ?n path reason)
        = Some (known_paths (rt_paths ops ?rt1))"
      using paths_ok_clear [OF ok] known_paths_clear [OF ok l p] mem by (simp add: paths)
  qed simp_all
  then show ?thesis using False runs_trans [OF _ runs_emit]
    by (simp add: release_slot_def publish_removed_def Let_def)
qed

lemma runsI: "(rt_ok ops rt \<Longrightarrow> runs ops rt rt') \<Longrightarrow> runs ops rt rt'"
  by (auto simp: runs_def)

lemma rt_ok_length: "rt_ok ops rt \<Longrightarrow> length (rt_slots rt) = MAX_DEVICES"
  by (simp add: rt_ok_def paths_ok_def rt_paths_def)

lemma runs_ok: "runs ops rt rt' \<Longrightarrow> rt_ok ops rt \<Longrightarrow> rt_ok ops rt'"
  by (simp add: runs_def)

lemma runs_trans_ok: "runs ops a b \<Longrightarrow> (rt_ok ops b \<Longrightarrow> runs ops b c) \<Longrightarrow> runs ops a c"
  using runs_trans runsI by metis

lemma rt_paths_same:
  assumes "rt_slots rt ! slot = Some d" "so_path ops d' = so_path ops d"
    "rt_slots rt' = (rt_slots rt)[slot := Some d']"
  shows "rt_paths ops rt' = rt_paths ops rt"
proof (cases "slot < length (rt_slots rt)")
  case True
  then have "(rt_paths ops rt)[slot := Some (so_path ops d)] = rt_paths ops rt"
    using assms(1) by (intro list_update_same_conv [THEN iffD2]) (simp_all add: rt_paths_def)
  then show ?thesis using assms by (simp add: rt_paths_def map_update)
qed (use assms in \<open>simp add: rt_paths_def list_update_beyond\<close>)

text \<open>A device replaced by its own next state.\<close>

lemma runs_same_path:
  assumes "rt_slots rt ! slot = Some d" "so_path ops d' = so_path ops d"
    "rt_slots rt' = (rt_slots rt)[slot := Some d']" "rt_published rt' = rt_published rt"
    "rt_notification_sequence rt' = rt_notification_sequence rt" "rt_config rt' = rt_config rt"
    "rt_dry_run rt' = rt_dry_run rt" "rt_ipc rt' = rt_ipc rt"
  shows "runs ops rt rt'"
  by (rule runs_frame) (use rt_paths_same [OF assms(1-3)] assms in \<open>simp_all add: ipc_ok_def\<close>)

lemma publish_all:
  assumes "foldl (\<lambda>r e. rt_publish dm ops e r) rt evs = rt'" "ipc_ok rt"
  shows "rt_slots rt' = rt_slots rt \<and> rt_config rt' = rt_config rt \<and> rt_dry_run rt' = rt_dry_run rt
    \<and> rt_notification_sequence rt' = rt_notification_sequence rt \<and> (rt_ipc rt' = None \<longleftrightarrow> rt_ipc rt = None)
    \<and> ipc_ok rt' \<and> rt_published rt' = (if rt_ipc rt = None then rt_published rt else rt_published rt @ evs)"
  using assms
proof (induction evs arbitrary: rt)
  case (Cons e es)
  define r where "r = rt_publish dm ops e rt"
  have r: "rt_slots r = rt_slots rt" "rt_config r = rt_config rt" "rt_dry_run r = rt_dry_run rt"
    "rt_notification_sequence r = rt_notification_sequence rt" "rt_ipc r = None \<longleftrightarrow> rt_ipc rt = None"
    "rt_published r = (if rt_ipc rt = None then rt_published rt else rt_published rt @ [e])"
    by (auto simp: r_def rt_publish_def split: option.split)
  have ok: "ipc_ok r" using Cons.prems(2) publish_ok by (auto simp: r_def rt_publish_def ipc_ok_def split: option.splits)
  have "foldl (\<lambda>r e. rt_publish dm ops e r) r es = rt'" using Cons.prems(1) by (simp add: r_def)
  from Cons.IH [OF this ok] show ?case by (simp add: r)
qed simp


section \<open>Devices by contract\<close>

text \<open>
  What the reactor relies on in a device: its path is the one it was opened by and never changes,
  its description carries that path, and it captures exactly as last told, whatever the result.
\<close>

locale device_session =
  fixes ops :: "('d, 'e) session_ops" and capturing :: "'d \<Rightarrow> bool"
  assumes info_path: "di_syspath (so_info ops d) = so_path ops d"
    and open_path: "so_open ops e path c enabled = Inr d \<Longrightarrow> so_path ops d = path"
    and trace_path: "so_path ops (so_set_trace ops flt d) = so_path ops d"
    and drain_path: "so_path ops (sd_device (so_drain ops e n d)) = so_path ops d"
    and capture_path: "so_path ops (snd (so_set_capture ops e wanted d)) = so_path ops d"
    and tick_path: "so_path ops (snd (so_tick_pointer ops e d)) = so_path ops d"
    and capture_told: "capturing (snd (so_set_capture ops e wanted d)) \<longleftrightarrow> wanted"
begin

lemma runs_add_path: "runs ops rt (snd (add_path dm ops e path rt))"
proof (rule runsI)
  assume ok: "rt_ok ops rt"
  show ?thesis
  proof (cases "rt_find ops path rt = None")
    case False
    then show ?thesis by (simp add: add_path_def)
  next
    case free: True
    show ?thesis
    proof (cases "position (\<lambda>s. s = None) (rt_slots rt)")
      case None
      then show ?thesis using free by (simp add: add_path_def)
    next
      case (Some slot)
      then have slot: "slot < length (rt_slots rt)" "rt_slots rt ! slot = None"
        using position_Some [OF Some] by simp_all
      show ?thesis
      proof (cases "so_open ops e path (rt_config rt) (\<not> rt_dry_run rt)")
        case (Inl code)
        then show ?thesis using free Some by (simp add: add_path_def)
      next
        case (Inr d0)
        define dev where "dev = (if tc_enabled (rt_trace rt) then so_set_trace ops (tc_filter (rt_trace rt)) d0 else d0)"
        have dp: "so_path ops dev = path" using open_path [OF Inr] trace_path by (simp add: dev_def)
        let ?n = "next_sequence (rt_notification_sequence rt)"
        let ?rt1 = "rt\<lparr>rt_slots := (rt_slots rt)[slot := Some dev], rt_notification_sequence := ?n\<rparr>"
        have paths: "rt_paths ops ?rt1 = (rt_paths ops rt)[slot := Some path]"
          using dp by (simp add: rt_paths_def map_update)
        have l: "slot < length (rt_paths ops rt)" "rt_paths ops rt ! slot = None"
          using slot by (simp_all add: rt_paths_def)
        have other: "\<not> path_eq q path" if "rt_paths ops rt ! i = Some q" "i < length (rt_paths ops rt)" for i q
        proof -
          have "i < length (rt_slots rt)" "\<exists>d. rt_slots rt ! i = Some d \<and> so_path ops d = q"
            using that by (auto simp: rt_paths_def)
          then show ?thesis using free nth_mem [of i "rt_slots rt"] by (fastforce simp: rt_find_def position_None)
        qed
        have fresh: "path \<notin> known_paths (rt_paths ops rt)"
          using other path_eq_refl by (metis (mono_tags, lifting) in_set_conv_nth known_paths_def mem_Collect_eq)
        have pok: "paths_ok (rt_paths ops ?rt1)"
          unfolding paths paths_ok_def
        proof (intro conjI allI impI)
          show "length ((rt_paths ops rt)[slot := Some path]) = MAX_DEVICES"
            using ok by (simp add: rt_ok_def paths_ok_def)
          fix i j p q
          assume ij: "i < MAX_DEVICES" "j < MAX_DEVICES" "(rt_paths ops rt)[slot := Some path] ! i = Some p"
            "(rt_paths ops rt)[slot := Some path] ! j = Some q" "path_eq p q"
          have len: "length (rt_paths ops rt) = MAX_DEVICES" using ok by (simp add: rt_ok_def paths_ok_def)
          show "i = j"
          proof (cases "i = slot \<or> j = slot")
            case True
            then show ?thesis using ij other [of i p] other [of j q] path_eq_sym [of p q] len l(1)
              by (cases "i = slot"; cases "j = slot") auto
          next
            case False
            then show ?thesis using ij ok by (auto simp: rt_ok_def paths_ok_def)
          qed
        qed
        have "runs ops rt (rt_publish dm ops (NoteDeviceAdded ?n (so_info ops dev)) ?rt1)"
        proof (rule runs_publish)
          show "paths_ok (rt_paths ops ?rt1) \<and> note_effect (known_paths (rt_paths ops rt))
              (NoteDeviceAdded ?n (so_info ops dev)) = Some (known_paths (rt_paths ops ?rt1))"
            using pok fresh known_paths_update [OF l] info_path dp by (simp add: paths)
        qed simp_all
        then have "runs ops rt (emit_lifecycle (LcAdd path) (rt_publish dm ops (NoteDeviceAdded ?n (so_info ops dev)) ?rt1))"
          using runs_trans [OF _ runs_emit] by blast
        moreover have "snd (add_path dm ops e path rt) =
            emit_lifecycle (LcAdd path) (rt_publish dm ops (NoteDeviceAdded ?n (so_info ops dev)) ?rt1)"
          using free Some Inr by (simp add: add_path_def publish_added_def Let_def dev_def)
        ultimately show ?thesis by simp
      qed
    qed
  qed
qed

end

section \<open>Discovery and events\<close>

lemma runs_fields:
  "rt_slots rt' = rt_slots rt \<Longrightarrow> rt_published rt' = rt_published rt \<Longrightarrow>
    rt_notification_sequence rt' = rt_notification_sequence rt \<Longrightarrow> rt_config rt' = rt_config rt \<Longrightarrow>
    rt_dry_run rt' = rt_dry_run rt \<Longrightarrow> rt_ipc rt' = rt_ipc rt \<Longrightarrow> runs ops rt rt'"
  by (rule runs_frame) (simp_all add: rt_paths_def ipc_ok_def)

lemma runs_foldl:
  assumes "\<And>rt x. x \<in> set xs \<Longrightarrow> runs ops rt (f rt x)"
  shows "runs ops rt (foldl f rt xs)"
  using assms
proof (induction xs arbitrary: rt)
  case (Cons x xs)
  then have "runs ops rt (f rt x)" "runs ops (f rt x) (foldl f (f rt x) xs)" by simp_all
  then show ?case using runs_trans by fastforce
qed simp

text \<open>A slot filled again with a device of the same path, then released or kept.\<close>

lemma length_slots_emit: "rt_ok ops rt \<Longrightarrow> slot < MAX_DEVICES \<Longrightarrow> slot < length (rt_slots rt)"
  using rt_ok_length by fastforce

lemma set_map_filter: "y \<in> set (List.map_filter f xs) \<longleftrightarrow> (\<exists>x \<in> set xs. f x = Some y)"
  by (induction xs) (auto simp: List.map_filter_simps split: option.split)

lemma active_slots_nth: "(slot, d) \<in> set (active_slots slots) \<longleftrightarrow> slot < length slots \<and> slots ! slot = Some d"
proof -
  have "(slot, d) \<in> set (active_slots slots) \<longleftrightarrow>
      (\<exists>s. (slot, s) \<in> set (zip [0..<length slots] slots) \<and> s = Some d)"
    by (auto simp: active_slots_def set_map_filter intro: bexI [of _ "(slot, Some d)"])
  also have "\<dots> \<longleftrightarrow> slot < length slots \<and> slots ! slot = Some d"
    by (auto simp: in_set_zip intro: exI [of _ slot])
  finally show ?thesis .
qed

context device_session begin

lemma runs_remove_missing: "slot < MAX_DEVICES \<Longrightarrow> runs ops rt (remove_missing dm ops rt slot)"
proof (rule runsI)
  assume s: "slot < MAX_DEVICES" and ok: "rt_ok ops rt"
  note l = length_slots_emit [OF ok s]
  show ?thesis
  proof (cases "rt_slots rt ! slot")
    case (Some d)
    then show ?thesis using l rt_paths_nth [OF l, of ops] by (simp add: remove_missing_def runs_release)
  qed (simp add: remove_missing_def)
qed

lemma missing_slots_less:
  "length slots = MAX_DEVICES \<Longrightarrow> slot \<in> set (missing_slots (map (\<lambda>(slot, d). (slot, f d)) (active_slots slots)) paths) \<Longrightarrow>
    slot < MAX_DEVICES"
  using active_slots_nth [of slot _ slots] by (fastforce simp: missing_slots_def)

lemma runs_apply_snapshot: "runs ops rt (apply_snapshot dm ops paths rt)"
proof (rule runsI)
  assume ok: "rt_ok ops rt"
  let ?missing = "missing_slots (map (\<lambda>(slot, d). (slot, so_path ops d)) (active_slots (rt_slots rt))) paths"
  let ?rt1 = "foldl (remove_missing dm ops) rt ?missing"
  let ?rt2 = "?rt1\<lparr>rt_pending_additions := rt_pending_additions ?rt1 @ new_paths ops ?rt1 paths\<rparr>"
  have "runs ops rt ?rt1"
    by (rule runs_foldl) (use missing_slots_less [OF rt_ok_length [OF ok]] runs_remove_missing in blast)
  moreover have "runs ops ?rt1 ?rt2" by (rule runs_fields) simp_all
  ultimately show ?thesis unfolding apply_snapshot_def Let_def by (rule runs_trans [OF runs_trans runs_emit])
qed

lemma runs_add_pending: "runs ops rt (add_pending dm ops es n rt)"
proof (induction n arbitrary: rt)
  case (Suc n)
  show ?case
  proof (cases "rt_pending_additions rt")
    case (Cons path paths)
    let ?rt1 = "rt\<lparr>rt_pending_additions := paths\<rparr>"
    have "runs ops rt ?rt1" by (rule runs_fields) simp_all
    from runs_trans [OF runs_trans [OF this runs_add_path] Suc.IH] show ?thesis using Cons by simp
  qed simp
qed simp

lemma runs_service_discovery: "runs ops rt (service_discovery dm ops taken es req rt)"
proof -
  define rt0 where "rt0 = rt\<lparr>rt_snapshot_pending := False\<rparr>"
  define rt1 where "rt1 = (if rt_snapshot_pending rt then
                  (case taken of
                     None \<Rightarrow> rt
                   | Some (Inr paths) \<Rightarrow> apply_snapshot dm ops paths rt0
                   | Some (Inl code) \<Rightarrow> emit_lifecycle (LcError ''reconcile snapshot'' None code) rt0)
                else rt)"
  define rt2 where "rt2 = add_pending dm ops es DEVICE_SETUP_BUDGET rt1"
  have "runs ops rt rt0" unfolding rt0_def by (rule runs_fields) simp_all
  then have "runs ops rt (apply_snapshot dm ops paths rt0)" "runs ops rt (emit_lifecycle ev rt0)" for paths ev
    using runs_trans [OF _ runs_apply_snapshot] runs_trans [OF _ runs_emit] by simp_all
  then have "runs ops rt rt1" by (simp add: rt1_def split: option.split sum.split)
  then have r2: "runs ops rt rt2" unfolding rt2_def by (rule runs_trans [OF _ runs_add_pending])
  have "runs ops rt2 (request_reconcile req (rt2\<lparr>rt_reconcile_again := False\<rparr>))"
    by (rule runs_trans [OF _ runs_request_reconcile]) (rule runs_fields; simp)
  from runs_trans [OF r2 this] have "runs ops rt (request_reconcile req (rt2\<lparr>rt_reconcile_again := False\<rparr>))" .
  moreover have "service_discovery dm ops taken es req rt =
      (if \<not> rt_snapshot_pending rt2 \<and> rt_pending_additions rt2 = [] \<and> rt_reconcile_again rt2
       then request_reconcile req (rt2\<lparr>rt_reconcile_again := False\<rparr>) else rt2)"
    unfolding service_discovery_def discovery_work_def Let_def rt2_def rt1_def rt0_def by (rule refl)
  ultimately show ?thesis using r2 by simp
qed

lemma runs_drain_device:
  assumes "slot < MAX_DEVICES" "drain_device dm ops e slot single rt = (r, rt')"
  shows "runs ops rt rt'"
proof (rule runsI)
  assume ok: "rt_ok ops rt"
  note l = length_slots_emit [OF ok assms(1)]
  show ?thesis
  proof (cases "rt_slots rt ! slot")
    case None
    then show ?thesis using assms(2) by (simp add: drain_device_def)
  next
    case (Some d)
    define path where "path = so_path ops d"
    define sd where "sd = so_drain ops e (rt_trace_sequence rt) d"
    define rt1 where "rt1 = rt\<lparr>rt_slots := (rt_slots rt)[slot := Some (sd_device sd)], rt_trace_sequence := sd_sequence sd,
        rt_trace_writer := foldl (\<lambda>w line. diag_send line w) (rt_trace_writer rt) (sd_lines sd)\<rparr>"
    define evs where "evs = input_notes path (rt_notification_sequence rt) (sd_events sd)"
    define rt2 where "rt2 = (if should_collect_input (map_option has_input_subscribers (rt_ipc rt)) then
        foldl (\<lambda>r event. rt_publish dm ops event r)
          (rt1\<lparr>rt_notification_sequence := (next_sequence ^^ length (sd_events sd)) (rt_notification_sequence rt)\<rparr>) evs
        else rt1)"
    have sp: "so_path ops (sd_device sd) = path" by (simp add: sd_def drain_path path_def)
    have paths1: "rt_paths ops rt1 = rt_paths ops rt"
      by (rule rt_paths_same [OF Some]) (simp_all add: rt1_def sp path_def)
    have r1: "runs ops rt rt1" by (rule runs_same_path [OF Some]) (simp_all add: rt1_def sp path_def)
    have at: "rt_paths ops rt ! slot = Some path" using rt_paths_nth [OF l] Some by (simp add: path_def)
    moreover have "slot < length (rt_paths ops rt)" using l by (simp add: rt_paths_def)
    ultimately have known: "path \<in> known_paths (rt_paths ops rt)"
      by (metis (mono_tags, lifting) known_paths_def mem_Collect_eq nth_mem)
    have r2: "runs ops rt rt2 \<and> rt_paths ops rt2 = rt_paths ops rt \<and> rt_slots rt2 = rt_slots rt1"
    proof (cases "should_collect_input (map_option has_input_subscribers (rt_ipc rt))")
      case True
      let ?r = "rt1\<lparr>rt_notification_sequence := (next_sequence ^^ length (sd_events sd)) (rt_notification_sequence rt)\<rparr>"
      have f: "foldl (\<lambda>r event. rt_publish dm ops event r) ?r evs = rt2" using True by (simp add: rt2_def)
      have "ipc_ok ?r" using ok by (simp add: rt_ok_def rt1_def ipc_ok_def)
      note pa = publish_all [OF f this]
      have slots: "rt_slots rt2 = rt_slots rt1" using pa by simp
      then have paths: "rt_paths ops rt2 = rt_paths ops rt" using paths1 by (simp add: rt_paths_def)
      have ipc: "rt_ipc rt \<noteq> None" using True by (auto simp: should_collect_input_def)
      have "tells_table ops rt rt2" unfolding tells_table_def
        using pa ipc follow_inputs [OF known, of "rt_notification_sequence rt" "sd_events sd"] paths
          numbered_inputs [of "rt_notification_sequence rt" path "sd_events sd"]
        by (intro exI [of _ evs]) (simp add: evs_def rt1_def)
      then have "runs ops rt rt2" using pa ok ipc paths by (simp add: runs_def rt_ok_def) (simp add: rt1_def)
      then show ?thesis using paths slots by simp
    next
      case False
      then show ?thesis using r1 paths1 by (simp add: rt2_def)
    qed
    have l2: "slot < length (rt_slots rt2)" using r2 l by (simp add: rt1_def)
    have rel: "runs ops rt (release_slot dm ops slot path reason event rt2)" for reason event
      using r2 runs_release [OF l2, of ops path dm reason event] at runs_trans by metis
    have "drain_device dm ops e slot single rt = (case sd_result sd of
          Inr BridgeContinue \<Rightarrow> (None, rt2)
        | Inr BridgeGone \<Rightarrow> (None, release_slot dm ops slot path ReasonGone (LcGone path) rt2)
        | Inl code \<Rightarrow> (if single then Some code else None,
            release_slot dm ops slot path ReasonDrainError (LcError ''drain'' (Some path) code) rt2))"
      by (simp only: drain_device_def Some option.case Let_def path_def sd_def rt1_def evs_def rt2_def)
    then have "rt' = rt2 \<or> (\<exists>reason event. rt' = release_slot dm ops slot path reason event rt2)"
      using assms(2) by (auto split: sum.splits bridge_action.splits)
    then show ?thesis using r2 rel by blast
  qed
qed

end

section \<open>Commands, rounds and the loop\<close>

lemma runs_server:
  assumes "\<And>s. server_ok s \<Longrightarrow> server_ok (f s)"
  shows "runs ops rt (rt\<lparr>rt_ipc := map_option f (rt_ipc rt)\<rparr>)"
  by (rule runs_frame) (use assms in \<open>auto simp: rt_paths_def ipc_ok_def split: option.splits\<close>)

lemma position_slot:
  "position P xs = Some i \<Longrightarrow> i < length xs"
  using position_Some by blast

lemma drain_owners_less:
  assumes "rt_ok ops rt" "OwnDevice slot \<in> set (poll_owners m rt)"
  shows "slot < MAX_DEVICES"
proof -
  have "OwnDevice slot \<in> (\<lambda>(slot, d). OwnDevice slot) ` set (active_slots (rt_slots rt))"
    using assms(2) by (auto simp: poll_owners_def split: if_splits option.splits)
  then show ?thesis using active_slots_nth [of slot _ "rt_slots rt"] rt_ok_length [OF assms(1)] by fastforce
qed

context device_session begin

lemma runs_control_command:
  assumes "control_command ops e cmd rt = (r, rt')"
  shows "runs ops rt rt'"
proof (cases cmd)
  case (CmdStartCapture syspath)
  show ?thesis
  proof (cases "rt_find ops syspath rt")
    case None
    then show ?thesis using assms CmdStartCapture by (simp add: control_command_def)
  next
    case find: (Some slot)
    show ?thesis
    proof (cases "rt_slots rt ! slot")
      case None
      then show ?thesis using assms CmdStartCapture find by (simp add: control_command_def)
    next
      case (Some d)
      obtain q d' where s: "so_set_capture ops e True d = (q, d')" by force
      then have "rt' = rt\<lparr>rt_slots := (rt_slots rt)[slot := Some d']\<rparr>"
        using assms CmdStartCapture find Some by (simp add: control_command_def)
      moreover have "so_path ops d' = so_path ops d" using capture_path [of e True d] s by simp
      ultimately show ?thesis by (intro runs_same_path [OF Some]) simp_all
    qed
  qed
qed (use assms in \<open>simp_all add: control_command_def\<close>)

lemma runs_complete_commands: "runs ops rt (complete_commands dm ops es k cmds rt)"
proof (induction cmds arbitrary: k rt)
  case (Cons x cmds)
  obtain token i cmd where x: "x = (token, i, cmd)" by (metis prod_cases3)
  obtain result rt1 where c: "control_command ops (es k) cmd rt = (result, rt1)" by force
  have "runs ops rt1 (rt1\<lparr>rt_ipc := map_option (complete_command (server_env dm ops rt1) token i result) (rt_ipc rt1)\<rparr>)"
    by (rule runs_server [OF complete_command_ok])
  from runs_trans [OF runs_trans [OF runs_control_command [OF c] this] Cons.IH] show ?case
    by (simp add: x c)
qed simp

lemma runs_apply_capture: "runs ops rt (apply_capture ops es captures rt slot)"
proof (cases "rt_slots rt ! slot")
  case None
  then show ?thesis by (simp add: apply_capture_def)
next
  case (Some d)
  obtain r d' where s: "so_set_capture ops (es slot) (list_ex (\<lambda>path. path_eq path (so_path ops d)) captures) d = (r, d')"
    by force
  let ?rt1 = "rt\<lparr>rt_slots := (rt_slots rt)[slot := Some d']\<rparr>"
  have "so_path ops d' = so_path ops d"
    using capture_path [of "es slot" "list_ex (\<lambda>path. path_eq path (so_path ops d)) captures" d] s by simp
  then have "runs ops rt ?rt1" by (intro runs_same_path [OF Some]) simp_all
  then have "runs ops rt ?rt1 \<and> runs ops rt (emit_lifecycle ev ?rt1)" for ev using runs_trans [OF _ runs_emit] by blast
  then show ?thesis using Some s by (simp add: apply_capture_def Let_def split: option.split)
qed

lemma runs_service_commands: "runs ops rt (service_commands dm ops cs es rt)"
proof -
  obtain cmds ipc where c: "(case rt_ipc rt of None \<Rightarrow> ([], None)
      | Some s \<Rightarrow> (case take_commands s of (cmds, s') \<Rightarrow> (cmds, Some s'))) = (cmds, ipc)" by force
  have "ipc = map_option (\<lambda>s. snd (take_commands s)) (rt_ipc rt)"
    using c by (auto split: option.splits prod.splits)
  then have r0: "runs ops rt (rt\<lparr>rt_ipc := ipc\<rparr>)" using runs_server [OF take_commands_ok] by simp
  define rt1 where "rt1 = complete_commands dm ops cs 0 cmds (rt\<lparr>rt_ipc := ipc\<rparr>)"
  define captures where "captures = (case rt_ipc rt1 of None \<Rightarrow> [] | Some s \<Rightarrow> capture_paths s)"
  have r1: "runs ops rt rt1" unfolding rt1_def by (rule runs_trans [OF r0 runs_complete_commands])
  have "runs ops rt1 (foldl (apply_capture ops es captures) rt1 [0..<length (rt_slots rt1)])"
    by (rule runs_foldl [OF runs_apply_capture])
  from runs_trans [OF r1 this] show ?thesis
    by (simp add: service_commands_def c rt1_def captures_def Let_def)
qed

lemma runs_drain_ready:
  "drain_ready dm ops es single owners rt = (r, rt') \<Longrightarrow> \<forall>(owner, ev) \<in> set owners. \<forall>slot. owner = OwnDevice slot \<longrightarrow> slot < MAX_DEVICES \<Longrightarrow>
    runs ops rt rt'"
proof (induction owners arbitrary: rt)
  case (Cons x owners)
  obtain owner ev where x: "x = (owner, ev)" by force
  show ?case
  proof (cases "\<exists>slot. owner = OwnDevice slot \<and> ev \<noteq> 0")
    case True
    then obtain slot where o: "owner = OwnDevice slot" "ev \<noteq> 0" by blast
    obtain q rt1 where d: "drain_device dm ops (es slot) slot single rt = (q, rt1)" by force
    have "slot < MAX_DEVICES" using Cons.prems(2) o(1) by (simp add: x)
    note r1 = runs_drain_device [OF this d]
    show ?thesis
    proof (cases q)
      case None
      then have "runs ops rt1 rt'" using Cons.IH [of rt1] Cons.prems o d by (simp add: x)
      then show ?thesis using r1 runs_trans by blast
    next
      case (Some code)
      then show ?thesis using Cons.prems(1) o d r1 by (simp add: x)
    qed
  next
    case False
    then have "drain_ready dm ops es single owners rt = (r, rt')"
      using Cons.prems(1) by (simp add: x split: poll_owner.splits if_splits)
    then show ?thesis using Cons.IH Cons.prems(2) by simp
  qed
qed simp

lemma runs_serve_ready:
  "ipc_ok rt \<Longrightarrow> \<exists>r rt'. serve_ready dm ops pv ready rt = Some (r, rt') \<and> runs ops rt rt'"
proof (induction ready arbitrary: rt)
  case Nil
  then show ?case by simp
next
  case (Cons x ready)
  obtain owner ev where x: "x = (owner, ev)" by force
  show ?case
  proof (cases "\<exists>token s. owner = OwnIpc token \<and> rt_ipc rt = Some s \<and> ev \<noteq> 0")
    case True
    then obtain token s where o: "owner = OwnIpc token" "rt_ipc rt = Some s" "ev \<noteq> 0" by blast
    have s: "server_ok s" using Cons.prems o(2) by (simp add: ipc_ok_def)
    obtain err s' out where h: "handle_ready (server_env dm ops rt) token ev (pv_accepts pv) (pv_reads pv token)
        (pv_writes pv token) s = Some (err, s', out)" "server_ok s'"
      using handle_ready_ok [OF s] by metis
    let ?rt1 = "rt\<lparr>rt_ipc := Some s'\<rparr>"
    have r1: "runs ops rt ?rt1"
      by (rule runs_frame) (use o(2) h(2) in \<open>simp_all add: rt_paths_def ipc_ok_def\<close>)
    show ?thesis
    proof (cases err)
      case None
      have "ipc_ok ?rt1" using h(2) by (simp add: ipc_ok_def)
      then obtain r rt' where "serve_ready dm ops pv ready ?rt1 = Some (r, rt')" "runs ops ?rt1 rt'"
        using Cons.IH by blast
      then show ?thesis using runs_trans [OF r1] o h(1) None by (auto simp: x)
    next
      case (Some e)
      then show ?thesis using o h(1) runs_trans [OF r1 runs_emit] by (simp add: x)
    qed
  next
    case False
    then have "serve_ready dm ops pv (x # ready) rt = serve_ready dm ops pv ready rt"
      by (auto simp: x split: poll_owner.split option.split)
    then show ?thesis using Cons by simp
  qed
qed

end

text \<open>A whole round of \<open>poll\<close>, of the pointer ticks and of the loop: it returns, and it runs.\<close>

context device_session begin

lemma runs_drain_monitor: "runs ops rt (drain_monitor_step pv rt)"
proof -
  let ?rt1 = "case pv_monitor pv of Inr pending \<Rightarrow> rt\<lparr>rt_monitor_pending := pending\<rparr>
    | Inl code \<Rightarrow> emit_lifecycle (LcError ''monitor'' None code) (rt\<lparr>rt_monitor_pending := False\<rparr>)"
  have "runs ops rt (rt\<lparr>rt_monitor_pending := v\<rparr>)" for v by (rule runs_fields) simp_all
  then have "runs ops rt ?rt1" by (auto intro: runs_trans [OF _ runs_emit] split: sum.split)
  then show ?thesis unfolding drain_monitor_step_def by (rule runs_trans [OF _ runs_request_reconcile])
qed

lemma runs_poll_once:
  assumes "rt_ok ops rt"
  shows "\<exists>r rt'. poll_once dm ops pv single rt = Some (r, rt') \<and> runs ops rt rt'"
proof -
  define owners where "owners = poll_owners (pv_monitor_fd pv) rt"
  define ready where "ready = zip owners (map (pv_revents pv) [0..<length owners])"
  obtain q rt1 where d: "drain_ready dm ops (pv_drain pv) single ready rt = (q, rt1)" by force
  define rt2 where "rt2 = (if list_ex (\<lambda>(owner, ev). owner = OwnMonitor \<and> ev \<noteq> 0) ready \<or> rt_monitor_pending rt1
    then drain_monitor_step pv rt1 else rt1)"
  define served where "served = (if has_ready_ipc owners (map (pv_revents pv) [0..<length owners])
    then serve_ready dm ops pv ready rt2 else Some (None, rt2))"
  have p: "poll_once dm ops pv single rt =
      (if pv_shutdown pv then Some (Inr True, rt)
       else case pv_polled pv of
         Inl code \<Rightarrow> if code = - 4 then Some (Inr False, rt)
           else Some (Inl code, emit_lifecycle (LcError ''poll'' None code) rt)
       | Inr count \<Rightarrow>
           (if pv_revents pv 0 \<noteq> 0 then Some (Inr True, rt)
            else if count = 0 \<and> \<not> rt_monitor_pending rt then Some (Inr False, rt)
            else case q of
              Some code \<Rightarrow> Some (Inl code, rt1)
            | None \<Rightarrow> (case served of
                  None \<Rightarrow> None
                | Some (Some code, rt3) \<Rightarrow> Some (Inl code, rt3)
                | Some (None, rt3) \<Rightarrow>
                    Some (Inr False, service_commands dm ops (pv_commands pv) (pv_captures pv) rt3))))"
    unfolding poll_once_def Let_def owners_def [symmetric] ready_def [symmetric] d prod.case served_def rt2_def
    by (cases q) simp_all
  have less: "\<forall>(owner, ev) \<in> set ready. \<forall>slot. owner = OwnDevice slot \<longrightarrow> slot < MAX_DEVICES"
    using drain_owners_less [OF assms] by (fastforce simp: ready_def owners_def dest: set_zip_leftD)
  note r1 = runs_drain_ready [OF d less]
  have r2: "runs ops rt rt2" using r1 runs_trans [OF r1 runs_drain_monitor [of rt1 pv]] by (simp add: rt2_def)
  have "ipc_ok rt2" using runs_ok [OF r2 assms] by (simp add: rt_ok_def)
  then have "\<exists>r rt3. served = Some (r, rt3) \<and> runs ops rt2 rt3"
    using runs_serve_ready [of rt2 dm pv ready]
    by (cases "has_ready_ipc owners (map (pv_revents pv) [0..<length owners])") (simp_all add: served_def)
  then obtain r rt3 where s: "served = Some (r, rt3)" "runs ops rt2 rt3" by blast
  note r3 = runs_trans [OF r2 s(2)]
  note r4 = runs_trans [OF r3 runs_service_commands]
  show ?thesis unfolding p s(1)
    by (cases q; cases r; cases "pv_polled pv") (simp_all add: r1 r3 r4)
qed

lemma runs_tick_slots:
  "tick_slots dm ops es single slots rt = (r, rt') \<Longrightarrow> rt_ok ops rt \<Longrightarrow> \<forall>slot \<in> set slots. slot < MAX_DEVICES \<Longrightarrow> runs ops rt rt'"
proof (induction slots arbitrary: rt)
  case (Cons slot slots)
  show ?case
  proof (cases "\<exists>d. rt_slots rt ! slot = Some d \<and> so_pointer_active ops d")
    case False
    then have "tick_slots dm ops es single slots rt = (r, rt')"
      using Cons.prems(1) by (auto split: option.splits)
    then show ?thesis using Cons by simp
  next
    case True
    then obtain d where d: "rt_slots rt ! slot = Some d" "so_pointer_active ops d" by blast
    obtain q d' where t: "so_tick_pointer ops (es slot) d = (q, d')" by force
    have same: "so_path ops d' = so_path ops d" using tick_path [of "es slot" d] t by simp
    let ?rt1 = "rt\<lparr>rt_slots := (rt_slots rt)[slot := Some d']\<rparr>"
    have r1: "runs ops rt ?rt1" using same by (intro runs_same_path [OF d(1)]) simp_all
    have ok1: "rt_ok ops ?rt1" by (rule runs_ok [OF r1 Cons.prems(2)])
    have l: "slot < length (rt_slots ?rt1)" using rt_ok_length [OF ok1] Cons.prems(3) by simp
    show ?thesis
    proof (cases q)
      case None
      then have "tick_slots dm ops es single slots ?rt1 = (r, rt')" using Cons.prems(1) d t by simp
      from Cons.IH [OF this ok1] Cons.prems(3) show ?thesis using runs_trans [OF r1] by simp
    next
      case (Some code)
      let ?rt2 = "release_slot dm ops slot (so_path ops d') ReasonPointerError
        (LcError ''pointer tick'' (Some (so_path ops d')) code) ?rt1"
      have "runs ops ?rt1 ?rt2"
        by (rule runs_release [OF l]) (use rt_paths_nth [OF l, of ops] l in simp)
      note r2 = runs_trans [OF r1 this]
      show ?thesis
      proof (cases single)
        case True
        then show ?thesis using Cons.prems(1) d t Some r2 by (simp add: Let_def)
      next
        case False
        then have "tick_slots dm ops es single slots ?rt2 = (r, rt')" using Cons.prems(1) d t Some by (simp add: Let_def)
        from Cons.IH [OF this runs_ok [OF r2 Cons.prems(2)]] Cons.prems(3) show ?thesis
          using runs_trans [OF r2] by simp
      qed
    qed
  qed
qed simp

lemma runs_loop_tick:
  assumes "loop_tick dm ops le single next_pointer rt = (r, rt')" "rt_ok ops rt"
  shows "runs ops rt rt'"
proof (cases "le_now le < next_pointer")
  case True
  then show ?thesis using assms by (simp add: loop_tick_def)
next
  case False
  let ?rt1 = "rt\<lparr>rt_metrics := (rt_metrics rt)\<lparr>dg_max_pointer_lateness_us :=
    max (dg_max_pointer_lateness_us (rt_metrics rt)) (as_u64_micros (le_now le - next_pointer))\<rparr>\<rparr>"
  have r1: "runs ops rt ?rt1" by (rule runs_fields) simp_all
  have "tick_slots dm ops (le_ticks le) single [0..<MAX_DEVICES] ?rt1 = (r, rt')"
    using assms(1) False by (simp add: loop_tick_def)
  from runs_tick_slots [OF this runs_ok [OF r1 assms(2)]] show ?thesis using runs_trans [OF r1] by simp
qed

lemma runs_loop_round:
  assumes "rt_ok ops rt"
  shows "\<exists>r rt'. loop_round dm ops le single next_pointer next_reconcile rt = Some (r, rt') \<and> runs ops rt rt'"
proof -
  obtain p rt1 where p: "poll_once dm ops (le_poll le) single rt = Some (p, rt1)" "runs ops rt rt1"
    using runs_poll_once [OF assms] by blast
  obtain q rt2 where t: "loop_tick dm ops le single next_pointer rt1 = (q, rt2)" by force
  note r2 = runs_trans [OF p(2) runs_loop_tick [OF t runs_ok [OF p(2) assms]]]
  define due where "due = (\<not> single \<and> next_reconcile \<le> le_now le)"
  define rt3 where "rt3 = (if due then request_reconcile (le_reconcile le) rt2 else rt2)"
  define rt4 where "rt4 = (if single then rt3
    else service_discovery dm ops (le_taken le) (le_opens le) (le_again le) rt3)"
  define rt5 where "rt5 = service_commands dm ops (le_commands le) (le_captures le) rt4"
  define rt6 where "rt6 = rt5\<lparr>rt_metrics := (rt_metrics rt5)\<lparr>dg_max_dispatch_duration_us :=
    max (dg_max_dispatch_duration_us (rt_metrics rt5)) (as_u64_micros (le_end le - le_dispatch le))\<rparr>\<rparr>"
  have r3: "runs ops rt rt3" using r2 runs_trans [OF r2 runs_request_reconcile] by (simp add: rt3_def)
  have r4: "runs ops rt rt4" using r3 runs_trans [OF r3 runs_service_discovery] by (simp add: rt4_def)
  have r5: "runs ops rt rt5" unfolding rt5_def by (rule runs_trans [OF r4 runs_service_commands])
  have "runs ops rt5 rt6" by (rule runs_fields) (simp_all add: rt6_def)
  note r6 = runs_trans [OF r5 this]
  have "loop_round dm ops le single next_pointer next_reconcile rt =
      (if le_shutdown le then Some (LoopStopped, rt)
       else case p of
         Inl code \<Rightarrow> Some (LoopFailed code, rt1)
       | Inr True \<Rightarrow> Some (LoopStopped, rt1)
       | Inr False \<Rightarrow>
           (case q of
              Some code \<Rightarrow> Some (LoopFailed code, rt2)
            | None \<Rightarrow>
                if single \<and> list_all (\<lambda>s. s = None) (rt_slots rt6) then Some (LoopStopped, rt6)
                else Some (LoopGoes (if next_pointer \<le> le_now le then advance_pointer next_pointer (le_now le) else next_pointer)
                  (if due then advance_reconcile next_reconcile (le_now le) else next_reconcile), rt6)))"
    unfolding loop_round_def p(1) Let_def rt6_def rt5_def rt4_def rt3_def due_def
    by (cases p rule: sum.exhaust; cases "projr p"; cases q)
      (simp_all only: option.case prod.case sum.case bool.case t sum.sel)
  then show ?thesis using r2 p(2) r6 by (cases p; cases q) (auto split: bool.split)
qed

end

end
