(* ===== verification/Runtime_Discovery.thy ===== *)
theory Runtime_Discovery
  imports Runtime_Facts
begin

text \<open>
  Captures and discovery of the reactor (\<open>crates/wiilandd/src/runtime.rs\<close>), for any device that
  meets the contract: what \<open>service_commands\<close> leaves capturing, what a snapshot removes and queues,
  and that the queue is worked off until the table is the snapshot.
\<close>

section \<open>The table as keys\<close>

definition table_keys :: "('d, 'e) session_ops \<Rightarrow> 'd runtime \<Rightarrow> (bool \<times> bool \<times> string list) set" where
  "table_keys ops rt = path_key ` known_paths (rt_paths ops rt)"

lemma known_paths_slots: "known_paths (rt_paths ops rt) = {so_path ops d |d. Some d \<in> set (rt_slots rt)}"
proof -
  have "map_option (so_path ops) s = Some p \<longleftrightarrow> (\<exists>d. s = Some d \<and> so_path ops d = p)" for s p
    by (cases s) auto
  then show ?thesis by (auto simp: known_paths_def rt_paths_def image_iff eq_commute)
qed

lemma rt_find_None: "rt_find ops path rt = None \<longleftrightarrow> path_key path \<notin> table_keys ops rt"
proof -
  let ?q = "\<lambda>s. case s of None \<Rightarrow> False | Some d \<Rightarrow> path_eq (so_path ops d) path"
  have "rt_find ops path rt = None \<longleftrightarrow> (\<forall>s \<in> set (rt_slots rt). \<not> ?q s)"
    by (simp add: rt_find_def position_None)
  also have "\<dots> \<longleftrightarrow> (\<forall>d. Some d \<in> set (rt_slots rt) \<longrightarrow> path_key (so_path ops d) \<noteq> path_key path)"
    by (simp add: path_eq_def split: option.split) blast
  also have "\<dots> \<longleftrightarrow> path_key path \<notin> table_keys ops rt"
    by (simp add: table_keys_def known_paths_slots image_iff) metis
  finally show ?thesis .
qed

lemma push_unique_keys:
  "path_key ` set (foldl push_unique ps xs) = path_key ` set ps \<union> path_key ` set xs
    \<and> set (foldl push_unique ps xs) \<subseteq> set ps \<union> set xs
    \<and> length (foldl push_unique ps xs) \<le> length ps + length xs
    \<and> (distinct (map path_key ps) \<longrightarrow> distinct (map path_key (foldl push_unique ps xs)))"
proof (induction xs arbitrary: ps)
  case (Cons x xs)
  have one: "path_key ` set (push_unique ps x) = insert (path_key x) (path_key ` set ps)
      \<and> set (push_unique ps x) \<subseteq> insert x (set ps) \<and> length (push_unique ps x) \<le> Suc (length ps)
      \<and> (distinct (map path_key ps) \<longrightarrow> distinct (map path_key (push_unique ps x)))"
    by (auto simp: push_unique_def list_ex_iff path_eq_def)
  show ?case using Cons.IH [of "push_unique ps x"] one by auto
qed simp

lemma new_paths_keys:
  "path_key ` set (new_paths ops rt paths) = path_key ` set paths - table_keys ops rt
    \<and> set (new_paths ops rt paths) \<subseteq> set paths \<and> length (new_paths ops rt paths) \<le> length paths
    \<and> distinct (map path_key (new_paths ops rt paths))"
  using push_unique_keys [of "[]" "filter (\<lambda>p. rt_find ops p rt = None) paths"] length_filter_le
  by (auto simp: new_paths_def rt_find_None intro: order_trans)

lemma cleared_slots:
  "j < length slots \<Longrightarrow> foldl (\<lambda>s i. s[i := None]) slots is ! j = (if j \<in> set is then None else slots ! j)"
  by (induction "is" arbitrary: slots) (auto simp: nth_list_update)

lemma length_cleared: "length (foldl (\<lambda>s i. s[i := None]) slots is) = length slots"
  by (induction "is" arbitrary: slots) simp_all

lemma publish_slots [simp]:
  "rt_slots (rt_publish dm ops e rt) = rt_slots rt"
  "rt_pending_additions (rt_publish dm ops e rt) = rt_pending_additions rt"
  "rt_config (rt_publish dm ops e rt) = rt_config rt" "rt_dry_run (rt_publish dm ops e rt) = rt_dry_run rt"
  by (simp_all add: rt_publish_def split: option.split)

lemma remove_missing_slots:
  "rt_slots (remove_missing dm ops rt slot) = (rt_slots rt)[slot := None]
    \<and> rt_pending_additions (remove_missing dm ops rt slot) = rt_pending_additions rt"
proof (cases "rt_slots rt ! slot")
  case None
  then have "(rt_slots rt)[slot := None] = rt_slots rt" using list_update_id [of "rt_slots rt" slot] by simp
  then show ?thesis using None by (simp add: remove_missing_def)
qed (simp add: remove_missing_def release_slot_def publish_removed_def Let_def)

lemma remove_all_slots:
  "rt_slots (foldl (remove_missing dm ops) rt is) = foldl (\<lambda>s i. s[i := None]) (rt_slots rt) is
    \<and> rt_pending_additions (foldl (remove_missing dm ops) rt is) = rt_pending_additions rt"
  by (induction "is" arbitrary: rt) (simp_all add: remove_missing_slots)

lemma missing_slots_iff:
  "slot \<in> set (missing_slots (map (\<lambda>(slot, d). (slot, f d)) (active_slots slots)) paths) \<longleftrightarrow>
    slot < length slots \<and> (\<exists>d. slots ! slot = Some d \<and> \<not> list_ex (\<lambda>q. path_eq q (f d)) paths)"
proof -
  have "slot \<in> set (missing_slots (map (\<lambda>(slot, d). (slot, f d)) (active_slots slots)) paths) \<longleftrightarrow>
      (\<exists>d. (slot, d) \<in> set (active_slots slots) \<and> \<not> list_ex (\<lambda>q. path_eq q (f d)) paths)"
    by (simp add: missing_slots_def image_iff split_beta Bex_def) force
  then show ?thesis using active_slots_nth [of slot _ slots] by auto
qed

text \<open>A snapshot keeps exactly the devices it names, and queues exactly the others it names, once.\<close>

lemma snapshot_applied:
  assumes "apply_snapshot dm ops paths rt = rt'"
  shows "known_paths (rt_paths ops rt') = {p \<in> known_paths (rt_paths ops rt). \<exists>q \<in> set paths. path_eq q p}
    \<and> (\<exists>new. rt_pending_additions rt' = rt_pending_additions rt @ new \<and> distinct (map path_key new)
        \<and> set new \<subseteq> set paths \<and> length new \<le> length paths
        \<and> path_key ` set new = path_key ` set paths - table_keys ops rt')"
proof -
  let ?missing = "missing_slots (map (\<lambda>(slot, d). (slot, so_path ops d)) (active_slots (rt_slots rt))) paths"
  define rt1 where "rt1 = foldl (remove_missing dm ops) rt ?missing"
  have s1: "rt_slots rt1 = foldl (\<lambda>s i. s[i := None]) (rt_slots rt) ?missing"
    and p1: "rt_pending_additions rt1 = rt_pending_additions rt"
    by (simp_all add: rt1_def remove_all_slots)
  have rt': "rt_slots rt' = rt_slots rt1" "rt_pending_additions rt' = rt_pending_additions rt1 @ new_paths ops rt1 paths"
    using assms by (auto simp: apply_snapshot_def Let_def rt1_def)
  have len: "length (rt_slots rt1) = length (rt_slots rt)" by (simp add: s1 length_cleared)
  have nth: "rt_slots rt1 ! j = Some d \<longleftrightarrow> rt_slots rt ! j = Some d \<and> list_ex (\<lambda>q. path_eq q (so_path ops d)) paths"
    if "j < length (rt_slots rt)" for j d
    using that by (auto simp: s1 cleared_slots missing_slots_iff)
  have mem: "Some d \<in> set (rt_slots rt1) \<longleftrightarrow> Some d \<in> set (rt_slots rt) \<and> list_ex (\<lambda>q. path_eq q (so_path ops d)) paths" for d
    using nth [of _ d] len by (auto simp: in_set_conv_nth)
  have "known_paths (rt_paths ops rt') = {p \<in> known_paths (rt_paths ops rt). \<exists>q \<in> set paths. path_eq q p}"
    using mem by (auto simp: known_paths_slots rt' list_ex_iff)
  moreover have "table_keys ops rt1 = table_keys ops rt'" by (simp add: table_keys_def rt_paths_def rt')
  ultimately show ?thesis using new_paths_keys [of ops rt1 paths] rt'(2) p1 by auto
qed

section \<open>Captures\<close>

context device_session begin

lemma captures_applied:
  "n \<le> length (rt_slots rt) \<Longrightarrow> foldl (apply_capture ops es captures) rt [0..<n] = rt' \<Longrightarrow>
    length (rt_slots rt') = length (rt_slots rt) \<and> rt_ipc rt' = rt_ipc rt
    \<and> (\<forall>slot < n. \<forall>d. rt_slots rt' ! slot = Some d \<longrightarrow>
        (capturing d \<longleftrightarrow> list_ex (\<lambda>path. path_eq path (so_path ops d)) captures))"
proof (induction n arbitrary: rt')
  case (Suc n)
  define rt1 where "rt1 = foldl (apply_capture ops es captures) rt [0..<n]"
  have ih: "length (rt_slots rt1) = length (rt_slots rt)" "rt_ipc rt1 = rt_ipc rt"
    "\<forall>slot < n. \<forall>d. rt_slots rt1 ! slot = Some d \<longrightarrow>
        (capturing d \<longleftrightarrow> list_ex (\<lambda>path. path_eq path (so_path ops d)) captures)"
    using Suc.IH [of rt1] Suc.prems(1) by (auto simp: rt1_def)
  have rt': "rt' = apply_capture ops es captures rt1 n" using Suc.prems(2) by (simp add: rt1_def)
  show ?case
  proof (cases "rt_slots rt1 ! n")
    case None
    then have "rt' = rt1" using rt' by (simp add: apply_capture_def)
    then show ?thesis using ih None by (auto simp: less_Suc_eq)
  next
    case (Some d)
    let ?w = "list_ex (\<lambda>path. path_eq path (so_path ops d)) captures"
    obtain r d' where s: "so_set_capture ops (es n) ?w d = (r, d')" by force
    have d': "so_path ops d' = so_path ops d" "capturing d' \<longleftrightarrow> ?w"
      using capture_path [of "es n" ?w d] capture_told [of "es n" ?w d] s by simp_all
    have "rt_slots rt' = (rt_slots rt1)[n := Some d']" "rt_ipc rt' = rt_ipc rt1"
      using rt' Some s by (auto simp: apply_capture_def Let_def split: option.splits)
    then show ?thesis using ih d' Suc.prems(1) by (auto simp: less_Suc_eq nth_list_update)
  qed
qed simp

lemma captures_paths: "rt_paths ops (foldl (apply_capture ops es captures) rt xs) = rt_paths ops rt"
proof (induction xs arbitrary: rt)
  case (Cons slot xs)
  have "rt_paths ops (apply_capture ops es captures rt slot) = rt_paths ops rt"
  proof (cases "rt_slots rt ! slot")
    case (Some d)
    obtain r d' where s: "so_set_capture ops (es slot) (list_ex (\<lambda>path. path_eq path (so_path ops d)) captures) d = (r, d')"
      by force
    show ?thesis
      by (rule rt_paths_same [OF Some, of _ d'])
        (use capture_path [of "es slot" "list_ex (\<lambda>path. path_eq path (so_path ops d)) captures" d] s Some
         in \<open>simp_all add: apply_capture_def Let_def split: option.split\<close>)
  qed (simp add: apply_capture_def)
  then show ?case using Cons by simp
qed simp

lemma captures_follow:
  assumes "service_commands dm ops cs es rt = rt'" "Some d \<in> set (rt_slots rt')"
  shows "capturing d \<longleftrightarrow> (\<exists>s path. rt_ipc rt' = Some s \<and> path \<in> set (capture_paths s) \<and> path_eq path (so_path ops d))"
proof -
  obtain cmds ipc where c: "(case rt_ipc rt of None \<Rightarrow> ([], None)
      | Some s \<Rightarrow> (case take_commands s of (cmds, s') \<Rightarrow> (cmds, Some s'))) = (cmds, ipc)" by force
  define rt1 where "rt1 = complete_commands dm ops cs 0 cmds (rt\<lparr>rt_ipc := ipc\<rparr>)"
  define captures where "captures = (case rt_ipc rt1 of None \<Rightarrow> [] | Some s \<Rightarrow> capture_paths s)"
  have f: "foldl (apply_capture ops es captures) rt1 [0..<length (rt_slots rt1)] = rt'"
    using assms(1) by (simp add: service_commands_def c rt1_def captures_def Let_def)
  note ca = captures_applied [OF order_refl f]
  obtain slot where "slot < length (rt_slots rt')" "rt_slots rt' ! slot = Some d"
    using assms(2) by (metis in_set_conv_nth)
  then have "capturing d \<longleftrightarrow> list_ex (\<lambda>path. path_eq path (so_path ops d)) captures" using ca by simp
  moreover have "rt_ipc rt' = rt_ipc rt1" using ca by simp
  ultimately show ?thesis by (cases "rt_ipc rt1") (simp_all add: captures_def list_ex_iff Bex_def)
qed

end

section \<open>Discovery comes to an end\<close>

text \<open>Every slot occupied means as many keys as slots.\<close>

lemma full_table_keys:
  assumes "rt_ok ops rt" "\<And>s. s \<in> set (rt_slots rt) \<Longrightarrow> s \<noteq> None"
  shows "MAX_DEVICES \<le> card (table_keys ops rt)"
proof -
  let ?f = "\<lambda>i. path_key (so_path ops (the (rt_slots rt ! i)))"
  have len: "length (rt_slots rt) = MAX_DEVICES" by (rule rt_ok_length [OF assms(1)])
  have full: "\<exists>d. rt_slots rt ! i = Some d" if "i < MAX_DEVICES" for i
    using assms(2) [of "rt_slots rt ! i"] that len by auto
  have "inj_on ?f {..<MAX_DEVICES}"
  proof (rule inj_onI)
    fix i j assume ij: "i \<in> {..<MAX_DEVICES}" "j \<in> {..<MAX_DEVICES}" "?f i = ?f j"
    then obtain d e where de: "rt_slots rt ! i = Some d" "rt_slots rt ! j = Some e" using full by blast
    then have "rt_paths ops rt ! i = Some (so_path ops d)" "rt_paths ops rt ! j = Some (so_path ops e)"
      using ij len by (simp_all add: rt_paths_nth)
    then show "i = j" using assms(1) ij de by (auto simp: rt_ok_def paths_ok_def path_eq_def)
  qed
  then have c: "card (?f ` {..<MAX_DEVICES}) = MAX_DEVICES" by (simp add: card_image)
  have "?f i \<in> table_keys ops rt" if i: "i < MAX_DEVICES" for i
  proof -
    obtain d where d: "rt_slots rt ! i = Some d" using full [OF i] by blast
    then have "Some d \<in> set (rt_slots rt)" using i len nth_mem [of i "rt_slots rt"] by simp
    then show ?thesis using d by (auto simp: table_keys_def known_paths_slots)
  qed
  then have sub: "?f ` {..<MAX_DEVICES} \<subseteq> table_keys ops rt" by auto
  have "table_keys ops rt \<subseteq> (\<lambda>s. path_key (so_path ops (the s))) ` set (rt_slots rt)"
    by (auto simp: table_keys_def known_paths_slots) (metis (no_types, lifting) image_eqI option.sel)
  then have "finite (table_keys ops rt)" using finite_subset by blast
  from card_mono [OF this sub] show ?thesis by (simp add: c)
qed

text \<open>The queue and the table together hold the keys \<open>K\<close>, each once; the queue has \<open>n\<close> paths.\<close>

definition awaits ::
  "('d, 'e) session_ops \<Rightarrow> config \<Rightarrow> bool \<Rightarrow> string list \<Rightarrow> (bool \<times> bool \<times> string list) set \<Rightarrow> nat \<Rightarrow> 'd runtime \<Rightarrow> bool" where
  "awaits ops c dry paths K n rt \<longleftrightarrow> rt_ok ops rt \<and> rt_config rt = c \<and> rt_dry_run rt = dry
    \<and> length (rt_pending_additions rt) = n
    \<and> set (rt_pending_additions rt) \<subseteq> set paths \<and> distinct (map path_key (rt_pending_additions rt))
    \<and> path_key ` set (rt_pending_additions rt) = K - table_keys ops rt \<and> table_keys ops rt \<subseteq> K"

text \<open>The discovery of \<open>n\<close> further rounds of the loop, without the polls and drains between them.\<close>

primrec discover ::
  "daemon_env \<Rightarrow> ('d, 'e) session_ops \<Rightarrow> (nat \<Rightarrow> nat \<Rightarrow> 'e) \<Rightarrow> (nat \<Rightarrow> int option) \<Rightarrow> nat \<Rightarrow> 'd runtime \<Rightarrow> 'd runtime" where
  "discover dm ops ess reqs 0 rt = rt"
| "discover dm ops ess reqs (Suc n) rt =
    discover dm ops ess reqs n (service_discovery dm ops None (ess n) (reqs n) rt)"

lemma request_reconcile_fields [simp]:
  "rt_slots (request_reconcile req rt) = rt_slots rt"
  "rt_pending_additions (request_reconcile req rt) = rt_pending_additions rt"
  by (simp_all add: request_reconcile_def split: option.split)

text \<open>What a call of discovery does to the table and to the queue.\<close>

lemma service_discovery_table:
  assumes "rt1 = (if rt_snapshot_pending rt then
      (case taken of None \<Rightarrow> rt
       | Some (Inr paths) \<Rightarrow> apply_snapshot dm ops paths (rt\<lparr>rt_snapshot_pending := False\<rparr>)
       | Some (Inl code) \<Rightarrow> emit_lifecycle (LcError ''reconcile snapshot'' None code) (rt\<lparr>rt_snapshot_pending := False\<rparr>))
      else rt)"
  shows "rt_slots (service_discovery dm ops taken es req rt) = rt_slots (add_pending dm ops es DEVICE_SETUP_BUDGET rt1)
    \<and> rt_pending_additions (service_discovery dm ops taken es req rt)
        = rt_pending_additions (add_pending dm ops es DEVICE_SETUP_BUDGET rt1)"
proof -
  define rt2 where "rt2 = add_pending dm ops es DEVICE_SETUP_BUDGET rt1"
  have "service_discovery dm ops taken es req rt =
      (if \<not> rt_snapshot_pending rt2 \<and> rt_pending_additions rt2 = [] \<and> rt_reconcile_again rt2
       then request_reconcile req (rt2\<lparr>rt_reconcile_again := False\<rparr>) else rt2)"
    unfolding service_discovery_def discovery_work_def Let_def rt2_def assms by (rule refl)
  then show ?thesis by (simp add: rt2_def)
qed

lemma awaits_table:
  assumes "awaits ops c dry paths K n rt" "rt_slots rt' = rt_slots rt"
    "rt_pending_additions rt' = rt_pending_additions rt" "runs ops rt rt'"
  shows "awaits ops c dry paths K n rt'"
proof -
  have "table_keys ops rt' = table_keys ops rt" by (simp add: table_keys_def rt_paths_def assms(2))
  then show ?thesis using assms by (simp add: awaits_def runs_def)
qed

context device_session begin

lemma awaits_add_path:
  assumes "awaits ops c dry paths K (Suc n) rt" "card K \<le> MAX_DEVICES" "finite K"
    and "\<And>path. path \<in> set paths \<Longrightarrow> \<exists>d. so_open ops e path c (\<not> dry) = Inr d"
    and "rt_pending_additions rt = path # rest"
  shows "awaits ops c dry paths K n (snd (add_path dm ops e path (rt\<lparr>rt_pending_additions := rest\<rparr>)))"
proof -
  let ?rt0 = "rt\<lparr>rt_pending_additions := rest\<rparr>"
  have keys0: "table_keys ops ?rt0 = table_keys ops rt" by (simp add: table_keys_def rt_paths_def)
  have a: "rt_ok ops rt" "rt_config rt = c" "rt_dry_run rt = dry" "length rest = n" "path \<in> set paths" "set rest \<subseteq> set paths"
    "path_key path \<notin> path_key ` set rest" "distinct (map path_key rest)"
    "insert (path_key path) (path_key ` set rest) = K - table_keys ops rt" "table_keys ops rt \<subseteq> K"
    using assms(1,5) by (auto simp: awaits_def)
  have ok0: "rt_ok ops ?rt0" using a(1) by (simp add: rt_ok_def rt_paths_def ipc_ok_def)
  have new: "path_key path \<in> K" "path_key path \<notin> table_keys ops rt" using a(9) by blast+
  have "card (table_keys ops rt) < card K" using new a(10) assms(3) by (intro psubset_card_mono) auto
  then have "\<not> MAX_DEVICES \<le> card (table_keys ops rt)" using assms(2) by simp
  then have "\<not> (\<forall>s \<in> set (rt_slots rt). s \<noteq> None)" using full_table_keys [OF a(1)] by fast
  then obtain slot where slot: "position (\<lambda>s. s = None) (rt_slots rt) = Some slot"
    using position_None [of "\<lambda>s. s = None" "rt_slots rt"] by fastforce
  obtain d0 where d0: "so_open ops e path c (\<not> dry) = Inr d0" using assms(4) [OF a(5)] by blast
  define dev where "dev = (if tc_enabled (rt_trace rt) then so_set_trace ops (tc_filter (rt_trace rt)) d0 else d0)"
  have dp: "so_path ops dev = path" using open_path [OF d0] trace_path by (simp add: dev_def)
  define rt' where "rt' = snd (add_path dm ops e path ?rt0)"
  have "rt_find ops path ?rt0 = None" using new by (simp add: rt_find_None keys0)
  then have f: "rt_slots rt' = (rt_slots rt)[slot := Some dev]" "rt_pending_additions rt' = rest"
    using slot d0 a(2,3) by (simp_all add: rt'_def add_path_def publish_added_def Let_def dev_def)
  have sl: "slot < length (rt_slots rt)" "rt_slots rt ! slot = None" using position_Some [OF slot] by simp_all
  have "rt_paths ops rt' = (rt_paths ops rt)[slot := Some path]" by (simp add: rt_paths_def f map_update dp)
  then have keys: "table_keys ops rt' = insert (path_key path) (table_keys ops rt)"
    using known_paths_update [of slot "rt_paths ops rt" path] sl by (simp add: table_keys_def rt_paths_def)
  have run: "runs ops ?rt0 rt'" unfolding rt'_def by (rule runs_add_path)
  have "rt_ok ops rt'" "rt_config rt' = c" "rt_dry_run rt' = dry" using run ok0 a(2,3) by (simp_all add: runs_def)
  then have "awaits ops c dry paths K n rt'"
    using a new by (simp add: awaits_def f keys) blast
  then show ?thesis by (simp add: rt'_def)
qed

lemma awaits_add_pending:
  assumes "awaits ops c dry paths K n rt" "card K \<le> MAX_DEVICES" "finite K"
    and "\<And>i path. path \<in> set paths \<Longrightarrow> \<exists>d. so_open ops (es i) path c (\<not> dry) = Inr d"
  shows "awaits ops c dry paths K (n - k) (add_pending dm ops es k rt)"
  using assms(1)
proof (induction k arbitrary: n rt)
  case (Suc k)
  show ?case
  proof (cases "rt_pending_additions rt")
    case Nil
    then have "n = 0" using Suc.prems by (simp add: awaits_def)
    then show ?thesis using Nil Suc.prems by simp
  next
    case (Cons path rest)
    then obtain m where m: "n = Suc m" using Suc.prems by (auto simp: awaits_def)
    then have "awaits ops c dry paths K (Suc m) rt" using Suc.prems by simp
    from Suc.IH [OF awaits_add_path [OF this assms(2,3) assms(4) Cons]] show ?thesis
      using Cons m by simp
  qed
qed simp

lemma awaits_discover:
  assumes "awaits ops c dry paths K m rt" "card K \<le> MAX_DEVICES" "finite K"
    and "\<And>k i path. path \<in> set paths \<Longrightarrow> \<exists>d. so_open ops (ess k i) path c (\<not> dry) = Inr d"
  shows "awaits ops c dry paths K (m - 2 * n) (discover dm ops ess reqs n rt)"
  using assms(1)
proof (induction n arbitrary: m rt)
  case (Suc n)
  let ?rt1 = "add_pending dm ops (ess n) DEVICE_SETUP_BUDGET rt"
  let ?rt2 = "service_discovery dm ops None (ess n) (reqs n) rt"
  have a1: "awaits ops c dry paths K (m - 2) ?rt1"
    using awaits_add_pending [OF Suc.prems assms(2,3) assms(4), of DEVICE_SETUP_BUDGET dm] by (simp add: DEVICE_SETUP_BUDGET_def)
  have t: "rt_slots ?rt2 = rt_slots ?rt1" "rt_pending_additions ?rt2 = rt_pending_additions ?rt1"
    using service_discovery_table [where rt = rt and taken = None and dm = dm and ops = ops and es = "ess n" and req = "reqs n"] by simp_all
  have ok: "rt_ok ops rt" "rt_config rt = c" "rt_dry_run rt = dry" using Suc.prems by (simp_all add: awaits_def)
  have "runs ops rt ?rt2" by (rule runs_service_discovery)
  then have "rt_ok ops ?rt2" "rt_config ?rt2 = c" "rt_dry_run ?rt2 = dry" using ok by (simp_all add: runs_def)
  moreover have "table_keys ops ?rt2 = table_keys ops ?rt1" by (simp add: table_keys_def rt_paths_def t)
  ultimately have "awaits ops c dry paths K (m - 2) ?rt2" using a1 by (simp add: awaits_def t)
  from Suc.IH [OF this] show ?case by simp
qed simp

lemma discovery_reaches_snapshot:
  assumes ok: "rt_ok ops rt" and pend: "rt_snapshot_pending rt" "rt_pending_additions rt = []"
    and small: "card (path_key ` set paths) \<le> MAX_DEVICES" "length paths \<le> 2 * Suc n"
    and opens: "\<And>k i path. path \<in> set paths \<Longrightarrow> \<exists>d. so_open ops (ess k i) path (rt_config rt) (\<not> rt_dry_run rt) = Inr d"
    and first: "\<And>i path. path \<in> set paths \<Longrightarrow> \<exists>d. so_open ops (es i) path (rt_config rt) (\<not> rt_dry_run rt) = Inr d"
    and rt': "discover dm ops ess reqs n (service_discovery dm ops (Some (Inr paths)) es req rt) = rt'"
  shows "table_keys ops rt' = path_key ` set paths \<and> rt_pending_additions rt' = []"
proof -
  let ?c = "rt_config rt" and ?dry = "rt_dry_run rt" and ?K = "path_key ` set paths"
  let ?rt0 = "rt\<lparr>rt_snapshot_pending := False\<rparr>"
  let ?rt1 = "apply_snapshot dm ops paths ?rt0"
  have "runs ops rt ?rt0" by (rule runs_fields) simp_all
  then have run1: "runs ops rt ?rt1" by (rule runs_trans [OF _ runs_apply_snapshot])
  have known: "known_paths (rt_paths ops ?rt1) = {p \<in> known_paths (rt_paths ops ?rt0). \<exists>q \<in> set paths. path_eq q p}"
    and "\<exists>new. rt_pending_additions ?rt1 = rt_pending_additions ?rt0 @ new \<and> distinct (map path_key new)
        \<and> set new \<subseteq> set paths \<and> length new \<le> length paths \<and> path_key ` set new = ?K - table_keys ops ?rt1"
    using snapshot_applied [of dm ops paths ?rt0 ?rt1] by blast+
  then have q: "distinct (map path_key (rt_pending_additions ?rt1))" "set (rt_pending_additions ?rt1) \<subseteq> set paths"
      "length (rt_pending_additions ?rt1) \<le> length paths"
      "path_key ` set (rt_pending_additions ?rt1) = ?K - table_keys ops ?rt1"
    using pend(2) by auto
  have "path_key x \<in> ?K" if x: "x \<in> known_paths (rt_paths ops ?rt1)" for x
  proof -
    obtain q where "q \<in> set paths" "path_eq q x" using x unfolding known by blast
    then have "q \<in> set paths" "path_key x = path_key q" by (simp_all add: path_eq_def)
    then show ?thesis by simp
  qed
  then have "table_keys ops ?rt1 \<subseteq> ?K" unfolding table_keys_def by blast
  then have a1: "awaits ops ?c ?dry paths ?K (length (rt_pending_additions ?rt1)) ?rt1"
    using q run1 ok by (simp add: awaits_def runs_def)
  define rt2 where "rt2 = service_discovery dm ops (Some (Inr paths)) es req rt"
  define rt3 where "rt3 = add_pending dm ops es DEVICE_SETUP_BUDGET ?rt1"
  have a3: "awaits ops ?c ?dry paths ?K (length (rt_pending_additions ?rt1) - 2) rt3"
    using awaits_add_pending [OF a1 small(1) _ first, of DEVICE_SETUP_BUDGET dm] by (simp add: rt3_def DEVICE_SETUP_BUDGET_def)
  have t: "rt_slots rt2 = rt_slots rt3" "rt_pending_additions rt2 = rt_pending_additions rt3"
    using service_discovery_table [where rt = rt and taken = "Some (Inr paths)" and dm = dm and ops = ops and es = es and req = req] pend(1) by (simp_all add: rt2_def rt3_def)
  have "runs ops rt rt2" unfolding rt2_def by (rule runs_service_discovery)
  then have "rt_ok ops rt2" "rt_config rt2 = ?c" "rt_dry_run rt2 = ?dry" using ok by (simp_all add: runs_def)
  moreover have "table_keys ops rt2 = table_keys ops rt3" by (simp add: table_keys_def rt_paths_def t)
  ultimately have a2: "awaits ops ?c ?dry paths ?K (length (rt_pending_additions ?rt1) - 2) rt2"
    using a3 by (simp add: awaits_def t)
  have "awaits ops ?c ?dry paths ?K (length (rt_pending_additions ?rt1) - 2 - 2 * n) (discover dm ops ess reqs n rt2)"
    by (rule awaits_discover [OF a2 small(1)]) (use opens in simp_all)
  then have "awaits ops ?c ?dry paths ?K (length (rt_pending_additions ?rt1) - 2 - 2 * n) rt'"
    using rt' by (simp add: rt2_def)
  moreover have "length (rt_pending_additions ?rt1) - 2 - 2 * n = 0" using q(3) small(2) by simp
  ultimately have "awaits ops ?c ?dry paths ?K 0 rt'" by simp
  then show ?thesis by (auto simp: awaits_def)
qed

end

end
