(* ===== verification/Runtime_Kept.thy ===== *)
theory Runtime_Kept
  imports Runtime_Discovery
begin

text \<open>
  What every device of the reactor's table keeps (\<open>crates/wiilandd/src/runtime.rs\<close>): a property that
  the opening of a device by a trusted kernel establishes, and that every method of the device the
  reactor calls preserves, holds of every device in every slot after every round. \<open>good\<close> is the
  property and \<open>trusted\<close> says what the kernel may answer when a device is opened.
\<close>

definition all_slots :: "('d \<Rightarrow> bool) \<Rightarrow> 'd runtime \<Rightarrow> bool" where
  "all_slots good rt \<longleftrightarrow> (\<forall>d. Some d \<in> set (rt_slots rt) \<longrightarrow> good d)"

lemma all_slotsD: "all_slots good rt \<Longrightarrow> Some d \<in> set (rt_slots rt) \<Longrightarrow> good d"
  by (simp add: all_slots_def)

lemma all_slots_nth: "all_slots good rt \<Longrightarrow> slot < length (rt_slots rt) \<Longrightarrow> rt_slots rt ! slot = Some d \<Longrightarrow> good d"
  by (metis all_slotsD nth_mem)

lemma all_slots_same: "rt_slots rt' = rt_slots rt \<Longrightarrow> all_slots good rt' = all_slots good rt"
  by (simp add: all_slots_def)

lemma all_slots_put: "all_slots good rt \<Longrightarrow> good d \<Longrightarrow> rt_slots rt' = (rt_slots rt)[slot := Some d] \<Longrightarrow> all_slots good rt'"
  using set_update_subset_insert [of "rt_slots rt" slot "Some d"] by (auto simp: all_slots_def)

lemma all_slots_drop: "all_slots good rt \<Longrightarrow> rt_slots rt' = (rt_slots rt)[slot := None] \<Longrightarrow> all_slots good rt'"
  using set_update_subset_insert [of "rt_slots rt" slot None] by (auto simp: all_slots_def)

text \<open>A slot whose device has failed is cleared, so its device may be anything when it is released.\<close>

lemma release_slots:
  "rt_slots (release_slot dm ops slot path reason event rt) = (rt_slots rt)[slot := None]"
proof (cases "rt_slots rt ! slot")
  case None
  then have "(rt_slots rt)[slot := None] = rt_slots rt" using list_update_id [of "rt_slots rt" slot] by simp
  then show ?thesis using None by (simp add: release_slot_def)
qed (simp add: release_slot_def publish_removed_def Let_def)

lemma publish_all_slots: "rt_slots (foldl (\<lambda>r event. rt_publish dm ops event r) rt evs) = rt_slots rt"
  by (induction evs arbitrary: rt) simp_all

lemma all_slots_foldl:
  "(\<And>rt x. all_slots good rt \<Longrightarrow> all_slots good (f rt x)) \<Longrightarrow> all_slots good rt \<Longrightarrow> all_slots good (foldl f rt xs)"
  by (induction xs arbitrary: rt) simp_all

lemma all_slots_emit [simp]: "all_slots good (emit_lifecycle ev rt) = all_slots good rt"
  by (rule all_slots_same) simp

lemma all_slots_request [simp]: "all_slots good (request_reconcile req rt) = all_slots good rt"
  by (rule all_slots_same) (simp add: request_reconcile_def split: option.split)

lemma all_slots_out [simp]:
  "all_slots good (rt\<lparr>rt_ipc := i\<rparr>) = all_slots good rt" "all_slots good (rt\<lparr>rt_metrics := m\<rparr>) = all_slots good rt"
  "all_slots good (rt\<lparr>rt_monitor_pending := p\<rparr>) = all_slots good rt"
  "all_slots good (rt\<lparr>rt_snapshot_pending := p\<rparr>) = all_slots good rt"
  "all_slots good (rt\<lparr>rt_reconcile_again := p\<rparr>) = all_slots good rt"
  "all_slots good (rt\<lparr>rt_pending_additions := ps\<rparr>) = all_slots good rt"
  by (simp_all add: all_slots_def)

locale kept_devices = device_session ops capturing
  for ops :: "('d, 'e) session_ops" and capturing :: "'d \<Rightarrow> bool" +
  fixes good :: "'d \<Rightarrow> bool" and trusted :: "'e \<Rightarrow> bool"
  assumes good_open: "trusted e \<Longrightarrow> so_open ops e path c enabled = Inr d \<Longrightarrow> good d"
    and good_trace: "good d \<Longrightarrow> good (so_set_trace ops flt d)"
    and good_drain: "good d \<Longrightarrow> sd_result (so_drain ops e n d) = Inr BridgeContinue \<Longrightarrow>
      good (sd_device (so_drain ops e n d))"
    and good_capture: "good d \<Longrightarrow> good (snd (so_set_capture ops e wanted d))"
    and good_tick: "good d \<Longrightarrow> fst (so_tick_pointer ops e d) = None \<Longrightarrow> good (snd (so_tick_pointer ops e d))"
begin

lemma kept_add_path:
  assumes "all_slots good rt" "trusted e"
  shows "all_slots good (snd (add_path dm ops e path rt))"
proof -
  have dev: "good (if b then so_set_trace ops flt d else d)"
    if "so_open ops e path (rt_config rt) (\<not> rt_dry_run rt) = Inr d" for b flt d
    using good_open [OF assms(2) that] good_trace by simp
  have put: "all_slots good (emit_lifecycle (LcAdd path) (publish_added dm ops info (rt\<lparr>rt_slots := (rt_slots rt)[slot := Some d]\<rparr>)))"
    if "good d" for info slot d
    by (rule all_slots_put [OF assms(1) that, where slot = slot]) (simp add: publish_added_def Let_def)
  show ?thesis using assms(1) put dev
    by (simp add: add_path_def Let_def split: option.split sum.split)
qed

lemma kept_drain_device:
  assumes "all_slots good rt" "slot < length (rt_slots rt)"
  shows "all_slots good (snd (drain_device dm ops e slot single rt))"
proof (cases "rt_slots rt ! slot")
  case None
  then show ?thesis using assms(1) by (simp add: drain_device_def)
next
  case (Some d)
  have g: "good d" by (rule all_slots_nth [OF assms Some])
  define sd where "sd = so_drain ops e (rt_trace_sequence rt) d"
  obtain rt2 where rt2: "rt_slots rt2 = (rt_slots rt)[slot := Some (sd_device sd)]"
    "snd (drain_device dm ops e slot single rt) = (case sd_result sd of
        Inr BridgeContinue \<Rightarrow> rt2
      | Inr BridgeGone \<Rightarrow> release_slot dm ops slot (so_path ops d) ReasonGone (LcGone (so_path ops d)) rt2
      | Inl code \<Rightarrow> release_slot dm ops slot (so_path ops d) ReasonDrainError (LcError ''drain'' (Some (so_path ops d)) code) rt2)"
    by (rule that [of "if should_collect_input (map_option has_input_subscribers (rt_ipc rt)) then
        foldl (\<lambda>r event. rt_publish dm ops event r)
          (rt\<lparr>rt_slots := (rt_slots rt)[slot := Some (sd_device sd)], rt_trace_sequence := sd_sequence sd,
             rt_trace_writer := foldl (\<lambda>w line. diag_send line w) (rt_trace_writer rt) (sd_lines sd),
             rt_notification_sequence := (next_sequence ^^ length (sd_events sd)) (rt_notification_sequence rt)\<rparr>)
          (input_notes (so_path ops d) (rt_notification_sequence rt) (sd_events sd))
        else rt\<lparr>rt_slots := (rt_slots rt)[slot := Some (sd_device sd)], rt_trace_sequence := sd_sequence sd,
             rt_trace_writer := foldl (\<lambda>w line. diag_send line w) (rt_trace_writer rt) (sd_lines sd)\<rparr>"])
      (simp_all add: publish_all_slots drain_device_def Some Let_def sd_def [symmetric] split: sum.split bridge_action.split)
  have cleared: "all_slots good (release_slot dm ops slot path reason event rt2)" for path reason event
    by (rule all_slots_drop [OF assms(1), where slot = slot]) (simp add: release_slots rt2(1))
  have "all_slots good rt2" if "sd_result sd = Inr BridgeContinue"
    by (rule all_slots_put [OF assms(1) _ rt2(1)]) (use good_drain [OF g] that in \<open>simp add: sd_def\<close>)
  then show ?thesis using cleared unfolding rt2(2) by (auto split: sum.split bridge_action.split)
qed

lemma kept_remove_missing: "all_slots good rt \<Longrightarrow> all_slots good (remove_missing dm ops rt slot)"
  by (rule all_slots_drop [where slot = slot]) (simp_all add: remove_missing_slots)

lemma kept_add_pending:
  assumes "\<And>i. trusted (es i)"
  shows "all_slots good rt \<Longrightarrow> all_slots good (add_pending dm ops es n rt)"
  by (induction n arbitrary: rt) (auto simp: kept_add_path assms split: list.split)

lemma kept_discovery:
  assumes "all_slots good rt" "\<And>i. trusted (es i)"
  shows "all_slots good (service_discovery dm ops taken es req rt)"
proof -
  have a: "all_slots good (apply_snapshot dm ops paths rt)" if "all_slots good rt" for paths rt
    using all_slots_foldl [where f = "remove_missing dm ops", OF kept_remove_missing that]
    by (simp add: apply_snapshot_def Let_def)
  have "all_slots good (discovery_work dm ops taken es rt)" unfolding discovery_work_def Let_def
    by (rule kept_add_pending [OF assms(2)]) (use assms(1) a in \<open>simp split: option.split sum.split\<close>)
  then show ?thesis by (simp add: service_discovery_def Let_def)
qed

lemma kept_apply_capture:
  assumes "all_slots good rt"
  shows "slot < length (rt_slots rt) \<Longrightarrow> all_slots good (apply_capture ops es captures rt slot)"
proof (cases "rt_slots rt ! slot")
  case (Some d)
  assume l: "slot < length (rt_slots rt)"
  obtain r d' where s: "so_set_capture ops (es slot) (list_ex (\<lambda>path. path_eq path (so_path ops d)) captures) d = (r, d')"
    by force
  have "good d'" using good_capture [OF all_slots_nth [OF assms l Some]] s by (metis snd_conv)
  then show ?thesis using all_slots_put [OF assms, of d' _ slot] Some s
    by (simp add: apply_capture_def Let_def split: option.split)
qed (use assms in \<open>simp add: apply_capture_def\<close>)

lemma captures_length: "length (rt_slots (apply_capture ops es captures rt slot)) = length (rt_slots rt)"
  by (simp add: apply_capture_def Let_def split: option.split prod.split)

lemma kept_captures:
  "all_slots good rt \<Longrightarrow> \<forall>slot \<in> set slots. slot < length (rt_slots rt) \<Longrightarrow>
    all_slots good (foldl (apply_capture ops es captures) rt slots)"
  by (induction slots arbitrary: rt) (simp_all add: kept_apply_capture captures_length)

lemma kept_control:
  assumes "all_slots good rt"
  shows "all_slots good (snd (control_command ops e cmd rt))"
proof -
  have "all_slots good (rt\<lparr>rt_slots := (rt_slots rt)[slot := Some (snd (so_set_capture ops e True d))]\<rparr>)"
    if "rt_find ops path rt = Some slot" "rt_slots rt ! slot = Some d" for path slot d
  proof -
    have "slot < length (rt_slots rt)" using position_slot that(1) by (auto simp: rt_find_def)
    then show ?thesis using all_slots_put [OF assms good_capture [OF all_slots_nth [OF assms _ that(2)]]] by simp
  qed
  then show ?thesis using assms
    by (cases cmd) (simp_all add: control_command_def case_prod_beta split: option.split)
qed

lemma kept_complete: "all_slots good rt \<Longrightarrow> all_slots good (complete_commands dm ops es k cmds rt)"
proof (induction cmds arbitrary: k rt)
  case (Cons x cmds)
  obtain token i cmd where x: "x = (token, i, cmd)" by (metis prod_cases3)
  obtain r rt1 where c: "control_command ops (es k) cmd rt = (r, rt1)" by force
  have "all_slots good rt1" using kept_control [OF Cons.prems, of "es k" cmd] c by simp
  then show ?case using Cons.IH c by (simp add: x)
qed simp

lemma kept_commands: "all_slots good rt \<Longrightarrow> all_slots good (service_commands dm ops cs es rt)"
  unfolding service_commands_def
  by (auto simp: Let_def kept_complete intro!: kept_captures split: option.split prod.split)

lemma kept_serve_ready:
  "all_slots good rt \<Longrightarrow> serve_ready dm ops pv ready rt = Some (r, rt') \<Longrightarrow> all_slots good rt'"
proof (induction ready arbitrary: rt)
  case (Cons x ready)
  then show ?case
    by (cases x) (auto split: poll_owner.splits option.splits prod.splits if_splits,
      (metis all_slots_out(1))+)
qed simp

lemma kept_drain_ready:
  "all_slots good rt \<Longrightarrow> rt_ok ops rt \<Longrightarrow>
    \<forall>(owner, ev) \<in> set owners. \<forall>slot. owner = OwnDevice slot \<longrightarrow> slot < MAX_DEVICES \<Longrightarrow>
    all_slots good (snd (drain_ready dm ops es single owners rt))"
proof (induction owners arbitrary: rt)
  case (Cons x owners)
  obtain owner ev where x: "x = (owner, ev)" by force
  show ?case
  proof (cases "\<exists>slot. owner = OwnDevice slot \<and> ev \<noteq> 0")
    case True
    then obtain slot where o: "owner = OwnDevice slot" "ev \<noteq> 0" by blast
    obtain q rt1 where d: "drain_device dm ops (es slot) slot single rt = (q, rt1)" by force
    have l: "slot < MAX_DEVICES" using Cons.prems(3) o(1) by (simp add: x)
    have g: "all_slots good rt1"
      using kept_drain_device [OF Cons.prems(1), of slot dm "es slot" single] l rt_ok_length [OF Cons.prems(2)] d by simp
    have ok: "rt_ok ops rt1" by (rule runs_ok [OF runs_drain_device [OF l d] Cons.prems(2)])
    show ?thesis using Cons.IH [OF g ok] Cons.prems(3) o d g by (cases q) (simp_all add: x)
  next
    case False
    then have "drain_ready dm ops es single (x # owners) rt = drain_ready dm ops es single owners rt"
      by (auto simp: x split: poll_owner.splits)
    then show ?thesis using Cons by simp
  qed
qed simp

lemma kept_tick_slots:
  "all_slots good rt \<Longrightarrow> rt_ok ops rt \<Longrightarrow> \<forall>slot \<in> set slots. slot < MAX_DEVICES \<Longrightarrow>
    all_slots good (snd (tick_slots dm ops es single slots rt))"
proof (induction slots arbitrary: rt)
  case (Cons slot slots)
  show ?case
  proof (cases "\<exists>d. rt_slots rt ! slot = Some d \<and> so_pointer_active ops d")
    case False
    then have "tick_slots dm ops es single (slot # slots) rt = tick_slots dm ops es single slots rt"
      by (auto split: option.splits)
    then show ?thesis using Cons by simp
  next
    case True
    then obtain d where d: "rt_slots rt ! slot = Some d" "so_pointer_active ops d" by blast
    have l: "slot < length (rt_slots rt)" using rt_ok_length [OF Cons.prems(2)] Cons.prems(3) by simp
    obtain q d' where t: "so_tick_pointer ops (es slot) d = (q, d')" by force
    define rt1 where "rt1 = (case q of None \<Rightarrow> rt\<lparr>rt_slots := (rt_slots rt)[slot := Some d']\<rparr>
      | Some code \<Rightarrow> release_slot dm ops slot (so_path ops d') ReasonPointerError
          (LcError ''pointer tick'' (Some (so_path ops d')) code) (rt\<lparr>rt_slots := (rt_slots rt)[slot := Some d']\<rparr>))"
    have step: "tick_slots dm ops es single (slot # slots) rt = (if q \<noteq> None \<and> single then (q, rt1)
        else tick_slots dm ops es single slots rt1)"
      by (cases q) (simp_all add: d t rt1_def Let_def)
    have g: "all_slots good rt1"
    proof (cases q)
      case None
      then have "good d'" using good_tick [OF all_slots_nth [OF Cons.prems(1) l d(1)], of "es slot"] t by simp
      then show ?thesis using None by (simp add: rt1_def all_slots_put [OF Cons.prems(1), of d' _ slot])
    next
      case (Some code)
      then show ?thesis by (simp add: rt1_def all_slots_drop [OF Cons.prems(1), of _ slot] release_slots)
    qed
    have "tick_slots dm ops es True [slot] rt = (q, rt1)" by (cases q) (simp_all add: d t rt1_def Let_def)
    from runs_tick_slots [OF this Cons.prems(2)] Cons.prems(3) have "rt_ok ops rt1"
      using runs_ok [OF _ Cons.prems(2)] by simp
    from Cons.IH [OF g this] Cons.prems(3) g show ?thesis unfolding step by simp
  qed
qed simp

lemma kept_poll_once:
  assumes "poll_once dm ops pv single rt = Some (r, rt')" "rt_ok ops rt" "all_slots good rt"
  shows "all_slots good rt'"
proof -
  define ready where "ready = zip (poll_owners (pv_monitor_fd pv) rt)
    (map (pv_revents pv) [0..<length (poll_owners (pv_monitor_fd pv) rt)])"
  have less: "\<forall>(owner, ev) \<in> set ready. \<forall>slot. owner = OwnDevice slot \<longrightarrow> slot < MAX_DEVICES"
    using drain_owners_less [OF assms(2)] by (fastforce simp: ready_def dest: set_zip_leftD)
  obtain q rt1 where d: "drain_ready dm ops (pv_drain pv) single ready rt = (q, rt1)" by force
  have g1: "all_slots good rt1" using kept_drain_ready [OF assms(3,2) less, of dm "pv_drain pv" single] d by simp
  have monitor: "all_slots good (drain_monitor_step pv rt1)"
    using g1 by (simp add: drain_monitor_step_def split: sum.split)
  define rt2 where "rt2 = (if list_ex (\<lambda>(owner, ev). owner = OwnMonitor \<and> ev \<noteq> 0) ready \<or> rt_monitor_pending rt1
    then drain_monitor_step pv rt1 else rt1)"
  have g2: "all_slots good rt2" using g1 monitor by (simp add: rt2_def)
  have serve: "all_slots good rt3" if "serve_ready dm ops pv ready rt2 = Some (e, rt3)" for e rt3
    by (rule kept_serve_ready [OF g2 that])
  show ?thesis
    using assms(1,3) g1 g2 serve unfolding poll_once_def Let_def ready_def [symmetric] d prod.case rt2_def [symmetric]
    by (auto simp: kept_commands split: if_splits sum.splits option.splits)
qed

lemma kept_loop_tick:
  assumes "all_slots good rt" "rt_ok ops rt"
  shows "all_slots good (snd (loop_tick dm ops le single next_pointer rt))"
proof -
  let ?rt1 = "rt\<lparr>rt_metrics := (rt_metrics rt)\<lparr>dg_max_pointer_lateness_us :=
    max (dg_max_pointer_lateness_us (rt_metrics rt)) (as_u64_micros (le_now le - next_pointer))\<rparr>\<rparr>"
  have "runs ops rt ?rt1" by (rule runs_fields) simp_all
  then have "rt_ok ops ?rt1" by (rule runs_ok [OF _ assms(2)])
  then show ?thesis using kept_tick_slots [of ?rt1] assms(1) by (simp add: loop_tick_def)
qed

text \<open>A round keeps the property in every slot, however it ends, when the devices it opens are opened by a trusted kernel.\<close>

lemma kept_loop_round:
  assumes "loop_round dm ops le single next_pointer next_reconcile rt = Some (r, rt')"
    and "rt_ok ops rt" "all_slots good rt" "\<And>i. trusted (le_opens le i)"
  shows "all_slots good rt'"
proof -
  have poll: "all_slots good rt1 \<and> rt_ok ops rt1" if "poll_once dm ops (le_poll le) single rt = Some (p, rt1)" for p rt1
    using that kept_poll_once [OF that assms(2,3)] runs_poll_once [OF assms(2), of dm "le_poll le" single]
      runs_ok [OF _ assms(2)] by auto
  have tick: "all_slots good rt2" if "poll_once dm ops (le_poll le) single rt = Some (p, rt1)"
    "loop_tick dm ops le single next_pointer rt1 = (q, rt2)" for p rt1 q rt2
    using kept_loop_tick [of rt1 dm le single next_pointer] poll [OF that(1)] that(2) by simp
  show ?thesis
    using assms(1,3) poll tick unfolding loop_round_def Let_def
    by (auto simp: kept_commands kept_discovery assms(4)
      split: if_splits option.splits sum.splits bool.splits prod.splits)
qed

end

end
