(* ===== verification/Bridge_Session.thy ===== *)
theory Bridge_Session
  imports Runtime_Kept Bridge_Properties
begin

text \<open>
  The bridge as the reactor's device: \<open>impl DeviceSession for BridgeDevice\<close> of
  \<open>crates/wiilandd/src/runtime.rs\<close> with \<open>open_device\<close> of \<open>platform.rs\<close>, and the proof that it meets the
  contract \<open>device_session\<close>. The path udev gives for a device opened by an enumerated path is that
  path (enumerated paths are udev's own).
\<close>

record bridge_kernel =
  bk_interface :: "string \<Rightarrow> int option + hid_interface"
  bk_devtype :: "string \<Rightarrow> bytes option"
  bk_watch :: "int option"
  bk_bridge :: bridge_env
  bk_drains :: "nat \<Rightarrow> drain_env"
  bk_writes :: "uinput_write list"

definition bridge_open :: "bridge_kernel \<Rightarrow> string \<Rightarrow> config \<Rightarrow> bool \<Rightarrow> int + bridge" where
  "bridge_open k path c outputs =
    bridge_new (bk_bridge k)
      \<lparr>bs_interface = bk_interface k path, bs_syspath = path, bs_devtype = bk_devtype k path, bs_watch = bk_watch k\<rparr>
      c outputs"

definition bridge_info :: "bridge \<Rightarrow> device_info" where
  "bridge_info b = \<lparr>
     di_syspath = br_syspath b, di_profile = ipc_profile (br_profile b),
     di_opened_interfaces = unat (br_opened b), di_pending_interfaces = unat (br_pending b),
     di_gamepad_output = (br_gamepad b \<noteq> None), di_desktop_output = (br_desktop b \<noteq> None)\<rparr>"

definition bridge_drain :: "bridge_kernel \<Rightarrow> nat \<Rightarrow> bridge \<Rightarrow> bridge session_drained" where
  "bridge_drain k sequence b =
    (let dn = drain_with (bk_drains k) (bk_writes k) sequence b
     in \<lparr>sd_result = dn_result dn, sd_events = dn_events dn, sd_lines = dn_lines dn,
         sd_sequence = dn_sequence dn, sd_device = dn_bridge dn\<rparr>)"

definition bridge_tick :: "bridge_kernel \<Rightarrow> bridge \<Rightarrow> int option \<times> bridge" where
  "bridge_tick k b = (case tick_pointer (bk_writes k) b of (r, ws, b') \<Rightarrow> (r, b'))"

definition bridge_set_trace :: "trace_filter \<Rightarrow> bridge \<Rightarrow> bridge" where
  "bridge_set_trace flt b = b\<lparr>br_trace := Some flt\<rparr>"

definition bridge_ops :: "(bridge, bridge_kernel) session_ops" where
  "bridge_ops = \<lparr>
     so_open = bridge_open, so_path = br_syspath, so_info = bridge_info, so_drain = bridge_drain,
     so_set_capture = (\<lambda>k. set_capture (bk_bridge k)), so_pointer_active = bridge_pointer_active,
     so_tick_pointer = bridge_tick, so_set_trace = bridge_set_trace\<rparr>"

lemma bridge_ops_simps [simp]:
  "so_open bridge_ops = bridge_open" "so_path bridge_ops = br_syspath" "so_info bridge_ops = bridge_info"
  "so_drain bridge_ops = bridge_drain" "so_set_capture bridge_ops = (\<lambda>k. set_capture (bk_bridge k))"
  "so_pointer_active bridge_ops = bridge_pointer_active" "so_tick_pointer bridge_ops = bridge_tick"
  "so_set_trace bridge_ops = bridge_set_trace"
  by (simp_all add: bridge_ops_def)

lemma bridge_new_syspath: "bridge_new env su c outputs = Inr b \<Longrightarrow> br_syspath b = bs_syspath su"
  by (auto simp: bridge_new_def Let_def split: if_splits sum.splits prod.splits option.splits)

lemma retry_open_capture: "br_capture (snd (retry_open env b)) = br_capture b"
  by (auto simp: retry_open_def Let_def split: prod.split)

lemma set_capture_told: "br_capture (snd (set_capture env wanted b)) = wanted"
  by (simp add: set_capture_def Let_def retry_open_capture)

lemma tick_syspath: "br_syspath (snd (bridge_tick k b)) = br_syspath b"
proof -
  obtain r ws b' where t: "process InPointerTick (bk_writes k) b = (r, ws, b')" by (metis prod_cases3)
  show ?thesis using process_identity [OF t] t by (simp add: bridge_tick_def tick_pointer_def same_identity_def)
qed

lemma capture_syspath: "br_syspath (snd (set_capture env wanted b)) = br_syspath b"
  using set_capture_identity [of env wanted b "fst (set_capture env wanted b)" "snd (set_capture env wanted b)"]
  by (simp add: same_identity_def)

interpretation reactor: device_session bridge_ops br_capture
proof unfold_locales
  show "di_syspath (so_info bridge_ops b) = so_path bridge_ops b" for b
    by (simp add: bridge_info_def)
  show "so_path bridge_ops b = path" if "so_open bridge_ops k path c outputs = Inr b" for k path c outputs b
    using that bridge_new_syspath by (fastforce simp: bridge_open_def)
  show "so_path bridge_ops (so_set_trace bridge_ops flt b) = so_path bridge_ops b" for flt b
    by (simp add: bridge_set_trace_def)
  show "so_path bridge_ops (sd_device (so_drain bridge_ops k n b)) = so_path bridge_ops b" for k n b
    using drain_identity [of b MAX_EVENTS_PER_DRAIN "bk_drains k" 0 "bk_writes k" n]
    by (simp add: bridge_drain_def drain_with_def same_identity_def Let_def)
  show "so_path bridge_ops (snd (so_set_capture bridge_ops k wanted b)) = so_path bridge_ops b" for k wanted b
    by (simp add: capture_syspath)
  show "so_path bridge_ops (snd (so_tick_pointer bridge_ops k b)) = so_path bridge_ops b" for k b
    by (simp add: tick_syspath)
  show "br_capture (snd (so_set_capture bridge_ops k wanted b)) = wanted" for k wanted b
    by (simp add: set_capture_told)
qed

text \<open>
  A kernel that opens interfaces as \<open>Interface::new\<close> does: a fresh one, after a scan of its children.
  Every bridge such a kernel opens stays a bridge of the life \<open>bridge_reachable\<close> while it is in the table.
\<close>

definition scanned_kernel :: "bridge_kernel \<Rightarrow> bool" where
  "scanned_kernel k \<longleftrightarrow> (\<forall>path d. bk_interface k path = Inr d \<longrightarrow> (\<exists>scan. hid_refresh scan Interface_start = (None, d)))"

definition bridge_alive :: "bridge \<Rightarrow> bool" where
  "bridge_alive b \<longleftrightarrow> bridge_reachable (\<lambda>_. True) (br_config b) (br_outputs_enabled b) b"

lemma bridge_aliveI: "bridge_reachable (\<lambda>_. True) c enabled b \<Longrightarrow> bridge_alive b"
  using bridge_reachable_identity [of "\<lambda>_. True" c enabled b] by (simp add: bridge_alive_def)

interpretation table: kept_devices bridge_ops br_capture bridge_alive scanned_kernel
proof unfold_locales
  show "bridge_alive b" if "scanned_kernel k" "so_open bridge_ops k path c enabled = Inr b" for k path c enabled b
  proof -
    note scanned = that(1)
    let ?su = "\<lparr>bs_interface = bk_interface k path, bs_syspath = path, bs_devtype = bk_devtype k path, bs_watch = bk_watch k\<rparr>"
    have new: "bridge_new (bk_bridge k) ?su c enabled = Inr b" using that(2) by (simp add: bridge_open_def)
    then obtain d where d: "bk_interface k path = Inr d" by (auto simp: bridge_new_def split: if_splits sum.splits)
    have su: "bs_interface ?su = Inr d" using d by simp
    obtain scan where sc: "hid_refresh scan Interface_start = (None, d)" using scanned d unfolding scanned_kernel_def by blast
    show ?thesis by (rule bridge_aliveI [OF bridge_created [OF sc su new]])
  qed
  fix b :: bridge and k :: bridge_kernel
  assume alive: "bridge_alive b"
  then have life: "bridge_reachable (\<lambda>_. True) (br_config b) (br_outputs_enabled b) b" by (simp add: bridge_alive_def)
  show "bridge_alive (so_set_trace bridge_ops flt b)" for flt
    using bridge_aliveI [OF bridge_traced [OF life]] by (simp add: bridge_set_trace_def)
  show "bridge_alive (sd_device (so_drain bridge_ops k n b))"
    if "sd_result (so_drain bridge_ops k n b) = Inr BridgeContinue" for n
    using bridge_aliveI [OF bridge_drained [OF life refl]] that by (simp add: bridge_drain_def Let_def list_all_iff)
  show "bridge_alive (snd (so_set_capture bridge_ops k wanted b))" for wanted
    using bridge_aliveI [OF bridge_captured [OF life]] by (metis bridge_ops_simps(5) prod.collapse)
  show "bridge_alive (snd (so_tick_pointer bridge_ops k b))" if "fst (so_tick_pointer bridge_ops k b) = None"
  proof -
    obtain r ws b' where t: "tick_pointer (bk_writes k) b = (r, ws, b')" by (metis prod_cases3)
    show ?thesis using bridge_aliveI [OF bridge_ticked [OF life]] that t by (simp add: bridge_tick_def)
  qed
qed

end
