(* ===== verification/Runtime_Properties.thy ===== *)
theory Runtime_Properties
  imports Bridge_Session
begin

text \<open>
  The properties of the daemon's reactor (\<open>crates/wiilandd/src/runtime.rs\<close>) over its whole life with
  bridged controllers, with their witnesses.
\<close>

section \<open>The life of a runtime\<close>

inductive runtime_reachable :: "daemon_env \<Rightarrow> bridge runtime \<Rightarrow> bool" for dm where
  runtime_created: "runtime_new c = Inr rt \<Longrightarrow> rt' = rt\<lparr>rt_dry_run := dry, rt_verbose := verbose, rt_trace := trace\<rparr> \<Longrightarrow>
    runtime_reachable dm (if serve then enable_ipc rt' else rt')"
| runtime_added: "runtime_reachable dm rt \<Longrightarrow> runtime_reachable dm (snd (add_path dm bridge_ops k path rt))"
| runtime_started: "runtime_reachable dm rt \<Longrightarrow> runtime_reachable dm (snd (run_monitor_start started req rt))"
| runtime_round: "runtime_reachable dm rt \<Longrightarrow>
    loop_round dm bridge_ops le single next_pointer next_reconcile rt = Some (r, rt') \<Longrightarrow> runtime_reachable dm rt'"

definition told :: "bridge runtime \<Rightarrow> bool" where
  "told rt \<longleftrightarrow> rt_ok bridge_ops rt \<and> (rt_ipc rt \<noteq> None \<longrightarrow>
    follow {} (rt_published rt) = Some (known_paths (rt_paths bridge_ops rt))
    \<and> numbered 0 (rt_published rt) = Some (rt_notification_sequence rt))"

lemma told_runs: "told rt \<Longrightarrow> runs bridge_ops rt rt' \<Longrightarrow> told rt'"
  by (auto simp: told_def runs_def tells_table_def follow_append numbered_append)

lemma server_new_ok: "server_ok IpcServer_new"
  by (simp add: IpcServer_new_def server_ok_def token_ok_def)

lemma told_created:
  assumes "runtime_new c = Inr rt" "rt' = rt\<lparr>rt_dry_run := dry, rt_verbose := verbose, rt_trace := trace\<rparr>"
  shows "told (if serve then enable_ipc rt' else rt')"
proof -
  have "known_paths (replicate n None) = {}" for n by (auto simp: known_paths_def)
  then show ?thesis
    using assms server_new_ok
    by (auto simp: told_def runtime_new_def enable_ipc_def rt_ok_def rt_paths_def paths_ok_def ipc_ok_def
        split: if_splits)
qed

lemma runtime_reachable_told: "runtime_reachable dm rt \<Longrightarrow> told rt"
proof (induction rule: runtime_reachable.induct)
  case (runtime_created c rt rt' dry verbose trace serve)
  then show ?case by (rule told_created)
next
  case (runtime_added rt k path)
  then show ?case using told_runs reactor.runs_add_path by blast
next
  case (runtime_started rt started req)
  then show ?case using told_runs [OF _ runs_emit] told_runs [OF _ runs_request_reconcile]
    by (simp add: run_monitor_start_def split: option.split)
next
  case (runtime_round rt le single next_pointer next_reconcile r rt')
  have "rt_ok bridge_ops rt" using runtime_round.IH by (simp add: told_def)
  from reactor.runs_loop_round [OF this, of dm le single next_pointer next_reconcile] runtime_round
  show ?case using told_runs by force
qed

lemma bridge_paths: "known_paths (rt_paths bridge_ops rt) = {br_syspath b |b. Some b \<in> set (rt_slots rt)}"
  by (simp add: known_paths_slots)

text \<open>
  C5. A client that has followed every notification the daemon published since its server was
  enabled knows exactly the devices of the table, never hears of an arrival it knows, of a removal or
  of input of a device it does not know, and the numbers are 1, 2, 3 and so on without a gap.
\<close>
theorem clients_track_devices:
  assumes "runtime_reachable dm rt" "rt_ipc rt \<noteq> None"
  shows "follow {} (rt_published rt) = Some {br_syspath b |b. Some b \<in> set (rt_slots rt)}
    \<and> numbered 0 (rt_published rt) = Some (rt_notification_sequence rt)"
  using runtime_reachable_told [OF assms(1)] assms(2) by (simp add: told_def bridge_paths)

text \<open>
  C17. Whatever happens, the daemon has 32 slots, no two of which hold devices of the same path, and its
  server keeps the invariant of its connections.
\<close>
theorem device_slots_distinct:
  assumes "runtime_reachable dm rt"
  shows "length (rt_slots rt) = MAX_DEVICES
    \<and> (\<forall>i b j b'. i < MAX_DEVICES \<and> j < MAX_DEVICES \<and> rt_slots rt ! i = Some b \<and> rt_slots rt ! j = Some b'
        \<and> path_eq (br_syspath b) (br_syspath b') \<longrightarrow> i = j)
    \<and> (\<forall>s. rt_ipc rt = Some s \<longrightarrow> server_ok s)"
proof -
  have ok: "paths_ok (rt_paths bridge_ops rt)" "ipc_ok rt"
    using runtime_reachable_told [OF assms] by (simp_all add: told_def rt_ok_def)
  then have len: "length (rt_slots rt) = MAX_DEVICES" by (simp add: paths_ok_def rt_paths_def)
  have "i = j" if "i < MAX_DEVICES" "j < MAX_DEVICES" "rt_slots rt ! i = Some b" "rt_slots rt ! j = Some b'"
    "path_eq (br_syspath b) (br_syspath b')" for i b j b'
    using ok(1) that len by (auto simp: paths_ok_def rt_paths_def)
  then show ?thesis using ok(2) len by (auto simp: ipc_ok_def)
qed

section \<open>The deadlines\<close>

lemma advance_by_ticks:
  assumes "0 < tick" "\<And>d. f d now = (if d \<le> now then f (d + tick) now else d)"
  shows "f d now = (if d \<le> now then d + tick * Suc ((now - d) div tick) else (d :: nat))"
proof (induction "Suc now - d" arbitrary: d rule: less_induct)
  case less
  show ?case
  proof (cases "d \<le> now")
    case True
    then have ih: "f (d + tick) now = (if d + tick \<le> now then d + tick + tick * Suc ((now - (d + tick)) div tick) else d + tick)"
      using less assms(1) by simp
    show ?thesis
    proof (cases "d + tick \<le> now")
      case le: True
      then have "(now - d) div tick = Suc ((now - (d + tick)) div tick)" using assms(1) le_div_geq [of tick "now - d"] by simp
      then show ?thesis using True le ih assms(2) [of d] by simp
    next
      case False
      then have "(now - d) div tick = 0" using True by simp
      then show ?thesis using True False ih assms(2) [of d] by simp
    qed
  next
    case False
    then show ?thesis using assms(2) [of d] by simp
  qed
qed

lemma advance_pointer_closed:
  "advance_pointer d now = (if d \<le> now then d + POINTER_TICK * Suc ((now - d) div POINTER_TICK) else d)"
  by (rule advance_by_ticks [where f = advance_pointer]) (simp add: POINTER_TICK_def, rule advance_pointer.simps)

lemma advance_reconcile_closed:
  "advance_reconcile d now = (if d \<le> now then d + RECONCILE_TICK * Suc ((now - d) div RECONCILE_TICK) else d)"
  by (rule advance_by_ticks [where f = advance_reconcile]) (simp add: RECONCILE_TICK_def, rule advance_reconcile.simps)

lemma tick_after: "0 < tick \<Longrightarrow> d \<le> now \<Longrightarrow> now < d + tick * Suc ((now - d) div (tick :: nat))"
proof -
  assume a: "0 < tick" "d \<le> now"
  have "now - d = tick * ((now - d) div tick) + (now - d) mod tick" by simp
  moreover have "(now - d) mod tick < tick" using a by simp
  ultimately have "now - d < tick * ((now - d) div tick) + tick" by linarith
  then show ?thesis using a by simp
qed

text \<open>
  A late pointer deadline moves on by whole ticks of 16 ms: after it, the deadline is later than the
  clock, at most one tick later, and still on the grid of the old one.
\<close>
theorem pointer_deadline_on_grid:
  assumes "advance_pointer d now = d'" "d \<le> now"
  shows "now < d' \<and> d' \<le> now + POINTER_TICK \<and> (d' - d) mod POINTER_TICK = 0"
proof -
  have d': "d' = d + POINTER_TICK * Suc ((now - d) div POINTER_TICK)"
    using assms by (simp add: advance_pointer_closed)
  have "POINTER_TICK * ((now - d) div POINTER_TICK) \<le> now - d" by simp
  then have "d + POINTER_TICK * ((now - d) div POINTER_TICK) \<le> now" using assms(2) by linarith
  then have "d' \<le> now + POINTER_TICK" by (simp add: d')
  moreover have "now < d'" unfolding d' by (rule tick_after [OF _ assms(2)]) (simp add: POINTER_TICK_def)
  moreover have "(d' - d) mod POINTER_TICK = 0" by (simp add: d')
  ultimately show ?thesis by blast
qed

lemma pointer_deadline_on_grid_witness:
  "(16000000::nat) < advance_pointer 0 16000000 \<and> advance_pointer 0 16000000 \<le> 16000000 + POINTER_TICK
    \<and> (advance_pointer 0 16000000 - 0) mod POINTER_TICK = 0"
  using pointer_deadline_on_grid [OF refl, of 0 16000000] by simp

section \<open>Rounds\<close>

text \<open>The last step of a round that goes on.\<close>

lemma loop_round_goes:
  assumes "loop_round dm ops le single next_pointer next_reconcile rt = Some (LoopGoes p q, rt')"
  obtains rt4 metrics where
    "rt' = (service_commands dm ops (le_commands le) (le_captures le) rt4)\<lparr>rt_metrics := metrics\<rparr>"
    "p = (if next_pointer \<le> le_now le then advance_pointer next_pointer (le_now le) else next_pointer)"
    "q = (if \<not> single \<and> next_reconcile \<le> le_now le then advance_reconcile next_reconcile (le_now le) else next_reconcile)"
  using assms
  by (auto simp: loop_round_def Let_def split: if_splits option.splits sum.splits bool.splits prod.splits)

text \<open>
  C14. A round of the reactor always returns: no loop in it runs forever, neither the search of the server
  for a free token nor the walks over devices, commands and discovery. When the loop goes on, the next
  pointer deadline is later than the clock, and so is the next reconciliation of the monitor.
\<close>
theorem reactor_round_returns:
  assumes "runtime_reachable dm rt"
  shows "\<exists>r rt'. loop_round dm bridge_ops le single next_pointer next_reconcile rt = Some (r, rt')
    \<and> (\<forall>p q. r = LoopGoes p q \<longrightarrow> le_now le < p \<and> (\<not> single \<longrightarrow> le_now le < q))"
proof -
  have "rt_ok bridge_ops rt" using runtime_reachable_told [OF assms] by (simp add: told_def)
  then obtain r rt' where r: "loop_round dm bridge_ops le single next_pointer next_reconcile rt = Some (r, rt')"
    using reactor.runs_loop_round by blast
  have "le_now le < p \<and> (\<not> single \<longrightarrow> le_now le < q)" if g: "r = LoopGoes p q" for p q
  proof -
    have pq: "p = (if next_pointer \<le> le_now le then advance_pointer next_pointer (le_now le) else next_pointer)"
      "q = (if \<not> single \<and> next_reconcile \<le> le_now le then advance_reconcile next_reconcile (le_now le) else next_reconcile)"
      using r unfolding g by (auto elim!: loop_round_goes)
    show ?thesis
      using tick_after [of POINTER_TICK next_pointer "le_now le"] tick_after [of RECONCILE_TICK next_reconcile "le_now le"]
      by (simp add: pq advance_pointer_closed advance_reconcile_closed POINTER_TICK_def RECONCILE_TICK_def)
  qed
  then show ?thesis using r by blast
qed

text \<open>The same life, with kernels that open a device's interface as its constructor does.\<close>

inductive runtime_scanned :: "daemon_env \<Rightarrow> bridge runtime \<Rightarrow> bool" for dm where
  scanned_created: "runtime_new c = Inr rt \<Longrightarrow> rt' = rt\<lparr>rt_dry_run := dry, rt_verbose := verbose, rt_trace := trace\<rparr> \<Longrightarrow>
    runtime_scanned dm (if serve then enable_ipc rt' else rt')"
| scanned_added: "runtime_scanned dm rt \<Longrightarrow> scanned_kernel k \<Longrightarrow>
    runtime_scanned dm (snd (add_path dm bridge_ops k path rt))"
| scanned_started: "runtime_scanned dm rt \<Longrightarrow> runtime_scanned dm (snd (run_monitor_start started req rt))"
| scanned_round: "runtime_scanned dm rt \<Longrightarrow> (\<And>i. scanned_kernel (le_opens le i)) \<Longrightarrow>
    loop_round dm bridge_ops le single next_pointer next_reconcile rt = Some (r, rt') \<Longrightarrow> runtime_scanned dm rt'"

lemma scanned_reachable: "runtime_scanned dm rt \<Longrightarrow> runtime_reachable dm rt"
  by (induction rule: runtime_scanned.induct)
    (rule runtime_created, assumption, assumption, blast intro: runtime_added, blast intro: runtime_started, blast intro: runtime_round)

lemma scanned_alive: "runtime_scanned dm rt \<Longrightarrow> all_slots bridge_alive rt"
proof (induction rule: runtime_scanned.induct)
  case (scanned_created c rt rt' dry verbose trace serve)
  then have "rt_slots (if serve then enable_ipc rt' else rt') = replicate MAX_DEVICES None"
    by (auto simp: runtime_new_def enable_ipc_def split: if_splits)
  then show ?case by (simp only: all_slots_def) simp
next
  case (scanned_added rt k path)
  then show ?case using table.kept_add_path by blast
next
  case (scanned_started rt started req)
  then show ?case by (simp add: run_monitor_start_def split: option.split)
next
  case (scanned_round rt le single next_pointer next_reconcile r rt')
  have "rt_ok bridge_ops rt" using runtime_reachable_told [OF scanned_reachable [OF scanned_round.hyps(1)]] by (simp add: told_def)
  then show ?case using table.kept_loop_round [OF scanned_round.hyps(3)] scanned_round by blast
qed

text \<open>
  C10. After a round that goes on, a device of the table captures exactly when some live connection holds
  a lease on its path. A device that captures wants all its interfaces, any other one those its profile
  and the aiming need: nothing it does not want is open, its opened mask is what is open, and its pending mask
  is every interface it wants that is not open. (Devices are opened as \<open>Interface::new\<close> does: an
  interface starts from a scan of its children.)
\<close>
theorem captures_follow_leases:
  assumes "runtime_scanned dm rt" "\<And>i. scanned_kernel (le_opens le i)"
    and "loop_round dm bridge_ops le single next_pointer next_reconcile rt = Some (LoopGoes p q, rt')"
    and "Some b \<in> set (rt_slots rt')"
    and "leased \<longleftrightarrow> (\<exists>s path. rt_ipc rt' = Some s \<and> path \<in> set (capture_paths s) \<and> path_eq path (br_syspath b))"
    and "wanted = (if leased then MASK_ALL else requested_interfaces (br_profile b) (br_config b))"
  shows "br_capture b = leased
    \<and> opened (br_iface b) AND NOT wanted = 0
    \<and> br_opened b = opened (br_iface b) \<and> br_pending b = wanted AND NOT (opened (br_iface b))"
proof -
  obtain rt4 metrics where
    "rt' = (service_commands dm bridge_ops (le_commands le) (le_captures le) rt4)\<lparr>rt_metrics := metrics\<rparr>"
    using assms(3) by (rule loop_round_goes)
  then have c: "br_capture b = leased"
    using reactor.captures_follow [OF refl, of b dm "le_commands le" "le_captures le" rt4] assms(4,5) by simp
  have "all_slots bridge_alive rt'" by (rule scanned_alive [OF scanned_round [OF assms(1-3)]])
  then have "bridge_alive b" by (rule all_slotsD [OF _ assms(4)])
  then have "bridge_ok b" unfolding bridge_alive_def by (rule reachable_bridge_ok)
  then have m: "masks_ok b" by (simp add: bridge_ok_def)
  have w: "bridge_requested b = wanted" using c assms(6) by (simp add: bridge_requested_def)
  have "opened (br_iface b) AND NOT wanted = 0"
    by (rule bit_eqI) (use m w in \<open>auto simp: masks_ok_def bit_and_iff bit_not_iff\<close>)
  then show ?thesis using c m w by (simp add: masks_ok_def)
qed

text \<open>
  Applying a snapshot of the attached devices keeps exactly the devices it names, and queues each
  other path it names once and no other, so that table and queue together are the snapshot.
\<close>
theorem snapshot_applied_exactly:
  assumes "apply_snapshot dm bridge_ops paths rt = rt'" "rt_pending_additions rt = []"
  shows "{br_syspath b |b. Some b \<in> set (rt_slots rt')}
      = {br_syspath b |b. Some b \<in> set (rt_slots rt) \<and> (\<exists>q \<in> set paths. path_eq q (br_syspath b))}
    \<and> distinct (map path_key (rt_pending_additions rt'))
    \<and> path_key ` set (rt_pending_additions rt')
      = path_key ` set paths - path_key ` {br_syspath b |b. Some b \<in> set (rt_slots rt')}"
  using snapshot_applied [OF assms(1)] assms(2) by (auto simp: bridge_paths table_keys_def)

text \<open>
  C9. Discovery comes to an end: two devices are opened per round, so after a snapshot of at most
  \<open>2 n + 2\<close> paths, \<open>n\<close> further rounds leave a table of exactly the devices of the snapshot and an empty queue,
  when every device can be opened and they fit into the slots.
\<close>
theorem discovery_converges:
  assumes "runtime_reachable dm rt" "rt_snapshot_pending rt" "rt_pending_additions rt = []"
    and "card (path_key ` set paths) \<le> MAX_DEVICES" "length paths \<le> 2 * Suc n"
    and "\<And>k i path. path \<in> set paths \<Longrightarrow> \<exists>b. bridge_open (ess k i) path (rt_config rt) (\<not> rt_dry_run rt) = Inr b"
    and "\<And>i path. path \<in> set paths \<Longrightarrow> \<exists>b. bridge_open (es i) path (rt_config rt) (\<not> rt_dry_run rt) = Inr b"
    and "discover dm bridge_ops ess reqs n (service_discovery dm bridge_ops (Some (Inr paths)) es req rt) = rt'"
  shows "path_key ` {br_syspath b |b. Some b \<in> set (rt_slots rt')} = path_key ` set paths
    \<and> rt_pending_additions rt' = []"
proof -
  have "rt_ok bridge_ops rt" using runtime_reachable_told [OF assms(1)] by (simp add: told_def)
  from reactor.discovery_reaches_snapshot [OF this assms(2-5) _ _ assms(8)] assms(6,7)
  show ?thesis by (simp add: table_keys_def bridge_paths)
qed

lemma drain_device_single: "fst (drain_device dm ops e slot False rt) = None"
  by (simp add: drain_device_def Let_def split: option.split sum.split bridge_action.split)

lemma drain_ready_single: "fst (drain_ready dm ops es False owners rt) = None"
proof (induction owners arbitrary: rt)
  case (Cons x owners)
  obtain owner ev where x: "x = (owner, ev)" by force
  show ?case
  proof (cases "\<exists>slot. owner = OwnDevice slot \<and> ev \<noteq> 0")
    case True
    then obtain slot where o: "owner = OwnDevice slot" "ev \<noteq> 0" by blast
    obtain q rt1 where d: "drain_device dm ops (es slot) slot False rt = (q, rt1)" by force
    then have "q = None" using drain_device_single [of dm ops "es slot" slot rt] by simp
    then show ?thesis using o d Cons.IH [of rt1] by (simp add: x)
  next
    case False
    then have "drain_ready dm ops es False (x # owners) rt = drain_ready dm ops es False owners rt"
      by (cases owner) (auto simp: x)
    then show ?thesis using Cons.IH by simp
  qed
qed simp

lemma tick_slots_single: "fst (tick_slots dm ops es False slots rt) = None"
proof (induction slots arbitrary: rt)
  case (Cons slot slots)
  show ?case
  proof (cases "rt_slots rt ! slot")
    case (Some d)
    obtain q d' where "so_tick_pointer ops (es slot) d = (q, d')" by force
    then show ?thesis using Cons.IH Some by (simp add: Let_def split: option.split)
  qed (use Cons.IH in simp)
qed simp

text \<open>The errors the server reports: of its listening socket, never of a connection.\<close>

definition listener_error :: "'e poll_env \<Rightarrow> string \<Rightarrow> bool" where
  "listener_error pv err \<longleftrightarrow> err = ''IPC listener became invalid'' \<or> AcceptFails err \<in> set (pv_accepts pv)"

lemma accept_loop_error: "accept_loop n rs s = Some (Some err, s') \<Longrightarrow> AcceptFails err \<in> set rs"
  by (induction n rs s rule: accept_loop.induct)
    (auto simp: Let_def split: accept_result.splits if_splits option.splits prod.splits)

lemma handle_ready_error:
  assumes "handle_ready env token ev (pv_accepts pv) reads writes s = Some (Some err, s', out)"
  shows "listener_error pv err"
proof (cases "token = LISTENER_TOKEN")
  case True
  then show ?thesis
    using assms accept_loop_error [of ACCEPT_BUDGET "pv_accepts pv" s err s']
    by (auto simp: handle_ready_def listener_error_def accept_ready_def split: if_splits)
next
  case False
  then show ?thesis using assms by (auto simp: handle_ready_def split: option.splits prod.splits)
qed

lemma serve_ready_error:
  "serve_ready dm ops pv ready rt = Some (Some code, rt') \<Longrightarrow> \<exists>err. code = pv_errno pv err \<and> listener_error pv err"
proof (induction ready arbitrary: rt)
  case (Cons x ready)
  obtain owner ev where x: "x = (owner, ev)" by force
  show ?case
  proof (cases "\<exists>token s. owner = OwnIpc token \<and> rt_ipc rt = Some s \<and> ev \<noteq> 0")
    case True
    then obtain token s where o: "owner = OwnIpc token" "rt_ipc rt = Some s" "ev \<noteq> 0" by blast
    show ?thesis
    proof (cases "handle_ready (server_env dm ops rt) token ev (pv_accepts pv) (pv_reads pv token) (pv_writes pv token) s")
      case None
      then show ?thesis using o Cons.prems by (simp add: x)
    next
      case (Some h)
      obtain e s' out where h: "h = (e, s', out)" by (metis prod_cases3)
      show ?thesis
      proof (cases e)
        case None
        then show ?thesis using Cons.IH [of "rt\<lparr>rt_ipc := Some s'\<rparr>"] Cons.prems o Some h by (simp add: x)
      next
        case (Some err)
        then have "code = pv_errno pv err" using Cons.prems o \<open>_ = Some h\<close> h by (simp add: x)
        moreover have "listener_error pv err" using handle_ready_error \<open>_ = Some h\<close> h Some by blast
        ultimately show ?thesis by blast
      qed
    qed
  next
    case False
    then have "serve_ready dm ops pv (x # ready) rt = serve_ready dm ops pv ready rt"
      by (auto simp: x split: poll_owner.split option.split)
    then show ?thesis using Cons by simp
  qed
qed simp

lemma poll_once_error:
  assumes "poll_once dm ops pv False rt = Some (Inl code, rt')"
  shows "pv_polled pv = Inl code \<or> (\<exists>err. code = pv_errno pv err \<and> listener_error pv err)"
proof -
  define owners where "owners = poll_owners (pv_monitor_fd pv) rt"
  define ready where "ready = zip owners (map (pv_revents pv) [0..<length owners])"
  obtain rt1 where d: "drain_ready dm ops (pv_drain pv) False ready rt = (None, rt1)"
    using drain_ready_single [of dm ops "pv_drain pv" ready rt] by (metis prod.collapse)
  define rt2 where "rt2 = (if list_ex (\<lambda>(owner, ev). owner = OwnMonitor \<and> ev \<noteq> 0) ready \<or> rt_monitor_pending rt1
    then drain_monitor_step pv rt1 else rt1)"
  define served where "served = (if has_ready_ipc owners (map (pv_revents pv) [0..<length owners])
    then serve_ready dm ops pv ready rt2 else Some (None, rt2))"
  have p: "poll_once dm ops pv False rt =
      (if pv_shutdown pv then Some (Inr True, rt)
       else case pv_polled pv of
         Inl code \<Rightarrow> if code = - 4 then Some (Inr False, rt)
           else Some (Inl code, emit_lifecycle (LcError ''poll'' None code) rt)
       | Inr count \<Rightarrow>
           (if pv_revents pv 0 \<noteq> 0 then Some (Inr True, rt)
            else if count = 0 \<and> \<not> rt_monitor_pending rt then Some (Inr False, rt)
            else case served of
                  None \<Rightarrow> None
                | Some (Some code, rt3) \<Rightarrow> Some (Inl code, rt3)
                | Some (None, rt3) \<Rightarrow>
                    Some (Inr False, service_commands dm ops (pv_commands pv) (pv_captures pv) rt3)))"
    unfolding poll_once_def Let_def owners_def [symmetric] ready_def [symmetric] d prod.case option.case served_def rt2_def
    by (rule refl)
  have "(\<exists>e. pv_polled pv = Inl e \<and> e = code) \<or> (\<exists>rt3. served = Some (Some code, rt3))"
    using assms unfolding p by (auto split: if_splits sum.splits option.splits prod.splits)
  then show ?thesis
    using serve_ready_error [of dm ops pv ready rt2 code] by (auto simp: served_def split: if_splits)
qed

text \<open>
  C20. A device that fails never stops the daemon: when a round over all devices fails, \<open>poll\<close> itself failed
  or the listening socket did, and never the draining, the ticking, the capture or the opening of a device.
\<close>
theorem device_errors_contained:
  assumes "loop_round dm bridge_ops le False next_pointer next_reconcile rt = Some (LoopFailed code, rt')"
  shows "pv_polled (le_poll le) = Inl code \<or> (\<exists>err. code = pv_errno (le_poll le) err \<and> listener_error (le_poll le) err)"
proof -
  have t: "fst (loop_tick dm bridge_ops le False next_pointer rt1) = None" for rt1
    by (simp add: loop_tick_def tick_slots_single)
  have "\<exists>rt1. poll_once dm bridge_ops (le_poll le) False rt = Some (Inl code, rt1)"
  proof (cases "poll_once dm bridge_ops (le_poll le) False rt")
    case None
    then show ?thesis using assms by (simp add: loop_round_def split: if_splits)
  next
    case (Some pr)
    obtain r rt1 where pr: "pr = (r, rt1)" by force
    obtain rt2 where "loop_tick dm bridge_ops le False next_pointer rt1 = (None, rt2)" using t by (metis prod.collapse)
    then show ?thesis using assms Some pr
      by (auto simp: loop_round_def Let_def split: if_splits sum.splits bool.splits)
  qed
  then show ?thesis using poll_once_error by blast
qed

section \<open>Waiting\<close>

text \<open>
  The timeout of \<open>poll\<close> neither oversleeps nor wakes early: while nothing is queued, waiting for it from
  the clock on reaches the next deadline up to the microsecond the clock is cut to, and not a millisecond
  past it.
\<close>
theorem poll_wakes_in_time:
  assumes "poll_timeout single next_pointer next_reconcile now rt = ms"
    and "rt_pending_additions rt = []" "\<not> rt_monitor_pending rt"
    and "deadline = (if single then next_pointer else min next_pointer next_reconcile)"
    and "now \<le> deadline" "deadline - now \<le> POINTER_TICK"
  shows "deadline < now + ms * 1000000 + 1000 \<and> now + ms * 1000000 < deadline + 1000000"
proof -
  define micros where "micros = (deadline - now) div 1000"
  have m: "micros * 1000 \<le> deadline - now" "deadline - now < micros * 1000 + 1000"
    unfolding micros_def by linarith+
  have small: "micros \<le> 16000" using m(1) assms(6) by (simp add: POINTER_TICK_def)
  then have "min ((micros + 999) div 1000) 2147483647 = (micros + 999) div 1000" by simp
  then have ms: "ms = (micros + 999) div 1000"
    using assms(1-4) by (simp add: poll_timeout_def Let_def micros_def)
  have "ms * 1000 \<le> micros + 999" "micros \<le> ms * 1000" unfolding ms by linarith+
  then show ?thesis using m assms(5) by linarith
qed

section \<open>Witnesses\<close>

definition sample_kernel :: bridge_kernel where
  "sample_kernel = \<lparr>bk_interface = (\<lambda>_. Inr sample_iface), bk_devtype = (\<lambda>_. None), bk_watch = None,
     bk_bridge = sample_bridge_env, bk_drains = (\<lambda>_. undefined), bk_writes = []\<rparr>"

definition sample_poll :: "int \<Rightarrow> bridge_kernel poll_env" where
  "sample_poll code = \<lparr>pv_polled = Inl code, pv_revents = (\<lambda>_. 0), pv_monitor_fd = True, pv_shutdown = False,
     pv_drain = (\<lambda>_. sample_kernel), pv_monitor = Inr False, pv_request = None, pv_accepts = [],
     pv_reads = (\<lambda>_. []), pv_writes = (\<lambda>_. []), pv_errno = (\<lambda>_. - 9),
     pv_commands = (\<lambda>_. sample_kernel), pv_captures = (\<lambda>_. sample_kernel)\<rparr>"

definition sample_loop :: "int \<Rightarrow> bridge_kernel loop_env" where
  "sample_loop code = \<lparr>le_shutdown = False, le_dispatch = 0, le_now = 5, le_end = 7, le_poll = sample_poll code,
     le_ticks = (\<lambda>_. sample_kernel), le_reconcile = None, le_taken = None, le_opens = (\<lambda>_. sample_kernel),
     le_again = None, le_commands = (\<lambda>_. sample_kernel), le_captures = (\<lambda>_. sample_kernel)\<rparr>"

definition sample_runtime :: "bridge runtime" where
  "sample_runtime = projr (runtime_new Config_default)"

lemma sample_valid: "Config_validate Config_default = None"
  by (simp add: Config_validate_None Config_default_ok)

lemma sample_runtime_new: "runtime_new Config_default = Inr sample_runtime"
  by (simp add: sample_runtime_def runtime_new_def sample_valid)

lemma sample_runtime_fields:
  "rt_slots sample_runtime = replicate MAX_DEVICES None" "rt_pending_additions sample_runtime = []"
  "rt_config sample_runtime = Config_default" "rt_dry_run sample_runtime = False" "rt_ipc sample_runtime = None"
  "rt_snapshot_pending sample_runtime = False" "rt_monitor_pending sample_runtime = False"
  "rt_published sample_runtime = []" "rt_notification_sequence sample_runtime = 0"
  by (simp_all add: sample_runtime_def runtime_new_def sample_valid)

lemma sample_runtime_reachable:
  "runtime_reachable dm (if serve then enable_ipc sample_runtime else sample_runtime)"
proof -
  have "sample_runtime\<lparr>rt_dry_run := False, rt_verbose := False, rt_trace := TraceConfig_default\<rparr> = sample_runtime"
    by (simp add: sample_runtime_def runtime_new_def sample_valid)
  from runtime_created [OF sample_runtime_new this [symmetric]] show ?thesis .
qed

lemma sample_runtime_scanned:
  "runtime_scanned dm (if serve then enable_ipc sample_runtime else sample_runtime)"
proof -
  have "sample_runtime\<lparr>rt_dry_run := False, rt_verbose := False, rt_trace := TraceConfig_default\<rparr> = sample_runtime"
    by (simp add: sample_runtime_def runtime_new_def sample_valid)
  from scanned_created [OF sample_runtime_new this [symmetric]] show ?thesis .
qed

lemma sample_kernel_scanned: "scanned_kernel sample_kernel"
proof -
  have "fst (hid_refresh (Inr ([Some ''event0'', None, Some ''event2''] @ replicate 7 None, 5)) Interface_start) = None"
    by (simp add: hid_refresh_def)
  then have "\<exists>scan. hid_refresh scan Interface_start = (None, sample_iface)"
    unfolding sample_iface_def by (metis prod.collapse)
  then show ?thesis by (simp add: scanned_kernel_def sample_kernel_def)
qed

lemma sample_opens: "\<exists>b. bridge_open sample_kernel path Config_default True = Inr b"
  using sample_bridge_new [of path] by (auto simp: bridge_open_def sample_kernel_def)

text \<open>A device added to an empty table.\<close>

lemma sample_added:
  assumes "rt = (if serve then enable_ipc sample_runtime else sample_runtime)"
  shows "\<exists>rt' b. runtime_reachable dm rt' \<and> runtime_scanned dm rt' \<and> rt_slots rt' = (replicate MAX_DEVICES None)[0 := Some b]
    \<and> (rt_ipc rt' = None \<longleftrightarrow> \<not> serve) \<and> rt_pending_additions rt' = []"
proof -
  obtain b where b: "bridge_open sample_kernel ''/sys/wii'' Config_default True = Inr b" using sample_opens by blast
  define rt' where "rt' = snd (add_path dm bridge_ops sample_kernel ''/sys/wii'' rt)"
  have f: "rt_slots rt = replicate MAX_DEVICES None" "rt_config rt = Config_default" "\<not> rt_dry_run rt"
    "rt_pending_additions rt = []" "rt_ipc rt = None \<longleftrightarrow> \<not> serve"
    using assms sample_runtime_fields by (simp_all add: enable_ipc_def)
  have "rt_find bridge_ops ''/sys/wii'' rt = None" by (simp add: rt_find_None table_keys_def known_paths_slots f)
  moreover have "position (\<lambda>s. s = None) (rt_slots rt) = Some 0" by (simp add: f MAX_DEVICES_def numeral_eq_Suc)
  ultimately obtain d where d: "rt' = emit_lifecycle (LcAdd ''/sys/wii'') (publish_added dm bridge_ops (bridge_info d)
      (rt\<lparr>rt_slots := (rt_slots rt)[0 := Some d]\<rparr>))"
    using b f by (simp add: rt'_def add_path_def Let_def)
  have "runtime_scanned dm rt'" unfolding rt'_def assms by (rule scanned_added [OF sample_runtime_scanned sample_kernel_scanned])
  moreover from scanned_reachable [OF this] have "runtime_reachable dm rt'" .
  moreover have "rt_slots rt' = (replicate MAX_DEVICES None)[0 := Some d]" "rt_pending_additions rt' = []"
    by (simp_all add: d publish_added_def Let_def f)
  moreover have "rt_ipc rt' = None \<longleftrightarrow> \<not> serve"
    using f(5) by (cases "rt_ipc rt") (simp_all add: d publish_added_def rt_publish_def Let_def)
  ultimately show ?thesis by (intro exI conjI)
qed

lemma some_slot: "Some b \<in> set ((replicate MAX_DEVICES None)[0 := Some b])"
  by (simp add: MAX_DEVICES_def set_update_memI)

lemma clients_track_devices_witness:
  "\<exists>dm rt b. runtime_reachable dm rt \<and> rt_ipc rt \<noteq> None \<and> Some b \<in> set (rt_slots rt)
    \<and> follow {} (rt_published rt) = Some {br_syspath b |b. Some b \<in> set (rt_slots rt)}"
proof -
  obtain rt b where r: "runtime_reachable undefined rt" "rt_slots rt = (replicate MAX_DEVICES None)[0 := Some b]" "rt_ipc rt \<noteq> None"
    using sample_added [OF refl, where serve = True and dm = undefined] by auto
  have m: "Some b \<in> set (rt_slots rt)" unfolding r(2) by (rule some_slot)
  show ?thesis
    by (intro exI conjI) (rule r(1), rule r(3), rule m, rule clients_track_devices [OF r(1,3), THEN conjunct1])
qed

lemma device_slots_distinct_witness:
  "\<exists>dm rt b. runtime_reachable dm rt \<and> Some b \<in> set (rt_slots rt) \<and> length (rt_slots rt) = MAX_DEVICES"
proof -
  obtain rt b where "runtime_reachable undefined rt" "rt_slots rt = (replicate MAX_DEVICES None)[0 := Some b]"
    using sample_added [OF refl, where serve = True and dm = undefined] by auto
  then show ?thesis using device_slots_distinct [of undefined rt] some_slot by metis
qed

lemma reactor_round_returns_witness:
  "\<exists>dm r rt'. loop_round dm bridge_ops (sample_loop (- 4)) False 3 9 sample_runtime = Some (r, rt')"
  using reactor_round_returns [where dm = undefined and rt = sample_runtime and le = "sample_loop (- 4)" and single = False and next_pointer = 3 and next_reconcile = 9]
    sample_runtime_reachable [of undefined False] by auto

lemma snapshot_applied_exactly_witness:
  "\<exists>dm. path_key ` set (rt_pending_additions (apply_snapshot dm bridge_ops [''/sys/a'', ''/sys/a/''] sample_runtime))
    = path_key ` {''/sys/a'', ''/sys/a/''} - path_key ` {br_syspath b |b.
        Some b \<in> set (rt_slots (apply_snapshot dm bridge_ops [''/sys/a'', ''/sys/a/''] sample_runtime))}"
  using snapshot_applied_exactly [OF refl sample_runtime_fields(2), of _ "[''/sys/a'', ''/sys/a/'']"] by simp

lemma device_errors_contained_witness:
  "\<exists>dm rt'. loop_round dm bridge_ops (sample_loop (- 5)) False 3 9 sample_runtime = Some (LoopFailed (- 5), rt')
    \<and> pv_polled (le_poll (sample_loop (- 5))) = Inl (- 5)"
proof -
  let ?r = "emit_lifecycle (LcError ''poll'' None (- 5)) sample_runtime"
  have "loop_round undefined bridge_ops (sample_loop (- 5)) False 3 9 sample_runtime = Some (LoopFailed (- 5), ?r)"
    by (simp add: loop_round_def sample_loop_def poll_once_def sample_poll_def Let_def)
  moreover from device_errors_contained [OF this]
  have "pv_polled (le_poll (sample_loop (- 5))) = Inl (- 5)" by (auto simp: sample_loop_def sample_poll_def listener_error_def)
  ultimately show ?thesis by blast
qed

lemma poll_wakes_in_time_witness:
  "(16000000::nat) < 7 + poll_timeout True 16000000 0 7 sample_runtime * 1000000 + 1000
    \<and> 7 + poll_timeout True 16000000 0 7 sample_runtime * 1000000 < (16000000::nat) + 1000000"
  using poll_wakes_in_time [OF refl sample_runtime_fields(2), where single = True and next_pointer = 16000000
      and next_reconcile = 0 and now = 7 and deadline = 16000000] sample_runtime_fields
  by (simp add: POINTER_TICK_def)

lemma captures_follow_leases_witness:
  "\<exists>dm p q rt rt' b. loop_round dm bridge_ops (sample_loop (- 4)) True 16000000 0 rt = Some (LoopGoes p q, rt')
    \<and> Some b \<in> set (rt_slots rt') \<and> \<not> br_capture b
    \<and> br_pending b = requested_interfaces (br_profile b) (br_config b) AND NOT (opened (br_iface b))"
proof -
  obtain rt b where rt: "runtime_scanned undefined rt" "rt_slots rt = (replicate MAX_DEVICES None)[0 := Some b]" "rt_ipc rt = None"
    using sample_added [OF refl, where serve = False and dm = undefined] by auto
  let ?rt' = "service_commands undefined bridge_ops (\<lambda>_. sample_kernel) (\<lambda>_. sample_kernel) rt"
  have sc: "?rt' = foldl (apply_capture bridge_ops (\<lambda>_. sample_kernel) []) rt [0..<length (rt_slots rt)]"
    using rt(3) by (cases rt) (simp add: service_commands_def Let_def)
  have paths: "rt_paths bridge_ops ?rt' = rt_paths bridge_ops rt" unfolding sc by (rule reactor.captures_paths)
  have round: "loop_round undefined bridge_ops (sample_loop (- 4)) True 16000000 0 rt =
      (if list_all (\<lambda>s. s = None) (rt_slots ?rt') then Some (LoopStopped, ?rt'\<lparr>rt_metrics := m\<rparr>)
       else Some (LoopGoes 16000000 0, ?rt'\<lparr>rt_metrics := m\<rparr>))"
    if "m = (rt_metrics ?rt')\<lparr>dg_max_dispatch_duration_us := max (dg_max_dispatch_duration_us (rt_metrics ?rt')) (as_u64_micros 7)\<rparr>" for m
    using that by (simp add: loop_round_def sample_loop_def poll_once_def sample_poll_def loop_tick_def Let_def)
  have "Some (br_syspath b) \<in> set (rt_paths bridge_ops ?rt')"
  proof -
    have "map_option br_syspath (Some b) \<in> map_option br_syspath ` set (rt_slots rt)"
      unfolding rt(2) by (rule imageI [OF some_slot])
    then show ?thesis unfolding paths by (simp add: rt_paths_def)
  qed
  then obtain v where v: "Some (br_syspath b) = map_option br_syspath v" "v \<in> set (rt_slots ?rt')"
    by (auto simp: rt_paths_def)
  then obtain b' where b': "Some b' \<in> set (rt_slots ?rt')" by (cases v) auto
  then have "\<not> list_all (\<lambda>s. s = None) (rt_slots ?rt')" by (auto simp: list_all_iff)
  then obtain m where l: "loop_round undefined bridge_ops (sample_loop (- 4)) True 16000000 0 rt
      = Some (LoopGoes 16000000 0, ?rt'\<lparr>rt_metrics := m\<rparr>)" using round by simp
  have "rt_ipc ?rt' = None" unfolding sc using reactor.captures_applied [OF order_refl refl] rt(3) by simp
  moreover have "\<And>i. scanned_kernel (le_opens (sample_loop (- 4)) i)" by (simp add: sample_loop_def sample_kernel_scanned)
  ultimately have "\<not> br_capture b' \<and> br_pending b' = requested_interfaces (br_profile b') (br_config b') AND NOT (opened (br_iface b'))"
    using captures_follow_leases [OF rt(1) _ l, of b' False] b' by simp
  then show ?thesis using l b' by force
qed

lemma discovery_converges_witness:
  "\<exists>dm. path_key ` {br_syspath b |b. Some b \<in> set (rt_slots (discover dm bridge_ops
      (\<lambda>_ _. sample_kernel) (\<lambda>_. None) 1 (service_discovery dm bridge_ops
        (Some (Inr [''/sys/a'', ''/sys/b'', ''/sys/c''])) (\<lambda>_. sample_kernel) None
        (snd (run_monitor_start None None sample_runtime)))))} = path_key ` set [''/sys/a'', ''/sys/b'', ''/sys/c'']"
proof -
  let ?rt = "snd (run_monitor_start None None sample_runtime)"
  let ?paths = "[''/sys/a'', ''/sys/b'', ''/sys/c'']"
  have rt: "?rt = sample_runtime\<lparr>rt_snapshot_pending := True\<rparr>"
    by (simp add: run_monitor_start_def request_reconcile_def sample_runtime_fields)
  have reach: "runtime_reachable undefined ?rt"
    by (rule runtime_started) (use sample_runtime_reachable [of undefined False] in simp)
  have pend: "rt_snapshot_pending ?rt" "rt_pending_additions ?rt = []" by (simp_all add: rt sample_runtime_fields)
  have "card (path_key ` set ?paths) \<le> card (set ?paths)" by (rule card_image_le) simp
  also have "\<dots> \<le> length ?paths" by (rule card_length)
  finally have "card (path_key ` set ?paths) \<le> length ?paths" .
  then have card: "card (path_key ` set ?paths) \<le> MAX_DEVICES" unfolding MAX_DEVICES_def by (rule le_trans) simp
  have opens: "\<exists>b. bridge_open sample_kernel path (rt_config ?rt) (\<not> rt_dry_run ?rt) = Inr b" for path
    using sample_opens by (simp add: rt sample_runtime_fields)
  have len: "length ?paths \<le> 2 * Suc 1" by simp
  show ?thesis
    by (intro exI) (rule discovery_converges [OF reach pend card len opens opens refl, THEN conjunct1])
qed

end
