(* ===== verification/Platform.thy ===== *)
theory Platform
  imports Runtime Udev
begin

text \<open>
  The system's side of the reactor: \<open>crates/wiilandd/src/platform.rs\<close>. Enumerating the controllers runs in
  a worker thread that is asked, and answers, over channels of capacity one; everything else stays on
  the reactor's thread. Steps of the worker are explicit, so that they interleave with the reactor's.
\<close>

section \<open>Snapshots\<close>

definition MAX_SNAPSHOT_DEVICES :: nat where "MAX_SNAPSHOT_DEVICES = MAX_DEVICES * 4"
definition EOVERFLOW :: int where "EOVERFLOW = 75"

text \<open>The answers of the monitor until it has nothing more: an error number, or a path.\<close>

fun collect_snapshot :: "(int + string) list \<Rightarrow> string list \<Rightarrow> int + string list" where
  "collect_snapshot [] paths = Inr paths"
| "collect_snapshot (Inl e # asked) paths = Inl e"
| "collect_snapshot (Inr path # asked) paths =
    (if length paths = MAX_SNAPSHOT_DEVICES then Inl EOVERFLOW else collect_snapshot asked (paths @ [path]))"

text \<open>What \<open>poll\<close> of the monitor answers, call by call, until it has nothing more.\<close>

lemma path_bounded:
  "poll_bounded n rx m = (Inr (MpPath path), rx', m') \<Longrightarrow> work_left rx' m' < work_left rx m"
proof (induction n arbitrary: rx m)
  case (Suc n)
  obtain r rx1 m1 where s: "poll_step rx m = (r, rx1, m1)" by (metis prod_cases3)
  show ?case
  proof (cases "r = Inr MpPending")
    case True
    then have "poll_bounded n rx1 m1 = (Inr (MpPath path), rx', m')" using Suc.prems s by simp
    from Suc.IH [OF this] pending_step [OF s [unfolded True]] show ?thesis by simp
  next
    case False
    then have "(r, rx1, m1) = (Inr (MpPath path), rx', m')"
      using Suc.prems s by (auto split: sum.splits monitor_poll.splits)
    then show ?thesis using path_step_work s by simp
  qed
qed simp

lemma next_work: "monitor_next rx m = (Inr (Some path), rx', m') \<Longrightarrow> work_left rx' m' < work_left rx m"
proof (induction rx m rule: monitor_next.induct)
  case (1 rx m)
  obtain r rx1 m1 where p: "poll_bounded 64 rx m = (r, rx1, m1)" by (metis prod_cases3)
  show ?case
  proof (cases "r = Inr MpPending")
    case True
    then have "monitor_next rx1 m1 = (Inr (Some path), rx', m')" using 1(2) p by (simp add: monitor_next.simps [of rx m])
    then have "work_left rx' m' < work_left rx1 m1" using 1(1) p True by simp
    then show ?thesis using pending_bounded [of 64 rx m rx1 m1] p True by simp
  next
    case False
    then have "r = Inr (MpPath path) \<and> rx1 = rx' \<and> m1 = m'"
      using 1(2) p by (auto simp: monitor_next.simps [of rx m] split: sum.splits monitor_poll.splits)
    then show ?thesis using path_bounded p by simp
  qed
qed

function monitor_answers :: "received \<Rightarrow> monitor \<Rightarrow> (int + string) list" where
  "monitor_answers rx m =
    (case monitor_next rx m of
       (Inl e, rx', m') \<Rightarrow> [Inl e]
     | (Inr None, rx', m') \<Rightarrow> []
     | (Inr (Some path), rx', m') \<Rightarrow> Inr path # monitor_answers rx' m')"
  by pat_completeness auto
termination
  by (relation "measure (\<lambda>(rx, m). work_left rx m)") (auto dest!: next_work [OF sym])

declare monitor_answers.simps [simp del]

text \<open>The worker's job: enumerate once, from nothing.\<close>

definition discovery_job :: "bool \<Rightarrow> enum_entry list \<Rightarrow> int + string list" where
  "discovery_job ready entries =
    (case monitor_new False ready entries of
       Inl e \<Rightarrow> Inl e | Inr m \<Rightarrow> collect_snapshot (monitor_answers [] m) [])"

section \<open>The worker and its channels\<close>

record discovery_worker =
  dw_requests :: nat
  dw_working :: bool
  dw_results :: "(int + string list) list"
  dw_stopped :: bool

definition worker_new :: discovery_worker where
  "worker_new = \<lparr>dw_requests = 0, dw_working = False, dw_results = [], dw_stopped = False\<rparr>"

definition EIO_code :: int where "EIO_code = - 5"

text \<open>The error number as the runtime reports it; a full channel already holds a request.\<close>

definition request_snapshot :: "discovery_worker \<Rightarrow> int option \<times> discovery_worker" where
  "request_snapshot w =
    (if dw_stopped w then (Some EIO_code, w)
     else if dw_requests w = 1 then (None, w) else (None, w\<lparr>dw_requests := dw_requests w + 1\<rparr>))"

definition take_snapshot :: "discovery_worker \<Rightarrow> (int + string list) option \<times> discovery_worker" where
  "take_snapshot w =
    (case dw_results w of
       r # rs \<Rightarrow> (Some (case r of Inl e \<Rightarrow> Inl (- e) | Inr paths \<Rightarrow> Inr paths), w\<lparr>dw_results := rs\<rparr>)
     | [] \<Rightarrow> (if dw_stopped w then Some (Inl EIO_code) else None, w))"

text \<open>The worker takes a request; it hands over its result when the channel has room.\<close>

definition worker_begin :: "discovery_worker \<Rightarrow> discovery_worker option" where
  "worker_begin w =
    (if dw_stopped w \<or> dw_working w \<or> dw_requests w = 0 then None
     else Some (w\<lparr>dw_requests := dw_requests w - 1, dw_working := True\<rparr>))"

definition worker_finish :: "int + string list \<Rightarrow> discovery_worker \<Rightarrow> discovery_worker option" where
  "worker_finish r w =
    (if dw_stopped w \<or> \<not> dw_working w \<or> dw_results w \<noteq> [] then None
     else Some (w\<lparr>dw_results := [r], dw_working := False\<rparr>))"

section \<open>Events of the monitor\<close>

fun drain_monitor_loop :: "nat \<Rightarrow> received \<Rightarrow> monitor \<Rightarrow> (int + bool) \<times> received \<times> monitor" where
  "drain_monitor_loop 0 rx m = (Inr True, rx, m)"
| "drain_monitor_loop (Suc n) rx m =
    (case poll_bounded 1 rx m of
       (Inl e, rx', m') \<Rightarrow> (Inl e, rx', m')
     | (Inr MpEmpty, rx', m') \<Rightarrow> (Inr False, rx', m')
     | (Inr _, rx', m') \<Rightarrow> drain_monitor_loop n rx' m')"

definition drain_monitor ::
  "nat \<Rightarrow> received \<Rightarrow> monitor option \<Rightarrow> (int + bool) \<times> received \<times> monitor option" where
  "drain_monitor budget rx mon =
    (case mon of
       None \<Rightarrow> (Inr False, rx, None)
     | Some m \<Rightarrow> (case drain_monitor_loop budget rx m of (r, rx', m') \<Rightarrow> (r, rx', Some m')))"

end
