(* ===== verification/Platform_Facts.thy ===== *)
theory Platform_Facts
  imports Platform Udev_Facts Runtime_Facts
begin

text \<open>
  What the system's side of the reactor (\<open>crates/wiilandd/src/platform.rs\<close>) promises: a snapshot is complete
  or an error, the worker thread and the reactor never lose a request nor block each other, and the
  events of the monitor are read in bounded bites.
\<close>

section \<open>Snapshots\<close>

lemma answers_paths:
  "monitor_answers rx m = (case monitor_paths rx m of (e, ps) \<Rightarrow> map Inr ps @ (case e of None \<Rightarrow> [] | Some x \<Rightarrow> [Inl x]))"
proof (induction rx m rule: monitor_answers.induct)
  case (1 rx m)
  obtain r rx1 m1 where n: "monitor_next rx m = (r, rx1, m1)" by (metis prod_cases3)
  show ?case
    using 1 n paths_next [of rx m]
    by (simp add: monitor_answers.simps [of rx m] split: sum.split option.split prod.split)
qed

lemma collect_paths:
  "length ps + length found \<le> MAX_SNAPSHOT_DEVICES \<Longrightarrow> collect_snapshot (map Inr found) ps = Inr (ps @ found)"
  by (induction found arbitrary: ps) simp_all

lemma collect_too_many:
  "length ps \<le> MAX_SNAPSHOT_DEVICES \<Longrightarrow> MAX_SNAPSHOT_DEVICES < length ps + length found \<Longrightarrow>
    collect_snapshot (map Inr found) ps = Inl EOVERFLOW"
  by (induction found arbitrary: ps) auto

lemma collect_error:
  "length ps + length found \<le> MAX_SNAPSHOT_DEVICES \<Longrightarrow>
    collect_snapshot (map Inr found @ Inl e # rest) ps = Inl e"
  by (induction found arbitrary: ps) simp_all

lemma collect_overflow:
  "length ps \<le> MAX_SNAPSHOT_DEVICES \<Longrightarrow> MAX_SNAPSHOT_DEVICES < length ps + length found \<Longrightarrow>
    collect_snapshot (map Inr found @ rest) ps = Inl EOVERFLOW"
  by (induction found arbitrary: ps) auto

text \<open>The list of an enumeration that fails at an entry: the paths before it, and the error.\<close>

lemma enumeration_fails:
  assumes "\<not> mo_enumerated m" "mo_entries m = pre @ (Some path, Inl errno) # post" "list_made pre"
    and "classify_enum_device_errno errno = Some e"
  shows "monitor_paths rx m = (Some e, listed_paths pre)"
  using assms(1-3)
proof (induction pre arbitrary: m)
  case Nil
  then have "poll_step rx m = (Inl e, rx, m\<lparr>mo_entries := post\<rparr>)"
    by (simp add: poll_step_def next_enum_def Let_def assms(4))
  then show ?case by (simp add: monitor_paths.simps [of rx m] listed_paths_def List.map_filter_simps)
next
  case (Cons x pre)
  obtain name made where x: "x = (name, made)" by force
  let ?m1 = "m\<lparr>mo_entries := pre @ (Some path, Inl errno) # post\<rparr>"
  have made: "classify_enum_device_errno k = None" if "name = Some q" "made = Inl k" for q k
    using Cons.prems(3) that by (auto simp: list_made_def x)
  have ih: "monitor_paths rx ?m1 = (Some e, listed_paths pre)"
    using Cons.IH [of ?m1] Cons.prems by (simp add: list_made_def)
  define found where "found = (case (name, made) of (Some _, Inr dev) \<Rightarrow> valid_device dev | _ \<Rightarrow> None)"
  have "poll_step rx m = (Inr (case found of Some p \<Rightarrow> MpPath p | None \<Rightarrow> MpPending), rx, ?m1)"
    using Cons.prems(1,2) made
    by (cases name; cases made) (auto simp: poll_step_def next_enum_def x found_def Let_def split: option.split)
  moreover have "listed_paths (x # pre) = (case found of None \<Rightarrow> [] | Some p \<Rightarrow> [p]) @ listed_paths pre"
    by (simp add: x listed_paths_def List.map_filter_simps found_def split: option.split sum.split)
  ultimately show ?case using ih by (simp add: monitor_paths.simps [of rx m] split: option.split)
qed

lemma list_made_split:
  assumes "\<not> list_made entries"
  obtains pre path errno e post where "entries = pre @ (Some path, Inl errno) # post" "list_made pre"
    "classify_enum_device_errno errno = Some e"
proof -
  let ?bad = "\<lambda>x. \<exists>path errno e. x = (Some path, Inl errno) \<and> classify_enum_device_errno errno = Some e"
  have made: "list_made xs \<longleftrightarrow> (\<forall>x \<in> set xs. \<not> ?bad x)" for xs by (fastforce simp: list_made_def)
  then have "\<exists>x \<in> set entries. ?bad x" using assms by blast
  then obtain pre x post where "entries = pre @ x # post" "?bad x" "\<forall>y \<in> set pre. \<not> ?bad y"
    using split_list_first_prop [of entries ?bad] by blast
  then show thesis using that made by blast
qed

text \<open>
  C31. A snapshot is all or nothing. The job gives a list of paths if, and only if, the udev objects could be
  made, no entry of the enumeration failed for another reason than that its device has gone, and there are at most
  128 controllers; the list is then every controller the enumeration lists, in its order. In every other case
  the job is an error, never a shorter list, so a device missing from a snapshot has really gone.
\<close>
theorem snapshot_complete:
  "discovery_job ready entries = Inr paths \<longleftrightarrow>
    ready \<and> list_made entries \<and> length (listed_paths entries) \<le> MAX_SNAPSHOT_DEVICES \<and> paths = listed_paths entries"
proof -
  define m where "m = \<lparr>mo_entries = entries, mo_initial = [], mo_watch = False, mo_enumerated = False\<rparr>"
  have job: "discovery_job ready entries = (if ready then collect_snapshot (monitor_answers [] m) [] else Inl ENOMEM)"
    by (simp add: discovery_job_def monitor_new_def m_def)
  show ?thesis
  proof (cases "list_made entries")
    case True
    let ?m' = "m\<lparr>mo_entries := [], mo_enumerated := True, mo_initial := (if mo_watch m then mo_initial m else [])\<rparr>"
    have "monitor_paths [] ?m' = (None, [])" by (simp add: monitor_paths.simps poll_step_def m_def)
    then have "monitor_paths [] m = (None, listed_paths entries)"
      using enumeration_listed [of m ?m' "[]"] True by (simp add: m_def)
    then have "monitor_answers [] m = map Inr (listed_paths entries)" by (simp add: answers_paths)
    then show ?thesis using True job
      collect_paths [of "[]" "listed_paths entries"] collect_too_many [of "[]" "listed_paths entries"]
      by (cases "length (listed_paths entries) \<le> MAX_SNAPSHOT_DEVICES") auto
  next
    case False
    from list_made_split [OF this] obtain pre path errno e post where
      f: "entries = pre @ (Some path, Inl errno) # post" "list_made pre" "classify_enum_device_errno errno = Some e" .
    have "monitor_paths [] m = (Some e, listed_paths pre)" by (rule enumeration_fails) (use f in \<open>simp_all add: m_def\<close>)
    then have "monitor_answers [] m = map Inr (listed_paths pre) @ [Inl e]" by (simp add: answers_paths)
    then have "\<exists>x. collect_snapshot (monitor_answers [] m) [] = Inl x"
      using collect_error [of "[]" "listed_paths pre" e "[]"] collect_overflow [of "[]" "listed_paths pre" "[Inl e]"]
      by (cases "length (listed_paths pre) \<le> MAX_SNAPSHOT_DEVICES") auto
    then show ?thesis using job False by auto
  qed
qed

lemma snapshot_complete_witness:
  "discovery_job True [(Some ''/sys/a'', Inr \<lparr>ud_syspath = Some ''/sys/a'', ud_subsystem = Some ''hid'',
      ud_driver = Some ''wiimote'', ud_sysname = None, ud_devnode = None, ud_action = None, ud_name = None\<rparr>),
      (Some ''/sys/b'', Inl 2)] = Inr [''/sys/a'']
    \<and> discovery_job True [(Some ''/sys/b'', Inl 13)] \<noteq> Inr []"
proof -
  let ?d = "\<lparr>ud_syspath = Some ''/sys/a'', ud_subsystem = Some ''hid'',
      ud_driver = Some ''wiimote'', ud_sysname = None, ud_devnode = None, ud_action = None, ud_name = None\<rparr>"
  let ?entries = "[(Some ''/sys/a'', Inr ?d), (Some ''/sys/b'', Inl 2)] :: enum_entry list"
  have "list_made ?entries" by (simp add: list_made_def classify_enum_device_errno_def ENOENT_def)
  moreover have "lossy ''/sys/a'' = ''/sys/a''" by (rule lossy_valid) (simp add: valid_utf8_def utf8_width_def)
  then have "listed_paths ?entries = [''/sys/a'']"
    by (simp add: listed_paths_def List.map_filter_simps valid_device_def)
  moreover have "\<not> list_made [(Some ''/sys/b'', Inl 13)]"
    by (simp add: list_made_def classify_enum_device_errno_def ENOENT_def ENODEV_def)
  ultimately show ?thesis
    by (simp add: snapshot_complete MAX_SNAPSHOT_DEVICES_def MAX_DEVICES_def)
qed

section \<open>The worker\<close>

definition asks_snapshot :: "'d runtime \<Rightarrow> bool" where
  "asks_snapshot rt \<longleftrightarrow> \<not> rt_snapshot_pending rt \<and> rt_pending_additions rt = []"

text \<open>\<open>request_reconcile\<close> and \<open>service_discovery\<close> with the worker behind them.\<close>

definition reconcile_with :: "'d runtime \<Rightarrow> discovery_worker \<Rightarrow> 'd runtime \<times> discovery_worker" where
  "reconcile_with rt w =
    (if asks_snapshot rt then (case request_snapshot w of (req, w') \<Rightarrow> (request_reconcile req rt, w'))
     else (request_reconcile None rt, w))"

definition discover_with ::
  "daemon_env \<Rightarrow> ('d, 'e) session_ops \<Rightarrow> (nat \<Rightarrow> 'e) \<Rightarrow> 'd runtime \<Rightarrow> discovery_worker \<Rightarrow> 'd runtime \<times> discovery_worker" where
  "discover_with dm ops es rt w =
    (let (taken, w1) = (if rt_snapshot_pending rt then take_snapshot w else (None, w));
         rt2 = discovery_work dm ops taken es rt
     in if asks_snapshot rt2 \<and> rt_reconcile_again rt2 then
          (case request_snapshot w1 of (req, w2) \<Rightarrow> (service_discovery dm ops taken es req rt, w2))
        else (service_discovery dm ops taken es None rt, w1))"

inductive snapshot_reachable :: "daemon_env \<Rightarrow> ('d, 'e) session_ops \<Rightarrow> 'd runtime \<Rightarrow> discovery_worker \<Rightarrow> bool"
  for dm ops where
  started: "runtime_new c = Inr rt \<Longrightarrow> snapshot_reachable dm ops rt worker_new"
| reconciled: "snapshot_reachable dm ops rt w \<Longrightarrow> reconcile_with rt w = (rt', w') \<Longrightarrow> snapshot_reachable dm ops rt' w'"
| discovered: "snapshot_reachable dm ops rt w \<Longrightarrow> discover_with dm ops es rt w = (rt', w') \<Longrightarrow> snapshot_reachable dm ops rt' w'"
| other: "snapshot_reachable dm ops rt w \<Longrightarrow> rt_snapshot_pending rt' = rt_snapshot_pending rt \<Longrightarrow> snapshot_reachable dm ops rt' w"
| began: "snapshot_reachable dm ops rt w \<Longrightarrow> worker_begin w = Some w' \<Longrightarrow> snapshot_reachable dm ops rt w'"
| finished: "snapshot_reachable dm ops rt w \<Longrightarrow> worker_finish (discovery_job ready entries) w = Some w' \<Longrightarrow>
    snapshot_reachable dm ops rt w'"
| stopped: "snapshot_reachable dm ops rt w \<Longrightarrow> snapshot_reachable dm ops rt (w\<lparr>dw_stopped := True\<rparr>)"

definition in_flight :: "discovery_worker \<Rightarrow> nat" where
  "in_flight w = dw_requests w + (if dw_working w then 1 else 0) + length (dw_results w)"

definition flight_ok :: "'d runtime \<Rightarrow> discovery_worker \<Rightarrow> bool" where
  "flight_ok rt w \<longleftrightarrow> dw_stopped w \<or> in_flight w = (if rt_snapshot_pending rt then 1 else 0)"

lemma pending_kept [simp]:
  "rt_snapshot_pending (rt_publish dm ops e rt) = rt_snapshot_pending rt"
  "rt_snapshot_pending (release_slot dm ops slot path reason event rt) = rt_snapshot_pending rt"
  "rt_snapshot_pending (remove_missing dm ops rt slot) = rt_snapshot_pending rt"
  "rt_snapshot_pending (snd (add_path dm ops k path rt)) = rt_snapshot_pending rt"
  by (simp_all add: rt_publish_def release_slot_def remove_missing_def publish_removed_def add_path_def publish_added_def
      Let_def split: option.split sum.split)

lemma pending_foldl: "rt_snapshot_pending (foldl (remove_missing dm ops) rt slots) = rt_snapshot_pending rt"
  by (induction slots arbitrary: rt) simp_all

lemma pending_snapshot: "rt_snapshot_pending (apply_snapshot dm ops paths rt) = rt_snapshot_pending rt"
  by (simp add: apply_snapshot_def Let_def pending_foldl)

lemma pending_add: "rt_snapshot_pending (add_pending dm ops es n rt) = rt_snapshot_pending rt"
  by (induction n arbitrary: rt) (simp_all split: list.split)

lemma pending_work:
  "rt_snapshot_pending (discovery_work dm ops taken es rt) \<longleftrightarrow> rt_snapshot_pending rt \<and> taken = None"
  by (simp add: discovery_work_def Let_def pending_add pending_snapshot split: option.split sum.split)

lemma reconcile_flight:
  assumes "flight_ok rt w" "reconcile_with rt w = (rt', w')"
  shows "flight_ok rt' w'"
  using assms
  by (auto simp: flight_ok_def reconcile_with_def asks_snapshot_def request_snapshot_def request_reconcile_def in_flight_def
      split: if_splits)

lemma take_flight:
  assumes "flight_ok rt w" "rt_snapshot_pending rt" "take_snapshot w = (taken, w1)"
  shows "dw_stopped w1 \<or> in_flight w1 = (if taken = None then 1 else 0)"
  using assms by (auto simp: flight_ok_def take_snapshot_def in_flight_def split: list.splits if_splits)

lemma discover_flight:
  assumes "flight_ok rt w" "discover_with dm ops es rt w = (rt', w')"
  shows "flight_ok rt' w'"
proof -
  obtain taken w1 where t: "(if rt_snapshot_pending rt then take_snapshot w else (None, w)) = (taken, w1)" by force
  let ?rt2 = "discovery_work dm ops taken es rt"
  have pend: "rt_snapshot_pending ?rt2 \<longleftrightarrow> rt_snapshot_pending rt \<and> taken = None" by (rule pending_work)
  have w1: "dw_stopped w1 \<or> in_flight w1 = (if rt_snapshot_pending ?rt2 then 1 else 0)"
  proof (cases "rt_snapshot_pending rt")
    case True
    then show ?thesis using take_flight [OF assms(1) True, of taken w1] t pend by simp
  next
    case False
    then show ?thesis using t assms(1) pend by (simp add: flight_ok_def)
  qed
  have sd: "service_discovery dm ops taken es req rt =
      (if asks_snapshot ?rt2 \<and> rt_reconcile_again ?rt2 then request_reconcile req (?rt2\<lparr>rt_reconcile_again := False\<rparr>) else ?rt2)" for req
    by (simp add: service_discovery_def Let_def asks_snapshot_def)
  show ?thesis
  proof (cases "asks_snapshot ?rt2 \<and> rt_reconcile_again ?rt2")
    case True
    obtain req w2 where q: "request_snapshot w1 = (req, w2)" by force
    then have "rt' = request_reconcile req (?rt2\<lparr>rt_reconcile_again := False\<rparr>)" "w' = w2"
      using assms(2) t True sd by (simp_all add: discover_with_def)
    then show ?thesis using w1 q True
      by (auto simp: flight_ok_def request_snapshot_def request_reconcile_def asks_snapshot_def in_flight_def split: if_splits)
  next
    case False
    then have "rt' = ?rt2" "w' = w1" using assms(2) t sd by (auto simp: discover_with_def)
    then show ?thesis using w1 by (simp add: flight_ok_def)
  qed
qed

lemma reachable_flight: "snapshot_reachable dm ops rt w \<Longrightarrow> flight_ok rt w"
proof (induction rule: snapshot_reachable.induct)
  case (started c rt)
  then show ?case by (auto simp: flight_ok_def worker_new_def in_flight_def runtime_new_def split: if_splits)
next
  case (reconciled rt w rt' w')
  then show ?case using reconcile_flight by blast
next
  case (discovered rt w es rt' w')
  then show ?case using discover_flight by blast
next
  case (other rt w rt')
  then show ?case by (simp add: flight_ok_def)
next
  case (began rt w w')
  then show ?case
    by (cases "dw_requests w") (auto simp: flight_ok_def worker_begin_def in_flight_def split: if_splits)
next
  case (finished rt w ready entries w')
  then show ?case by (auto simp: flight_ok_def worker_finish_def in_flight_def split: if_splits)
next
  case (stopped rt w)
  then show ?case by (simp add: flight_ok_def)
qed

text \<open>
  C37. The reactor and the discovery worker never lose a request nor double it: while the worker runs, exactly one
  snapshot is requested, being made or ready when the reactor waits for one, and none otherwise; so the worker
  always has room to hand its result over, and a waiting reactor can take it, or the worker can go on. Once the
  worker has stopped, a waiting reactor is answered at once, by the last result or by an error, and a new
  request is refused.
\<close>
theorem pending_snapshot_arrives:
  assumes "snapshot_reachable dm ops rt w"
  shows "if dw_stopped w then fst (take_snapshot w) \<noteq> None \<and> fst (request_snapshot w) = Some EIO_code
    else dw_requests w + (if dw_working w then 1 else 0) + length (dw_results w) = (if rt_snapshot_pending rt then 1 else 0)
      \<and> (dw_working w \<longrightarrow> (\<forall>r. worker_finish r w = Some (w\<lparr>dw_results := [r], dw_working := False\<rparr>)))
      \<and> (rt_snapshot_pending rt \<longrightarrow> fst (take_snapshot w) \<noteq> None \<or> worker_begin w \<noteq> None \<or> dw_working w)"
proof (cases "dw_stopped w")
  case True
  then show ?thesis by (simp add: take_snapshot_def request_snapshot_def split: list.split)
next
  case False
  then have one: "dw_requests w + (if dw_working w then 1 else 0) + length (dw_results w) = (if rt_snapshot_pending rt then 1 else 0)"
    using reachable_flight [OF assms] by (simp add: flight_ok_def in_flight_def)
  then have "dw_working w \<Longrightarrow> dw_results w = []" by (simp split: if_splits)
  then show ?thesis using one False
    by (auto simp: take_snapshot_def worker_begin_def worker_finish_def split: list.split if_splits)
qed

section \<open>Events of the monitor\<close>

lemma poll_step_reads:
  "poll_step rx m = (r, rx', m') \<Longrightarrow> (rx' = rx \<or> (\<exists>x. rx = x # rx')) \<and> (r = Inr MpEmpty \<longrightarrow> mo_enumerated m')"
  by (auto simp: poll_step_def free_enum_def split: if_splits list.splits option.splits sum.splits prod.splits)

lemma poll_one_reads:
  assumes "poll_bounded 1 rx m = (r, rx', m')"
  shows "(\<exists>k \<le> 1. rx' = drop k rx) \<and> (r = Inr MpEmpty \<longrightarrow> mo_enumerated m')"
proof -
  obtain q rx1 m1 where s: "poll_step rx m = (q, rx1, m1)" by (metis prod_cases3)
  then have "rx' = rx1 \<and> m' = m1 \<and> r = q" using assms by (auto split: sum.splits monitor_poll.splits)
  moreover have "rx1 = drop 0 rx \<or> rx1 = drop 1 rx" using poll_step_reads [OF s] by auto
  ultimately show ?thesis using poll_step_reads [OF s] by (metis le_refl zero_le)
qed

lemma drain_loop_reads:
  "drain_monitor_loop n rx m = (r, rx', m') \<Longrightarrow> (\<exists>k \<le> n. rx' = drop k rx) \<and> (r = Inr False \<longrightarrow> mo_enumerated m')"
proof (induction n arbitrary: rx m)
  case (Suc n)
  obtain q rx1 m1 where p: "poll_bounded 1 rx m = (q, rx1, m1)" by (metis prod_cases3)
  obtain k where k: "k \<le> 1" "rx1 = drop k rx" "q = Inr MpEmpty \<longrightarrow> mo_enumerated m1" using poll_one_reads [OF p] by blast
  consider "rx' = rx1" "m' = m1" "r = Inr False \<longrightarrow> q = Inr MpEmpty" | "drain_monitor_loop n rx1 m1 = (r, rx', m')"
    using Suc.prems p by (auto split: sum.splits monitor_poll.splits simp del: poll_bounded.simps)
  then show ?case
  proof cases
    case 1
    then show ?thesis using k by (intro conjI exI [of _ k]) simp_all
  next
    case 2
    from Suc.IH [OF 2] obtain j where "j \<le> n" "rx' = drop j rx1" "r = Inr False \<longrightarrow> mo_enumerated m'" by blast
    then show ?thesis using k by (intro conjI exI [of _ "j + k"]) simp_all
  qed
qed auto

text \<open>
  One turn of the reactor reads at most its budget of events of the monitor, and when it says that nothing
  is left, the initial enumeration is over.
\<close>
theorem monitor_drained_in_bites:
  assumes "drain_monitor budget rx (Some m) = (r, rx', mon')"
  shows "\<exists>k m'. k \<le> budget \<and> rx' = drop k rx \<and> mon' = Some m' \<and> (r = Inr False \<longrightarrow> mo_enumerated m')"
proof -
  obtain m' where l: "drain_monitor_loop budget rx m = (r, rx', m')" "mon' = Some m'"
    using assms by (auto simp: drain_monitor_def split: prod.splits)
  then show ?thesis using drain_loop_reads [OF l(1)] by blast
qed

section \<open>Witnesses\<close>

lemma pending_snapshot_arrives_witness:
  "\<exists>dm (ops :: (nat, nat) session_ops) rt w. snapshot_reachable dm ops rt w \<and> rt_snapshot_pending rt
    \<and> dw_requests w = 1 \<and> \<not> dw_working w \<and> dw_results w = []"
proof -
  have v: "Config_validate Config_default = None" by (simp add: Config_validate_None Config_default_ok)
  obtain rt :: "nat runtime" where rt: "runtime_new Config_default = Inr rt" using v by (simp add: runtime_new_def)
  then have f: "\<not> rt_snapshot_pending rt" "rt_pending_additions rt = []" using v by (auto simp: runtime_new_def)
  let ?rt = "rt\<lparr>rt_snapshot_pending := True\<rparr>" and ?w = "worker_new\<lparr>dw_requests := 1\<rparr>"
  have "reconcile_with rt worker_new = (?rt, ?w)"
    by (simp add: reconcile_with_def asks_snapshot_def request_snapshot_def request_reconcile_def worker_new_def f)
  then have reach: "snapshot_reachable undefined (undefined :: (nat, nat) session_ops) ?rt ?w"
    by (rule reconciled [OF started [OF rt]])
  have pend: "rt_snapshot_pending ?rt" and one: "dw_requests ?w = 1" by simp_all
  have "\<not> dw_working ?w \<and> dw_results ?w = []"
    using pending_snapshot_arrives [OF reach] one pend by (simp add: worker_new_def)
  then show ?thesis using reach pend one by blast
qed

lemma monitor_drained_in_bites_witness:
  "\<exists>k. k \<le> (1::nat) \<and> fst (snd (drain_monitor 1 [Inl 11, Inl 11]
      (Some \<lparr>mo_entries = [], mo_initial = [], mo_watch = True, mo_enumerated = True\<rparr>))) = drop k [Inl 11, Inl 11]"
  using monitor_drained_in_bites [OF prod.collapse [symmetric, THEN trans, OF arg_cong2 [where f = Pair, OF refl prod.collapse [symmetric]]],
      of 1 "[Inl 11, Inl 11]" "\<lparr>mo_entries = [], mo_initial = [], mo_watch = True, mo_enumerated = True\<rparr>"]
  by auto

end
