(* ===== verification/Cli.thy ===== *)
theory Cli
  imports Config_Load Trace
begin

text \<open>
  The command line of the daemon: \<open>crates/wiilandd/src/cli.rs\<close>. A first pass finds the configuration file,
  the socket and the action; the second applies every option over the loaded configuration. The long
  chains of \<open>else if\<close> compare the argument with fixed words or fixed prefixes that end in \<open>=\<close>, no two
  of which can hold at once; they are grouped here by what they do.
\<close>

datatype ipc_mode = IpcAuto | IpcDisabled | IpcPath string

datatype cli_action =
    ActRun | ActHelp | ActVersion | ActList | ActAxisMap | ActValidationChecklist | ActDoctor
  | ActDumpConfig | ActCheckConfig | ActSelfTest | ActCalibrateAim

fun Action_label :: "cli_action \<Rightarrow> string" where
  "Action_label ActRun = ''run''"
| "Action_label ActHelp = ''--help''"
| "Action_label ActVersion = ''--version''"
| "Action_label ActList = ''--list''"
| "Action_label ActAxisMap = ''--axis-map''"
| "Action_label ActValidationChecklist = ''--validation-checklist''"
| "Action_label ActDoctor = ''--doctor''"
| "Action_label ActDumpConfig = ''--dump-config''"
| "Action_label ActCheckConfig = ''--check-config''"
| "Action_label ActSelfTest = ''--self-test''"
| "Action_label ActCalibrateAim = ''--calibrate-aim''"

definition diagnostic_without_config :: "cli_action \<Rightarrow> bool" where
  "diagnostic_without_config a \<longleftrightarrow> a \<in> {ActHelp, ActVersion, ActList, ActAxisMap, ActValidationChecklist}"

record cli_error =
  cx_code :: int
  cx_message :: string
  cx_usage :: bool

definition cli_syntax :: "string \<Rightarrow> cli_error" where
  "cli_syntax msg = \<lparr>cx_code = 22, cx_message = msg, cx_usage = True\<rparr>"

definition cli_conflict :: "string \<Rightarrow> cli_error" where
  "cli_conflict msg = \<lparr>cx_code = 22, cx_message = msg, cx_usage = False\<rparr>"

text \<open>\<open>Display\<close> of \<open>ConfigError\<close>.\<close>

definition ConfigError_text :: "config_error \<Rightarrow> string" where
  "ConfigError_text e =
    (case ce_line e of
       Some line \<Rightarrow> ''wiilandd: '' @ ce_path e @ '':'' @ dec_nat line @ '': '' @ ce_message e
     | None \<Rightarrow> ''wiilandd: cannot open '' @ ce_path e @ '': '' @ ce_message e)"

definition config_syntax :: "(config, config_error) outcome \<Rightarrow> (config, cli_error) outcome" where
  "config_syntax r = (case r of Ok c \<Rightarrow> Ok c | Err e \<Rightarrow> Err (cli_syntax (ConfigError_text e)) | Panic \<Rightarrow> Panic)"

definition strip_prefix :: "string \<Rightarrow> string \<Rightarrow> string option" where
  "strip_prefix arg p = (if starts_with arg p then Some (drop (length p) arg) else None)"

section \<open>The first pass\<close>

record cli_pass1 =
  p1_config_path :: "string option"
  p1_explicit_config :: bool
  p1_no_config :: bool
  p1_ipc :: ipc_mode
  p1_action :: cli_action

definition requested_action :: "cli_action \<Rightarrow> cli_action \<Rightarrow> string \<Rightarrow> (cli_action, cli_error) outcome" where
  "requested_action selected requested option =
    (if selected \<noteq> ActRun \<and> selected \<noteq> requested
     then Err (cli_conflict (''wiilandd: conflicting actions: '' @ Action_label selected @ '' and '' @ option))
     else Ok requested)"

definition cli_ipc_path :: "string \<Rightarrow> string \<Rightarrow> (string, cli_error) outcome" where
  "cli_ipc_path v option =
    (if v = [] then Err (cli_syntax (''wiilandd: '' @ option @ '' requires a path''))
     else if hd v \<noteq> CHR ''/'' then Err (cli_syntax (''wiilandd: '' @ option @ '' requires an absolute path''))
     else Ok v)"

definition action_option :: "string \<Rightarrow> cli_action option" where
  "action_option arg = map_of
    [(''-h'', ActHelp), (''--help'', ActHelp), (''--version'', ActVersion), (''-l'', ActList), (''--list'', ActList),
     (''--axis-map'', ActAxisMap), (''--validation-checklist'', ActValidationChecklist), (''--doctor'', ActDoctor),
     (''--dump-config'', ActDumpConfig), (''--check-config'', ActCheckConfig), (''--self-test'', ActSelfTest),
     (''--calibrate-aim'', ActCalibrateAim)] arg"

definition ipc_clash :: cli_error where
  "ipc_clash = cli_conflict ''wiilandd: --no-ipc cannot be combined with --ipc-socket''"

definition set_ipc_path :: "string \<Rightarrow> cli_pass1 \<Rightarrow> (cli_pass1, cli_error) outcome" where
  "set_ipc_path path p =
    (if p1_ipc p = IpcDisabled then Err ipc_clash
     else bind_outcome (cli_ipc_path path ''--ipc-socket'') (\<lambda>v. Ok (p\<lparr>p1_ipc := IpcPath v\<rparr>)))"

text \<open>One argument with those behind it: the state and what is left to read.\<close>

definition pass1_step :: "string \<Rightarrow> string list \<Rightarrow> cli_pass1 \<Rightarrow> (cli_pass1 \<times> string list, cli_error) outcome" where
  "pass1_step arg rest p =
    (case strip_prefix arg ''--config='' of
       Some path \<Rightarrow>
         if path = [] then Err (cli_syntax ''wiilandd: --config requires a path'')
         else Ok (p\<lparr>p1_config_path := Some path, p1_explicit_config := True\<rparr>, rest)
     | None \<Rightarrow>
       if arg = ''-c'' \<or> arg = ''--config'' then
         (case rest of
            [] \<Rightarrow> Err (cli_syntax ''wiilandd: --config requires a path'')
          | path # rest' \<Rightarrow> Ok (p\<lparr>p1_config_path := Some path, p1_explicit_config := True\<rparr>, rest'))
       else if arg = ''--no-config'' then Ok (p\<lparr>p1_no_config := True\<rparr>, rest)
       else if arg = ''--no-ipc'' then
         (case p1_ipc p of IpcPath _ \<Rightarrow> Err ipc_clash | _ \<Rightarrow> Ok (p\<lparr>p1_ipc := IpcDisabled\<rparr>, rest))
       else (case strip_prefix arg ''--ipc-socket='' of
          Some path \<Rightarrow> bind_outcome (set_ipc_path path p) (\<lambda>p. Ok (p, rest))
        | None \<Rightarrow>
          if arg = ''--ipc-socket'' then
            (case rest of
               [] \<Rightarrow> Err (cli_syntax ''wiilandd: --ipc-socket requires a path'')
             | path # rest' \<Rightarrow> bind_outcome (set_ipc_path path p) (\<lambda>p. Ok (p, rest')))
          else (case action_option arg of
              Some a \<Rightarrow> bind_outcome (requested_action (p1_action p) a arg) (\<lambda>a. Ok (p\<lparr>p1_action := a\<rparr>, rest))
            | None \<Rightarrow> Ok (p, rest))))"

lemma pass1_shorter: "pass1_step arg rest p = Ok (p', rest') \<Longrightarrow> length rest' \<le> length rest"
  by (auto simp: pass1_step_def bind_outcome_eq_Ok split: option.splits if_splits list.splits ipc_mode.splits)

function pass1_loop :: "string list \<Rightarrow> cli_pass1 \<Rightarrow> (cli_pass1, cli_error) outcome" where
  "pass1_loop [] p = Ok p"
| "pass1_loop (arg # rest) p =
    (case pass1_step arg rest p of
       Ok (p', rest') \<Rightarrow> pass1_loop rest' p' | Err e \<Rightarrow> Err e | Panic \<Rightarrow> Panic)"
  by pat_completeness auto
termination
  by (relation "measure (\<lambda>(args, p). length args)") (auto dest!: pass1_shorter)

definition parse_pass1 :: "string list \<Rightarrow> (cli_pass1, cli_error) outcome" where
  "parse_pass1 args =
    bind_outcome
      (pass1_loop args \<lparr>p1_config_path = None, p1_explicit_config = False, p1_no_config = False, p1_ipc = IpcAuto, p1_action = ActRun\<rparr>)
      (\<lambda>p. if p1_no_config p \<and> p1_explicit_config p
           then Err (cli_conflict ''wiilandd: --no-config cannot be combined with --config'') else Ok p)"

section \<open>The second pass\<close>

record cli =
  cl_action :: cli_action
  cl_config :: config
  cl_config_path :: "string option"
  cl_explicit_config :: bool
  cl_no_config :: bool
  cl_ipc :: ipc_mode
  cl_device :: "string option"
  cl_dry_run :: bool
  cl_verbose :: bool
  cl_trace :: trace_config

definition invalid_value :: "string \<Rightarrow> cli_error" where
  "invalid_value option = cli_syntax (''wiilandd: invalid value for '' @ option)"

definition int_value :: "string \<Rightarrow> int \<Rightarrow> int \<Rightarrow> string \<Rightarrow> (int, cli_error) outcome" where
  "int_value v lo hi option =
    ok_or (case parse_i64 v of Some n \<Rightarrow> if lo \<le> n \<and> n \<le> hi then Some n else None | None \<Rightarrow> None) (invalid_value option)"

definition bool_value :: "string \<Rightarrow> string \<Rightarrow> (bool, cli_error) outcome" where
  "bool_value v option =
    (if v = ''yes'' \<or> v = ''true'' \<or> v = ''1'' then Ok True
     else if v = ''no'' \<or> v = ''false'' \<or> v = ''0'' then Ok False else Err (invalid_value option))"

definition parse_choice :: "string \<Rightarrow> (string \<Rightarrow> 'a option) \<Rightarrow> string \<Rightarrow> ('a, cli_error) outcome" where
  "parse_choice v parser option = ok_or (parser v) (invalid_value option)"

text \<open>The options that change the configuration by a value; \<open>shown\<close> is the name in the message.\<close>

type_synonym config_setter = "string \<Rightarrow> string \<Rightarrow> config \<Rightarrow> (config, cli_error) outcome"

definition set_int_field :: "int \<Rightarrow> int \<Rightarrow> (int \<Rightarrow> config \<Rightarrow> config) \<Rightarrow> config_setter" where
  "set_int_field lo hi store v shown c = bind_outcome (int_value v lo hi shown) (\<lambda>n. Ok (store n c))"

definition set_choice_field :: "(string \<Rightarrow> 'a option) \<Rightarrow> ('a \<Rightarrow> config \<Rightarrow> config) \<Rightarrow> config_setter" where
  "set_choice_field parser store v shown c = bind_outcome (parse_choice v parser shown) (\<lambda>x. Ok (store x c))"

definition set_bool_field :: "(bool \<Rightarrow> config \<Rightarrow> config) \<Rightarrow> config_setter" where
  "set_bool_field store v shown c = bind_outcome (bool_value v shown) (\<lambda>b. Ok (store b c))"

definition Backend_choice :: "string \<Rightarrow> backend option" where
  "Backend_choice v = (if v = ''uinput'' then Some Uinput else None)"

definition value_options :: "(string \<times> config_setter) list" where
  "value_options =
    [(''--profile'', set_choice_field Profile_parse (\<lambda>x. cfg_profile_update (\<lambda>_. x))),
     (''--backend'', set_choice_field Backend_choice (\<lambda>x. cfg_backend_update (\<lambda>_. x))),
     (''--pointer-speed'', set_int_field 1 127 (\<lambda>n. cfg_pointer_speed_update (\<lambda>_. n))),
     (''--ir-speed'', set_int_field 1 127 (\<lambda>n. cfg_ir_speed_update (\<lambda>_. n))),
     (''--ir-deadzone'', set_int_field 0 127 (\<lambda>n. cfg_ir_deadzone_update (\<lambda>_. n))),
     (''--ir-smoothing'', set_int_field 0 95 (\<lambda>n. cfg_ir_smoothing_update (\<lambda>_. n))),
     (''--ir-tracking'', set_choice_field IrTracking_parse (\<lambda>x. cfg_ir_tracking_update (\<lambda>_. x))),
     (''--ir-aim-mapping'', set_choice_field IrAimMapping_parse (\<lambda>x. cfg_ir_aim_mapping_update (\<lambda>_. x))),
     (''--aim-mode'', set_choice_field AimMode_parse (\<lambda>x. cfg_aim_mode_update (\<lambda>_. x))),
     (''--aim-source'', set_choice_field AimSource_parse (\<lambda>x. cfg_aim_source_update (\<lambda>_. x))),
     (''--aim-activation'', set_choice_field AimActivation_parse (\<lambda>x. cfg_aim_activation_update (\<lambda>_. x))),
     (''--aim-sensitivity'', set_int_field 1 127 (\<lambda>n. cfg_aim_sensitivity_update (\<lambda>_. n))),
     (''--aim-deadzone'', set_int_field 0 32767 (\<lambda>n. cfg_aim_deadzone_update (\<lambda>_. n))),
     (''--aim-smoothing'', set_int_field 0 95 (\<lambda>n. cfg_aim_smoothing_update (\<lambda>_. n))),
     (''--aim-invert-x'', set_bool_field (\<lambda>b. cfg_aim_invert_x_update (\<lambda>_. b))),
     (''--aim-invert-y'', set_bool_field (\<lambda>b. cfg_aim_invert_y_update (\<lambda>_. b))),
     (''--aim-calibration-duration'', set_int_field 1 30 (\<lambda>n. cfg_aim_calibration_duration_update (\<lambda>_. n)))]"

text \<open>The form \<open>--name=value\<close>: some options report the name, the others the whole argument.\<close>

definition short_messages :: "string list" where
  "short_messages = [''--backend'', ''--pointer-speed'', ''--ir-speed'', ''--ir-deadzone'', ''--ir-smoothing'']"

definition value_form :: "string \<Rightarrow> (string \<times> string \<times> config_setter) option" where
  "value_form arg =
    (case List.find (\<lambda>(name, _). starts_with arg (name @ ''='')) value_options of
       None \<Rightarrow> None
     | Some (name, setter) \<Rightarrow>
         Some (drop (length name + 1) arg, if name \<in> set short_messages then name else arg, setter))"

definition skips_one :: "string \<Rightarrow> bool" where
  "skips_one arg \<longleftrightarrow> arg = ''--no-config'' \<or> starts_with arg ''--config='' \<or> arg = ''--no-ipc'' \<or> starts_with arg ''--ipc-socket=''"

definition skips_two :: "string \<Rightarrow> bool" where
  "skips_two arg \<longleftrightarrow> arg = ''--config'' \<or> arg = ''--ipc-socket'' \<or> arg = ''-c''"

definition with_config :: "cli \<Rightarrow> (config, cli_error) outcome \<Rightarrow> string list \<Rightarrow> (cli \<times> string list, cli_error) outcome" where
  "with_config out r rest = bind_outcome r (\<lambda>c. Ok (out\<lparr>cl_config := c\<rparr>, rest))"

definition pass2_step :: "string \<Rightarrow> string list \<Rightarrow> cli \<Rightarrow> (cli \<times> string list, cli_error) outcome" where
  "pass2_step arg rest out =
    (let missing = cli_syntax (''wiilandd: '' @ arg @ '' requires a value'')
     in case action_option arg of
       Some a \<Rightarrow> bind_outcome (requested_action (cl_action out) a arg) (\<lambda>a. Ok (out\<lparr>cl_action := a\<rparr>, rest))
     | None \<Rightarrow>
       if skips_one arg then Ok (out, rest)
       else if skips_two arg then Ok (out, drop 1 rest)
       else if arg = ''-v'' \<or> arg = ''--verbose'' then Ok (out\<lparr>cl_verbose := True\<rparr>, rest)
       else if arg = ''-n'' \<or> arg = ''--dry-run'' then Ok (out\<lparr>cl_dry_run := True\<rparr>, rest)
       else if arg = ''-d'' \<or> arg = ''--device'' then
         (case rest of [] \<Rightarrow> Err missing | v # rest' \<Rightarrow> Ok (out\<lparr>cl_device := Some v\<rparr>, rest'))
       else (case strip_prefix arg ''--device='' of
         Some v \<Rightarrow>
           if v = [] then Err (cli_syntax ''wiilandd: --device requires a value'')
           else Ok (out\<lparr>cl_device := Some v\<rparr>, rest)
       | None \<Rightarrow>
         (case strip_prefix arg ''--trace-events='' of
            Some v \<Rightarrow>
              (case TraceFilter_from_str v of
                 None \<Rightarrow> Err (cli_syntax ''wiilandd: invalid value for --trace-events'')
               | Some flt \<Rightarrow> Ok (out\<lparr>cl_trace := \<lparr>tc_enabled = True, tc_filter = flt\<rparr>\<rparr>, rest))
          | None \<Rightarrow>
            if arg = ''--trace-events'' then Ok (out\<lparr>cl_trace := \<lparr>tc_enabled = True, tc_filter = FilterAll\<rparr>\<rparr>, rest)
            else (case map_of value_options (if arg = ''-p'' then ''--profile'' else arg) of
              Some setter \<Rightarrow>
                (case rest of
                   [] \<Rightarrow> Err missing
                 | v # rest' \<Rightarrow> with_config out (setter v arg (cl_config out)) rest')
            | None \<Rightarrow>
              (case value_form arg of
                 Some (v, shown, setter) \<Rightarrow> with_config out (setter v shown (cl_config out)) rest
               | None \<Rightarrow> Err (cli_syntax (''wiilandd: unrecognized option '' @ [CHR 0x27] @ arg @ [CHR 0x27])))))))"

lemma with_config_rest: "with_config out r rest = Ok (out', rest') \<Longrightarrow> rest' = rest"
  by (auto simp: with_config_def bind_outcome_eq_Ok)

lemma pass2_shorter: "pass2_step arg rest out = Ok (out', rest') \<Longrightarrow> length rest' \<le> length rest"
  by (auto simp: pass2_step_def bind_outcome_eq_Ok Let_def dest!: with_config_rest split: option.splits if_splits list.splits)

function pass2_loop :: "string list \<Rightarrow> cli \<Rightarrow> (cli, cli_error) outcome" where
  "pass2_loop [] out = Ok out"
| "pass2_loop (arg # rest) out =
    (case pass2_step arg rest out of
       Ok (out', rest') \<Rightarrow> pass2_loop rest' out' | Err e \<Rightarrow> Err e | Panic \<Rightarrow> Panic)"
  by pat_completeness auto
termination
  by (relation "measure (\<lambda>(args, out). length args)") (auto dest!: pass2_shorter)

definition cli_start :: "config \<Rightarrow> cli_pass1 \<Rightarrow> cli" where
  "cli_start c p = \<lparr>
     cl_action = ActRun, cl_config = c, cl_config_path = p1_config_path p,
     cl_explicit_config = p1_explicit_config p, cl_no_config = p1_no_config p, cl_ipc = p1_ipc p,
     cl_device = None, cl_dry_run = False, cl_verbose = False, cl_trace = TraceConfig_default\<rparr>"

definition parse_pass2 :: "string list \<Rightarrow> config \<Rightarrow> cli_pass1 \<Rightarrow> (cli, cli_error) outcome" where
  "parse_pass2 args c p =
    bind_outcome (config_syntax (validated c))
      (\<lambda>c. bind_outcome (pass2_loop args (cli_start c p))
        (\<lambda>out. bind_outcome (config_syntax (validated (cl_config out))) (\<lambda>_. Ok out)))"

text \<open>\<open>Cli::parse\<close> on the arguments of the process, the program's name first; \<open>read\<close> and \<open>env\<close> as in \<open>Config_Load\<close>.\<close>

definition cli_parse ::
  "file_system \<Rightarrow> (string \<Rightarrow> string option) \<Rightarrow> bytes list \<Rightarrow> (cli, cli_error) outcome" where
  "cli_parse read env argv =
    (if \<not> list_all valid_utf8 argv then Err (cli_syntax ''arguments must be UTF-8'')
     else bind_outcome (parse_pass1 (drop 1 argv))
       (\<lambda>p. bind_outcome
         (if p1_no_config p \<or> diagnostic_without_config (p1_action p) then Ok Config_default
          else config_syntax (case p1_config_path p of
              Some path \<Rightarrow> load_file read path | None \<Rightarrow> load_default_layers read env))
         (\<lambda>c. parse_pass2 (drop 1 argv) c p)))"

end
