(* ===== verification/Cli_Facts.thy ===== *)
theory Cli_Facts
  imports Cli Engine
begin

text \<open>
  What the command line (\<open>crates/wiilandd/src/cli.rs\<close>) promises: a parsed line carries a valid configuration
  and consistent selectors, and its two passes see the same options unless the value of an option looks
  like an option.
\<close>

section \<open>A parsed line\<close>

lemma validated_Ok: "validated c = Ok c' \<longleftrightarrow> c' = c \<and> Config_validate c = None"
  by (auto simp: validated_def split: option.split)

lemma config_syntax_Ok: "config_syntax r = Ok c \<longleftrightarrow> r = Ok c"
  by (cases r) (simp_all add: config_syntax_def)

definition selectors_ok :: "cli_pass1 \<Rightarrow> bool" where
  "selectors_ok p \<longleftrightarrow> (\<forall>path. p1_ipc p = IpcPath path \<longrightarrow> path \<noteq> [] \<and> hd path = CHR ''/'')"

lemma pass1_step_ok: "selectors_ok p \<Longrightarrow> pass1_step arg rest p = Ok (p', rest') \<Longrightarrow> selectors_ok p'"
  by (auto simp: selectors_ok_def pass1_step_def set_ipc_path_def cli_ipc_path_def bind_outcome_eq_Ok
      split: option.splits if_splits list.splits ipc_mode.splits)

lemma pass1_loop_ok: "selectors_ok p \<Longrightarrow> pass1_loop args p = Ok p' \<Longrightarrow> selectors_ok p'"
proof (induction args p rule: pass1_loop.induct)
  case (2 arg rest p)
  show ?case
  proof (cases "pass1_step arg rest p")
    case (Ok r)
    then show ?thesis using 2 pass1_step_ok [of p arg rest "fst r" "snd r"] by (cases r) simp
  qed (use 2 in simp_all)
qed simp

lemma parse_pass1_ok: "parse_pass1 args = Ok p \<Longrightarrow> selectors_ok p \<and> \<not> (p1_no_config p \<and> p1_explicit_config p)"
proof -
  let ?p0 = "\<lparr>p1_config_path = None, p1_explicit_config = False, p1_no_config = False, p1_ipc = IpcAuto, p1_action = ActRun\<rparr>"
  assume "parse_pass1 args = Ok p"
  then have l: "pass1_loop args ?p0 = Ok p" and n: "\<not> (p1_no_config p \<and> p1_explicit_config p)"
    unfolding parse_pass1_def bind_outcome_eq_Ok by (auto split: if_splits)
  have "selectors_ok ?p0" by (simp add: selectors_ok_def)
  from pass1_loop_ok [OF this l] n show ?thesis by (rule conjI)
qed

lemma with_config_keeps:
  "with_config out r rest = Ok (out', rest') \<Longrightarrow> rest' = rest \<and> cl_action out' = cl_action out
    \<and> cl_ipc out' = cl_ipc out \<and> cl_no_config out' = cl_no_config out \<and> cl_explicit_config out' = cl_explicit_config out"
  by (auto simp: with_config_def bind_outcome_eq_Ok)

text \<open>The fields the second pass never changes; the branches are taken one by one, without their conditions.\<close>

definition keeps :: "cli \<Rightarrow> (cli \<times> string list, cli_error) outcome \<Rightarrow> bool" where
  "keeps out r \<longleftrightarrow> (\<forall>out' rest'. r = Ok (out', rest') \<longrightarrow>
    cl_ipc out' = cl_ipc out \<and> cl_no_config out' = cl_no_config out \<and> cl_explicit_config out' = cl_explicit_config out)"

lemma keeps_branches:
  "keeps out x \<Longrightarrow> keeps out y \<Longrightarrow> keeps out (if b then x else y)"
  "keeps out x \<Longrightarrow> (\<And>v. keeps out (g v)) \<Longrightarrow> keeps out (case o1 of None \<Rightarrow> x | Some v \<Rightarrow> g v)"
  "keeps out x \<Longrightarrow> (\<And>v vs. keeps out (h v vs)) \<Longrightarrow> keeps out (case l of [] \<Rightarrow> x | v # vs \<Rightarrow> h v vs)"
  "(\<And>a b. keeps out (k a b)) \<Longrightarrow> keeps out (case p of (a, b) \<Rightarrow> k a b)"
  "(\<And>v. keeps out (f v)) \<Longrightarrow> keeps out (bind_outcome r f)"
  by (simp_all add: keeps_def bind_outcome_eq_Ok split: option.split list.split prod.split) blast

lemma keeps_leaves:
  "keeps out (Err e)" "keeps out (with_config out r rest)" "keeps out (Ok (out, rest))"
  "keeps out (Ok (out\<lparr>cl_action := a\<rparr>, rest))" "keeps out (Ok (out\<lparr>cl_verbose := v\<rparr>, rest))"
  "keeps out (Ok (out\<lparr>cl_dry_run := v\<rparr>, rest))" "keeps out (Ok (out\<lparr>cl_device := d\<rparr>, rest))"
  "keeps out (Ok (out\<lparr>cl_trace := t\<rparr>, rest))"
  by (auto simp: keeps_def dest: with_config_keeps)

lemma pass2_step_keeps:
  "pass2_step arg rest out = Ok (out', rest') \<Longrightarrow>
    cl_ipc out' = cl_ipc out \<and> cl_no_config out' = cl_no_config out \<and> cl_explicit_config out' = cl_explicit_config out"
proof -
  have "keeps out (pass2_step arg rest out)"
    unfolding pass2_step_def Let_def by (intro keeps_branches keeps_leaves)
  moreover assume "pass2_step arg rest out = Ok (out', rest')"
  ultimately show ?thesis by (simp add: keeps_def)
qed

lemma pass2_loop_keeps:
  "pass2_loop args out = Ok out' \<Longrightarrow>
    cl_ipc out' = cl_ipc out \<and> cl_no_config out' = cl_no_config out \<and> cl_explicit_config out' = cl_explicit_config out"
proof (induction args out rule: pass2_loop.induct)
  case (2 arg rest out)
  show ?case
  proof (cases "pass2_step arg rest out")
    case (Ok r)
    then show ?thesis using 2 pass2_step_keeps [of arg rest out "fst r" "snd r"] by (cases r) simp
  qed (use 2 in simp_all)
qed simp

text \<open>
  A command line that is accepted carries a valid configuration, whatever the files and the options
  said; it never both names a configuration file and forbids one, and a socket path is absolute.
\<close>
theorem command_line_consistent:
  assumes "cli_parse read env argv = Ok out"
  shows "Config_validate (cl_config out) = None \<and> \<not> (cl_no_config out \<and> cl_explicit_config out)
    \<and> (\<forall>path. cl_ipc out = IpcPath path \<longrightarrow> path \<noteq> [] \<and> hd path = CHR ''/'')"
proof -
  obtain p c where p: "parse_pass1 (drop 1 argv) = Ok p" "parse_pass2 (drop 1 argv) c p = Ok out"
    using assms by (auto simp: cli_parse_def bind_outcome_eq_Ok split: if_splits)
  then have l: "pass2_loop (drop 1 argv) (cli_start c p) = Ok out" "Config_validate (cl_config out) = None"
    by (auto simp: parse_pass2_def bind_outcome_eq_Ok config_syntax_Ok validated_Ok)
  show ?thesis using parse_pass1_ok [OF p(1)] pass2_loop_keeps [OF l(1)] l(2)
    by (simp add: selectors_ok_def cli_start_def)
qed

section \<open>The two passes\<close>

definition noticed :: "string \<Rightarrow> bool" where
  "noticed arg \<longleftrightarrow> skips_one arg \<or> skips_two arg \<or> action_option arg \<noteq> None"

definition takes_value :: "string \<Rightarrow> bool" where
  "takes_value arg \<longleftrightarrow> arg = ''-d'' \<or> arg = ''--device'' \<or> arg = ''-p'' \<or> arg \<in> set (map fst value_options)"

text \<open>No value of an option is a word the first pass reacts to.\<close>

function separated :: "string list \<Rightarrow> bool" where
  "separated [] = True"
| "separated (arg # rest) =
    (if takes_value arg then rest = [] \<or> \<not> noticed (hd rest) \<and> separated (tl rest)
     else if skips_two arg then separated (tl rest) else separated rest)"
  by pat_completeness auto
termination by (relation "measure length") auto

lemma unnoticed_pass1: "\<not> noticed arg \<Longrightarrow> pass1_step arg rest p = Ok (p, rest)"
  by (auto simp: noticed_def pass1_step_def skips_one_def skips_two_def strip_prefix_def split: option.split)

lemma value_not_noticed: "takes_value arg \<Longrightarrow> \<not> noticed arg"
  unfolding takes_value_def value_options_def
  by (simp only: list.map fst_conv list.set insert_iff empty_iff)
    (elim disjE; simp add: noticed_def skips_one_def skips_two_def action_option_def starts_with_def)

lemma value_not_flag:
  "takes_value arg \<Longrightarrow> arg \<noteq> ''-v'' \<and> arg \<noteq> ''--verbose'' \<and> arg \<noteq> ''-n'' \<and> arg \<noteq> ''--dry-run'' \<and> arg \<noteq> ''--trace-events''
    \<and> \<not> starts_with arg ''--device='' \<and> \<not> starts_with arg ''--trace-events=''"
  unfolding takes_value_def value_options_def
  by (simp only: list.map fst_conv list.set insert_iff empty_iff) (elim disjE; simp add: starts_with_def)

lemma value_setter:
  assumes "takes_value arg" "arg \<noteq> ''-d''" "arg \<noteq> ''--device''"
  shows "\<exists>setter. map_of value_options (if arg = ''-p'' then ''--profile'' else arg) = Some setter"
proof -
  have prof: "''--profile'' \<in> fst ` set value_options" by (simp add: value_options_def)
  have "arg = ''-p'' \<or> arg \<in> fst ` set value_options" using assms by (simp only: takes_value_def set_map simp_thms)
  then have "(if arg = ''-p'' then ''--profile'' else arg) \<in> fst ` set value_options"
    by (rule disjE) (simp_all only: prof if_True if_False refl simp_thms split: if_split)
  then have "map_of value_options (if arg = ''-p'' then ''--profile'' else arg) \<noteq> None"
    by (simp only: map_of_eq_None_iff simp_thms)
  then show ?thesis by (simp only: not_None_eq)
qed

lemma no_setter:
  assumes "\<not> takes_value arg"
  shows "map_of value_options (if arg = ''-p'' then ''--profile'' else arg) = None"
  using assms by (auto simp: takes_value_def map_of_eq_None_iff)

lemma pass2_value:
  assumes "takes_value arg" "pass2_step arg rest out = Ok (out', rest')"
  shows "\<exists>v. rest = v # rest' \<and> cl_action out' = cl_action out"
proof -
  have n: "action_option arg = None" "\<not> skips_one arg" "\<not> skips_two arg"
    using value_not_noticed [OF assms(1)] by (simp_all add: noticed_def)
  note f = value_not_flag [OF assms(1)]
  show ?thesis
  proof (cases "arg = ''-d'' \<or> arg = ''--device''")
    case True
    then have "pass2_step arg rest out = (case rest of [] \<Rightarrow> Err (cli_syntax (''wiilandd: '' @ arg @ '' requires a value''))
        | v # rest' \<Rightarrow> Ok (out\<lparr>cl_device := Some v\<rparr>, rest'))"
      unfolding pass2_step_def Let_def using n f by (simp only: option.case if_True if_False simp_thms)
    then show ?thesis using assms(2) by (cases rest) auto
  next
    case False
    then obtain setter where m: "map_of value_options (if arg = ''-p'' then ''--profile'' else arg) = Some setter"
      using value_setter [OF assms(1)] by blast
    then have "pass2_step arg rest out = (case rest of [] \<Rightarrow> Err (cli_syntax (''wiilandd: '' @ arg @ '' requires a value''))
        | v # rest' \<Rightarrow> with_config out (setter v arg (cl_config out)) rest')"
      unfolding pass2_step_def Let_def strip_prefix_def using n f False by (simp only: option.case if_False simp_thms)
    then show ?thesis using assms(2) by (cases rest) (auto dest!: with_config_keeps)
  qed
qed

lemma pass2_other:
  assumes "\<not> takes_value arg" "\<not> noticed arg" "pass2_step arg rest out = Ok (out', rest')"
  shows "rest' = rest \<and> cl_action out' = cl_action out"
proof -
  have n: "action_option arg = None" "\<not> skips_one arg" "\<not> skips_two arg" "arg \<noteq> ''-d''" "arg \<noteq> ''--device''"
    using assms(1,2) by (auto simp: noticed_def takes_value_def)
  define v where "v \<longleftrightarrow> arg = ''-v'' \<or> arg = ''--verbose''"
  define d where "d \<longleftrightarrow> arg = ''-n'' \<or> arg = ''--dry-run''"
  define t where "t \<longleftrightarrow> arg = ''--trace-events''"
  define dev where "dev = strip_prefix arg ''--device=''"
  define tr where "tr = strip_prefix arg ''--trace-events=''"
  have eq: "pass2_step arg rest out =
      (if v then Ok (out\<lparr>cl_verbose := True\<rparr>, rest) else if d then Ok (out\<lparr>cl_dry_run := True\<rparr>, rest)
       else case dev of
         Some x \<Rightarrow> if x = [] then Err (cli_syntax ''wiilandd: --device requires a value'')
           else Ok (out\<lparr>cl_device := Some x\<rparr>, rest)
       | None \<Rightarrow> (case tr of
            Some x \<Rightarrow> (case TraceFilter_from_str x of
                 None \<Rightarrow> Err (cli_syntax ''wiilandd: invalid value for --trace-events'')
               | Some flt \<Rightarrow> Ok (out\<lparr>cl_trace := \<lparr>tc_enabled = True, tc_filter = flt\<rparr>\<rparr>, rest))
          | None \<Rightarrow> if t then Ok (out\<lparr>cl_trace := \<lparr>tc_enabled = True, tc_filter = FilterAll\<rparr>\<rparr>, rest)
            else (case value_form arg of
                 Some (x, shown, setter) \<Rightarrow> with_config out (setter x shown (cl_config out)) rest
               | None \<Rightarrow> Err (cli_syntax (''wiilandd: unrecognized option '' @ [CHR 0x27] @ arg @ [CHR 0x27])))))"
    unfolding pass2_step_def Let_def no_setter [OF assms(1)] v_def d_def t_def dev_def tr_def
    by (simp only: n option.case if_False simp_thms)
  show ?thesis
    using assms(3) unfolding eq
    by (cases v; cases d; cases dev; cases tr; cases t; cases "value_form arg")
      (auto dest!: with_config_keeps split: option.splits if_splits)
qed

lemma action_words:
  assumes "action_option arg = Some a"
  shows "arg \<in> {''-h'', ''--help'', ''--version'', ''-l'', ''--list'', ''--axis-map'',
    ''--validation-checklist'', ''--doctor'', ''--dump-config'', ''--check-config'', ''--self-test'', ''--calibrate-aim''}"
proof -
  have "action_option arg \<noteq> None" by (simp only: assms option.distinct simp_thms)
  then show ?thesis
    unfolding action_option_def map_of_eq_None_iff not_not by (simp only: list.set image_insert image_empty fst_conv)
qed

definition bare_word :: "string \<Rightarrow> bool" where
  "bare_word arg \<longleftrightarrow> \<not> skips_one arg \<and> \<not> skips_two arg \<and> \<not> takes_value arg"

lemma bare_words:
  "bare_word ''-h''" "bare_word ''--help''" "bare_word ''--version''" "bare_word ''-l''" "bare_word ''--list''" "bare_word ''--axis-map''"
  "bare_word ''--validation-checklist''" "bare_word ''--doctor''" "bare_word ''--dump-config''" "bare_word ''--check-config''"
  "bare_word ''--self-test''" "bare_word ''--calibrate-aim''"
  by (simp_all add: bare_word_def skips_one_def skips_two_def takes_value_def value_options_def starts_with_def)

lemma action_disjoint:
  assumes "action_option arg = Some a"
  shows "\<not> skips_one arg \<and> \<not> skips_two arg \<and> \<not> takes_value arg"
proof -
  have "bare_word arg" using action_words [OF assms] unfolding insert_iff empty_iff
    by (elim disjE FalseE) (simp_all only: bare_words)
  then show ?thesis unfolding bare_word_def .
qed

lemma skips_disjoint: "skips_two arg \<Longrightarrow> \<not> skips_one arg"
  unfolding skips_two_def by (elim disjE; simp add: skips_one_def starts_with_def)

lemma skips_one_no: "\<not> skips_one arg \<Longrightarrow>
    (arg = ''--no-config'') = False \<and> strip_prefix arg ''--config='' = None \<and> (arg = ''--no-ipc'') = False
    \<and> strip_prefix arg ''--ipc-socket='' = None"
  by (simp only: skips_one_def strip_prefix_def de_Morgan_disj if_False simp_thms)

lemma skips_two_no: "\<not> skips_two arg \<Longrightarrow>
    (arg = ''--config'') = False \<and> (arg = ''--ipc-socket'') = False \<and> (arg = ''-c'') = False"
  by (simp only: skips_two_def de_Morgan_disj simp_thms)

text \<open>The first pass in terms of what it skips.\<close>

lemma pass1_action:
  assumes "action_option arg = Some a"
  shows "pass1_step arg rest p = bind_outcome (requested_action (p1_action p) a arg) (\<lambda>a. Ok (p\<lparr>p1_action := a\<rparr>, rest))"
proof -
  note d = action_disjoint [OF assms, THEN conjunct1] action_disjoint [OF assms, THEN conjunct2, THEN conjunct1]
  show ?thesis unfolding pass1_step_def
    by (simp only: assms skips_one_no [OF d(1)] skips_two_no [OF d(2)] option.case if_False simp_thms)
qed

lemma set_ipc_path_action: "set_ipc_path path p = Ok p' \<Longrightarrow> p1_action p' = p1_action p"
  by (auto simp: set_ipc_path_def bind_outcome_eq_Ok split: if_splits)

lemma pass1_one:
  assumes "skips_one arg" "\<not> skips_two arg" "pass1_step arg rest p = Ok (p1, r1)" "action_option arg = None"
  shows "r1 = rest \<and> p1_action p1 = p1_action p"
proof -
  define a b c where "a = strip_prefix arg ''--config=''" and "b \<longleftrightarrow> arg = ''--no-config''" and "c \<longleftrightarrow> arg = ''--no-ipc''"
  define d where "d = strip_prefix arg ''--ipc-socket=''"
  have eq: "pass1_step arg rest p =
    (case a of
       Some path \<Rightarrow>
         if path = [] then Err (cli_syntax ''wiilandd: --config requires a path'')
         else Ok (p\<lparr>p1_config_path := Some path, p1_explicit_config := True\<rparr>, rest)
     | None \<Rightarrow> if b then Ok (p\<lparr>p1_no_config := True\<rparr>, rest)
       else if c then (case p1_ipc p of IpcPath _ \<Rightarrow> Err ipc_clash | _ \<Rightarrow> Ok (p\<lparr>p1_ipc := IpcDisabled\<rparr>, rest))
       else (case d of
          Some path \<Rightarrow> bind_outcome (set_ipc_path path p) (\<lambda>p. Ok (p, rest))
        | None \<Rightarrow> Ok (p, rest)))"
    unfolding pass1_step_def a_def b_def c_def d_def
    by (simp only: assms(4) skips_two_no [OF assms(2)] option.case if_False simp_thms)
  show ?thesis using assms(3) unfolding eq
    by (cases a; cases b; cases c; cases d)
      (auto simp: bind_outcome_eq_Ok dest: set_ipc_path_action split: if_splits ipc_mode.splits)
qed

lemma pass1_two:
  assumes "skips_two arg" "pass1_step arg rest p = Ok (p1, r1)" "action_option arg = None"
  shows "r1 = tl rest \<and> p1_action p1 = p1_action p"
proof -
  define b where "b \<longleftrightarrow> arg = ''-c'' \<or> arg = ''--config''"
  define d where "d \<longleftrightarrow> arg = ''--ipc-socket''"
  note one = skips_one_no [OF skips_disjoint [OF assms(1)]]
  have sock: "b \<or> d" using assms(1) unfolding skips_two_def b_def d_def by (elim disjE) (simp_all only: simp_thms)
  have eq: "pass1_step arg rest p =
    (if b then (case rest of [] \<Rightarrow> Err (cli_syntax ''wiilandd: --config requires a path'')
          | path # rest' \<Rightarrow> Ok (p\<lparr>p1_config_path := Some path, p1_explicit_config := True\<rparr>, rest'))
     else (case rest of [] \<Rightarrow> Err (cli_syntax ''wiilandd: --ipc-socket requires a path'')
             | path # rest' \<Rightarrow> bind_outcome (set_ipc_path path p) (\<lambda>p. Ok (p, rest'))))"
    unfolding pass1_step_def 
    by (cases b) (use sock in \<open>simp_all only: one b_def [symmetric] d_def [symmetric] option.case if_False if_True simp_thms\<close>)
  show ?thesis using assms(2) unfolding eq
    by (cases b; cases rest) (auto simp: bind_outcome_eq_Ok dest: set_ipc_path_action)
qed

lemma noticed_step:
  assumes "noticed arg" "pass1_step arg rest p = Ok (p1, r1)" "pass2_step arg rest out = Ok (o1, q1)"
    "cl_action out = p1_action p"
  shows "cl_action o1 = p1_action p1 \<and> r1 = q1 \<and> q1 = (if skips_two arg then tl rest else rest)"
proof (cases "action_option arg")
  case (Some a)
  have "\<not> skips_two arg" using action_disjoint [OF Some] by simp
  then show ?thesis using assms Some
    by (auto simp: pass1_action [OF Some] pass2_step_def Let_def bind_outcome_eq_Ok)
next
  case None
  then have s: "skips_one arg \<or> skips_two arg" using assms(1) by (simp add: noticed_def)
  show ?thesis
  proof (cases "skips_two arg")
    case True
    have "pass2_step arg rest out = Ok (out, drop 1 rest)"
      using None True skips_disjoint [OF True] by (simp add: pass2_step_def Let_def)
    then show ?thesis using pass1_two [OF True assms(2) None] assms(3,4) True by (simp add: drop_Suc)
  next
    case False
    then have one: "skips_one arg" using s by simp
    have "pass2_step arg rest out = Ok (out, rest)" using None one by (simp add: pass2_step_def Let_def)
    then show ?thesis using pass1_one [OF one False assms(2) None] assms(3,4) False by simp
  qed
qed

lemma passes_step:
  assumes "pass1_loop args p = Ok p'" "pass2_loop args out = Ok out'" "separated args" "cl_action out = p1_action p"
  shows "cl_action out' = p1_action p'"
  using assms
proof (induction args arbitrary: p out rule: separated.induct)
  case (2 arg rest)
  obtain p1 r1 where s1: "pass1_step arg rest p = Ok (p1, r1)" "pass1_loop r1 p1 = Ok p'"
    using 2(4) by (auto split: outcome.splits)
  obtain o1 q1 where s2: "pass2_step arg rest out = Ok (o1, q1)" "pass2_loop q1 o1 = Ok out'"
    using 2(5) by (auto split: outcome.splits)
  show ?case
  proof (cases "takes_value arg")
    case True
    obtain v where v: "rest = v # q1" "cl_action o1 = cl_action out" using pass2_value [OF True s2(1)] by blast
    have a: "p1 = p" "r1 = rest" using unnoticed_pass1 [OF value_not_noticed [OF True], of rest p] s1(1) by simp_all
    have sep: "\<not> noticed v" "separated q1" using 2(6) True v(1) by simp_all
    have "pass1_loop q1 p = Ok p'" using s1(2) a v(1) unnoticed_pass1 [OF sep(1), of q1 p] by simp
    then show ?thesis using 2(1) [OF True, of p o1] v s2(2) sep 2(7) by simp
  next
    case nv: False
    show ?thesis
    proof (cases "noticed arg")
      case False
      have a: "p1 = p" "r1 = rest" using unnoticed_pass1 [OF False, of rest p] s1(1) by simp_all
      have b: "q1 = rest" "cl_action o1 = cl_action out" using pass2_other [OF nv False s2(1)] by simp_all
      have "\<not> skips_two arg" using False by (simp add: noticed_def)
      then show ?thesis using 2(3) [OF nv, of p o1] a b s1(2) s2(2) 2(6,7) nv by simp
    next
      case True
      note n = noticed_step [OF True s1(1) s2(1) 2(7)]
      show ?thesis
      proof (cases "skips_two arg")
        case two: True
        then show ?thesis using 2(2) [OF nv two, of p1 o1] n s1(2) s2(2) 2(6) nv by simp
      next
        case False
        then show ?thesis using 2(3) [OF nv False, of p1 o1] n s1(2) s2(2) 2(6) nv by simp
      qed
    qed
  qed
qed simp

text \<open>
  C36. The two passes over the command line agree on the action, so the configuration is loaded for the
  action that runs, whenever no option is given a value that is itself a word the first pass reacts to.
\<close>
theorem passes_agree:
  assumes "parse_pass1 args = Ok p" "parse_pass2 args c p = Ok out" "separated args"
  shows "cl_action out = p1_action p"
proof -
  obtain p0 where p0: "pass1_loop args p0 = Ok p" "p1_action p0 = ActRun"
    using assms(1) by (auto simp: parse_pass1_def bind_outcome_eq_Ok split: if_splits)
  have l: "pass2_loop args (cli_start c p) = Ok out"
    using assms(2) by (auto simp: parse_pass2_def bind_outcome_eq_Ok config_syntax_Ok validated_Ok)
  show ?thesis by (rule passes_step [OF p0(1) l assms(3)]) (simp add: cli_start_def p0(2))
qed

lemma default_validated: "validated Config_default = Ok Config_default"
  by (simp add: validated_Ok Config_validate_None Config_default_ok)

lemmas cli_eval = cli_parse_def valid_utf8_def utf8_width_def parse_pass1_def pass1_step_def strip_prefix_def
  starts_with_def action_option_def requested_action_def diagnostic_without_config_def parse_pass2_def
  default_validated config_syntax_def cli_start_def pass2_step_def skips_one_def skips_two_def

text \<open>
  Without that condition they do not: the value \<open>--list\<close> of \<open>--device\<close> makes the first pass believe that a
  list is asked for, so that the daemon runs on the default configuration, whatever the files hold.
\<close>
theorem device_value_taken_as_action:
  "\<exists>out. cli_parse read env [''wiilandd'', ''--device'', ''--list''] = Ok out
    \<and> cl_action out = ActRun \<and> cl_device out = Some ''--list'' \<and> cl_config out = Config_default"
  by (simp add: cli_eval)

section \<open>Witnesses\<close>

lemma sample_line:
  "\<exists>p out. parse_pass1 [''--dump-config''] = Ok p \<and> parse_pass2 [''--dump-config''] Config_default p = Ok out
    \<and> separated [''--dump-config'']"
  by (simp add: cli_eval takes_value_def value_options_def)

lemma passes_agree_witness:
  "\<exists>p out. parse_pass1 [''--dump-config''] = Ok p \<and> parse_pass2 [''--dump-config''] Config_default p = Ok out
    \<and> cl_action out = p1_action p"
  using sample_line passes_agree by blast

lemma command_line_consistent_witness:
  "\<exists>out. cli_parse (\<lambda>_. Inr []) (\<lambda>_. None) [''wiilandd'', ''--help''] = Ok out \<and> Config_validate (cl_config out) = None"
proof -
  obtain out where "cli_parse (\<lambda>_. Inr []) (\<lambda>_. None) [''wiilandd'', ''--help''] = Ok out"
    by (simp add: cli_eval)
  then show ?thesis using command_line_consistent by blast
qed

end
