(* ===== verification/Editor.thy ===== *)
theory Editor
  imports Platform Cli Calibration Ipc_Reader
begin

text \<open>
  The configuration editor, without its drawing: the model of \<open>crates/wiiland-config/src/model.rs\<close>, the
  worker that loads and saves (\<open>config_task.rs\<close>), the calibration samples of \<open>live.rs\<close>, the arguments and
  results of processes (\<open>process.rs\<close>), and the operations of the control centre that start and finish
  them (\<open>ui.rs\<close>). What processes, the file system and channels answer is an argument. Target paths compare
  by components, as \<open>PathBuf\<close> does; revisions and identifiers are 64-bit words that wrap.
\<close>

section \<open>The activity log\<close>

definition OUTPUT_BLOCK_LIMIT :: nat where "OUTPUT_BLOCK_LIMIT = 10000"
definition OUTPUT_BLOCK_BYTE_LIMIT :: nat where "OUTPUT_BLOCK_BYTE_LIMIT = 1024"

record output_buffer =
  ob_blocks :: "string list"
  ob_bytes :: nat

definition OutputBuffer_new :: output_buffer where
  "OutputBuffer_new = \<lparr>ob_blocks = [], ob_bytes = 0\<rparr>"

definition is_char_boundary :: "bytes \<Rightarrow> nat \<Rightarrow> bool" where
  "is_char_boundary s i \<longleftrightarrow> i = 0 \<or> i = length s \<or> i < length s \<and> \<not> utf8_cont (of_char (s ! i))"

text \<open>The loop that steps back to a boundary.\<close>

primrec block_end :: "bytes \<Rightarrow> nat \<Rightarrow> nat" where
  "block_end s 0 = 0"
| "block_end s (Suc n) = (if is_char_boundary s (Suc n) then Suc n else block_end s n)"

text \<open>The blocks of a line; no block would be cut from a remainder that starts in the middle of a character.\<close>

partial_function (option) line_blocks :: "bytes \<Rightarrow> string list option" where
  "line_blocks s =
    (if s = [] then Some []
     else let e = block_end s (min (length s) OUTPUT_BLOCK_BYTE_LIMIT)
       in Option.bind (line_blocks (drop e s)) (\<lambda>bs. Some (take e s # bs)))"

function drop_oldest :: "output_buffer \<Rightarrow> output_buffer" where
  "drop_oldest buf =
    (if OUTPUT_BLOCK_LIMIT < length (ob_blocks buf) then
       drop_oldest \<lparr>ob_blocks = tl (ob_blocks buf), ob_bytes = ob_bytes buf - length (hd (ob_blocks buf))\<rparr>
     else buf)"
  by pat_completeness auto
termination by (relation "measure (\<lambda>buf. length (ob_blocks buf))") auto

declare drop_oldest.simps [simp del]

definition push_blocks :: "string list \<Rightarrow> output_buffer \<Rightarrow> output_buffer" where
  "push_blocks bs buf = \<lparr>ob_blocks = ob_blocks buf @ bs, ob_bytes = ob_bytes buf + length (concat bs)\<rparr>"

definition output_append :: "string \<Rightarrow> output_buffer \<Rightarrow> output_buffer option" where
  "output_append s buf =
    (if s = [] then Some buf
     else map_option (\<lambda>bs. drop_oldest (push_blocks (concat bs) buf)) (those (map line_blocks (split_inclusive s))))"

definition output_clear :: "output_buffer \<Rightarrow> output_buffer" where
  "output_clear buf = OutputBuffer_new"

definition block_count :: "output_buffer \<Rightarrow> nat" where
  "block_count buf = length (ob_blocks buf)"

definition as_text :: "output_buffer \<Rightarrow> string" where
  "as_text buf = concat (ob_blocks buf)"

section \<open>Transactions\<close>

datatype transaction_kind = TxLoad | TxSave

record transaction =
  tx_id :: "64 word"
  tx_kind :: transaction_kind
  tx_revision :: "64 word"
  tx_target :: string
  tx_captured :: bytes

record calibration_transaction =
  ct_id :: "64 word"
  ct_revision :: "64 word"
  ct_target :: string
  ct_daemon :: string
  ct_captured :: config

datatype config_value = CvLoaded config | CvSaved

datatype failure_stage =
    StPreparation | StLoad | StParsing | StValidation | StPersistence | StCancelled | StWorker

fun failure_stage_name :: "failure_stage \<Rightarrow> string" where
  "failure_stage_name StPreparation = ''Preparation''"
| "failure_stage_name StLoad = ''Load''"
| "failure_stage_name StParsing = ''Parsing''"
| "failure_stage_name StValidation = ''Validation''"
| "failure_stage_name StPersistence = ''Persistence''"
| "failure_stage_name StCancelled = ''Cancelled''"
| "failure_stage_name StWorker = ''Worker''"

record config_failure =
  cf_stage :: failure_stage
  cf_message :: string

definition ConfigFailure_text :: "config_failure \<Rightarrow> string" where
  "ConfigFailure_text e = failure_stage_name (cf_stage e) @ '': '' @ cf_message e"

record completion =
  cp_id :: "64 word"
  cp_kind :: transaction_kind
  cp_revision :: "64 word"
  cp_target :: string
  cp_result :: "config_failure + config_value"

definition Completion_new :: "transaction \<Rightarrow> config_failure + config_value \<Rightarrow> completion" where
  "Completion_new t r = \<lparr>cp_id = tx_id t, cp_kind = tx_kind t, cp_revision = tx_revision t, cp_target = tx_target t, cp_result = r\<rparr>"

datatype apply_completion = Applied | Stale | Failed

section \<open>The model of the form\<close>

record config_model =
  cm_config :: config
  cm_daemon_path :: string
  cm_config_path :: string
  cm_revision :: "64 word"
  cm_dirty :: bool
  cm_transaction :: "transaction option"
  cm_calibration :: "calibration_transaction option"
  cm_next :: "64 word"
  cm_output :: output_buffer

definition ConfigModel_new :: "string \<Rightarrow> config_model" where
  "ConfigModel_new path = \<lparr>cm_config = Config_default, cm_daemon_path = ''wiilandd'', cm_config_path = path,
    cm_revision = 0, cm_dirty = False, cm_transaction = None, cm_calibration = None, cm_next = 0,
    cm_output = OutputBuffer_new\<rparr>"

definition daemon_program :: "config_model \<Rightarrow> string" where
  "daemon_program m = (let t = str_trim (cm_daemon_path m) in if t = [] then ''wiilandd'' else t)"

text \<open>\<open>cwd\<close>: the current directory, empty when there is none.\<close>

definition normalize_path :: "string \<Rightarrow> string \<Rightarrow> string" where
  "normalize_path cwd path = (if is_absolute path then path else path_join cwd path)"

definition is_explicit_target :: "(string \<Rightarrow> string option) \<Rightarrow> string \<Rightarrow> string \<Rightarrow> bool" where
  "is_explicit_target env cwd path \<longleftrightarrow>
    \<not> path_eq (normalize_path cwd path)
        (case user_config_path env of Some p \<Rightarrow> normalize_path cwd p | None \<Rightarrow> [])"

definition mark_dirty :: "config_model \<Rightarrow> config_model" where
  "mark_dirty m = m\<lparr>cm_revision := cm_revision m + 1, cm_dirty := True\<rparr>"

definition set_path :: "string \<Rightarrow> config_model \<Rightarrow> config_model" where
  "set_path path m =
    (if path_eq (cm_config_path m) path then m
     else m\<lparr>cm_config_path := path, cm_revision := cm_revision m + 1\<rparr>)"

definition begin_transaction :: "transaction_kind \<Rightarrow> bytes \<Rightarrow> config_model \<Rightarrow> transaction option \<times> config_model" where
  "begin_transaction kind captured m =
    (if cm_transaction m \<noteq> None then (None, m)
     else let next_id = cm_next m + 1;
              t = \<lparr>tx_id = next_id, tx_kind = kind, tx_revision = cm_revision m, tx_target = cm_config_path m,
                   tx_captured = captured\<rparr>
       in (Some t, m\<lparr>cm_next := next_id, cm_transaction := Some t\<rparr>))"

definition begin_calibration :: "config_model \<Rightarrow> calibration_transaction option \<times> config_model" where
  "begin_calibration m =
    (if cm_calibration m \<noteq> None then (None, m)
     else let next_id = cm_next m + 1;
              t = \<lparr>ct_id = next_id, ct_revision = cm_revision m, ct_target = cm_config_path m,
                   ct_daemon = daemon_program m, ct_captured = cm_config m\<rparr>
       in (Some t, m\<lparr>cm_next := next_id, cm_calibration := Some t\<rparr>))"

definition calibration_eq :: "calibration_transaction \<Rightarrow> calibration_transaction \<Rightarrow> bool" where
  "calibration_eq s t \<longleftrightarrow> ct_id s = ct_id t \<and> ct_revision s = ct_revision t \<and> path_eq (ct_target s) (ct_target t)
    \<and> ct_daemon s = ct_daemon t \<and> ct_captured s = ct_captured t"

definition finish_calibration :: "calibration_transaction \<Rightarrow> config_model \<Rightarrow> bool \<times> config_model" where
  "finish_calibration t m =
    (case cm_calibration m of
       None \<Rightarrow> (False, m)
     | Some active \<Rightarrow>
         if \<not> calibration_eq active t then (False, m)
         else (cm_revision m = ct_revision active \<and> path_eq (cm_config_path m) (ct_target active)
                 \<and> daemon_program m = ct_daemon active \<and> cm_config m = ct_captured active,
               m\<lparr>cm_calibration := None\<rparr>))"

definition owns :: "config_model \<Rightarrow> completion \<Rightarrow> bool" where
  "owns m c = (case cm_transaction m of
     None \<Rightarrow> False
   | Some t \<Rightarrow> tx_id t = cp_id c \<and> tx_kind t = cp_kind c \<and> tx_revision t = cp_revision c \<and> path_eq (tx_target t) (cp_target c))"

definition finish_transaction :: "completion \<Rightarrow> config_model \<Rightarrow> apply_completion \<times> config_model" where
  "finish_transaction c m =
    (case cm_transaction m of
       None \<Rightarrow> (Stale, m)
     | Some active \<Rightarrow>
         if \<not> owns m c then (Stale, m)
         else let m' = m\<lparr>cm_transaction := None\<rparr>;
                  current = (cm_revision m = tx_revision active \<and> path_eq (cm_config_path m) (tx_target active))
           in case (tx_kind active, cp_result c) of
             (TxLoad, Inr (CvLoaded config)) \<Rightarrow>
               if \<not> current then (Stale, m') else (Applied, m'\<lparr>cm_config := config, cm_dirty := False\<rparr>)
           | (TxSave, Inr CvSaved) \<Rightarrow>
               if current then (Applied, m'\<lparr>cm_dirty := False\<rparr>) else (Stale, m')
           | _ \<Rightarrow> (Failed, m'))"

definition render_config :: "config \<Rightarrow> bytes" where
  "render_config c = ''# Generated by wiiland-config.'' @ [newline] @ Config_dump c"

definition parse_config_bytes :: "bytes \<Rightarrow> (config, config_error) outcome" where
  "parse_config_bytes b = parse_bytes ''daemon-output'' b"

text \<open>The message of the first thing wrong with the form.\<close>

definition bad_rule_text :: "string \<Rightarrow> bool" where
  "bad_rule_text s \<longleftrightarrow> str_trim s = [] \<or> list_ex (\<lambda>c. c = CHR ''#'' \<or> c = CHR ''='' \<or> c = newline \<or> c = CHR 0x0D) s"

definition validate_form :: "config_model \<Rightarrow> string option" where
  "validate_form m =
    (case Config_validate (cm_config m) of
       Some e \<Rightarrow> Some (ConfigError_text e)
     | None \<Rightarrow>
         if MAX_DEVICE_RULES < length (cfg_device_rules (cm_config m)) then Some ''too many device rules''
         else if list_ex (\<lambda>r. bad_rule_text (rule_match_text r)) (cfg_device_rules (cm_config m))
           then Some ''rule match text cannot contain #, =, or line breaks''
         else None)"

text \<open>Only a text that is not UTF-8, which a \<open>String\<close> never is, could leave the log's loop without an end.\<close>

definition append_output :: "string \<Rightarrow> config_model \<Rightarrow> config_model" where
  "append_output s m = (case output_append s (cm_output m) of Some buf \<Rightarrow> m\<lparr>cm_output := buf\<rparr> | None \<Rightarrow> m)"

section \<open>Processes\<close>

record process_result =
  pr_success :: bool
  pr_code :: "int option"
  pr_stdout :: bytes
  pr_stderr :: bytes
  pr_error :: "string option"

definition process_unavailable :: "string \<Rightarrow> process_result" where
  "process_unavailable e = \<lparr>pr_success = False, pr_code = None, pr_stdout = [], pr_stderr = [], pr_error = Some e\<rparr>"

definition service_args :: "string \<Rightarrow> string list" where
  "service_args action = [''--user'', action, ''wiilandd.service'']"

definition configured_args :: "string \<Rightarrow> string \<Rightarrow> string option \<Rightarrow> string list \<Rightarrow> string list" where
  "configured_args cwd model_path default_path args =
    (let explicit = (case default_path of
           Some d \<Rightarrow> \<not> path_eq (normalize_path cwd model_path) (normalize_path cwd d) | None \<Rightarrow> True)
     in if explicit then [''--config'', lossy model_path] @ args else args)"

text \<open>\<open>{:?}\<close> of an exit code.\<close>

definition code_debug :: "int option \<Rightarrow> string" where
  "code_debug c = (case c of None \<Rightarrow> ''None'' | Some n \<Rightarrow> ''Some('' @ dec_int n @ '')'')"

section \<open>The worker that loads and saves\<close>

datatype config_event =
    EvCommand string "string list" | EvStdout bytes | EvStderr bytes | EvOmitted nat | EvFinished completion

datatype try_sent = SentOk | SentFull | SentClosed

definition USIZE_MAX :: nat where "USIZE_MAX = 2 ^ 64 - 1"

definition cancelled_failure :: config_failure where
  "cancelled_failure = \<lparr>cf_stage = StCancelled, cf_message = ''Configuration operation cancelled''\<rparr>"

definition closed_failure :: config_failure where
  "closed_failure = \<lparr>cf_stage = StCancelled, cf_message = ''Configuration consumer closed''\<rparr>"

definition forward_output :: "try_sent \<Rightarrow> nat \<Rightarrow> nat \<Rightarrow> config_failure option \<times> nat" where
  "forward_output sent n omitted =
    (case sent of
       SentOk \<Rightarrow> (None, omitted)
     | SentFull \<Rightarrow> (None, min USIZE_MAX (omitted + n))
     | SentClosed \<Rightarrow> (Some closed_failure, omitted))"

text \<open>What \<open>recv_timeout\<close> of the process gives, with the fate of the output passed on.\<close>

datatype process_turn =
    TurnStdout bytes try_sent | TurnStderr bytes try_sent | TurnFinished process_result | TurnTimeout | TurnGone

definition process_outcome :: "failure_stage \<Rightarrow> process_result \<Rightarrow> config_failure + process_result" where
  "process_outcome stage r =
    (if pr_success r then Inr r
     else Inl \<lparr>cf_stage = stage, cf_message = (case pr_error r of
        Some e \<Rightarrow> e
      | None \<Rightarrow> ''Daemon command failed (exit '' @ code_debug (pr_code r) @ ''): '' @ str_trim (lossy (pr_stderr r)))\<rparr>)"

text \<open>Each turn comes with the cancellation flag read before it; no turn left means still waiting.\<close>

fun run_process ::
  "failure_stage \<Rightarrow> (bool \<times> process_turn) list \<Rightarrow> nat \<Rightarrow> ((config_failure + process_result) \<times> nat) option" where
  "run_process stage [] omitted = None"
| "run_process stage ((stop, turn) # turns) omitted =
    (if stop then Some (Inl cancelled_failure, omitted)
     else case turn of
       TurnStdout b sent \<Rightarrow>
         (case forward_output sent (length b) omitted of
            (Some e, n) \<Rightarrow> Some (Inl e, n) | (None, n) \<Rightarrow> run_process stage turns n)
     | TurnStderr b sent \<Rightarrow>
         (case forward_output sent (length b) omitted of
            (Some e, n) \<Rightarrow> Some (Inl e, n) | (None, n) \<Rightarrow> run_process stage turns n)
     | TurnFinished r \<Rightarrow> Some (process_outcome stage r, omitted)
     | TurnTimeout \<Rightarrow> run_process stage turns omitted
     | TurnGone \<Rightarrow>
         Some (Inl \<lparr>cf_stage = StWorker, cf_message = ''Configuration subprocess worker disconnected''\<rparr>, omitted))"

text \<open>
  The answers a worker gets: the flag at its three checks, the error of preparing the temporary file and
  its path, whether the command could be announced, the turns of the process, the error of the rename.
\<close>

record task_env =
  te_stop1 :: bool
  te_stop2 :: bool
  te_stop3 :: bool
  te_prepared :: "string option"
  te_temporary :: string
  te_announced :: bool
  te_turns :: "(bool \<times> process_turn) list"
  te_renamed :: "string option"

definition config_task_args :: "task_env \<Rightarrow> string \<Rightarrow> string option \<Rightarrow> transaction \<Rightarrow> string list" where
  "config_task_args env cwd default_path t =
    (case tx_kind t of
       TxLoad \<Rightarrow> configured_args cwd (tx_target t) default_path [''--dump-config'']
     | TxSave \<Rightarrow> [''--check-config'', ''--config'', lossy (te_temporary env)])"

text \<open>
  The result, the omitted bytes, and whether the captured bytes are now the target file. No result: the
  process still runs, or the worker panicked while parsing.
\<close>

definition config_task_run ::
  "task_env \<Rightarrow> transaction \<Rightarrow> ((config_failure + config_value) \<times> nat \<times> bool) option" where
  "config_task_run env t =
    (if te_stop1 env then Some (Inl cancelled_failure, 0, False)
     else case (tx_kind t, te_prepared env) of
       (TxSave, Some e) \<Rightarrow> Some (Inl \<lparr>cf_stage = StPreparation, cf_message = e\<rparr>, 0, False)
     | _ \<Rightarrow>
       if te_stop2 env then Some (Inl cancelled_failure, 0, False)
       else if \<not> te_announced env then Some (Inl closed_failure, 0, False)
       else (case run_process (case tx_kind t of TxLoad \<Rightarrow> StLoad | TxSave \<Rightarrow> StValidation) (te_turns env) 0 of
           None \<Rightarrow> None
         | Some (Inl e, n) \<Rightarrow> Some (Inl e, n, False)
         | Some (Inr r, n) \<Rightarrow>
             if te_stop3 env then Some (Inl cancelled_failure, n, False)
             else (case tx_kind t of
                 TxSave \<Rightarrow>
                   (case te_renamed env of
                      Some e \<Rightarrow> Some (Inl \<lparr>cf_stage = StPersistence, cf_message = e\<rparr>, n, False)
                    | None \<Rightarrow> Some (Inr CvSaved, n, True))
               | TxLoad \<Rightarrow>
                   (case parse_config_bytes (pr_stdout r) of
                      Ok c \<Rightarrow> Some (Inr (CvLoaded c), n, False)
                    | Err e \<Rightarrow> Some (Inl \<lparr>cf_stage = StParsing, cf_message = ConfigError_text e\<rparr>, n, False)
                    | Panic \<Rightarrow> None))))"

section \<open>Calibration\<close>

record calibration_result =
  cr_accel :: "sensor_calibration option"
  cr_motion :: "sensor_calibration option"

record calibration_samples =
  cs_accel :: calibration_stats
  cs_motion :: calibration_stats

definition samples_new :: calibration_samples where
  "samples_new = \<lparr>cs_accel = CalibrationStats_new, cs_motion = CalibrationStats_new\<rparr>"

definition wire_sample :: "wire_axis3 \<Rightarrow> int \<times> int \<times> int" where
  "wire_sample v = (wa_x v, wa_y v, wa_z v)"

definition samples_observe :: "notification \<Rightarrow> calibration_samples \<Rightarrow> string + calibration_samples" where
  "samples_observe note s =
    (case note of
       NoteInput _ _ _ payload \<Rightarrow>
         (case payload of
            PlAccel v \<Rightarrow> Inr (s\<lparr>cs_accel := stats_add (cs_accel s) (wire_sample v)\<rparr>)
          | PlMotionPlus v \<Rightarrow> Inr (s\<lparr>cs_motion := stats_add (cs_motion s) (wire_sample v)\<rparr>)
          | PlWatch \<Rightarrow> Inl ''Device interfaces changed during calibration; capture again''
          | PlGone \<Rightarrow> Inl ''Device interfaces changed during calibration; capture again''
          | _ \<Rightarrow> Inr s)
     | NoteDeviceRemoved _ syspath _ \<Rightarrow> Inl (''Device disconnected: '' @ syspath)
     | _ \<Rightarrow> Inr s)"

definition samples_finish :: "calibration_samples \<Rightarrow> string + calibration_result" where
  "samples_finish s =
    (let r = \<lparr>cr_accel = stats_finish (cs_accel s), cr_motion = stats_finish (cs_motion s)\<rparr>
     in if cr_accel r = None \<and> cr_motion r = None
        then Inl ''No stable sensor samples; keep the controller still and capture again'' else Inr r)"

definition decode_calibration :: "bytes \<Rightarrow> (calibration_result, string) outcome" where
  "decode_calibration b =
    (case parse_bytes ''calibration-output'' b of
       Err e \<Rightarrow> Err (ConfigError_text e)
     | Panic \<Rightarrow> Panic
     | Ok c \<Rightarrow>
         if cfg_aim_accel_zero c = None \<and> cfg_aim_motion_plus_bias c = None
         then Err ''Capture returned no complete sensor calibration''
         else Ok \<lparr>cr_accel = cfg_aim_accel_zero c, cr_motion = cfg_aim_motion_plus_bias c\<rparr>)"

section \<open>The control centre\<close>

datatype validation_kind = VkTrace | VkCalibration

datatype service_action = SaRestart

record validation_task =
  vt_kind :: validation_kind
  vt_cancelled :: bool
  vt_direct :: bool
  vt_calibration :: "(calibration_transaction \<times> string) option"

record control_center =
  cc_model :: config_model
  cc_task :: "(transaction \<times> bool) option"
  cc_service :: "string option"
  cc_pending :: "service_action option"
  cc_validation :: "validation_task option"
  cc_output_open :: bool
  cc_reload_confirmation :: bool
  cc_service_status :: string
  cc_status :: string
  cc_trace_device :: string
  cc_direct :: bool

definition ellipsis :: string where "ellipsis = [CHR 0xE2, CHR 0x80, CHR 0xA6]"
definition middle_dot :: string where "middle_dot = [CHR 0xC2, CHR 0xB7]"

definition ControlCenter_new :: "config_model \<Rightarrow> control_center" where
  "ControlCenter_new m = \<lparr>cc_model = m, cc_task = None, cc_service = None, cc_pending = None, cc_validation = None,
    cc_output_open = False, cc_reload_confirmation = False, cc_service_status = ''Checking'' @ ellipsis,
    cc_status = ''Ready'', cc_trace_device = [], cc_direct = False\<rparr>"

definition update_model :: "(config_model \<Rightarrow> config_model) \<Rightarrow> control_center \<Rightarrow> control_center" where
  "update_model f cc = cc\<lparr>cc_model := f (cc_model cc)\<rparr>"

subsection \<open>Loading and saving\<close>

definition begin_load :: "control_center \<Rightarrow> control_center" where
  "begin_load cc =
    (if cc_task cc \<noteq> None then cc
     else case begin_transaction TxLoad [] (cc_model cc) of
       (None, m) \<Rightarrow> cc\<lparr>cc_model := m\<rparr>
     | (Some t, m) \<Rightarrow>
         cc\<lparr>cc_model := m, cc_task := Some (t, False), cc_status := ''Loading effective configuration''\<rparr>)"

definition begin_save :: "bool \<Rightarrow> control_center \<Rightarrow> control_center" where
  "begin_save restart cc =
    (if cc_task cc \<noteq> None \<or> validate_form (cc_model cc) \<noteq> None
       then cc\<lparr>cc_status := ''Configuration has validation errors''\<rparr>
     else if cm_config_path (cc_model cc) = [] then cc\<lparr>cc_status := ''Choose a configuration target''\<rparr>
     else case begin_transaction TxSave (render_config (cm_config (cc_model cc))) (cc_model cc) of
       (None, m) \<Rightarrow> cc\<lparr>cc_model := m\<rparr>
     | (Some t, m) \<Rightarrow>
         cc\<lparr>cc_model := m, cc_task := Some (t, restart),
            cc_status := (if restart then ''Validating configuration before save (restart requested)''
                          else ''Validating configuration before save'')\<rparr>)"

text \<open>\<open>replace\<close> of a quote by the four characters a shell needs inside quotes.\<close>

definition quote_arg :: "string \<Rightarrow> string" where
  "quote_arg a = [CHR 0x27] @ concat (map (\<lambda>c. if c = CHR 0x27 then [CHR 0x27, CHR 0x5C, CHR 0x27, CHR 0x27] else [c]) a) @ [CHR 0x27]"

text \<open>Whether some character is white space: one of the sequences \<open>WHITE_SPACE\<close> starts somewhere.\<close>

definition has_white_space :: "string \<Rightarrow> bool" where
  "has_white_space s \<longleftrightarrow> list_ex (\<lambda>i. list_ex (\<lambda>w. starts_with (drop i s) w) WHITE_SPACE) [0..<length s]"

fun join_text :: "string \<Rightarrow> string list \<Rightarrow> string" where
  "join_text sep [] = []"
| "join_text sep [a] = a"
| "join_text sep (a # b # as) = a @ sep @ join_text sep (b # as)"

definition shell_args :: "string list \<Rightarrow> string" where
  "shell_args args = join_text '' '' (map (\<lambda>a. if has_white_space a then quote_arg a else a) args)"

subsection \<open>The service\<close>

text \<open>\<open>capitalize\<close> of the names of actions, which are ASCII.\<close>

definition capitalize :: "string \<Rightarrow> string" where
  "capitalize s = (case s of [] \<Rightarrow> [] | c # r \<Rightarrow>
    (if CHR ''a'' \<le> c \<and> c \<le> CHR ''z'' then char_of ((of_char c :: nat) - 32) else c) # r)"

fun ServiceAction_as_str :: "service_action \<Rightarrow> string" where
  "ServiceAction_as_str SaRestart = ''restart''"

definition request_restart :: "bool \<Rightarrow> service_action option \<Rightarrow> service_action option \<times> service_action option" where
  "request_restart active pending = (if active then (None, Some SaRestart) else (Some SaRestart, None))"

definition dispatch_service_action :: "string \<Rightarrow> control_center \<Rightarrow> control_center" where
  "dispatch_service_action action cc =
    (let cc' = update_model (append_output (''$ systemctl '' @ shell_args (service_args action) @ [newline])) cc
     in cc'\<lparr>cc_service_status := capitalize action @ ellipsis, cc_service := Some action\<rparr>)"

definition start_service_action :: "string \<Rightarrow> control_center \<Rightarrow> control_center" where
  "start_service_action action cc = (if cc_service cc \<noteq> None then cc else dispatch_service_action action cc)"

definition request_restart_after_save :: "control_center \<Rightarrow> control_center" where
  "request_restart_after_save cc =
    (case request_restart (cc_service cc \<noteq> None) (cc_pending cc) of
       (Some a, pending) \<Rightarrow> dispatch_service_action (ServiceAction_as_str a) (cc\<lparr>cc_pending := pending\<rparr>)
     | (None, pending) \<Rightarrow> cc\<lparr>cc_pending := pending, cc_service_status := ''Restart queued'' @ ellipsis\<rparr>)"

definition service_query_status :: "process_result \<Rightarrow> string" where
  "service_query_status r =
    (if \<not> valid_utf8 (pr_stdout r) then ''Unavailable''
     else let s = str_trim (pr_stdout r) in
       if s = ''active'' \<and> pr_success r then ''Running''
       else if s = ''inactive'' \<and> pr_code r = Some 3 then ''Stopped''
       else if s = ''failed'' \<and> pr_code r = Some 3 then ''Failed''
       else if s = ''activating'' then ''Starting''
       else if s = ''deactivating'' then ''Stopping''
       else ''Unavailable'')"

definition append_result_error :: "process_result \<Rightarrow> config_model \<Rightarrow> config_model" where
  "append_result_error r m =
    (case pr_error r of None \<Rightarrow> m | Some e \<Rightarrow> append_output (''process error: '' @ e @ [newline]) m)"

text \<open>\<open>poll_process\<close>: the output that has come, then the result if there is one; \<open>closed\<close>: the channel is.\<close>

datatype process_event = PeStdout bytes | PeStderr bytes | PeFinished process_result

fun poll_process ::
  "process_event list \<Rightarrow> bool \<Rightarrow> config_model \<Rightarrow> process_result option \<times> config_model" where
  "poll_process [] closed m =
    (if closed then Some (process_unavailable ''process result channel closed'') else None, m)"
| "poll_process (PeStdout b # es) closed m = poll_process es closed (append_output (lossy b) m)"
| "poll_process (PeStderr b # es) closed m = poll_process es closed (append_output (lossy b) m)"
| "poll_process (PeFinished r # es) closed m = (Some r, m)"

definition finish_service :: "string \<Rightarrow> process_result \<Rightarrow> control_center \<Rightarrow> control_center" where
  "finish_service action r cc =
    (if action = ''is-active'' then cc\<lparr>cc_service_status := service_query_status r\<rparr>
     else if pr_success r then cc\<lparr>cc_status := ''Service '' @ action @ '' succeeded''\<rparr>
     else cc\<lparr>cc_service_status := ''Unavailable'',
             cc_status := ''Service '' @ action @ '' failed '' @ middle_dot @ '' see activity log'',
             cc_output_open := True\<rparr>)"

definition poll_service :: "process_event list \<Rightarrow> bool \<Rightarrow> control_center \<Rightarrow> control_center" where
  "poll_service events closed cc =
    (case cc_service cc of
       None \<Rightarrow> cc
     | Some action \<Rightarrow>
         (case poll_process events closed (cc_model cc) of
            (None, m) \<Rightarrow> cc\<lparr>cc_model := m\<rparr>
          | (Some r, m) \<Rightarrow>
              (let cc1 = finish_service action r (cc\<lparr>cc_model := append_result_error r m, cc_service := None\<rparr>);
                   cc2 = cc1\<lparr>cc_pending := None\<rparr>
               in case cc_pending cc1 of
                 Some next_action \<Rightarrow> dispatch_service_action (ServiceAction_as_str next_action) cc2
               | None \<Rightarrow>
                   if action \<noteq> ''is-active'' \<and> pr_success r then dispatch_service_action ''is-active'' cc2 else cc2)))"

subsection \<open>The end of a load or a save\<close>

definition event_text :: "config_event \<Rightarrow> string" where
  "event_text e =
    (case e of
       EvCommand program args \<Rightarrow> ''$ '' @ program @ '' '' @ shell_args args @ [newline]
     | EvStdout b \<Rightarrow> lossy b
     | EvStderr b \<Rightarrow> lossy b
     | EvOmitted n \<Rightarrow> [newline] @ ''Configuration log omitted '' @ dec_nat n
         @ '' bytes while the UI was busy; validation results were retained.'' @ [newline]
     | EvFinished c \<Rightarrow> [])"

text \<open>At most 64 events of the task \<open>t\<close>; \<open>closed\<close>: the worker has gone.\<close>

fun take_config_events ::
  "nat \<Rightarrow> config_event list \<Rightarrow> bool \<Rightarrow> transaction \<Rightarrow> config_model \<Rightarrow> completion option \<times> config_event list \<times> config_model" where
  "take_config_events 0 es closed t m = (None, es, m)"
| "take_config_events (Suc n) [] closed t m =
    (if closed then Some (Completion_new t (Inl \<lparr>cf_stage = StWorker, cf_message = ''Configuration worker disconnected''\<rparr>))
     else None, [], m)"
| "take_config_events (Suc n) (e # es) closed t m =
    (case e of
       EvFinished c \<Rightarrow> (Some c, es, m)
     | _ \<Rightarrow> take_config_events n es closed t (append_output (event_text e) m))"

definition completion_status :: "transaction_kind \<Rightarrow> completion \<Rightarrow> apply_completion \<Rightarrow> string" where
  "completion_status kind c outcome =
    (case (outcome, kind) of
       (Applied, TxLoad) \<Rightarrow> ''Configuration loaded''
     | (Applied, TxSave) \<Rightarrow> ''Configuration saved''
     | (Stale, TxLoad) \<Rightarrow> ''Load discarded because the form or target changed''
     | (Stale, TxSave) \<Rightarrow> ''Captured configuration saved; newer edits or target remain unchanged''
     | (Failed, _) \<Rightarrow> (case cp_result c of
         Inl e \<Rightarrow> ''Configuration operation failed: '' @ ConfigFailure_text e
       | Inr _ \<Rightarrow> ''Configuration operation returned an unexpected result''))"

definition finish_config_task ::
  "(string \<Rightarrow> string option) \<Rightarrow> string \<Rightarrow> transaction \<Rightarrow> bool \<Rightarrow> completion \<Rightarrow> control_center \<Rightarrow> control_center" where
  "finish_config_task env cwd t restart_after c cc =
    (let restart = (restart_after \<and> tx_kind t = TxSave \<and> \<not> is_explicit_target env cwd (tx_target t));
         m = (case cp_result c of
                Inl e \<Rightarrow> append_output (''Configuration error: '' @ ConfigFailure_text e @ [newline]) (cc_model cc)
              | Inr _ \<Rightarrow> cc_model cc)
     in case finish_transaction c m of
       (outcome, m') \<Rightarrow>
         (let cc' = cc\<lparr>cc_model := m', cc_task := None, cc_status := completion_status (tx_kind t) c outcome,
                       cc_output_open := (outcome = Failed \<or> cc_output_open cc)\<rparr>
          in if restart \<and> outcome = Applied then request_restart_after_save cc' else cc'))"

definition poll_config_task ::
  "(string \<Rightarrow> string option) \<Rightarrow> string \<Rightarrow> config_event list \<Rightarrow> bool \<Rightarrow> control_center \<Rightarrow> config_event list \<times> control_center" where
  "poll_config_task env cwd events closed cc =
    (case cc_task cc of
       None \<Rightarrow> (events, cc)
     | Some (t, restart_after) \<Rightarrow>
         (case take_config_events 64 events closed t (cc_model cc) of
            (None, es, m) \<Rightarrow> (es, cc\<lparr>cc_model := m\<rparr>)
          | (Some c, es, m) \<Rightarrow> (es, finish_config_task env cwd t restart_after c (cc\<lparr>cc_model := m\<rparr>))))"

subsection \<open>Calibrating\<close>

datatype capture_result = TraceStopped | Calibrated calibration_result

definition start_calibration :: "(string \<Rightarrow> string option) \<Rightarrow> string \<Rightarrow> control_center \<Rightarrow> control_center" where
  "start_calibration env cwd cc =
    (if cc_validation cc \<noteq> None
       then cc\<lparr>cc_status := ''Wait for the current trace or calibration capture to finish''\<rparr>
     else case begin_calibration (cc_model cc) of
       (None, m) \<Rightarrow> cc\<lparr>cc_model := m, cc_status := ''Another calibration transaction is already running''\<rparr>
     | (Some t, m) \<Rightarrow>
         (let device = str_trim (cc_trace_device cc);
              args = configured_args cwd (ct_target t) (user_config_path env)
                ([''--calibrate-aim'', ''--aim-calibration-duration'', dec_int (cfg_aim_calibration_duration (ct_captured t))]
                 @ (if device = [] then [] else [''--device'', device]));
              m' = (if cc_direct cc then append_output (''$ '' @ ct_daemon t @ '' '' @ shell_args args @ [newline]) m else m)
          in cc\<lparr>cc_model := m',
                cc_validation := Some \<lparr>vt_kind = VkCalibration, vt_cancelled = False, vt_direct = cc_direct cc,
                  vt_calibration = Some (t, device)\<rparr>,
                cc_output_open := True, cc_status := ''Calibration running''\<rparr>))"

definition stop_capture :: "control_center \<Rightarrow> control_center" where
  "stop_capture cc =
    (case cc_validation cc of
       None \<Rightarrow> cc
     | Some task \<Rightarrow> cc\<lparr>cc_validation := Some (task\<lparr>vt_cancelled := True\<rparr>), cc_status := ''Stopping capture'' @ ellipsis\<rparr>)"

definition decode_capture_result :: "process_result \<Rightarrow> validation_kind \<Rightarrow> (capture_result, string) outcome" where
  "decode_capture_result r kind =
    (if \<not> pr_success r then
       Err (case pr_error r of Some e \<Rightarrow> e | None \<Rightarrow> ''Capture process failed (exit '' @ code_debug (pr_code r) @ '')'')
     else if kind = VkTrace then Ok TraceStopped
     else bind_outcome (decode_calibration (pr_stdout r)) (\<lambda>c. Ok (Calibrated c)))"

text \<open>The values a calibration brings, when it is still wanted.\<close>

definition apply_calibration :: "calibration_result \<Rightarrow> config_model \<Rightarrow> config_model" where
  "apply_calibration v m =
    (let c = cm_config m;
         c1 = (case cr_accel v of None \<Rightarrow> c | Some a \<Rightarrow> c\<lparr>cfg_aim_accel_zero := Some a\<rparr>);
         c2 = (case cr_motion v of None \<Rightarrow> c1 | Some b \<Rightarrow> c1\<lparr>cfg_aim_motion_plus_bias := Some b\<rparr>)
     in mark_dirty (m\<lparr>cm_config := c2\<rparr>))"

definition complete_calibration ::
  "calibration_transaction \<Rightarrow> string \<Rightarrow> string + calibration_result \<Rightarrow> control_center \<Rightarrow> control_center" where
  "complete_calibration t device r cc =
    (case finish_calibration t (cc_model cc) of
       (owned, m) \<Rightarrow>
         (case r of
            Inl _ \<Rightarrow> cc\<lparr>cc_model := m, cc_status := ''Calibration failed''\<rparr>
          | Inr v \<Rightarrow>
              if \<not> owned \<or> str_trim (cc_trace_device cc) \<noteq> device
              then cc\<lparr>cc_model := m, cc_status := ''Calibration discarded because the form, target, or capture changed''\<rparr>
              else cc\<lparr>cc_model := apply_calibration v m, cc_status := ''Calibration values applied; save to persist them''\<rparr>))"

text \<open>
  \<open>texts\<close>, \<open>result\<close>: what polling the capture logged and whether it ended. A calibration always carries its
  transaction; without one the source panics.
\<close>

definition poll_validation ::
  "string list \<Rightarrow> (string + capture_result) option \<Rightarrow> control_center \<Rightarrow> control_center option" where
  "poll_validation texts result cc =
    (case cc_validation cc of
       None \<Rightarrow> Some cc
     | Some task \<Rightarrow>
         (let cc1 = cc\<lparr>cc_model := fold append_output texts (cc_model cc)\<rparr>
          in case result of
            None \<Rightarrow> Some cc1
          | Some r \<Rightarrow>
              (let cc2 = cc1\<lparr>cc_validation := None\<rparr>
               in if vt_cancelled task then
                 Some (case vt_calibration task of
                    Some (t, _) \<Rightarrow> cc2\<lparr>cc_model := snd (finish_calibration t (cc_model cc2)), cc_status := ''Capture stopped''\<rparr>
                  | None \<Rightarrow> cc2\<lparr>cc_status := ''Capture stopped''\<rparr>)
               else
                 (let cc3 = (case r of Inl e \<Rightarrow> update_model (append_output (e @ [newline])) cc2 | Inr _ \<Rightarrow> cc2)
                  in case vt_kind task of
                    VkTrace \<Rightarrow> Some (cc3\<lparr>cc_status := (case r of Inr _ \<Rightarrow> ''Trace stopped'' | Inl _ \<Rightarrow> ''Trace failed'')\<rparr>)
                  | VkCalibration \<Rightarrow>
                      (case vt_calibration task of
                         None \<Rightarrow> None
                       | Some (t, device) \<Rightarrow>
                           Some (complete_calibration t device
                             (case r of
                                Inl e \<Rightarrow> Inl e
                              | Inr (Calibrated v) \<Rightarrow> Inr v
                              | Inr TraceStopped \<Rightarrow> Inl ''Capture returned no calibration'') cc3))))))"

definition request_reload :: "control_center \<Rightarrow> control_center" where
  "request_reload cc = (if cm_dirty (cc_model cc) then cc\<lparr>cc_reload_confirmation := True\<rparr> else begin_load cc)"

text \<open>What the fields of the form do: a change of the configuration, of the target, of the daemon's name.\<close>

definition edit_form :: "(config \<Rightarrow> config) \<Rightarrow> control_center \<Rightarrow> control_center" where
  "edit_form f = update_model (\<lambda>m. mark_dirty (m\<lparr>cm_config := f (cm_config m)\<rparr>))"

definition edit_path :: "string \<Rightarrow> control_center \<Rightarrow> control_center" where
  "edit_path path = update_model (set_path path)"

definition edit_daemon :: "string \<Rightarrow> control_center \<Rightarrow> control_center" where
  "edit_daemon program = update_model (\<lambda>m. m\<lparr>cm_daemon_path := program, cm_revision := cm_revision m + 1\<rparr>)"

end
