(* ===== verification/Editor_Facts.thy ===== *)
theory Editor_Facts
  imports Editor Config_Dump Engine
begin

text \<open>
  What the configuration editor promises: its log stays bounded and keeps the newest output, the form it
  saves reads back as itself, and a save that is reported as applied has written exactly the form on
  the screen.
\<close>

section \<open>Text cut at boundaries\<close>

lemma utf8_rest_cont: "utf8_rest a r \<Longrightarrow> i < length r \<Longrightarrow> utf8_cont (r ! i)"
  by (induction a r rule: utf8_rest.induct)
    (auto simp: utf8_cont_def utf8_second3_def utf8_second4_def less_Suc_eq split: if_splits)

lemma utf8_width_le: "utf8_width a \<le> 4"
  by (simp add: utf8_width_def)

lemma utf8_first: "0 < utf8_width a \<Longrightarrow> \<not> utf8_cont a"
  by (auto simp: utf8_width_def utf8_cont_def split: if_splits)

lemma utf8_append: "utf8_bytes x \<Longrightarrow> utf8_bytes y \<Longrightarrow> utf8_bytes (x @ y)"
proof (induction x rule: utf8_bytes.induct)
  case (2 a r)
  have l: "length (take (utf8_width a - 1) r) = utf8_width a - 1"
    using 2(2) utf8_rest_length [of a "take (utf8_width a - 1) r"] by simp
  then have "utf8_width a - 1 \<le> length r" by simp
  then show ?case using 2 by simp
qed simp

text \<open>A position that does not hold a continuation byte cuts a well-formed text into two.\<close>

lemma utf8_cut:
  "utf8_bytes s \<Longrightarrow> i \<le> length s \<Longrightarrow> i < length s \<longrightarrow> \<not> utf8_cont (s ! i) \<Longrightarrow> utf8_bytes (take i s) \<and> utf8_bytes (drop i s)"
proof (induction s arbitrary: i rule: utf8_bytes.induct)
  case (2 a r)
  let ?w = "utf8_width a - 1"
  have w: "0 < utf8_width a" "utf8_rest a (take ?w r)" "utf8_bytes (drop ?w r)" using 2(2) by simp_all
  then have l: "?w \<le> length r" using utf8_rest_length [OF w(2,1)] by simp
  show ?case
  proof (cases i)
    case 0
    then show ?thesis using 2(2) by simp
  next
    case (Suc j)
    have j: "?w \<le> j"
    proof (rule ccontr)
      assume "\<not> ?w \<le> j"
      then have "j < length (take ?w r)" using l by simp
      then have "utf8_cont (r ! j)" using utf8_rest_cont [OF w(2)] \<open>\<not> ?w \<le> j\<close> by force
      then show False using 2(3,4) Suc \<open>j < length (take ?w r)\<close> by simp
    qed
    have "utf8_bytes (take (j - ?w) (drop ?w r)) \<and> utf8_bytes (drop (j - ?w) (drop ?w r))"
      by (rule 2(1) [OF w(3)]) (use 2(3,4) Suc j l in auto)
    moreover have "take (j - ?w) (drop ?w r) = drop ?w (take j r)" by (simp add: drop_take)
    ultimately show ?thesis using w j l Suc by (simp add: min_def)
  qed
qed simp

lemma valid_cut:
  assumes "valid_utf8 s" "is_char_boundary s i" "i \<le> length s"
  shows "valid_utf8 (take i s) \<and> valid_utf8 (drop i s)"
  using assms utf8_cut [of "map of_char s" i]
  by (cases "i = 0") (auto simp: valid_utf8_def is_char_boundary_def take_map drop_map)

lemma block_end_boundary: "is_char_boundary s (block_end s n)" "block_end s n \<le> n"
  by (induction n) (simp_all add: is_char_boundary_def)

lemma block_end_greatest: "is_char_boundary s k \<Longrightarrow> k \<le> n \<Longrightarrow> k \<le> block_end s n"
  by (induction n) (auto simp: le_Suc_eq)

lemma first_boundary:
  assumes "valid_utf8 s" "s \<noteq> []"
  shows "\<exists>k. 0 < k \<and> k \<le> 4 \<and> k \<le> length s \<and> is_char_boundary s k"
proof -
  obtain a r where s: "map of_char s = (a :: nat) # r" using assms(2) by (cases s) auto
  then have w: "0 < utf8_width a" "utf8_rest a (take (utf8_width a - 1) r)" "utf8_bytes (drop (utf8_width a - 1) r)"
    using assms(1) by (simp_all add: valid_utf8_def)
  have len: "length s = Suc (length r)" using arg_cong [OF s, of length] by simp
  have l: "utf8_width a - 1 \<le> length r" using utf8_rest_length [OF w(2,1)] by simp
  have nth: "of_char (s ! i) = (map of_char s :: nat list) ! i" if "i < length s" for i using that by simp
  have "is_char_boundary s (utf8_width a)"
  proof (cases "drop (utf8_width a - 1) r")
    case Nil
    then have "utf8_width a = length s" using l len w(1) by simp
    then show ?thesis by (simp add: is_char_boundary_def)
  next
    case (Cons b q)
    then have lt: "utf8_width a - 1 < length r" by (metis drop_all list.distinct(1) not_le)
    then have "r ! (utf8_width a - 1) = b" using Cons by (metis hd_drop_conv_nth list.sel(1))
    moreover have "0 < utf8_width b" using w(3) Cons by simp
    ultimately have "\<not> utf8_cont (map of_char s ! utf8_width a)" using s w(1) utf8_first by (simp add: nth_Cons')
    moreover have "utf8_width a < length s" using lt len w(1) by simp
    ultimately show ?thesis using nth [of "utf8_width a"] by (simp only: is_char_boundary_def simp_thms)
  qed
  then show ?thesis using w(1) utf8_width_le [of a] l len by (intro exI [of _ "utf8_width a"]) auto
qed

section \<open>The log\<close>

definition log_block :: "string \<Rightarrow> bool" where
  "log_block b \<longleftrightarrow> b \<noteq> [] \<and> length b \<le> OUTPUT_BLOCK_BYTE_LIMIT \<and> valid_utf8 b"

definition log_ok :: "output_buffer \<Rightarrow> bool" where
  "log_ok buf \<longleftrightarrow> ob_bytes buf = length (as_text buf) \<and> block_count buf \<le> OUTPUT_BLOCK_LIMIT
    \<and> (\<forall>b \<in> set (ob_blocks buf). log_block b)"

lemma line_blocks_returns:
  "valid_utf8 s \<Longrightarrow> \<exists>bs. line_blocks s = Some bs \<and> concat bs = s \<and> (\<forall>b \<in> set bs. log_block b)"
proof (induction s rule: length_induct)
  case (1 s)
  show ?case
  proof (cases "s = []")
    case True
    then show ?thesis by (simp add: line_blocks.simps)
  next
    case False
    define e where "e = block_end s (min (length s) OUTPUT_BLOCK_BYTE_LIMIT)"
    obtain k where k: "0 < k" "k \<le> 4" "k \<le> length s" "is_char_boundary s k"
      using first_boundary [OF 1(2) False] by blast
    then have "k \<le> e" unfolding e_def by (intro block_end_greatest) (simp_all add: OUTPUT_BLOCK_BYTE_LIMIT_def)
    then have pos: "0 < e" using k(1) by simp
    have le: "e \<le> length s" "e \<le> OUTPUT_BLOCK_BYTE_LIMIT"
      using block_end_boundary(2) [of s "min (length s) OUTPUT_BLOCK_BYTE_LIMIT"] by (simp_all add: e_def)
    have v: "valid_utf8 (take e s) \<and> valid_utf8 (drop e s)"
      by (rule valid_cut [OF 1(2) _ le(1)]) (simp add: e_def block_end_boundary)
    obtain bs where bs: "line_blocks (drop e s) = Some bs" "concat bs = drop e s" "\<forall>b \<in> set bs. log_block b"
      using 1(1) v pos False by (metis diff_less length_drop length_greater_0_conv)
    have "line_blocks s = Some (take e s # bs)"
      using False bs(1) by (subst line_blocks.simps) (simp add: e_def [symmetric])
    moreover have "log_block (take e s)" using v le pos False by (simp add: log_block_def)
    ultimately show ?thesis using bs by auto
  qed
qed

lemma split_inclusive_concat: "concat (split_inclusive s) = s"
  by (induction s) (auto split: list.splits)

lemma split_inclusive_line: "newline \<notin> set a \<Longrightarrow> split_inclusive (a @ newline # b) = (a @ [newline]) # split_inclusive b"
  by (induction a) auto

lemma split_inclusive_last: "newline \<notin> set a \<Longrightarrow> a \<noteq> [] \<Longrightarrow> split_inclusive a = [a]"
proof (induction a)
  case (Cons x a)
  then show ?case by (cases "a = []") auto
qed simp

lemma split_inclusive_valid: "valid_utf8 s \<Longrightarrow> \<forall>p \<in> set (split_inclusive s). valid_utf8 p"
proof (induction s rule: length_induct)
  case (1 s)
  show ?case
  proof (cases "newline \<in> set s")
    case True
    then obtain a b where ab: "s = a @ newline # b" "newline \<notin> set a" by (auto dest: split_list_first)
    then have v: "valid_utf8 a" "valid_utf8 b" using 1(2) valid_utf8_split [of newline a b] by simp_all
    have "valid_utf8 (a @ [newline])" using v(1) valid_utf8_suffix [of "[newline]" a] by simp
    have "\<forall>q \<in> set (split_inclusive b). valid_utf8 q" using 1(1) [THEN spec, of b] ab(1) v(2) by simp
    then show ?thesis using ab \<open>valid_utf8 (a @ [newline])\<close> by (auto simp: split_inclusive_line)
  next
    case False
    then show ?thesis using 1(2) by (cases "s = []") (simp_all add: split_inclusive_last)
  qed
qed

lemma lines_blocks_return:
  "list_all valid_utf8 ps \<Longrightarrow> \<exists>bss. those (map line_blocks ps) = Some bss \<and> concat (concat bss) = concat ps
    \<and> (\<forall>b \<in> set (concat bss). log_block b)"
proof (induction ps)
  case (Cons p ps)
  obtain bs where "line_blocks p = Some bs" "concat bs = p" "\<forall>b \<in> set bs. log_block b"
    using line_blocks_returns [of p] Cons.prems by auto
  moreover obtain bss where "those (map line_blocks ps) = Some bss" "concat (concat bss) = concat ps"
      "\<forall>b \<in> set (concat bss). log_block b"
    using Cons by auto
  ultimately show ?case by auto
qed simp

lemma drop_oldest_blocks:
  "ob_blocks (drop_oldest buf) = drop (length (ob_blocks buf) - OUTPUT_BLOCK_LIMIT) (ob_blocks buf)"
proof (induction buf rule: drop_oldest.induct)
  case (1 buf)
  show ?case
  proof (cases "OUTPUT_BLOCK_LIMIT < length (ob_blocks buf)")
    case True
    then show ?thesis using 1 by (simp add: drop_oldest.simps [of buf] drop_Suc [symmetric] tl_drop Suc_diff_Suc)
  qed (simp add: drop_oldest.simps [of buf])
qed

lemma drop_oldest_bytes:
  "ob_bytes buf = length (as_text buf) \<Longrightarrow> ob_bytes (drop_oldest buf) = length (as_text (drop_oldest buf))"
proof (induction buf rule: drop_oldest.induct)
  case (1 buf)
  show ?case
  proof (cases "OUTPUT_BLOCK_LIMIT < length (ob_blocks buf)")
    case True
    then obtain x xs where "ob_blocks buf = x # xs" by (cases "ob_blocks buf") auto
    then show ?thesis using 1 True by (simp add: drop_oldest.simps [of buf] as_text_def)
  qed (use 1 in \<open>simp add: drop_oldest.simps [of buf]\<close>)
qed

text \<open>
  C21. The activity log takes every text, stays within its 10000 blocks of at most 1024 bytes, each of them
  whole characters, and always holds the end of what was written: it loses the oldest blocks only, and only
  when it is full.
\<close>
theorem log_keeps_newest:
  assumes "log_ok buf" "valid_utf8 s"
  shows "\<exists>buf' old. output_append s buf = Some buf' \<and> log_ok buf' \<and> as_text buf @ s = old @ as_text buf'
    \<and> (old = [] \<or> block_count buf' = OUTPUT_BLOCK_LIMIT)"
proof (cases "s = []")
  case True
  then show ?thesis using assms(1) by (intro exI [of _ buf] exI [of _ "[]"]) (simp add: output_append_def)
next
  case False
  have "list_all valid_utf8 (split_inclusive s)" using split_inclusive_valid [OF assms(2)] by (simp add: list_all_iff)
  then obtain bss where b: "those (map line_blocks (split_inclusive s)) = Some bss" "concat (concat bss) = s"
      "\<forall>b \<in> set (concat bss). log_block b"
    using lines_blocks_return [of "split_inclusive s"] by (auto simp: split_inclusive_concat)
  define all where "all = push_blocks (concat bss) buf"
  define k where "k = length (ob_blocks all) - OUTPUT_BLOCK_LIMIT"
  have r: "output_append s buf = Some (drop_oldest all)" using False b(1) by (simp add: output_append_def all_def)
  have a: "as_text all = as_text buf @ s" "ob_bytes all = length (as_text all)" "\<forall>x \<in> set (ob_blocks all). log_block x"
    using assms(1) b(2,3) by (auto simp: all_def push_blocks_def as_text_def log_ok_def)
  have "as_text all = concat (take k (ob_blocks all)) @ as_text (drop_oldest all)"
    by (simp add: as_text_def drop_oldest_blocks k_def flip: concat_append)
  moreover have "log_ok (drop_oldest all)"
    using a(3) drop_oldest_bytes [OF a(2)]
    by (auto simp: log_ok_def block_count_def drop_oldest_blocks dest: in_set_dropD)
  moreover have "concat (take k (ob_blocks all)) = [] \<or> block_count (drop_oldest all) = OUTPUT_BLOCK_LIMIT"
    by (cases "k = 0") (auto simp: block_count_def drop_oldest_blocks k_def)
  ultimately show ?thesis using r a(1) by metis
qed

lemma log_keeps_newest_witness:
  "\<exists>buf'. output_append ''hello'' OutputBuffer_new = Some buf' \<and> log_ok buf' \<and> as_text buf' = ''hello''"
proof -
  have "log_ok OutputBuffer_new" by (simp add: log_ok_def OutputBuffer_new_def as_text_def block_count_def)
  moreover have "valid_utf8 ''hello''" by (simp add: valid_utf8_def utf8_width_def)
  ultimately obtain buf' old where r: "output_append ''hello'' OutputBuffer_new = Some buf'" "log_ok buf'"
      "as_text OutputBuffer_new @ ''hello'' = old @ as_text buf'" "old = [] \<or> block_count buf' = OUTPUT_BLOCK_LIMIT"
    using log_keeps_newest by blast
  have "line_blocks ''hello'' = Some [''hello'']"
    by (simp add: line_blocks.simps OUTPUT_BLOCK_BYTE_LIMIT_def is_char_boundary_def numeral_eq_Suc)
  then have "block_count buf' < OUTPUT_BLOCK_LIMIT"
    using r(1) by (auto simp: output_append_def newline_def push_blocks_def OutputBuffer_new_def drop_oldest_blocks
        block_count_def OUTPUT_BLOCK_LIMIT_def)
  then show ?thesis using r by (auto simp: as_text_def OutputBuffer_new_def)
qed

section \<open>The form reads back\<close>

text \<open>The ranges the widgets of the form allow, and rules that are told apart and fit on a line.\<close>

definition form_in_range :: "config \<Rightarrow> bool" where
  "form_in_range c \<longleftrightarrow> screen_range (cfg_ir_screen c) \<and> cal_range (cfg_aim_accel_zero c)
    \<and> cal_range (cfg_aim_motion_plus_bias c) \<and> distinct (map rule_key (cfg_device_rules c))
    \<and> (\<forall>r \<in> set (cfg_device_rules c). valid_utf8 (rule_match_text r) \<and> length (rule_text r) \<le> 510)"

lemma validated_form_draft:
  assumes "validate_form m = None" "form_in_range (cm_config m)"
  shows "config_ok (cm_config m) \<and> draft_ok 510 (cm_config m)"
proof -
  have v: "Config_validate (cm_config m) = None"
      "\<forall>r \<in> set (cfg_device_rules (cm_config m)). \<not> bad_rule_text (rule_match_text r)"
    using assms(1) by (auto simp: validate_form_def list_ex_iff split: option.splits if_splits)
  then have c: "config_ok (cm_config m)" by (simp add: Config_validate_None)
  have "rule_ok 510 r" if r: "r \<in> set (cfg_device_rules (cm_config m))" for r
  proof -
    have "\<forall>x \<in> set (rule_match_text r). x \<noteq> CHR ''#'' \<and> x \<noteq> CHR ''='' \<and> x \<noteq> newline"
      using v(2) r unfolding bad_rule_text_def list_ex_iff by blast
    moreover have "valid_utf8 (rule_match_text r)" "length (rule_text r) \<le> 510"
      using assms(2) r by (simp_all add: form_in_range_def)
    ultimately have "text_ok (rule_match_text r)" unfolding text_ok_def by blast
    then show ?thesis using c r \<open>length (rule_text r) \<le> 510\<close> by (simp add: rule_ok_def config_ok_def)
  qed
  then show ?thesis using c assms(2) by (simp add: draft_ok_def config_ok_def form_in_range_def rules_ok_def)
qed

lemma header_line: "apply_raw c path no (''# Generated by wiiland-config.'' @ [newline]) = Ok c"
proof -
  have "valid_utf8 (''# Generated by wiiland-config.'' @ [newline])"
    by (rule valid_utf8_ascii) (simp add: ascii_char_def newline_def)
  then show ?thesis by (simp add: apply_raw_def apply_line_def MAX_LINE_BYTES_def trim_blank_def Let_def)
qed

lemma form_reads_back:
  assumes "config_ok c" and "draft_ok 510 c"
  shows "parse_config_bytes (render_config c) = Ok c"
proof -
  define head where "head = ''# Generated by wiiland-config.''"
  have n: "newline \<notin> set head" by (simp add: head_def newline_def)
  have r: "render_config c = head @ newline # Config_dump c" unfolding render_config_def head_def by (simp only: append_assoc append.simps)
  have "apply_lines Config_default ''daemon-output'' 1 (render_config c)
      = apply_lines Config_default ''daemon-output'' 2 (Config_dump c)"
    unfolding r apply_lines_line [OF n] header_line [folded head_def] by (simp only: bind_outcome_simps one_add_one)
  also have "\<dots> = Ok c"
    using apply_lines_items [OF dump_items_ok, of c] set_items_dump [of 510 c "''daemon-output''" 2] assms
    by (simp add: Config_dump_def)
  finally show ?thesis
    using assms(1) by (simp add: parse_config_bytes_def parse_bytes_def apply_bytes_def Config_validate_None [THEN iffD2])
qed

text \<open>
  C32. What the editor writes is what it shows, exactly as far as a file can say it. Let the form validate. Then
  the bytes the editor saves parse to the configuration of the form if, and only if, the screen edges are
  between 0 and 32767, the values of a calibration are between -32768 and 32767 with one known axis at least (the
  ranges of the form's widgets), no two rules have the same kind and the same match text, and the
  text of every rule is UTF-8 and short enough that its line has at most 510 bytes.
  (The form itself checks neither that rules differ nor how long their text is.)
\<close>
theorem saved_form_reads_back:
  assumes "validate_form m = None"
  shows "parse_config_bytes (render_config (cm_config m)) = Ok (cm_config m) \<longleftrightarrow> form_in_range (cm_config m)"
proof
  assume "form_in_range (cm_config m)"
  then show "parse_config_bytes (render_config (cm_config m)) = Ok (cm_config m)"
    using validated_form_draft [OF assms] form_reads_back by blast
next
  assume p: "parse_config_bytes (render_config (cm_config m)) = Ok (cm_config m)"
  have "last (render_config (cm_config m)) = newline"
    using dump_ends [of "cm_config m"] by (auto simp: render_config_def)
  then have "draft_ok 510 (cm_config m)" using parsed_draft p by (auto simp: parse_config_bytes_def)
  then show "form_in_range (cm_config m)"
    by (auto simp: draft_ok_def form_in_range_def rules_ok_def rule_ok_def text_ok_def)
qed

lemma saved_form_reads_back_witness:
  "parse_config_bytes (render_config Config_default) = Ok Config_default"
proof -
  have "validate_form (ConfigModel_new ''/f'') = None"
    using Config_default_ok by (simp add: validate_form_def ConfigModel_new_def Config_validate_None [THEN iffD2])
      (simp add: Config_default_def)
  moreover have "form_in_range (cm_config (ConfigModel_new ''/f''))"
    by (simp add: form_in_range_def ConfigModel_new_def Config_default_def screen_range_def cal_range_def)
  ultimately show ?thesis using saved_form_reads_back [of "ConfigModel_new ''/f''"] by (simp add: ConfigModel_new_def)
qed

section \<open>The editor and its worker\<close>

text \<open>
  The control centre with the events its worker has sent, the transaction the worker still runs, and the
  files the workers have written.
\<close>

record editor_world =
  ew_cc :: control_center
  ew_events :: "config_event list"
  ew_worker :: "transaction option"
  ew_files :: "string \<Rightarrow> bytes option"

definition with_cc :: "control_center \<Rightarrow> editor_world \<Rightarrow> editor_world" where
  "with_cc cc w = w\<lparr>ew_cc := cc\<rparr>"

text \<open>An operation that may spawn a worker: its channel starts empty.\<close>

definition with_spawn :: "control_center \<Rightarrow> editor_world \<Rightarrow> editor_world" where
  "with_spawn cc w =
    (if cc_task (ew_cc w) = None \<and> cc_task cc \<noteq> None
     then w\<lparr>ew_cc := cc, ew_events := [], ew_worker := map_option fst (cc_task cc)\<rparr> else w\<lparr>ew_cc := cc\<rparr>)"

definition is_finish :: "config_event \<Rightarrow> bool" where
  "is_finish e \<longleftrightarrow> (case e of EvFinished _ \<Rightarrow> True | _ \<Rightarrow> False)"

inductive editor_step :: "(string \<Rightarrow> string option) \<Rightarrow> string \<Rightarrow> editor_world \<Rightarrow> editor_world \<Rightarrow> bool" for env cwd where
  form: "editor_step env cwd w (with_cc (edit_form f (ew_cc w)) w)"
| target: "editor_step env cwd w (with_cc (edit_path path (ew_cc w)) w)"
| daemon: "editor_step env cwd w (with_cc (edit_daemon program (ew_cc w)) w)"
| load: "editor_step env cwd w (with_spawn (begin_load (ew_cc w)) w)"
| reload: "editor_step env cwd w (with_spawn (request_reload (ew_cc w)) w)"
| save: "editor_step env cwd w (with_spawn (begin_save restart (ew_cc w)) w)"
| logged: "ew_worker w = Some t \<Longrightarrow> \<not> list_ex is_finish es \<Longrightarrow>
    editor_step env cwd w (w\<lparr>ew_events := ew_events w @ es\<rparr>)"
| worked: "ew_worker w = Some t \<Longrightarrow> config_task_run tenv t = Some (r, omitted, written) \<Longrightarrow>
    editor_step env cwd w (w\<lparr>ew_worker := None, ew_events := ew_events w @ [EvFinished (Completion_new t r)],
      ew_files := (if written then (ew_files w)(tx_target t \<mapsto> tx_captured t) else ew_files w)\<rparr>)"
| panicked: "editor_step env cwd w (w\<lparr>ew_worker := None\<rparr>)"
| poll: "closed \<longrightarrow> ew_worker w = None \<and> length (ew_events w) \<le> k \<Longrightarrow>
    poll_config_task env cwd (take k (ew_events w)) closed (ew_cc w) = (es, cc) \<Longrightarrow>
    editor_step env cwd w (w\<lparr>ew_cc := cc, ew_events := es @ drop k (ew_events w)\<rparr>)"
| calibrate: "editor_step env cwd w (with_cc (start_calibration env cwd (ew_cc w)) w)"
| stop: "editor_step env cwd w (with_cc (stop_capture (ew_cc w)) w)"
| captured: "poll_validation texts result (ew_cc w) = Some cc \<Longrightarrow> editor_step env cwd w (with_cc cc w)"
| service: "editor_step env cwd w (with_cc (start_service_action action (ew_cc w)) w)"
| served: "editor_step env cwd w (with_cc (poll_service events closed (ew_cc w)) w)"

inductive editor_run :: "(string \<Rightarrow> string option) \<Rightarrow> string \<Rightarrow> nat \<Rightarrow> editor_world \<Rightarrow> bool" for env cwd where
  start: "editor_run env cwd 0 \<lparr>ew_cc = ControlCenter_new (ConfigModel_new path), ew_events = [], ew_worker = None, ew_files = files\<rparr>"
| step: "editor_run env cwd n w \<Longrightarrow> editor_step env cwd w w' \<Longrightarrow> editor_run env cwd (Suc n) w'"

subsection \<open>What the operations do to the model\<close>

text \<open>\<open>k\<close> edits: the transaction stays; without an edit so do the configuration and the target.\<close>

definition edited :: "nat \<Rightarrow> config_model \<Rightarrow> config_model \<Rightarrow> bool" where
  "edited k m m' \<longleftrightarrow> cm_transaction m' = cm_transaction m \<and> cm_revision m' = cm_revision m + of_nat k
    \<and> (k = 0 \<longrightarrow> cm_config m' = cm_config m \<and> cm_config_path m' = cm_config_path m)"

definition quiet :: "control_center \<Rightarrow> control_center \<Rightarrow> bool" where
  "quiet cc cc' \<longleftrightarrow> (\<exists>k \<le> 1. edited k (cc_model cc) (cc_model cc')) \<and> cc_task cc' = cc_task cc
    \<and> (cc_pending cc' \<noteq> None \<longrightarrow> cc_service cc' \<noteq> None)"

lemma edited_refl [simp]: "edited 0 m m" by (simp add: edited_def)

lemma edited_trans0: "edited 0 m1 m2 \<Longrightarrow> edited k m2 m3 \<Longrightarrow> edited k m1 m3" by (simp add: edited_def)

lemma edited_output [simp]: "edited 0 m (append_output s m)"
  by (simp add: append_output_def edited_def split: option.split)

lemma edited_outputs: "edited 0 m (fold append_output texts m)"
  by (induction texts arbitrary: m) (auto intro: edited_trans0 [OF edited_output])

lemma edited_process: "poll_process es closed m = (r, m') \<Longrightarrow> edited 0 m m'"
  by (induction es closed m rule: poll_process.induct) (auto intro: edited_trans0 [OF edited_output])

lemma edited_events: "take_config_events n es closed t m = (c, es', m') \<Longrightarrow> edited 0 m m'"
  by (induction n es closed t m rule: take_config_events.induct)
    (auto split: config_event.splits if_splits intro: edited_trans0 [OF edited_output])

lemma edited_calibration: "finish_calibration t m = (b, m') \<Longrightarrow> edited 0 m m'"
  by (auto simp: finish_calibration_def edited_def split: option.splits if_splits)

lemma edited_apply: "edited 1 m (apply_calibration v m)"
  by (simp add: apply_calibration_def mark_dirty_def edited_def Let_def)

lemma dispatch_fields:
  "edited 0 (cc_model cc) (cc_model (dispatch_service_action a cc)) \<and> cc_task (dispatch_service_action a cc) = cc_task cc
    \<and> cc_service (dispatch_service_action a cc) = Some a"
  by (simp add: dispatch_service_action_def update_model_def Let_def)

lemma restart_fields:
  "edited 0 (cc_model cc) (cc_model (request_restart_after_save cc)) \<and> cc_task (request_restart_after_save cc) = cc_task cc
    \<and> cc_service (request_restart_after_save cc) \<noteq> None"
  using dispatch_fields [of "cc\<lparr>cc_pending := None\<rparr>" "ServiceAction_as_str SaRestart"]
  by (auto simp: request_restart_after_save_def request_restart_def)

definition pending_ok :: "control_center \<Rightarrow> bool" where
  "pending_ok cc \<longleftrightarrow> (cc_pending cc \<noteq> None \<longrightarrow> cc_service cc \<noteq> None)"

lemma quiet_zero:
  "edited 0 (cc_model cc) (cc_model cc') \<Longrightarrow> cc_task cc' = cc_task cc \<Longrightarrow> pending_ok cc' \<Longrightarrow> quiet cc cc'"
  unfolding quiet_def pending_ok_def by (intro conjI exI [of _ 0]) simp_all

lemma quiet_one:
  "edited 1 (cc_model cc) (cc_model cc') \<Longrightarrow> cc_task cc' = cc_task cc \<Longrightarrow> pending_ok cc' \<Longrightarrow> quiet cc cc'"
  unfolding quiet_def pending_ok_def by (intro conjI exI [of _ 1]) simp_all

lemma quiet_edits:
  assumes "pending_ok cc"
  shows "quiet cc (edit_form f cc)" "quiet cc (edit_daemon program cc)" "quiet cc (edit_path path cc)"
proof -
  show "quiet cc (edit_form f cc)" "quiet cc (edit_daemon program cc)"
    by (rule quiet_one; use assms in \<open>simp add: edit_form_def edit_daemon_def update_model_def mark_dirty_def
        edited_def pending_ok_def\<close>)+
  show "quiet cc (edit_path path cc)"
  proof (cases "path_eq (cm_config_path (cc_model cc)) path")
    case True
    then show ?thesis
      by (intro quiet_zero; use assms in \<open>simp add: edit_path_def update_model_def set_path_def pending_ok_def\<close>)
  next
    case False
    then show ?thesis
      by (intro quiet_one; use assms in \<open>simp add: edit_path_def update_model_def set_path_def edited_def pending_ok_def\<close>)
  qed
qed

lemma quiet_calibration:
  assumes "pending_ok cc"
  shows "quiet cc (start_calibration env cwd cc)" "quiet cc (stop_capture cc)"
proof -
  have b: "edited 0 (cc_model cc) m" if "begin_calibration (cc_model cc) = (t, m)" for t m
    using that by (auto simp: begin_calibration_def edited_def Let_def split: if_splits)
  show "quiet cc (start_calibration env cwd cc)"
    using assms b
    by (intro quiet_zero)
      (auto simp: start_calibration_def pending_ok_def Let_def intro: edited_trans0 [OF _ edited_output]
        split: prod.split option.split)
  show "quiet cc (stop_capture cc)"
    using assms by (intro quiet_zero) (auto simp: stop_capture_def pending_ok_def split: option.split)
qed

lemma quiet_complete:
  assumes "pending_ok cc"
  shows "quiet cc (complete_calibration t device r cc)"
proof -
  obtain owned m where f: "finish_calibration t (cc_model cc) = (owned, m)" by force
  note e = edited_calibration [OF f]
  show ?thesis
  proof (cases "\<exists>v. r = Inr v \<and> owned \<and> str_trim (cc_trace_device cc) = device")
    case True
    then obtain v where "complete_calibration t device r cc =
        cc\<lparr>cc_model := apply_calibration v m, cc_status := ''Calibration values applied; save to persist them''\<rparr>"
      by (auto simp: complete_calibration_def f)
    then show ?thesis using assms edited_trans0 [OF e edited_apply] by (intro quiet_one) (simp_all add: pending_ok_def)
  next
    case False
    then have "\<exists>status. complete_calibration t device r cc = cc\<lparr>cc_model := m, cc_status := status\<rparr>"
      by (auto simp: complete_calibration_def f split: sum.split)
    then show ?thesis using assms e by (auto intro!: quiet_zero simp: pending_ok_def)
  qed
qed

lemma quiet_trans0:
  assumes "edited 0 (cc_model cc1) (cc_model cc2)" "cc_task cc2 = cc_task cc1" "quiet cc2 cc3"
  shows "quiet cc1 cc3"
  using assms by (auto simp: quiet_def dest: edited_trans0)

lemma quiet_validation:
  assumes "pending_ok cc" "poll_validation texts result cc = Some cc'"
  shows "quiet cc cc'"
proof (cases "cc_validation cc")
  case None
  then show ?thesis using assms by (auto simp: poll_validation_def intro: quiet_zero)
next
  case (Some task)
  define cc1 where "cc1 = cc\<lparr>cc_model := fold append_output texts (cc_model cc), cc_validation := None\<rparr>"
  have e: "edited 0 (cc_model cc) (cc_model cc1)" by (simp add: cc1_def edited_outputs)
  show ?thesis
  proof (cases result)
    case None
    then show ?thesis using assms Some e by (auto intro!: quiet_zero simp: poll_validation_def cc1_def pending_ok_def)
  next
    case r: (Some r)
    define cc2 where "cc2 = (case r of Inl e \<Rightarrow> update_model (append_output (e @ [newline])) cc1 | Inr _ \<Rightarrow> cc1)"
    have e2: "edited 0 (cc_model cc) (cc_model cc2)"
      using edited_trans0 [OF e edited_output] e by (auto simp: cc2_def update_model_def split: sum.split)
    have p2: "pending_ok cc2" "cc_task cc2 = cc_task cc"
      using assms(1) by (auto simp: cc2_def cc1_def update_model_def pending_ok_def split: sum.split)
    show ?thesis
    proof (cases "vt_cancelled task")
      case True
      have "edited 0 (cc_model cc) (snd (finish_calibration t (cc_model cc1)))" for t
        using edited_trans0 [OF e edited_calibration] by (metis prod.collapse)
      then show ?thesis using assms Some r True e
        by (auto intro!: quiet_zero simp: poll_validation_def Let_def cc1_def pending_ok_def split: option.splits)
    next
      case False
      show ?thesis
      proof (cases "vt_kind task")
        case VkTrace
        then have "cc' = cc2\<lparr>cc_status := (case r of Inr _ \<Rightarrow> ''Trace stopped'' | Inl _ \<Rightarrow> ''Trace failed'')\<rparr>"
          using assms(2) Some r False by (cases r) (auto simp: poll_validation_def Let_def cc2_def cc1_def)
        then show ?thesis using e2 p2 by (auto intro!: quiet_zero simp: pending_ok_def)
      next
        case VkCalibration
        then obtain t device where "vt_calibration task = Some (t, device)"
          using assms(2) Some r False by (cases "vt_calibration task") (auto simp: poll_validation_def Let_def)
        then have "cc' = complete_calibration t device (case r of Inl e \<Rightarrow> Inl e | Inr (Calibrated v) \<Rightarrow> Inr v
            | Inr TraceStopped \<Rightarrow> Inl ''Capture returned no calibration'') cc2"
          using assms(2) Some r False VkCalibration
          by (cases r) (auto simp: poll_validation_def Let_def cc2_def cc1_def)
        then show ?thesis using quiet_trans0 [OF e2 p2(2)] quiet_complete [OF p2(1)] by blast
      qed
    qed
  qed
qed

lemma quiet_service:
  assumes "pending_ok cc"
  shows "quiet cc (start_service_action action cc)" "quiet cc (poll_service events closed cc)"
proof -
  show "quiet cc (start_service_action action cc)"
    using assms dispatch_fields [of cc action] by (intro quiet_zero) (auto simp: start_service_action_def pending_ok_def)
  show "quiet cc (poll_service events closed cc)"
  proof (cases "cc_service cc")
    case None
    then show ?thesis using assms by (intro quiet_zero) (simp_all add: poll_service_def)
  next
    case (Some act)
    obtain r m where p: "poll_process events closed (cc_model cc) = (r, m)" by force
    note e = edited_process [OF p]
    show ?thesis
    proof (cases r)
      case None
      then show ?thesis using assms e Some p by (intro quiet_zero) (simp_all add: poll_service_def pending_ok_def)
    next
      case res: (Some res)
      define cc1 where "cc1 = finish_service act res (cc\<lparr>cc_model := append_result_error res m, cc_service := None\<rparr>)"
      define cc2 where "cc2 = cc1\<lparr>cc_pending := None\<rparr>"
      have "edited 0 m (append_result_error res m)" by (simp add: append_result_error_def split: option.split)
      from edited_trans0 [OF e this] have e2: "edited 0 (cc_model cc) (cc_model cc2)" "cc_task cc2 = cc_task cc" "pending_ok cc2"
        by (simp_all add: cc2_def cc1_def finish_service_def pending_ok_def)
      have "poll_service events closed cc = cc2 \<or> (\<exists>a. poll_service events closed cc = dispatch_service_action a cc2)"
        by (auto simp: poll_service_def Some p res Let_def cc2_def cc1_def split: option.split)
      then show ?thesis
        using e2 dispatch_fields [of cc2] edited_trans0 [OF e2(1)] by (auto intro!: quiet_zero simp: pending_ok_def)
    qed
  qed
qed

subsection \<open>The invariant\<close>

text \<open>
  The model and the control centre hold the same transaction; a worker runs for it, or has sent its only
  completion, and a save reported as done is on disk; the transaction is as old as the edits since; a
  queued restart has an action to wait for.
\<close>

definition task_age :: "nat \<Rightarrow> transaction \<Rightarrow> config_model \<Rightarrow> bool" where
  "task_age n t m \<longleftrightarrow> (\<exists>k \<le> n. cm_revision m = tx_revision t + of_nat k
    \<and> (k = 0 \<longrightarrow> cm_config_path m = tx_target t \<and> (tx_kind t = TxSave \<longrightarrow> tx_captured t = render_config (cm_config m))))"

definition completes :: "(string \<Rightarrow> bytes option) \<Rightarrow> transaction \<Rightarrow> completion \<Rightarrow> bool" where
  "completes files t c \<longleftrightarrow> (\<exists>r. c = Completion_new t r
    \<and> (r = Inr CvSaved \<longrightarrow> tx_kind t = TxSave \<and> files (tx_target t) = Some (tx_captured t)))"

definition editor_inv :: "nat \<Rightarrow> editor_world \<Rightarrow> bool" where
  "editor_inv n w \<longleftrightarrow>
    cm_transaction (cc_model (ew_cc w)) = map_option fst (cc_task (ew_cc w))
    \<and> (\<forall>t. ew_worker w = Some t \<longrightarrow> \<not> list_ex is_finish (ew_events w) \<and> (\<exists>b. cc_task (ew_cc w) = Some (t, b)))
    \<and> length (filter is_finish (ew_events w)) \<le> 1
    \<and> (\<forall>c. EvFinished c \<in> set (ew_events w) \<longrightarrow> (\<exists>t b. cc_task (ew_cc w) = Some (t, b) \<and> completes (ew_files w) t c))
    \<and> (\<forall>t b. cc_task (ew_cc w) = Some (t, b) \<longrightarrow> task_age n t (cc_model (ew_cc w)))
    \<and> pending_ok (ew_cc w)"

lemma task_age_edited:
  assumes "task_age n t m" "edited k m m'" "k \<le> 1"
  shows "task_age (Suc n) t m'"
proof -
  obtain j where j: "j \<le> n" "cm_revision m = tx_revision t + of_nat j"
      "j = 0 \<longrightarrow> cm_config_path m = tx_target t \<and> (tx_kind t = TxSave \<longrightarrow> tx_captured t = render_config (cm_config m))"
    using assms(1) by (auto simp: task_age_def)
  show ?thesis unfolding task_age_def
    by (rule exI [of _ "j + k"]) (use j assms(2,3) in \<open>auto simp: edited_def\<close>)
qed

lemma inv_quiet:
  assumes "editor_inv n w" "quiet (ew_cc w) cc"
  shows "editor_inv (Suc n) (with_cc cc w)"
proof -
  obtain k where k: "k \<le> 1" "edited k (cc_model (ew_cc w)) (cc_model cc)" using assms(2) by (auto simp: quiet_def)
  have t: "cc_task cc = cc_task (ew_cc w)" "pending_ok cc" using assms(2) by (simp_all add: quiet_def pending_ok_def)
  have m: "cm_transaction (cc_model cc) = cm_transaction (cc_model (ew_cc w))" using k(2) by (simp add: edited_def)
  have "task_age (Suc n) u (cc_model cc)" if "cc_task cc = Some (u, b)" for u b
    using assms(1) task_age_edited [OF _ k(2,1)] that t(1) by (simp add: editor_inv_def)
  then show ?thesis using assms(1) t m by (simp add: editor_inv_def with_cc_def)
qed

lemma task_age_Suc: "task_age n t m \<Longrightarrow> task_age (Suc n) t m"
  using task_age_edited [OF _ edited_refl] by simp

lemma inv_Suc: "editor_inv n w \<Longrightarrow> editor_inv (Suc n) w"
  by (auto simp: editor_inv_def task_age_Suc)

lemma age_fresh: "cm_revision m = tx_revision t \<Longrightarrow> cm_config_path m = tx_target t
    \<Longrightarrow> (tx_kind t = TxSave \<Longrightarrow> tx_captured t = render_config (cm_config m)) \<Longrightarrow> task_age n t m"
  unfolding task_age_def by (intro exI [of _ 0]) simp

text \<open>A control centre that has just begun the transaction \<open>t\<close>.\<close>

definition begun :: "control_center \<Rightarrow> transaction \<Rightarrow> control_center \<Rightarrow> bool" where
  "begun cc t cc' \<longleftrightarrow> cc_task cc = None \<and> (\<exists>b. cc_task cc' = Some (t, b)) \<and> cm_transaction (cc_model cc') = Some t
    \<and> task_age 0 t (cc_model cc') \<and> (pending_ok cc \<longrightarrow> pending_ok cc')"

lemma begin_transaction_new:
  "cm_transaction m = None \<Longrightarrow> \<exists>t. begin_transaction kind captured m = (Some t, m\<lparr>cm_next := tx_id t, cm_transaction := Some t\<rparr>)
    \<and> tx_kind t = kind \<and> tx_captured t = captured \<and> tx_revision t = cm_revision m \<and> tx_target t = cm_config_path m"
  by (simp add: begin_transaction_def Let_def)

lemma begins:
  assumes "cm_transaction (cc_model cc) = map_option fst (cc_task cc)" "pending_ok cc"
  shows "quiet cc (begin_load cc) \<or> (\<exists>t. begun cc t (begin_load cc))"
    and "quiet cc (begin_save restart cc) \<or> (\<exists>t. begun cc t (begin_save restart cc))"
    and "quiet cc (request_reload cc) \<or> (\<exists>t. begun cc t (request_reload cc))"
proof -
  show l: "quiet cc (begin_load cc) \<or> (\<exists>t. begun cc t (begin_load cc))"
  proof (cases "cc_task cc")
    case None
    then show ?thesis using begin_transaction_new [of "cc_model cc" TxLoad "[]"] assms
      by (auto simp: begin_load_def begun_def pending_ok_def intro!: disjI2 age_fresh)
  qed (use assms in \<open>simp add: begin_load_def quiet_zero\<close>)
  show "quiet cc (begin_save restart cc) \<or> (\<exists>t. begun cc t (begin_save restart cc))"
  proof (cases "cc_task cc \<noteq> None \<or> validate_form (cc_model cc) \<noteq> None \<or> cm_config_path (cc_model cc) = []")
    case True
    then have "\<exists>status. begin_save restart cc = cc\<lparr>cc_status := status\<rparr>" by (auto simp: begin_save_def)
    then show ?thesis using assms(2) by (auto intro!: disjI1 quiet_zero simp: pending_ok_def)
  next
    case False
    then have "cc_task cc = None" "validate_form (cc_model cc) = None" "cm_config_path (cc_model cc) \<noteq> []"
      by (simp_all only: de_Morgan_disj not_not simp_thms)
    then show ?thesis
      using begin_transaction_new [of "cc_model cc" TxSave "render_config (cm_config (cc_model cc))"] assms
      by (auto simp: begin_save_def begun_def pending_ok_def intro!: disjI2 age_fresh)
  qed
  show "quiet cc (request_reload cc) \<or> (\<exists>t. begun cc t (request_reload cc))"
    using l assms(2) by (auto simp: request_reload_def pending_ok_def intro!: disjI1 [of "quiet cc _"] quiet_zero)
qed

lemma inv_spawn:
  assumes "editor_inv n w" "quiet (ew_cc w) cc \<or> (\<exists>t. begun (ew_cc w) t cc)"
  shows "editor_inv (Suc n) (with_spawn cc w)"
  using assms(2)
proof
  assume q: "quiet (ew_cc w) cc"
  then have "cc_task cc = cc_task (ew_cc w)" by (simp add: quiet_def)
  then have "with_spawn cc w = with_cc cc w" unfolding with_spawn_def with_cc_def by (simp only: if_False simp_thms)
  then show ?thesis using inv_quiet [OF assms(1) q] by simp
next
  assume "\<exists>t. begun (ew_cc w) t cc"
  then obtain t b where t: "cc_task (ew_cc w) = None" "cc_task cc = Some (t, b)" "cm_transaction (cc_model cc) = Some t"
      "task_age 0 t (cc_model cc)" "pending_ok cc"
    using assms(1) by (auto simp: begun_def editor_inv_def)
  have "task_age (Suc n) t (cc_model cc)" using t(4) by (auto simp: task_age_def)
  then show ?thesis using t by (simp add: with_spawn_def editor_inv_def)
qed

lemma is_finish_simps [simp]:
  "is_finish (EvFinished c)" "\<not> is_finish (EvCommand p args)" "\<not> is_finish (EvStdout b)" "\<not> is_finish (EvStderr b)"
  "\<not> is_finish (EvOmitted k)"
  by (simp_all add: is_finish_def)

text \<open>What is left of the events, and whether the completion is among those taken.\<close>

lemma take_events_completion:
  assumes "take_config_events n es closed t m = (Some c, es', m')"
  shows "(\<exists>pre. es = pre @ EvFinished c # es' \<and> \<not> list_ex is_finish pre)
    \<or> (\<exists>e. closed \<and> c = Completion_new t (Inl e) \<and> \<not> list_ex is_finish es \<and> es' = [])"
  using assms
proof (induction n es closed t m rule: take_config_events.induct)
  case (3 n e es closed t m)
  show ?case
  proof (cases "is_finish e")
    case True
    then show ?thesis using 3(5) by (cases e) (auto intro: exI [of _ "[]"])
  next
    case False
    then have "take_config_events n es closed t (append_output (event_text e) m) = (Some c, es', m')"
      using 3(5) by (cases e) simp_all
    moreover have ih: "take_config_events n es closed t (append_output (event_text e) m) = (Some c, es', m') \<Longrightarrow>
        (\<exists>pre. es = pre @ EvFinished c # es' \<and> \<not> list_ex is_finish pre)
        \<or> (\<exists>e. closed \<and> c = Completion_new t (Inl e) \<and> \<not> list_ex is_finish es \<and> es' = [])"
      using 3 False by (cases e) simp_all
    ultimately consider pre where "es = pre @ EvFinished c # es'" "\<not> list_ex is_finish pre"
      | e0 where "closed" "c = Completion_new t (Inl e0)" "\<not> list_ex is_finish es" "es' = []" by blast
    then show ?thesis
    proof cases
      case 1
      then show ?thesis using False by (intro disjI1 exI [of _ "e # pre"]) simp
    next
      case 2
      then show ?thesis using False by (intro disjI2) auto
    qed
  qed
qed (auto split: if_splits)

lemma take_events_rest:
  "take_config_events n es closed t m = (None, es', m') \<Longrightarrow> \<exists>pre. es = pre @ es' \<and> \<not> list_ex is_finish pre"
proof (induction n es closed t m rule: take_config_events.induct)
  case (3 n e es closed t m)
  then have "\<not> is_finish e" by (cases e) auto
  moreover from this have "\<exists>pre. es = pre @ es' \<and> \<not> list_ex is_finish pre" using 3 by (cases e) auto
  ultimately show ?case by (auto intro: exI [of _ "e # _"])
qed (auto split: if_splits)

text \<open>A completion of the own transaction is never foreign to the model.\<close>

lemma finish_own:
  assumes "cm_transaction m = Some t" "c = Completion_new t r"
  shows "\<exists>outcome. finish_transaction c m = (outcome,
      if outcome = Applied then (case r of
          Inr (CvLoaded config) \<Rightarrow> m\<lparr>cm_transaction := None, cm_config := config, cm_dirty := False\<rparr>
        | _ \<Rightarrow> m\<lparr>cm_transaction := None, cm_dirty := False\<rparr>)
      else m\<lparr>cm_transaction := None\<rparr>)
    \<and> (outcome = Applied \<longrightarrow> cm_revision m = tx_revision t \<and> (\<exists>v. r = Inr v \<and> (tx_kind t = TxSave \<longrightarrow> v = CvSaved)))"
proof -
  have "owns m c" using assms by (simp add: owns_def Completion_new_def)
  then show ?thesis using assms
    by (auto simp: finish_transaction_def Completion_new_def Let_def split: transaction_kind.split sum.split config_value.split)
qed

lemma finish_task_model:
  assumes "cm_transaction (cc_model cc) = Some t" "c = Completion_new t r" "pending_ok cc"
  shows "\<exists>m m'. edited 0 (cc_model cc) m \<and> cm_dirty m = cm_dirty (cc_model cc) \<and> m' = snd (finish_transaction c m)
    \<and> edited 0 m' (cc_model (finish_config_task env cwd t restart c cc))
    \<and> cm_dirty (cc_model (finish_config_task env cwd t restart c cc)) = cm_dirty m'
    \<and> cc_task (finish_config_task env cwd t restart c cc) = None \<and> pending_ok (finish_config_task env cwd t restart c cc)"
proof -
  have out: "cm_dirty (append_output x m) = cm_dirty m" for x m by (simp add: append_output_def split: option.split)
  have rs: "cm_dirty (cc_model (request_restart_after_save cc')) = cm_dirty (cc_model cc')" for cc'
    by (simp add: request_restart_after_save_def request_restart_def dispatch_service_action_def update_model_def out Let_def)
  define m where "m = (case cp_result c of
      Inl e \<Rightarrow> append_output (''Configuration error: '' @ ConfigFailure_text e @ [newline]) (cc_model cc)
    | Inr _ \<Rightarrow> cc_model cc)"
  have m: "edited 0 (cc_model cc) m" "cm_dirty m = cm_dirty (cc_model cc)" by (simp_all add: m_def out split: sum.split)
  obtain outcome m' where f: "finish_transaction c m = (outcome, m')" by force
  define cc' where "cc' = cc\<lparr>cc_model := m', cc_task := None, cc_status := completion_status (tx_kind t) c outcome,
      cc_output_open := (outcome = Failed \<or> cc_output_open cc)\<rparr>"
  have "finish_config_task env cwd t restart c cc = cc' \<or> finish_config_task env cwd t restart c cc = request_restart_after_save cc'"
    by (auto simp: finish_config_task_def Let_def m_def [symmetric] f cc'_def)
  moreover have "pending_ok cc'" using assms(3) by (simp add: cc'_def pending_ok_def)
  ultimately show ?thesis using m f restart_fields [of cc'] rs [of cc']
    by (intro exI [of _ m] exI [of _ m']) (auto simp: cc'_def pending_ok_def)
qed

lemma one_finish_rest:
  assumes "length (filter is_finish (pre @ EvFinished c # es)) \<le> 1"
  shows "\<not> list_ex is_finish pre \<and> \<not> list_ex is_finish es"
  using assms by (auto simp: list_ex_iff filter_empty_conv)

lemma no_finish: "\<not> list_ex is_finish es \<Longrightarrow> (\<forall>c. EvFinished c \<notin> set es) \<and> filter is_finish es = []"
  by (auto simp: filter_empty_conv list_ex_iff dest: bspec [of _ _ "EvFinished _"])

lemma inv_poll:
  assumes inv: "editor_inv n w" and closed: "closed \<longrightarrow> ew_worker w = None \<and> length (ew_events w) \<le> k"
    and poll: "poll_config_task env cwd (take k (ew_events w)) closed (ew_cc w) = (es, cc)"
  shows "editor_inv (Suc n) (w\<lparr>ew_cc := cc, ew_events := es @ drop k (ew_events w)\<rparr>)"
proof (cases "cc_task (ew_cc w)")
  case None
  then have "cc = ew_cc w" "es @ drop k (ew_events w) = ew_events w" using poll by (auto simp: poll_config_task_def)
  then show ?thesis using inv_Suc [OF inv] by simp
next
  case (Some tb)
  obtain t b where t: "cc_task (ew_cc w) = Some (t, b)" using Some by (cases tb) simp
  let ?all = "take k (ew_events w) @ drop k (ew_events w)"
  obtain c m es1 where e: "take_config_events 64 (take k (ew_events w)) closed t (cc_model (ew_cc w)) = (c, es1, m)"
    by (metis prod_cases3)
  note ed = edited_events [OF e]
  show ?thesis
  proof (cases c)
    case None
    then obtain pre where pre: "take k (ew_events w) = pre @ es1" "\<not> list_ex is_finish pre"
      using take_events_rest e by blast
    have cc: "cc = (ew_cc w)\<lparr>cc_model := m\<rparr>" "es = es1" using poll t e None by (simp_all add: poll_config_task_def)
    have ev: "ew_events w = pre @ es @ drop k (ew_events w)" using pre(1) cc(2) append_take_drop_id [of k "ew_events w"] by simp
    have q: "quiet (ew_cc w) cc" by (rule quiet_zero) (use cc ed inv in \<open>simp_all add: editor_inv_def pending_ok_def\<close>)
    have i: "editor_inv (Suc n) (w\<lparr>ew_cc := cc\<rparr>)" using inv_quiet [OF inv q] by (simp add: with_cc_def)
    have "set (es @ drop k (ew_events w)) \<subseteq> set (ew_events w)" by (subst (2) ev) auto
    moreover have "filter is_finish (es @ drop k (ew_events w)) = filter is_finish (ew_events w)"
      using pre(2) by (subst (2) ev) (simp add: list_ex_iff filter_False)
    moreover have "\<not> list_ex is_finish (es @ drop k (ew_events w))" if "\<not> list_ex is_finish (ew_events w)"
      using that by (subst (asm) ev) simp
    ultimately show ?thesis using i by (simp add: editor_inv_def) blast
  next
    case (Some c)
    have cc: "cc = finish_config_task env cwd t b c ((ew_cc w)\<lparr>cc_model := m\<rparr>)" "es = es1"
      using poll t e Some by (simp_all add: poll_config_task_def)
    have own: "\<exists>r. c = Completion_new t r" and rest: "\<not> list_ex is_finish (es @ drop k (ew_events w))"
        and idle: "ew_worker w = None"
    proof -
      consider pre where "take k (ew_events w) = pre @ EvFinished c # es1"
        | e0 where "closed" "c = Completion_new t (Inl e0)" "\<not> list_ex is_finish (take k (ew_events w))" "es1 = []"
        using take_events_completion [of 64 "take k (ew_events w)" closed t "cc_model (ew_cc w)" c es1 m] e Some by blast
      then have "(\<exists>r. c = Completion_new t r) \<and> \<not> list_ex is_finish (es @ drop k (ew_events w)) \<and> ew_worker w = None"
      proof cases
        case 1
        then have ev: "ew_events w = pre @ EvFinished c # es1 @ drop k (ew_events w)"
          using append_take_drop_id [of k "ew_events w"] by simp
        then have "EvFinished c \<in> set (ew_events w)" by (metis in_set_conv_decomp)
        then have "completes (ew_files w) t c" "list_ex is_finish (ew_events w)"
          using inv t by (auto simp: editor_inv_def list_ex_iff intro!: bexI [of _ "EvFinished c"])
        moreover have "length (filter is_finish (pre @ EvFinished c # es1 @ drop k (ew_events w))) \<le> 1"
          using inv ev by (simp add: editor_inv_def)
        ultimately show ?thesis using inv one_finish_rest [of pre c "es1 @ drop k (ew_events w)"] cc(2)
          by (auto simp: editor_inv_def completes_def)
      next
        case 2
        then show ?thesis using closed cc(2) by auto
      qed
      then show "\<exists>r. c = Completion_new t r" "\<not> list_ex is_finish (es @ drop k (ew_events w))" "ew_worker w = None" by blast+
    qed
    obtain r where r: "c = Completion_new t r" using own by blast
    have tm: "cm_transaction m = Some t" using ed inv t by (simp add: edited_def editor_inv_def)
    have p: "pending_ok ((ew_cc w)\<lparr>cc_model := m\<rparr>)" using inv by (simp add: editor_inv_def pending_ok_def)
    obtain m1 m2 where f: "edited 0 m m1" "m2 = snd (finish_transaction c m1)" "edited 0 m2 (cc_model cc)"
        "cc_task cc = None" "pending_ok cc"
      using finish_task_model [of "(ew_cc w)\<lparr>cc_model := m\<rparr>" t c r env cwd b] tm r p cc(1) by auto
    have "cm_transaction m1 = Some t" using f(1) tm by (simp add: edited_def)
    then have "cm_transaction m2 = None" using finish_own [of m1 t c r] r f(2) by (auto split: sum.splits config_value.splits)
    then have "cm_transaction (cc_model cc) = None" using f(3) by (simp add: edited_def)
    then show ?thesis using f(4,5) no_finish [OF rest] idle by (simp add: editor_inv_def)
  qed
qed

lemma saved_is_written:
  "config_task_run env t = Some (Inr CvSaved, k, written) \<Longrightarrow> tx_kind t = TxSave \<and> written"
  by (auto simp: config_task_run_def split: if_splits transaction_kind.splits option.splits sum.splits prod.splits
      outcome.splits)

lemma inv_worked:
  assumes "editor_inv n w" "ew_worker w = Some t" "config_task_run env t = Some (r, omitted, written)"
  shows "editor_inv (Suc n) (w\<lparr>ew_worker := None, ew_events := ew_events w @ [EvFinished (Completion_new t r)],
      ew_files := (if written then (ew_files w)(tx_target t \<mapsto> tx_captured t) else ew_files w)\<rparr>)"
proof -
  let ?files = "if written then (ew_files w)(tx_target t \<mapsto> tx_captured t) else ew_files w"
  obtain b where b: "cc_task (ew_cc w) = Some (t, b)" and no: "\<not> list_ex is_finish (ew_events w)"
    using assms(1,2) by (auto simp: editor_inv_def)
  have "completes ?files t (Completion_new t r)"
    using saved_is_written [of env t omitted written] assms(3) by (auto simp: completes_def)
  then show ?thesis using inv_Suc [OF assms(1)] b no_finish [OF no] by (simp add: editor_inv_def)
qed

lemma inv_step:
  assumes "editor_step env cwd w w'" "editor_inv n w"
  shows "editor_inv (Suc n) w'"
proof -
  have p: "pending_ok (ew_cc w)" and t: "cm_transaction (cc_model (ew_cc w)) = map_option fst (cc_task (ew_cc w))"
    using assms(2) by (simp_all add: editor_inv_def)
  show ?thesis using assms(1)
  proof cases
    case (logged u es)
    then show ?thesis using inv_Suc [OF assms(2)] no_finish [OF logged(3)] by (simp add: editor_inv_def)
  next
    case panicked
    then show ?thesis using inv_Suc [OF assms(2)] by (simp add: editor_inv_def)
  next
    case (worked u tenv r omitted written)
    then show ?thesis using inv_worked [OF assms(2)] by simp
  next
    case (poll closed k es cc)
    show ?thesis unfolding poll(1) by (rule inv_poll [OF assms(2) poll(2,3)])
  next
    case (captured texts result cc)
    then show ?thesis using inv_quiet [OF assms(2) quiet_validation [OF p]] by simp
  qed (simp_all only: inv_quiet [OF assms(2)] inv_spawn [OF assms(2)] quiet_edits [OF p] quiet_calibration [OF p]
      quiet_service [OF p] begins [OF t p])
qed

lemma editor_run_inv: "editor_run env cwd n w \<Longrightarrow> editor_inv n w"
proof (induction rule: editor_run.induct)
  case (start path files)
  then show ?case by (simp add: editor_inv_def ControlCenter_new_def ConfigModel_new_def pending_ok_def)
qed (rule inv_step)

lemma output_dirty: "cm_dirty (append_output x m) = cm_dirty m"
  by (simp add: append_output_def split: option.split)

lemma events_dirty: "take_config_events n es closed t m = (c, es', m') \<Longrightarrow> cm_dirty m' = cm_dirty m"
  by (induction n es closed t m rule: take_config_events.induct)
    (auto simp: output_dirty split: config_event.splits if_splits)

lemma age_zero: "task_age n t m \<Longrightarrow> n < 2 ^ 64 \<Longrightarrow> cm_revision m = tx_revision t \<Longrightarrow>
    cm_config_path m = tx_target t \<and> (tx_kind t = TxSave \<longrightarrow> tx_captured t = render_config (cm_config m))"
proof -
  assume a: "task_age n t m" "n < 2 ^ 64" "cm_revision m = tx_revision t"
  then obtain k where k: "k \<le> n" "of_nat k = (0 :: 64 word)"
      "k = 0 \<longrightarrow> cm_config_path m = tx_target t \<and> (tx_kind t = TxSave \<longrightarrow> tx_captured t = render_config (cm_config m))"
    by (auto simp: task_age_def)
  have "unat (of_nat k :: 64 word) = k" using k(1) a(2) by (simp add: unat_of_nat take_bit_nat_eq_self)
  then have "k = 0" using k(2) by simp
  then show ?thesis using k(3) by simp
qed

lemma taken_completion:
  assumes "editor_inv n w" "cc_task (ew_cc w) = Some (t, b)"
    and "take_config_events 64 (take k (ew_events w)) closed t m0 = (Some c, es, m)"
  shows "\<exists>r. c = Completion_new t r \<and> (r = Inr CvSaved \<longrightarrow> ew_files w (tx_target t) = Some (tx_captured t))"
proof -
  consider "EvFinished c \<in> set (take k (ew_events w))" | e0 where "c = Completion_new t (Inl e0)"
    using take_events_completion [OF assms(3)] by fastforce
  then show ?thesis
  proof cases
    case 1
    then have "completes (ew_files w) t c" using assms(1,2) by (auto simp: editor_inv_def dest: in_set_takeD)
    then show ?thesis by (auto simp: completes_def)
  qed blast
qed

text \<open>A save whose completion clears the mark.\<close>

lemma applied_save:
  assumes "cm_transaction m = Some t" "c = Completion_new t r" "tx_kind t = TxSave"
    and "cm_dirty m" "\<not> cm_dirty (snd (finish_transaction c m))"
  shows "r = Inr CvSaved \<and> cm_revision m = tx_revision t
    \<and> snd (finish_transaction c m) = m\<lparr>cm_transaction := None, cm_dirty := False\<rparr>"
proof -
  obtain outcome where o1: "finish_transaction c m = (outcome,
      if outcome = Applied then (case r of
          Inr (CvLoaded config) \<Rightarrow> m\<lparr>cm_transaction := None, cm_config := config, cm_dirty := False\<rparr>
        | _ \<Rightarrow> m\<lparr>cm_transaction := None, cm_dirty := False\<rparr>)
      else m\<lparr>cm_transaction := None\<rparr>)"
    and o2: "outcome = Applied \<longrightarrow> cm_revision m = tx_revision t \<and> (\<exists>v. r = Inr v \<and> (tx_kind t = TxSave \<longrightarrow> v = CvSaved))"
    using finish_own [OF assms(1,2)] by blast
  have "outcome = Applied" using o1 assms(4,5) by (cases "outcome = Applied") simp_all
  then show ?thesis using o1 o2 assms(3) by auto
qed

text \<open>
  C40. No save is reported over edits it does not hold. Whatever the user edits, retargets or captures while the
  worker runs, the mark of unsaved changes goes out after a save only if the file of the target holds, byte
  for byte, the configuration now on the form (within 2^64 steps, after which revisions repeat).
\<close>
theorem clean_form_is_on_disk:
  assumes "editor_run env cwd n w" "n < 2 ^ 64"
    and "cc_task (ew_cc w) = Some (t, restart)" "tx_kind t = TxSave" "cm_dirty (cc_model (ew_cc w))"
    and "closed \<longrightarrow> ew_worker w = None \<and> length (ew_events w) \<le> k"
    and "poll_config_task env cwd (take k (ew_events w)) closed (ew_cc w) = (es, cc)" "\<not> cm_dirty (cc_model cc)"
  shows "ew_files w (cm_config_path (cc_model cc)) = Some (render_config (cm_config (cc_model cc)))
    \<and> cm_config (cc_model cc) = cm_config (cc_model (ew_cc w))"
proof -
  note inv = editor_run_inv [OF assms(1)]
  obtain c m es1 where e: "take_config_events 64 (take k (ew_events w)) closed t (cc_model (ew_cc w)) = (c, es1, m)"
    by (metis prod_cases3)
  note ed = edited_events [OF e]
  have dirty: "cm_dirty m" using assms(5) events_dirty [OF e] by simp
  obtain c' where c': "c = Some c'" using assms(3,7,8) e dirty by (cases c) (auto simp: poll_config_task_def)
  have cc: "cc = finish_config_task env cwd t restart c' ((ew_cc w)\<lparr>cc_model := m\<rparr>)"
    using assms(3,7) e c' by (simp add: poll_config_task_def)
  have tm: "cm_transaction m = Some t" and p: "pending_ok ((ew_cc w)\<lparr>cc_model := m\<rparr>)"
    using ed inv assms(3) by (simp_all add: edited_def editor_inv_def pending_ok_def)
  obtain r where r: "c' = Completion_new t r" "r = Inr CvSaved \<Longrightarrow> ew_files w (tx_target t) = Some (tx_captured t)"
    using taken_completion [OF inv assms(3) e [unfolded c']] by blast
  obtain m1 m2 where f: "edited 0 m m1" "cm_dirty m1 = cm_dirty m" "m2 = snd (finish_transaction c' m1)"
      "edited 0 m2 (cc_model cc)" "cm_dirty (cc_model cc) = cm_dirty m2"
    using finish_task_model [of "(ew_cc w)\<lparr>cc_model := m\<rparr>" t c' r env cwd restart] tm r(1) p cc by auto
  have "cm_transaction m1 = Some t" using f(1) tm by (simp add: edited_def)
  from applied_save [OF this r(1) assms(4)] have saved: "r = Inr CvSaved" "cm_revision m1 = tx_revision t"
    and m2: "m2 = m1\<lparr>cm_transaction := None, cm_dirty := False\<rparr>"
    using f(2,3,5) dirty assms(8) by auto
  let ?m = "cc_model (ew_cc w)"
  have same: "cm_config (cc_model cc) = cm_config ?m" "cm_config_path (cc_model cc) = cm_config_path ?m"
      "cm_revision ?m = tx_revision t"
    using ed f(1,4) m2 saved(2) by (simp_all add: edited_def)
  have "task_age n t ?m" using inv assms(3) by (simp add: editor_inv_def)
  from age_zero [OF this assms(2) same(3)] show ?thesis using same r(2) saved(1) assms(4) by simp
qed

text \<open>A form with one edit, saved by a worker whose validation succeeds.\<close>

definition sample_start :: editor_world where
  "sample_start = \<lparr>ew_cc = ControlCenter_new (ConfigModel_new ''/f''), ew_events = [], ew_worker = None, ew_files = \<lambda>_. None\<rparr>"

definition sample_task_env :: task_env where
  "sample_task_env = \<lparr>te_stop1 = False, te_stop2 = False, te_stop3 = False, te_prepared = None, te_temporary = ''/t'',
    te_announced = True, te_turns = [(False, TurnFinished \<lparr>pr_success = True, pr_code = Some 0, pr_stdout = [], pr_stderr = [], pr_error = None\<rparr>)],
    te_renamed = None\<rparr>"

lemma sample_saved:
  "\<exists>w t. editor_run (\<lambda>_. None) ''/'' 3 w \<and> cc_task (ew_cc w) = Some (t, False) \<and> tx_kind t = TxSave
    \<and> cm_dirty (cc_model (ew_cc w)) \<and> cm_transaction (cc_model (ew_cc w)) = Some t
    \<and> ew_events w = [EvFinished (Completion_new t (Inr CvSaved))] \<and> tx_revision t = cm_revision (cc_model (ew_cc w))
    \<and> tx_target t = cm_config_path (cc_model (ew_cc w))"
proof -
  let ?e = "\<lambda>_ :: string. None :: string option"
  define w1 where "w1 = with_cc (edit_form id (ew_cc sample_start)) sample_start"
  define w2 where "w2 = with_spawn (begin_save False (ew_cc w1)) w1"
  have r0: "editor_run ?e ''/'' 0 sample_start" unfolding sample_start_def by (rule editor_run.start)
  have r1: "editor_run ?e ''/'' (Suc 0) w1" unfolding w1_def by (rule editor_run.step [OF r0 editor_step.form])
  have r2: "editor_run ?e ''/'' (Suc (Suc 0)) w2" unfolding w2_def by (rule editor_run.step [OF r1 editor_step.save])
  have m1: "cm_config (cc_model (ew_cc w1)) = Config_default" "cm_config_path (cc_model (ew_cc w1)) = ''/f''"
      "cc_task (ew_cc w1) = None" "cm_transaction (cc_model (ew_cc w1)) = None" "cm_dirty (cc_model (ew_cc w1))"
      "ew_events w1 = []"
    by (simp_all add: w1_def with_cc_def edit_form_def update_model_def mark_dirty_def sample_start_def
        ControlCenter_new_def ConfigModel_new_def)
  have "validate_form (cc_model (ew_cc w1)) = None"
    using Config_default_ok by (simp add: validate_form_def m1(1) Config_validate_None [THEN iffD2])
      (simp add: Config_default_def)
  moreover obtain t where b: "begin_transaction TxSave (render_config Config_default) (cc_model (ew_cc w1)) =
        (Some t, (cc_model (ew_cc w1))\<lparr>cm_next := tx_id t, cm_transaction := Some t\<rparr>)"
      "tx_kind t = TxSave" "tx_revision t = cm_revision (cc_model (ew_cc w1))"
      "tx_target t = cm_config_path (cc_model (ew_cc w1))"
    using begin_transaction_new [OF m1(4)] by blast
  ultimately have "begin_save False (ew_cc w1) = (ew_cc w1)
      \<lparr>cc_model := (cc_model (ew_cc w1))\<lparr>cm_next := tx_id t, cm_transaction := Some t\<rparr>, cc_task := Some (t, False),
       cc_status := ''Validating configuration before save''\<rparr>"
    using m1 by (simp add: begin_save_def)
  then have t: "cc_task (ew_cc w2) = Some (t, False)" "tx_kind t = TxSave" "cm_dirty (cc_model (ew_cc w2))"
      "cm_transaction (cc_model (ew_cc w2)) = Some t" "tx_revision t = cm_revision (cc_model (ew_cc w2))"
      "tx_target t = cm_config_path (cc_model (ew_cc w2))" "ew_events w2 = []" "ew_worker w2 = Some t"
    using m1 b by (simp_all add: w2_def with_spawn_def)
  have run: "config_task_run sample_task_env t = Some (Inr CvSaved, 0, True)"
    by (simp add: config_task_run_def sample_task_env_def t(2) process_outcome_def)
  have r3: "editor_run ?e ''/'' (Suc (Suc (Suc 0)))
      (w2\<lparr>ew_worker := None, ew_events := ew_events w2 @ [EvFinished (Completion_new t (Inr CvSaved))],
        ew_files := (if True then (ew_files w2)(tx_target t \<mapsto> tx_captured t) else ew_files w2)\<rparr>)"
    by (rule editor_run.step [OF r2 editor_step.worked [OF t(8) run]])
  then show ?thesis using t by (intro exI [of _ "w2\<lparr>ew_worker := None, ew_events := ew_events w2 @ [EvFinished (Completion_new t (Inr CvSaved))],
        ew_files := (if True then (ew_files w2)(tx_target t \<mapsto> tx_captured t) else ew_files w2)\<rparr>"] exI [of _ t])
      (simp add: numeral_eq_Suc)
qed

lemma clean_form_is_on_disk_witness:
  "\<exists>w es cc. editor_run (\<lambda>_. None) ''/'' 3 w \<and> poll_config_task (\<lambda>_. None) ''/'' (take 1 (ew_events w)) False (ew_cc w) = (es, cc)
    \<and> \<not> cm_dirty (cc_model cc) \<and> ew_files w (cm_config_path (cc_model cc)) = Some (render_config (cm_config (cc_model cc)))"
proof -
  obtain w t where w: "editor_run (\<lambda>_. None) ''/'' 3 w" "cc_task (ew_cc w) = Some (t, False)" "tx_kind t = TxSave"
      "cm_dirty (cc_model (ew_cc w))" "cm_transaction (cc_model (ew_cc w)) = Some t"
      "ew_events w = [EvFinished (Completion_new t (Inr CvSaved))]" "tx_revision t = cm_revision (cc_model (ew_cc w))"
      "tx_target t = cm_config_path (cc_model (ew_cc w))"
    using sample_saved by blast
  obtain es cc where p: "poll_config_task (\<lambda>_. None) ''/'' (take 1 (ew_events w)) False (ew_cc w) = (es, cc)" by force
  have "\<not> cm_dirty (cc_model cc)"
    using p w(2,3,5-8) by (auto simp: poll_config_task_def numeral_eq_Suc finish_config_task_def Completion_new_def
        finish_transaction_def owns_def Let_def)
  then show ?thesis using clean_form_is_on_disk [OF w(1) _ w(2,3,4) _ p] w(1) p by auto
qed

end
