(* ===== verification/Spec2Isabelle.thy ===== *)
theory Spec2Isabelle
  imports Prelude Input Config_Types Std_Text Config_Parse Config_Valid Config_Dump Config_Load
    Pointer Mapping_Axes Aim Engine Calibration Trace Hid_Model Decode Recovery Decode_Axes
    Udev_Facts Device_Properties Ipc_Properties Session_Facts Bridge_Properties Runtime_Properties
    Platform_Facts Cli_Facts Editor_Facts
begin

text \<open>
  wiiland: a daemon that reads Nintendo Wii controllers through the Linux kernel driver and drives
  virtual input devices, with the library of its socket protocol.

  \<^bold>\<open>The program.\<close> The kernel driver gives each controller up to ten evdev interfaces.
  \<open>crates/wiiland-hid\<close> finds the controllers through udev, opens the interfaces, decodes their raw
  events and repairs the state of the keys after the kernel dropped events. \<open>crates/wiiland-core\<close> is
  pure: it turns a decoded event into actions on a virtual controller, keyboard and mouse, as its
  configuration says. \<open>crates/wiilandd\<close> joins the two in one thread: a bridge per controller owns its
  interfaces, its engine and its virtual devices; the reactor (\<open>runtime.rs\<close>) owns 32 bridges, finds
  new controllers, and serves the clients of a local socket, which it tells of arrivals, removals and
  input. \<open>crates/wiiland-ipc\<close> is the protocol and the client side of that socket.

  \<^bold>\<open>Reading the model.\<close> A Rust struct is a record, an enum a datatype, a function a definition of the
  same name (prefixed by its type where the name alone clashes). Unsigned values that the code combines
  bit by bit are words; \<open>i32\<close> and \<open>i64\<close> are integers whose casts and wraps are written out
  (\<open>Prelude\<close>). A call that fails returns a sum or an option, a panic is a value too. Whatever comes from
  outside (system calls, udev, the clock, JSON) is an argument: a list or a function that holds the
  answers of the calls to come, never an assumption on them unless a theorem names it.

  \<^bold>\<open>Core\<close> (\<open>crates/wiiland-core/src\<close>).
  \<^item> \<open>Prelude\<close>, \<open>Input\<close>: integers, bit sets (locale \<open>bit_set\<close>), kept invariants (locale
    \<open>kept_invariant\<close>); buttons and sources of \<open>input.rs\<close>.
  \<^item> \<open>Config_Types\<close>, \<open>Std_Text\<close>, \<open>Config_Parse\<close>, \<open>Config_Valid\<close>, \<open>Config_Dump\<close>, \<open>Config_Load\<close>: \<open>config.rs\<close> and
    \<open>config_io.rs\<close>. Parsing runs on bytes, with the UTF-8 check and the trimming of the standard
    library. Shown: what is parsed is valid; where parsing panics; a dumped configuration parses to
    itself exactly when it is one that a file can say; loading layers is parsing their concatenation. The options with a text form are instances of
    the locales \<open>text_value\<close> and \<open>exact_text\<close>.
  \<^item> \<open>Pointer\<close>, \<open>Aim\<close>, \<open>Mapping_Axes\<close>, \<open>Engine\<close>: \<open>pointer.rs\<close>, \<open>aim.rs\<close>, \<open>mapping.rs\<close>, \<open>engine.rs\<close>. Shown:
    movement and axes stay in the ranges of the virtual devices, no intermediate product leaves its
    machine type, the keys held on the virtual devices are exactly those the held buttons map to.
  \<^item> \<open>Calibration\<close>, \<open>Trace\<close>: \<open>calibration.rs\<close>, \<open>trace.rs\<close>.

  \<^bold>\<open>Controllers\<close> (\<open>crates/wiiland-hid/src\<close>).
  \<^item> \<open>Hid_Model\<close>, \<open>Decode\<close>, \<open>Decode_Axes\<close>, \<open>Recovery\<close>: \<open>model.rs\<close>, \<open>decode.rs\<close> and the replay of \<open>device.rs\<close>. Shown:
    after a loss of events the replay brings a client that follows the reports back to the state of the
    device.
  \<^item> \<open>Device\<close>, \<open>Device_Facts\<close>, \<open>Device_Invariant\<close>, \<open>Device_Scan\<close>, \<open>Device_Properties\<close>: the interface table, opening,
    closing, the udev watch of one controller, reading and dispatch. Shown: descriptors are never leaked
    or shared, removal is final, no interface starves the others, pending events always leave the
    controller's descriptor readable.
  \<^item> \<open>Udev\<close>, \<open>Udev_Facts\<close>: \<open>monitor.rs\<close>, the scan and the attribute files of \<open>backend.rs\<close>, and rumble, LEDs, battery
    and attributes of \<open>device.rs\<close>. Shown: a watch reports each arrival once, a scan finds exactly the
    interfaces the kernel lists, a value is written whole or the error is reported.

  \<^bold>\<open>Protocol and clients\<close> (\<open>crates/wiiland-ipc/src\<close>).
  \<^item> \<open>Protocol\<close>, \<open>Frames\<close>: \<open>protocol.rs\<close>; JSON is a pair of functions. Shown: the frames found do not depend
    on how the stream is cut, and an encoded message arrives.
  \<^item> \<open>Ipc_Reader\<close>, \<open>Ipc_Reader_Facts\<close>: \<open>client.rs\<close>. \<open>Session\<close>, \<open>Session_Facts\<close>: \<open>session.rs\<close>, \<open>capture.rs\<close>, as steps of a
    worker and a consumer. Shown: every notification reaches the consumer once and in order or is
    accounted for, and the end comes after the last event.

  \<^bold>\<open>Daemon\<close> (\<open>crates/wiilandd/src\<close>).
  \<^item> \<open>Ipc_Client\<close>, \<open>Ipc_Client_Facts\<close>, \<open>Ipc_Server\<close>, \<open>Ipc_Server_Facts\<close>, \<open>Ipc_Properties\<close>: \<open>ipc/connection.rs\<close> and \<open>ipc/mod.rs\<close>. Shown:
    the invariant of the server over all its steps, bounded queues, requests answered once and a
    connection given up only for a stated cause, a stream never torn.
  \<^item> \<open>Uinput\<close>, \<open>Bridge\<close>, \<open>Bridge_Facts\<close>, \<open>Bridge_Properties\<close>: \<open>uinput.rs\<close>, \<open>bridge.rs\<close>. Shown: the kernel's view of
    the keys of a virtual device agrees with the engine, the interface masks are truthful, a capture
    opens what the kernel lets it open and never reaches the outputs, only events the device was set up for
    are written.
  \<^item> \<open>Diag_Writer\<close>, \<open>Runtime\<close>: \<open>diagnostics.rs\<close>, \<open>runtime.rs\<close> over the traits of \<open>platform.rs\<close>. The source is
    generic in the device; so is the model, whose \<open>session_ops\<close> is the trait as a record. \<open>Runtime_Facts\<close>
    states what the reactor needs of a device as the locale \<open>device_session\<close> and proves, inside it, that
    every operation keeps the slots distinct and tells its clients what became of the table (\<open>runs\<close>);
    \<open>Runtime_Discovery\<close> adds captures and discovery, and \<open>Runtime_Kept\<close>, in the locale \<open>kept_devices\<close>, carries what the
    opening of a device establishes and its methods preserve to every slot of the table; \<open>Bridge_Session\<close>
    gives the trait's methods for a bridge and interprets both locales, and \<open>Runtime_Properties\<close> draws the theorems for the daemon.
  \<^item> \<open>Platform\<close>, \<open>Platform_Facts\<close>: \<open>platform.rs\<close>, the worker that enumerates the controllers, with its two channels.
    Shown: a snapshot is complete or an error, and while one is pending exactly one is on its way, however
    the worker and the reactor interleave.
  \<^item> \<open>Cli\<close>, \<open>Cli_Facts\<close>: \<open>cli.rs\<close>, the two passes over the command line with the configuration loaded in
    between. Shown: an accepted line has a valid configuration; the passes agree on the action unless the
    value of an option is itself an option, and an example where they do not.

  \<^bold>\<open>Configuration editor\<close> (\<open>crates/wiiland-config/src\<close>).
  \<^item> \<open>Editor\<close>, \<open>Editor_Facts\<close>: \<open>model.rs\<close>, the worker of \<open>config_task.rs\<close>, the samples of \<open>live.rs\<close>, the arguments and
    results of \<open>process.rs\<close>, and what \<open>ui.rs\<close> does besides drawing. Shown, over all interleavings of the user,
    the worker and the window's polling: the mark of unsaved changes goes out after a save only if the file
    holds the form; what is saved reads back exactly when a file can say it; the log is bounded and keeps the newest text.

  \<^bold>\<open>Bounds and fuel.\<close> Loops over a list of answers end with the list. \<open>frame_loop\<close> and the budgets of
  connections (\<open>ACCEPT_BUDGET\<close>, \<open>READ_BUDGET\<close>, \<open>FRAME_BUDGET\<close>, \<open>WRITE_BUDGET\<close>), of a drain
  (\<open>MAX_EVENTS_PER_DRAIN\<close>) and of discovery (\<open>DEVICE_SETUP_BUDGET\<close>) are the source's own. The search of the
  server for a free token is a partial function, and \<open>reactor_round_returns\<close> shows that it ends in
  every reachable state; the deadlines advance by functions with termination proofs.

  \<^bold>\<open>Not modelled.\<close> The libudev and libc bindings and the system backends, which only call C; the creation
  and locking of the socket file; signals; serde's JSON; the diagnostic commands and their reports, the
  drawing of the configuration editor and its child processes, the viewer and the dump tool, which are
  input and output over the modelled library; the packaging tool \<open>xtask\<close>. Registering descriptors with epoll is left out of \<open>Device\<close>.
\<close>

end
